(* ===== verification/Prelude.thy ===== *)
theory Prelude
  imports Main "HOL-Library.Word" "HOL-Library.List_Lexorder" "HOL-Library.Char_ord"
begin

text \<open>
  Shared vocabulary of the development: results with an error side, the parts of Rust's
  \<open>str\<close>, \<open>i64\<close> and \<open>Vec\<close> interfaces that the modelled sources call, and the lemmas about
  them that the component theories share.

  A Rust \<open>String\<close> is its UTF-8 byte sequence: a HOL \<open>string\<close> whose characters are bytes. Then
  \<open>Ord\<close> on strings is the lexicographic byte order (HOL-Library.List_Lexorder), and every
  search for ASCII text is a search for those bytes. The functions that Rust defines per
  character (\<open>chars\<close>, \<open>trim\<close>) read the UTF-8 sequences explicitly.
  A Rust \<open>i64\<close> is a \<open>64 word\<close> read with \<open>sint\<close>; \<open>usize\<close> lengths are \<open>nat\<close>.
\<close>

named_theorems result_simps \<open>unfolding of the result operations\<close>
named_theorems text_simps \<open>equations of the string operations\<close>

section \<open>Results\<close>

text \<open>\<open>Result<T, E>\<close> is \<open>'e + 'a\<close>: \<open>Inl\<close> is \<open>Err\<close> and \<open>Inr\<close> is \<open>Ok\<close>. \<open>rbind\<close> is the \<open>?\<close> operator.\<close>

type_synonym ('e, 'a) result = "'e + 'a"

definition rbind :: "('e, 'a) result \<Rightarrow> ('a \<Rightarrow> ('e, 'b) result) \<Rightarrow> ('e, 'b) result" where
  "rbind m f = (case m of Inl e \<Rightarrow> Inl e | Inr a \<Rightarrow> f a)"

definition ok_or :: "'e \<Rightarrow> 'a option \<Rightarrow> ('e, 'a) result" where
  "ok_or e x = (case x of None \<Rightarrow> Inl e | Some a \<Rightarrow> Inr a)"

definition is_ok :: "('e, 'a) result \<Rightarrow> bool" where
  "is_ok m = (case m of Inl _ \<Rightarrow> False | Inr _ \<Rightarrow> True)"

fun traverse :: "('a \<Rightarrow> ('e, 'b) result) \<Rightarrow> 'a list \<Rightarrow> ('e, 'b list) result" where
  "traverse f [] = Inr []"
| "traverse f (x # xs) = rbind (f x) (\<lambda>y. rbind (traverse f xs) (\<lambda>ys. Inr (y # ys)))"

lemma rbind_simps [simp, result_simps]:
  "rbind (Inl e) f = Inl e"
  "rbind (Inr a) f = f a"
  by (simp_all add: rbind_def)

lemma ok_or_simps [simp, result_simps]:
  "ok_or e None = Inl e"
  "ok_or e (Some a) = Inr a"
  by (simp_all add: ok_or_def)

lemma is_ok_simps [simp, result_simps]:
  "\<not> is_ok (Inl e)"
  "is_ok (Inr a)"
  by (simp_all add: is_ok_def)

lemma rbind_eq_Inr [simp]: "rbind m f = Inr b \<longleftrightarrow> (\<exists>a. m = Inr a \<and> f a = Inr b)"
  by (cases m) simp_all

lemma rbind_eq_Inl: "rbind m f = Inl e \<longleftrightarrow> m = Inl e \<or> (\<exists>a. m = Inr a \<and> f a = Inl e)"
  by (cases m) simp_all

lemma ok_or_eq_Inr [simp]: "ok_or e x = Inr a \<longleftrightarrow> x = Some a"
  by (cases x) simp_all

lemma ok_or_eq_Inl [simp]: "ok_or e x = Inl e' \<longleftrightarrow> x = None \<and> e = e'"
  by (cases x) simp_all

lemma is_ok_iff: "is_ok m \<longleftrightarrow> (\<exists>a. m = Inr a)"
  by (cases m) simp_all

lemma rbind_cong [fundef_cong]:
  "m = m' \<Longrightarrow> (\<And>a. m' = Inr a \<Longrightarrow> f a = f' a) \<Longrightarrow> rbind m f = rbind m' f'"
  by (cases m') simp_all

lemma traverse_cong [fundef_cong]:
  "xs = ys \<Longrightarrow> (\<And>x. x \<in> set ys \<Longrightarrow> f x = g x) \<Longrightarrow> traverse f xs = traverse g ys"
  by (induction ys arbitrary: xs) (simp_all cong: rbind_cong)

lemma traverse_Inr: "traverse f xs = Inr ys \<longleftrightarrow> list_all2 (\<lambda>x y. f x = Inr y) xs ys"
proof (induction xs arbitrary: ys)
  case Nil
  then show ?case by auto
next
  case (Cons x xs)
  then show ?case by (cases ys) auto
qed

lemma traverse_Inl_first:
  assumes "traverse f xs = Inl e"
  shows "\<exists>us x vs. xs = us @ x # vs \<and> f x = Inl e \<and> (\<forall>u\<in>set us. is_ok (f u))"
  using assms
proof (induction xs)
  case Nil
  then show ?case by simp
next
  case (Cons x xs)
  show ?case
  proof (cases "f x")
    case (Inl a)
    with Cons.prems show ?thesis
      by (intro exI [of _ "[]"]) auto
  next
    case (Inr b)
    with Cons obtain us y vs where "xs = us @ y # vs" "f y = Inl e" "\<forall>u\<in>set us. is_ok (f u)"
      by (auto simp: rbind_eq_Inl)
    with Inr show ?thesis
      by (intro exI [of _ "x # us"]) auto
  qed
qed

section \<open>Lists\<close>

lemma foldr_max_le: "foldr max ns 0 \<le> n \<longleftrightarrow> (\<forall>m\<in>set ns. m \<le> n)" for n :: nat
  by (induction ns) auto

section \<open>64-bit integers\<close>

type_synonym i64 = "64 word"

definition in_i64 :: "int \<Rightarrow> bool" where
  "in_i64 x \<longleftrightarrow> - (2 ^ 63) \<le> x \<and> x < 2 ^ 63"

definition i64_of_int :: "int \<Rightarrow> i64" where
  "i64_of_int x = word_of_int x"

text \<open>\<open>i64::checked_add\<close> and its siblings: \<open>None\<close> when the exact result is out of range.\<close>

definition checked_i64 :: "int \<Rightarrow> i64 option" where
  "checked_i64 x = (if in_i64 x then Some (i64_of_int x) else None)"

lemma sint_i64_range [simp]: "in_i64 (sint (w :: i64))"
  using sint_ge [of w] sint_lt [of w] by (simp add: in_i64_def)

lemma sint_i64_of_int [simp]: "in_i64 x \<Longrightarrow> sint (i64_of_int x) = x"
  by (simp add: in_i64_def i64_of_int_def signed_of_int signed_take_bit_int_eq_self)

lemma i64_of_int_sint [simp]: "i64_of_int (sint w) = w"
  by (simp add: i64_of_int_def)

lemma checked_i64_Some: "checked_i64 x = Some w \<longleftrightarrow> in_i64 x \<and> sint w = x"
  by (auto simp: checked_i64_def)

lemma checked_i64_None [simp]: "checked_i64 x = None \<longleftrightarrow> \<not> in_i64 x"
  by (simp add: checked_i64_def)

text \<open>Rust's \<open>/\<close> and \<open>%\<close> truncate towards zero.\<close>

definition trunc_div :: "int \<Rightarrow> int \<Rightarrow> int" where
  "trunc_div a b = sgn a * sgn b * (\<bar>a\<bar> div \<bar>b\<bar>)"

definition trunc_mod :: "int \<Rightarrow> int \<Rightarrow> int" where
  "trunc_mod a b = sgn a * (\<bar>a\<bar> mod \<bar>b\<bar>)"

lemma trunc_div_mod: "a = trunc_div a b * b + trunc_mod a b"
proof -
  have ab: "\<bar>a\<bar> = (\<bar>a\<bar> div \<bar>b\<bar>) * \<bar>b\<bar> + \<bar>a\<bar> mod \<bar>b\<bar>"
    by simp
  have "trunc_div a b * b + trunc_mod a b = sgn a * ((\<bar>a\<bar> div \<bar>b\<bar>) * (sgn b * b) + \<bar>a\<bar> mod \<bar>b\<bar>)"
    by (simp add: trunc_div_def trunc_mod_def algebra_simps)
  also have "sgn b * b = \<bar>b\<bar>"
    by (simp add: abs_sgn mult.commute)
  finally show ?thesis
    using ab by (simp add: sgn_mult_abs)
qed

end
