(* ===== verification/Text_Ops.thy ===== *)
theory Text_Ops
  imports Prelude
begin

text \<open>
  The part of Rust's \<open>str\<close> interface that the sources call, on UTF-8 byte sequences, and the
  decimal reading and printing of integers. Each operation is the standard library's; none of
  it is code of the repository, so no definition here is mapped to a source line.
\<close>

section \<open>Searching and splitting\<close>

fun strip_prefix :: "string \<Rightarrow> string \<Rightarrow> string option" where
  "strip_prefix [] s = Some s"
| "strip_prefix (p # ps) [] = None"
| "strip_prefix (p # ps) (c # cs) = (if p = c then strip_prefix ps cs else None)"

definition starts_with :: "string \<Rightarrow> string \<Rightarrow> bool" where
  "starts_with pat s = (strip_prefix pat s \<noteq> None)"

definition strip_suffix :: "string \<Rightarrow> string \<Rightarrow> string option" where
  "strip_suffix pat s = map_option rev (strip_prefix (rev pat) (rev s))"

definition ends_with :: "string \<Rightarrow> string \<Rightarrow> bool" where
  "ends_with pat s = (strip_suffix pat s \<noteq> None)"

text \<open>\<open>str::split_once\<close>: the text before and after the first occurrence.\<close>

fun split_once :: "string \<Rightarrow> string \<Rightarrow> (string \<times> string) option" where
  "split_once pat [] = (if pat = [] then Some ([], []) else None)"
| "split_once pat (c # cs) =
     (case strip_prefix pat (c # cs) of
        Some rest \<Rightarrow> Some ([], rest)
      | None \<Rightarrow> map_option (\<lambda>(a, b). (c # a, b)) (split_once pat cs))"

definition rsplit_once :: "string \<Rightarrow> string \<Rightarrow> (string \<times> string) option" where
  "rsplit_once pat s = map_option (\<lambda>(a, b). (rev b, rev a)) (split_once (rev pat) (rev s))"

definition str_contains :: "string \<Rightarrow> string \<Rightarrow> bool" where
  "str_contains pat s = (split_once pat s \<noteq> None)"

lemma strip_prefix_Some: "strip_prefix p s = Some r \<longleftrightarrow> s = p @ r"
  by (induction p s rule: strip_prefix.induct) auto

lemma strip_prefix_append [simp]: "strip_prefix p (p @ r) = Some r"
  by (simp add: strip_prefix_Some)

lemma starts_with_iff: "starts_with p s \<longleftrightarrow> (\<exists>r. s = p @ r)"
  by (auto simp: starts_with_def strip_prefix_Some)

lemma strip_suffix_Some: "strip_suffix p s = Some r \<longleftrightarrow> s = r @ p"
proof -
  have "strip_suffix p s = Some r \<longleftrightarrow> strip_prefix (rev p) (rev s) = Some (rev r)"
    by (auto simp: strip_suffix_def)
  also have "\<dots> \<longleftrightarrow> s = r @ p"
    by (metis strip_prefix_Some rev_append rev_rev_ident)
  finally show ?thesis .
qed

lemma ends_with_iff: "ends_with p s \<longleftrightarrow> (\<exists>r. s = r @ p)"
  by (auto simp: ends_with_def strip_suffix_Some)

lemma split_once_Some: "split_once p s = Some (a, b) \<Longrightarrow> s = a @ p @ b"
  by (induction p s arbitrary: a b rule: split_once.induct)
    (auto simp: strip_prefix_Some split: if_splits option.splits)

lemma split_once_None: "split_once p s = None \<longleftrightarrow> \<not> (\<exists>a b. s = a @ p @ b)"
proof (induction p s rule: split_once.induct)
  case (1 pat)
  then show ?case by auto
next
  case (2 pat c cs)
  have "(\<exists>a b. c # cs = a @ pat @ b) \<longleftrightarrow>
    (\<exists>b. c # cs = pat @ b) \<or> (\<exists>a b. cs = a @ pat @ b)" (is "?l \<longleftrightarrow> ?r")
  proof
    assume ?l
    then obtain a b where "c # cs = a @ pat @ b" by blast
    then show ?r by (cases a) auto
  next
    assume ?r
    then show ?l by (metis append_Cons append_Nil)
  qed
  moreover have "strip_prefix pat (c # cs) = None \<longleftrightarrow> \<not> (\<exists>b. c # cs = pat @ b)"
    using strip_prefix_Some [of pat "c # cs"] by (metis not_None_eq)
  ultimately show ?case
    using 2 by (cases "strip_prefix pat (c # cs)") simp_all
qed

lemma str_contains_iff: "str_contains p s \<longleftrightarrow> (\<exists>a b. s = a @ p @ b)"
  by (metis str_contains_def split_once_None)

lemma split_once_char_first: "split_once [c] s = Some (a, b) \<Longrightarrow> c \<notin> set a"
  by (induction s arbitrary: a b) (auto split: if_splits option.splits)

lemma split_once_char: "c \<notin> set a \<Longrightarrow> split_once [c] (a @ c # b) = Some (a, b)"
  by (induction a) auto

text \<open>\<open>str::split\<close> with a non-empty pattern; the sources never call it with an empty one.\<close>

function split_str :: "string \<Rightarrow> string \<Rightarrow> string list" where
  "split_str pat s =
     (if pat = [] then [s]
      else case split_once pat s of None \<Rightarrow> [s] | Some (a, b) \<Rightarrow> a # split_str pat b)"
  by pat_completeness auto
termination
proof (relation "measure (\<lambda>(p, s). length s)", simp)
  fix pat s x :: string and p a b
  assume "pat \<noteq> []" "split_once pat s = Some p" "(a, b) = p"
  then show "((pat, b), pat, s) \<in> measure (\<lambda>(p, s). length s)"
    using split_once_Some [of pat s a b] by (cases pat) auto
qed

declare split_str.simps [simp del]

fun str_join :: "string \<Rightarrow> string list \<Rightarrow> string" where
  "str_join sep [] = []"
| "str_join sep [x] = x"
| "str_join sep (x # y # ys) = x @ sep @ str_join sep (y # ys)"

text \<open>\<open>str::replace\<close> and \<open>str::replacen(_, _, 1)\<close>.\<close>

definition replace_str :: "string \<Rightarrow> string \<Rightarrow> string \<Rightarrow> string" where
  "replace_str pat v s = str_join v (split_str pat s)"

definition replace_first :: "string \<Rightarrow> string \<Rightarrow> string \<Rightarrow> string" where
  "replace_first pat v s = (case split_once pat s of None \<Rightarrow> s | Some (a, b) \<Rightarrow> a @ v @ b)"

lemma split_str_nonempty [simp]: "split_str p s \<noteq> []"
  by (subst split_str.simps) (simp split: option.split prod.split)

lemma str_join_Cons: "xs \<noteq> [] \<Longrightarrow> str_join sep (x # xs) = x @ sep @ str_join sep xs"
  by (cases xs) simp_all

lemma join_split: "str_join p (split_str p s) = s"
proof (induction p s rule: split_str.induct)
  case (1 pat s)
  show ?case
  proof (cases "pat = [] \<or> split_once pat s = None")
    case True
    then show ?thesis by (subst split_str.simps) auto
  next
    case False
    then obtain a b where ab: "split_once pat s = Some (a, b)" by auto
    with 1 False have "str_join pat (split_str pat b) = b" by simp
    with False ab split_once_Some [OF ab] show ?thesis
      by (subst split_str.simps) (simp add: str_join_Cons)
  qed
qed

lemma split_str_absent: "split_once p s = None \<Longrightarrow> split_str p s = [s]"
  by (subst split_str.simps) simp

lemma replace_absent: "\<not> str_contains p s \<Longrightarrow> replace_str p v s = s"
  by (metis replace_str_def str_contains_def split_str_absent str_join.simps(2))

lemma split_str_char_step: "c \<notin> set a \<Longrightarrow> split_str [c] (a @ c # b) = a # split_str [c] b"
  by (subst split_str.simps) (simp add: split_once_char)

lemma split_str_char_none: "c \<notin> set a \<Longrightarrow> split_str [c] a = [a]"
  using split_str_absent [of "[c]" a] split_once_None [of "[c]" a] by fastforce

lemma split_join_char:
  assumes "xs \<noteq> []" and "\<forall>x\<in>set xs. c \<notin> set x"
  shows "split_str [c] (str_join [c] xs) = xs"
  using assms
proof (induction xs)
  case Nil
  then show ?case by simp
next
  case (Cons x xs)
  then show ?case
    by (cases xs) (simp_all add: split_str_char_none split_str_char_step)
qed

lemma split_str_char_pieces: "x \<in> set (split_str [c] s) \<Longrightarrow> c \<notin> set x"
proof (induction "[c]" s rule: split_str.induct)
  case (1 s)
  show ?case
  proof (cases "split_once [c] s")
    case None
    with 1 have "x = s" by (simp add: split_str_absent)
    moreover have "c \<notin> set s"
      using None split_once_None [of "[c]" s] by (metis append_Cons append_Nil in_set_conv_decomp)
    ultimately show ?thesis by simp
  next
    case (Some ab)
    then obtain a b where ab: "split_once [c] s = Some (a, b)" by (cases ab) auto
    from 1(2) ab have "x = a \<or> x \<in> set (split_str [c] b)"
      by (subst (asm) split_str.simps) simp
    with 1(1) ab split_once_char_first [OF ab] show ?thesis by auto
  qed
qed

section \<open>UTF-8 characters\<close>

definition byte :: "int \<Rightarrow> char" where
  "byte n = char_of n"

definition is_continuation :: "char \<Rightarrow> bool" where
  "is_continuation c \<longleftrightarrow> 128 \<le> (of_char c :: int) \<and> (of_char c :: int) < 192"

text \<open>\<open>str::chars\<close>: each character is a lead byte and the continuation bytes after it.\<close>

function utf8_chars :: "string \<Rightarrow> string list" where
  "utf8_chars [] = []"
| "utf8_chars (c # cs) =
     (c # takeWhile is_continuation cs) # utf8_chars (dropWhile is_continuation cs)"
  by pat_completeness auto
termination
  by (relation "measure length") (simp_all add: le_imp_less_Suc length_dropWhile_le)

declare utf8_chars.simps(2) [simp del]

lemma concat_utf8_chars: "concat (utf8_chars s) = s"
  by (induction s rule: utf8_chars.induct) (simp_all add: utf8_chars.simps(2))

definition is_ascii_digit :: "char \<Rightarrow> bool" where
  "is_ascii_digit c \<longleftrightarrow> 48 \<le> (of_char c :: int) \<and> (of_char c :: int) \<le> 57"

text \<open>
  \<open>char::is_whitespace\<close>: the characters with the Unicode property White_Space, as UTF-8
  sequences (U+0009 to U+000D, U+0020, U+0085, U+00A0, U+1680, U+2000 to U+200A, U+2028,
  U+2029, U+202F, U+205F, U+3000).
\<close>

definition whitespace_chars :: "string list" where
  "whitespace_chars =
     map (\<lambda>n. [byte n]) [9, 10, 11, 12, 13, 32] @
     [[byte 194, byte 133], [byte 194, byte 160], [byte 225, byte 154, byte 128]] @
     map (\<lambda>n. [byte 226, byte 128, byte n])
       [128, 129, 130, 131, 132, 133, 134, 135, 136, 137, 138, 168, 169, 175] @
     [[byte 226, byte 129, byte 159], [byte 227, byte 128, byte 128]]"

definition is_whitespace :: "string \<Rightarrow> bool" where
  "is_whitespace c = List.member whitespace_chars c"

definition trim :: "string \<Rightarrow> string" where
  "trim s = concat (rev (dropWhile is_whitespace (rev (dropWhile is_whitespace (utf8_chars s)))))"

section \<open>Numbers in decimal\<close>

text \<open>Magnitudes are non-negative \<open>int\<close>s, so that the kernel evaluates them in binary.\<close>

definition digit_char :: "int \<Rightarrow> char" where
  "digit_char n = char_of (48 + n)"

function show_digits :: "int \<Rightarrow> string" where
  "show_digits n =
     (if n < 10 then [digit_char n] else show_digits (n div 10) @ [digit_char (n mod 10)])"
  by pat_completeness auto
termination
  by (relation "measure nat") auto

declare show_digits.simps [simp del]

definition show_int :: "int \<Rightarrow> string" where
  "show_int i = (if i < 0 then CHR ''-'' # show_digits (- i) else show_digits i)"

definition digit_val :: "char \<Rightarrow> int" where
  "digit_val c = of_char c - 48"

definition digits_val :: "string \<Rightarrow> int" where
  "digits_val s = foldl (\<lambda>n c. 10 * n + digit_val c) 0 s"

definition parse_digits :: "string \<Rightarrow> int option" where
  "parse_digits s = (if s \<noteq> [] \<and> list_all is_ascii_digit s then Some (digits_val s) else None)"

text \<open>\<open>str::parse::<i64>\<close>: an optional sign, at least one digit, a value in range.\<close>

definition parse_i64 :: "string \<Rightarrow> i64 option" where
  "parse_i64 s =
     (case s of
        [] \<Rightarrow> None
      | c # cs \<Rightarrow>
          if c = CHR ''-'' then Option.bind (parse_digits cs) (\<lambda>n. checked_i64 (- n))
          else if c = CHR ''+'' then Option.bind (parse_digits cs) checked_i64
          else Option.bind (parse_digits s) checked_i64)"

lemma of_char_digit_char: "0 \<le> n \<Longrightarrow> n < 10 \<Longrightarrow> (of_char (digit_char n) :: int) = 48 + n"
  by (simp add: digit_char_def)

lemma digit_char_props [simp]:
  assumes "0 \<le> n" and "n < 10"
  shows "is_ascii_digit (digit_char n)" and "digit_val (digit_char n) = n"
  using assms by (simp_all add: is_ascii_digit_def digit_val_def of_char_digit_char)

lemma digits_val_snoc [simp]: "digits_val (s @ [c]) = 10 * digits_val s + digit_val c"
  by (simp add: digits_val_def)

lemma show_digits_digits: "0 \<le> n \<Longrightarrow> list_all is_ascii_digit (show_digits n)"
proof (induction n rule: show_digits.induct)
  case (1 n)
  then show ?case by (subst show_digits.simps) simp
qed

lemma show_digits_nonempty [simp]: "show_digits n \<noteq> []"
  by (subst show_digits.simps) simp

lemma digits_val_show_digits [simp]: "0 \<le> n \<Longrightarrow> digits_val (show_digits n) = n"
proof (induction n rule: show_digits.induct)
  case (1 n)
  show ?case
  proof (cases "n < 10")
    case True
    with 1 show ?thesis by (subst show_digits.simps) (simp add: digits_val_def)
  next
    case False
    with 1 show ?thesis by (subst show_digits.simps) simp
  qed
qed

lemma parse_digits_show_digits [simp]: "0 \<le> n \<Longrightarrow> parse_digits (show_digits n) = Some n"
  by (simp add: parse_digits_def show_digits_digits)

lemma show_digits_no_sign:
  "0 \<le> n \<Longrightarrow> show_digits n = c # cs \<Longrightarrow> c \<noteq> CHR ''-'' \<and> c \<noteq> CHR ''+''"
  using show_digits_digits [of n] by (auto simp: is_ascii_digit_def)

lemma parse_i64_show_int: "parse_i64 (show_int i) = checked_i64 i"
proof (cases "i < 0")
  case True
  then show ?thesis by (simp add: show_int_def parse_i64_def)
next
  case False
  obtain c cs where s: "show_digits i = c # cs"
    using show_digits_nonempty [of i] by (cases "show_digits i") auto
  have "parse_digits (c # cs) = Some i"
    using parse_digits_show_digits [of i] s False by simp
  with False s show_digits_no_sign [OF _ s] show ?thesis
    by (simp add: show_int_def parse_i64_def)
qed

lemma parse_i64_show_sint [simp]: "parse_i64 (show_int (sint w)) = Some w"
  by (simp add: parse_i64_show_int checked_i64_def)

lemma show_int_inject: "show_int i = show_int j \<longleftrightarrow> i = j"
proof
  assume eq: "show_int i = show_int j"
  have pos: "show_digits n \<noteq> CHR ''-'' # cs" if "0 \<le> n" for n cs
    using show_digits_no_sign [OF that] by blast
  have inj: "m = n" if "show_digits m = show_digits n" "0 \<le> m" "0 \<le> n" for m n
    using that digits_val_show_digits by metis
  show "i = j"
    using eq pos [of i "show_digits (- j)"] pos [of j "show_digits (- i)"]
      inj [of i j] inj [of "- i" "- j"]
    by (cases "i < 0"; cases "j < 0") (auto simp: show_int_def)
qed simp

section \<open>Debug rendering of strings\<close>

definition hex_digit :: "int \<Rightarrow> char" where
  "hex_digit n = (if n < 10 then char_of (48 + n) else char_of (87 + n))"

function show_hex :: "int \<Rightarrow> string" where
  "show_hex n = (if n < 16 then [hex_digit n] else show_hex (n div 16) @ [hex_digit (n mod 16)])"
  by pat_completeness auto
termination
  by (relation "measure nat") auto

declare show_hex.simps [simp del]

text \<open>
  The \<open>{:?}\<close> form of a \<open>str\<close>: quotes, backslashes and ASCII control characters are escaped.
  Every byte of a non-ASCII character is copied; which of those characters Rust escapes instead
  (unprintable ones and combining marks) is decided by Unicode tables outside the model.
\<close>

definition debug_char :: "char \<Rightarrow> string" where
  "debug_char c =
     (if c = CHR 0x22 then [CHR 0x5C, CHR 0x22]
      else if c = CHR 0x5C then [CHR 0x5C, CHR 0x5C]
      else if c = CHR 0x0A then [CHR 0x5C, CHR ''n'']
      else if c = CHR 0x0D then [CHR 0x5C, CHR ''r'']
      else if c = CHR 0x09 then [CHR 0x5C, CHR ''t'']
      else if c = CHR 0x00 then [CHR 0x5C, CHR ''0'']
      else if (of_char c :: int) < 32 \<or> (of_char c :: int) = 127
        then [CHR 0x5C, CHR ''u'', CHR 0x7B] @ show_hex (of_char c) @ [CHR 0x7D]
      else [c])"

definition debug_str :: "string \<Rightarrow> string" where
  "debug_str s = CHR 0x22 # concat (map debug_char s) @ [CHR 0x22]"

text \<open>The em dash the refusal wordings use, U+2014.\<close>

definition em_dash :: string where
  "em_dash = [CHR 0xE2, CHR 0x80, CHR 0x94]"

end
