(* ===== verification/Refusals.thy ===== *)
theory Refusals
  imports Text_Ops
begin

text \<open>
  \<open>rust/expr/src/refusal.rs\<close> and \<open>rust/src/kernel/vocab/refusal_class.rs\<close>: why a dispatch or an
  expression was refused, and the closed set of refusal classes the vocabulary declares.
\<close>

datatype refusal =
    GivenNotMet string
  | EnsuresNotMet string
  | InvariantViolation string
  | LifecycleRefused string
  | AlreadyExists string
  | NotFound string
  | TypeMismatch string
  | AbsentArgument string
  | UnknownArgument string
  | Unauthorized string
  | Fault string
  | NothingToCorrect string

type_synonym 'a res = "(refusal, 'a) result"

fun refusal_kind :: "refusal \<Rightarrow> string" where
  "refusal_kind (GivenNotMet _) = ''GivenNotMet''"
| "refusal_kind (EnsuresNotMet _) = ''EnsuresNotMet''"
| "refusal_kind (InvariantViolation _) = ''InvariantViolation''"
| "refusal_kind (LifecycleRefused _) = ''LifecycleRefused''"
| "refusal_kind (AlreadyExists _) = ''AlreadyExists''"
| "refusal_kind (NotFound _) = ''NotFound''"
| "refusal_kind (TypeMismatch _) = ''TypeMismatch''"
| "refusal_kind (AbsentArgument _) = ''AbsentArgument''"
| "refusal_kind (UnknownArgument _) = ''UnknownArgument''"
| "refusal_kind (Unauthorized _) = ''Unauthorized''"
| "refusal_kind (Fault _) = ''Fault''"
| "refusal_kind (NothingToCorrect _) = ''NothingToCorrect''"

text \<open>\<open>Display\<close>: the message alone.\<close>

fun refusal_message :: "refusal \<Rightarrow> string" where
  "refusal_message (GivenNotMet msg) = msg"
| "refusal_message (EnsuresNotMet msg) = msg"
| "refusal_message (InvariantViolation msg) = msg"
| "refusal_message (LifecycleRefused msg) = msg"
| "refusal_message (AlreadyExists msg) = msg"
| "refusal_message (NotFound msg) = msg"
| "refusal_message (TypeMismatch msg) = msg"
| "refusal_message (AbsentArgument msg) = msg"
| "refusal_message (UnknownArgument msg) = msg"
| "refusal_message (Unauthorized msg) = msg"
| "refusal_message (Fault msg) = msg"
| "refusal_message (NothingToCorrect msg) = msg"

text \<open>The kind and the message together determine the refusal.\<close>

lemma refusal_eqI:
  "refusal_kind r = refusal_kind r' \<Longrightarrow> refusal_message r = refusal_message r' \<Longrightarrow> r = r'"
  by (cases r; cases r') simp_all

section \<open>Refusal classes\<close>

datatype refusal_class =
    RC_AbsentArgument
  | RC_AlreadyExists
  | RC_AttributeAbsent
  | RC_EnsuresNotMet
  | RC_GivenNotMet
  | RC_InvariantViolation
  | RC_LifecycleRefused
  | RC_NothingToCorrect
  | RC_NotFound
  | RC_ProjectionAbsent
  | RC_RemoteRefusal
  | RC_TypeMismatch
  | RC_Unauthorized
  | RC_UnknownArgument
  | RC_UnknownVerb

definition all_classes :: "refusal_class list" where
  "all_classes =
     [RC_AbsentArgument, RC_AlreadyExists, RC_AttributeAbsent, RC_EnsuresNotMet, RC_GivenNotMet,
      RC_InvariantViolation, RC_LifecycleRefused, RC_NothingToCorrect, RC_NotFound,
      RC_ProjectionAbsent, RC_RemoteRefusal, RC_TypeMismatch, RC_Unauthorized,
      RC_UnknownArgument, RC_UnknownVerb]"

fun class_name :: "refusal_class \<Rightarrow> string" where
  "class_name RC_AbsentArgument = ''AbsentArgument''"
| "class_name RC_AlreadyExists = ''AlreadyExists''"
| "class_name RC_AttributeAbsent = ''AttributeAbsent''"
| "class_name RC_EnsuresNotMet = ''EnsuresNotMet''"
| "class_name RC_GivenNotMet = ''GivenNotMet''"
| "class_name RC_InvariantViolation = ''InvariantViolation''"
| "class_name RC_LifecycleRefused = ''LifecycleRefused''"
| "class_name RC_NothingToCorrect = ''NothingToCorrect''"
| "class_name RC_NotFound = ''NotFound''"
| "class_name RC_ProjectionAbsent = ''ProjectionAbsent''"
| "class_name RC_RemoteRefusal = ''RemoteRefusal''"
| "class_name RC_TypeMismatch = ''TypeMismatch''"
| "class_name RC_Unauthorized = ''Unauthorized''"
| "class_name RC_UnknownArgument = ''UnknownArgument''"
| "class_name RC_UnknownVerb = ''UnknownVerb''"

fun class_kind :: "refusal_class \<Rightarrow> string" where
  "class_kind RC_AbsentArgument = ''absent_argument''"
| "class_kind RC_NotFound = ''not_found''"
| "class_kind RC_Unauthorized = ''unauthorized''"
| "class_kind _ = ''refused''"

fun class_stage :: "refusal_class \<Rightarrow> string" where
  "class_stage RC_AbsentArgument = ''arguments''"
| "class_stage RC_AlreadyExists = ''state''"
| "class_stage RC_AttributeAbsent = ''state''"
| "class_stage RC_EnsuresNotMet = ''ensures''"
| "class_stage RC_GivenNotMet = ''givens''"
| "class_stage RC_InvariantViolation = ''invariants''"
| "class_stage RC_LifecycleRefused = ''state''"
| "class_stage RC_NothingToCorrect = ''state''"
| "class_stage RC_NotFound = ''state''"
| "class_stage RC_ProjectionAbsent = ''state''"
| "class_stage RC_RemoteRefusal = ''remote''"
| "class_stage RC_TypeMismatch = ''arguments''"
| "class_stage RC_Unauthorized = ''role''"
| "class_stage RC_UnknownArgument = ''arguments''"
| "class_stage RC_UnknownVerb = ''request''"

definition class_from_name :: "string \<Rightarrow> refusal_class option" where
  "class_from_name name = find (\<lambda>row. class_name row = name) all_classes"

end
