(* ===== verification/Float64.thy ===== *)
theory Float64
  imports Text_Ops
begin

text \<open>
  IEEE 754 binary64, as Rust's \<open>f64\<close> computes it: round to nearest, ties to even. A finite
  number \<open>F_Fin s m e\<close> is \<open>m * 2 ^ e\<close>, negated when \<open>s\<close>; its canonical form has
  \<open>m < 2 ^ 53\<close> and either \<open>2 ^ 52 \<le> m\<close> or the least exponent. Every operation computes its
  exact result on integers and rounds once, so all of it is executable in the kernel.
  Printing is the shortest decimal that reads back as the same number, as Rust prints it.
  None of this is code of the repository; it is the language's arithmetic.
\<close>

datatype f64 = F_NaN | F_Inf bool | F_Fin bool int int

datatype ordering = Less | Equal | Greater

definition min_exp :: int where "min_exp = -1074"
definition max_exp :: int where "max_exp = 971"

fun wf_f64 :: "f64 \<Rightarrow> bool" where
  "wf_f64 (F_Fin s m e) \<longleftrightarrow>
     0 \<le> m \<and> m < 2 ^ 53 \<and> min_exp \<le> e \<and> e \<le> max_exp \<and> (2 ^ 52 \<le> m \<or> e = min_exp)"
| "wf_f64 _ \<longleftrightarrow> True"

section \<open>Rounding\<close>

text \<open>Magnitudes are non-negative \<open>int\<close>s throughout, so that the kernel computes in binary.\<close>

function bit_count :: "int \<Rightarrow> int" where
  "bit_count n = (if n \<le> 0 then 0 else 1 + bit_count (n div 2))"
  by pat_completeness auto
termination
  by (relation "measure nat") auto

declare bit_count.simps [simp del]

text \<open>\<open>n / d\<close> measured in units of \<open>2 ^ e\<close>, as an integer ratio.\<close>

definition unit_num :: "int \<Rightarrow> int \<Rightarrow> int" where "unit_num n e = n * 2 ^ nat (- e)"
definition unit_den :: "int \<Rightarrow> int \<Rightarrow> int" where "unit_den d e = d * 2 ^ nat e"

definition round_exp :: "int \<Rightarrow> int \<Rightarrow> int" where
  "round_exp n d =
     (let k = bit_count n - bit_count d - 53
      in max min_exp (if unit_num n k div unit_den d k < 2 ^ 53 then k else k + 1))"

definition half_even :: "int \<Rightarrow> int \<Rightarrow> int" where
  "half_even n d =
     (let q = n div d; r = n mod d
      in if 2 * r < d \<or> (2 * r = d \<and> even q) then q else q + 1)"

text \<open>The nearest binary64 to \<open>n / d\<close> (with \<open>0 < d\<close>), negated when \<open>s\<close>.\<close>

definition round_ratio :: "bool \<Rightarrow> int \<Rightarrow> int \<Rightarrow> f64" where
  "round_ratio s n d =
     (if n = 0 then F_Fin s 0 min_exp
      else let e = round_exp n d;
               q = half_even (unit_num n e) (unit_den d e);
               (m, e') = (if q = 2 ^ 53 then (2 ^ 52, e + 1) else (q, e))
           in if max_exp < e' then F_Inf s else F_Fin s m e')"

definition round_scaled :: "bool \<Rightarrow> int \<Rightarrow> int \<Rightarrow> f64" where
  "round_scaled s m e = round_ratio s (m * 2 ^ nat e) (2 ^ nat (- e))"

section \<open>Arithmetic\<close>

definition f64_of_int :: "int \<Rightarrow> f64" where
  "f64_of_int i = round_ratio (i < 0) \<bar>i\<bar> 1"

definition f64_zero :: f64 where "f64_zero = F_Fin False 0 min_exp"

fun f64_neg :: "f64 \<Rightarrow> f64" where
  "f64_neg F_NaN = F_NaN"
| "f64_neg (F_Inf s) = F_Inf (\<not> s)"
| "f64_neg (F_Fin s m e) = F_Fin (\<not> s) m e"

fun f64_abs :: "f64 \<Rightarrow> f64" where
  "f64_abs F_NaN = F_NaN"
| "f64_abs (F_Inf s) = F_Inf False"
| "f64_abs (F_Fin s m e) = F_Fin False m e"

definition signed_int :: "bool \<Rightarrow> int \<Rightarrow> int" where
  "signed_int s m = (if s then - m else m)"

text \<open>The integer a finite number is in units of \<open>2 ^ e\<close>, for \<open>e\<close> not above its own exponent.\<close>

definition in_units :: "bool \<Rightarrow> int \<Rightarrow> int \<Rightarrow> int \<Rightarrow> int" where
  "in_units s m e e0 = signed_int s m * 2 ^ nat (e - e0)"

fun f64_add :: "f64 \<Rightarrow> f64 \<Rightarrow> f64" where
  "f64_add (F_Fin s m e) (F_Fin t n f) =
     (let u = min e f; a = in_units s m e u + in_units t n f u
      in if a = 0 then F_Fin (s \<and> t) 0 min_exp else round_scaled (a < 0) \<bar>a\<bar> u)"
| "f64_add (F_Inf s) (F_Inf t) = (if s = t then F_Inf s else F_NaN)"
| "f64_add (F_Inf s) (F_Fin t n f) = F_Inf s"
| "f64_add (F_Fin s m e) (F_Inf t) = F_Inf t"
| "f64_add _ _ = F_NaN"

definition f64_sub :: "f64 \<Rightarrow> f64 \<Rightarrow> f64" where
  "f64_sub x y = f64_add x (f64_neg y)"

fun f64_mul :: "f64 \<Rightarrow> f64 \<Rightarrow> f64" where
  "f64_mul (F_Fin s m e) (F_Fin t n f) = round_scaled (s \<noteq> t) (m * n) (e + f)"
| "f64_mul (F_Inf s) (F_Inf t) = F_Inf (s \<noteq> t)"
| "f64_mul (F_Inf s) (F_Fin t n f) = (if n = 0 then F_NaN else F_Inf (s \<noteq> t))"
| "f64_mul (F_Fin s m e) (F_Inf t) = (if m = 0 then F_NaN else F_Inf (s \<noteq> t))"
| "f64_mul _ _ = F_NaN"

fun f64_div :: "f64 \<Rightarrow> f64 \<Rightarrow> f64" where
  "f64_div (F_Fin s m e) (F_Fin t n f) =
     (if n = 0 then (if m = 0 then F_NaN else F_Inf (s \<noteq> t))
      else round_ratio (s \<noteq> t) (m * 2 ^ nat (e - f)) (n * 2 ^ nat (f - e)))"
| "f64_div (F_Inf s) (F_Inf t) = F_NaN"
| "f64_div (F_Inf s) (F_Fin t n f) = F_Inf (s \<noteq> t)"
| "f64_div (F_Fin s m e) (F_Inf t) = F_Fin (s \<noteq> t) 0 min_exp"
| "f64_div _ _ = F_NaN"

text \<open>Rust's \<open>%\<close> on floats: the remainder of the truncated quotient, with the dividend's sign.\<close>

fun f64_rem :: "f64 \<Rightarrow> f64 \<Rightarrow> f64" where
  "f64_rem (F_Fin s m e) (F_Fin t n f) =
     (if n = 0 then F_NaN
      else let u = min e f
           in round_scaled s ((m * 2 ^ nat (e - u)) mod (n * 2 ^ nat (f - u))) u)"
| "f64_rem (F_Fin s m e) (F_Inf t) = F_Fin s m e"
| "f64_rem _ _ = F_NaN"

section \<open>Comparison and classification\<close>

fun f64_cmp :: "f64 \<Rightarrow> f64 \<Rightarrow> ordering option" where
  "f64_cmp (F_Fin s m e) (F_Fin t n f) =
     (let u = min e f; a = in_units s m e u; b = in_units t n f u
      in Some (if a < b then Less else if a = b then Equal else Greater))"
| "f64_cmp (F_Inf s) (F_Inf t) = Some (if s = t then Equal else if s then Less else Greater)"
| "f64_cmp (F_Inf s) (F_Fin t n f) = Some (if s then Less else Greater)"
| "f64_cmp (F_Fin s m e) (F_Inf t) = Some (if t then Greater else Less)"
| "f64_cmp _ _ = None"

definition f64_lt :: "f64 \<Rightarrow> f64 \<Rightarrow> bool" where "f64_lt x y = (f64_cmp x y = Some Less)"
definition f64_eq :: "f64 \<Rightarrow> f64 \<Rightarrow> bool" where "f64_eq x y = (f64_cmp x y = Some Equal)"
definition f64_le :: "f64 \<Rightarrow> f64 \<Rightarrow> bool" where "f64_le x y = (f64_lt x y \<or> f64_eq x y)"

fun is_finite :: "f64 \<Rightarrow> bool" where
  "is_finite (F_Fin s m e) = True"
| "is_finite _ = False"

fun is_infinite :: "f64 \<Rightarrow> bool" where
  "is_infinite (F_Inf s) = True"
| "is_infinite _ = False"

fun is_sign_negative :: "f64 \<Rightarrow> bool" where
  "is_sign_negative (F_Fin s m e) = s"
| "is_sign_negative (F_Inf s) = s"
| "is_sign_negative F_NaN = False"

text \<open>\<open>x.fract() == 0.0\<close>: false for an infinity, whose fraction is NaN.\<close>

fun fract_zero :: "f64 \<Rightarrow> bool" where
  "fract_zero (F_Fin s m e) = (m mod 2 ^ nat (- e) = 0)"
| "fract_zero _ = False"

definition trunc_mag :: "int \<Rightarrow> int \<Rightarrow> int" where
  "trunc_mag m e = (m * 2 ^ nat e) div 2 ^ nat (- e)"

definition clamp_i64 :: "int \<Rightarrow> i64" where
  "clamp_i64 x = i64_of_int (max (- (2 ^ 63)) (min (2 ^ 63 - 1) x))"

text \<open>\<open>as i64\<close>: truncation towards zero, saturating at the bounds, zero for NaN.\<close>

fun f64_to_i64 :: "f64 \<Rightarrow> i64" where
  "f64_to_i64 F_NaN = 0"
| "f64_to_i64 (F_Inf s) = clamp_i64 (if s then - (2 ^ 64) else 2 ^ 64)"
| "f64_to_i64 (F_Fin s m e) = clamp_i64 (signed_int s (trunc_mag m e))"

section \<open>Decimal text\<close>

text \<open>
  The decimal exponent \<open>k\<close> with \<open>10 ^ k \<le> n / d < 10 ^ (k + 1)\<close>; 400 steps pass every
  binary64, whose decimal exponents lie between -324 and 308.
\<close>

fun dec_up :: "nat \<Rightarrow> int \<Rightarrow> int \<Rightarrow> int \<Rightarrow> int" where
  "dec_up 0 n d k = k"
| "dec_up (Suc g) n d k = (if 10 * d \<le> n then dec_up g n (10 * d) (k + 1) else k)"

fun dec_down :: "nat \<Rightarrow> int \<Rightarrow> int \<Rightarrow> int \<Rightarrow> int" where
  "dec_down 0 n d k = k"
| "dec_down (Suc g) n d k = (if n < d then dec_down g (10 * n) d (k - 1) else k)"

definition dec_exp :: "int \<Rightarrow> int \<Rightarrow> int" where
  "dec_exp n d = (if d \<le> n then dec_up 400 n d 0 else dec_down 400 n d 0)"

text \<open>Reading \<open>c * 10 ^ k\<close>: exact value, rounded once.\<close>

definition f64_of_decimal :: "bool \<Rightarrow> int \<Rightarrow> int \<Rightarrow> f64" where
  "f64_of_decimal s c k = round_ratio s (c * 10 ^ nat k) (10 ^ nat (- k))"

text \<open>
  The shortest decimal significand of the positive finite \<open>m * 2 ^ e\<close>: the least number of
  digits \<open>p\<close> (17 always suffice) for which one of the two \<open>p\<close>-digit neighbours reads back as
  the number; of two that do, the nearer, and the upper one on a tie.
\<close>

definition decimal_candidate :: "int \<Rightarrow> int \<Rightarrow> int \<Rightarrow> int option" where
  "decimal_candidate m e k =
     (let n = m * 2 ^ nat e * 10 ^ nat (- k);
          d = 2 ^ nat (- e) * 10 ^ nat k;
          lo = n div d;
          down = (f64_of_decimal False lo k = F_Fin False m e);
          up = (f64_of_decimal False (lo + 1) k = F_Fin False m e)
      in if up \<and> (\<not> down \<or> d \<le> 2 * (n mod d)) then Some (lo + 1)
         else if down then Some lo else None)"

fun shortest_from :: "nat \<Rightarrow> int \<Rightarrow> int \<Rightarrow> int \<Rightarrow> int \<times> int" where
  "shortest_from 0 m e k = (m, e)"
| "shortest_from (Suc g) m e k =
     (case decimal_candidate m e k of
        Some c \<Rightarrow> (c, k)
      | None \<Rightarrow> shortest_from g m e (k - 1))"

fun strip_zeros :: "nat \<Rightarrow> int \<Rightarrow> int \<Rightarrow> int \<times> int" where
  "strip_zeros 0 c k = (c, k)"
| "strip_zeros (Suc g) c k =
     (if c mod 10 = 0 \<and> c \<noteq> 0 then strip_zeros g (c div 10) (k + 1) else (c, k))"

text \<open>The digits and the decimal exponent of the first digit.\<close>

definition shortest_digits :: "int \<Rightarrow> int \<Rightarrow> string \<times> int" where
  "shortest_digits m e =
     (let (c0, k0) = shortest_from 20 m e (dec_exp (m * 2 ^ nat e) (2 ^ nat (- e)));
          (c, k) = strip_zeros 20 c0 k0;
          ds = show_digits c
      in (ds, k + int (length ds) - 1))"

text \<open>\<open>Display\<close> for \<open>f64\<close>: positional notation, no exponent, no trailing \<open>.0\<close>.\<close>

definition positional :: "string \<Rightarrow> int \<Rightarrow> string" where
  "positional ds x =
     (if x < 0 then ''0.'' @ replicate (nat (- x) - 1) CHR ''0'' @ ds
      else let w = nat x + 1
           in if length ds \<le> w then ds @ replicate (w - length ds) CHR ''0''
              else take w ds @ ''.'' @ drop w ds)"

fun f64_display :: "f64 \<Rightarrow> string" where
  "f64_display F_NaN = ''NaN''"
| "f64_display (F_Inf s) = (if s then ''-inf'' else ''inf'')"
| "f64_display (F_Fin s m e) =
     (if s then ''-'' else []) @
     (if m = 0 then ''0'' else case shortest_digits m e of (ds, x) \<Rightarrow> positional ds x)"

text \<open>\<open>{:e}\<close> of a positive finite number, as the digits and the exponent it prints.\<close>

fun f64_scientific :: "f64 \<Rightarrow> string \<times> int" where
  "f64_scientific (F_Fin s m e) = (if m = 0 then (''0'', 0) else shortest_digits m e)"
| "f64_scientific _ = ([], 0)"

text \<open>\<open>str::parse::<f64>\<close>.\<close>

definition ascii_lower :: "char \<Rightarrow> char" where
  "ascii_lower c =
     (if 65 \<le> (of_char c :: int) \<and> (of_char c :: int) \<le> 90
      then char_of ((of_char c :: int) + 32) else c)"

definition parse_exponent :: "string \<Rightarrow> int option" where
  "parse_exponent s =
     (case s of
        [] \<Rightarrow> Some 0
      | c # cs \<Rightarrow>
          if c \<noteq> CHR ''e'' \<and> c \<noteq> CHR ''E'' then None
          else (case cs of
                  [] \<Rightarrow> None
                | d # ds \<Rightarrow>
                    if d = CHR ''-'' then map_option uminus (parse_digits ds)
                    else if d = CHR ''+'' then parse_digits ds
                    else parse_digits cs))"

definition parse_magnitude :: "bool \<Rightarrow> string \<Rightarrow> f64 option" where
  "parse_magnitude s t =
     (let whole = takeWhile is_ascii_digit t;
          rest = dropWhile is_ascii_digit t;
          (frac, tail) =
            (case rest of
               c # cs \<Rightarrow> if c = CHR ''.'' then (takeWhile is_ascii_digit cs, dropWhile is_ascii_digit cs)
                          else ([], rest)
             | [] \<Rightarrow> ([], []))
      in if whole = [] \<and> frac = [] then None
         else map_option
           (\<lambda>x. f64_of_decimal s (digits_val (whole @ frac)) (x - int (length frac)))
           (parse_exponent tail))"

definition parse_f64 :: "string \<Rightarrow> f64 option" where
  "parse_f64 t =
     (let (s, body) =
        (case t of
           c # cs \<Rightarrow> if c = CHR ''-'' then (True, cs) else if c = CHR ''+'' then (False, cs) else (False, t)
         | [] \<Rightarrow> (False, []));
        word = map ascii_lower body
      in if word = ''inf'' \<or> word = ''infinity'' then Some (F_Inf s)
         else if word = ''nan'' then Some F_NaN
         else parse_magnitude s body)"

end
