(* ===== verification/Values.thy ===== *)
theory Values
  imports Refusals Float64
begin

text \<open>
  The values an expression evaluates to (\<open>Value\<close> of \<open>rust/expr/src/expr.rs\<close>), how an error
  message names one (\<open>rendering.rs\<close>), Ruby's \<open>Float#to_s\<close> (\<open>ruby_float.rs\<close>) and the readings of
  a value per attribute shape (\<open>attribute_shapes/scalar.rs\<close>, \<open>list.rs\<close>, \<open>optional.rs\<close>).
  A \<open>BTreeMap<String, Value>\<close> is the association list of its entries in key order.
\<close>

datatype "value" =
    V_Int i64
  | V_Float f64
  | V_Str string
  | V_Bool bool
  | V_List nat
  | V_Nil
  | V_Array "value list"
  | V_Object "(string \<times> value) list"

fun truthy :: "value \<Rightarrow> bool" where
  "truthy V_Nil = False"
| "truthy (V_Bool b) = b"
| "truthy _ = True"

fun into_string :: "value \<Rightarrow> string option" where
  "into_string (V_Str s) = Some s"
| "into_string _ = None"

fun into_i64 :: "value \<Rightarrow> i64 option" where
  "into_i64 (V_Int n) = Some n"
| "into_i64 _ = None"

fun into_f64 :: "value \<Rightarrow> f64 option" where
  "into_f64 (V_Float f) = Some f"
| "into_f64 _ = None"

fun into_bool :: "value \<Rightarrow> bool option" where
  "into_bool (V_Bool b) = Some b"
| "into_bool _ = None"

definition show_bool :: "bool \<Rightarrow> string" where
  "show_bool b = (if b then ''true'' else ''false'')"

definition show_i64 :: "i64 \<Rightarrow> string" where
  "show_i64 i = show_int (sint i)"

section \<open>Ruby's floats\<close>

definition fixed_min_exponent :: int where "fixed_min_exponent = -4"
definition fixed_max_exponent :: int where "fixed_max_exponent = 14"

text \<open>Places the decimal point \<open>exponent\<close> digits after the first digit.\<close>

definition ruby_fixed :: "string \<Rightarrow> int \<Rightarrow> string" where
  "ruby_fixed digits exponent =
     (if exponent < 0
      then ''0.'' @ replicate (nat (- exponent) - 1) CHR ''0'' @ digits
      else let whole_len = nat exponent + 1
           in if length digits \<le> whole_len
              then digits @ replicate (whole_len - length digits) CHR ''0'' @ ''.0''
              else take whole_len digits @ ''.'' @ drop whole_len digits)"

definition pad2 :: "string \<Rightarrow> string" where
  "pad2 s = replicate (2 - length s) CHR ''0'' @ s"

definition ruby_float_to_s :: "f64 \<Rightarrow> string" where
  "ruby_float_to_s n =
     (case n of
        F_NaN \<Rightarrow> ''NaN''
      | F_Inf s \<Rightarrow> if s then ''-Infinity'' else ''Infinity''
      | F_Fin s m e \<Rightarrow>
          let sign = (if s then ''-'' else [])
          in if m = 0 then sign @ ''0.0''
             else let (digits, exponent) = f64_scientific (f64_abs n)
                  in if fixed_min_exponent \<le> exponent \<and> exponent \<le> fixed_max_exponent
                     then sign @ ruby_fixed digits exponent
                     else let head = take 1 digits;
                              tail = (if drop 1 digits = [] then ''0'' else drop 1 digits);
                              exponent_sign = (if exponent < 0 then ''-'' else ''+'')
                          in sign @ head @ ''.'' @ tail @ ''e'' @ exponent_sign @
                             pad2 (show_int \<bar>exponent\<bar>))"

definition finite_or_fault :: "string \<Rightarrow> string \<Rightarrow> f64 \<Rightarrow> f64 \<Rightarrow> f64 \<Rightarrow> f64 res" where
  "finite_or_fault op symbol lhs rhs result =
     (if is_finite result then Inr result
      else Inl (Fault (op @ '' overflowed: '' @ ruby_float_to_s lhs @ '' '' @ symbol @ '' '' @
        ruby_float_to_s (f64_abs rhs) @ '' is not a finite number'')))"

section \<open>Rendering\<close>

definition pad4 :: "string \<Rightarrow> string" where
  "pad4 s = replicate (4 - length s) CHR ''0'' @ s"

definition ascii_upper :: "char \<Rightarrow> char" where
  "ascii_upper c =
     (if 97 \<le> (of_char c :: int) \<and> (of_char c :: int) \<le> 122
      then char_of ((of_char c :: int) - 32) else c)"

fun inspect_body :: "string \<Rightarrow> string" where
  "inspect_body [] = []"
| "inspect_body (c # cs) =
     (if c = CHR 0x22 then [CHR 0x5C, CHR 0x22]
      else if c = CHR 0x5C then [CHR 0x5C, CHR 0x5C]
      else if c = CHR 0x0A then [CHR 0x5C, CHR ''n'']
      else if c = CHR 0x09 then [CHR 0x5C, CHR ''t'']
      else if c = CHR 0x0D then [CHR 0x5C, CHR ''r'']
      else if c = CHR 0x07 then [CHR 0x5C, CHR ''a'']
      else if c = CHR 0x08 then [CHR 0x5C, CHR ''b'']
      else if c = CHR 0x0B then [CHR 0x5C, CHR ''v'']
      else if c = CHR 0x0C then [CHR 0x5C, CHR ''f'']
      else if c = CHR 0x1B then [CHR 0x5C, CHR ''e'']
      else if c = CHR ''#'' \<and>
        (case cs of [] \<Rightarrow> False | d # _ \<Rightarrow> d = CHR 0x7B \<or> d = CHR ''$'' \<or> d = CHR ''@'')
        then [CHR 0x5C, CHR ''#'']
      else if (of_char c :: int) < 32 \<or> (of_char c :: int) = 127
        then [CHR 0x5C, CHR ''u''] @ map ascii_upper (pad4 (show_hex (of_char c)))
      else [c]) @ inspect_body cs"

definition ruby_inspect :: "string \<Rightarrow> string" where
  "ruby_inspect s = CHR 0x22 # inspect_body s @ [CHR 0x22]"

definition json_char :: "char \<Rightarrow> string" where
  "json_char c =
     (if c = CHR 0x22 then [CHR 0x5C, CHR 0x22]
      else if c = CHR 0x5C then [CHR 0x5C, CHR 0x5C]
      else if c = CHR 0x0A then [CHR 0x5C, CHR ''n'']
      else if c = CHR 0x0D then [CHR 0x5C, CHR ''r'']
      else if c = CHR 0x09 then [CHR 0x5C, CHR ''t'']
      else if (of_char c :: int) < 32 then [CHR 0x5C, CHR ''u''] @ pad4 (show_hex (of_char c))
      else [c])"

definition json_string :: "string \<Rightarrow> string" where
  "json_string s = CHR 0x22 # concat (map json_char s) @ [CHR 0x22]"

fun generate :: "value \<Rightarrow> string" where
  "generate V_Nil = ''null''"
| "generate (V_Bool b) = show_bool b"
| "generate (V_Int i) = show_i64 i"
| "generate (V_Float f) = ruby_float_to_s f"
| "generate (V_Str s) = json_string s"
| "generate (V_List _) = ''[]''"
| "generate (V_Array items) = ''['' @ str_join '','' (map generate items) @ '']''"
| "generate (V_Object fields) =
     [CHR 0x7B] @ str_join '','' (map (\<lambda>(key, field). json_string key @ '':'' @ generate field) fields) @
     [CHR 0x7D]"

fun describe :: "value \<Rightarrow> string" where
  "describe V_Nil = ''nil''"
| "describe (V_Str s) = ruby_inspect s"
| "describe other = generate other"

fun class_of :: "value \<Rightarrow> string" where
  "class_of V_Nil = ''nil''"
| "class_of (V_Int _) = ''Integer''"
| "class_of (V_Float _) = ''Float''"
| "class_of (V_Str _) = ''String''"
| "class_of (V_Bool b) = (if b then ''TrueClass'' else ''FalseClass'')"
| "class_of (V_List _) = ''Array''"
| "class_of (V_Array _) = ''Array''"
| "class_of (V_Object _) = ''Hash''"

text \<open>The derived \<open>Debug\<close> of \<open>f64\<close> and of \<open>Value\<close>.\<close>

definition f64_debug :: "f64 \<Rightarrow> string" where
  "f64_debug n =
     (case n of
        F_Fin s m e \<Rightarrow>
          let sign = (if s then ''-'' else [])
          in if m = 0 then sign @ ''0.0''
             else let (ds, x) = f64_scientific (f64_abs n)
                  in if 16 \<le> x \<or> x < -4
                     then sign @ take 1 ds @ (if drop 1 ds = [] then [] else ''.'' @ drop 1 ds) @
                          ''e'' @ show_int x
                     else let text = positional ds x
                          in sign @ text @ (if str_contains ''.'' text then [] else ''.0'')
      | _ \<Rightarrow> f64_display n)"

fun debug_value :: "value \<Rightarrow> string" where
  "debug_value (V_Int i) = ''Int('' @ show_i64 i @ '')''"
| "debug_value (V_Float f) = ''Float('' @ f64_debug f @ '')''"
| "debug_value (V_Str s) = ''Str('' @ debug_str s @ '')''"
| "debug_value (V_Bool b) = ''Bool('' @ show_bool b @ '')''"
| "debug_value (V_List n) = ''List('' @ show_int (int n) @ '')''"
| "debug_value V_Nil = ''Nil''"
| "debug_value (V_Array items) = ''Array(['' @ str_join '', '' (map debug_value items) @ ''])''"
| "debug_value (V_Object fields) =
     ''Object('' @ [CHR 0x7B] @
     str_join '', '' (map (\<lambda>(key, field). debug_str key @ '': '' @ debug_value field) fields) @
     [CHR 0x7D] @ '')''"

section \<open>Attribute shapes\<close>

fun scalar_numeric :: "value \<Rightarrow> f64 option" where
  "scalar_numeric (V_Int i) = Some (f64_of_int (sint i))"
| "scalar_numeric (V_Float f) = Some f"
| "scalar_numeric _ = None"

fun scalar_to_s :: "value \<Rightarrow> value option" where
  "scalar_to_s (V_Str s) = Some (V_Str s)"
| "scalar_to_s (V_Int i) = Some (V_Str (show_i64 i))"
| "scalar_to_s (V_Float f) = Some (V_Str (ruby_float_to_s f))"
| "scalar_to_s (V_Bool b) = Some (V_Str (show_bool b))"
| "scalar_to_s _ = None"

fun scalar_is_empty :: "value \<Rightarrow> bool option" where
  "scalar_is_empty (V_Str s) = Some (s = [])"
| "scalar_is_empty _ = None"

fun scalar_size :: "value \<Rightarrow> i64 option" where
  "scalar_size (V_Str s) = Some (i64_of_int (int (length (utf8_chars s))))"
| "scalar_size _ = None"

fun list_is_empty :: "value \<Rightarrow> bool option" where
  "list_is_empty (V_List n) = Some (n = 0)"
| "list_is_empty _ = None"

fun list_size :: "value \<Rightarrow> i64 option" where
  "list_size (V_List n) = Some (i64_of_int (int n))"
| "list_size _ = None"

fun optional_to_s :: "value \<Rightarrow> value option" where
  "optional_to_s V_Nil = Some (V_Str [])"
| "optional_to_s _ = None"

end
