(* ===== verification/Expressions.thy ===== *)
theory Expressions
  imports Values
begin

text \<open>
  \<open>rust/expr/src/expr.rs\<close>, \<open>attribute_shapes/composite.rs\<close> and \<open>expression_operators/\<close>: the
  expression AST, the lookup surface it reads (\<open>Fielded\<close>) and the interpreter.

  A \<open>&dyn Fielded\<close> is the tuple of the four methods of the trait. One definition per operator
  file takes the interpreter as its first argument, as the source's operators call back into
  \<open>interpret\<close>; \<open>interpret\<close> ties the knot, by recursion on the size of the expression. The regex
  engine is the third-party \<open>regex\<close> crate, a parameter: it compiles a source with its three
  flags into a matcher or an error text.
\<close>

named_theorems eval_defs \<open>definitions of the operators, for evaluation\<close>

section \<open>What a lookup reads\<close>

datatype field = FD_Value "value" | FD_Nested fielded
and fielded = Fielded
  (fl_field: "string \<Rightarrow> field option")
  (as_scalar: "value option")
  (to_value: "value option")
  (fl_items: "string \<Rightarrow> field list option")

definition no_fields :: fielded where
  "no_fields = Fielded (\<lambda>_. None) None None (\<lambda>_. None)"

definition bound :: "string \<Rightarrow> field \<Rightarrow> fielded \<Rightarrow> fielded" where
  "bound name val rest =
     Fielded (\<lambda>n. if n = name then Some val else fl_field rest n) None None
       (\<lambda>n. if n = name then None else fl_items rest n)"

definition with_old :: "fielded \<Rightarrow> fielded \<Rightarrow> fielded" where
  "with_old args old =
     Fielded (\<lambda>n. if n = ''old'' then Some (FD_Nested old) else fl_field args n) None None
       (\<lambda>n. if n = ''old'' then None else fl_items args n)"

definition state_first :: "fielded \<Rightarrow> fielded \<Rightarrow> fielded" where
  "state_first args settled =
     Fielded (\<lambda>n. if fl_field settled n \<noteq> None then None else fl_field args n) None None
       (\<lambda>n. if fl_field settled n \<noteq> None then None else fl_items args n)"

definition with_parent :: "fielded \<Rightarrow> fielded \<Rightarrow> fielded" where
  "with_parent args parent =
     Fielded (\<lambda>n. if n = ''parent'' then Some (FD_Nested parent) else fl_field args n) None None
       (\<lambda>n. if n = ''parent'' then None else fl_items args n)"

record eval_ctx =
  ctx_args :: fielded
  ctx_instance :: fielded

definition eval_error :: "string \<Rightarrow> refusal" where
  "eval_error message = Fault message"

section \<open>The AST\<close>

record comparison =
  less_than :: bool
  equal :: bool
  negated :: bool

datatype block_mode = BM_All | BM_Any | BM_None

fun ruby_name :: "block_mode \<Rightarrow> string" where
  "ruby_name BM_All = ''all?''"
| "ruby_name BM_Any = ''any?''"
| "ruby_name BM_None = ''none?''"

datatype strip_side = SS_Both | SS_Left | SS_Right

definition is_stripped :: "char \<Rightarrow> bool" where
  "is_stripped c = List.member [CHR 0x00, CHR 0x09, CHR 0x0A, CHR 0x0B, CHR 0x0C, CHR 0x0D, CHR 0x20] c"

fun strip_trim :: "strip_side \<Rightarrow> string \<Rightarrow> string" where
  "strip_trim SS_Both text = rev (dropWhile is_stripped (rev (dropWhile is_stripped text)))"
| "strip_trim SS_Left text = dropWhile is_stripped text"
| "strip_trim SS_Right text = rev (dropWhile is_stripped (rev text))"

datatype expr =
    E_Or expr expr
  | E_And expr expr
  | E_Not expr
  | E_Compare comparison expr expr
  | E_Include expr expr
  | E_Int i64
  | E_Float f64
  | E_Str string
  | E_Bool bool
  | E_Nil
  | E_Add expr expr
  | E_Sub expr expr
  | E_Mul expr expr
  | E_Div expr expr
  | E_SignTest comparison expr
  | E_Empty expr
  | E_ToS expr
  | E_Modulo expr expr
  | E_Size expr
  | E_Lookup string
  | E_BlockPredicate block_mode expr string expr
  | E_Find expr string expr "string list"
  | E_Sum expr string expr
  | E_Array "expr list"
  | E_MatchesRegex expr string string
  | E_Presence expr bool
  | E_Assignment expr bool
  | E_Split expr string
  | E_Strip expr strip_side
  | E_StartsWith expr string
  | E_EndsWith expr string
  | E_First expr
  | E_Last expr

type_synonym evaluator = "expr \<Rightarrow> eval_ctx \<Rightarrow> value res"

text \<open>\<open>regex::RegexBuilder\<close>: source, case-insensitive, dot matches newline, ignore whitespace.\<close>

type_synonym regex_engine = "string \<Rightarrow> bool \<Rightarrow> bool \<Rightarrow> bool \<Rightarrow> (string, string \<Rightarrow> bool) result"

section \<open>Paths\<close>

fun step_value :: "value \<Rightarrow> string \<Rightarrow> field res" where
  "step_value (V_Str text) seg =
     Inr (FD_Value (if str_contains seg text then V_Str seg else V_Nil))"
| "step_value V_Nil seg = Inr (FD_Value V_Nil)"
| "step_value (V_Float _) seg = Inr (FD_Value V_Nil)"
| "step_value (V_Bool _) seg = Inr (FD_Value V_Nil)"
| "step_value (V_Object flds) seg =
     Inr (FD_Value (case map_of flds seg of None \<Rightarrow> V_Nil | Some v \<Rightarrow> v))"
| "step_value v seg =
     Inl (eval_error (''cannot read '' @ ruby_inspect seg @ '' from '' @ describe v))"

definition step_field :: "field \<Rightarrow> string \<Rightarrow> string \<Rightarrow> field res" where
  "step_field current seg head =
     (case current of
        FD_Nested obj \<Rightarrow>
          ok_or (eval_error (''cannot resolve '' @ debug_str seg @ '' on '' @ debug_str head))
            (fl_field obj seg)
      | FD_Value v \<Rightarrow> step_value v seg)"

definition finish :: "field \<Rightarrow> string \<Rightarrow> value res" where
  "finish current path =
     (case current of
        FD_Value v \<Rightarrow> Inr v
      | FD_Nested obj \<Rightarrow>
          ok_or (eval_error (path @ '' resolved to an object, not a scalar''))
            (case as_scalar obj of None \<Rightarrow> to_value obj | Some v \<Rightarrow> Some v))"

fun walk :: "string \<Rightarrow> field \<Rightarrow> string list \<Rightarrow> field res" where
  "walk head current [] = Inr current"
| "walk head current (seg # segs) = rbind (step_field current seg head) (\<lambda>next. walk head next segs)"

definition resolve_head :: "string \<Rightarrow> eval_ctx \<Rightarrow> field res" where
  "resolve_head head ctx =
     ok_or (eval_error (''cannot resolve '' @ debug_str head @ '' '' @ em_dash @
              '' no such attribute or argument''))
       (case fl_field (ctx_args ctx) head of
          None \<Rightarrow> fl_field (ctx_instance ctx) head
        | Some f \<Rightarrow> Some f)"

definition lookup_field :: "string \<Rightarrow> eval_ctx \<Rightarrow> field res" where
  "lookup_field path ctx =
     (let segments = split_str ''.'' path; head = hd segments
      in rbind (resolve_head head ctx) (\<lambda>current. walk head current (tl segments)))"

definition lookup_value :: "string \<Rightarrow> eval_ctx \<Rightarrow> value res" where
  "lookup_value path ctx = rbind (lookup_field path ctx) (\<lambda>f. finish f path)"

fun describe_field :: "field option \<Rightarrow> string" where
  "describe_field None = ''nothing''"
| "describe_field (Some (FD_Value v)) = describe v"
| "describe_field (Some (FD_Nested _)) = ''an object''"

definition lookup_items :: "string \<Rightarrow> eval_ctx \<Rightarrow> string \<Rightarrow> field list res" where
  "lookup_items path ctx op =
     (let segments = split_str ''.'' path; head = hd segments; rest = tl segments
      in if rest = []
         then let side = (if fl_field (ctx_args ctx) head \<noteq> None then ctx_args ctx else ctx_instance ctx)
              in ok_or (eval_error (op @ '' expects a list, got '' @ describe_field (fl_field side head)))
                   (fl_items side head)
         else let end_seg = last rest
              in rbind (resolve_head head ctx) (\<lambda>current.
                 rbind (walk head current (butlast rest)) (\<lambda>current.
                   case current of
                     FD_Nested obj \<Rightarrow>
                       ok_or (eval_error (op @ '' expects a list, got '' @ describe_field (fl_field obj end_seg)))
                         (fl_items obj end_seg)
                   | FD_Value v \<Rightarrow>
                       Inl (eval_error (path @ '' '' @ em_dash @ '' cannot look up '' @ debug_str end_seg @
                         '' on scalar '' @ debug_value v)))))"

section \<open>Operator categories\<close>

datatype operator_category =
    OC_Logical | OC_Membership | OC_Comparison | OC_Arithmetic | OC_SignTest | OC_Sized
  | OC_ToString | OC_Enumeration | OC_PatternMatch | OC_Presence | OC_Text | OC_Positional

text \<open>
  \<open>None\<close> stands for the leaves, for which \<open>category_of\<close> is \<open>unreachable!\<close>: \<open>interpret\<close> handles
  them before it asks.
\<close>

fun category_of :: "expr \<Rightarrow> operator_category option" where
  "category_of (E_Or _ _) = Some OC_Logical"
| "category_of (E_And _ _) = Some OC_Logical"
| "category_of (E_Not _) = Some OC_Logical"
| "category_of (E_Include _ _) = Some OC_Membership"
| "category_of (E_Compare _ _ _) = Some OC_Comparison"
| "category_of (E_Add _ _) = Some OC_Arithmetic"
| "category_of (E_Sub _ _) = Some OC_Arithmetic"
| "category_of (E_Mul _ _) = Some OC_Arithmetic"
| "category_of (E_Div _ _) = Some OC_Arithmetic"
| "category_of (E_Modulo _ _) = Some OC_Arithmetic"
| "category_of (E_SignTest _ _) = Some OC_SignTest"
| "category_of (E_Empty _) = Some OC_Sized"
| "category_of (E_Size _) = Some OC_Sized"
| "category_of (E_ToS _) = Some OC_ToString"
| "category_of (E_BlockPredicate _ _ _ _) = Some OC_Enumeration"
| "category_of (E_Find _ _ _ _) = Some OC_Enumeration"
| "category_of (E_Sum _ _ _) = Some OC_Enumeration"
| "category_of (E_MatchesRegex _ _ _) = Some OC_PatternMatch"
| "category_of (E_Presence _ _) = Some OC_Presence"
| "category_of (E_Assignment _ _) = Some OC_Presence"
| "category_of (E_Split _ _) = Some OC_Text"
| "category_of (E_Strip _ _) = Some OC_Text"
| "category_of (E_StartsWith _ _) = Some OC_Text"
| "category_of (E_EndsWith _ _) = Some OC_Text"
| "category_of (E_First _) = Some OC_Positional"
| "category_of (E_Last _) = Some OC_Positional"
| "category_of _ = None"

text \<open>
  The arm an operator keeps for a node of another category. The source quotes the node in the
  message; the arm is never reached from \<open>interpret\<close>, so only its kind and its fixed text are kept.
\<close>

definition router_bug :: "string \<Rightarrow> 'a res" where
  "router_bug where_at = Inl (TypeMismatch (where_at @ '' '' @ em_dash @ '' a router bug''))"

end
