(* ===== verification/Operators.thy ===== *)
theory Operators
  imports Expressions
begin

text \<open>
  \<open>rust/expr/src/expression_operators/\<close>: one definition per operator file, each taking the
  interpreter as its first argument (the source's operators call back into \<open>interpret\<close>).
\<close>

section \<open>Logical\<close>

definition logical_interpret :: "evaluator \<Rightarrow> expr \<Rightarrow> eval_ctx \<Rightarrow> value res" where
  "logical_interpret ev e ctx =
     (case e of
        E_Or l r \<Rightarrow>
          (rbind (ev l ctx) (\<lambda>lv.
            if truthy lv then Inr (V_Bool True)
            else rbind (ev r ctx) (\<lambda>rv. Inr (V_Bool (truthy rv)))))
      | E_And l r \<Rightarrow>
          (rbind (ev l ctx) (\<lambda>lv.
            if truthy lv then rbind (ev r ctx) (\<lambda>rv. Inr (V_Bool (truthy rv)))
            else Inr (V_Bool False)))
      | E_Not n \<Rightarrow>
          (rbind (ev n ctx) (\<lambda>v. Inr (V_Bool (\<not> truthy v))))
      | _ \<Rightarrow> router_bug ''logical::interpret'')"

section \<open>Comparison\<close>

definition int_equals_float :: "i64 \<Rightarrow> f64 \<Rightarrow> bool" where
  "int_equals_float i f \<longleftrightarrow>
     is_finite f \<and> fract_zero f \<and>
     f64_le (f64_of_int (- 9223372036854775808)) f \<and> f64_lt f (f64_of_int 9223372036854775808) \<and>
     f64_to_i64 f = i"

lemma size_zip_left [termination_simp]:
  "(x, y) \<in> set (zip a b) \<Longrightarrow> size x < Suc (size_list size a)"
  by (auto dest!: set_zip_leftD intro: size_list_estimation' le_imp_less_Suc)

lemma size_entry_left [termination_simp]:
  "(key, x) \<in> set a \<Longrightarrow> size x < Suc (size_list (size_prod (\<lambda>_. 0) size) a)"
  by (induction a) auto

fun values_equal :: "value \<Rightarrow> value \<Rightarrow> bool" where
  "values_equal (V_Int a) (V_Int b) \<longleftrightarrow> a = b"
| "values_equal (V_Int i) (V_Float f) \<longleftrightarrow> int_equals_float i f"
| "values_equal (V_Float f) (V_Int i) \<longleftrightarrow> int_equals_float i f"
| "values_equal (V_Float a) (V_Float b) \<longleftrightarrow> f64_eq a b"
| "values_equal (V_Array a) (V_Array b) \<longleftrightarrow>
     length a = length b \<and> list_all (\<lambda>(x, y). values_equal x y) (zip a b)"
| "values_equal (V_Object a) (V_Object b) \<longleftrightarrow>
     length a = length b \<and>
     list_all (\<lambda>(key, x). case map_of b key of None \<Rightarrow> False | Some y \<Rightarrow> values_equal x y) a"
| "values_equal (V_Str a) (V_Str b) \<longleftrightarrow> a = b"
| "values_equal (V_Bool a) (V_Bool b) \<longleftrightarrow> a = b"
| "values_equal (V_List a) (V_List b) \<longleftrightarrow> a = b"
| "values_equal V_Nil V_Nil \<longleftrightarrow> True"
| "values_equal _ _ \<longleftrightarrow> False"

text \<open>The comparison's own \<open>describe\<close>, which quotes strings as Rust's \<open>Debug\<close> does.\<close>

fun cmp_describe :: "value \<Rightarrow> string" and cmp_describe_json :: "value \<Rightarrow> string" where
  "cmp_describe V_Nil = ''nil''"
| "cmp_describe (V_Int n) = show_i64 n"
| "cmp_describe (V_Bool b) = show_bool b"
| "cmp_describe (V_Float f) = ruby_float_to_s f"
| "cmp_describe (V_Str s) = debug_str s"
| "cmp_describe (V_List _) = ''[]''"
| "cmp_describe (V_Array items) =
     ''['' @ str_join '','' (map (\<lambda>v. if v = V_Nil then ''null'' else cmp_describe v) items) @ '']''"
| "cmp_describe (V_Object flds) =
     [CHR 0x7B] @ str_join '','' (map (\<lambda>(key, field). debug_str key @ '':'' @
       (if field = V_Nil then ''null'' else cmp_describe field)) flds) @ [CHR 0x7D]"
| "cmp_describe_json v = (if v = V_Nil then ''null'' else cmp_describe v)"

definition ruby_class_of :: "value \<Rightarrow> string" where
  "ruby_class_of v = class_of v"

definition values_less_than :: "value \<Rightarrow> value \<Rightarrow> bool res" where
  "values_less_than lhs rhs =
     (case (scalar_numeric lhs, scalar_numeric rhs) of
        (Some l, Some r) \<Rightarrow> Inr (f64_lt l r)
      | _ \<Rightarrow> (case (lhs, rhs) of
                (V_Str l, V_Str r) \<Rightarrow> Inr (l < r)
              | _ \<Rightarrow> Inl (eval_error (''comparison of '' @ ruby_class_of lhs @ '' with '' @
                       cmp_describe rhs @ '' failed''))))"

definition apply_comparison :: "comparison \<Rightarrow> value \<Rightarrow> value \<Rightarrow> bool res" where
  "apply_comparison op lhs rhs =
     rbind (if less_than op then values_less_than lhs rhs else Inr False) (\<lambda>lt.
       let eq = equal op \<and> values_equal lhs rhs
       in Inr (if negated op then \<not> (lt \<or> eq) else lt \<or> eq))"

definition comparison_interpret :: "evaluator \<Rightarrow> expr \<Rightarrow> eval_ctx \<Rightarrow> value res" where
  "comparison_interpret ev e ctx =
     (case e of
        E_Compare op l r \<Rightarrow>
          (rbind (ev l ctx) (\<lambda>lv. rbind (ev r ctx) (\<lambda>rv.
            rbind (apply_comparison op lv rv) (\<lambda>b. Inr (V_Bool b)))))
      | _ \<Rightarrow> router_bug ''comparison::interpret'')"

section \<open>Membership\<close>

definition membership_interpret :: "evaluator \<Rightarrow> expr \<Rightarrow> eval_ctx \<Rightarrow> value res" where
  "membership_interpret ev e ctx =
     (case e of
        E_Include haystack needle \<Rightarrow>
          (rbind (ev needle ctx) (\<lambda>wanted. rbind (ev haystack ctx) (\<lambda>hay.
            case hay of
              V_Array items \<Rightarrow> Inr (V_Bool (list_ex (\<lambda>item. values_equal item wanted) items))
            | V_Str text \<Rightarrow>
                (case wanted of
                   V_Str part \<Rightarrow> Inr (V_Bool (str_contains part text))
                 | other \<Rightarrow> Inl (eval_error (''no implicit conversion of '' @ class_of other @ '' into String'')))
            | _ \<Rightarrow> Inr (V_Bool False))))
      | _ \<Rightarrow> router_bug ''membership::interpret'')"

section \<open>Arithmetic\<close>

definition require_number :: "value \<Rightarrow> string \<Rightarrow> f64 res" where
  "require_number v operation =
     ok_or (eval_error (operation @ '' expects a number, got '' @ describe v)) (scalar_numeric v)"

fun arith_quoted :: "value \<Rightarrow> string" where
  "arith_quoted (V_Int i) = show_i64 i"
| "arith_quoted (V_Float f) = ruby_float_to_s f"
| "arith_quoted other = debug_value other"

definition arith_finite :: "string \<Rightarrow> string \<Rightarrow> value \<times> value \<Rightarrow> f64 \<Rightarrow> value res" where
  "arith_finite name symbol operands result =
     (if is_finite result then Inr (V_Float result)
      else Inl (eval_error (name @ '' overflowed: '' @ arith_quoted (fst operands) @ '' '' @ symbol @
        '' '' @ arith_quoted (snd operands) @ '' is not a finite number'')))"

definition int_overflow :: "string \<Rightarrow> string \<Rightarrow> i64 \<Rightarrow> i64 \<Rightarrow> refusal" where
  "int_overflow name symbol l r =
     eval_error (name @ '' overflowed: '' @ show_i64 l @ '' '' @ symbol @ '' '' @ show_i64 r @
       '' does not fit in a 64-bit integer'')"

definition checked_arith ::
  "string \<Rightarrow> string \<Rightarrow> value \<Rightarrow> value \<Rightarrow> (i64 \<Rightarrow> i64 \<Rightarrow> i64 option) \<Rightarrow> (f64 \<Rightarrow> f64 \<Rightarrow> f64) \<Rightarrow> value res" where
  "checked_arith name symbol lhs rhs int_op float_op =
     (case (lhs, rhs) of
        (V_Int l, V_Int r) \<Rightarrow>
          ok_or (int_overflow name symbol l r) (map_option V_Int (int_op l r))
      | _ \<Rightarrow> rbind (require_number lhs name) (\<lambda>l. rbind (require_number rhs name) (\<lambda>r.
               arith_finite name symbol (lhs, rhs) (float_op l r))))"

definition checked_add :: "i64 \<Rightarrow> i64 \<Rightarrow> i64 option" where
  "checked_add l r = checked_i64 (sint l + sint r)"

definition checked_sub :: "i64 \<Rightarrow> i64 \<Rightarrow> i64 option" where
  "checked_sub l r = checked_i64 (sint l - sint r)"

definition checked_mul :: "i64 \<Rightarrow> i64 \<Rightarrow> i64 option" where
  "checked_mul l r = checked_i64 (sint l * sint r)"

definition checked_div :: "i64 \<Rightarrow> i64 \<Rightarrow> i64 option" where
  "checked_div l r = (if r = 0 then None else checked_i64 (trunc_div (sint l) (sint r)))"

definition arith_sum :: "value \<Rightarrow> value \<Rightarrow> value res" where
  "arith_sum lhs rhs = checked_arith ''addition'' ''+'' lhs rhs checked_add f64_add"

definition floored_div :: "i64 \<Rightarrow> i64 \<Rightarrow> i64 option" where
  "floored_div l r =
     (case checked_div l r of
        None \<Rightarrow> None
      | Some quot \<Rightarrow>
          Some (if trunc_mod (sint l) (sint r) \<noteq> 0 \<and> (sint l < 0) \<noteq> (sint r < 0)
                then quot - 1 else quot))"

definition divide :: "value \<Rightarrow> value \<Rightarrow> value res" where
  "divide lhs rhs =
     rbind (require_number rhs ''division'') (\<lambda>r.
       if f64_eq r f64_zero then Inl (eval_error ''divided by 0'')
       else (case (lhs, rhs) of
               (V_Int l, V_Int r) \<Rightarrow>
                 ok_or (int_overflow ''division'' ''/'' l r) (map_option V_Int (floored_div l r))
             | _ \<Rightarrow> rbind (require_number lhs ''division'') (\<lambda>l.
                      arith_finite ''division'' ''/'' (lhs, rhs) (f64_div l r))))"

definition arithmetic_binary :: "evaluator \<Rightarrow> expr \<Rightarrow> eval_ctx \<Rightarrow> value res" where
  "arithmetic_binary ev e ctx =
     (case e of
        E_Add l r \<Rightarrow>
          (rbind (ev l ctx) (\<lambda>lv. rbind (ev r ctx) (\<lambda>rv. arith_sum lv rv)))
      | E_Sub l r \<Rightarrow>
          (rbind (ev l ctx) (\<lambda>lv. rbind (ev r ctx) (\<lambda>rv.
            checked_arith ''subtraction'' ''-'' lv rv checked_sub f64_sub)))
      | E_Mul l r \<Rightarrow>
          (rbind (ev l ctx) (\<lambda>lv. rbind (ev r ctx) (\<lambda>rv.
            checked_arith ''multiplication'' ''*'' lv rv checked_mul f64_mul)))
      | E_Div l r \<Rightarrow>
          (rbind (ev l ctx) (\<lambda>lv. rbind (ev r ctx) (\<lambda>rv. divide lv rv)))
      | _ \<Rightarrow> router_bug ''arithmetic::binary'')"

definition floored_mod :: "i64 \<Rightarrow> i64 \<Rightarrow> i64" where
  "floored_mod r d =
     (if d = -1 then 0
      else let raw = i64_of_int (trunc_mod (sint r) (sint d))
           in if raw \<noteq> 0 \<and> (sint raw < 0) \<noteq> (sint d < 0) then raw + d else raw)"

definition modulo_values :: "value \<Rightarrow> value \<Rightarrow> value res" where
  "modulo_values receiver divisor =
     rbind (require_number receiver ''modulo'') (\<lambda>x. rbind (require_number divisor ''modulo'') (\<lambda>y.
       if f64_eq y f64_zero then Inl (eval_error ''divided by 0'')
       else (case (receiver, divisor) of
               (V_Int r, V_Int d) \<Rightarrow> Inr (V_Int (floored_mod r d))
             | _ \<Rightarrow>
                 let remainder = (if is_infinite y \<and> \<not> is_infinite x then x else f64_rem x y)
                 in Inr (V_Float (if f64_lt (f64_mul y remainder) f64_zero
                                  then f64_add remainder y else remainder)))))"

definition arithmetic_modulo :: "evaluator \<Rightarrow> expr \<Rightarrow> eval_ctx \<Rightarrow> value res" where
  "arithmetic_modulo ev e ctx =
     (case e of
        E_Modulo receiver divisor \<Rightarrow>
          (rbind (ev receiver ctx) (\<lambda>r. rbind (ev divisor ctx) (\<lambda>d. modulo_values r d)))
      | _ \<Rightarrow> router_bug ''arithmetic::modulo'')"

section \<open>Sign tests\<close>

definition sign_test_name :: "comparison \<Rightarrow> string" where
  "sign_test_name cmp =
     (if less_than cmp \<and> equal cmp then ''positive?''
      else if less_than cmp then ''negative?'' else ''zero?'')"

definition sign_test_interpret :: "evaluator \<Rightarrow> expr \<Rightarrow> eval_ctx \<Rightarrow> value res" where
  "sign_test_interpret ev e ctx =
     (case e of
        E_SignTest op receiver \<Rightarrow>
          (rbind (ev receiver ctx) (\<lambda>v. rbind (require_number v (sign_test_name op)) (\<lambda>_.
            rbind (apply_comparison op v (V_Int 0)) (\<lambda>b. Inr (V_Bool b)))))
      | _ \<Rightarrow> router_bug ''sign_test::interpret'')"

section \<open>Sized and to_s\<close>

definition sized_empty :: "evaluator \<Rightarrow> expr \<Rightarrow> eval_ctx \<Rightarrow> value res" where
  "sized_empty ev e ctx =
     (case e of
        E_Empty receiver \<Rightarrow>
          (rbind (ev receiver ctx) (\<lambda>v.
            case v of
              V_Str _ \<Rightarrow> rbind (ok_or (eval_error ''router bug: Str always answers is_empty'') (scalar_is_empty v))
                            (\<lambda>b. Inr (V_Bool b))
            | V_List _ \<Rightarrow> rbind (ok_or (eval_error ''router bug: List always answers is_empty'') (list_is_empty v))
                            (\<lambda>b. Inr (V_Bool b))
            | V_Array elements \<Rightarrow> Inr (V_Bool (elements = []))
            | _ \<Rightarrow> Inl (eval_error (''empty? expects a list or string, got '' @ describe v))))
      | _ \<Rightarrow> router_bug ''sized::empty'')"

definition sized_size :: "evaluator \<Rightarrow> expr \<Rightarrow> eval_ctx \<Rightarrow> value res" where
  "sized_size ev e ctx =
     (case e of
        E_Size receiver \<Rightarrow>
          (rbind (ev receiver ctx) (\<lambda>v.
            case v of
              V_Str _ \<Rightarrow> rbind (ok_or (eval_error ''router bug: Str always answers size'') (scalar_size v))
                            (\<lambda>n. Inr (V_Int n))
            | V_List _ \<Rightarrow> rbind (ok_or (eval_error ''router bug: List always answers size'') (list_size v))
                            (\<lambda>n. Inr (V_Int n))
            | V_Array elements \<Rightarrow> Inr (V_Int (i64_of_int (int (length elements))))
            | _ \<Rightarrow> Inl (eval_error (''size expects a list or string, got '' @ describe v))))
      | _ \<Rightarrow> router_bug ''sized::size'')"

definition to_string_interpret :: "evaluator \<Rightarrow> expr \<Rightarrow> eval_ctx \<Rightarrow> value res" where
  "to_string_interpret ev e ctx =
     (case e of
        E_ToS receiver \<Rightarrow>
          (rbind (ev receiver ctx) (\<lambda>v.
            case v of
              V_Nil \<Rightarrow> ok_or (eval_error (''router bug: Nil always stringifies to '' @ [CHR 0x22, CHR 0x22]))
                          (optional_to_s V_Nil)
            | V_List _ \<Rightarrow> Inl (eval_error (''to_s expects a scalar, got '' @ describe v))
            | V_Array _ \<Rightarrow> Inl (eval_error (''to_s expects a scalar, got '' @ describe v))
            | V_Object _ \<Rightarrow> Inl (eval_error (''to_s expects a scalar, got '' @ describe v))
            | _ \<Rightarrow> ok_or (eval_error ''router bug: scalar shape always stringifies'') (scalar_to_s v)))
      | _ \<Rightarrow> router_bug ''to_string::interpret'')"

section \<open>Enumeration\<close>

definition enumeration_elements :: "evaluator \<Rightarrow> expr \<Rightarrow> eval_ctx \<Rightarrow> string \<Rightarrow> field list res" where
  "enumeration_elements ev e ctx op =
     (case e of
        E_Lookup path \<Rightarrow> lookup_items path ctx op
      | _ \<Rightarrow>
          (rbind (ev e ctx) (\<lambda>v. Inl (eval_error (op @ '' expects a list, got '' @ describe v)))))"

definition project :: "field \<Rightarrow> string list \<Rightarrow> value res" where
  "project item path =
     rbind (walk ''find'' item path) (\<lambda>current.
       finish current (''find '' @ [CHR 0x7B, CHR '' '', CHR 0x7D] @ ''.'' @ str_join ''.'' path))"

definition bind_param :: "string \<Rightarrow> field \<Rightarrow> eval_ctx \<Rightarrow> eval_ctx" where
  "bind_param param item ctx =
     \<lparr>ctx_args = bound param item (ctx_args ctx), ctx_instance = ctx_instance ctx\<rparr>"

fun block_outcome :: "block_mode \<Rightarrow> bool list \<Rightarrow> bool" where
  "block_outcome BM_All outcomes = list_all id outcomes"
| "block_outcome BM_Any outcomes = list_ex id outcomes"
| "block_outcome BM_None outcomes = (\<not> list_ex id outcomes)"

fun sum_terms :: "(field \<Rightarrow> value res) \<Rightarrow> value \<Rightarrow> field list \<Rightarrow> value res" where
  "sum_terms f acc [] = Inr acc"
| "sum_terms f acc (item # items) =
     rbind (f item) (\<lambda>v. rbind (arith_sum acc v) (\<lambda>acc'. sum_terms f acc' items))"

fun find_item :: "(field \<Rightarrow> value res) \<Rightarrow> string list \<Rightarrow> field list \<Rightarrow> value res" where
  "find_item f path [] = Inr V_Nil"
| "find_item f path (item # items) =
     rbind (f item) (\<lambda>v. if truthy v then project item path else find_item f path items)"

definition enumeration_interpret :: "evaluator \<Rightarrow> expr \<Rightarrow> eval_ctx \<Rightarrow> value res" where
  "enumeration_interpret ev e ctx =
     (case e of
        E_BlockPredicate mode receiver param predicate \<Rightarrow>
          (rbind (enumeration_elements ev receiver ctx (ruby_name mode)) (\<lambda>items.
          rbind (traverse (\<lambda>item. rbind (ev predicate (bind_param param item ctx)) (\<lambda>v. Inr (truthy v))) items)
            (\<lambda>outcomes. Inr (V_Bool (block_outcome mode outcomes)))))
      | E_Sum receiver param predicate \<Rightarrow>
          (rbind (enumeration_elements ev receiver ctx ''sum'') (\<lambda>items.
            sum_terms (\<lambda>item. ev predicate (bind_param param item ctx)) (V_Int 0) items))
      | E_Find receiver param predicate path \<Rightarrow>
          (rbind (enumeration_elements ev receiver ctx ''find'') (\<lambda>items.
            find_item (\<lambda>item. ev predicate (bind_param param item ctx)) path items))
      | _ \<Rightarrow> router_bug ''enumeration::interpret'')"

section \<open>Pattern match\<close>

text \<open>
  The four ASCII classes Ruby's escapes stand for, as the text inside brackets and as a negated
  bracket expression.
\<close>

definition escape_class :: "char \<Rightarrow> (string \<times> string) option" where
  "escape_class next =
     (let c = ascii_lower next;
          space = [CHR 0x5C] @ ''x20'' @ [CHR 0x5C] @ ''t'' @ [CHR 0x5C] @ ''r'' @ [CHR 0x5C] @ ''n'' @
                  [CHR 0x5C] @ ''f'' @ [CHR 0x5C] @ ''x0B''
      in if c = CHR ''d'' then Some (''0-9'', ''[^0-9]'')
         else if c = CHR ''w'' then Some (''A-Za-z0-9_'', ''[^A-Za-z0-9_]'')
         else if c = CHR ''s'' then Some (space, ''[^'' @ space @ '']'')
         else if c = CHR ''h'' then Some (''0-9a-fA-F'', ''[^0-9a-fA-F]'')
         else None)"

definition is_ascii_uppercase :: "char \<Rightarrow> bool" where
  "is_ascii_uppercase c \<longleftrightarrow> 65 \<le> (of_char c :: int) \<and> (of_char c :: int) \<le> 90"

definition rewrite_escape :: "char \<Rightarrow> bool \<Rightarrow> string" where
  "rewrite_escape next in_class =
     (case escape_class next of
        Some (positive, negative) \<Rightarrow>
          if is_ascii_uppercase next then negative
          else if in_class then positive
          else ''['' @ positive @ '']''
      | None \<Rightarrow>
          if next = CHR ''Z'' \<and> \<not> in_class
          then ''(?:'' @ [CHR 0x5C] @ ''n?'' @ [CHR 0x5C] @ ''z)''
          else [CHR 0x5C, next])"

text \<open>
  The loop of \<open>ruby_regex\<close>. \<open>idx\<close> is the position of the next character; \<open>class_start\<close> the
  position at which a bracket would be literal. Every character the loop tests is ASCII, so it
  may walk the UTF-8 bytes: a continuation byte is copied like any other character, and the
  positions compared (\<open>idx\<close> with \<open>class_start\<close>) are counted in the same unit.
\<close>

fun ruby_regex_loop :: "nat \<Rightarrow> bool \<Rightarrow> nat \<Rightarrow> string \<Rightarrow> string" where
  "ruby_regex_loop idx in_class class_start [] = []"
| "ruby_regex_loop idx in_class class_start (c # cs) =
     (if c = CHR 0x5C
      then (case cs of
              [] \<Rightarrow> [c]
            | next # rest \<Rightarrow> rewrite_escape next in_class @ ruby_regex_loop (idx + 2) in_class class_start rest)
      else if in_class
      then c # ruby_regex_loop (idx + 1) (\<not> (c = CHR '']'' \<and> idx \<noteq> class_start)) class_start cs
      else if c = CHR ''[''
      then c # ruby_regex_loop (idx + 1) True
             (if (case cs of [] \<Rightarrow> False | d # _ \<Rightarrow> d = CHR ''^'') then idx + 2 else idx + 1) cs
      else if c = CHR ''^'' then ''(?m:^)'' @ ruby_regex_loop (idx + 1) in_class class_start cs
      else if c = CHR ''$'' then ''(?m:$)'' @ ruby_regex_loop (idx + 1) in_class class_start cs
      else c # ruby_regex_loop (idx + 1) in_class class_start cs)"

definition ruby_regex_source :: "string \<Rightarrow> string" where
  "ruby_regex_source pattern = ruby_regex_loop 0 False 0 pattern"

definition ruby_regex :: "regex_engine \<Rightarrow> string \<Rightarrow> string \<Rightarrow> (string \<Rightarrow> bool) res" where
  "ruby_regex engine pattern flags =
     (case engine (ruby_regex_source pattern) (str_contains ''i'' flags) (str_contains ''m'' flags)
             (str_contains ''x'' flags) of
        Inl e \<Rightarrow> Inl (eval_error (''match? given an invalid pattern '' @ ruby_inspect pattern @ '' '' @
                  em_dash @ '' '' @ e))
      | Inr re \<Rightarrow> Inr re)"

fun coerce_text :: "value \<Rightarrow> string res" where
  "coerce_text (V_Str s) = Inr s"
| "coerce_text (V_Int i) = Inr (show_i64 i)"
| "coerce_text (V_Float f) = Inr (ruby_float_to_s f)"
| "coerce_text V_Nil = Inr []"
| "coerce_text v = Inl (eval_error (''match? expects a scalar, got '' @ class_of v))"

definition pattern_match_interpret :: "regex_engine \<Rightarrow> evaluator \<Rightarrow> expr \<Rightarrow> eval_ctx \<Rightarrow> value res" where
  "pattern_match_interpret engine ev e ctx =
     (case e of
        E_MatchesRegex receiver pattern flags \<Rightarrow>
          (rbind (ev receiver ctx) (\<lambda>v. rbind (coerce_text v) (\<lambda>text.
            rbind (ruby_regex engine pattern flags) (\<lambda>re. Inr (V_Bool (re text))))))
      | _ \<Rightarrow> router_bug ''pattern_match::interpret'')"

section \<open>Presence\<close>

fun blank :: "value \<Rightarrow> bool" where
  "blank V_Nil = True"
| "blank (V_Bool b) = (\<not> b)"
| "blank (V_Str s) = (s = [])"
| "blank (V_Array elements) = (elements = [])"
| "blank (V_Object flds) = (flds = [])"
| "blank _ = False"

definition presence_interpret :: "evaluator \<Rightarrow> expr \<Rightarrow> eval_ctx \<Rightarrow> value res" where
  "presence_interpret ev e ctx =
     (case e of
        E_Presence receiver neg \<Rightarrow>
          (rbind (ev receiver ctx) (\<lambda>v.
            let present = (\<not> blank v) in Inr (V_Bool (if neg then \<not> present else present))))
      | _ \<Rightarrow> router_bug ''presence::interpret'')"

fun field_set :: "field \<Rightarrow> bool" where
  "field_set (FD_Nested _) = True"
| "field_set (FD_Value v) = (v \<noteq> V_Nil)"

definition assignment_set :: "evaluator \<Rightarrow> expr \<Rightarrow> eval_ctx \<Rightarrow> bool res" where
  "assignment_set ev e ctx =
     (case e of
        E_Lookup path \<Rightarrow>
          (rbind (lookup_field path ctx) (\<lambda>f. Inr (field_set f)))
      | _ \<Rightarrow> rbind (ev e ctx) (\<lambda>v. Inr (v \<noteq> V_Nil)))"

definition assignment_interpret :: "evaluator \<Rightarrow> expr \<Rightarrow> eval_ctx \<Rightarrow> value res" where
  "assignment_interpret ev e ctx =
     (case e of
        E_Assignment receiver neg \<Rightarrow>
          (rbind (assignment_set ev receiver ctx) (\<lambda>set. Inr (V_Bool (if neg then \<not> set else set))))
      | _ \<Rightarrow> router_bug ''presence::interpret_assignment'')"

section \<open>Text\<close>

definition require_str :: "value \<Rightarrow> string \<Rightarrow> string res" where
  "require_str v op =
     (case v of
        V_Str s \<Rightarrow> Inr s
      | other \<Rightarrow> Inl (eval_error (op @ '' expects a string, got '' @ describe other)))"

fun split_on :: "(char \<Rightarrow> bool) \<Rightarrow> string \<Rightarrow> string \<Rightarrow> string list" where
  "split_on p acc [] = [rev acc]"
| "split_on p acc (c # cs) = (if p c then rev acc # split_on p [] cs else split_on p (c # acc) cs)"

definition is_split_space :: "char \<Rightarrow> bool" where
  "is_split_space c = List.member [CHR 0x20, CHR 0x09, CHR 0x0A, CHR 0x0B, CHR 0x0C, CHR 0x0D] c"

definition split_parts :: "string \<Rightarrow> string \<Rightarrow> string list" where
  "split_parts text separator =
     (if separator = '' '' then filter (\<lambda>p. p \<noteq> []) (split_on is_split_space [] text)
      else if separator = [] then utf8_chars text
      else split_str separator text)"

definition drop_trailing_empty :: "string list \<Rightarrow> string list" where
  "drop_trailing_empty parts = rev (dropWhile (\<lambda>p. p = []) (rev parts))"

definition text_split :: "string \<Rightarrow> string \<Rightarrow> value list" where
  "text_split text separator = map V_Str (drop_trailing_empty (split_parts text separator))"

definition text_interpret :: "evaluator \<Rightarrow> expr \<Rightarrow> eval_ctx \<Rightarrow> value res" where
  "text_interpret ev e ctx =
     (case e of
        E_Split receiver separator \<Rightarrow>
          (rbind (ev receiver ctx) (\<lambda>v. rbind (require_str v ''split'') (\<lambda>text.
            Inr (V_Array (text_split text separator)))))
      | E_Strip receiver side \<Rightarrow>
          (rbind (ev receiver ctx) (\<lambda>v. rbind (require_str v ''strip'') (\<lambda>text.
            Inr (V_Str (strip_trim side text)))))
      | E_StartsWith receiver sub \<Rightarrow>
          (rbind (ev receiver ctx) (\<lambda>v. rbind (require_str v ''start_with?'') (\<lambda>text.
            Inr (V_Bool (starts_with sub text)))))
      | E_EndsWith receiver sub \<Rightarrow>
          (rbind (ev receiver ctx) (\<lambda>v. rbind (require_str v ''end_with?'') (\<lambda>text.
            Inr (V_Bool (ends_with sub text)))))
      | _ \<Rightarrow> router_bug ''text::interpret'')"

section \<open>Positional\<close>

definition field_value :: "field option \<Rightarrow> string \<Rightarrow> value res" where
  "field_value item op =
     (case item of
        None \<Rightarrow> Inr V_Nil
      | Some (FD_Value v) \<Rightarrow> Inr v
      | Some (FD_Nested _) \<Rightarrow>
          Inl (eval_error (op @ '' on a list of objects is not generated yet '' @ em_dash @
            '' only scalar-element lists are'')))"

definition take_end :: "bool \<Rightarrow> 'a list \<Rightarrow> 'a option" where
  "take_end take_first xs =
     (if xs = [] then None else if take_first then Some (hd xs) else Some (last xs))"

definition positional_of :: "evaluator \<Rightarrow> string \<Rightarrow> bool \<Rightarrow> expr \<Rightarrow> eval_ctx \<Rightarrow> value res" where
  "positional_of ev op take_first e ctx =
     (case e of
        E_Lookup path \<Rightarrow>
          (rbind (lookup_items path ctx op) (\<lambda>items. field_value (take_end take_first items) op))
      | _ \<Rightarrow>
          (rbind (ev e ctx) (\<lambda>v.
            case v of
              V_Array elements \<Rightarrow>
                Inr (case take_end take_first elements of None \<Rightarrow> V_Nil | Some e \<Rightarrow> e)
            | v \<Rightarrow> Inl (eval_error (op @ '' expects a list, got '' @ describe v)))))"

definition positional_interpret :: "evaluator \<Rightarrow> expr \<Rightarrow> eval_ctx \<Rightarrow> value res" where
  "positional_interpret ev e ctx =
     (case e of
        E_First receiver \<Rightarrow> positional_of ev ''first'' True receiver ctx
      | E_Last receiver \<Rightarrow> positional_of ev ''last'' False receiver ctx
      | _ \<Rightarrow> router_bug ''positional::interpret'')"

end
