(* ===== verification/Interpreter.thy ===== *)
theory Interpreter
  imports Operators
begin

text \<open>
  \<open>interpret\<close> of \<open>rust/expr/src/expr.rs\<close>: leaves directly, everything else through the operator
  category. The recursion is well-founded because every operator only evaluates proper
  sub-expressions of its node (the congruence lemmas below say exactly that), so the interpreter
  is a total function. Its errors are evaluation faults only: the router-bug arms are dead.
\<close>

section \<open>Dispatch on the category\<close>

definition dispatch_operator ::
  "regex_engine \<Rightarrow> evaluator \<Rightarrow> operator_category \<Rightarrow> expr \<Rightarrow> eval_ctx \<Rightarrow> value res" where
  "dispatch_operator engine ev category e ctx =
     (case category of
        OC_Logical \<Rightarrow> logical_interpret ev e ctx
      | OC_Membership \<Rightarrow> membership_interpret ev e ctx
      | OC_Comparison \<Rightarrow> comparison_interpret ev e ctx
      | OC_Arithmetic \<Rightarrow>
          (case e of
             E_Add _ _ \<Rightarrow> arithmetic_binary ev e ctx
           | E_Sub _ _ \<Rightarrow> arithmetic_binary ev e ctx
           | E_Mul _ _ \<Rightarrow> arithmetic_binary ev e ctx
           | E_Div _ _ \<Rightarrow> arithmetic_binary ev e ctx
           | E_Modulo _ _ \<Rightarrow> arithmetic_modulo ev e ctx
           | _ \<Rightarrow> router_bug ''dispatch_operator(Arithmetic, ..)'')
      | OC_SignTest \<Rightarrow> sign_test_interpret ev e ctx
      | OC_Sized \<Rightarrow>
          (case e of
             E_Empty _ \<Rightarrow> sized_empty ev e ctx
           | E_Size _ \<Rightarrow> sized_size ev e ctx
           | _ \<Rightarrow> router_bug ''dispatch_operator(Sized, ..)'')
      | OC_ToString \<Rightarrow> to_string_interpret ev e ctx
      | OC_Enumeration \<Rightarrow> enumeration_interpret ev e ctx
      | OC_PatternMatch \<Rightarrow> pattern_match_interpret engine ev e ctx
      | OC_Presence \<Rightarrow>
          (case e of
             E_Presence _ _ \<Rightarrow> presence_interpret ev e ctx
           | E_Assignment _ _ \<Rightarrow> assignment_interpret ev e ctx
           | _ \<Rightarrow> router_bug ''dispatch_operator(Presence, ..)'')
      | OC_Text \<Rightarrow> text_interpret ev e ctx
      | OC_Positional \<Rightarrow> positional_interpret ev e ctx)"

text \<open>A non-leaf node; the leaves have no category, the source's \<open>unreachable!\<close>.\<close>

definition interpret_operator :: "regex_engine \<Rightarrow> evaluator \<Rightarrow> expr \<Rightarrow> eval_ctx \<Rightarrow> value res" where
  "interpret_operator engine ev e ctx =
     (case category_of e of
        None \<Rightarrow> router_bug ''interpret: unreachable''
      | Some category \<Rightarrow> dispatch_operator engine ev category e ctx)"

lemmas operator_defs =
  interpret_operator_def dispatch_operator_def logical_interpret_def
  membership_interpret_def comparison_interpret_def arithmetic_binary_def arithmetic_modulo_def
  sign_test_interpret_def sized_empty_def sized_size_def to_string_interpret_def
  enumeration_interpret_def pattern_match_interpret_def presence_interpret_def
  assignment_interpret_def text_interpret_def positional_interpret_def

section \<open>Operators evaluate proper sub-expressions\<close>

lemma sum_terms_cong:
  "(\<And>item. item \<in> set items \<Longrightarrow> f item = g item) \<Longrightarrow> sum_terms f acc items = sum_terms g acc items"
  by (induction items arbitrary: acc) (auto intro!: rbind_cong)

lemma find_item_cong:
  "(\<And>item. item \<in> set items \<Longrightarrow> f item = g item) \<Longrightarrow> find_item f path items = find_item g path items"
  by (induction items) (auto intro!: rbind_cong)

lemma interpret_operator_cong [fundef_cong]:
  assumes "engine = engine'" "e = e'" "ctx = ctx'"
    and ev: "\<And>x c. size x < size e' \<Longrightarrow> ev x c = ev' x c"
  shows "interpret_operator engine ev e ctx = interpret_operator engine' ev' e' ctx'"
proof -
  have items: "enumeration_elements ev r c op = enumeration_elements ev' r c op"
    if "size r < size e'" for r c op
    using ev [OF that, of c] by (cases r) (simp_all add: enumeration_elements_def)
  have set: "assignment_set ev r c = assignment_set ev' r c"
    if "size r < size e'" for r c
    using ev [OF that, of c] by (cases r) (simp_all add: assignment_set_def)
  have pos: "positional_of ev op b r c = positional_of ev' op b r c"
    if "size r < size e'" for op b r c
    using ev [OF that, of c] by (cases r) (simp_all add: positional_of_def)
  show ?thesis
    unfolding assms(1-3)
    by (cases e') (use ev items set pos in \<open>simp_all add: operator_defs cong: if_cong\<close>)
qed

section \<open>The interpreter\<close>

lemma size_array_element [termination_simp]:
  "e \<in> set elements \<Longrightarrow> size e < Suc (size_list size elements)"
  by (meson le_imp_less_Suc order_refl size_list_estimation')

function (sequential) interpret_expr :: "regex_engine \<Rightarrow> expr \<Rightarrow> eval_ctx \<Rightarrow> value res" where
  "interpret_expr engine e ctx =
     (case e of
        E_Int v \<Rightarrow> Inr (V_Int v)
      | E_Float v \<Rightarrow> Inr (V_Float v)
      | E_Str v \<Rightarrow> Inr (V_Str v)
      | E_Bool v \<Rightarrow> Inr (V_Bool v)
      | E_Nil \<Rightarrow> Inr V_Nil
      | E_Lookup path \<Rightarrow> lookup_value path ctx
      | E_Array elements \<Rightarrow>
          rbind (traverse (\<lambda>e. interpret_expr engine e ctx) elements) (\<lambda>vs. Inr (V_Array vs))
      | _ \<Rightarrow> interpret_operator engine (interpret_expr engine) e ctx)"
  by pat_completeness auto

termination
  by (relation "measure (\<lambda>(_, e, _). size e)") (auto simp: size_array_element)

declare interpret_expr.simps [simp del]

text \<open>One equation per node, for evaluation and for case analysis.\<close>

lemma interpret_leaf [simp]:
  "interpret_expr engine (E_Int v) ctx = Inr (V_Int v)"
  "interpret_expr engine (E_Float f) ctx = Inr (V_Float f)"
  "interpret_expr engine (E_Str s) ctx = Inr (V_Str s)"
  "interpret_expr engine (E_Bool b) ctx = Inr (V_Bool b)"
  "interpret_expr engine E_Nil ctx = Inr V_Nil"
  "interpret_expr engine (E_Lookup path) ctx = lookup_value path ctx"
  "interpret_expr engine (E_Array elements) ctx =
     rbind (traverse (\<lambda>e. interpret_expr engine e ctx) elements) (\<lambda>vs. Inr (V_Array vs))"
  by (simp_all add: interpret_expr.simps [of engine "E_Int v"] interpret_expr.simps [of engine "E_Float f"]
    interpret_expr.simps [of engine "E_Str s"] interpret_expr.simps [of engine "E_Bool b"]
    interpret_expr.simps [of engine E_Nil] interpret_expr.simps [of engine "E_Lookup path"]
    interpret_expr.simps [of engine "E_Array elements"])

lemma interpret_node:
  "category_of e \<noteq> None \<Longrightarrow> interpret_expr engine e ctx = interpret_operator engine (interpret_expr engine) e ctx"
  by (subst interpret_expr.simps) (cases e; simp)

section \<open>Errors of the interpreter\<close>

text \<open>A result whose only refusal is an evaluation fault.\<close>

definition only_faults :: "'a res \<Rightarrow> bool" where
  "only_faults m \<longleftrightarrow> (case m of Inl (Fault _) \<Rightarrow> True | Inl _ \<Rightarrow> False | Inr _ \<Rightarrow> True)"

named_theorems faults \<open>operations whose only refusal is a fault\<close>

lemma only_faults_simps [simp]:
  "only_faults (Inr a)"
  "only_faults (Inl (eval_error t))"
  "\<not> only_faults (router_bug w)"
  by (simp_all add: only_faults_def eval_error_def router_bug_def)

lemma only_faults_rbind [faults]:
  "only_faults m \<Longrightarrow> (\<And>a. m = Inr a \<Longrightarrow> only_faults (f a)) \<Longrightarrow> only_faults (rbind m f)"
  by (cases m) (simp_all add: only_faults_def)

lemma only_faults_ok_or [faults]: "only_faults (ok_or (eval_error t) x)"
  by (cases x) simp_all

lemma only_faults_traverse [faults]:
  "(\<And>x. x \<in> set xs \<Longrightarrow> only_faults (f x)) \<Longrightarrow> only_faults (traverse f xs)"
  by (induction xs) (simp_all add: only_faults_rbind)

lemma only_faults_Inl: "only_faults m \<Longrightarrow> m = Inl r \<Longrightarrow> \<exists>t. r = Fault t"
  by (cases r) (simp_all add: only_faults_def)

lemma step_value_faults [faults]: "only_faults (step_value v seg)"
  by (cases v) simp_all

lemma step_field_faults [faults]: "only_faults (step_field cur seg head)"
  by (simp add: step_field_def faults split: field.split)

lemma walk_faults [faults]: "only_faults (walk head cur segs)"
  by (induction segs arbitrary: cur) (simp_all add: faults)

lemma finish_faults [faults]: "only_faults (finish cur path)"
  by (simp add: finish_def faults split: field.split)

lemma lookup_faults [faults]:
  "only_faults (resolve_head head ctx)"
  "only_faults (lookup_field path ctx)"
  "only_faults (lookup_value path ctx)"
proof -
  show resolve: "only_faults (resolve_head head ctx)" for head
    by (simp add: resolve_head_def faults)
  show field: "only_faults (lookup_field path ctx)"
    by (simp add: lookup_field_def Let_def faults resolve)
  show "only_faults (lookup_value path ctx)"
    by (simp add: lookup_value_def faults field)
qed

lemma lookup_items_faults [faults]: "only_faults (lookup_items path ctx op)"
  by (simp add: lookup_items_def Let_def faults split: field.split)

lemma require_faults [faults]:
  "only_faults (require_number v op)"
  "only_faults (require_str v op)"
  by (simp_all add: require_number_def require_str_def faults split: "value.split")

lemma arith_faults [faults]:
  "only_faults (arith_finite name symbol ops x)"
  "only_faults (checked_arith name symbol l r int_op float_op)"
  "only_faults (arith_sum l r)"
  "only_faults (divide l r)"
  "only_faults (modulo_values l r)"
proof -
  show fin: "only_faults (arith_finite name symbol ops x)" for name symbol ops x
    by (simp add: arith_finite_def)
  show checked: "only_faults (checked_arith name symbol l r int_op float_op)" for name symbol l r int_op float_op
    by (simp add: checked_arith_def int_overflow_def faults fin split: "value.split")
  show "only_faults (arith_sum l r)"
    by (simp add: arith_sum_def checked)
  show "only_faults (divide l r)"
    by (simp add: divide_def int_overflow_def faults fin split: "value.split")
  show "only_faults (modulo_values l r)"
    by (simp add: modulo_values_def Let_def faults split: "value.split")
qed

lemma comparison_faults [faults]:
  "only_faults (values_less_than l r)"
  "only_faults (apply_comparison op l r)"
proof -
  show lt: "only_faults (values_less_than l r)"
    by (simp add: values_less_than_def split: option.split "value.split")
  show "only_faults (apply_comparison op l r)"
    by (simp add: apply_comparison_def Let_def faults lt)
qed

lemma project_faults [faults]: "only_faults (project item path)"
  by (simp add: project_def faults)

lemma find_item_faults:
  "(\<And>item. only_faults (f item)) \<Longrightarrow> only_faults (find_item f path items)"
  by (induction items) (simp_all add: faults)

lemma sum_terms_faults:
  "(\<And>item. only_faults (f item)) \<Longrightarrow> only_faults (sum_terms f acc items)"
  by (induction items arbitrary: acc) (simp_all add: faults)

lemma text_faults [faults]:
  "only_faults (coerce_text v)"
  "only_faults (ruby_regex engine pattern flags)"
  "only_faults (field_value item op)"
  by (cases v; simp)
     (simp_all add: ruby_regex_def field_value_def split: sum.split option.split field.split)

lemma operator_faults:
  assumes ev: "\<And>x c. size x < size e \<Longrightarrow> only_faults (ev x c)" and node: "category_of e \<noteq> None"
  shows "only_faults (interpret_operator engine ev e ctx)"
proof -
  have items: "only_faults (enumeration_elements ev r c op)" if "size r < size e" for r c op
    using ev [OF that, of c] by (cases r) (simp_all add: enumeration_elements_def faults)
  have set: "only_faults (assignment_set ev r c)" if "size r < size e" for r c
    using ev [OF that, of c] by (cases r) (simp_all add: assignment_set_def faults)
  have pos: "only_faults (positional_of ev op b r c)" if "size r < size e" for op b r c
    using ev [OF that, of c] by (cases r) (simp_all add: positional_of_def faults split: "value.split")
  show ?thesis
    using node
    by (cases e) (use ev items set pos in
      \<open>simp_all add: operator_defs faults find_item_faults sum_terms_faults Let_def split: "value.split"\<close>)
qed

lemma interpret_faults: "only_faults (interpret_expr engine e ctx)"
proof (induction "size e" arbitrary: e ctx rule: less_induct)
  case less
  show ?case
  proof (cases "category_of e")
    case None
    have "only_faults (interpret_expr engine x c)" if "e = E_Array es" "x \<in> set es" for x c es
      using less [of x c] that by (simp add: size_array_element)
    with None show ?thesis
      by (cases e) (simp_all add: faults)
  next
    case (Some oc)
    then show ?thesis
      using less by (simp add: interpret_node operator_faults)
  qed
qed

text \<open>
  Evaluation is total and its only refusal is a fault. Whatever the expression and the context,
  \<open>interpret\<close> returns a value or a \<open>Fault\<close>; the arms every operator keeps for a node of another
  category (a \<open>TypeMismatch\<close> naming a router bug) and the \<open>unreachable!\<close> of \<open>category_of\<close> are dead.
\<close>

theorem interpret_only_faults:
  "interpret_expr engine e ctx = Inl r \<Longrightarrow> \<exists>t. r = Fault t"
  using interpret_faults only_faults_Inl by blast

definition no_engine :: regex_engine where
  "no_engine source i m x = Inr (\<lambda>_. False)"

definition empty_ctx :: eval_ctx where
  "empty_ctx = \<lparr>ctx_args = no_fields, ctx_instance = no_fields\<rparr>"

theorem interpret_only_faults_witness:
  "interpret_expr no_engine (E_Div (E_Int 1) (E_Int 0)) empty_ctx = Inl (Fault ''divided by 0'') \<and>
   (\<exists>t. Fault ''divided by 0'' = Fault t)"
proof -
  have "interpret_expr no_engine (E_Div (E_Int 1) (E_Int 0)) empty_ctx = Inl (Fault ''divided by 0'')"
    by code_simp
  with interpret_only_faults [OF this] show ?thesis by blast
qed

end
