(* ===== verification/Arithmetic_Laws.thy ===== *)
theory Arithmetic_Laws
  imports Interpreter
begin

text \<open>
  What the numeric operators compute: floored division and remainder on 64-bit integers, exact
  checked arithmetic, and the comparison of integers, which the source carries out on their
  conversions to binary64.
\<close>

section \<open>Floored division\<close>

lemma abs_div_mod_nonneg [simp]:
  "0 \<le> \<bar>a :: int\<bar> div \<bar>b\<bar>"
  "0 \<le> \<bar>a :: int\<bar> mod \<bar>b\<bar>"
  by (simp_all add: pos_imp_zdiv_nonneg_iff div_int_pos_iff) (cases "b = 0"; simp)

lemma div_via_trunc:
  fixes a b :: int
  assumes "b \<noteq> 0"
  shows "a div b = (if trunc_mod a b \<noteq> 0 \<and> (a < 0) \<noteq> (b < 0) then trunc_div a b - 1 else trunc_div a b)"
proof (cases "a = 0")
  case True
  then show ?thesis by (simp add: trunc_div_def trunc_mod_def)
next
  case False
  consider "0 < a" "0 < b" | "a < 0" "b < 0" | "a < 0" "0 < b" | "0 < a" "b < 0"
    using False assms by linarith
  then show ?thesis
  proof cases
    case 3
    then show ?thesis
      using zdiv_zminus1_eq_if [of b "- a"] by (auto simp: trunc_div_def trunc_mod_def)
  next
    case 4
    then show ?thesis
      using zdiv_zminus1_eq_if [of "- b" a] by (auto simp: trunc_div_def trunc_mod_def div_minus_right)
  qed (simp_all add: trunc_div_def trunc_mod_def)
qed

lemma mod_via_trunc:
  fixes a b :: int
  assumes "b \<noteq> 0"
  shows "a mod b = (if trunc_mod a b \<noteq> 0 \<and> (trunc_mod a b < 0) \<noteq> (b < 0)
                    then trunc_mod a b + b else trunc_mod a b)"
proof -
  have neg: "trunc_mod a b < 0 \<longleftrightarrow> a < 0" if "trunc_mod a b \<noteq> 0"
    using that abs_div_mod_nonneg(2) [of a b]
    by (cases a "0 :: int" rule: linorder_cases) (simp_all add: trunc_mod_def less_le)
  have "a mod b = a - b * (a div b)"
    by (simp add: minus_mult_div_eq_mod)
  with neg show ?thesis
    using trunc_div_mod [of a b] by (cases "trunc_mod a b = 0") (auto simp: div_via_trunc [OF assms] algebra_simps)
qed

lemma trunc_div_abs: "\<bar>trunc_div a b\<bar> \<le> \<bar>a\<bar>"
proof (cases "b = 0")
  case False
  have "\<bar>trunc_div a b\<bar> \<le> \<bar>a\<bar> div \<bar>b\<bar>"
    by (cases "a = 0") (simp_all add: trunc_div_def abs_mult abs_sgn_eq)
  also have "\<dots> \<le> \<bar>a\<bar>"
    using div_le_dividend [of "nat \<bar>a\<bar>" "nat \<bar>b\<bar>"] by (simp add: nat_div_distrib [symmetric])
  finally show ?thesis .
qed (simp add: trunc_div_def)

lemma trunc_div_full:
  assumes "\<bar>trunc_div a b\<bar> = \<bar>a\<bar>" "a \<noteq> 0"
  shows "trunc_mod a b = 0"
proof -
  have b: "b \<noteq> 0"
    using assms by (auto simp: trunc_div_def)
  then have "\<bar>a\<bar> div \<bar>b\<bar> = \<bar>a\<bar>"
    using assms by (simp add: trunc_div_def abs_mult abs_sgn_eq)
  then have "\<bar>b\<bar> = 1"
    using assms(2) b int_div_less_self [of "\<bar>a\<bar>" "\<bar>b\<bar>"] by linarith
  then show ?thesis
    by (simp add: trunc_mod_def)
qed

lemma in_i64_trunc_div:
  assumes "in_i64 a" "in_i64 (trunc_div a b)" "trunc_mod a b \<noteq> 0"
  shows "in_i64 (trunc_div a b - 1)"
proof (rule ccontr)
  assume "\<not> in_i64 (trunc_div a b - 1)"
  with assms have "trunc_div a b = - (2 ^ 63)"
    by (auto simp: in_i64_def)
  with trunc_div_abs [of a b] assms(1) have "\<bar>trunc_div a b\<bar> = \<bar>a\<bar>" "a \<noteq> 0"
    by (auto simp: in_i64_def)
  with assms(3) trunc_div_full show False by blast
qed

lemma sint_eq_0 [simp]: "sint (w :: i64) = 0 \<longleftrightarrow> w = 0"
  by (metis i64_of_int_sint sint_0)

lemma floored_div_eq:
  assumes "r \<noteq> 0"
  shows "floored_div l r = checked_i64 (sint l div sint r)"
proof (cases "in_i64 (trunc_div (sint l) (sint r))")
  case False
  have r: "sint r \<noteq> 0" using assms by simp
  have "trunc_mod (sint l) (sint r) = 0"
  proof -
    have "\<bar>trunc_div (sint l) (sint r)\<bar> = \<bar>sint l\<bar>" "sint l \<noteq> 0"
      using False trunc_div_abs [of "sint l" "sint r"] sint_i64_range [of l]
      by (auto simp: in_i64_def abs_le_iff not_le not_less)
    then show ?thesis by (rule trunc_div_full)
  qed
  with False assms show ?thesis
    by (simp add: floored_div_def checked_div_def checked_i64_def div_via_trunc [OF r])
next
  case True
  have r: "sint r \<noteq> 0" using assms by simp
  have "i64_of_int x - 1 = i64_of_int (x - 1)" for x
    by (simp add: i64_of_int_def)
  with True assms show ?thesis
    using in_i64_trunc_div [of "sint l" "sint r"]
    by (simp add: floored_div_def checked_div_def checked_i64_def div_via_trunc [OF r])
qed

lemma floored_mod_eq:
  assumes "d \<noteq> 0"
  shows "sint (floored_mod r d) = sint r mod sint d"
proof -
  have d: "sint d \<noteq> 0" using assms by simp
  have "\<bar>trunc_mod (sint r) (sint d)\<bar> \<le> \<bar>sint r\<bar> mod \<bar>sint d\<bar>"
    by (simp add: trunc_mod_def abs_mult abs_sgn_eq)
  also have "\<dots> < \<bar>sint d\<bar>"
    using d by simp
  finally have bound: "\<bar>trunc_mod (sint r) (sint d)\<bar> < \<bar>sint d\<bar>" .
  then have raw: "in_i64 (trunc_mod (sint r) (sint d))"
    using sint_i64_range [of d] by (auto simp: in_i64_def)
  show ?thesis
  proof (cases "d = -1")
    case True
    then show ?thesis by (simp add: floored_mod_def)
  next
    case False
    have nz: "i64_of_int x \<noteq> 0 \<longleftrightarrow> x \<noteq> 0" if "in_i64 x" for x
      using that by (metis sint_eq_0 sint_i64_of_int)
    have plus: "i64_of_int x + d = i64_of_int (x + sint d)" for x
      by (simp add: i64_of_int_def)
    have sum: "in_i64 (trunc_mod (sint r) (sint d) + sint d)"
      if "(trunc_mod (sint r) (sint d) < 0) \<noteq> (sint d < 0)"
      using that bound raw sint_i64_range [of d] by (auto simp: in_i64_def)
    have zero: "i64_of_int 0 = 0"
      by (simp add: i64_of_int_def)
    show ?thesis
      using False raw sum zero
      by (auto simp: floored_mod_def Let_def nz plus mod_via_trunc [OF d, of "sint r"])
  qed
qed

section \<open>Integers as binary64\<close>

lemma bit_count_bounds: "0 < n \<Longrightarrow> 0 < bit_count n \<and> 2 ^ nat (bit_count n - 1) \<le> n \<and> n < 2 ^ nat (bit_count n)"
proof (induction n rule: bit_count.induct)
  case (1 n)
  show ?case
  proof (cases "n = 1")
    case True
    then show ?thesis by (simp add: bit_count.simps)
  next
    case False
    then have ih: "0 < bit_count (n div 2)" "2 ^ nat (bit_count (n div 2) - 1) \<le> n div 2"
        "n div 2 < 2 ^ nat (bit_count (n div 2))"
      using "1.IH" "1.prems" by auto
    have b: "bit_count n = 1 + bit_count (n div 2)"
      using "1.prems" by (simp add: bit_count.simps [of n])
    have p: "(2 :: int) ^ nat (bit_count (n div 2)) = 2 * 2 ^ nat (bit_count (n div 2) - 1)"
      using ih(1) by (simp add: power_Suc [symmetric] Suc_nat_eq_nat_zadd1 del: power_Suc)
    have q: "(2 :: int) ^ nat (1 + bit_count (n div 2)) = 2 * 2 ^ nat (bit_count (n div 2))"
      using ih(1) by (simp add: nat_add_distrib)
    have "2 * (n div 2) \<le> n" "n \<le> 2 * (n div 2) + 1"
      by simp_all
    with ih p q show ?thesis
      unfolding b add_diff_cancel_left' by (intro conjI; linarith)
  qed
qed

lemma half_even_exact: "0 < d \<Longrightarrow> half_even (q * d) d = q"
  by (simp add: half_even_def)

lemma bit_count_le:
  assumes "0 < n" "n < 2 ^ k"
  shows "bit_count n \<le> int k"
proof (rule ccontr)
  assume "\<not> bit_count n \<le> int k"
  then have "k \<le> nat (bit_count n - 1)" by linarith
  then have "(2 :: int) ^ k \<le> 2 ^ nat (bit_count n - 1)" by (rule power_increasing) simp
  with bit_count_bounds [OF assms(1)] assms(2) show False by linarith
qed

lemma round_ratio_small:
  assumes "0 < n" "n < 2 ^ 53"
  shows "round_ratio s n 1 = F_Fin s (n * 2 ^ nat (53 - bit_count n)) (bit_count n - 53)"
proof -
  define b where "b = bit_count n"
  have b: "0 < b" "2 ^ nat (b - 1) \<le> n" "n < 2 ^ nat b" "b \<le> 53"
    using bit_count_bounds [OF assms(1)] bit_count_le [OF assms] by (simp_all add: b_def)
  have one: "bit_count 1 = 1" by (simp add: bit_count.simps)
  have "(2 :: int) ^ 53 = 2 ^ nat (b - 1) * 2 ^ nat (54 - b)"
    using b by (simp add: power_add [symmetric] nat_add_distrib [symmetric] del: power_numeral)
  also have "\<dots> \<le> n * 2 ^ nat (54 - b)"
    using b by (intro mult_right_mono) auto
  finally have big: "2 ^ 53 \<le> n * 2 ^ nat (54 - b)" .
  have e: "round_exp n 1 = b - 53"
    using b big by (simp add: round_exp_def Let_def one b_def [symmetric] unit_num_def unit_den_def
      min_exp_def del: power_numeral)
  have "n * 2 ^ nat (53 - b) < 2 ^ nat b * 2 ^ nat (53 - b)"
    using b by (intro mult_strict_right_mono) auto
  also have "\<dots> = 2 ^ 53"
    using b by (simp add: power_add [symmetric] nat_add_distrib [symmetric] del: power_numeral)
  finally have small: "n * 2 ^ nat (53 - b) \<noteq> 2 ^ 53" by simp
  have "half_even (unit_num n (b - 53)) (unit_den 1 (b - 53)) = n * 2 ^ nat (53 - b)"
    using half_even_exact [of 1] b by (simp add: unit_num_def unit_den_def)
  with e small assms b show ?thesis
    by (simp add: round_ratio_def Let_def b_def [symmetric] max_exp_def del: power_numeral)
qed

lemma f64_of_int_repr:
  assumes "\<bar>i\<bar> < 2 ^ 53"
  shows "\<exists>s m e. f64_of_int i = F_Fin s m e \<and> e \<le> 0 \<and> signed_int s m = i * 2 ^ nat (- e)"
proof (cases "i = 0")
  case True
  then show ?thesis
    by (auto simp: f64_of_int_def round_ratio_def signed_int_def min_exp_def)
next
  case False
  then have "0 < \<bar>i\<bar>" by simp
  from round_ratio_small [OF this assms] bit_count_le [OF this assms] show ?thesis
    by (auto simp: f64_of_int_def signed_int_def)
qed

lemma in_units_shift:
  "e \<le> 0 \<Longrightarrow> u \<le> e \<Longrightarrow> signed_int s m = i * 2 ^ nat (- e) \<Longrightarrow> in_units s m e u = i * 2 ^ nat (- u)"
  by (simp add: in_units_def mult.assoc power_add [symmetric] nat_add_distrib [symmetric])

lemma f64_cmp_of_int:
  assumes "\<bar>i\<bar> < 2 ^ 53" "\<bar>j\<bar> < 2 ^ 53"
  shows "f64_cmp (f64_of_int i) (f64_of_int j) =
    Some (if i < j then Less else if i = j then Equal else Greater)"
proof -
  obtain s m e where i: "f64_of_int i = F_Fin s m e" "e \<le> 0" "signed_int s m = i * 2 ^ nat (- e)"
    using f64_of_int_repr [OF assms(1)] by blast
  obtain t n f where j: "f64_of_int j = F_Fin t n f" "f \<le> 0" "signed_int t n = j * 2 ^ nat (- f)"
    using f64_of_int_repr [OF assms(2)] by blast
  show ?thesis
    using in_units_shift [of e "min e f" s m i] in_units_shift [of f "min e f" t n j] i j
    by (simp add: Let_def)
qed

lemma values_less_than_int:
  assumes "\<bar>sint a\<bar> < 2 ^ 53" "\<bar>sint b\<bar> < 2 ^ 53"
  shows "values_less_than (V_Int a) (V_Int b) = Inr (sint a < sint b)"
  using f64_cmp_of_int [OF assms] by (simp add: values_less_than_def f64_lt_def)

text \<open>A non-zero integer never converts to a float that equals zero, so \<open>r == 0.0\<close> tests the integer.\<close>

lemma half_even_pos: "1 \<le> n div d \<Longrightarrow> 0 < half_even n d"
  by (simp add: half_even_def Let_def)

lemma round_ratio_nonzero:
  assumes "0 < n"
  shows "\<not> f64_eq (round_ratio s n 1) f64_zero"
proof -
  define b where "b = bit_count n"
  have q: "0 < half_even (unit_num n (round_exp n 1)) (unit_den 1 (round_exp n 1))"
  proof (cases "n < 2 ^ 53")
    case True
    have "round_ratio s n 1 = F_Fin s (n * 2 ^ nat (53 - bit_count n)) (bit_count n - 53)"
      by (rule round_ratio_small [OF assms True])
    then have "half_even (unit_num n (round_exp n 1)) (unit_den 1 (round_exp n 1)) \<noteq> 0"
      using assms by (auto simp: round_ratio_def Let_def split: if_splits)
    moreover have "0 \<le> half_even (unit_num n (round_exp n 1)) (unit_den 1 (round_exp n 1))"
      using assms by (simp add: half_even_def Let_def unit_num_def unit_den_def div_int_pos_iff)
    ultimately show ?thesis by linarith
  next
    case False
    have b: "0 < b" "2 ^ nat (b - 1) \<le> n" "n < 2 ^ nat b"
      using bit_count_bounds [OF assms] by (simp_all add: b_def)
    have big: "54 \<le> b"
    proof (rule ccontr)
      assume "\<not> 54 \<le> b"
      then have "(2 :: int) ^ nat b \<le> 2 ^ 53" by (intro power_increasing) auto
      with b(3) False show False by linarith
    qed
    have one: "bit_count 1 = 1" by (simp add: bit_count.simps)
    have e: "0 \<le> round_exp n 1" "round_exp n 1 \<le> b - 53"
      using big by (auto simp: round_exp_def Let_def one b_def [symmetric] min_exp_def)
    have "(2 :: int) ^ nat (round_exp n 1) \<le> 2 ^ nat (b - 1)"
      using e big by (intro power_increasing) auto
    then have "1 \<le> n div 2 ^ nat (round_exp n 1)"
      using order_trans [OF _ b(2)] by (simp add: pos_imp_zdiv_pos_iff int_one_le_iff_zero_less del: power_increasing_iff)
    then show ?thesis
      using e by (intro half_even_pos) (simp add: unit_num_def unit_den_def)
  qed
  then show ?thesis
    using assms by (auto simp: round_ratio_def Let_def f64_eq_def f64_zero_def in_units_def signed_int_def)
qed

lemma f64_of_int_nonzero: "i \<noteq> 0 \<Longrightarrow> \<not> f64_eq (f64_of_int i) f64_zero"
  by (simp add: f64_of_int_def round_ratio_nonzero)

section \<open>Properties\<close>

text \<open>
  Integer division and remainder floor. Dividing two 64-bit integers with a non-zero divisor
  gives the quotient rounded towards negative infinity, or an overflow fault exactly when that
  quotient does not fit in 64 bits; the remainder always exists and takes the divisor's sign.
  The source computes both from the truncating operations of the machine.
\<close>

theorem integer_division_floors:
  assumes "b \<noteq> 0"
  shows "interpret_expr engine (E_Div (E_Int a) (E_Int b)) ctx =
      (if in_i64 (sint a div sint b) then Inr (V_Int (i64_of_int (sint a div sint b)))
       else Inl (int_overflow ''division'' ''/'' a b)) \<and>
    interpret_expr engine (E_Modulo (E_Int a) (E_Int b)) ctx = Inr (V_Int (i64_of_int (sint a mod sint b)))"
proof -
  have nz: "\<not> f64_eq (f64_of_int (sint b)) f64_zero"
    using assms by (intro f64_of_int_nonzero) simp
  have "floored_mod a b = i64_of_int (sint a mod sint b)"
    using floored_mod_eq [OF assms, of a] by (metis i64_of_int_sint)
  then show ?thesis
    using nz assms
    by (simp add: interpret_node operator_defs divide_def modulo_values_def require_number_def
      floored_div_eq checked_i64_def)
qed

theorem integer_division_floors_witness:
  "(2 :: i64) \<noteq> 0 \<and>
   interpret_expr no_engine (E_Div (E_Int (-7)) (E_Int 2)) empty_ctx = Inr (V_Int (-4)) \<and>
   interpret_expr no_engine (E_Modulo (E_Int (-7)) (E_Int 2)) empty_ctx = Inr (V_Int 1)"
  using integer_division_floors [of 2 no_engine "-7" empty_ctx]
  by (simp add: in_i64_def i64_of_int_def)

text \<open>
  Addition, subtraction and multiplication of 64-bit integers are exact or refused. The result
  is the mathematical one when it fits in 64 bits, and otherwise a fault naming the operation and
  its operands; nothing wraps.
\<close>

theorem integer_arithmetic_exact:
  "interpret_expr engine (E_Add (E_Int a) (E_Int b)) ctx =
      (if in_i64 (sint a + sint b) then Inr (V_Int (a + b)) else Inl (int_overflow ''addition'' ''+'' a b)) \<and>
   interpret_expr engine (E_Sub (E_Int a) (E_Int b)) ctx =
      (if in_i64 (sint a - sint b) then Inr (V_Int (a - b)) else Inl (int_overflow ''subtraction'' ''-'' a b)) \<and>
   interpret_expr engine (E_Mul (E_Int a) (E_Int b)) ctx =
      (if in_i64 (sint a * sint b) then Inr (V_Int (a * b)) else Inl (int_overflow ''multiplication'' ''*'' a b))"
  by (simp add: interpret_node operator_defs arith_sum_def checked_arith_def checked_add_def checked_sub_def
    checked_mul_def checked_i64_def i64_of_int_def)

text \<open>
  Comparing integers below 2^53 is exact. A comparison is a less-than and an equality test,
  joined and possibly negated; on two integers of magnitude below 2^53 it is the order of the
  integers, although the source compares their conversions to binary64.
\<close>

theorem integer_comparison_exact:
  assumes "\<bar>sint a\<bar> < 2 ^ 53" "\<bar>sint b\<bar> < 2 ^ 53"
  shows "interpret_expr engine (E_Compare op (E_Int a) (E_Int b)) ctx =
    Inr (V_Bool (((less_than op \<and> sint a < sint b) \<or> (equal op \<and> a = b)) \<noteq> negated op))"
  by (cases "less_than op") (simp_all add: interpret_node operator_defs apply_comparison_def Let_def values_less_than_int [OF assms])

theorem integer_comparison_exact_witness:
  "\<bar>sint (3 :: i64)\<bar> < 2 ^ 53 \<and> \<bar>sint (5 :: i64)\<bar> < 2 ^ 53 \<and>
   interpret_expr no_engine (E_Compare \<lparr>less_than = True, equal = True, negated = True\<rparr> (E_Int 3) (E_Int 5)) empty_ctx
     = Inr (V_Bool False)"
  using integer_comparison_exact [of 3 5 no_engine "\<lparr>less_than = True, equal = True, negated = True\<rparr>" empty_ctx]
  by simp

text \<open>Beyond 2^53 the floats are \<open>2 ^ j\<close> apart, so an odd integer rounds to the float of a neighbour.\<close>

lemma bit_count_between:
  assumes "2 ^ k \<le> n" "n < 2 ^ Suc k"
  shows "bit_count n = int k + 1"
proof -
  have n: "0 < n" using assms(1) by (meson less_le_trans zero_less_numeral zero_less_power)
  then have "bit_count n \<le> int (Suc k)" using assms(2) by (intro bit_count_le)
  moreover have "\<not> bit_count n \<le> int k"
  proof
    assume "bit_count n \<le> int k"
    then have "(2 :: int) ^ nat (bit_count n) \<le> 2 ^ k" by (intro power_increasing) auto
    with bit_count_bounds [OF n] assms(1) show False by linarith
  qed
  ultimately show ?thesis by simp
qed

lemma round_ratio_large:
  assumes "1 \<le> j" "j \<le> 900" "2 ^ (j + 52) \<le> n" "n < 2 ^ (j + 53)"
  shows "round_ratio s n 1 =
    (if half_even n (2 ^ j) = 2 ^ 53 then F_Fin s (2 ^ 52) (int j + 1) else F_Fin s (half_even n (2 ^ j)) (int j))"
proof -
  have n: "n \<noteq> 0" using assms(3) by (metis not_le zero_less_numeral zero_less_power)
  have b: "bit_count n = int j + 53"
    using bit_count_between [of "j + 52" n] assms(3,4) by (simp add: add.commute)
  have one: "bit_count 1 = 1" by (simp add: bit_count.simps)
  have "(2 :: int) ^ 53 * 2 ^ (j - 1) = 2 ^ (j + 52)"
    using assms(1) by (simp add: power_add [symmetric] del: power_numeral)
  then have "2 ^ 53 * 2 ^ (j - 1) \<le> n" using assms(3) by (simp only:)
  from zdiv_mono1 [OF this, of "2 ^ (j - 1)"] have "2 ^ 53 \<le> n div 2 ^ (j - 1)" by (simp del: power_numeral)
  then have "\<not> n div 2 ^ (j - 1) < 2 ^ 53" by (simp only: not_less)
  moreover have "nat (int j - 1) = j - 1" by simp
  ultimately have e: "round_exp n 1 = int j"
    using assms(1) by (simp add: round_exp_def Let_def one b unit_num_def unit_den_def min_exp_def del: power_numeral)
  have "unit_num n (int j) = n" "unit_den 1 (int j) = 2 ^ j" by (simp_all add: unit_num_def unit_den_def)
  with e n assms(2) show ?thesis by (simp add: round_ratio_def Let_def max_exp_def del: power_numeral)
qed

lemma half_even_neighbour:
  assumes "odd n" "1 \<le> j"
  shows "half_even (n - 1) (2 ^ j) = half_even n (2 ^ j) \<or>
    half_even (n + 1) (2 ^ j) = half_even n (2 ^ j) \<and> (even (n div 2 ^ j) \<or> j = 1)"
proof -
  define d :: int where "d = 2 ^ j"
  define q r where "q = n div d" and "r = n mod d"
  obtain k where k: "j = Suc k" using assms(2) by (cases j) auto
  then have d: "even d" "2 \<le> d" and half: "j \<noteq> 1 \<Longrightarrow> even (d div 2)" by (auto simp: d_def)
  have n: "n = q * d + r" "0 \<le> r" "r < d" using d(2) by (simp_all add: q_def r_def)
  with assms(1) d(1) have r: "odd r" by simp
  then have "1 \<le> r" using n(2) by (cases "r = 0") auto
  have at: "half_even (q * d + x) d = (if 2 * x < d \<or> 2 * x = d \<and> even q then q else q + 1)" if "0 \<le> x" "x < d" for x
    using that by (simp add: half_even_def Let_def)
  have up: "half_even (q * d + d) d = q + 1" using d(2) at [of 0]
    by (simp add: half_even_def Let_def)
  have before: "half_even (n - 1) d = (if 2 * (r - 1) < d \<or> 2 * (r - 1) = d \<and> even q then q else q + 1)"
    using at [of "r - 1"] n \<open>1 \<le> r\<close> by (simp add: algebra_simps)
  have here: "half_even n d = (if 2 * r < d \<or> 2 * r = d \<and> even q then q else q + 1)"
    using at [of r] n by simp
  show ?thesis
  proof (cases "half_even (n - 1) d = half_even n d")
    case False
    with before here d r have half_r: "2 * r = d \<and> odd q \<or> 2 * (r - 1) = d \<and> even q \<or> 2 * (r - 1) < d \<and> d < 2 * r"
      by (auto split: if_splits)
    have "half_even n d = q + 1" using False before here by (auto split: if_splits)
    moreover have "half_even (n + 1) d = q + 1"
    proof (cases "r + 1 < d")
      case True
      then show ?thesis using at [of "r + 1"] n half_r by (auto simp: algebra_simps)
    next
      case False
      then have "n + 1 = q * d + d" using n by linarith
      then show ?thesis using up by simp
    qed
    moreover have "even q \<or> j = 1"
    proof (rule disjCI)
      assume "j \<noteq> 1"
      from half [OF this] r d(1) half_r show "even q" by (auto elim!: evenE)
    qed
    ultimately show ?thesis by (simp add: d_def [symmetric] q_def [symmetric])
  qed (simp add: d_def)
qed

lemma rounds_like_neighbour:
  assumes "odd n" "2 ^ 53 < n" "n < 2 ^ 63"
  shows "\<exists>m. \<bar>m - n\<bar> = 1 \<and> 0 < m \<and> m < 2 ^ 63 \<and> round_ratio s m 1 = round_ratio s n 1"
proof (cases "n = 2 ^ 54 - 1")
  case True
  have "round_ratio s 18014398509481984 1 = round_ratio s 18014398509481983 1" by (cases s) code_simp+
  with True show ?thesis by (intro exI [of _ "n + 1"]) simp
next
  case False
  define j where "j = nat (bit_count n - 53)"
  have b: "0 < bit_count n" "2 ^ nat (bit_count n - 1) \<le> n" "n < 2 ^ nat (bit_count n)"
    using bit_count_bounds [of n] assms(2) by auto
  have "54 \<le> bit_count n"
  proof (rule ccontr)
    assume "\<not> 54 \<le> bit_count n"
    then have "(2 :: int) ^ nat (bit_count n) \<le> 2 ^ 53" by (intro power_increasing) auto
    with b(3) assms(2) show False by linarith
  qed
  moreover have "bit_count n \<le> 63" using bit_count_le [of n 63] assms(2,3) by simp
  ultimately have j: "1 \<le> j" "j \<le> 10" "nat (bit_count n - 1) = j + 52" "nat (bit_count n) = j + 53" by (auto simp: j_def)
  have n: "2 ^ (j + 52) \<le> n" "n < 2 ^ (j + 53)" using b(2,3) j(3,4) by simp_all
  have even_pow: "even ((2 :: int) ^ (j + 52))" "even ((2 :: int) ^ (j + 53))" by simp_all
  have big: "(2 :: int) ^ (j + 53) \<le> 2 ^ 63" using j(2) by (intro power_increasing) auto
  have large: "round_ratio s m 1 = round_ratio s n 1" if "2 ^ (j + 52) \<le> m" "m < 2 ^ (j + 53)" "half_even m (2 ^ j) = half_even n (2 ^ j)" for m
    using round_ratio_large [of j m s] round_ratio_large [of j n s] n that j by simp
  from half_even_neighbour [OF assms(1) j(1)] show ?thesis
  proof (elim disjE conjE)
    assume same: "half_even (n - 1) (2 ^ j) = half_even n (2 ^ j)"
    have "n \<noteq> 2 ^ (j + 52)" using assms(1) even_pow(1) by blast
    with large [of "n - 1"] same n assms show ?thesis by (intro exI [of _ "n - 1"]) auto
  next
    assume same: "half_even (n + 1) (2 ^ j) = half_even n (2 ^ j)" and q: "even (n div 2 ^ j)"
    have "n + 1 \<noteq> 2 ^ (j + 53)"
    proof
      assume "n + 1 = 2 ^ (j + 53)"
      then have "n = (2 ^ 53 - 1) * 2 ^ j + (2 ^ j - 1)" by (simp add: power_add algebra_simps)
      then have "n div 2 ^ j = 2 ^ 53 - 1" by (intro int_div_pos_eq [where r = "2 ^ j - 1"]) (simp_all add: mult.commute)
      with q show False by simp
    qed
    with large [of "n + 1"] same n big assms show ?thesis by (intro exI [of _ "n + 1"]) auto
  next
    assume same: "half_even (n + 1) (2 ^ j) = half_even n (2 ^ j)" and "j = 1"
    with False n have "n + 1 < 2 ^ (j + 53)" by simp
    with large [of "n + 1"] same n big assms show ?thesis by (intro exI [of _ "n + 1"]) auto
  qed
qed

lemma f64_cmp_same: "f64_cmp x x \<noteq> Some Less"
  by (cases x) (auto simp: Let_def)

lemma odd_integer_coincides:
  assumes "odd (sint (a :: i64))" "2 ^ 53 < \<bar>sint a\<bar>"
  shows "\<exists>b :: i64. \<bar>sint b - sint a\<bar> = 1 \<and> f64_of_int (sint b) = f64_of_int (sint a)"
proof -
  have range: "- (2 ^ 63) \<le> sint a" "sint a < 2 ^ 63" using sint_i64_range [of a] by (simp_all add: in_i64_def)
  moreover have "sint a \<noteq> - (2 ^ 63)" using assms(1) by auto
  ultimately have "\<bar>sint a\<bar> < 2 ^ 63" by linarith
  moreover have "odd \<bar>sint a\<bar>" using assms(1) by simp
  ultimately obtain m where m: "\<bar>m - \<bar>sint a\<bar>\<bar> = 1" "0 < m" "m < 2 ^ 63"
      "round_ratio (sint a < 0) m 1 = round_ratio (sint a < 0) \<bar>sint a\<bar> 1"
    using rounds_like_neighbour [OF _ assms(2), of "sint a < 0"] by blast
  define i where "i = (if sint a < 0 then - m else m)"
  have "in_i64 i" using m(2,3) by (simp add: i_def in_i64_def)
  then have "sint (i64_of_int i) = i" by (rule sint_i64_of_int)
  moreover have "\<bar>i - sint a\<bar> = 1" "f64_of_int i = f64_of_int (sint a)"
    using m by (auto simp: i_def f64_of_int_def split: if_splits)
  ultimately show ?thesis by (intro exI [of _ "i64_of_int i"]) simp
qed

text \<open>
  C37: beyond 2^53 the order of integers is lost. Every odd integer of greater magnitude has a neighbour, one more
  or one less, of which no comparison tells the order: in either direction less-than, at-most and equality are
  false, and so greater-than and at-least, their negations, are true. The source compares the integers as
  floats, and the two round to the same one.
\<close>

theorem integer_comparison_rounds:
  assumes "odd (sint a)" "2 ^ 53 < \<bar>sint a\<bar>"
  shows "\<exists>b. \<bar>sint b - sint a\<bar> = 1 \<and>
    (\<forall>op. interpret_expr engine (E_Compare op (E_Int a) (E_Int b)) ctx = Inr (V_Bool (negated op)) \<and>
          interpret_expr engine (E_Compare op (E_Int b) (E_Int a)) ctx = Inr (V_Bool (negated op)))"
proof -
  from odd_integer_coincides [OF assms] obtain b :: i64 where b: "\<bar>sint b - sint a\<bar> = 1" "f64_of_int (sint b) = f64_of_int (sint a)" by blast
  then have "values_less_than (V_Int a) (V_Int b) = Inr False" "values_less_than (V_Int b) (V_Int a) = Inr False"
    by (simp_all add: values_less_than_def f64_lt_def f64_cmp_same)
  moreover have "a \<noteq> b" using b(1) by auto
  ultimately show ?thesis
    using b(1) by (intro exI [of _ b]) (auto simp: interpret_node operator_defs apply_comparison_def Let_def)
qed

text \<open>For example 2^53 + 1 and 2^53, or 2^53 + 2: each is greater than the other.\<close>

theorem integer_comparison_rounds_witness:
  "\<exists>b. \<bar>sint (b :: i64) - 9007199254740993\<bar> = 1 \<and>
     interpret_expr no_engine (E_Compare \<lparr>less_than = True, equal = True, negated = False\<rparr> (E_Int 9007199254740993) (E_Int b)) empty_ctx
       = Inr (V_Bool False) \<and>
     interpret_expr no_engine (E_Compare \<lparr>less_than = True, equal = True, negated = False\<rparr> (E_Int b) (E_Int 9007199254740993)) empty_ctx
       = Inr (V_Bool False)"
proof -
  have a: "sint (9007199254740993 :: i64) = 9007199254740993" by code_simp
  show ?thesis using integer_comparison_rounds [of 9007199254740993 no_engine empty_ctx] unfolding a by fastforce
qed

end
