(* ===== verification/Refusal_Wording.thy ===== *)
theory Refusal_Wording
  imports Refusals
begin

text \<open>
  \<open>rust/src/kernel/vocab/refusal_template.rs\<close>: the closed set of refusal sites, the wording
  each one declares, and the function that fills a wording's markers in. Each \<open>...Args\<close> struct
  with its \<open>render_args\<close> method is one definition here, taking the struct's fields in order.
\<close>

datatype refusal_site =
    NotFoundCreatingNoIdentity
  | AlreadyExistsCreatingDuplicate
  | AlreadyExistsEntityDuplicate
  | NotFoundActingNoIdentity
  | NotFoundRecordMissing
  | NotFoundEntityParentNoIdentity
  | UnknownVerbEntityUnknown
  | NotFoundEntityElementNoIdentity
  | NotFoundEntityElementMissing
  | NotFoundReferenceTargetMissing
  | NotFoundReadModelReferenceMissing
  | TypeMismatchReadModelObjectReference
  | UnknownVerbNoQuery
  | UnknownVerbEntityQueryMissing
  | UnknownVerbEntityHoldsNoList
  | UnknownVerbEntityNoCommand
  | UnknownVerbAggregateNoCommand
  | UnknownVerbPortNoOperation
  | UnknownVerbNoDomain
  | UnknownVerbNoReadModel
  | UnknownVerbNotFullyQualified
  | UnknownVerbNoAggregate
  | LifecycleRefusedTransitionBlocked
  | TypeMismatchValueObjectShape
  | TypeMismatchReferenceWrongShape
  | TypeMismatchMultiFieldScalar
  | TypeMismatchCompositeIdentity
  | TypeMismatchNumericField
  | TypeMismatchNonFiniteField
  | TypeMismatchIntegerRange
  | TypeMismatchPatternMismatch
  | TypeMismatchArithmeticAmount
  | TypeMismatchArithmeticCurrent
  | TypeMismatchArithmeticSharedField
  | UnknownArgumentUnknownArgs
  | AbsentArgumentAbsentArgs
  | InvariantViolationClosedSetMember
  | InvariantViolationValueObjectInvariant
  | InvariantViolationAdmitsDeclaredSet
  | InvariantViolationUndeclaredSet
  | InvariantViolationGroupByCollision
  | UnauthorizedTenantRequired
  | UnauthorizedRoleMismatch
  | UnauthorizedCrossTenantReference
  | AttributeAbsentAbsentRead
  | ProjectionAbsentAbsentRead

definition all_sites :: "refusal_site list" where
  "all_sites =
     [NotFoundCreatingNoIdentity,
      AlreadyExistsCreatingDuplicate,
      AlreadyExistsEntityDuplicate,
      NotFoundActingNoIdentity,
      NotFoundRecordMissing,
      NotFoundEntityParentNoIdentity,
      UnknownVerbEntityUnknown,
      NotFoundEntityElementNoIdentity,
      NotFoundEntityElementMissing,
      NotFoundReferenceTargetMissing,
      NotFoundReadModelReferenceMissing,
      TypeMismatchReadModelObjectReference,
      UnknownVerbNoQuery,
      UnknownVerbEntityQueryMissing,
      UnknownVerbEntityHoldsNoList,
      UnknownVerbEntityNoCommand,
      UnknownVerbAggregateNoCommand,
      UnknownVerbPortNoOperation,
      UnknownVerbNoDomain,
      UnknownVerbNoReadModel,
      UnknownVerbNotFullyQualified,
      UnknownVerbNoAggregate,
      LifecycleRefusedTransitionBlocked,
      TypeMismatchValueObjectShape,
      TypeMismatchReferenceWrongShape,
      TypeMismatchMultiFieldScalar,
      TypeMismatchCompositeIdentity,
      TypeMismatchNumericField,
      TypeMismatchNonFiniteField,
      TypeMismatchIntegerRange,
      TypeMismatchPatternMismatch,
      TypeMismatchArithmeticAmount,
      TypeMismatchArithmeticCurrent,
      TypeMismatchArithmeticSharedField,
      UnknownArgumentUnknownArgs,
      AbsentArgumentAbsentArgs,
      InvariantViolationClosedSetMember,
      InvariantViolationValueObjectInvariant,
      InvariantViolationAdmitsDeclaredSet,
      InvariantViolationUndeclaredSet,
      InvariantViolationGroupByCollision,
      UnauthorizedTenantRequired,
      UnauthorizedRoleMismatch,
      UnauthorizedCrossTenantReference,
      AttributeAbsentAbsentRead,
      ProjectionAbsentAbsentRead]"

text \<open>The refusal class a site raises.\<close>

fun site_class :: "refusal_site \<Rightarrow> string" where
  "site_class NotFoundCreatingNoIdentity = ''NotFound''"
| "site_class AlreadyExistsCreatingDuplicate = ''AlreadyExists''"
| "site_class AlreadyExistsEntityDuplicate = ''AlreadyExists''"
| "site_class NotFoundActingNoIdentity = ''NotFound''"
| "site_class NotFoundRecordMissing = ''NotFound''"
| "site_class NotFoundEntityParentNoIdentity = ''NotFound''"
| "site_class UnknownVerbEntityUnknown = ''UnknownVerb''"
| "site_class NotFoundEntityElementNoIdentity = ''NotFound''"
| "site_class NotFoundEntityElementMissing = ''NotFound''"
| "site_class NotFoundReferenceTargetMissing = ''NotFound''"
| "site_class NotFoundReadModelReferenceMissing = ''NotFound''"
| "site_class TypeMismatchReadModelObjectReference = ''TypeMismatch''"
| "site_class UnknownVerbNoQuery = ''UnknownVerb''"
| "site_class UnknownVerbEntityQueryMissing = ''UnknownVerb''"
| "site_class UnknownVerbEntityHoldsNoList = ''UnknownVerb''"
| "site_class UnknownVerbEntityNoCommand = ''UnknownVerb''"
| "site_class UnknownVerbAggregateNoCommand = ''UnknownVerb''"
| "site_class UnknownVerbPortNoOperation = ''UnknownVerb''"
| "site_class UnknownVerbNoDomain = ''UnknownVerb''"
| "site_class UnknownVerbNoReadModel = ''UnknownVerb''"
| "site_class UnknownVerbNotFullyQualified = ''UnknownVerb''"
| "site_class UnknownVerbNoAggregate = ''UnknownVerb''"
| "site_class LifecycleRefusedTransitionBlocked = ''LifecycleRefused''"
| "site_class TypeMismatchValueObjectShape = ''TypeMismatch''"
| "site_class TypeMismatchReferenceWrongShape = ''TypeMismatch''"
| "site_class TypeMismatchMultiFieldScalar = ''TypeMismatch''"
| "site_class TypeMismatchCompositeIdentity = ''TypeMismatch''"
| "site_class TypeMismatchNumericField = ''TypeMismatch''"
| "site_class TypeMismatchNonFiniteField = ''TypeMismatch''"
| "site_class TypeMismatchIntegerRange = ''TypeMismatch''"
| "site_class TypeMismatchPatternMismatch = ''TypeMismatch''"
| "site_class TypeMismatchArithmeticAmount = ''TypeMismatch''"
| "site_class TypeMismatchArithmeticCurrent = ''TypeMismatch''"
| "site_class TypeMismatchArithmeticSharedField = ''TypeMismatch''"
| "site_class UnknownArgumentUnknownArgs = ''UnknownArgument''"
| "site_class AbsentArgumentAbsentArgs = ''AbsentArgument''"
| "site_class InvariantViolationClosedSetMember = ''InvariantViolation''"
| "site_class InvariantViolationValueObjectInvariant = ''InvariantViolation''"
| "site_class InvariantViolationAdmitsDeclaredSet = ''InvariantViolation''"
| "site_class InvariantViolationUndeclaredSet = ''InvariantViolation''"
| "site_class InvariantViolationGroupByCollision = ''InvariantViolation''"
| "site_class UnauthorizedTenantRequired = ''Unauthorized''"
| "site_class UnauthorizedRoleMismatch = ''Unauthorized''"
| "site_class UnauthorizedCrossTenantReference = ''Unauthorized''"
| "site_class AttributeAbsentAbsentRead = ''AttributeAbsent''"
| "site_class ProjectionAbsentAbsentRead = ''ProjectionAbsent''"

text \<open>The row's declared \<open>site\<close>.\<close>

fun site_name :: "refusal_site \<Rightarrow> string" where
  "site_name NotFoundCreatingNoIdentity = ''creating_no_identity''"
| "site_name AlreadyExistsCreatingDuplicate = ''creating_duplicate''"
| "site_name AlreadyExistsEntityDuplicate = ''entity_duplicate''"
| "site_name NotFoundActingNoIdentity = ''acting_no_identity''"
| "site_name NotFoundRecordMissing = ''record_missing''"
| "site_name NotFoundEntityParentNoIdentity = ''entity_parent_no_identity''"
| "site_name UnknownVerbEntityUnknown = ''entity_unknown''"
| "site_name NotFoundEntityElementNoIdentity = ''entity_element_no_identity''"
| "site_name NotFoundEntityElementMissing = ''entity_element_missing''"
| "site_name NotFoundReferenceTargetMissing = ''reference_target_missing''"
| "site_name NotFoundReadModelReferenceMissing = ''read_model_reference_missing''"
| "site_name TypeMismatchReadModelObjectReference = ''read_model_object_reference''"
| "site_name UnknownVerbNoQuery = ''no_query''"
| "site_name UnknownVerbEntityQueryMissing = ''entity_query_missing''"
| "site_name UnknownVerbEntityHoldsNoList = ''entity_holds_no_list''"
| "site_name UnknownVerbEntityNoCommand = ''entity_no_command''"
| "site_name UnknownVerbAggregateNoCommand = ''aggregate_no_command''"
| "site_name UnknownVerbPortNoOperation = ''port_no_operation''"
| "site_name UnknownVerbNoDomain = ''no_domain''"
| "site_name UnknownVerbNoReadModel = ''no_read_model''"
| "site_name UnknownVerbNotFullyQualified = ''not_fully_qualified''"
| "site_name UnknownVerbNoAggregate = ''no_aggregate''"
| "site_name LifecycleRefusedTransitionBlocked = ''transition_blocked''"
| "site_name TypeMismatchValueObjectShape = ''value_object_shape''"
| "site_name TypeMismatchReferenceWrongShape = ''reference_wrong_shape''"
| "site_name TypeMismatchMultiFieldScalar = ''multi_field_scalar''"
| "site_name TypeMismatchCompositeIdentity = ''composite_identity''"
| "site_name TypeMismatchNumericField = ''numeric_field''"
| "site_name TypeMismatchNonFiniteField = ''non_finite_field''"
| "site_name TypeMismatchIntegerRange = ''integer_range''"
| "site_name TypeMismatchPatternMismatch = ''pattern_mismatch''"
| "site_name TypeMismatchArithmeticAmount = ''arithmetic_amount''"
| "site_name TypeMismatchArithmeticCurrent = ''arithmetic_current''"
| "site_name TypeMismatchArithmeticSharedField = ''arithmetic_shared_field''"
| "site_name UnknownArgumentUnknownArgs = ''unknown_args''"
| "site_name AbsentArgumentAbsentArgs = ''absent_args''"
| "site_name InvariantViolationClosedSetMember = ''closed_set_member''"
| "site_name InvariantViolationValueObjectInvariant = ''value_object_invariant''"
| "site_name InvariantViolationAdmitsDeclaredSet = ''admits_declared_set''"
| "site_name InvariantViolationUndeclaredSet = ''undeclared_set''"
| "site_name InvariantViolationGroupByCollision = ''group_by_collision''"
| "site_name UnauthorizedTenantRequired = ''tenant_required''"
| "site_name UnauthorizedRoleMismatch = ''role_mismatch''"
| "site_name UnauthorizedCrossTenantReference = ''cross_tenant_reference''"
| "site_name AttributeAbsentAbsentRead = ''absent_read''"
| "site_name ProjectionAbsentAbsentRead = ''absent_read''"

text \<open>The row's declared wording.\<close>

fun template :: "refusal_site \<Rightarrow> string" where
  "template NotFoundCreatingNoIdentity = ''{command} creates a {aggregate} '' @ em_dash @ '' pass {identity}:''"
| "template AlreadyExistsCreatingDuplicate = ''{command} creates a {aggregate} that already exists '' @ em_dash @ '' {identity} {offered}''"
| "template AlreadyExistsEntityDuplicate = ''a {entity} already exists on {aggregate} '' @ em_dash @ '' {identity} {offered}''"
| "template NotFoundActingNoIdentity = ''{command} acts on an existing {aggregate} '' @ em_dash @ '' pass {identity}:''"
| "template NotFoundRecordMissing = ''no {aggregate} with {identity} {offered}''"
| "template NotFoundEntityParentNoIdentity = ''{command} acts on a {aggregate}'' @ [CHR 0x27] @ ''s {entity} '' @ em_dash @ '' pass {identity}:''"
| "template UnknownVerbEntityUnknown = ''{aggregate} has no entity {entity}''"
| "template NotFoundEntityElementNoIdentity = ''{command} acts on one {entity} '' @ em_dash @ '' pass {identity}:''"
| "template NotFoundEntityElementMissing = ''no {entity} with {identity} {wants} on {aggregate} {parent_id}''"
| "template NotFoundReferenceTargetMissing = ''no {target} with {heads} {key}''"
| "template NotFoundReadModelReferenceMissing = ''no {aggregate} with reference {offered}''"
| "template TypeMismatchReadModelObjectReference = ''{query} refused '' @ em_dash @ '' a reference is an id, and {field} arrived as an object''"
| "template UnknownVerbNoQuery = ''{aggregate} has no query {query}''"
| "template UnknownVerbEntityQueryMissing = ''{entity} has no query {query}''"
| "template UnknownVerbEntityHoldsNoList = ''{aggregate} holds no list of {entity}''"
| "template UnknownVerbEntityNoCommand = ''{entity} has no command {command}''"
| "template UnknownVerbAggregateNoCommand = ''{aggregate} has no command {command}''"
| "template UnknownVerbPortNoOperation = ''{port} has no operation {operation}''"
| "template UnknownVerbNoDomain = ''no domain {domain} loaded (verb {verb})''"
| "template UnknownVerbNoReadModel = ''{domain} has no read model {query}''"
| "template UnknownVerbNotFullyQualified = ''{verb} is not a fully-qualified verb (Domain::Aggregate.Command)''"
| "template UnknownVerbNoAggregate = ''{domain} has no aggregate {aggregate}''"
| "template LifecycleRefusedTransitionBlocked = ''{command} refused '' @ em_dash @ '' {field} is {current}, and {command} moves it only from {allowed}''"
| "template TypeMismatchValueObjectShape = ''{name} is a {type} '' @ em_dash @ '' pass its fields as an object, not {offered}''"
| "template TypeMismatchReferenceWrongShape = ''{command} refused '' @ em_dash @ '' a reference is an id, and {attribute} arrived as {offered}{known_by}''"
| "template TypeMismatchMultiFieldScalar = ''{type} has multiple fields and cannot stand in for a scalar''"
| "template TypeMismatchCompositeIdentity = ''{type} is a composite identity '' @ em_dash @ '' an identity must have exactly one field''"
| "template TypeMismatchNumericField = ''{type}.{field} expects {expected}, got {offered}''"
| "template TypeMismatchNonFiniteField = ''{type}.{field} must be a finite number, got {offered}''"
| "template TypeMismatchIntegerRange = ''{type}.{field} must fit in a 64-bit integer, got {offered}''"
| "template TypeMismatchPatternMismatch = ''{type}.{field} must match {pattern}, got {offered}''"
| "template TypeMismatchArithmeticAmount = ''{op} of {target} needs an Integer, got {offered}''"
| "template TypeMismatchArithmeticCurrent = ''{op} of {target} needs an Integer {target}, got {offered}''"
| "template TypeMismatchArithmeticSharedField = ''{op} of {target} needs a value object with one shared Integer field''"
| "template UnknownArgumentUnknownArgs = ''{command} does not declare {unknown} '' @ em_dash @ '' it takes {declared}''"
| "template AbsentArgumentAbsentArgs = ''{command} was not given {absent} '' @ em_dash @ '' it takes {declared}''"
| "template InvariantViolationClosedSetMember = ''{type} admits {admitted} '' @ em_dash @ '' got {offered}''"
| "template InvariantViolationValueObjectInvariant = ''{name} invariant violated '' @ em_dash @ '' {description} (given {offered})''"
| "template InvariantViolationAdmitsDeclaredSet = ''{name} admits {admits} '' @ em_dash @ '' {admitted} '' @ em_dash @ '' got {offered}''"
| "template InvariantViolationUndeclaredSet = ''{name} admits {admits}, which this bluebook does not declare '' @ em_dash @ '' a closed set is named Aggregate::SetName, and it must be one the bluebook actually holds''"
| "template InvariantViolationGroupByCollision = ''{read_model} groups by {fields}, but rows {ids} share {key} '' @ em_dash @ '' a group_by leaf holds one row; add a field that tells them apart''"
| "template UnauthorizedTenantRequired = ''{query} declares authorize with tenant: {field} '' @ em_dash @ '' pass {field}: to name which {field} this ask is scoped to''"
| "template UnauthorizedRoleMismatch = ''{command} refused '' @ em_dash @ '' role: {role}, and the caller stated {caller_role}''"
| "template UnauthorizedCrossTenantReference = ''{aggregate} {field} is {tenant}, but {attribute} names a {target} whose own {target_field} is {other} '' @ em_dash @ '' a cross-tenant reference''"
| "template AttributeAbsentAbsentRead = ''{aggregate} {field} is absent on this record '' @ em_dash @ '' declared, not optional, and added since it was written. Backfill it in a translation (backfill :{field}, default: ...), or declare it optional: true''"
| "template ProjectionAbsentAbsentRead = ''{aggregate} {field} is not yet projected on this record '' @ em_dash @ '' declared via projects :{field}, but no rebuild sweep has populated it. Run the sweep, or read {reference}.{remote_field} directly if this rule cannot wait''"

definition site_from_name :: "string \<Rightarrow> refusal_site option" where
  "site_from_name name = find (\<lambda>row. site_name row = name) all_sites"

text \<open>\<open>{key}\<close>, the marker a value replaces.\<close>

definition marker :: "string \<Rightarrow> string" where
  "marker key = CHR 0x7B # key @ [CHR 0x7D]"

fun substitute :: "string \<Rightarrow> (string \<times> string) list \<Rightarrow> string" where
  "substitute text [] = text"
| "substitute text ((key, value) # values) = substitute (replace_str (marker key) value text) values"

definition render :: "refusal_site \<Rightarrow> (string \<times> string) list \<Rightarrow> string" where
  "render site values = substitute (template site) values"

definition quoted :: "string \<Rightarrow> string" where
  "quoted text = debug_str text"

definition list_text :: "string list \<Rightarrow> bool \<Rightarrow> bool \<Rightarrow> string \<Rightarrow> string \<Rightarrow> string" where
  "list_text items in_order inspect separator when_empty =
     (let items' = (if in_order then sort items else items)
      in if items' = [] then when_empty
         else str_join separator (map (\<lambda>item. if inspect then quoted item else item) items'))"

section \<open>One rendering per site\<close>

definition NotFoundCreatingNoIdentityArgs_render :: "string \<Rightarrow> string \<Rightarrow> string \<Rightarrow> string" where
  "NotFoundCreatingNoIdentityArgs_render command aggregate identity =
     render NotFoundCreatingNoIdentity
       [(''command'', command),
        (''aggregate'', aggregate),
        (''identity'', identity)]"

definition AlreadyExistsCreatingDuplicateArgs_render :: "string \<Rightarrow> string \<Rightarrow> string \<Rightarrow> string \<Rightarrow> string" where
  "AlreadyExistsCreatingDuplicateArgs_render command aggregate identity offered =
     render AlreadyExistsCreatingDuplicate
       [(''command'', command),
        (''aggregate'', aggregate),
        (''identity'', identity),
        (''offered'', offered)]"

definition AlreadyExistsEntityDuplicateArgs_render :: "string \<Rightarrow> string \<Rightarrow> string \<Rightarrow> string list \<Rightarrow> string" where
  "AlreadyExistsEntityDuplicateArgs_render entity aggregate identity offered =
     render AlreadyExistsEntityDuplicate
       [(''entity'', entity),
        (''aggregate'', aggregate),
        (''identity'', identity),
        (''offered'', list_text offered False False '', '' [])]"

definition NotFoundActingNoIdentityArgs_render :: "string \<Rightarrow> string \<Rightarrow> string \<Rightarrow> string" where
  "NotFoundActingNoIdentityArgs_render command aggregate identity =
     render NotFoundActingNoIdentity
       [(''command'', command),
        (''aggregate'', aggregate),
        (''identity'', identity)]"

definition NotFoundRecordMissingArgs_render :: "string \<Rightarrow> string \<Rightarrow> string \<Rightarrow> string" where
  "NotFoundRecordMissingArgs_render aggregate identity offered =
     render NotFoundRecordMissing
       [(''aggregate'', aggregate),
        (''identity'', identity),
        (''offered'', offered)]"

definition NotFoundEntityParentNoIdentityArgs_render :: "string \<Rightarrow> string \<Rightarrow> string \<Rightarrow> string \<Rightarrow> string" where
  "NotFoundEntityParentNoIdentityArgs_render command aggregate entity identity =
     render NotFoundEntityParentNoIdentity
       [(''command'', command),
        (''aggregate'', aggregate),
        (''entity'', entity),
        (''identity'', identity)]"

definition UnknownVerbEntityUnknownArgs_render :: "string \<Rightarrow> string \<Rightarrow> string" where
  "UnknownVerbEntityUnknownArgs_render aggregate entity =
     render UnknownVerbEntityUnknown
       [(''aggregate'', aggregate),
        (''entity'', quoted entity)]"

definition NotFoundEntityElementNoIdentityArgs_render :: "string \<Rightarrow> string \<Rightarrow> string \<Rightarrow> string" where
  "NotFoundEntityElementNoIdentityArgs_render command entity identity =
     render NotFoundEntityElementNoIdentity
       [(''command'', command),
        (''entity'', entity),
        (''identity'', identity)]"

definition NotFoundEntityElementMissingArgs_render :: "string \<Rightarrow> string \<Rightarrow> string \<Rightarrow> string \<Rightarrow> string \<Rightarrow> string" where
  "NotFoundEntityElementMissingArgs_render entity identity wants aggregate parent_id =
     render NotFoundEntityElementMissing
       [(''entity'', entity),
        (''identity'', identity),
        (''wants'', wants),
        (''aggregate'', aggregate),
        (''parent_id'', parent_id)]"

definition NotFoundReferenceTargetMissingArgs_render :: "string \<Rightarrow> string \<Rightarrow> string \<Rightarrow> string" where
  "NotFoundReferenceTargetMissingArgs_render target heads key =
     render NotFoundReferenceTargetMissing
       [(''target'', target),
        (''heads'', heads),
        (''key'', quoted key)]"

definition NotFoundReadModelReferenceMissingArgs_render :: "string \<Rightarrow> string \<Rightarrow> string" where
  "NotFoundReadModelReferenceMissingArgs_render aggregate offered =
     render NotFoundReadModelReferenceMissing
       [(''aggregate'', aggregate),
        (''offered'', offered)]"

definition TypeMismatchReadModelObjectReferenceArgs_render :: "string \<Rightarrow> string \<Rightarrow> string" where
  "TypeMismatchReadModelObjectReferenceArgs_render query field =
     render TypeMismatchReadModelObjectReference
       [(''query'', query),
        (''field'', field)]"

definition UnknownVerbNoQueryArgs_render :: "string \<Rightarrow> string \<Rightarrow> string" where
  "UnknownVerbNoQueryArgs_render aggregate query =
     render UnknownVerbNoQuery
       [(''aggregate'', aggregate),
        (''query'', quoted query)]"

definition UnknownVerbEntityQueryMissingArgs_render :: "string \<Rightarrow> string \<Rightarrow> string" where
  "UnknownVerbEntityQueryMissingArgs_render entity query =
     render UnknownVerbEntityQueryMissing
       [(''entity'', entity),
        (''query'', quoted query)]"

definition UnknownVerbEntityHoldsNoListArgs_render :: "string \<Rightarrow> string \<Rightarrow> string" where
  "UnknownVerbEntityHoldsNoListArgs_render aggregate entity =
     render UnknownVerbEntityHoldsNoList
       [(''aggregate'', aggregate),
        (''entity'', entity)]"

definition UnknownVerbEntityNoCommandArgs_render :: "string \<Rightarrow> string \<Rightarrow> string" where
  "UnknownVerbEntityNoCommandArgs_render entity command =
     render UnknownVerbEntityNoCommand
       [(''entity'', entity),
        (''command'', quoted command)]"

definition UnknownVerbAggregateNoCommandArgs_render :: "string \<Rightarrow> string \<Rightarrow> string" where
  "UnknownVerbAggregateNoCommandArgs_render aggregate command =
     render UnknownVerbAggregateNoCommand
       [(''aggregate'', aggregate),
        (''command'', quoted command)]"

definition UnknownVerbPortNoOperationArgs_render :: "string \<Rightarrow> string \<Rightarrow> string" where
  "UnknownVerbPortNoOperationArgs_render port operation =
     render UnknownVerbPortNoOperation
       [(''port'', port),
        (''operation'', quoted operation)]"

definition UnknownVerbNoDomainArgs_render :: "string \<Rightarrow> string \<Rightarrow> string" where
  "UnknownVerbNoDomainArgs_render domain verb =
     render UnknownVerbNoDomain
       [(''domain'', quoted domain),
        (''verb'', verb)]"

definition UnknownVerbNoReadModelArgs_render :: "string \<Rightarrow> string \<Rightarrow> string" where
  "UnknownVerbNoReadModelArgs_render domain query =
     render UnknownVerbNoReadModel
       [(''domain'', domain),
        (''query'', quoted query)]"

definition UnknownVerbNotFullyQualifiedArgs_render :: "string \<Rightarrow> string" where
  "UnknownVerbNotFullyQualifiedArgs_render verb =
     render UnknownVerbNotFullyQualified
       [(''verb'', quoted verb)]"

definition UnknownVerbNoAggregateArgs_render :: "string \<Rightarrow> string \<Rightarrow> string" where
  "UnknownVerbNoAggregateArgs_render domain aggregate =
     render UnknownVerbNoAggregate
       [(''domain'', domain),
        (''aggregate'', quoted aggregate)]"

definition LifecycleRefusedTransitionBlockedArgs_render :: "string \<Rightarrow> string \<Rightarrow> string \<Rightarrow> string list \<Rightarrow> string" where
  "LifecycleRefusedTransitionBlockedArgs_render command field current allowed =
     render LifecycleRefusedTransitionBlocked
       [(''command'', command),
        (''field'', field),
        (''current'', current),
        (''allowed'', list_text allowed False True '' or '' [])]"

definition TypeMismatchValueObjectShapeArgs_render :: "string \<Rightarrow> string \<Rightarrow> string \<Rightarrow> string" where
  "TypeMismatchValueObjectShapeArgs_render name type_name offered =
     render TypeMismatchValueObjectShape
       [(''name'', name),
        (''type'', type_name),
        (''offered'', offered)]"

definition TypeMismatchReferenceWrongShapeArgs_render :: "string \<Rightarrow> string \<Rightarrow> string \<Rightarrow> string \<Rightarrow> string" where
  "TypeMismatchReferenceWrongShapeArgs_render command attribute offered known_by =
     render TypeMismatchReferenceWrongShape
       [(''command'', command),
        (''attribute'', attribute),
        (''offered'', offered),
        (''known_by'', known_by)]"

definition TypeMismatchMultiFieldScalarArgs_render :: "string \<Rightarrow> string" where
  "TypeMismatchMultiFieldScalarArgs_render type_name =
     render TypeMismatchMultiFieldScalar
       [(''type'', type_name)]"

definition TypeMismatchCompositeIdentityArgs_render :: "string \<Rightarrow> string" where
  "TypeMismatchCompositeIdentityArgs_render type_name =
     render TypeMismatchCompositeIdentity
       [(''type'', type_name)]"

definition TypeMismatchNumericFieldArgs_render :: "string \<Rightarrow> string \<Rightarrow> string \<Rightarrow> string \<Rightarrow> string" where
  "TypeMismatchNumericFieldArgs_render type_name field expected offered =
     render TypeMismatchNumericField
       [(''type'', type_name),
        (''field'', field),
        (''expected'', expected),
        (''offered'', offered)]"

definition TypeMismatchNonFiniteFieldArgs_render :: "string \<Rightarrow> string \<Rightarrow> string \<Rightarrow> string" where
  "TypeMismatchNonFiniteFieldArgs_render type_name field offered =
     render TypeMismatchNonFiniteField
       [(''type'', type_name),
        (''field'', field),
        (''offered'', offered)]"

definition TypeMismatchIntegerRangeArgs_render :: "string \<Rightarrow> string \<Rightarrow> string \<Rightarrow> string" where
  "TypeMismatchIntegerRangeArgs_render type_name field offered =
     render TypeMismatchIntegerRange
       [(''type'', type_name),
        (''field'', field),
        (''offered'', offered)]"

definition TypeMismatchPatternMismatchArgs_render :: "string \<Rightarrow> string \<Rightarrow> string \<Rightarrow> string \<Rightarrow> string" where
  "TypeMismatchPatternMismatchArgs_render type_name field pattern offered =
     render TypeMismatchPatternMismatch
       [(''type'', type_name),
        (''field'', field),
        (''pattern'', pattern),
        (''offered'', offered)]"

definition TypeMismatchArithmeticAmountArgs_render :: "string \<Rightarrow> string \<Rightarrow> string \<Rightarrow> string" where
  "TypeMismatchArithmeticAmountArgs_render op' target offered =
     render TypeMismatchArithmeticAmount
       [(''op'', op'),
        (''target'', target),
        (''offered'', offered)]"

definition TypeMismatchArithmeticCurrentArgs_render :: "string \<Rightarrow> string \<Rightarrow> string \<Rightarrow> string" where
  "TypeMismatchArithmeticCurrentArgs_render op' target offered =
     render TypeMismatchArithmeticCurrent
       [(''op'', op'),
        (''target'', target),
        (''offered'', offered)]"

definition TypeMismatchArithmeticSharedFieldArgs_render :: "string \<Rightarrow> string \<Rightarrow> string" where
  "TypeMismatchArithmeticSharedFieldArgs_render op' target =
     render TypeMismatchArithmeticSharedField
       [(''op'', op'),
        (''target'', target)]"

definition UnknownArgumentUnknownArgsArgs_render :: "string \<Rightarrow> string list \<Rightarrow> string list \<Rightarrow> string" where
  "UnknownArgumentUnknownArgsArgs_render command unknown declared =
     render UnknownArgumentUnknownArgs
       [(''command'', command),
        (''unknown'', list_text unknown True False '', '' []),
        (''declared'', list_text declared False False '', '' ''none'')]"

definition AbsentArgumentAbsentArgsArgs_render :: "string \<Rightarrow> string list \<Rightarrow> string list \<Rightarrow> string" where
  "AbsentArgumentAbsentArgsArgs_render command absent declared =
     render AbsentArgumentAbsentArgs
       [(''command'', command),
        (''absent'', list_text absent True False '', '' []),
        (''declared'', list_text declared False False '', '' ''none'')]"

definition InvariantViolationClosedSetMemberArgs_render :: "string \<Rightarrow> string list \<Rightarrow> string \<Rightarrow> string" where
  "InvariantViolationClosedSetMemberArgs_render type_name admitted offered =
     render InvariantViolationClosedSetMember
       [(''type'', type_name),
        (''admitted'', list_text admitted False True '', '' []),
        (''offered'', offered)]"

definition InvariantViolationValueObjectInvariantArgs_render :: "string \<Rightarrow> string \<Rightarrow> string \<Rightarrow> string" where
  "InvariantViolationValueObjectInvariantArgs_render name description offered =
     render InvariantViolationValueObjectInvariant
       [(''name'', name),
        (''description'', description),
        (''offered'', offered)]"

definition InvariantViolationAdmitsDeclaredSetArgs_render :: "string \<Rightarrow> string \<Rightarrow> string list \<Rightarrow> string \<Rightarrow> string" where
  "InvariantViolationAdmitsDeclaredSetArgs_render name admits admitted offered =
     render InvariantViolationAdmitsDeclaredSet
       [(''name'', name),
        (''admits'', admits),
        (''admitted'', list_text admitted False True '', '' []),
        (''offered'', offered)]"

definition InvariantViolationUndeclaredSetArgs_render :: "string \<Rightarrow> string \<Rightarrow> string" where
  "InvariantViolationUndeclaredSetArgs_render name admits =
     render InvariantViolationUndeclaredSet
       [(''name'', name),
        (''admits'', admits)]"

definition InvariantViolationGroupByCollisionArgs_render :: "string \<Rightarrow> string list \<Rightarrow> string list \<Rightarrow> string \<Rightarrow> string" where
  "InvariantViolationGroupByCollisionArgs_render read_model fields ids key =
     render InvariantViolationGroupByCollision
       [(''read_model'', read_model),
        (''fields'', list_text fields False False '', '' []),
        (''ids'', list_text ids True True '', '' []),
        (''key'', key)]"

definition UnauthorizedTenantRequiredArgs_render :: "string \<Rightarrow> string \<Rightarrow> string" where
  "UnauthorizedTenantRequiredArgs_render query field =
     render UnauthorizedTenantRequired
       [(''query'', query),
        (''field'', field)]"

definition UnauthorizedRoleMismatchArgs_render :: "string \<Rightarrow> string \<Rightarrow> string \<Rightarrow> string" where
  "UnauthorizedRoleMismatchArgs_render command role caller_role =
     render UnauthorizedRoleMismatch
       [(''command'', command),
        (''role'', role),
        (''caller_role'', caller_role)]"

definition UnauthorizedCrossTenantReferenceArgs_render :: "string \<Rightarrow> string \<Rightarrow> string \<Rightarrow> string \<Rightarrow> string \<Rightarrow> string \<Rightarrow> string \<Rightarrow> string" where
  "UnauthorizedCrossTenantReferenceArgs_render aggregate field tenant attribute target target_field other =
     render UnauthorizedCrossTenantReference
       [(''aggregate'', aggregate),
        (''field'', field),
        (''tenant'', tenant),
        (''attribute'', attribute),
        (''target'', target),
        (''target_field'', target_field),
        (''other'', other)]"

definition AttributeAbsentAbsentReadArgs_render :: "string \<Rightarrow> string \<Rightarrow> string" where
  "AttributeAbsentAbsentReadArgs_render aggregate field =
     render AttributeAbsentAbsentRead
       [(''aggregate'', aggregate),
        (''field'', field)]"

definition ProjectionAbsentAbsentReadArgs_render :: "string \<Rightarrow> string \<Rightarrow> string \<Rightarrow> string \<Rightarrow> string" where
  "ProjectionAbsentAbsentReadArgs_render aggregate field reference remote_field =
     render ProjectionAbsentAbsentRead
       [(''aggregate'', aggregate),
        (''field'', field),
        (''reference'', reference),
        (''remote_field'', remote_field)]"

end
