(* ===== verification/Json.thy ===== *)
theory Json
  imports Expressions Refusal_Wording
begin

text \<open>
  \<open>rust/src/kernel/json.rs\<close>: the JSON value of the WASM/CLI boundary, its readings and shape
  checks, the writer and the recursive-descent parser with its nesting bound.
\<close>

datatype json =
    J_Object "(string \<times> json) list"
  | J_Array "json list"
  | J_Str string
  | J_Num f64 "string option"
  | J_Float f64
  | J_Bool bool
  | J_Null

lemma size_json_entry [termination_simp]:
  "(key, x) \<in> set a \<Longrightarrow> size x < Suc (size_list (\<lambda>e. Suc (size (snd e))) a)"
  for x :: json
  by (induction a) auto

lemma size_json_found [termination_simp]:
  "map_of a key = Some x \<Longrightarrow> size x < Suc (size_list (\<lambda>e. Suc (size (snd e))) a)"
  for x :: json
  by (drule map_of_SomeD) (rule size_json_entry)

lemma size_json_zip [termination_simp]:
  "((k, x), y) \<in> set (zip a b) \<Longrightarrow> size x < Suc (size_list (\<lambda>e. Suc (size (snd e))) a)"
  for x :: json
  by (drule set_zip_leftD) (rule size_json_entry)

lemma size_json_zip_list [termination_simp]:
  "(x, y) \<in> set (zip a b) \<Longrightarrow> size x < Suc (size_list size a)"
  for x :: json
  by (auto dest!: set_zip_leftD intro: size_list_estimation' le_imp_less_Suc)

section \<open>Equality\<close>

text \<open>\<open>PartialEq for Json\<close>: the source text of a number is compared only when both sides have one.\<close>

fun json_eq :: "json \<Rightarrow> json \<Rightarrow> bool" where
  "json_eq (J_Object a) (J_Object b) \<longleftrightarrow>
     length a = length b \<and> list_all (\<lambda>((k, x), (l, y)). k = l \<and> json_eq x y) (zip a b)"
| "json_eq (J_Array a) (J_Array b) \<longleftrightarrow>
     length a = length b \<and> list_all (\<lambda>(x, y). json_eq x y) (zip a b)"
| "json_eq (J_Str a) (J_Str b) \<longleftrightarrow> a = b"
| "json_eq (J_Num a araw) (J_Num b braw) \<longleftrightarrow>
     (case (araw, braw) of (Some r, Some s) \<Rightarrow> r = s | _ \<Rightarrow> f64_eq a b)"
| "json_eq (J_Float a) (J_Float b) \<longleftrightarrow> f64_eq a b"
| "json_eq (J_Bool a) (J_Bool b) \<longleftrightarrow> a = b"
| "json_eq J_Null J_Null \<longleftrightarrow> True"
| "json_eq _ _ \<longleftrightarrow> False"

section \<open>Numbers\<close>

definition integral_i64 :: "f64 \<Rightarrow> i64 option" where
  "integral_i64 n =
     (if fract_zero n \<and> f64_le (f64_of_int (- 9223372036854775808)) n \<and>
         f64_lt n (f64_of_int 9223372036854775807)
      then Some (f64_to_i64 n) else None)"

definition exact_i64 :: "f64 \<Rightarrow> string option \<Rightarrow> i64 option" where
  "exact_i64 n raw =
     (case Option.bind raw parse_i64 of
        Some i \<Rightarrow> Some i
      | None \<Rightarrow> integral_i64 n)"

definition canonical_integer_digits :: "f64 \<Rightarrow> string" where
  "canonical_integer_digits n =
     (if fract_zero n \<and> f64_lt (f64_abs n) (f64_of_int 1000000000000000)
      then show_i64 (f64_to_i64 n) else f64_display n)"

section \<open>As a lookup surface\<close>

fun json_scalar_value :: "json \<Rightarrow> value" where
  "json_scalar_value (J_Array items) = V_List (length items)"
| "json_scalar_value (J_Str s) = V_Str s"
| "json_scalar_value (J_Num n raw) =
     (case exact_i64 n raw of None \<Rightarrow> V_Float n | Some i \<Rightarrow> V_Int i)"
| "json_scalar_value (J_Float n) = V_Float n"
| "json_scalar_value (J_Bool b) = V_Bool b"
| "json_scalar_value J_Null = V_Nil"
| "json_scalar_value (J_Object _) = V_Nil"

lemma size_json_in_array: "x \<in> set items \<Longrightarrow> size x < size (J_Array items)" for x :: json
  by (auto intro: size_list_estimation' le_imp_less_Suc)

text \<open>
  \<open>Fielded for Json\<close>. An object nests; every other value is a scalar. \<open>as_scalar\<close> answers an
  object of exactly one key whose value is a scalar.
\<close>

function json_fielded :: "json \<Rightarrow> fielded" and json_field :: "json \<Rightarrow> field" where
  "json_fielded (J_Object pairs) =
     Fielded (\<lambda>name. case map_of pairs name of None \<Rightarrow> None | Some found \<Rightarrow> Some (json_field found))
       (case pairs of
          [(k, J_Object _)] \<Rightarrow> None
        | [(k, v)] \<Rightarrow> Some (json_scalar_value v)
        | _ \<Rightarrow> None)
       None
       (\<lambda>name. case map_of pairs name of
          None \<Rightarrow> None
        | Some found \<Rightarrow> (case found of J_Array items \<Rightarrow> Some (map json_field items) | _ \<Rightarrow> None))"
| "json_fielded (J_Array items) = no_fields"
| "json_fielded (J_Str s) = no_fields"
| "json_fielded (J_Num n raw) = no_fields"
| "json_fielded (J_Float n) = no_fields"
| "json_fielded (J_Bool b) = no_fields"
| "json_fielded J_Null = no_fields"
| "json_field j = (case j of J_Object _ \<Rightarrow> FD_Nested (json_fielded j) | _ \<Rightarrow> FD_Value (json_scalar_value j))"
  by pat_completeness auto

termination
proof (relation "measure (\<lambda>x. case x of Inl j \<Rightarrow> 2 * size j | Inr j \<Rightarrow> 2 * size j + 1)", goal_cases)
  case (3 pairs name found items x)
  have "size x < size found"
    using size_json_in_array 3 by simp
  moreover have "size found < size (J_Object pairs)"
    using size_json_found [of pairs name found] 3 by (simp add: size_prod_simp [abs_def])
  ultimately show ?case by simp
qed (auto dest: size_json_found simp: size_prod_simp [abs_def])

section \<open>Construction and readings\<close>

definition json_int :: "i64 \<Rightarrow> json" where
  "json_int i = J_Num (f64_of_int (sint i)) (Some (show_i64 i))"

fun json_get :: "json \<Rightarrow> string \<Rightarrow> json option" where
  "json_get (J_Object flds) key = map_of flds key"
| "json_get _ key = None"

fun dig_segments :: "json \<Rightarrow> string list \<Rightarrow> json option" where
  "dig_segments current [] = Some current"
| "dig_segments current (seg # segs) =
     (case current of
        J_Object _ \<Rightarrow>
          (case json_get current seg of None \<Rightarrow> None | Some next \<Rightarrow> dig_segments next segs)
      | _ \<Rightarrow> Some current)"

definition dig :: "json \<Rightarrow> string \<Rightarrow> json option" where
  "dig self path = dig_segments self (split_str ''.'' path)"

section \<open>The writer\<close>

definition escape_char :: "char \<Rightarrow> string" where
  "escape_char c =
     (if c = CHR 0x22 then [CHR 0x5C, CHR 0x22]
      else if c = CHR 0x5C then [CHR 0x5C, CHR 0x5C]
      else if c = CHR 0x0A then [CHR 0x5C, CHR ''n'']
      else if c = CHR 0x09 then [CHR 0x5C, CHR ''t'']
      else if c = CHR 0x0D then [CHR 0x5C, CHR ''r'']
      else if c = CHR 0x08 then [CHR 0x5C, CHR ''b'']
      else if c = CHR 0x0C then [CHR 0x5C, CHR ''f'']
      else if (of_char c :: int) < 32 then [CHR 0x5C, CHR ''u''] @ pad4 (show_hex (of_char c))
      else [c])"

definition write_escaped_string :: "string \<Rightarrow> string" where
  "write_escaped_string s = CHR 0x22 # concat (map escape_char s) @ [CHR 0x22]"

definition write_float :: "f64 \<Rightarrow> string" where
  "write_float n =
     (let rendered = f64_display n
      in if CHR ''.'' \<notin> set rendered \<and> CHR ''e'' \<notin> set rendered \<and> CHR ''E'' \<notin> set rendered
         then rendered @ ''.0'' else rendered)"

fun to_json_string :: "json \<Rightarrow> string" where
  "to_json_string (J_Object flds) =
     [CHR 0x7B] @ str_join '',''
       (map (\<lambda>(k, v). write_escaped_string k @ '':'' @ to_json_string v) flds) @ [CHR 0x7D]"
| "to_json_string (J_Array items) = ''['' @ str_join '','' (map to_json_string items) @ '']''"
| "to_json_string (J_Str s) = write_escaped_string s"
| "to_json_string (J_Num n raw) =
     (case raw of Some text \<Rightarrow> text | None \<Rightarrow> canonical_integer_digits n)"
| "to_json_string (J_Float n) = write_float n"
| "to_json_string (J_Bool b) = show_bool b"
| "to_json_string J_Null = ''null''"

fun json_inspect :: "json \<Rightarrow> string" where
  "json_inspect (J_Str s) = write_escaped_string s"
| "json_inspect J_Null = ''nil''"
| "json_inspect (J_Array items) = ''['' @ str_join '', '' (map json_inspect items) @ '']''"
| "json_inspect other = to_json_string other"

fun ruby_to_s :: "json \<Rightarrow> string" where
  "ruby_to_s (J_Str s) = s"
| "ruby_to_s J_Null = []"
| "ruby_to_s (J_Bool b) = show_bool b"
| "ruby_to_s (J_Num n raw) =
     (if fract_zero n \<and> f64_lt (f64_abs n) (f64_of_int 1000000000000000)
      then show_i64 (f64_to_i64 n) else to_json_string (J_Num n raw))"
| "ruby_to_s other = to_json_string other"

fun json_as_str :: "json \<Rightarrow> string option" where
  "json_as_str (J_Str s) = Some s"
| "json_as_str _ = None"

fun json_as_i64 :: "json \<Rightarrow> i64 option" where
  "json_as_i64 (J_Num n raw) = exact_i64 n raw"
| "json_as_i64 _ = None"

fun json_as_f64 :: "json \<Rightarrow> f64 option" where
  "json_as_f64 (J_Num n _) = Some n"
| "json_as_f64 (J_Float n) = Some n"
| "json_as_f64 _ = None"

fun json_as_bool :: "json \<Rightarrow> bool option" where
  "json_as_bool (J_Bool b) = Some b"
| "json_as_bool _ = None"

fun json_as_array :: "json \<Rightarrow> json list option" where
  "json_as_array (J_Array items) = Some items"
| "json_as_array _ = None"

fun coerce_single_field :: "json \<Rightarrow> string \<Rightarrow> json" where
  "coerce_single_field (J_Object flds) field_name = J_Object flds"
| "coerce_single_field other field_name = J_Object [(field_name, other)]"

fun json_describe :: "json \<Rightarrow> string" where
  "json_describe (J_Array items) = to_json_string (J_Array items)"
| "json_describe (J_Object flds) = to_json_string (J_Object flds)"
| "json_describe other = json_inspect other"

section \<open>Shape checks\<close>

definition mistyped_scalar :: "json \<Rightarrow> string \<Rightarrow> bool" where
  "mistyped_scalar self type_name =
     (if type_name = ''Integer''
      then (case self of J_Num n _ \<Rightarrow> \<not> fract_zero n | _ \<Rightarrow> True)
      else if type_name = ''Float''
      then (case self of J_Num _ _ \<Rightarrow> False | _ \<Rightarrow> True)
      else if type_name = ''String''
      then (case self of J_Array _ \<Rightarrow> True | J_Object _ \<Rightarrow> True | _ \<Rightarrow> False)
      else False)"

definition expect_scalar_shape :: "json \<Rightarrow> string \<Rightarrow> string \<Rightarrow> string \<Rightarrow> unit res" where
  "expect_scalar_shape self owner field type_name =
     (if self = J_Null \<or> \<not> mistyped_scalar self type_name then Inr ()
      else Inl (TypeMismatch
        (TypeMismatchNumericFieldArgs_render owner field type_name (json_describe self))))"

definition expect_value_object_shape :: "json \<Rightarrow> string \<Rightarrow> string \<Rightarrow> json res" where
  "expect_value_object_shape self name type_name =
     (case self of
        J_Object _ \<Rightarrow> Inr self
      | _ \<Rightarrow> Inl (TypeMismatch
               (TypeMismatchValueObjectShapeArgs_render name type_name (json_describe self))))"

definition json_require :: "json \<Rightarrow> string \<Rightarrow> string \<Rightarrow> json res" where
  "json_require self key struct_name =
     ok_or (TypeMismatch (struct_name @ ''.'' @ key @ '': missing from JSON args'')) (json_get self key)"

fun unknown_keys :: "json \<Rightarrow> string list \<Rightarrow> string list" where
  "unknown_keys (J_Object flds) known = sort (filter (\<lambda>k. \<not> List.member known k) (map fst flds))"
| "unknown_keys _ known = []"

section \<open>Merging arguments\<close>

text \<open>The first entry of a key is replaced, a new key is appended.\<close>

fun put_field :: "string \<Rightarrow> 'a \<Rightarrow> (string \<times> 'a) list \<Rightarrow> (string \<times> 'a) list" where
  "put_field key v [] = [(key, v)]"
| "put_field key v ((k, w) # rest) = (if k = key then (k, v) # rest else (k, w) # put_field key v rest)"

definition overlay :: "json \<Rightarrow> json \<Rightarrow> json" where
  "overlay base patch =
     (case (base, patch) of
        (J_Object base_fields, J_Object patch_fields) \<Rightarrow>
          J_Object (fold (\<lambda>(key, v) merged. put_field key v merged) patch_fields base_fields)
      | _ \<Rightarrow> base)"

definition with_aliases :: "json \<Rightarrow> (string \<times> string) list \<Rightarrow> json" where
  "with_aliases self pairs =
     (case self of
        J_Object flds \<Rightarrow>
          J_Object (fold (\<lambda>(target_key, source_key) merged.
            case map_of flds source_key of
              None \<Rightarrow> merged
            | Some v \<Rightarrow> put_field target_key v merged) pairs flds)
      | _ \<Rightarrow> self)"

section \<open>Identity components\<close>

definition debug_opt_text :: "string option \<Rightarrow> string" where
  "debug_opt_text raw = (case raw of None \<Rightarrow> ''None'' | Some t \<Rightarrow> ''Some('' @ debug_str t @ '')'')"

fun debug_json :: "json \<Rightarrow> string" where
  "debug_json (J_Object flds) =
     ''Object(['' @ str_join '', '' (map (\<lambda>(k, v). ''('' @ debug_str k @ '', '' @ debug_json v @ '')'') flds) @ ''])''"
| "debug_json (J_Array items) = ''Array(['' @ str_join '', '' (map debug_json items) @ ''])''"
| "debug_json (J_Str s) = ''Str('' @ debug_str s @ '')''"
| "debug_json (J_Num n raw) = ''Num('' @ f64_debug n @ '', '' @ debug_opt_text raw @ '')''"
| "debug_json (J_Float n) = ''Float('' @ f64_debug n @ '')''"
| "debug_json (J_Bool b) = ''Bool('' @ show_bool b @ '')''"
| "debug_json J_Null = ''Null''"

fun to_id_component :: "json \<Rightarrow> string res" where
  "to_id_component (J_Str s) =
     (if s = [] then Inl (TypeMismatch ''identity component must not be empty'') else Inr s)"
| "to_id_component (J_Num n raw) =
     Inr (case exact_i64 n raw of
            Some i \<Rightarrow> show_i64 i
          | None \<Rightarrow> (case raw of Some text \<Rightarrow> text | None \<Rightarrow> f64_display n))"
| "to_id_component (J_Bool b) = Inr (show_bool b)"
| "to_id_component other =
     Inl (TypeMismatch (''cannot use '' @ debug_json other @ '' as an identity component''))"

fun to_id_component_lenient :: "json \<Rightarrow> string res" where
  "to_id_component_lenient (J_Str s) = Inr s"
| "to_id_component_lenient other = to_id_component other"

end
