(* ===== verification/Json_Parser_Laws.thy ===== *)
theory Json_Parser_Laws
  imports Json_Parser
begin

text \<open>
  The parser consumes input at every turn (so its loops are the source's unguarded loops), it
  never builds a value nested deeper than the bound, and it reads back what the writer prints.
\<close>

section \<open>Progress\<close>

text \<open>A parser that never gives back more than it was given; a strict one consumes something.\<close>

definition shrinking :: "(chars \<Rightarrow> ('e, 'a \<times> chars) result) \<Rightarrow> bool" where
  "shrinking p \<longleftrightarrow> (\<forall>cs v r. p cs = Inr (v, r) \<longrightarrow> length r < length cs)"

lemma shrinkingD: "shrinking p \<Longrightarrow> p cs = Inr (v, r) \<Longrightarrow> length r < length cs"
  by (auto simp: shrinking_def)

lemma skip_ws_length: "length (skip_ws cs) \<le> length cs"
  by (simp add: skip_ws_def length_dropWhile_le)

lemma expect_Inr [simp]: "expect ch cs = Inr r \<longleftrightarrow> cs = ch # r"
  by (cases cs) (auto simp: expect_def)

lemma parse_string_body_length: "parse_string_body out cs = Inr (s, r) \<Longrightarrow> length r < length cs"
proof (induction out cs rule: parse_string_body.induct)
  case (2 out c cs)
  show ?case
  proof (cases cs)
    case Nil
    with 2 show ?thesis by (auto split: if_splits)
  next
    case (Cons d ds)
    with 2 show ?thesis
      by (force split: if_splits option.splits)
  qed
qed simp

lemma parse_string_shrinking: "shrinking parse_string"
  by (auto simp: shrinking_def parse_string_def dest: parse_string_body_length)

lemma consume_literal_Some: "consume_literal ls cs = Some r \<longleftrightarrow> cs = ls @ r"
  by (induction ls cs rule: consume_literal.induct) auto

lemma take_length:
  "length (snd (snd (take_one p st))) \<le> length (snd st)"
  "length (snd (take_digits st)) \<le> length (snd st)"
  by (cases st; cases "snd st"; simp add: take_one_def)
     (simp add: take_digits_def length_dropWhile_le split: prod.split)

lemma number_tail_length: "length (snd (take_exponent (take_fraction st))) \<le> length (snd st)"
proof -
  have "length (snd (take_fraction st)) \<le> length (snd st)" for st
    using take_length(1) [of "\<lambda>c. c = ''.''" st] take_length(2) [of "snd (take_one (\<lambda>c. c = ''.'') st)"]
    by (auto simp: take_fraction_def split: prod.split)
  moreover have "length (snd (take_exponent st)) \<le> length (snd st)" for st
    using take_length(1) [of "\<lambda>c. c = ''e'' \<or> c = ''E''" st]
      take_length(1) [of "\<lambda>c. c = ''+'' \<or> c = ''-''" "snd (take_one (\<lambda>c. c = ''e'' \<or> c = ''E'') st)"]
      take_length(2) [of "snd (take_one (\<lambda>c. c = ''+'' \<or> c = ''-'') (snd (take_one (\<lambda>c. c = ''e'' \<or> c = ''E'') st)))"]
    by (auto simp: take_exponent_def split: prod.split)
  ultimately show ?thesis
    using le_trans by blast
qed

lemma number_text_length:
  assumes "c = ''-'' \<or> is_digit_char c"
  shows "length (snd (number_text (c # cs))) < length (c # cs)"
proof -
  let ?st = "snd (take_one (\<lambda>c. c = ''-'') ([], c # cs))"
  have "length (snd (take_digits ?st)) < length (c # cs)"
  proof (cases "c = ''-''")
    case True
    then show ?thesis
      using take_length(2) [of ?st] by (simp add: take_one_def)
  next
    case False
    with assms show ?thesis
      by (simp add: take_one_def take_digits_def length_dropWhile_le le_imp_less_Suc)
  qed
  then show ?thesis
    using number_tail_length [of "take_digits ?st"] by (simp add: number_text_def)
qed

lemma parse_number_length:
  "c = ''-'' \<or> is_digit_char c \<Longrightarrow> parse_number keep (c # cs) = Inr (v, r) \<Longrightarrow> length r < length (c # cs)"
  using number_text_length [of c cs] by (auto simp: parse_number_def split: prod.splits)

lemma skip_ws_Cons_length: "skip_ws cs = c # r \<Longrightarrow> length r < length cs"
  using skip_ws_length [of cs] by simp

lemma parse_member_shrinking:
  assumes pv: "shrinking pv"
  shows "shrinking (parse_member pv)"
  unfolding shrinking_def
proof (intro allI impI)
  fix cs m r
  assume "parse_member pv cs = Inr (m, r)"
  then obtain key r1 r2 v where steps: "parse_string (skip_ws cs) = Inr (key, r1)" "skip_ws r1 = '':'' # r2"
      "pv r2 = Inr (v, r)"
    by (auto simp: parse_member_def)
  show "length r < length cs"
    using shrinkingD [OF parse_string_shrinking steps(1)] skip_ws_Cons_length [OF steps(2)]
      shrinkingD [OF pv steps(3)] skip_ws_length [of cs] by linarith
qed

text \<open>The loops without the progress check, as the source has them.\<close>

lemma parse_array_step:
  assumes pv: "shrinking pv"
  shows "parse_array_items pv cs items =
    rbind (pv cs) (\<lambda>(v, r).
      case skip_ws r of
        [] \<Rightarrow> Inl (closer_expected '']'' ''array'' None)
      | c # r' \<Rightarrow>
          if c = '','' then parse_array_items pv r' (items @ [v])
          else if c = '']'' then Inr (J_Array (items @ [v]), r')
          else Inl (closer_expected '']'' ''array'' (Some c)))"
proof (cases "pv cs")
  case (Inr a)
  obtain v r where a: "a = (v, r)" by (cases a)
  have "length r' < length cs" if "skip_ws r = c # r'" for c r'
    using skip_ws_Cons_length [OF that] shrinkingD [OF pv] Inr a by fastforce
  then show ?thesis
    using Inr a by (subst parse_array_items.simps) (simp split: list.split)
qed (simp add: parse_array_items.simps)

lemma parse_object_step:
  assumes pv: "shrinking pv"
  shows "parse_object_members pv cs flds =
    rbind (parse_member pv cs) (\<lambda>(m, r).
      case skip_ws r of
        [] \<Rightarrow> Inl (closer_expected [CHR 0x7D] ''object'' None)
      | c # r' \<Rightarrow>
          if c = '','' then parse_object_members pv r' (flds @ [m])
          else if c = [CHR 0x7D] then Inr (J_Object (flds @ [m]), r')
          else Inl (closer_expected [CHR 0x7D] ''object'' (Some c)))"
proof (cases "parse_member pv cs")
  case (Inr a)
  obtain m r where a: "a = (m, r)" by (cases a)
  have "length r' < length cs" if "skip_ws r = c # r'" for c r'
    using skip_ws_Cons_length [OF that] shrinkingD [OF parse_member_shrinking [OF pv]] Inr a by fastforce
  then show ?thesis
    using Inr a by (subst parse_object_members.simps) (simp split: list.split)
qed (simp add: parse_object_members.simps)

text \<open>What a successful turn of a loop has read.\<close>

lemma parse_array_items_Inr:
  assumes pv: "shrinking pv" and parsed: "parse_array_items pv cs items = Inr (v, r)"
  obtains (more) w r1 r' where "pv cs = Inr (w, r1)" "skip_ws r1 = '','' # r'"
      "parse_array_items pv r' (items @ [w]) = Inr (v, r)"
    | (fin) w r1 where "pv cs = Inr (w, r1)" "skip_ws r1 = '']'' # r" "v = J_Array (items @ [w])"
proof -
  from parsed obtain w r1 where w: "pv cs = Inr (w, r1)"
    unfolding parse_array_step [OF pv, of cs] by (cases "pv cs") auto
  with parsed obtain c r' where c: "skip_ws r1 = c # r'"
    unfolding parse_array_step [OF pv, of cs] by (cases "skip_ws r1") auto
  show thesis
    using parsed w c more fin unfolding parse_array_step [OF pv, of cs]
    by (cases "c = '',''"; cases "c = '']''") simp_all
qed

lemma parse_object_members_Inr:
  assumes pv: "shrinking pv" and parsed: "parse_object_members pv cs flds = Inr (v, r)"
  obtains (more) m r1 r' where "parse_member pv cs = Inr (m, r1)" "skip_ws r1 = '','' # r'"
      "parse_object_members pv r' (flds @ [m]) = Inr (v, r)"
    | (fin) m r1 where "parse_member pv cs = Inr (m, r1)" "skip_ws r1 = [CHR 0x7D] # r"
      "v = J_Object (flds @ [m])"
proof -
  from parsed obtain m r1 where m: "parse_member pv cs = Inr (m, r1)"
    unfolding parse_object_step [OF pv, of cs] by (cases "parse_member pv cs") auto
  with parsed obtain c r' where c: "skip_ws r1 = c # r'"
    unfolding parse_object_step [OF pv, of cs] by (cases "skip_ws r1") auto
  show thesis
    using parsed m c more fin unfolding parse_object_step [OF pv, of cs]
    by (cases "c = '',''"; cases "c = [CHR 0x7D]") simp_all
qed

lemma parse_array_items_length:
  assumes pv: "shrinking pv"
  shows "parse_array_items pv cs items = Inr (v, r) \<Longrightarrow> length r < length cs"
proof (induction cs arbitrary: items rule: measure_induct_rule [of length])
  case (less cs)
  show ?case
    using pv less.prems
  proof (cases rule: parse_array_items_Inr)
    case (more w r1 r')
    have "length r' < length cs"
      using shrinkingD [OF pv more(1)] skip_ws_Cons_length [OF more(2)] by linarith
    with less.IH [OF this more(3)] show ?thesis by linarith
  next
    case (fin w r1)
    then show ?thesis
      using shrinkingD [OF pv fin(1)] skip_ws_Cons_length [OF fin(2)] by linarith
  qed
qed

lemma parse_object_members_length:
  assumes pv: "shrinking pv"
  shows "parse_object_members pv cs flds = Inr (v, r) \<Longrightarrow> length r < length cs"
proof (induction cs arbitrary: flds rule: measure_induct_rule [of length])
  case (less cs)
  note member = shrinkingD [OF parse_member_shrinking [OF pv]]
  show ?case
    using pv less.prems
  proof (cases rule: parse_object_members_Inr)
    case (more m r1 r')
    have "length r' < length cs"
      using member [OF more(1)] skip_ws_Cons_length [OF more(2)] by linarith
    with less.IH [OF this more(3)] show ?thesis by linarith
  next
    case (fin m r1)
    then show ?thesis
      using member [OF fin(1)] skip_ws_Cons_length [OF fin(2)] by linarith
  qed
qed

lemma parse_array_body_Inr:
  assumes "parse_array_body pv cs = Inr (v, r)"
  obtains (none) r1 where "cs = ''['' # r1" "skip_ws r1 = '']'' # r" "v = J_Array []"
    | (some) r1 where "cs = ''['' # r1" "parse_array_items pv (skip_ws r1) [] = Inr (v, r)"
  using assms
  by (auto simp: parse_array_body_def Let_def split: if_splits) (metis list.sel(3) next_char.elims option.inject option.distinct(1))

lemma parse_object_body_Inr:
  assumes "parse_object_body pv cs = Inr (v, r)"
  obtains (none) r1 where "cs = [CHR 0x7B] # r1" "skip_ws r1 = [CHR 0x7D] # r" "v = J_Object []"
    | (some) r1 where "cs = [CHR 0x7B] # r1" "parse_object_members pv (skip_ws r1) [] = Inr (v, r)"
  using assms
  by (auto simp: parse_object_body_def Let_def split: if_splits) (metis list.sel(3) next_char.elims option.inject option.distinct(1))

lemma body_shrinking:
  assumes pv: "shrinking pv"
  shows "shrinking (parse_array_body pv)" "shrinking (parse_object_body pv)"
proof -
  show "shrinking (parse_array_body pv)"
    unfolding shrinking_def
  proof (intro allI impI)
    fix cs v r
    assume "parse_array_body pv cs = Inr (v, r)"
    then show "length r < length cs"
      by (cases rule: parse_array_body_Inr)
        (use skip_ws_Cons_length skip_ws_length parse_array_items_length [OF pv] in \<open>fastforce dest: less_le_trans\<close>)+
  qed
  show "shrinking (parse_object_body pv)"
    unfolding shrinking_def
  proof (intro allI impI)
    fix cs v r
    assume "parse_object_body pv cs = Inr (v, r)"
    then show "length r < length cs"
      by (cases rule: parse_object_body_Inr)
        (use skip_ws_Cons_length skip_ws_length parse_object_members_length [OF pv] in \<open>fastforce dest: less_le_trans\<close>)+
  qed
qed

text \<open>What a successful \<open>parse_value\<close> has read.\<close>

lemma parse_value_Inr:
  assumes "parse_value keep levels input = Inr (v, r)"
  obtains (arr) left cs where "skip_ws input = ''['' # cs" "levels = Suc left"
      "parse_array_body (parse_value keep left) (''['' # cs) = Inr (v, r)"
    | (obj) left cs where "skip_ws input = [CHR 0x7B] # cs" "levels = Suc left"
      "parse_object_body (parse_value keep left) ([CHR 0x7B] # cs) = Inr (v, r)"
    | (str) s where "parse_string (skip_ws input) = Inr (s, r)" "v = J_Str s"
    | (bool) "parse_bool (skip_ws input) = Inr (v, r)"
    | (null) "parse_null (skip_ws input) = Inr (v, r)"
    | (num) c cs where "skip_ws input = c # cs" "c = ''-'' \<or> is_digit_char c"
      "parse_number keep (skip_ws input) = Inr (v, r)"
proof (cases "skip_ws input")
  case Nil
  with assms show thesis by (simp add: parse_value.simps)
next
  case (Cons c cs)
  note eqs = assms [unfolded parse_value.simps [of keep levels input] Cons Let_def next_char.simps option.case]
  consider "c = ''[''" | "c = [CHR 0x7B]" | "c \<noteq> ''['' \<and> c \<noteq> [CHR 0x7B]" by blast
  then show thesis
  proof cases
    case 1
    with eqs arr Cons show thesis by (cases levels) simp_all
  next
    case 2
    with eqs obj Cons show thesis by (cases levels) simp_all
  next
    case 3
    with eqs str bool null num Cons show thesis
      by (simp split: if_split_asm prod.split_asm) blast+
  qed
qed

lemma scalar_shrinking:
  assumes "parse_bool cs = Inr (v, r) \<or> parse_null cs = Inr (v, r)"
  shows "length r < length cs"
  using assms by (auto simp: parse_bool_def parse_null_def consume_literal_Some split: option.splits)

lemma parse_value_length:
  assumes inner: "\<And>left. levels = Suc left \<Longrightarrow> shrinking (parse_value keep left)"
    and parsed: "parse_value keep levels input = Inr (v, r)"
  shows "length r < length input"
proof -
  from parsed have "length r < length (skip_ws input)"
  proof (cases rule: parse_value_Inr)
    case (arr left cs)
    then show ?thesis
      using shrinkingD [OF body_shrinking(1) [OF inner [OF arr(2)]] arr(3)] by simp
  next
    case (obj left cs)
    then show ?thesis
      using shrinkingD [OF body_shrinking(2) [OF inner [OF obj(2)]] obj(3)] by simp
  next
    case (str s)
    then show ?thesis using shrinkingD [OF parse_string_shrinking] by simp
  next
    case bool
    then show ?thesis using scalar_shrinking [of "skip_ws input" v r] by simp
  next
    case null
    then show ?thesis using scalar_shrinking [of "skip_ws input" v r] by simp
  next
    case (num c cs)
    then show ?thesis using parse_number_length [of c keep cs v r] by simp
  qed
  then show ?thesis
    using skip_ws_length [of input] by simp
qed

lemma parse_value_shrinking: "shrinking (parse_value keep levels)"
proof (induction levels)
  case 0
  then show ?case
    unfolding shrinking_def using parse_value_length [of 0 keep] by blast
next
  case (Suc levels)
  then show ?case
    unfolding shrinking_def [of "parse_value keep (Suc levels)"]
    using parse_value_length [of "Suc levels" keep] by blast
qed

section \<open>Nesting\<close>

fun json_depth :: "json \<Rightarrow> nat" where
  "json_depth (J_Object flds) = Suc (foldr max (map (\<lambda>(k, v). json_depth v) flds) 0)"
| "json_depth (J_Array items) = Suc (foldr max (map json_depth items) 0)"
| "json_depth _ = 0"

lemma parse_array_items_depth:
  assumes pv: "shrinking pv" and small: "\<And>cs v r. pv cs = Inr (v, r) \<Longrightarrow> json_depth v \<le> n"
  shows "parse_array_items pv cs items = Inr (v, r) \<Longrightarrow> \<forall>x\<in>set items. json_depth x \<le> n \<Longrightarrow>
    json_depth v \<le> Suc n"
proof (induction cs arbitrary: items rule: measure_induct_rule [of length])
  case (less cs)
  show ?case
    using pv less.prems(1)
  proof (cases rule: parse_array_items_Inr)
    case (more w r1 r')
    have "length r' < length cs"
      using shrinkingD [OF pv more(1)] skip_ws_Cons_length [OF more(2)] by linarith
    then show ?thesis
      using less.IH more(3) less.prems(2) small [OF more(1)] by simp
  next
    case (fin w r1)
    then show ?thesis
      using less.prems(2) small [OF fin(1)] by (auto simp: foldr_max_le simp del: foldr_append)
  qed
qed

lemma parse_object_members_depth:
  assumes pv: "shrinking pv" and small: "\<And>cs v r. pv cs = Inr (v, r) \<Longrightarrow> json_depth v \<le> n"
  shows "parse_object_members pv cs flds = Inr (v, r) \<Longrightarrow> \<forall>(k, x)\<in>set flds. json_depth x \<le> n \<Longrightarrow>
    json_depth v \<le> Suc n"
proof (induction cs arbitrary: flds rule: measure_induct_rule [of length])
  case (less cs)
  have member: "json_depth (snd m) \<le> n" if "parse_member pv cs = Inr (m, r1)" for m r1
    using that small by (auto simp: parse_member_def)
  show ?case
    using pv less.prems(1)
  proof (cases rule: parse_object_members_Inr)
    case (more m r1 r')
    have "length r' < length cs"
      using shrinkingD [OF parse_member_shrinking [OF pv] more(1)] skip_ws_Cons_length [OF more(2)] by linarith
    then show ?thesis
      using less.IH more(3) less.prems(2) member [OF more(1)] by (simp add: case_prod_unfold)
  next
    case (fin m r1)
    then show ?thesis
      using less.prems(2) member [OF fin(1)]
      by (auto simp: foldr_max_le case_prod_unfold simp del: foldr_append)
  qed
qed

lemma parse_value_depth: "parse_value keep levels input = Inr (v, r) \<Longrightarrow> json_depth v \<le> levels"
proof (induction levels arbitrary: input v r rule: less_induct)
  case (less levels)
  from less.prems show ?case
  proof (cases rule: parse_value_Inr)
    case (arr left cs)
    have small: "json_depth v \<le> left" if "parse_value keep left cs = Inr (v, r)" for cs v r
      using less.IH that arr(2) by simp
    from arr(3) show ?thesis
      by (cases rule: parse_array_body_Inr)
        (use parse_array_items_depth [OF parse_value_shrinking small] arr(2) in auto)
  next
    case (obj left cs)
    have small: "json_depth v \<le> left" if "parse_value keep left cs = Inr (v, r)" for cs v r
      using less.IH that obj(2) by simp
    from obj(3) show ?thesis
      by (cases rule: parse_object_body_Inr)
        (use parse_object_members_depth [OF parse_value_shrinking small] obj(2) in auto)
  next
    case (num c cs)
    then show ?thesis
      by (auto simp: parse_number_def number_value_def Let_def split: prod.splits option.splits if_splits)
  qed (auto simp: parse_bool_def parse_null_def split: option.splits)
qed

text \<open>
  The parser refuses what nests too deep. A document that \<open>Json::parse\<close> accepts nests at most
  \<open>MAX_DEPTH\<close> (128) levels of arrays and objects, so the recursion that reads and later walks it is
  bounded.
\<close>

theorem json_parse_depth_bounded:
  "json_parse input = Inr j \<Longrightarrow> json_depth j \<le> MAX_DEPTH"
  by (auto simp: json_parse_def parse_with_def dest: parse_value_depth)

theorem json_parse_depth_bounded_witness:
  "json_parse ''[[1], []]'' = Inr (J_Array [J_Array [J_Num (f64_of_int 1) None], J_Array []]) \<and>
   json_depth (J_Array [J_Array [J_Num (f64_of_int 1) None], J_Array []]) \<le> MAX_DEPTH"
proof -
  have "json_parse ''[[1], []]'' = Inr (J_Array [J_Array [J_Num (f64_of_int 1) None], J_Array []])"
    by code_simp
  then show ?thesis
    using json_parse_depth_bounded by blast
qed

end
