(* ===== verification/Json_Roundtrip.thy ===== *)
theory Json_Roundtrip
  imports Json_Parser_Laws
begin

text \<open>
  The parser reads back what the writer prints, for every value whose strings are valid text and
  whose numbers print as a token that the number reader turns into the same number.
\<close>

section \<open>UTF-8 text\<close>

text \<open>The strings of the program are valid UTF-8: an ASCII byte has no continuation bytes.\<close>

definition char_ok :: "string \<Rightarrow> bool" where
  "char_ok c \<longleftrightarrow>
     (case c of [] \<Rightarrow> False
      | b # bs \<Rightarrow> \<not> is_continuation b \<and> ((of_char b :: int) < 128 \<longrightarrow> bs = []) \<and> list_all is_continuation bs)"

definition utf8_ok :: "string \<Rightarrow> bool" where
  "utf8_ok s \<longleftrightarrow> list_all char_ok (utf8_chars s)"

definition starts_char :: "string \<Rightarrow> bool" where
  "starts_char s \<longleftrightarrow> (case s of [] \<Rightarrow> True | b # _ \<Rightarrow> \<not> is_continuation b)"

lemma starts_char_simps [simp]:
  "starts_char []"
  "starts_char (b # s) \<longleftrightarrow> \<not> is_continuation b"
  by (simp_all add: starts_char_def)

lemma starts_char_append [simp]: "a \<noteq> [] \<Longrightarrow> starts_char (a @ b) \<longleftrightarrow> starts_char a"
  by (cases a) simp_all

lemma continuation_big: "is_continuation b \<Longrightarrow> 128 \<le> (of_char b :: int)"
  by (simp add: is_continuation_def)

lemma utf8_chars_append: "starts_char b \<Longrightarrow> utf8_chars (a @ b) = utf8_chars a @ utf8_chars b"
proof (induction a rule: utf8_chars.induct)
  case (2 c cs)
  have tw: "takeWhile is_continuation (cs @ b) = takeWhile is_continuation cs"
    and dw: "dropWhile is_continuation (cs @ b) = dropWhile is_continuation cs @ b"
    using "2.prems" by (induction cs) (auto simp: starts_char_def split: list.splits)
  show ?case
    using 2 by (simp add: utf8_chars.simps(2) tw dw)
qed simp

lemma utf8_chars_ascii: "list_all (\<lambda>b. \<not> is_continuation b) s \<Longrightarrow> utf8_chars s = map (\<lambda>b. [b]) s"
proof (induction s)
  case (Cons b s)
  then have "takeWhile is_continuation s = []" "dropWhile is_continuation s = s"
    by (cases s; simp)+
  with Cons show ?case by (simp add: utf8_chars.simps(2))
qed simp

lemma utf8_ok_append [simp]: "starts_char b \<Longrightarrow> utf8_ok (a @ b) \<longleftrightarrow> utf8_ok a \<and> utf8_ok b"
  by (simp add: utf8_ok_def utf8_chars_append)

section \<open>Strings\<close>

lemma char_nonneg: "0 \<le> (of_char c :: int)"
  by (metis of_nat_0_le_iff of_nat_of_char)

definition control_escape_ok :: "int \<Rightarrow> bool" where
  "control_escape_ok n \<longleftrightarrow>
     length (pad4 (show_hex n)) = 4 \<and> from_hex (pad4 (show_hex n)) = Some n \<and>
     utf8_of_code n = [char_of n] \<and> list_all (\<lambda>b. \<not> is_continuation b) (pad4 (show_hex n))"

lemma control_escapes: "list_all control_escape_ok [0..31]"
  by code_simp

lemma control_escape: "of_char c < (32 :: int) \<Longrightarrow> control_escape_ok (of_char c)"
proof -
  assume "of_char c < (32 :: int)"
  then have "of_char c \<in> set [0..31 :: int]"
    using char_nonneg [of c] by simp
  then show ?thesis
    using control_escapes by (simp only: list_all_iff)
qed

text \<open>A byte is written as itself, as a two-character escape, or as a \<open>\u\<close> escape.\<close>

lemma escape_char_cases:
  obtains (plain) "escape_char c = [c]" "c \<noteq> CHR 0x22" "c \<noteq> CHR 0x5C" "32 \<le> (of_char c :: int)"
    | (short) d where "escape_char c = [CHR 0x5C, d]" "simple_escape [d] = Some [c]" "\<not> is_continuation d"
    | (control) "escape_char c = [CHR 0x5C, CHR ''u''] @ pad4 (show_hex (of_char c))" "of_char c < (32 :: int)"
proof -
  consider "c = CHR 0x22" | "c = CHR 0x5C" | "c = CHR 0x0A" | "c = CHR 0x09" | "c = CHR 0x0D"
    | "c = CHR 0x08" | "c = CHR 0x0C"
    | "c \<notin> {CHR 0x22, CHR 0x5C, CHR 0x0A, CHR 0x09, CHR 0x0D, CHR 0x08, CHR 0x0C}" "of_char c < (32 :: int)"
    | "c \<notin> {CHR 0x22, CHR 0x5C, CHR 0x0A, CHR 0x09, CHR 0x0D, CHR 0x08, CHR 0x0C}" "32 \<le> (of_char c :: int)"
    by fastforce
  then show thesis
  proof cases
    case 1
    then show thesis by (intro short [of "CHR 0x22"]) (simp_all add: escape_char_def simple_escape_def is_continuation_def)
  next
    case 2
    then show thesis by (intro short [of "CHR 0x5C"]) (simp_all add: escape_char_def simple_escape_def is_continuation_def)
  next
    case 3
    then show thesis by (intro short [of "CHR ''n''"]) (simp_all add: escape_char_def simple_escape_def is_continuation_def)
  next
    case 4
    then show thesis by (intro short [of "CHR ''t''"]) (simp_all add: escape_char_def simple_escape_def is_continuation_def)
  next
    case 5
    then show thesis by (intro short [of "CHR ''r''"]) (simp_all add: escape_char_def simple_escape_def is_continuation_def)
  next
    case 6
    then show thesis by (intro short [of "CHR ''b''"]) (simp_all add: escape_char_def simple_escape_def is_continuation_def)
  next
    case 7
    then show thesis by (intro short [of "CHR ''f''"]) (simp_all add: escape_char_def simple_escape_def is_continuation_def)
  next
    case 8
    then show thesis by (intro control) (simp_all add: escape_char_def)
  next
    case 9
    then show thesis by (intro plain) (simp_all add: escape_char_def)
  qed
qed

lemma escape_char_props:
  "escape_char c \<noteq> []"
  "\<not> is_continuation c \<Longrightarrow> list_all (\<lambda>b. \<not> is_continuation b) (escape_char c)"
  "128 \<le> (of_char c :: int) \<Longrightarrow> escape_char c = [c]"
proof -
  show "escape_char c \<noteq> []"
    by (cases c rule: escape_char_cases) simp_all
  show "list_all (\<lambda>b. \<not> is_continuation b) (escape_char c)" if "\<not> is_continuation c"
    using that control_escape [of c]
    by (cases c rule: escape_char_cases) (simp_all add: control_escape_ok_def is_continuation_def)
  show "escape_char c = [c]" if "128 \<le> (of_char c :: int)"
    using that by (cases c rule: escape_char_cases) (auto simp: simple_escape_def split: if_splits)
qed

lemma parse_plain_char:
  "c \<noteq> [CHR 0x22] \<Longrightarrow> c \<noteq> [CHR 0x5C] \<Longrightarrow> parse_string_body out (c # cs) = parse_string_body (out @ c) cs"
  by simp

declare parse_string_body.simps(2) [simp del]

lemma parse_escaped_byte:
  "parse_string_body out (map (\<lambda>b. [b]) (escape_char c) @ cs) = parse_string_body (out @ [c]) cs"
proof (cases c rule: escape_char_cases)
  case plain
  then show ?thesis by (simp add: parse_plain_char)
next
  case (short d)
  then show ?thesis by (simp add: parse_string_body.simps(2))
next
  case control
  let ?h = "pad4 (show_hex (of_char c))"
  have h: "length ?h = 4" "from_hex ?h = Some (of_char c)" "utf8_of_code (of_char c) = [c]"
    using control_escape [OF control(2)] by (simp_all add: control_escape_ok_def)
  have "pad_hex (map (\<lambda>b. [b]) ?h @ cs) = ?h"
    using h(1) by (simp add: pad_hex_def concat_map_singleton [of "\<lambda>b. b", simplified])
  then show ?thesis
    using h control(1) by (simp add: parse_string_body.simps(2) simple_escape_def)
qed

text \<open>One character of a string, as the characters of its escaped form.\<close>

definition escaped_chars :: "string \<Rightarrow> chars" where
  "escaped_chars c = utf8_chars (concat (map escape_char c))"

lemma escape_multibyte:
  "list_all (\<lambda>b. 128 \<le> (of_char b :: int)) bs \<Longrightarrow> concat (map escape_char bs) = bs"
  by (induction bs) (simp_all add: escape_char_props)

lemma parse_escaped_char:
  assumes "char_ok c"
  shows "parse_string_body out (escaped_chars c @ cs) = parse_string_body (out @ c) cs"
proof -
  obtain b bs where c: "c = b # bs" "\<not> is_continuation b" "list_all is_continuation bs"
      "(of_char b :: int) < 128 \<longrightarrow> bs = []"
    using assms by (auto simp: char_ok_def split: list.splits)
  show ?thesis
  proof (cases "(of_char b :: int) < 128")
    case True
    then show ?thesis
      using c parse_escaped_byte [of out b cs]
      by (simp add: escaped_chars_def utf8_chars_ascii escape_char_props)
  next
    case False
    then have "list_all (\<lambda>b. 128 \<le> (of_char b :: int)) c"
      using c by (auto simp: list_all_iff dest: continuation_big)
    then have "escaped_chars c = utf8_chars c"
      by (simp add: escaped_chars_def escape_multibyte)
    also have "\<dots> = [c]"
      using c by (simp add: utf8_chars.simps(2) list_all_iff)
        (metis dropWhile_eq_Nil_conv takeWhile_eq_all_conv utf8_chars.simps(1))
    finally show ?thesis
      using False c(1) parse_plain_char [of c out cs] by fastforce
  qed
qed

lemma starts_char_escaped:
  "list_all char_ok cs \<Longrightarrow> starts_char (concat (map escape_char (concat cs)) @ CHR 0x22 # r)"
proof (cases cs)
  case Nil
  then show ?thesis by (simp add: is_continuation_def)
next
  case (Cons c cs')
  assume "list_all char_ok cs"
  with Cons obtain b bs where c: "c = b # bs" "\<not> is_continuation b"
    by (auto simp: char_ok_def split: list.splits)
  obtain e es where "escape_char b = e # es" "\<not> is_continuation e"
    using escape_char_props(1,2) [of b] c(2) by (cases "escape_char b") auto
  with Cons c show ?thesis by simp
qed

lemma parse_string_body_escaped:
  assumes "list_all char_ok cs"
  shows "parse_string_body out (utf8_chars (concat (map escape_char (concat cs)) @ CHR 0x22 # r)) =
    parse_string_body (out @ concat cs) (utf8_chars (CHR 0x22 # r))"
  using assms
proof (induction cs arbitrary: out)
  case (Cons c cs)
  then have "utf8_chars (concat (map escape_char (concat (c # cs))) @ CHR 0x22 # r) =
      escaped_chars c @ utf8_chars (concat (map escape_char (concat cs)) @ CHR 0x22 # r)"
    using starts_char_escaped [of cs r]
    by (simp add: escaped_chars_def utf8_chars_append [symmetric])
  with Cons show ?case by (simp add: parse_escaped_char)
qed simp

lemma utf8_chars_quote: "starts_char t \<Longrightarrow> utf8_chars (CHR 0x22 # t) = [CHR 0x22] # utf8_chars t"
  using utf8_chars_append [of t "[CHR 0x22]"] by (simp add: utf8_chars.simps(2))

lemma utf8_chars_written_string:
  assumes "utf8_ok s"
  shows "utf8_chars (write_escaped_string s @ r) =
    [CHR 0x22] # utf8_chars (concat (map escape_char s) @ CHR 0x22 # r)"
  using starts_char_escaped [of "utf8_chars s" r] assms
  by (simp add: write_escaped_string_def utf8_chars_quote concat_utf8_chars utf8_ok_def)

lemma parse_string_written:
  assumes "utf8_ok s" "starts_char r"
  shows "parse_string (utf8_chars (write_escaped_string s @ r)) = Inr (s, utf8_chars r)"
proof -
  have "list_all char_ok (utf8_chars s)"
    using assms(1) by (simp add: utf8_ok_def)
  then have "parse_string_body [] (utf8_chars (concat (map escape_char s) @ CHR 0x22 # r)) = Inr (s, utf8_chars r)"
    using parse_string_body_escaped [of "utf8_chars s" "[]" r] assms(2)
    by (simp add: concat_utf8_chars utf8_chars_quote parse_string_body.simps(2))
  then show ?thesis
    using utf8_chars_written_string [OF assms(1)] by (simp add: parse_string_def expect_def)
qed

section \<open>Numbers\<close>

text \<open>The text is read as one number token, and what it stands for prints as that text again.\<close>

definition number_token :: "string \<Rightarrow> json \<Rightarrow> bool" where
  "number_token t j \<longleftrightarrow>
     t \<noteq> [] \<and> (hd t = CHR ''-'' \<or> is_ascii_digit (hd t)) \<and> list_all (\<lambda>b. \<not> is_continuation b) t \<and>
     number_text (map (\<lambda>b. [b]) t) = (t, []) \<and> number_value False t = Inr j"

text \<open>A value ends before the end of the input or one of the three delimiters.\<close>

definition delimited :: "chars \<Rightarrow> bool" where
  "delimited r \<longleftrightarrow> (case r of [] \<Rightarrow> True | c # _ \<Rightarrow> c = '','' \<or> c = '']'' \<or> c = [CHR 0x7D])"

lemma take_one_delimited:
  assumes "delimited r" "\<not> p '',''" "\<not> p '']''" "\<not> p [CHR 0x7D]" "take_one p (out, cs) = (b, out', cs')"
  shows "take_one p (out, cs @ r) = (b, out', cs' @ r)"
  using assms by (cases cs; cases r) (auto simp: take_one_def delimited_def split: if_splits)

lemma take_digits_delimited:
  assumes "delimited r" "take_digits (out, cs) = (out', cs')"
  shows "take_digits (out, cs @ r) = (out', cs' @ r)"
proof -
  have r: "takeWhile is_digit_char r = []" "dropWhile is_digit_char r = r"
    using assms(1) by (cases r; auto simp: delimited_def is_digit_char_def is_ascii_digit_def)+
  have "takeWhile is_digit_char (cs @ r) = takeWhile is_digit_char cs"
    and "dropWhile is_digit_char (cs @ r) = dropWhile is_digit_char cs @ r"
    by (induction cs) (simp_all add: r)
  then show ?thesis
    using assms(2) by (simp add: take_digits_def)
qed

lemma take_fraction_delimited:
  assumes "delimited r" "take_fraction (out, cs) = (out', cs')"
  shows "take_fraction (out, cs @ r) = (out', cs' @ r)"
  using assms take_one_delimited [OF assms(1), of "\<lambda>c. c = ''.''" out cs] take_digits_delimited [OF assms(1)]
  by (auto simp: take_fraction_def split: prod.splits if_splits)

lemma take_exponent_delimited:
  assumes "delimited r" "take_exponent (out, cs) = (out', cs')"
  shows "take_exponent (out, cs @ r) = (out', cs' @ r)"
proof -
  obtain b out1 cs1 where one: "take_one (\<lambda>c. c = ''e'' \<or> c = ''E'') (out, cs) = (b, out1, cs1)"
    by (metis prod_cases3)
  obtain b2 out2 cs2 where two: "take_one (\<lambda>c. c = ''+'' \<or> c = ''-'') (out1, cs1) = (b2, out2, cs2)"
    by (metis prod_cases3)
  show ?thesis
    using assms(2) one two take_one_delimited [OF assms(1) _ _ _ one] take_one_delimited [OF assms(1) _ _ _ two]
      take_digits_delimited [OF assms(1)]
    by (simp add: take_exponent_def split: if_splits)
qed

lemma number_text_delimited:
  assumes "delimited r" "number_text cs = (s, cs')"
  shows "number_text (cs @ r) = (s, cs' @ r)"
proof -
  obtain b out1 cs1 where one: "take_one (\<lambda>c. c = ''-'') ([], cs) = (b, out1, cs1)"
    by (metis prod_cases3)
  obtain out2 cs2 where two: "take_digits (out1, cs1) = (out2, cs2)"
    by fastforce
  obtain out3 cs3 where three: "take_fraction (out2, cs2) = (out3, cs3)"
    by fastforce
  show ?thesis
    using assms(2) one two three take_one_delimited [OF assms(1) _ _ _ one] take_digits_delimited [OF assms(1) two]
      take_fraction_delimited [OF assms(1) three] take_exponent_delimited [OF assms(1)]
    by (simp add: number_text_def)
qed

section \<open>Values\<close>

text \<open>The values the round trip holds for.\<close>

fun readable :: "json \<Rightarrow> bool" where
  "readable (J_Object flds) = list_all (\<lambda>(k, v). utf8_ok k \<and> readable v) flds"
| "readable (J_Array items) = list_all readable items"
| "readable (J_Str s) = utf8_ok s"
| "readable (J_Num n raw) = number_token (to_json_string (J_Num n raw)) (J_Num n raw)"
| "readable (J_Float n) = False"
| "readable (J_Bool b) = True"
| "readable J_Null = True"

text \<open>How the text of a value starts: a character that the parser does not skip.\<close>

lemma whitespace_bytes:
  "byte 9 = CHR 0x09" "byte 10 = CHR 0x0A" "byte 11 = CHR 0x0B" "byte 12 = CHR 0x0C"
  "byte 13 = CHR 0x0D" "byte 32 = CHR 0x20"
  by code_simp+

lemma is_whitespace_byte:
  "is_whitespace [b] \<longleftrightarrow> b \<in> {CHR 0x09, CHR 0x0A, CHR 0x0B, CHR 0x0C, CHR 0x0D, CHR 0x20}"
  unfolding is_whitespace_def whitespace_chars_def whitespace_bytes [symmetric] by simp

lemma not_whitespace [simp]:
  "\<not> is_whitespace '',''" "\<not> is_whitespace ''[''" "\<not> is_whitespace '']''" "\<not> is_whitespace [CHR 0x7B]"
  "\<not> is_whitespace [CHR 0x7D]" "\<not> is_whitespace [CHR 0x22]" "\<not> is_whitespace '':''" "\<not> is_whitespace ''t''"
  "\<not> is_whitespace ''f''" "\<not> is_whitespace ''n''" "\<not> is_whitespace ''-''"
  by (simp_all add: is_whitespace_byte)

lemma digit_not_whitespace [simp]: "is_ascii_digit b \<Longrightarrow> \<not> is_whitespace [b]"
  by (auto simp: is_whitespace_byte is_ascii_digit_def)

lemma skip_ws_stop [simp]: "\<not> is_whitespace c \<Longrightarrow> skip_ws (c # cs) = c # cs"
  by (simp add: skip_ws_def)

lemma not_continuation [simp]:
  "\<not> is_continuation CHR '',''" "\<not> is_continuation CHR ''[''" "\<not> is_continuation CHR '']''"
  "\<not> is_continuation CHR 0x7B" "\<not> is_continuation CHR 0x7D" "\<not> is_continuation CHR 0x22"
  "\<not> is_continuation CHR '':''" "\<not> is_continuation CHR ''t''" "\<not> is_continuation CHR ''f''"
  "\<not> is_continuation CHR ''n''"
  by (simp_all add: is_continuation_def)

lemma starts_char_written: "readable j \<Longrightarrow> to_json_string j \<noteq> [] \<and> starts_char (to_json_string j)"
proof (cases j)
  case (J_Num n raw)
  moreover assume "readable j"
  ultimately show ?thesis
    by (cases "to_json_string j") (auto simp: number_token_def)
qed (auto simp: write_escaped_string_def show_bool_def)

lemma utf8_chars_ascii_Cons [simp]:
  "starts_char r \<Longrightarrow> utf8_chars (b # r) = [b] # utf8_chars r"
  using utf8_chars_append [of r "[b]"] by (simp add: utf8_chars.simps(2))

lemma delimited_simps [simp]:
  "delimited []" "delimited ('','' # r)" "delimited ('']'' # r)" "delimited ([CHR 0x7D] # r)"
  by (simp_all add: delimited_def)

text \<open>A parser that reads back the text of one value, whatever delimiter follows.\<close>

definition reads :: "(chars \<Rightarrow> parsed) \<Rightarrow> json \<Rightarrow> bool" where
  "reads pv j \<longleftrightarrow>
     (\<forall>r. starts_char r \<longrightarrow> delimited (utf8_chars r) \<longrightarrow>
        pv (utf8_chars (to_json_string j @ r)) = Inr (j, utf8_chars r))"

lemma parse_array_items_written:
  assumes pv: "shrinking pv" and reads: "\<forall>x\<in>set (x # xs). reads pv x \<and> readable x" and r: "starts_char r"
  shows "parse_array_items pv (utf8_chars (str_join '','' (map to_json_string (x # xs)) @ CHR '']'' # r)) acc =
    Inr (J_Array (acc @ x # xs), utf8_chars r)"
  using reads
proof (induction xs arbitrary: x acc)
  case Nil
  then show ?case
    using r by (subst parse_array_step [OF pv]) (simp add: reads_def)
next
  case (Cons y ys)
  have "starts_char (str_join '','' (map to_json_string (y # ys)) @ CHR '']'' # r)"
    using Cons.prems starts_char_written [of y] by (cases ys) (auto simp: str_join_Cons)
  with Cons show ?case
    by (subst parse_array_step [OF pv]) (simp add: reads_def)
qed

lemma parse_member_written:
  assumes "reads pv v" "readable v" "utf8_ok k" "starts_char r" "delimited (utf8_chars r)"
  shows "parse_member pv (utf8_chars (write_escaped_string k @ CHR '':'' # to_json_string v @ r)) =
    Inr ((k, v), utf8_chars r)"
proof -
  have v: "starts_char (to_json_string v @ r)"
    using starts_char_written [OF assms(2)] by simp
  have q: "skip_ws (utf8_chars (write_escaped_string k @ s)) = utf8_chars (write_escaped_string k @ s)" for s
    using utf8_chars_written_string [OF assms(3), of s] by simp
  show ?thesis
    using assms v by (simp add: parse_member_def q parse_string_written reads_def)
qed

abbreviation member_text :: "string \<times> json \<Rightarrow> string" where
  "member_text \<equiv> (\<lambda>(k, v). write_escaped_string k @ '':'' @ to_json_string v)"

lemma parse_object_members_written:
  assumes pv: "shrinking pv" and r: "starts_char r"
    and reads: "\<forall>(k, v)\<in>set (m # ms). utf8_ok k \<and> reads pv v \<and> readable v"
  shows "parse_object_members pv (utf8_chars (str_join '','' (map member_text (m # ms)) @ CHR 0x7D # r)) acc =
    Inr (J_Object (acc @ m # ms), utf8_chars r)"
  using reads
proof (induction ms arbitrary: m acc)
  case Nil
  obtain k v where m: "m = (k, v)" by (cases m)
  have "parse_member pv (utf8_chars (member_text m @ CHR 0x7D # r)) = Inr (m, utf8_chars (CHR 0x7D # r))"
    using Nil m r parse_member_written [of pv v k "CHR 0x7D # r"] by simp
  then show ?case
    using r by (subst parse_object_step [OF pv]) simp
next
  case (Cons n ns)
  let ?tail = "str_join '','' (map member_text (n # ns)) @ CHR 0x7D # r"
  obtain k v where m: "m = (k, v)" by (cases m)
  have "starts_char ?tail"
    by (cases ns; cases n) (simp_all add: write_escaped_string_def str_join_Cons)
  then have "parse_member pv (utf8_chars (member_text m @ CHR '','' # ?tail)) = Inr (m, [CHR '',''] # utf8_chars ?tail)"
    using Cons.prems m parse_member_written [of pv v k "CHR '','' # ?tail"] by simp
  then show ?case
    using Cons.IH [of n "acc @ [m]"] Cons.prems by (subst parse_object_step [OF pv]) simp
qed

lemma starts_member: "starts_char (str_join '','' (map member_text ms) @ CHR 0x7D # r)"
  by (cases ms; cases "tl ms") (auto simp: write_escaped_string_def str_join_Cons)

lemma starts_items:
  "\<forall>x\<in>set xs. readable x \<Longrightarrow> starts_char (str_join '','' (map to_json_string xs) @ CHR '']'' # r)"
  using starts_char_written [of "hd xs"] by (cases xs; cases "tl xs") (auto simp: str_join_Cons)

lemma utf8_chars_number:
  assumes "number_token t j" "starts_char r"
  shows "utf8_chars (t @ r) = map (\<lambda>b. [b]) t @ utf8_chars r"
  using assms by (simp add: utf8_chars_append utf8_chars_ascii number_token_def)

lemma first_written:
  assumes "readable j" "starts_char r"
  shows "\<exists>b cs. utf8_chars (to_json_string j @ r) = [b] # cs \<and> \<not> is_whitespace [b] \<and> b \<noteq> CHR '']''"
proof (cases j)
  case (J_Object flds)
  then show ?thesis using starts_member [of flds r] by simp
next
  case (J_Array items)
  then show ?thesis using starts_items [of items r] assms by (simp add: list_all_iff)
next
  case (J_Str s)
  then show ?thesis using utf8_chars_written_string [of s r] assms by simp
next
  case (J_Num n raw)
  then have "number_token (to_json_string j) j" using assms by simp
  then show ?thesis
    using utf8_chars_number [of "to_json_string j" j r] assms
    by (cases "to_json_string j") (auto simp: number_token_def is_ascii_digit_def is_whitespace_byte)
qed (use assms in \<open>auto simp: show_bool_def is_continuation_def\<close>)

lemma parse_value_object:
  assumes reads: "\<forall>(k, v)\<in>set flds. utf8_ok k \<and> reads (parse_value False left) v \<and> readable v"
    and r: "starts_char r"
  shows "parse_value False (Suc left) (utf8_chars (to_json_string (J_Object flds) @ r)) =
    Inr (J_Object flds, utf8_chars r)"
proof (cases flds)
  case Nil
  then show ?thesis
    using r by (simp add: parse_value.simps [of False "Suc left"] parse_object_body_def expect_def)
next
  case (Cons m ms)
  define body where "body = str_join '','' (map member_text flds) @ CHR 0x7D # r"
  obtain k v where m: "m = (k, v)" by (cases m)
  have "body = write_escaped_string k @ (drop (length (write_escaped_string k)) body)"
    using Cons m by (cases ms) (simp_all add: body_def str_join_Cons)
  moreover have "utf8_ok k"
    using reads Cons m by simp
  ultimately obtain rest where rest: "utf8_chars body = [CHR 0x22] # rest"
    using utf8_chars_written_string by metis
  have start: "starts_char body"
    unfolding body_def by (rule starts_member)
  have members: "parse_object_members (parse_value False left) (utf8_chars body) [] = Inr (J_Object flds, utf8_chars r)"
    using parse_object_members_written [OF parse_value_shrinking r, of m ms "False" left "[]"] reads Cons
    by (simp add: body_def)
  have "to_json_string (J_Object flds) @ r = CHR 0x7B # body"
    by (simp add: body_def)
  then show ?thesis
    using start members
    by (simp add: parse_value.simps [of False "Suc left"] parse_object_body_def expect_def rest)
qed

lemma parse_value_array:
  assumes reads: "\<forall>v\<in>set items. reads (parse_value False left) v \<and> readable v" and r: "starts_char r"
  shows "parse_value False (Suc left) (utf8_chars (to_json_string (J_Array items) @ r)) =
    Inr (J_Array items, utf8_chars r)"
proof (cases items)
  case Nil
  then show ?thesis
    using r by (simp add: parse_value.simps [of False "Suc left"] parse_array_body_def expect_def)
next
  case (Cons x xs)
  define body where "body = str_join '','' (map to_json_string items) @ CHR '']'' # r"
  have start: "starts_char body"
    unfolding body_def using reads by (intro starts_items) blast
  have items: "parse_array_items (parse_value False left) (utf8_chars body) [] = Inr (J_Array items, utf8_chars r)"
    using parse_array_items_written [OF parse_value_shrinking _ r, of x xs False left "[]"] reads Cons
    by (simp add: body_def)
  have "\<exists>b cs. utf8_chars body = [b] # cs \<and> \<not> is_whitespace [b] \<and> b \<noteq> CHR '']''"
    using reads Cons starts_items [of xs r] first_written [of x "CHR '']'' # r"]
      first_written [of x "CHR '','' # str_join '','' (map to_json_string xs) @ CHR '']'' # r"]
    by (cases xs) (simp_all add: body_def str_join_Cons)
  then obtain b cs where first: "utf8_chars body = [b] # cs" "\<not> is_whitespace [b]" "b \<noteq> CHR '']''"
    by blast
  have "to_json_string (J_Array items) @ r = CHR ''['' # body"
    by (simp add: body_def)
  then show ?thesis
    using start items first by (simp add: parse_value.simps [of False "Suc left"] parse_array_body_def expect_def)
qed

lemma parse_value_scalar:
  assumes r: "starts_char r" "delimited (utf8_chars r)" and ok: "readable j" "json_depth j = 0"
  shows "parse_value False levels (utf8_chars (to_json_string j @ r)) = Inr (j, utf8_chars r)"
proof (cases j)
  case (J_Str s)
  with ok have s: "utf8_ok s" by simp
  show ?thesis
    using parse_string_written [OF s r(1)] utf8_chars_written_string [OF s, of r] J_Str
    by (simp add: parse_value.simps)
next
  case (J_Num n raw)
  let ?t = "to_json_string j"
  have t: "number_token ?t j" using ok J_Num by simp
  from utf8_chars_number [OF this r(1)] have cs: "utf8_chars (?t @ r) = map (\<lambda>b. [b]) ?t @ utf8_chars r" .
  have num: "parse_number False (utf8_chars (?t @ r)) = Inr (j, utf8_chars r)"
    using t number_text_delimited [OF r(2), of "map (\<lambda>b. [b]) ?t" ?t "[]"]
    by (simp add: parse_number_def number_token_def cs)
  obtain b bs where b: "?t = b # bs" "b = CHR ''-'' \<or> is_ascii_digit b"
    using t by (cases ?t) (auto simp: number_token_def)
  have "[b] \<notin> {[CHR 0x7B], ''['', [CHR 0x22], ''t'', ''f'', ''n''}" "\<not> is_whitespace [b]" "[b] = ''-'' \<or> is_digit_char [b]"
    using b(2) by (auto simp: is_ascii_digit_def is_whitespace_byte is_digit_char_def)
  then show ?thesis
    using num cs b(1) by (simp add: parse_value.simps)
next
  case (J_Bool b)
  then show ?thesis
    using r by (cases b) (simp_all add: show_bool_def parse_value.simps parse_bool_def is_continuation_def)
next
  case J_Null
  then show ?thesis
    using r by (simp add: parse_value.simps parse_null_def is_continuation_def)
qed (use ok in simp_all)

lemma parse_value_written:
  "readable j \<Longrightarrow> json_depth j \<le> levels \<Longrightarrow> reads (parse_value False levels) j"
proof (induction "size j" arbitrary: j levels rule: less_induct)
  case less
  have children: "reads (parse_value False left) v \<and> readable v"
    if "size v < size j" "readable v" "json_depth v \<le> left" for v left
    using less.hyps that by simp
  consider (obj) flds where "j = J_Object flds" | (arr) items where "j = J_Array items" | (scalar) "json_depth j = 0"
    by (cases j) simp_all
  then show ?case
  proof cases
    case obj
    obtain left where left: "levels = Suc left" "\<forall>(k, v)\<in>set flds. json_depth v \<le> left"
      using less.prems obj by (cases levels) (auto simp: foldr_max_le case_prod_unfold)
    have "\<forall>(k, v)\<in>set flds. utf8_ok k \<and> reads (parse_value False left) v \<and> readable v"
      using less.prems left(2) obj children [of _ left] size_json_entry
      by (fastforce simp: list_all_iff size_prod_simp [abs_def])
    then show ?thesis
      using parse_value_object left(1) obj by (simp add: reads_def)
  next
    case arr
    obtain left where left: "levels = Suc left" "\<forall>v\<in>set items. json_depth v \<le> left"
      using less.prems arr by (cases levels) (auto simp: foldr_max_le)
    have "\<forall>v\<in>set items. reads (parse_value False left) v \<and> readable v"
      using less.prems left(2) arr children [of _ left] size_json_in_array
      by (fastforce simp: list_all_iff)
    then show ?thesis
      using parse_value_array left(1) arr by (simp add: reads_def)
  next
    case scalar
    then show ?thesis
      using parse_value_scalar less.prems by (simp add: reads_def)
  qed
qed

section \<open>The round trip\<close>

lemma json_parse_written:
  assumes "readable j" "json_depth j \<le> MAX_DEPTH"
  shows "json_parse (to_json_string j) = Inr j"
  using parse_value_written [OF assms]
  by (simp add: json_parse_def parse_with_def reads_def) (metis append_Nil2 delimited_simps(1) rbind_simps(2) split_conv starts_char_simps(1) utf8_chars.simps(1))

text \<open>
  C10: the parser reads back what the writer prints. For every value whose strings are valid UTF-8,
  whose numbers print as one number token for the same number, and which nests at most 128
  levels, \<open>Json::parse\<close> of \<open>to_json_string\<close> is that value.
\<close>

theorem json_roundtrip:
  assumes "readable j" "json_depth j \<le> MAX_DEPTH"
  shows "json_parse (to_json_string j) = Inr j"
  using assms by (rule json_parse_written)

definition sample_document :: json where
  "sample_document =
     J_Object [(''name'', J_Str [CHR ''a'', CHR 0x22, CHR 0x0A, CHR 0x01, CHR 0xC3, CHR 0xA9]),
       (''sizes'', J_Array [J_Num (f64_of_int 42) None, J_Num (f64_of_int (-7)) None, J_Array []]),
       (''done'', J_Bool True), (''next'', J_Null)]"

theorem json_roundtrip_witness:
  "readable sample_document \<and> json_depth sample_document \<le> MAX_DEPTH \<and>
   json_parse (to_json_string sample_document) = Inr sample_document"
proof -
  have "readable sample_document" by code_simp
  moreover have "json_depth sample_document \<le> MAX_DEPTH" by code_simp
  ultimately show ?thesis using json_roundtrip by blast
qed

end
