(* ===== verification/Collecting.thy ===== *)
theory Collecting
  imports Refusals
begin

text \<open>
  \<open>rust/src/kernel/collecting.rs\<close>: refusals raised at once, or collected within a stage by a dry
  run. The thread-local \<open>COLLECTED\<close> is a state threaded through every computation that may
  refuse: \<open>None\<close> when no collector is bound (a real dispatch), the refusals kept so far otherwise.
\<close>

named_theorems staged_simps \<open>unfolding of staged computations\<close>

record detail =
  dt_attribute :: "string option"
  dt_path :: "string option"
  dt_rule :: "string option"

definition default_detail :: detail where
  "default_detail = \<lparr>dt_attribute = None, dt_path = None, dt_rule = None\<rparr>"

definition detail_attribute :: "string \<Rightarrow> detail" where
  "detail_attribute name = \<lparr>dt_attribute = Some name, dt_path = Some (''/'' @ name), dt_rule = None\<rparr>"

definition detail_rule :: "string \<Rightarrow> detail" where
  "detail_rule description = default_detail\<lparr>dt_rule := Some description\<rparr>"

record collected =
  co_refusal :: refusal
  co_detail :: detail

type_synonym collector = "collected list option"

text \<open>A computation that may refuse and may collect.\<close>

type_synonym 'a staged = "collector \<Rightarrow> 'a res \<times> collector"

definition sret :: "'a \<Rightarrow> 'a staged" where
  "sret a c = (Inr a, c)"

definition lift :: "'a res \<Rightarrow> 'a staged" where
  "lift m c = (m, c)"

definition sbind :: "'a staged \<Rightarrow> ('a \<Rightarrow> 'b staged) \<Rightarrow> 'b staged" where
  "sbind m f c = (case m c of (Inl e, c') \<Rightarrow> (Inl e, c') | (Inr a, c') \<Rightarrow> f a c')"

lemma sbind_simps [simp, staged_simps]:
  "sbind (lift m) f c = (case m of Inl e \<Rightarrow> (Inl e, c) | Inr a \<Rightarrow> f a c)"
  "sbind (sret a) f c = f a c"
  by (simp_all add: sbind_def lift_def sret_def)

lemma sret_lift_simps [simp, staged_simps]:
  "sret a c = (Inr a, c)"
  "lift m c = (m, c)"
  by (simp_all add: sret_def lift_def)

lemma sbind_assoc: "sbind (sbind m f) g = sbind m (\<lambda>a. sbind (f a) g)"
  by (simp add: sbind_def fun_eq_iff split: prod.split sum.split)

lemma sbind_sret [simp]: "sbind (sret a) f = f a"
  by (simp add: sbind_def sret_def fun_eq_iff)

lemma sbind_lift_Inr [simp]: "sbind (lift (Inr a)) f = f a"
  by (simp add: sbind_def lift_def fun_eq_iff)

lemma lift_Inr: "lift (Inr a) = sret a"
  by (simp add: lift_def sret_def fun_eq_iff)

section \<open>Operations\<close>

definition refuse_with :: "refusal \<Rightarrow> detail \<Rightarrow> unit staged" where
  "refuse_with r d c =
     (case c of
        Some kept \<Rightarrow> (Inr (), Some (kept @ [\<lparr>co_refusal = r, co_detail = d\<rparr>]))
      | None \<Rightarrow> (Inl r, None))"

definition refuse :: "refusal \<Rightarrow> unit staged" where
  "refuse r = refuse_with r default_detail"

definition collecting :: "'a staged \<Rightarrow> 'a res \<times> collected list" where
  "collecting body =
     (case body (Some []) of (r, c) \<Rightarrow> (r, (case c of None \<Rightarrow> [] | Some kept \<Rightarrow> kept)))"

fun refuse_names :: "(string list \<Rightarrow> refusal) \<Rightarrow> string list \<Rightarrow> unit staged" where
  "refuse_names mk [] = sret ()"
| "refuse_names mk (n # ns) = sbind (refuse_with (mk [n]) (detail_attribute n)) (\<lambda>_. refuse_names mk ns)"

definition refuse_each :: "string list \<Rightarrow> (string list \<Rightarrow> refusal) \<Rightarrow> unit staged" where
  "refuse_each names mk c =
     (case c of None \<Rightarrow> (Inl (mk names), None) | Some _ \<Rightarrow> refuse_names mk names c)"

definition mark :: "collector \<Rightarrow> nat" where
  "mark c = (case c of None \<Rightarrow> 0 | Some kept \<Rightarrow> length kept)"

definition settle :: "nat \<Rightarrow> unit staged" where
  "settle m c =
     (case c of
        Some kept \<Rightarrow> (if m < length kept then (Inl (co_refusal (kept ! m)), c) else (Inr (), c))
      | None \<Rightarrow> (Inr (), c))"

section \<open>A stage of rules\<close>

text \<open>
  The shape every rule stage of the dispatch loop has: each rule is evaluated, a rule that does
  not hold is refused (collected or raised), and the stage is settled at its end. A rule whose
  evaluation faults ends the stage at once.
\<close>

fun check_rules :: "('x \<Rightarrow> bool res) \<Rightarrow> ('x \<Rightarrow> refusal \<times> detail) \<Rightarrow> 'x list \<Rightarrow> unit staged" where
  "check_rules holds refusal [] = sret ()"
| "check_rules holds refusal (x # xs) =
     sbind (lift (holds x)) (\<lambda>ok.
       sbind (if ok then sret () else refuse_with (fst (refusal x)) (snd (refusal x))) (\<lambda>_.
         check_rules holds refusal xs))"

definition staged_rules :: "('x \<Rightarrow> bool res) \<Rightarrow> ('x \<Rightarrow> refusal \<times> detail) \<Rightarrow> 'x list \<Rightarrow> unit staged" where
  "staged_rules holds refusal rules c =
     sbind (check_rules holds refusal rules) (\<lambda>_. settle (mark c)) c"

text \<open>With no collector bound, a stage refuses with its first failing rule.\<close>

fun first_failing :: "('x \<Rightarrow> bool res) \<Rightarrow> ('x \<Rightarrow> refusal \<times> detail) \<Rightarrow> 'x list \<Rightarrow> unit res" where
  "first_failing holds refusal [] = Inr ()"
| "first_failing holds refusal (x # xs) =
     rbind (holds x) (\<lambda>ok. if ok then first_failing holds refusal xs else Inl (fst (refusal x)))"

lemma check_rules_None [simp]:
  "check_rules holds refusal rules None = (first_failing holds refusal rules, None)"
  by (induction rules) (simp_all add: refuse_with_def sbind_def split: sum.split)

lemma settle_None [simp]: "settle m None = (Inr (), None)"
  by (simp add: settle_def)

lemma staged_rules_None [simp]:
  "staged_rules holds refusal rules None = (first_failing holds refusal rules, None)"
  by (simp add: staged_rules_def sbind_def split: sum.split)

lemma first_failing_Inr:
  "first_failing holds refusal rules = Inr () \<longleftrightarrow> (\<forall>x\<in>set rules. holds x = Inr True)"
  by (induction rules) (auto split: if_splits)

text \<open>What a collector holds after a stage: what it held, then one refusal per failing rule.\<close>

definition failing :: "('x \<Rightarrow> bool res) \<Rightarrow> ('x \<Rightarrow> refusal \<times> detail) \<Rightarrow> 'x list \<Rightarrow> collected list" where
  "failing holds refusal rules =
     map (\<lambda>x. \<lparr>co_refusal = fst (refusal x), co_detail = snd (refusal x)\<rparr>)
       (filter (\<lambda>x. holds x = Inr False) rules)"

lemma check_rules_Some:
  assumes "\<forall>x\<in>set rules. \<exists>b. holds x = Inr b"
  shows "check_rules holds refusal rules (Some kept) = (Inr (), Some (kept @ failing holds refusal rules))"
  using assms
proof (induction rules arbitrary: kept)
  case (Cons x xs)
  then obtain b where "holds x = Inr b" by auto
  with Cons show ?case
    by (cases b) (simp_all add: refuse_with_def sbind_def failing_def)
qed (simp add: failing_def)

text \<open>A collector stays bound or unbound.\<close>

lemma check_rules_bound: "(snd (check_rules holds refusal rules c) = None) \<longleftrightarrow> c = None"
  by (induction rules arbitrary: c) (auto simp: refuse_with_def sbind_def split: sum.split option.split)

lemma first_failing_head:
  assumes "\<forall>x\<in>set rules. \<exists>b. holds x = Inr b"
  shows "first_failing holds refusal rules =
    (case failing holds refusal rules of [] \<Rightarrow> Inr () | k # _ \<Rightarrow> Inl (co_refusal k))"
  using assms
proof (induction rules)
  case (Cons x xs)
  then obtain b where "holds x = Inr b" by auto
  with Cons show ?case
    by (cases b) (simp_all add: failing_def)
qed (simp add: failing_def)

text \<open>When no rule of a stage faults, a dry run keeps the refusals of its failing rules, in order.\<close>

lemma stage_collects_failing:
  assumes "\<forall>x\<in>set rules. \<exists>b. holds x = Inr b"
  shows "staged_rules holds refusal rules (Some kept) =
    (first_failing holds refusal rules, Some (kept @ failing holds refusal rules))"
proof (cases "failing holds refusal rules")
  case Nil
  then show ?thesis
    using check_rules_Some [OF assms, of refusal kept] first_failing_head [OF assms, of refusal]
    by (simp add: staged_rules_def sbind_def settle_def mark_def)
next
  case (Cons k ks)
  then show ?thesis
    using check_rules_Some [OF assms, of refusal kept] first_failing_head [OF assms, of refusal]
    by (simp add: staged_rules_def sbind_def settle_def mark_def nth_append)
qed

section \<open>Dry runs and real runs\<close>

text \<open>
  What a real run raises, told from a dry run: the first refusal the dry run kept, or the dry run's own
  result when it kept none. A computation \<open>gathers\<close> when that holds whatever was collected before it, and it
  stops early only on a fault; it is \<open>conclusive\<close> when one that kept a refusal did not go on, and ended in the
  first it kept or in a fault. Both pass through composition, and settling turns the one into the other.
\<close>

definition raised :: "collected list \<Rightarrow> 'a res \<Rightarrow> 'a res" where
  "raised kept r = (case kept of [] \<Rightarrow> r | k # _ \<Rightarrow> Inl (co_refusal k))"

definition faulted :: "'a res \<Rightarrow> bool" where
  "faulted r \<longleftrightarrow> (\<exists>why. r = Inl (Fault why))"

definition gathers :: "'a staged \<Rightarrow> bool" where
  "gathers m \<longleftrightarrow> (\<forall>kept. \<exists>r more. m (Some kept) = (r, Some (kept @ more)) \<and> m None = (raised more r, None) \<and>
     (isl r \<longrightarrow> faulted r))"

definition conclusive :: "'a staged \<Rightarrow> bool" where
  "conclusive m \<longleftrightarrow> (\<forall>kept. \<exists>r more. m (Some kept) = (r, Some (kept @ more)) \<and> m None = (raised more r, None) \<and>
     (more = [] \<or> isl r \<and> (faulted r \<or> r = raised more r)))"

named_theorems dry_intros \<open>computations whose dry run tells the real run\<close>

lemma raised_simps [simp]: "raised [] r = r" "raised (k # kept) r = Inl (co_refusal k)"
  by (simp_all add: raised_def)

lemma raised_append: "raised (xs @ ys) r = raised xs (raised ys r)"
  by (cases xs) simp_all

lemma faulted_simps [simp]: "faulted (Inl e) \<longleftrightarrow> (\<exists>why. e = Fault why)" "\<not> faulted (Inr a)"
  by (simp_all add: faulted_def)

lemma gathersD: "gathers m \<Longrightarrow> \<exists>r more. m (Some kept) = (r, Some (kept @ more)) \<and> m None = (raised more r, None) \<and> (isl r \<longrightarrow> faulted r)"
  by (simp add: gathers_def)

lemma conclusiveD:
  "conclusive m \<Longrightarrow> \<exists>r more. m (Some kept) = (r, Some (kept @ more)) \<and> m None = (raised more r, None) \<and>
     (more = [] \<or> isl r \<and> (faulted r \<or> r = raised more r))"
  by (simp add: conclusive_def)

lemma conclusive_lift [dry_intros]: "conclusive (lift m)"
  by (simp add: conclusive_def)

lemma conclusive_sret [dry_intros]: "conclusive (sret a)"
  by (simp add: conclusive_def)

lemma gathers_sret [dry_intros]: "gathers (sret a)"
  by (simp add: gathers_def)

lemma gathers_lift: "(\<And>e. m = Inl e \<Longrightarrow> \<exists>why. e = Fault why) \<Longrightarrow> gathers (lift m)"
  by (cases m) (auto simp: gathers_def)

lemma gathers_refuse [dry_intros]: "gathers (refuse_with r d)"
  by (simp add: gathers_def refuse_with_def)

lemma gathers_bind [dry_intros]:
  assumes "gathers m" "\<And>a. gathers (f a)"
  shows "gathers (sbind m f)"
  unfolding gathers_def
proof
  fix kept
  from gathersD [OF assms(1)] obtain r more where
    m: "m (Some kept) = (r, Some (kept @ more))" "m None = (raised more r, None)" "isl r \<longrightarrow> faulted r" by blast
  show "\<exists>r more. sbind m f (Some kept) = (r, Some (kept @ more)) \<and> sbind m f None = (raised more r, None) \<and> (isl r \<longrightarrow> faulted r)"
  proof (cases r)
    case (Inl e)
    with m show ?thesis by (cases more) (auto simp: sbind_def)
  next
    case (Inr a)
    from gathersD [OF assms(2), of a] obtain r' more' where
      "f a (Some (kept @ more)) = (r', Some ((kept @ more) @ more'))" "f a None = (raised more' r', None)" "isl r' \<longrightarrow> faulted r'" by blast
    with m Inr show ?thesis
      by (cases more) (auto simp: sbind_def raised_append intro!: exI [of _ r'] exI [of _ "more @ more'"])
  qed
qed

lemma conclusive_bind [dry_intros]:
  assumes "conclusive m" "\<And>a. conclusive (f a)"
  shows "conclusive (sbind m f)"
  unfolding conclusive_def
proof
  fix kept
  from conclusiveD [OF assms(1)] obtain r more where
    m: "m (Some kept) = (r, Some (kept @ more))" "m None = (raised more r, None)"
      "more = [] \<or> isl r \<and> (faulted r \<or> r = raised more r)" by blast
  show "\<exists>r more. sbind m f (Some kept) = (r, Some (kept @ more)) \<and> sbind m f None = (raised more r, None) \<and>
      (more = [] \<or> isl r \<and> (faulted r \<or> r = raised more r))"
  proof (cases r)
    case (Inl e)
    with m show ?thesis by (cases more) (auto simp: sbind_def)
  next
    case (Inr a)
    with m conclusiveD [OF assms(2), of a kept] show ?thesis by (auto simp: sbind_def)
  qed
qed

lemma conclusive_if [dry_intros]: "(c \<Longrightarrow> conclusive m) \<Longrightarrow> (\<not> c \<Longrightarrow> conclusive m') \<Longrightarrow> conclusive (if c then m else m')"
  by simp

lemma gathers_if [dry_intros]: "(c \<Longrightarrow> gathers m) \<Longrightarrow> (\<not> c \<Longrightarrow> gathers m') \<Longrightarrow> gathers (if c then m else m')"
  by simp

lemma gathers_rules:
  assumes "\<And>x e. holds x = Inl e \<Longrightarrow> \<exists>why. e = Fault why"
  shows "gathers (check_rules holds refusal rules)"
proof (induction rules)
  case (Cons x rules)
  show ?case unfolding check_rules.simps by (intro gathers_lift dry_intros Cons assms)
qed (simp add: gathers_def)

text \<open>Settling a stage against the mark it started from leaves no collected refusal behind a success.\<close>

lemma conclusive_stage:
  assumes "gathers m"
  shows "conclusive (\<lambda>c. sbind m (\<lambda>_. settle (mark c)) c)"
  unfolding conclusive_def
proof
  fix kept
  from gathersD [OF assms] obtain r more where
    "m (Some kept) = (r, Some (kept @ more))" "m None = (raised more r, None)" "isl r \<longrightarrow> faulted r" by blast
  then show "\<exists>r more. sbind m (\<lambda>_. settle (mark (Some kept))) (Some kept) = (r, Some (kept @ more)) \<and>
      sbind m (\<lambda>_. settle (mark None)) None = (raised more r, None) \<and>
      (more = [] \<or> isl r \<and> (faulted r \<or> r = raised more r))"
    by (cases r; cases more) (auto simp: sbind_def settle_def mark_def nth_append)
qed

lemma conclusive_rules:
  assumes "\<And>x e. holds x = Inl e \<Longrightarrow> \<exists>why. e = Fault why"
  shows "conclusive (staged_rules holds refusal rules)"
  using conclusive_stage [OF gathers_rules [OF assms]] by (simp add: staged_rules_def [abs_def])

text \<open>
  Refusing every name of a list is the exception: a real run words one refusal for them all, a dry run one for each.
\<close>

lemma refuse_each_words_differ:
  "refuse_each (n # ns) mk None = (Inl (mk (n # ns)), None)"
  "refuse_each (n # ns) mk (Some kept) =
     (Inr (), Some (kept @ map (\<lambda>n. \<lparr>co_refusal = mk [n], co_detail = detail_attribute n\<rparr>) (n # ns)))"
proof -
  have "refuse_names mk names (Some kept) =
      (Inr (), Some (kept @ map (\<lambda>n. \<lparr>co_refusal = mk [n], co_detail = detail_attribute n\<rparr>) names))" for names kept
    by (induction names arbitrary: kept) (simp_all add: sbind_def refuse_with_def)
  then show "refuse_each (n # ns) mk (Some kept) =
      (Inr (), Some (kept @ map (\<lambda>n. \<lparr>co_refusal = mk [n], co_detail = detail_attribute n\<rparr>) (n # ns)))"
    unfolding refuse_each_def by (simp only: option.case)
qed (simp add: refuse_each_def)

end
