(* ===== verification/Rules.thy ===== *)
theory Rules
  imports Interpreter Collecting Json
begin

text \<open>
  The rule stages of \<open>rust/src/kernel/dispatch.rs\<close>: givens, lifecycle transitions, ensures and
  invariants, each read against a record through the expression interpreter. The regex engine the
  interpreter needs is the first argument of every definition that evaluates a rule.
\<close>

record given_spec =
  gs_description :: string
  gs_expr :: expr
  gs_corrects :: "string option"

record ensures_spec =
  es_description :: string
  es_expr :: expr

record invariant_spec =
  is_description :: string
  is_expr :: expr

datatype entity_invariants = Entity_Invariants
  (ei_name: string) (ei_list_field: string) (ei_specs: "invariant_spec list") (ei_nested: "entity_invariants list")

record invariant_set =
  iv_aggregate :: "invariant_spec list"
  iv_entities :: "entity_invariants list"

record transition_check =
  tc_field :: string
  tc_from_states :: "string list"

definition rule_holds :: "regex_engine \<Rightarrow> eval_ctx \<Rightarrow> expr \<Rightarrow> bool res" where
  "rule_holds engine ctx e = rbind (interpret_expr engine e ctx) (\<lambda>v. Inr (truthy v))"

definition refused_text :: "string \<Rightarrow> string \<Rightarrow> string" where
  "refused_text who what = who @ '' refused '' @ em_dash @ '' '' @ what"

section \<open>Loops\<close>

fun for_each :: "('x \<Rightarrow> unit staged) \<Rightarrow> 'x list \<Rightarrow> unit staged" where
  "for_each f [] = sret ()"
| "for_each f (x # xs) = sbind (f x) (\<lambda>_. for_each f xs)"

lemma for_each_cong [fundef_cong]:
  "xs = ys \<Longrightarrow> (\<And>x. x \<in> set ys \<Longrightarrow> f x = g x) \<Longrightarrow> for_each f xs = for_each g ys"
  by (induction ys arbitrary: xs) simp_all

lemma sbind_cong [fundef_cong]:
  "m = m' \<Longrightarrow> (\<And>a. f a = f' a) \<Longrightarrow> sbind m f = sbind m' f'"
  by (simp add: sbind_def fun_eq_iff split: prod.split sum.split)

section \<open>Invariants\<close>

text \<open>The elements of a list field that are objects; a scalar element is skipped.\<close>

definition nested_elements :: "field list \<Rightarrow> fielded list" where
  "nested_elements fs = List.map_filter (\<lambda>f. case f of FD_Nested obj \<Rightarrow> Some obj | FD_Value _ \<Rightarrow> None) fs"

definition invariant_refusal :: "string \<Rightarrow> invariant_spec \<Rightarrow> refusal \<times> detail" where
  "invariant_refusal name rule =
     (InvariantViolation (refused_text name (is_description rule)), detail_rule (is_description rule))"

fun enforce_entity_invariants :: "regex_engine \<Rightarrow> fielded \<Rightarrow> entity_invariants \<Rightarrow> unit staged" where
  "enforce_entity_invariants engine owner (Entity_Invariants name list_field specs nested) =
     (case fl_items owner list_field of
        None \<Rightarrow> sret ()
      | Some elements \<Rightarrow>
          for_each (\<lambda>element.
            sbind (check_rules
              (\<lambda>rule. rule_holds engine
                 \<lparr>ctx_args = with_parent no_fields owner, ctx_instance = element\<rparr> (is_expr rule))
              (invariant_refusal name) specs)
            (\<lambda>_. for_each (enforce_entity_invariants engine element) nested))
          (nested_elements elements))"

definition enforce_invariants :: "regex_engine \<Rightarrow> fielded \<Rightarrow> string \<Rightarrow> invariant_set \<Rightarrow> unit staged" where
  "enforce_invariants engine record aggregate_name invs c =
     sbind (check_rules
       (\<lambda>rule. rule_holds engine \<lparr>ctx_args = no_fields, ctx_instance = record\<rparr> (is_expr rule))
       (invariant_refusal aggregate_name) (iv_aggregate invs))
     (\<lambda>_. sbind (for_each (enforce_entity_invariants engine record) (iv_entities invs))
     (\<lambda>_. settle (mark c))) c"

section \<open>Givens\<close>

definition corrects_text :: "string \<Rightarrow> string \<Rightarrow> string \<Rightarrow> string \<Rightarrow> string" where
  "corrects_text command_name event_name aggregate_qualified_name key =
     refused_text command_name (''corrects '' @ event_name @ '', but '' @ aggregate_qualified_name @
       '' #'' @ key @ '' has never emitted it'')"

definition given_refusal :: "string \<Rightarrow> string \<Rightarrow> string \<Rightarrow> given_spec \<Rightarrow> refusal \<times> detail" where
  "given_refusal command_name aggregate_qualified_name key given =
     (case gs_corrects given of
        Some event_name \<Rightarrow>
          (NothingToCorrect (corrects_text command_name event_name aggregate_qualified_name key),
           detail_rule (gs_description given))
      | None \<Rightarrow>
          (GivenNotMet (refused_text command_name (gs_description given)), detail_rule (gs_description given)))"

definition enforce_givens ::
  "regex_engine \<Rightarrow> fielded \<Rightarrow> fielded \<Rightarrow> given_spec list \<Rightarrow> string \<Rightarrow> string \<Rightarrow> string \<Rightarrow> unit staged" where
  "enforce_givens engine record args givens command_name aggregate_qualified_name key =
     staged_rules
       (\<lambda>given. rule_holds engine \<lparr>ctx_args = args, ctx_instance = record\<rparr> (gs_expr given))
       (given_refusal command_name aggregate_qualified_name key) givens"

section \<open>Transitions\<close>

definition admissible_transition :: "fielded \<Rightarrow> transition_check option \<Rightarrow> string \<Rightarrow> unit res" where
  "admissible_transition instance_fields transition command_name =
     (case transition of
        None \<Rightarrow> Inr ()
      | Some check \<Rightarrow>
          (case fl_field instance_fields (tc_field check) of
             Some (FD_Value (V_Str current)) \<Rightarrow>
               if List.member (tc_from_states check) current then Inr ()
               else Inl (LifecycleRefused (LifecycleRefusedTransitionBlockedArgs_render command_name
                      (tc_field check) (debug_str current) (tc_from_states check)))
           | _ \<Rightarrow> Inl (TypeMismatch (command_name @ '': lifecycle field '' @ debug_str (tc_field check) @
                    '' missing or not a string '' @ em_dash @ '' a codegen bug''))))"

section \<open>Ensures\<close>

definition ensures_refusal :: "string \<Rightarrow> ensures_spec \<Rightarrow> refusal \<times> detail" where
  "ensures_refusal command_name rule =
     (EnsuresNotMet (refused_text command_name (es_description rule)), detail_rule (es_description rule))"

definition enforce_ensures ::
  "regex_engine \<Rightarrow> fielded \<Rightarrow> fielded \<Rightarrow> fielded \<Rightarrow> ensures_spec list \<Rightarrow> string \<Rightarrow> unit staged" where
  "enforce_ensures engine settled old args rules command_name =
     staged_rules
       (\<lambda>rule. rule_holds engine
          \<lparr>ctx_args = with_old (state_first args settled) old, ctx_instance = settled\<rparr> (es_expr rule))
       (ensures_refusal command_name) rules"

section \<open>What it means for a record to satisfy its invariants\<close>

fun entity_invariants_hold :: "regex_engine \<Rightarrow> fielded \<Rightarrow> entity_invariants \<Rightarrow> bool" where
  "entity_invariants_hold engine owner (Entity_Invariants name list_field specs nested) \<longleftrightarrow>
     (case fl_items owner list_field of
        None \<Rightarrow> True
      | Some elements \<Rightarrow>
          list_all (\<lambda>element.
            list_all (\<lambda>rule. rule_holds engine
              \<lparr>ctx_args = with_parent no_fields owner, ctx_instance = element\<rparr> (is_expr rule) = Inr True) specs \<and>
            list_all (entity_invariants_hold engine element) nested) (nested_elements elements))"

definition invariants_hold :: "regex_engine \<Rightarrow> fielded \<Rightarrow> invariant_set \<Rightarrow> bool" where
  "invariants_hold engine record invs \<longleftrightarrow>
     list_all (\<lambda>rule. rule_holds engine \<lparr>ctx_args = no_fields, ctx_instance = record\<rparr> (is_expr rule) = Inr True)
       (iv_aggregate invs) \<and>
     list_all (entity_invariants_hold engine record) (iv_entities invs)"

lemma for_each_None:
  assumes "\<And>x. x \<in> set xs \<Longrightarrow> snd (f x None) = None"
  shows "snd (for_each f xs None) = None \<and>
    (fst (for_each f xs None) = Inr () \<longleftrightarrow> (\<forall>x\<in>set xs. fst (f x None) = Inr ()))"
  using assms
proof (induction xs)
  case (Cons x xs)
  obtain m where "f x None = (m, None)"
    using Cons.prems [of x] by (metis list.set_intros(1) prod.collapse)
  with Cons show ?case
    by (cases m) (simp_all add: sbind_def)
qed simp

lemma enforce_entity_invariants_None:
  "snd (enforce_entity_invariants engine owner entity None) = None \<and>
   (fst (enforce_entity_invariants engine owner entity None) = Inr () \<longleftrightarrow>
    entity_invariants_hold engine owner entity)"
proof (induction engine owner entity rule: enforce_entity_invariants.induct)
  case (1 engine owner name list_field specs nested)
  show ?case
  proof (cases "fl_items owner list_field")
    case (Some elements)
    let ?rule = "\<lambda>element rule. rule_holds engine
      \<lparr>ctx_args = with_parent no_fields owner, ctx_instance = element\<rparr> (is_expr rule)"
    let ?one = "\<lambda>element. sbind (check_rules (?rule element) (invariant_refusal name) specs)
      (\<lambda>_. for_each (enforce_entity_invariants engine element) nested)"
    have one: "snd (?one element None) = None \<and>
        (fst (?one element None) = Inr () \<longleftrightarrow>
         list_all (\<lambda>rule. ?rule element rule = Inr True) specs \<and>
         list_all (entity_invariants_hold engine element) nested)"
      if el: "element \<in> set (nested_elements elements)" for element
    proof -
      have "snd (for_each (enforce_entity_invariants engine element) nested None) = None \<and>
          (fst (for_each (enforce_entity_invariants engine element) nested None) = Inr () \<longleftrightarrow>
           (\<forall>x\<in>set nested. fst (enforce_entity_invariants engine element x None) = Inr ()))"
        by (rule for_each_None) (use "1.IH" [OF Some el] in blast)
      then show ?thesis
        using "1.IH" [OF Some el] first_failing_Inr [of "?rule element" "invariant_refusal name" specs]
        by (cases "first_failing (?rule element) (invariant_refusal name) specs")
          (auto simp: sbind_def list_all_iff)
    qed
    have "snd (for_each ?one (nested_elements elements) None) = None \<and>
        (fst (for_each ?one (nested_elements elements) None) = Inr () \<longleftrightarrow>
         (\<forall>x\<in>set (nested_elements elements). fst (?one x None) = Inr ()))"
      by (rule for_each_None) (use one in blast)
    then show ?thesis
      using one Some by (auto simp: list_all_iff)
  qed simp
qed

text \<open>With no collector bound, the invariant stage succeeds exactly when every invariant holds.\<close>

lemma enforce_invariants_None:
  "snd (enforce_invariants engine record name invs None) = None \<and>
   (fst (enforce_invariants engine record name invs None) = Inr () \<longleftrightarrow> invariants_hold engine record invs)"
proof -
  let ?rule = "\<lambda>rule. rule_holds engine \<lparr>ctx_args = no_fields, ctx_instance = record\<rparr> (is_expr rule)"
  have "snd (for_each (enforce_entity_invariants engine record) (iv_entities invs) None) = None \<and>
      (fst (for_each (enforce_entity_invariants engine record) (iv_entities invs) None) = Inr () \<longleftrightarrow>
       (\<forall>x\<in>set (iv_entities invs). fst (enforce_entity_invariants engine record x None) = Inr ()))"
    by (rule for_each_None) (use enforce_entity_invariants_None in blast)
  then show ?thesis
    using enforce_entity_invariants_None [of engine "record"]
      first_failing_Inr [of ?rule "invariant_refusal name" "iv_aggregate invs"]
    by (cases "first_failing ?rule (invariant_refusal name) (iv_aggregate invs)")
      (auto simp: enforce_invariants_def invariants_hold_def sbind_def list_all_iff split: sum.splits prod.splits)
qed

end
