(* ===== verification/Store.thy ===== *)
theory Store
  imports Json
begin

text \<open>
  \<open>rust/src/kernel/repository.rs\<close>, the storage half: the \<open>Repository\<close> trait as a locale, the
  in-memory implementation (a \<open>BTreeMap\<close> of slots, each a record with its cached rendering), the
  reference check and the row shape. An implementation of the trait is passed to the functions
  that are generic over it as the dictionary \<open>repo_ops\<close>.
\<close>

record ('s, 'r) repo_ops =
  repo_find :: "'s \<Rightarrow> string \<Rightarrow> 'r option"
  repo_save :: "'s \<Rightarrow> string \<Rightarrow> 'r \<Rightarrow> 's"

section \<open>What a repository promises\<close>

locale repository =
  fixes find :: "'s \<Rightarrow> string \<Rightarrow> 'r option"
    and save :: "'s \<Rightarrow> string \<Rightarrow> 'r \<Rightarrow> 's"
    and all :: "'s \<Rightarrow> 'r list"
    and count :: "'s \<Rightarrow> nat"
    and ids :: "'s \<Rightarrow> string list"
    and wf :: "'s \<Rightarrow> bool"
  assumes wf_save: "wf s \<Longrightarrow> wf (save s key r)"
    and find_save: "wf s \<Longrightarrow> find (save s key r) key' = (if key' = key then Some r else find s key')"
    and ids_find: "wf s \<Longrightarrow> set (ids s) = {key. find s key \<noteq> None}"
    and ids_distinct: "wf s \<Longrightarrow> distinct (ids s)"
    and all_records: "wf s \<Longrightarrow> map Some (all s) = map (find s) (ids s)"
    and count_ids: "wf s \<Longrightarrow> count s = length (ids s)"
begin

lemma find_saved: "wf s \<Longrightarrow> find (save s key r) key = Some r"
  by (simp add: find_save)

lemma find_other: "wf s \<Longrightarrow> key' \<noteq> key \<Longrightarrow> find (save s key r) key' = find s key'"
  by (simp add: find_save)

lemma save_last_wins: "wf s \<Longrightarrow> find (save (save s key r) key r') = find (save s key r')"
  by (rule ext) (simp add: find_save wf_save)

lemma save_commutes:
  "wf s \<Longrightarrow> key \<noteq> key' \<Longrightarrow> find (save (save s key r) key' r') = find (save (save s key' r') key r)"
  by (rule ext) (simp add: find_save wf_save)

lemma count_save:
  assumes "wf s"
  shows "count (save s key r) = (if find s key = None then Suc (count s) else count s)"
proof -
  have keys: "set (ids (save s key r)) = insert key (set (ids s))"
    using assms by (auto simp: ids_find wf_save find_save)
  have card: "count s' = card (set (ids s'))" if "wf s'" for s'
    using that by (simp add: count_ids distinct_card ids_distinct)
  have "key \<in> set (ids s) \<longleftrightarrow> find s key \<noteq> None"
    using ids_find [OF assms] by simp
  then show ?thesis
    using card [OF assms] card [OF wf_save [OF assms]] keys by (simp add: insert_absorb card_insert_if)
qed

lemma all_after_save: "wf s \<Longrightarrow> r \<in> set (all (save s key r))"
proof -
  assume wf: "wf s"
  have "key \<in> set (ids (save s key r))"
    using wf by (simp add: ids_find wf_save find_save)
  then have "Some r \<in> set (map (find (save s key r)) (ids (save s key r)))"
    using find_saved [OF wf, of key r] by (metis image_eqI list.set_map)
  then show ?thesis
    using all_records [OF wf_save [OF wf], of key r, symmetric] by auto
qed

end

section \<open>The in-memory repository\<close>

record 'r slot =
  sl_record :: 'r
  sl_json :: "json option"

text \<open>The \<open>BTreeMap\<close>, as its entries in key order.\<close>

type_synonym 'r memory = "(string \<times> 'r slot) list"

fun btree_insert :: "'k :: linorder \<Rightarrow> 'v \<Rightarrow> ('k \<times> 'v) list \<Rightarrow> ('k \<times> 'v) list" where
  "btree_insert k v [] = [(k, v)]"
| "btree_insert k v ((l, w) # rest) =
     (if k < l then (k, v) # (l, w) # rest
      else if k = l then (k, v) # rest
      else (l, w) # btree_insert k v rest)"

definition mem_find :: "'r memory \<Rightarrow> string \<Rightarrow> 'r option" where
  "mem_find repo key = map_option sl_record (map_of repo key)"

definition mem_save :: "'r memory \<Rightarrow> string \<Rightarrow> 'r \<Rightarrow> 'r memory" where
  "mem_save repo key r = btree_insert key \<lparr>sl_record = r, sl_json = None\<rparr> repo"

definition mem_all :: "'r memory \<Rightarrow> 'r list" where
  "mem_all repo = map (\<lambda>(key, slot). sl_record slot) repo"

definition mem_count :: "'r memory \<Rightarrow> nat" where
  "mem_count repo = length repo"

definition mem_entries :: "'r memory \<Rightarrow> (string \<times> 'r) list" where
  "mem_entries repo = map (\<lambda>(key, slot). (key, sl_record slot)) repo"

text \<open>\<open>get_or_init\<close> on the slot's cell: the rendering and the slot that now holds it.\<close>

definition slot_json :: "('r \<Rightarrow> json) \<Rightarrow> 'r slot \<Rightarrow> json \<times> 'r slot" where
  "slot_json to_json slot =
     (case sl_json slot of
        Some j \<Rightarrow> (j, slot)
      | None \<Rightarrow> let j = to_json (sl_record slot) in (j, slot\<lparr>sl_json := Some j\<rparr>))"

definition mem_json_entries :: "('r \<Rightarrow> json) \<Rightarrow> 'r memory \<Rightarrow> (string \<times> json) list \<times> 'r memory" where
  "mem_json_entries to_json repo =
     (map (\<lambda>(key, slot). (key, fst (slot_json to_json slot))) repo,
      map (\<lambda>(key, slot). (key, snd (slot_json to_json slot))) repo)"

definition mem_ops :: "('r memory, 'r) repo_ops" where
  "mem_ops = \<lparr>repo_find = mem_find, repo_save = mem_save\<rparr>"

lemma mem_ops_simps [simp]: "repo_find mem_ops = mem_find" "repo_save mem_ops = mem_save"
  by (simp_all add: mem_ops_def)

text \<open>Keys ascend, and a cached rendering is the rendering of the record beside it.\<close>

definition mem_sorted :: "('k :: linorder \<times> 'v) list \<Rightarrow> bool" where
  "mem_sorted repo \<longleftrightarrow> sorted (map fst repo) \<and> distinct (map fst repo)"

definition mem_cached :: "('r \<Rightarrow> json) \<Rightarrow> 'r memory \<Rightarrow> bool" where
  "mem_cached to_json repo \<longleftrightarrow>
     list_all (\<lambda>(key, slot). case sl_json slot of None \<Rightarrow> True | Some j \<Rightarrow> j = to_json (sl_record slot)) repo"

lemma btree_insert_keys: "set (map fst (btree_insert k v repo)) = insert k (set (map fst repo))"
  by (induction k v repo rule: btree_insert.induct) (simp_all add: insert_commute)

lemma btree_insert_sorted: "mem_sorted repo \<Longrightarrow> mem_sorted (btree_insert k v repo)"
proof (induction repo)
  case (Cons p rest)
  then show ?case
    using btree_insert_keys [of k v rest]
    by (cases p) (fastforce simp: mem_sorted_def)
qed (simp add: mem_sorted_def)

lemma map_of_btree_insert:
  "mem_sorted repo \<Longrightarrow> map_of (btree_insert k v repo) = (map_of repo)(k \<mapsto> v)"
proof (induction repo)
  case (Cons p rest)
  moreover have "map_of rest k = None" if "k < fst p"
    using that Cons.prems by (force simp: mem_sorted_def map_of_eq_None_iff)
  moreover have "mem_sorted rest"
    using Cons.prems by (cases p) (simp add: mem_sorted_def)
  ultimately show ?case
    by (cases p) (auto simp: fun_eq_iff mem_sorted_def map_of_eq_None_iff)
qed simp

interpretation mem: repository mem_find mem_save mem_all mem_count "map fst" mem_sorted
proof
  fix s :: "'r memory" and key key' r
  assume wf: "mem_sorted s"
  show "mem_sorted (mem_save s key r)"
    using wf by (simp add: mem_save_def btree_insert_sorted)
  show "mem_find (mem_save s key r) key' = (if key' = key then Some r else mem_find s key')"
    using wf by (simp add: mem_find_def mem_save_def map_of_btree_insert)
  show "set (map fst s) = {key. mem_find s key \<noteq> None}"
    by (simp add: mem_find_def dom_map_of_conv_image_fst [symmetric] dom_def)
  show "distinct (map fst s)"
    using wf by (simp add: mem_sorted_def)
  show "map Some (mem_all s) = map (mem_find s) (map fst s)"
    using wf by (auto simp: mem_all_def mem_find_def mem_sorted_def)
  show "mem_count s = length (map fst s)"
    by (simp add: mem_count_def)
qed

section \<open>The rendering cache\<close>

lemma slot_json_fst:
  "(case sl_json slot of None \<Rightarrow> True | Some j \<Rightarrow> j = to_json (sl_record slot)) \<Longrightarrow>
   fst (slot_json to_json slot) = to_json (sl_record slot)"
  by (simp add: slot_json_def Let_def split: option.splits)

lemma slot_json_snd [simp]: "sl_record (snd (slot_json to_json slot)) = sl_record slot"
  by (simp add: slot_json_def Let_def split: option.splits)

lemma scan_result:
  "mem_cached to_json repo \<Longrightarrow>
   fst (mem_json_entries to_json repo) = map (\<lambda>(key, r). (key, to_json r)) (mem_entries repo)"
  by (auto simp: mem_json_entries_def mem_entries_def mem_cached_def list_all_iff intro!: slot_json_fst)

lemma scan_keeps:
  "map fst (snd (mem_json_entries to_json repo)) = map fst repo"
  "mem_find (snd (mem_json_entries to_json repo)) = mem_find repo"
  "mem_cached to_json repo \<Longrightarrow> mem_cached to_json (snd (mem_json_entries to_json repo))"
proof -
  show "map fst (snd (mem_json_entries to_json repo)) = map fst repo"
    by (auto simp: mem_json_entries_def)
  show "mem_find (snd (mem_json_entries to_json repo)) = mem_find repo"
    by (rule ext, induction repo) (auto simp: mem_json_entries_def mem_find_def)
  show "mem_cached to_json (snd (mem_json_entries to_json repo))" if "mem_cached to_json repo"
    using that
    by (induction repo) (auto simp: mem_json_entries_def mem_cached_def slot_json_def Let_def split: option.splits)
qed

lemma save_cached: "mem_cached to_json repo \<Longrightarrow> mem_cached to_json (mem_save repo key r)"
  unfolding mem_save_def mem_cached_def
  by (induction repo) auto

text \<open>A run of the in-memory repository: records are saved, and scans fill the caches.\<close>

datatype 'r memory_op = Op_Save string 'r | Op_Scan

fun memory_step :: "('r \<Rightarrow> json) \<Rightarrow> 'r memory_op \<Rightarrow> 'r memory \<Rightarrow> 'r memory" where
  "memory_step to_json (Op_Save key r) repo = mem_save repo key r"
| "memory_step to_json Op_Scan repo = snd (mem_json_entries to_json repo)"

fun map_step :: "'r memory_op \<Rightarrow> (string \<rightharpoonup> 'r) \<Rightarrow> (string \<rightharpoonup> 'r)" where
  "map_step (Op_Save key r) m = m(key \<mapsto> r)"
| "map_step Op_Scan m = m"

lemma memory_step_simulates:
  assumes "mem_sorted repo" "mem_cached to_json repo"
  shows "mem_sorted (memory_step to_json op repo) \<and> mem_cached to_json (memory_step to_json op repo) \<and>
    mem_find (memory_step to_json op repo) = map_step op (mem_find repo)"
proof (cases op)
  case (Op_Save key r)
  then show ?thesis
    using assms by (simp add: fun_eq_iff mem.wf_save save_cached mem.find_save)
next
  case Op_Scan
  then show ?thesis
    using assms scan_keeps [where to_json = to_json and repo = repo] by (simp add: mem_sorted_def)
qed

lemma memory_run_simulates:
  assumes "mem_sorted repo" "mem_cached to_json repo"
  shows "mem_sorted (fold (memory_step to_json) ops repo) \<and> mem_cached to_json (fold (memory_step to_json) ops repo) \<and>
    mem_find (fold (memory_step to_json) ops repo) = fold map_step ops (mem_find repo)"
  using assms
proof (induction ops arbitrary: repo)
  case (Cons op ops)
  then show ?case
    using memory_step_simulates [OF Cons.prems, of op] by simp
qed simp

text \<open>
  C4: the in-memory repository is a map from ids to records. After any sequence of saves and scans
  from the empty store, a lookup answers what the map built by the same saves holds, the keys
  ascend, the number of records is the number of ids saved, and a scan yields exactly the
  rendering of every record in id order: a cached rendering never outlives its record.
\<close>

theorem memory_refines_map:
  "mem_find (fold (memory_step to_json) ops []) = fold map_step ops Map.empty \<and>
   mem_sorted (fold (memory_step to_json) ops []) \<and>
   mem_count (fold (memory_step to_json) ops []) = card (dom (fold map_step ops Map.empty)) \<and>
   fst (mem_json_entries to_json (fold (memory_step to_json) ops [])) =
     map (\<lambda>(key, r). (key, to_json r)) (mem_entries (fold (memory_step to_json) ops []))"
proof -
  let ?repo = "fold (memory_step to_json) ops []"
  have run: "mem_sorted ?repo" "mem_cached to_json ?repo" "mem_find ?repo = fold map_step ops Map.empty"
    using memory_run_simulates [of "[]" to_json ops]
    by (simp_all add: mem_sorted_def mem_cached_def mem_find_def [abs_def])
  have "mem_count ?repo = card (dom (mem_find ?repo))"
    using mem.count_ids [OF run(1)] mem.ids_find [OF run(1)] distinct_card [OF mem.ids_distinct [OF run(1)]]
    by (simp add: dom_def)
  with run show ?thesis
    by (simp add: scan_result)
qed

section \<open>References and rows\<close>

definition check_reference :: "('s, 'r) repo_ops \<Rightarrow> 's \<Rightarrow> string \<Rightarrow> string \<Rightarrow> string \<Rightarrow> unit res" where
  "check_reference ops repo v target heads =
     (if v = [] \<or> repo_find ops repo v \<noteq> None then Inr ()
      else Inl (NotFound (NotFoundReferenceTargetMissingArgs_render target heads v)))"

text \<open>
  \<open>AggregateScan\<close>: the \<open>(id, to_json)\<close> pairs of one aggregate by its runtime name, \<open>None\<close> for an
  unknown one. \<open>scan_each\<close> visits the same rows in the same order.
\<close>

type_synonym aggregate_scan = "string \<Rightarrow> (string \<times> json) list option"

definition row_json :: "string \<Rightarrow> json \<Rightarrow> json" where
  "row_json key record =
     (case record of J_Object flds \<Rightarrow> J_Object ((''id'', J_Str key) # flds) | _ \<Rightarrow> record)"

end
