(* ===== verification/Dispatch_Order.thy ===== *)
theory Dispatch_Order
  imports Refusals
begin

text \<open>
  \<open>rust/src/kernel/vocab/aggregate_dispatch_order.rs\<close> and \<open>entity_dispatch_order.rs\<close>: the declared
  steps of a dispatch and their order, and \<open>dispatch.rs\<close>'s account of where each step is performed.
\<close>

datatype aggregate_step =
    AS_DecodeArguments | AS_RefuseUnknownArguments | AS_RefuseAbsentArguments | AS_NormalizeArgs
  | AS_RefuseRoleMismatch | AS_ResolveReferences | AS_Hydrate | AS_EnforceGivens
  | AS_AdmissibleTransition | AS_AssignCreationAttributes | AS_ApplyMutations | AS_AdvanceLifecycle
  | AS_DelegateToEntity | AS_EnforceEnsures | AS_EnforceInvariants | AS_Save | AS_Emit

definition aggregate_order :: "aggregate_step list" where
  "aggregate_order =
     [AS_DecodeArguments, AS_RefuseUnknownArguments, AS_RefuseAbsentArguments, AS_NormalizeArgs,
      AS_RefuseRoleMismatch, AS_ResolveReferences, AS_Hydrate, AS_EnforceGivens,
      AS_AdmissibleTransition, AS_AssignCreationAttributes, AS_ApplyMutations, AS_AdvanceLifecycle,
      AS_DelegateToEntity, AS_EnforceEnsures, AS_EnforceInvariants, AS_Save, AS_Emit]"

fun aggregate_step_name :: "aggregate_step \<Rightarrow> string" where
  "aggregate_step_name AS_DecodeArguments = ''decode_arguments''"
| "aggregate_step_name AS_RefuseUnknownArguments = ''refuse_unknown_arguments''"
| "aggregate_step_name AS_RefuseAbsentArguments = ''refuse_absent_arguments''"
| "aggregate_step_name AS_NormalizeArgs = ''normalize_args''"
| "aggregate_step_name AS_RefuseRoleMismatch = ''refuse_role_mismatch''"
| "aggregate_step_name AS_ResolveReferences = ''resolve_references''"
| "aggregate_step_name AS_Hydrate = ''hydrate''"
| "aggregate_step_name AS_EnforceGivens = ''enforce_givens''"
| "aggregate_step_name AS_AdmissibleTransition = ''admissible_transition''"
| "aggregate_step_name AS_AssignCreationAttributes = ''assign_creation_attributes''"
| "aggregate_step_name AS_ApplyMutations = ''apply_mutations''"
| "aggregate_step_name AS_AdvanceLifecycle = ''advance_lifecycle''"
| "aggregate_step_name AS_DelegateToEntity = ''delegate_to_entity''"
| "aggregate_step_name AS_EnforceEnsures = ''enforce_ensures''"
| "aggregate_step_name AS_EnforceInvariants = ''enforce_invariants''"
| "aggregate_step_name AS_Save = ''save''"
| "aggregate_step_name AS_Emit = ''emit''"

definition aggregate_step_from_name :: "string \<Rightarrow> aggregate_step option" where
  "aggregate_step_from_name name = find (\<lambda>row. aggregate_step_name row = name) aggregate_order"

fun aggregate_step_position :: "aggregate_step \<Rightarrow> nat" where
  "aggregate_step_position AS_DecodeArguments = 0"
| "aggregate_step_position AS_RefuseUnknownArguments = 1"
| "aggregate_step_position AS_RefuseAbsentArguments = 2"
| "aggregate_step_position AS_NormalizeArgs = 3"
| "aggregate_step_position AS_RefuseRoleMismatch = 4"
| "aggregate_step_position AS_ResolveReferences = 5"
| "aggregate_step_position AS_Hydrate = 6"
| "aggregate_step_position AS_EnforceGivens = 7"
| "aggregate_step_position AS_AdmissibleTransition = 8"
| "aggregate_step_position AS_AssignCreationAttributes = 9"
| "aggregate_step_position AS_ApplyMutations = 10"
| "aggregate_step_position AS_AdvanceLifecycle = 11"
| "aggregate_step_position AS_DelegateToEntity = 12"
| "aggregate_step_position AS_EnforceEnsures = 13"
| "aggregate_step_position AS_EnforceInvariants = 14"
| "aggregate_step_position AS_Save = 15"
| "aggregate_step_position AS_Emit = 16"

datatype entity_step =
    ES_DecodeArguments | ES_RefuseUnknownArguments | ES_RefuseAbsentArguments | ES_NormalizeArgs
  | ES_RefuseRoleMismatch | ES_ResolveReferences | ES_HydrateParent | ES_LocateElement
  | ES_EnforceGivens | ES_AdmissibleTransition | ES_ApplyMutations | ES_AdvanceLifecycle
  | ES_EnforceEnsures | ES_EnforceInvariants | ES_Save | ES_Emit

definition entity_order :: "entity_step list" where
  "entity_order =
     [ES_DecodeArguments, ES_RefuseUnknownArguments, ES_RefuseAbsentArguments, ES_NormalizeArgs,
      ES_RefuseRoleMismatch, ES_ResolveReferences, ES_HydrateParent, ES_LocateElement,
      ES_EnforceGivens, ES_AdmissibleTransition, ES_ApplyMutations, ES_AdvanceLifecycle,
      ES_EnforceEnsures, ES_EnforceInvariants, ES_Save, ES_Emit]"

fun entity_step_name :: "entity_step \<Rightarrow> string" where
  "entity_step_name ES_DecodeArguments = ''decode_arguments''"
| "entity_step_name ES_RefuseUnknownArguments = ''refuse_unknown_arguments''"
| "entity_step_name ES_RefuseAbsentArguments = ''refuse_absent_arguments''"
| "entity_step_name ES_NormalizeArgs = ''normalize_args''"
| "entity_step_name ES_RefuseRoleMismatch = ''refuse_role_mismatch''"
| "entity_step_name ES_ResolveReferences = ''resolve_references''"
| "entity_step_name ES_HydrateParent = ''hydrate_parent''"
| "entity_step_name ES_LocateElement = ''locate_element''"
| "entity_step_name ES_EnforceGivens = ''enforce_givens''"
| "entity_step_name ES_AdmissibleTransition = ''admissible_transition''"
| "entity_step_name ES_ApplyMutations = ''apply_mutations''"
| "entity_step_name ES_AdvanceLifecycle = ''advance_lifecycle''"
| "entity_step_name ES_EnforceEnsures = ''enforce_ensures''"
| "entity_step_name ES_EnforceInvariants = ''enforce_invariants''"
| "entity_step_name ES_Save = ''save''"
| "entity_step_name ES_Emit = ''emit''"

definition entity_step_from_name :: "string \<Rightarrow> entity_step option" where
  "entity_step_from_name name = find (\<lambda>row. entity_step_name row = name) entity_order"

fun entity_step_position :: "entity_step \<Rightarrow> nat" where
  "entity_step_position ES_DecodeArguments = 0"
| "entity_step_position ES_RefuseUnknownArguments = 1"
| "entity_step_position ES_RefuseAbsentArguments = 2"
| "entity_step_position ES_NormalizeArgs = 3"
| "entity_step_position ES_RefuseRoleMismatch = 4"
| "entity_step_position ES_ResolveReferences = 5"
| "entity_step_position ES_HydrateParent = 6"
| "entity_step_position ES_LocateElement = 7"
| "entity_step_position ES_EnforceGivens = 8"
| "entity_step_position ES_AdmissibleTransition = 9"
| "entity_step_position ES_ApplyMutations = 10"
| "entity_step_position ES_AdvanceLifecycle = 11"
| "entity_step_position ES_EnforceEnsures = 12"
| "entity_step_position ES_EnforceInvariants = 13"
| "entity_step_position ES_Save = 14"
| "entity_step_position ES_Emit = 15"

section \<open>Where a step is performed\<close>

datatype folded_step = Folded_Aggregate aggregate_step | Folded_Entity entity_step

datatype step_site = Site_Kernel | Site_ArgumentGate | Site_FoldedInto folded_step

fun aggregate_step_site :: "aggregate_step \<Rightarrow> step_site" where
  "aggregate_step_site AS_DecodeArguments = Site_ArgumentGate"
| "aggregate_step_site AS_RefuseUnknownArguments = Site_ArgumentGate"
| "aggregate_step_site AS_RefuseAbsentArguments = Site_ArgumentGate"
| "aggregate_step_site AS_NormalizeArgs = Site_ArgumentGate"
| "aggregate_step_site AS_RefuseRoleMismatch = Site_ArgumentGate"
| "aggregate_step_site AS_ResolveReferences = Site_ArgumentGate"
| "aggregate_step_site AS_Hydrate = Site_Kernel"
| "aggregate_step_site AS_EnforceGivens = Site_Kernel"
| "aggregate_step_site AS_AdmissibleTransition = Site_Kernel"
| "aggregate_step_site AS_AssignCreationAttributes = Site_FoldedInto (Folded_Aggregate AS_Hydrate)"
| "aggregate_step_site AS_ApplyMutations = Site_Kernel"
| "aggregate_step_site AS_AdvanceLifecycle = Site_FoldedInto (Folded_Aggregate AS_ApplyMutations)"
| "aggregate_step_site AS_DelegateToEntity = Site_FoldedInto (Folded_Aggregate AS_ApplyMutations)"
| "aggregate_step_site AS_EnforceEnsures = Site_Kernel"
| "aggregate_step_site AS_EnforceInvariants = Site_Kernel"
| "aggregate_step_site AS_Save = Site_Kernel"
| "aggregate_step_site AS_Emit = Site_Kernel"

fun entity_step_site :: "entity_step \<Rightarrow> step_site" where
  "entity_step_site ES_DecodeArguments = Site_ArgumentGate"
| "entity_step_site ES_RefuseUnknownArguments = Site_ArgumentGate"
| "entity_step_site ES_RefuseAbsentArguments = Site_ArgumentGate"
| "entity_step_site ES_NormalizeArgs = Site_ArgumentGate"
| "entity_step_site ES_RefuseRoleMismatch = Site_ArgumentGate"
| "entity_step_site ES_ResolveReferences = Site_ArgumentGate"
| "entity_step_site ES_HydrateParent = Site_Kernel"
| "entity_step_site ES_LocateElement = Site_Kernel"
| "entity_step_site ES_EnforceGivens = Site_Kernel"
| "entity_step_site ES_AdmissibleTransition = Site_Kernel"
| "entity_step_site ES_ApplyMutations = Site_Kernel"
| "entity_step_site ES_AdvanceLifecycle = Site_FoldedInto (Folded_Entity ES_ApplyMutations)"
| "entity_step_site ES_EnforceEnsures = Site_Kernel"
| "entity_step_site ES_EnforceInvariants = Site_Kernel"
| "entity_step_site ES_Save = Site_Kernel"
| "entity_step_site ES_Emit = Site_Kernel"

section \<open>Positions\<close>

text \<open>The linear scans of \<open>dispatch.rs\<close>; \<open>None\<close> is its compile-time panic.\<close>

fun index_in :: "'a \<Rightarrow> nat \<Rightarrow> 'a list \<Rightarrow> nat option" where
  "index_in x i [] = None"
| "index_in x i (y # ys) = (if y = x then Some i else index_in x (Suc i) ys)"

definition aggregate_position :: "aggregate_step \<Rightarrow> nat option" where
  "aggregate_position step = index_in step 0 aggregate_order"

definition entity_position :: "entity_step \<Rightarrow> nat option" where
  "entity_position step = index_in step 0 entity_order"

lemma aggregate_position_eq: "aggregate_position s = Some (aggregate_step_position s)"
  by (cases s) (simp_all add: aggregate_position_def aggregate_order_def)

lemma entity_position_eq: "entity_position s = Some (entity_step_position s)"
  by (cases s) (simp_all add: entity_position_def entity_order_def)

text \<open>
  Both step vocabularies are closed enumerations. The table of positions agrees with the
  declared order, every step occurs in it exactly once, and its name reads back to it.
\<close>

theorem step_vocabularies_closed:
  "aggregate_position s = Some (aggregate_step_position s) \<and>
   aggregate_order ! aggregate_step_position s = s \<and> distinct aggregate_order \<and>
   aggregate_step_from_name (aggregate_step_name s) = Some s \<and>
   entity_position t = Some (entity_step_position t) \<and>
   entity_order ! entity_step_position t = t \<and> distinct entity_order \<and>
   entity_step_from_name (entity_step_name t) = Some t"
proof (intro conjI)
  show "aggregate_order ! aggregate_step_position s = s"
    by (cases s) (simp_all add: aggregate_order_def)
  show "aggregate_step_from_name (aggregate_step_name s) = Some s"
    by (cases s) (simp_all add: aggregate_step_from_name_def aggregate_order_def)
  show "entity_order ! entity_step_position t = t"
    by (cases t) (simp_all add: entity_order_def)
  show "entity_step_from_name (entity_step_name t) = Some t"
    by (cases t) (simp_all add: entity_step_from_name_def entity_order_def)
qed (simp_all add: aggregate_position_eq entity_position_eq aggregate_order_def entity_order_def)

end
