(* ===== verification/Dispatch.thy ===== *)
theory Dispatch
  imports Rules Store Dispatch_Order
begin

text \<open>
  \<open>rust/src/kernel/dispatch.rs\<close>, the aggregate half: the loop over the declared steps, with every
  slot the loop fills and takes as a field of its state. The record type and the repository are
  parameters: \<open>record_ops\<close> is what the loop asks of a record (\<open>Fielded\<close>, \<open>ToJson\<close>,
  \<open>SetProjectedField\<close>), \<open>repo_ops\<close> what it asks of a repository. A generated closure
  (\<open>apply_mutations\<close>, \<open>build\<close>) is a function of the same shape.
\<close>

record 'r record_ops =
  rec_fields :: "'r \<Rightarrow> fielded"
  rec_json :: "'r \<Rightarrow> json"
  rec_set_projected :: "'r \<Rightarrow> string \<Rightarrow> value option \<Rightarrow> 'r"

text \<open>\<open>Event\<close> of \<open>kernel/mod.rs\<close>.\<close>

record event =
  ev_name :: string
  ev_aggregate :: string
  ev_id :: string
  ev_payload :: json
  ev_occurred_at :: "string option"
  ev_correlation :: "(string \<times> string) list option"

record mutation_record =
  mr_aggregate :: string
  mr_id :: string
  mr_operation :: string
  mr_state :: json

datatype 'r hydrate =
    Create (hy_id: string) (hy_build: "unit \<Rightarrow> 'r") (hy_state_independent: bool)
  | Act (hy_id: string)

type_synonym 'r mutator = "'r \<Rightarrow> 'r staged"

text \<open>The inputs of \<open>dispatch\<close> that the loop only reads.\<close>

record command_spec =
  cs_command :: string
  cs_qualified :: string
  cs_aggregate :: string
  cs_identity :: string
  cs_args :: fielded
  cs_givens :: "given_spec list"
  cs_transition :: "transition_check option"
  cs_ensures :: "ensures_spec list"
  cs_invariants :: invariant_set
  cs_emits :: "string list"
  cs_payload :: json

text \<open>The inputs an arm consumes, and the slots the loop fills.\<close>

record ('s, 'r) dispatch_state =
  ds_repo :: 's
  ds_mutations :: "mutation_record list"
  ds_collector :: collector
  ds_defer :: bool
  ds_hydrate :: "'r hydrate option"
  ds_apply :: "'r mutator option"
  ds_boundary :: "unit res option"
  ds_seeds :: "(string \<times> value option) list option"
  ds_hydrated :: "(string \<times> 'r) option"
  ds_old :: "'r option"
  ds_events :: "event list"

section \<open>Steps\<close>

definition HYDRATED :: string where
  "HYDRATED = ''the declared order hydrates before any step that reads the record (const-asserted in this file)''"

definition LOCATED :: string where
  "LOCATED = ''the declared order locates the element before any step that reads it (const-asserted in this file)''"

definition ONCE :: string where
  "ONCE = ''each declared step appears exactly once in its ORDER''"

definition NORMALIZED :: string where
  "NORMALIZED = ''the declared order normalizes arguments before resolving references (const-asserted in this file)''"

definition ordered :: "'a option \<Rightarrow> string \<Rightarrow> 'a res" where
  "ordered slot because = ok_or (Fault because) slot"

definition already_exists :: "command_spec \<Rightarrow> string \<Rightarrow> refusal" where
  "already_exists cmd key =
     AlreadyExists (AlreadyExistsCreatingDuplicateArgs_render (cs_command cmd) (cs_aggregate cmd)
       (cs_identity cmd) (debug_str key))"

definition hydrate_record ::
  "('s, 'r) repo_ops \<Rightarrow> 's \<Rightarrow> 'r hydrate \<Rightarrow> command_spec \<Rightarrow> (bool \<times> string \<times> 'r) res" where
  "hydrate_record ops repo h cmd =
     (case h of
        Create key build state_independent \<Rightarrow>
          if key = [] then
            Inl (NotFound (NotFoundCreatingNoIdentityArgs_render (cs_command cmd) (cs_aggregate cmd) (cs_identity cmd)))
          else if state_independent then Inr (True, key, build ())
          else if repo_find ops repo key \<noteq> None then Inl (already_exists cmd key)
          else Inr (False, key, build ())
      | Act key \<Rightarrow>
          (case repo_find ops repo key of
             None \<Rightarrow> Inl (NotFound (NotFoundRecordMissingArgs_render (cs_aggregate cmd) (cs_identity cmd) (debug_str key)))
           | Some r \<Rightarrow> Inr (False, key, r)))"

definition persist ::
  "'r record_ops \<Rightarrow> ('s, 'r) repo_ops \<Rightarrow> string \<Rightarrow> string \<Rightarrow> 'r \<Rightarrow> 's \<times> mutation_record list \<Rightarrow> 's \<times> mutation_record list" where
  "persist rops ops qualified key r st =
     (repo_save ops (fst st) key r,
      snd st @ [\<lparr>mr_aggregate = qualified, mr_id = key, mr_operation = ''save'', mr_state = rec_json rops r\<rparr>])"

definition emitted :: "string list \<Rightarrow> string \<Rightarrow> string \<Rightarrow> json \<Rightarrow> event list" where
  "emitted emits qualified key payload =
     map (\<lambda>name. \<lparr>ev_name = name, ev_aggregate = qualified, ev_id = key, ev_payload = payload,
       ev_occurred_at = None, ev_correlation = None\<rparr>) emits"

definition seed :: "'r record_ops \<Rightarrow> (string \<times> value option) list \<Rightarrow> 'r \<Rightarrow> 'r" where
  "seed rops seeds r = fold (\<lambda>(field, v) r. rec_set_projected rops r field v) seeds r"

text \<open>An arm of the loop: the result of the step, and the state it leaves.\<close>

type_synonym ('s, 'r) arm = "('s, 'r) dispatch_state \<Rightarrow> unit res \<times> ('s, 'r) dispatch_state"

definition refuse_arm :: "refusal \<Rightarrow> ('s, 'r) arm" where
  "refuse_arm e st = (Inl e, st)"

text \<open>A check that may collect; only the collector changes.\<close>

definition check_arm :: "unit staged \<Rightarrow> ('s, 'r) arm" where
  "check_arm check st =
     (case check (ds_collector st) of (m, c) \<Rightarrow> (m, st\<lparr>ds_collector := c\<rparr>))"

definition hydrate_arm :: "('s, 'r) repo_ops \<Rightarrow> command_spec \<Rightarrow> ('s, 'r) arm" where
  "hydrate_arm ops cmd st =
     (case ordered (ds_hydrate st) ONCE of
        Inl e \<Rightarrow> (Inl e, st)
      | Inr h \<Rightarrow>
          (case hydrate_record ops (ds_repo st) h cmd of
             Inl e \<Rightarrow> (Inl e, st\<lparr>ds_hydrate := None\<rparr>)
           | Inr (later, key, r) \<Rightarrow>
               (Inr (), st\<lparr>ds_hydrate := None, ds_defer := later, ds_hydrated := Some (key, r)\<rparr>)))"

definition givens_arm :: "regex_engine \<Rightarrow> 'r record_ops \<Rightarrow> command_spec \<Rightarrow> ('s, 'r) arm" where
  "givens_arm engine rops cmd st =
     (case ordered (ds_hydrated st) HYDRATED of
        Inl e \<Rightarrow> (Inl e, st)
      | Inr (key, r) \<Rightarrow>
          check_arm (enforce_givens engine (rec_fields rops r) (cs_args cmd) (cs_givens cmd)
            (cs_command cmd) (cs_qualified cmd) key) st)"

definition transition_arm :: "'r record_ops \<Rightarrow> command_spec \<Rightarrow> ('s, 'r) arm" where
  "transition_arm rops cmd st =
     (case ordered (ds_hydrated st) HYDRATED of
        Inl e \<Rightarrow> (Inl e, st)
      | Inr (key, r) \<Rightarrow>
          check_arm (lift (admissible_transition (rec_fields rops r) (cs_transition cmd) (cs_command cmd))) st)"

definition mutate_arm :: "command_spec \<Rightarrow> ('s, 'r) arm" where
  "mutate_arm cmd st =
     (case ordered (ds_hydrated st) HYDRATED of
        Inl e \<Rightarrow> (Inl e, st)
      | Inr (key, r) \<Rightarrow>
          let st = st\<lparr>ds_old := (if cs_ensures cmd = [] then None else Some r)\<rparr>
          in (case ordered (ds_apply st) ONCE of
                Inl e \<Rightarrow> (Inl e, st)
              | Inr apply_mutations \<Rightarrow>
                  (case apply_mutations r (ds_collector st) of
                     (Inl e, c) \<Rightarrow> (Inl e, st\<lparr>ds_apply := None, ds_collector := c\<rparr>)
                   | (Inr r', c) \<Rightarrow>
                       (Inr (), st\<lparr>ds_apply := None, ds_collector := c, ds_hydrated := Some (key, r')\<rparr>))))"

definition ensures_arm :: "regex_engine \<Rightarrow> 'r record_ops \<Rightarrow> command_spec \<Rightarrow> ('s, 'r) arm" where
  "ensures_arm engine rops cmd st =
     (case ordered (ds_hydrated st) HYDRATED of
        Inl e \<Rightarrow> (Inl e, st)
      | Inr (key, r) \<Rightarrow>
          (case ds_old st of
             None \<Rightarrow> (Inr (), st)
           | Some old \<Rightarrow>
               check_arm (enforce_ensures engine (rec_fields rops r) (rec_fields rops old) (cs_args cmd)
                 (cs_ensures cmd) (cs_command cmd)) st))"

definition invariants_arm :: "regex_engine \<Rightarrow> 'r record_ops \<Rightarrow> command_spec \<Rightarrow> ('s, 'r) arm" where
  "invariants_arm engine rops cmd st =
     (case ordered (ds_hydrated st) HYDRATED of
        Inl e \<Rightarrow> (Inl e, st)
      | Inr (key, r) \<Rightarrow>
          check_arm (enforce_invariants engine (rec_fields rops r) (cs_aggregate cmd) (cs_invariants cmd)) st)"

definition save_arm :: "'r record_ops \<Rightarrow> ('s, 'r) repo_ops \<Rightarrow> command_spec \<Rightarrow> ('s, 'r) arm" where
  "save_arm rops ops cmd st =
     (case ordered (ds_hydrated st) HYDRATED of
        Inl e \<Rightarrow> (Inl e, st)
      | Inr (key, r) \<Rightarrow>
          (case ordered (ds_boundary st) ONCE of
             Inl e \<Rightarrow> (Inl e, st)
           | Inr (Inl e) \<Rightarrow> (Inl e, st\<lparr>ds_boundary := None\<rparr>)
           | Inr (Inr _) \<Rightarrow>
               (case ordered (ds_seeds st) ONCE of
                  Inl e \<Rightarrow> (Inl e, st\<lparr>ds_boundary := None\<rparr>)
                | Inr seeds \<Rightarrow>
                    let r' = seed rops seeds r;
                        st' = st\<lparr>ds_boundary := None, ds_seeds := None, ds_hydrated := Some (key, r')\<rparr>
                    in if ds_defer st \<and> repo_find ops (ds_repo st) key \<noteq> None
                       then (Inl (already_exists cmd key), st')
                       else (case persist rops ops (cs_qualified cmd) key r' (ds_repo st, ds_mutations st) of
                               (repo, muts) \<Rightarrow> (Inr (), st'\<lparr>ds_repo := repo, ds_mutations := muts\<rparr>)))))"

definition emit_arm :: "command_spec \<Rightarrow> ('s, 'r) arm" where
  "emit_arm cmd st =
     (case ordered (ds_hydrated st) HYDRATED of
        Inl e \<Rightarrow> (Inl e, st)
      | Inr (key, r) \<Rightarrow>
          (Inr (), st\<lparr>ds_events := emitted (cs_emits cmd) (cs_qualified cmd) key (cs_payload cmd)\<rparr>))"

definition skip_arm :: "('s, 'r) arm" where
  "skip_arm st = (Inr (), st)"

fun dispatch_step ::
  "regex_engine \<Rightarrow> 'r record_ops \<Rightarrow> ('s, 'r) repo_ops \<Rightarrow> command_spec \<Rightarrow> aggregate_step \<Rightarrow> ('s, 'r) arm" where
  "dispatch_step engine rops ops cmd AS_DecodeArguments = skip_arm"
| "dispatch_step engine rops ops cmd AS_RefuseUnknownArguments = skip_arm"
| "dispatch_step engine rops ops cmd AS_RefuseAbsentArguments = skip_arm"
| "dispatch_step engine rops ops cmd AS_NormalizeArgs = skip_arm"
| "dispatch_step engine rops ops cmd AS_RefuseRoleMismatch = skip_arm"
| "dispatch_step engine rops ops cmd AS_ResolveReferences = skip_arm"
| "dispatch_step engine rops ops cmd AS_Hydrate = hydrate_arm ops cmd"
| "dispatch_step engine rops ops cmd AS_EnforceGivens = givens_arm engine rops cmd"
| "dispatch_step engine rops ops cmd AS_AdmissibleTransition = transition_arm rops cmd"
| "dispatch_step engine rops ops cmd AS_AssignCreationAttributes = skip_arm"
| "dispatch_step engine rops ops cmd AS_ApplyMutations = mutate_arm cmd"
| "dispatch_step engine rops ops cmd AS_AdvanceLifecycle = skip_arm"
| "dispatch_step engine rops ops cmd AS_DelegateToEntity = skip_arm"
| "dispatch_step engine rops ops cmd AS_EnforceEnsures = ensures_arm engine rops cmd"
| "dispatch_step engine rops ops cmd AS_EnforceInvariants = invariants_arm engine rops cmd"
| "dispatch_step engine rops ops cmd AS_Save = save_arm rops ops cmd"
| "dispatch_step engine rops ops cmd AS_Emit = emit_arm cmd"

fun run_steps :: "('step \<Rightarrow> 'st \<Rightarrow> unit res \<times> 'st) \<Rightarrow> 'step list \<Rightarrow> 'st \<Rightarrow> unit res \<times> 'st" where
  "run_steps f [] st = (Inr (), st)"
| "run_steps f (x # xs) st =
     (case f x st of (Inl e, st') \<Rightarrow> (Inl e, st') | (Inr _, st') \<Rightarrow> run_steps f xs st')"

text \<open>
  What a caller of \<open>dispatch\<close> observes: its result, and the repository, the mutation list and the
  collector it was lent, as the call leaves them.
\<close>

record ('s, 'r) dispatched =
  dd_result :: "('r \<times> event list) res"
  dd_repo :: 's
  dd_mutations :: "mutation_record list"
  dd_collector :: collector

definition dispatch_start ::
  "'s \<Rightarrow> mutation_record list \<Rightarrow> collector \<Rightarrow> 'r hydrate \<Rightarrow> 'r mutator \<Rightarrow> unit res \<Rightarrow>
   (string \<times> value option) list \<Rightarrow> ('s, 'r) dispatch_state" where
  "dispatch_start repo muts c h apply_mutations boundary seeds =
     \<lparr>ds_repo = repo, ds_mutations = muts, ds_collector = c, ds_defer = False, ds_hydrate = Some h,
      ds_apply = Some apply_mutations, ds_boundary = Some boundary, ds_seeds = Some seeds,
      ds_hydrated = None, ds_old = None, ds_events = []\<rparr>"

definition dispatch ::
  "regex_engine \<Rightarrow> 'r record_ops \<Rightarrow> ('s, 'r) repo_ops \<Rightarrow> command_spec \<Rightarrow> 's \<Rightarrow> mutation_record list \<Rightarrow>
   collector \<Rightarrow> 'r hydrate \<Rightarrow> 'r mutator \<Rightarrow> unit res \<Rightarrow> (string \<times> value option) list \<Rightarrow> ('s, 'r) dispatched" where
  "dispatch engine rops ops cmd repo muts c h apply_mutations boundary seeds =
     (case run_steps (dispatch_step engine rops ops cmd) aggregate_order
             (dispatch_start repo muts c h apply_mutations boundary seeds) of
        (m, st) \<Rightarrow>
          \<lparr>dd_result =
             rbind m (\<lambda>_. rbind (ordered (ds_hydrated st) HYDRATED) (\<lambda>(key, r). Inr (r, ds_events st))),
           dd_repo = ds_repo st, dd_mutations = ds_mutations st, dd_collector = ds_collector st\<rparr>)"

end
