(* ===== verification/Argument_Gates.thy ===== *)
theory Argument_Gates
  imports Dispatch
begin

text \<open>
  The argument gates of \<open>rust/src/kernel/dispatch.rs\<close>: one generated hook per gate, called in the
  declared order before the router resolves identity. The hooks are generated code, so they are
  parameters; each may refuse and, in a dry run, collect.
\<close>

record 'a argument_gates =
  ag_decode_arguments :: "json \<Rightarrow> unit staged"
  ag_refuse_unknown_arguments :: "json \<Rightarrow> unit staged"
  ag_refuse_absent_arguments :: "json \<Rightarrow> unit staged"
  ag_normalize_args :: "json \<Rightarrow> 'a staged"
  ag_refuse_role_mismatch :: "unit staged"
  ag_resolve_references :: "'a \<Rightarrow> unit staged"

datatype argument_gate =
    AG_DecodeArguments | AG_RefuseUnknownArguments | AG_RefuseAbsentArguments | AG_NormalizeArgs
  | AG_RefuseRoleMismatch | AG_ResolveReferences

text \<open>\<open>ArgumentGates::run\<close>; the slot of the normalized arguments is threaded through.\<close>

fun run_gate :: "'a argument_gates \<Rightarrow> argument_gate \<Rightarrow> json \<Rightarrow> 'a option \<Rightarrow> 'a option staged" where
  "run_gate gates AG_DecodeArguments facts args = sbind (ag_decode_arguments gates facts) (\<lambda>_. sret args)"
| "run_gate gates AG_RefuseUnknownArguments facts args =
     sbind (ag_refuse_unknown_arguments gates facts) (\<lambda>_. sret args)"
| "run_gate gates AG_RefuseAbsentArguments facts args =
     sbind (ag_refuse_absent_arguments gates facts) (\<lambda>_. sret args)"
| "run_gate gates AG_NormalizeArgs facts args = sbind (ag_normalize_args gates facts) (\<lambda>a. sret (Some a))"
| "run_gate gates AG_RefuseRoleMismatch facts args = sbind (ag_refuse_role_mismatch gates) (\<lambda>_. sret args)"
| "run_gate gates AG_ResolveReferences facts args =
     sbind (lift (ordered args NORMALIZED)) (\<lambda>a. sbind (ag_resolve_references gates a) (\<lambda>_. sret args))"

fun aggregate_gate :: "aggregate_step \<Rightarrow> argument_gate option" where
  "aggregate_gate AS_DecodeArguments = Some AG_DecodeArguments"
| "aggregate_gate AS_RefuseUnknownArguments = Some AG_RefuseUnknownArguments"
| "aggregate_gate AS_RefuseAbsentArguments = Some AG_RefuseAbsentArguments"
| "aggregate_gate AS_NormalizeArgs = Some AG_NormalizeArgs"
| "aggregate_gate AS_RefuseRoleMismatch = Some AG_RefuseRoleMismatch"
| "aggregate_gate AS_ResolveReferences = Some AG_ResolveReferences"
| "aggregate_gate _ = None"

fun entity_gate :: "entity_step \<Rightarrow> argument_gate option" where
  "entity_gate ES_DecodeArguments = Some AG_DecodeArguments"
| "entity_gate ES_RefuseUnknownArguments = Some AG_RefuseUnknownArguments"
| "entity_gate ES_RefuseAbsentArguments = Some AG_RefuseAbsentArguments"
| "entity_gate ES_NormalizeArgs = Some AG_NormalizeArgs"
| "entity_gate ES_RefuseRoleMismatch = Some AG_RefuseRoleMismatch"
| "entity_gate ES_ResolveReferences = Some AG_ResolveReferences"
| "entity_gate _ = None"

text \<open>
  The loop both decoders run: a step without a gate is passed over, and after the absent-arguments
  gate the stage is settled against the mark taken at the start.
\<close>

fun gate_loop ::
  "('step \<Rightarrow> argument_gate option) \<Rightarrow> 'a argument_gates \<Rightarrow> json \<Rightarrow> nat \<Rightarrow> 'step list \<Rightarrow> 'a option \<Rightarrow> 'a option staged" where
  "gate_loop gate_of gates facts stage [] args = sret args"
| "gate_loop gate_of gates facts stage (step # steps) args =
     (case gate_of step of
        None \<Rightarrow> gate_loop gate_of gates facts stage steps args
      | Some gate \<Rightarrow>
          sbind (run_gate gates gate facts args) (\<lambda>args.
            sbind (if gate = AG_RefuseAbsentArguments then settle stage else sret ()) (\<lambda>_.
              gate_loop gate_of gates facts stage steps args)))"

definition decode_aggregate_arguments :: "json \<Rightarrow> 'a argument_gates \<Rightarrow> 'a staged" where
  "decode_aggregate_arguments facts gates c =
     sbind (gate_loop aggregate_gate gates facts (mark c) aggregate_order None)
       (\<lambda>args. lift (ordered args NORMALIZED)) c"

definition decode_entity_arguments :: "json \<Rightarrow> 'a argument_gates \<Rightarrow> 'a staged" where
  "decode_entity_arguments facts gates c =
     sbind (gate_loop entity_gate gates facts (mark c) entity_order None)
       (\<lambda>args. lift (ordered args NORMALIZED)) c"

section \<open>The gates in a row\<close>

definition gates_in_order :: "json \<Rightarrow> 'a argument_gates \<Rightarrow> 'a staged" where
  "gates_in_order facts gates c =
     sbind (ag_decode_arguments gates facts) (\<lambda>_.
     sbind (ag_refuse_unknown_arguments gates facts) (\<lambda>_.
     sbind (ag_refuse_absent_arguments gates facts) (\<lambda>_.
     sbind (settle (mark c)) (\<lambda>_.
     sbind (ag_normalize_args gates facts) (\<lambda>a.
     sbind (ag_refuse_role_mismatch gates) (\<lambda>_.
     sbind (ag_resolve_references gates a) (\<lambda>_.
     sret a))))))) c"

text \<open>
  The argument gates run in the declared order, for aggregate and entity commands alike. Both
  decoders are: decode, refuse unknown, refuse absent arguments, settle what a dry run collected so
  far, normalize, check the role, resolve references; the first gate that refuses ends it, and the
  normalized arguments are what is returned. The fault for arguments resolved before they were
  normalized never occurs.
\<close>

theorem argument_gates_in_declared_order:
  "decode_aggregate_arguments facts gates c = gates_in_order facts gates c \<and>
   decode_entity_arguments facts gates c = gates_in_order facts gates c"
  by (simp add: decode_aggregate_arguments_def decode_entity_arguments_def gates_in_order_def
    aggregate_order_def entity_order_def sbind_assoc ordered_def lift_Inr del: sret_lift_simps)

end
