(* ===== verification/Entity_Dispatch.thy ===== *)
theory Entity_Dispatch
  imports Dispatch
begin

text \<open>
  The entity half of \<open>rust/src/kernel/dispatch.rs\<close>: \<open>ElementHalf\<close>, the element steps that
  \<open>apply_entity_command\<close> runs on a parent record in hand, and \<open>dispatch_entity\<close>, which hydrates and
  saves the parent around them. \<open>get_list\<close> and \<open>get_list_mut\<close> are generated accessors of one list
  field: reading it, and updating it in place.
\<close>

record ('t, 'e) entity_spec =
  en_parent_id :: string
  en_get_list :: "'t \<Rightarrow> 'e list"
  en_matches :: "'e \<Rightarrow> bool"
  en_command :: string
  en_qualified :: string
  en_aggregate :: string
  en_entity :: string
  en_identity :: string
  en_wants :: string
  en_args :: fielded
  en_givens :: "given_spec list"
  en_transition :: "transition_check option"
  en_ensures :: "ensures_spec list"
  en_parent_in_args :: bool

type_synonym ('t, 'e) list_update = "('e list \<Rightarrow> 'e list) \<Rightarrow> 't \<Rightarrow> 't"

record ('t, 'e) element_half =
  eh_get_list_mut :: "('t, 'e) list_update option"
  eh_apply :: "'e mutator option"
  eh_position :: "nat option"
  eh_element :: "'e option"
  eh_parent_before :: "'t option"
  eh_old :: "'e option"

definition element_start :: "('t, 'e) list_update \<Rightarrow> 'e mutator \<Rightarrow> ('t, 'e) element_half" where
  "element_start get_list_mut apply_mutations =
     \<lparr>eh_get_list_mut = Some get_list_mut, eh_apply = Some apply_mutations, eh_position = None,
      eh_element = None, eh_parent_before = None, eh_old = None\<rparr>"

section \<open>Steps\<close>

text \<open>A step of the element half: it may refuse or collect, and updates the half and the parent.\<close>

type_synonym ('t, 'e) element_action = "('t, 'e) element_half \<Rightarrow> 't \<Rightarrow> (('t, 'e) element_half \<times> 't) staged"

fun position_of :: "('a \<Rightarrow> bool) \<Rightarrow> 'a list \<Rightarrow> nat option" where
  "position_of p [] = None"
| "position_of p (x # xs) = (if p x then Some 0 else map_option Suc (position_of p xs))"

definition locate_element :: "('t, 'e) entity_spec \<Rightarrow> ('t, 'e) element_action" where
  "locate_element spec half parent =
     lift (case position_of (en_matches spec) (en_get_list spec parent) of
             None \<Rightarrow> Inl (NotFound (NotFoundEntityElementMissingArgs_render (en_entity spec) (en_identity spec)
                       (en_wants spec) (en_aggregate spec) (debug_str (en_parent_id spec))))
           | Some position \<Rightarrow>
               Inr (half\<lparr>eh_element := Some (en_get_list spec parent ! position), eh_position := Some position,
                 eh_parent_before := Some parent\<rparr>, parent))"

text \<open>The \<open>corrects\<close> givens are asked of the parent first, outside the collected stage.\<close>

fun corrects_givens :: "regex_engine \<Rightarrow> ('t, 'e) entity_spec \<Rightarrow> fielded \<Rightarrow> given_spec list \<Rightarrow> unit res" where
  "corrects_givens engine spec parent_before [] = Inr ()"
| "corrects_givens engine spec parent_before (given # givens) =
     (case gs_corrects given of
        None \<Rightarrow> corrects_givens engine spec parent_before givens
      | Some event_name \<Rightarrow>
          rbind (rule_holds engine \<lparr>ctx_args = en_args spec, ctx_instance = parent_before\<rparr> (gs_expr given)) (\<lambda>ok.
            if ok then corrects_givens engine spec parent_before givens
            else Inl (NothingToCorrect (corrects_text (en_command spec) event_name (en_qualified spec) (en_parent_id spec)))))"

definition entity_args :: "('t, 'e) entity_spec \<Rightarrow> fielded \<Rightarrow> fielded" where
  "entity_args spec parent = (if en_parent_in_args spec then with_parent (en_args spec) parent else en_args spec)"

definition element_givens ::
  "regex_engine \<Rightarrow> 't record_ops \<Rightarrow> 'e record_ops \<Rightarrow> ('t, 'e) entity_spec \<Rightarrow> ('t, 'e) element_action" where
  "element_givens engine tops eops spec half parent =
     sbind (lift (ordered (eh_parent_before half) LOCATED)) (\<lambda>parent_before.
     sbind (lift (ordered (eh_element half) LOCATED)) (\<lambda>element.
     sbind (lift (corrects_givens engine spec (rec_fields tops parent_before) (en_givens spec))) (\<lambda>_.
     sbind (staged_rules
       (\<lambda>given. rule_holds engine
          \<lparr>ctx_args = entity_args spec (rec_fields tops parent_before), ctx_instance = rec_fields eops element\<rparr> (gs_expr given))
       (given_refusal (en_command spec) (en_qualified spec) (en_parent_id spec))
       (filter (\<lambda>given. gs_corrects given = None) (en_givens spec))) (\<lambda>_.
     sret (half, parent)))))"

definition element_transition :: "'e record_ops \<Rightarrow> ('t, 'e) entity_spec \<Rightarrow> ('t, 'e) element_action" where
  "element_transition eops spec half parent =
     sbind (lift (ordered (eh_element half) LOCATED)) (\<lambda>element.
     sbind (lift (admissible_transition (rec_fields eops element) (en_transition spec) (en_command spec))) (\<lambda>_.
     sret (half, parent)))"

definition element_mutations :: "('t, 'e) entity_spec \<Rightarrow> ('t, 'e) element_action" where
  "element_mutations spec half parent =
     sbind (lift (ordered (eh_position half) LOCATED)) (\<lambda>position.
     sbind (lift (ordered (eh_element half) LOCATED)) (\<lambda>element.
     sbind (lift (ordered (eh_apply half) ONCE)) (\<lambda>apply_mutations.
     sbind (apply_mutations element) (\<lambda>element'.
     sbind (lift (ordered (eh_get_list_mut half) ONCE)) (\<lambda>get_list_mut.
     sret (half\<lparr>eh_element := None, eh_old := (if en_ensures spec = [] then None else Some element),
              eh_apply := None, eh_get_list_mut := None\<rparr>,
           get_list_mut (\<lambda>l. l[position := element']) parent))))))"

definition element_ensures ::
  "regex_engine \<Rightarrow> 't record_ops \<Rightarrow> 'e record_ops \<Rightarrow> ('t, 'e) entity_spec \<Rightarrow> ('t, 'e) element_action" where
  "element_ensures engine tops eops spec half parent =
     (case eh_old half of
        None \<Rightarrow> sret (half, parent)
      | Some old \<Rightarrow>
          sbind (lift (ordered (eh_position half) LOCATED)) (\<lambda>position.
          sbind (enforce_ensures engine (rec_fields eops (en_get_list spec parent ! position)) (rec_fields eops old)
            (entity_args spec (rec_fields tops parent)) (en_ensures spec) (en_command spec)) (\<lambda>_.
          sret (half, parent))))"

fun element_run ::
  "regex_engine \<Rightarrow> 't record_ops \<Rightarrow> 'e record_ops \<Rightarrow> ('t, 'e) entity_spec \<Rightarrow> entity_step \<Rightarrow> ('t, 'e) element_action" where
  "element_run engine tops eops spec ES_LocateElement half parent = locate_element spec half parent"
| "element_run engine tops eops spec ES_EnforceGivens half parent = element_givens engine tops eops spec half parent"
| "element_run engine tops eops spec ES_AdmissibleTransition half parent = element_transition eops spec half parent"
| "element_run engine tops eops spec ES_ApplyMutations half parent = element_mutations spec half parent"
| "element_run engine tops eops spec ES_EnforceEnsures half parent = element_ensures engine tops eops spec half parent"
| "element_run engine tops eops spec _ half parent = sret (half, parent)"

fun element_loop ::
  "regex_engine \<Rightarrow> 't record_ops \<Rightarrow> 'e record_ops \<Rightarrow> ('t, 'e) entity_spec \<Rightarrow> entity_step list \<Rightarrow> ('t, 'e) element_action" where
  "element_loop engine tops eops spec [] half parent = sret (half, parent)"
| "element_loop engine tops eops spec (step # steps) half parent =
     sbind (element_run engine tops eops spec step half parent) (\<lambda>(half, parent).
       element_loop engine tops eops spec steps half parent)"

definition apply_entity_command ::
  "regex_engine \<Rightarrow> 't record_ops \<Rightarrow> 'e record_ops \<Rightarrow> ('t, 'e) entity_spec \<Rightarrow> ('t, 'e) list_update \<Rightarrow>
   'e mutator \<Rightarrow> 't mutator" where
  "apply_entity_command engine tops eops spec get_list_mut apply_mutations parent =
     sbind (element_loop engine tops eops spec entity_order (element_start get_list_mut apply_mutations) parent)
       (\<lambda>(half, parent). sret parent)"

section \<open>Dispatch\<close>

record parent_spec =
  pa_identity :: string
  pa_invariants :: invariant_set
  pa_emits :: "string list"
  pa_payload :: json

record ('s, 't, 'e) entity_state =
  et_repo :: 's
  et_mutations :: "mutation_record list"
  et_collector :: collector
  et_half :: "('t, 'e) element_half"
  et_seeds :: "(string \<times> value option) list option"
  et_hydrated :: "'t option"
  et_events :: "event list"

type_synonym ('s, 't, 'e) entity_arm = "('s, 't, 'e) entity_state \<Rightarrow> unit res \<times> ('s, 't, 'e) entity_state"

definition hydrate_parent_arm ::
  "('s, 't) repo_ops \<Rightarrow> ('t, 'e) entity_spec \<Rightarrow> parent_spec \<Rightarrow> ('s, 't, 'e) entity_arm" where
  "hydrate_parent_arm ops spec pspec st =
     (case repo_find ops (et_repo st) (en_parent_id spec) of
        None \<Rightarrow> (Inl (NotFound (NotFoundRecordMissingArgs_render (en_aggregate spec) (pa_identity pspec)
                  (debug_str (en_parent_id spec)))), st)
      | Some parent \<Rightarrow> (Inr (), st\<lparr>et_hydrated := Some parent\<rparr>))"

definition element_arm ::
  "regex_engine \<Rightarrow> 't record_ops \<Rightarrow> 'e record_ops \<Rightarrow> ('t, 'e) entity_spec \<Rightarrow> entity_step \<Rightarrow> ('s, 't, 'e) entity_arm" where
  "element_arm engine tops eops spec step st =
     (case ordered (et_hydrated st) HYDRATED of
        Inl e \<Rightarrow> (Inl e, st)
      | Inr parent \<Rightarrow>
          (case element_run engine tops eops spec step (et_half st) parent (et_collector st) of
             (Inl e, c) \<Rightarrow> (Inl e, st\<lparr>et_collector := c\<rparr>)
           | (Inr (half, parent'), c) \<Rightarrow>
               (Inr (), st\<lparr>et_collector := c, et_half := half, et_hydrated := Some parent'\<rparr>)))"

definition parent_invariants_arm ::
  "regex_engine \<Rightarrow> 't record_ops \<Rightarrow> ('t, 'e) entity_spec \<Rightarrow> parent_spec \<Rightarrow> ('s, 't, 'e) entity_arm" where
  "parent_invariants_arm engine tops spec pspec st =
     (case ordered (et_hydrated st) HYDRATED of
        Inl e \<Rightarrow> (Inl e, st)
      | Inr parent \<Rightarrow>
          (case enforce_invariants engine (rec_fields tops parent) (en_aggregate spec) (pa_invariants pspec) (et_collector st) of
             (m, c) \<Rightarrow> (m, st\<lparr>et_collector := c\<rparr>)))"

definition parent_save_arm ::
  "'t record_ops \<Rightarrow> ('s, 't) repo_ops \<Rightarrow> ('t, 'e) entity_spec \<Rightarrow> ('s, 't, 'e) entity_arm" where
  "parent_save_arm tops ops spec st =
     (case ordered (et_hydrated st) HYDRATED of
        Inl e \<Rightarrow> (Inl e, st)
      | Inr parent \<Rightarrow>
          (case ordered (et_seeds st) ONCE of
             Inl e \<Rightarrow> (Inl e, st)
           | Inr seeds \<Rightarrow>
               let parent' = seed tops seeds parent
               in (case persist tops ops (en_qualified spec) (en_parent_id spec) parent' (et_repo st, et_mutations st) of
                     (repo, muts) \<Rightarrow>
                       (Inr (), st\<lparr>et_seeds := None, et_hydrated := Some parent', et_repo := repo, et_mutations := muts\<rparr>))))"

definition parent_emit_arm :: "('t, 'e) entity_spec \<Rightarrow> parent_spec \<Rightarrow> ('s, 't, 'e) entity_arm" where
  "parent_emit_arm spec pspec st =
     (Inr (), st\<lparr>et_events := emitted (pa_emits pspec) (en_qualified spec) (en_parent_id spec) (pa_payload pspec)\<rparr>)"

definition entity_skip_arm :: "('s, 't, 'e) entity_arm" where
  "entity_skip_arm st = (Inr (), st)"

fun dispatch_entity_step ::
  "regex_engine \<Rightarrow> 't record_ops \<Rightarrow> 'e record_ops \<Rightarrow> ('s, 't) repo_ops \<Rightarrow> ('t, 'e) entity_spec \<Rightarrow> parent_spec \<Rightarrow>
   entity_step \<Rightarrow> ('s, 't, 'e) entity_arm" where
  "dispatch_entity_step engine tops eops ops spec pspec ES_HydrateParent = hydrate_parent_arm ops spec pspec"
| "dispatch_entity_step engine tops eops ops spec pspec ES_LocateElement = element_arm engine tops eops spec ES_LocateElement"
| "dispatch_entity_step engine tops eops ops spec pspec ES_EnforceGivens = element_arm engine tops eops spec ES_EnforceGivens"
| "dispatch_entity_step engine tops eops ops spec pspec ES_AdmissibleTransition =
     element_arm engine tops eops spec ES_AdmissibleTransition"
| "dispatch_entity_step engine tops eops ops spec pspec ES_ApplyMutations = element_arm engine tops eops spec ES_ApplyMutations"
| "dispatch_entity_step engine tops eops ops spec pspec ES_AdvanceLifecycle = element_arm engine tops eops spec ES_AdvanceLifecycle"
| "dispatch_entity_step engine tops eops ops spec pspec ES_EnforceEnsures = element_arm engine tops eops spec ES_EnforceEnsures"
| "dispatch_entity_step engine tops eops ops spec pspec ES_EnforceInvariants = parent_invariants_arm engine tops spec pspec"
| "dispatch_entity_step engine tops eops ops spec pspec ES_Save = parent_save_arm tops ops spec"
| "dispatch_entity_step engine tops eops ops spec pspec ES_Emit = parent_emit_arm spec pspec"
| "dispatch_entity_step engine tops eops ops spec pspec _ = entity_skip_arm"

definition entity_state_start ::
  "'s \<Rightarrow> mutation_record list \<Rightarrow> collector \<Rightarrow> ('t, 'e) list_update \<Rightarrow> 'e mutator \<Rightarrow>
   (string \<times> value option) list \<Rightarrow> ('s, 't, 'e) entity_state" where
  "entity_state_start repo muts c get_list_mut apply_mutations seeds =
     \<lparr>et_repo = repo, et_mutations = muts, et_collector = c, et_half = element_start get_list_mut apply_mutations,
      et_seeds = Some seeds, et_hydrated = None, et_events = []\<rparr>"

definition dispatch_entity ::
  "regex_engine \<Rightarrow> 't record_ops \<Rightarrow> 'e record_ops \<Rightarrow> ('s, 't) repo_ops \<Rightarrow> ('t, 'e) entity_spec \<Rightarrow> parent_spec \<Rightarrow> 's \<Rightarrow>
   mutation_record list \<Rightarrow> collector \<Rightarrow> ('t, 'e) list_update \<Rightarrow> 'e mutator \<Rightarrow> (string \<times> value option) list \<Rightarrow>
   ('s, 't) dispatched" where
  "dispatch_entity engine tops eops ops spec pspec repo muts c get_list_mut apply_mutations seeds =
     (case run_steps (dispatch_entity_step engine tops eops ops (spec\<lparr>en_parent_in_args := True\<rparr>) pspec) entity_order
             (entity_state_start repo muts c get_list_mut apply_mutations seeds) of
        (m, st) \<Rightarrow>
          \<lparr>dd_result = rbind m (\<lambda>_. rbind (ordered (et_hydrated st) HYDRATED) (\<lambda>parent. Inr (parent, et_events st))),
           dd_repo = et_repo st, dd_mutations = et_mutations st, dd_collector = et_collector st\<rparr>)"

end
