(* ===== verification/Samples.thy ===== *)
theory Samples
  imports Entity_Dispatch
begin

text \<open>
  A small domain on which the theorems about dispatch are exercised: an account with a balance and
  a lifecycle, opened by one command and drawn on by another, and an order whose lines an entity
  command changes. It plays the part of generated code.
\<close>

record account =
  acc_owner :: string
  acc_balance :: i64
  acc_status :: string

definition account_fields :: "account \<Rightarrow> fielded" where
  "account_fields a =
     Fielded (\<lambda>n. if n = ''owner'' then Some (FD_Value (V_Str (acc_owner a)))
                  else if n = ''balance'' then Some (FD_Value (V_Int (acc_balance a)))
                  else if n = ''status'' then Some (FD_Value (V_Str (acc_status a)))
                  else None) None None (\<lambda>_. None)"

definition account_json :: "account \<Rightarrow> json" where
  "account_json a =
     J_Object [(''owner'', J_Str (acc_owner a)), (''balance'', json_int (acc_balance a)),
       (''status'', J_Str (acc_status a))]"

definition account_ops :: "account record_ops" where
  "account_ops =
     \<lparr>rec_fields = account_fields, rec_json = account_json, rec_set_projected = (\<lambda>a field v. a)\<rparr>"

definition at_least :: comparison where
  "at_least = \<lparr>less_than = True, equal = False, negated = True\<rparr>"

definition account_invariants :: invariant_set where
  "account_invariants =
     \<lparr>iv_aggregate = [\<lparr>is_description = ''the balance is never negative'',
        is_expr = E_Compare at_least (E_Lookup ''balance'') (E_Int 0)\<rparr>], iv_entities = []\<rparr>"

definition amount_args :: "i64 \<Rightarrow> fielded" where
  "amount_args n =
     Fielded (\<lambda>f. if f = ''amount'' then Some (FD_Value (V_Int n)) else None) None None (\<lambda>_. None)"

definition withdraw_spec :: "i64 \<Rightarrow> command_spec" where
  "withdraw_spec n =
     \<lparr>cs_command = ''Withdraw'', cs_qualified = ''Banking::Account'', cs_aggregate = ''Account'',
      cs_identity = ''number'', cs_args = amount_args n,
      cs_givens = [\<lparr>gs_description = ''the amount is positive'',
        gs_expr = E_Compare at_least (E_Lookup ''amount'') (E_Int 1), gs_corrects = None\<rparr>],
      cs_transition = Some \<lparr>tc_field = ''status'', tc_from_states = [''open'']\<rparr>,
      cs_ensures = [\<lparr>es_description = ''the balance goes down'',
        es_expr = E_Compare \<lparr>less_than = True, equal = False, negated = False\<rparr>
          (E_Lookup ''balance'') (E_Lookup ''old.balance'')\<rparr>],
      cs_invariants = account_invariants, cs_emits = [''Withdrawn'', ''BalanceChanged''],
      cs_payload = J_Object [(''amount'', json_int n)]\<rparr>"

definition withdraw :: "i64 \<Rightarrow> account mutator" where
  "withdraw n a = sret (a\<lparr>acc_balance := acc_balance a - n\<rparr>)"

definition open_spec :: command_spec where
  "open_spec =
     \<lparr>cs_command = ''Open'', cs_qualified = ''Banking::Account'', cs_aggregate = ''Account'',
      cs_identity = ''number'', cs_args = no_fields, cs_givens = [], cs_transition = None,
      cs_ensures = [], cs_invariants = account_invariants, cs_emits = [''Opened''],
      cs_payload = J_Object []\<rparr>"

definition open_account :: "string \<Rightarrow> bool \<Rightarrow> account hydrate" where
  "open_account number state_independent =
     Create number (\<lambda>_. \<lparr>acc_owner = ''ada'', acc_balance = 0, acc_status = ''open''\<rparr>) state_independent"

definition keep_account :: "account mutator" where
  "keep_account a = sret a"

definition sample_store :: "account memory" where
  "sample_store =
     [(''A1'', \<lparr>sl_record = \<lparr>acc_owner = ''ada'', acc_balance = 10, acc_status = ''open''\<rparr>, sl_json = None\<rparr>),
      (''B2'', \<lparr>sl_record = \<lparr>acc_owner = ''bob'', acc_balance = 7, acc_status = ''closed''\<rparr>, sl_json = None\<rparr>)]"

section \<open>An order and its lines\<close>

record order_line =
  ol_sku :: string
  ol_quantity :: i64

record order =
  od_number :: string
  od_lines :: "order_line list"

definition line_fields :: "order_line \<Rightarrow> fielded" where
  "line_fields l =
     Fielded (\<lambda>n. if n = ''sku'' then Some (FD_Value (V_Str (ol_sku l)))
                  else if n = ''quantity'' then Some (FD_Value (V_Int (ol_quantity l)))
                  else None) None None (\<lambda>_. None)"

definition order_fields :: "order \<Rightarrow> fielded" where
  "order_fields od =
     Fielded (\<lambda>n. if n = ''number'' then Some (FD_Value (V_Str (od_number od)))
                  else if n = ''lines'' then Some (FD_Value (V_List (length (od_lines od))))
                  else None) None None
       (\<lambda>n. if n = ''lines'' then Some (map (\<lambda>l. FD_Nested (line_fields l)) (od_lines od)) else None)"

definition line_json :: "order_line \<Rightarrow> json" where
  "line_json l = J_Object [(''sku'', J_Str (ol_sku l)), (''quantity'', json_int (ol_quantity l))]"

definition line_ops :: "order_line record_ops" where
  "line_ops = \<lparr>rec_fields = line_fields, rec_json = line_json, rec_set_projected = (\<lambda>l field v. l)\<rparr>"

definition order_ops :: "order record_ops" where
  "order_ops =
     \<lparr>rec_fields = order_fields,
      rec_json = (\<lambda>od. J_Object [(''number'', J_Str (od_number od)), (''lines'', J_Array (map line_json (od_lines od)))]),
      rec_set_projected = (\<lambda>od field v. od)\<rparr>"

definition line_spec :: "(order, order_line) entity_spec" where
  "line_spec =
     \<lparr>en_parent_id = ''O1'', en_get_list = od_lines, en_matches = (\<lambda>l. ol_sku l = ''jam''),
      en_command = ''SetQuantity'', en_qualified = ''Shop::Order'', en_aggregate = ''Order'', en_entity = ''Line'',
      en_identity = ''sku'', en_wants = debug_str ''jam'', en_args = amount_args 5,
      en_givens = [\<lparr>gs_description = ''the line belongs to this order'',
        gs_expr = E_Compare \<lparr>less_than = False, equal = True, negated = False\<rparr> (E_Lookup ''parent.number'') (E_Str ''O1''),
        gs_corrects = None\<rparr>],
      en_transition = None,
      en_ensures = [\<lparr>es_description = ''the quantity is the amount'',
        es_expr = E_Compare \<lparr>less_than = False, equal = True, negated = False\<rparr> (E_Lookup ''quantity'') (E_Lookup ''amount'')\<rparr>],
      en_parent_in_args = True\<rparr>"

definition update_lines :: "(order_line list \<Rightarrow> order_line list) \<Rightarrow> order \<Rightarrow> order" where
  "update_lines f od = od\<lparr>od_lines := f (od_lines od)\<rparr>"

definition set_quantity :: "i64 \<Rightarrow> order_line mutator" where
  "set_quantity n l = sret (l\<lparr>ol_quantity := n\<rparr>)"

definition sample_order :: order where
  "sample_order =
     \<lparr>od_number = ''O1'', od_lines = [\<lparr>ol_sku = ''tea'', ol_quantity = 2\<rparr>, \<lparr>ol_sku = ''jam'', ol_quantity = 1\<rparr>]\<rparr>"

end
