(* ===== verification/Dispatch_Laws.thy ===== *)
theory Dispatch_Laws
  imports Samples
begin

text \<open>
  The abstract account of a dispatch, and what follows from it. A dispatch first decides, reading
  the repository and writing nothing, and then commits in one write. The loop over the declared
  step order refines that account (\<open>dispatch_refines\<close>); the faults it keeps for a slot that is
  empty, or already taken, cannot occur.
\<close>

section \<open>Decide, then commit\<close>

definition decide ::
  "regex_engine \<Rightarrow> 'r record_ops \<Rightarrow> ('s, 'r) repo_ops \<Rightarrow> command_spec \<Rightarrow> 's \<Rightarrow> 'r hydrate \<Rightarrow> 'r mutator \<Rightarrow>
   unit res \<Rightarrow> (string \<times> value option) list \<Rightarrow> (string \<times> 'r) staged" where
  "decide engine rops ops cmd repo h apply_mutations boundary seeds =
     sbind (lift (hydrate_record ops repo h cmd)) (\<lambda>(later, key, r).
     sbind (enforce_givens engine (rec_fields rops r) (cs_args cmd) (cs_givens cmd) (cs_command cmd)
       (cs_qualified cmd) key) (\<lambda>_.
     sbind (lift (admissible_transition (rec_fields rops r) (cs_transition cmd) (cs_command cmd))) (\<lambda>_.
     sbind (apply_mutations r) (\<lambda>r'.
     sbind (if cs_ensures cmd = [] then sret ()
            else enforce_ensures engine (rec_fields rops r') (rec_fields rops r) (cs_args cmd)
              (cs_ensures cmd) (cs_command cmd)) (\<lambda>_.
     sbind (enforce_invariants engine (rec_fields rops r') (cs_aggregate cmd) (cs_invariants cmd)) (\<lambda>_.
     sbind (lift boundary) (\<lambda>_.
     lift (if later \<and> repo_find ops repo key \<noteq> None then Inl (already_exists cmd key)
           else Inr (key, seed rops seeds r')))))))))"

definition commit ::
  "'r record_ops \<Rightarrow> ('s, 'r) repo_ops \<Rightarrow> command_spec \<Rightarrow> 's \<Rightarrow> mutation_record list \<Rightarrow>
   (string \<times> 'r) res \<times> collector \<Rightarrow> ('s, 'r) dispatched" where
  "commit rops ops cmd repo muts decision =
     (case decision of
        (Inl e, c) \<Rightarrow> \<lparr>dd_result = Inl e, dd_repo = repo, dd_mutations = muts, dd_collector = c\<rparr>
      | (Inr (key, r), c) \<Rightarrow>
          \<lparr>dd_result = Inr (r, emitted (cs_emits cmd) (cs_qualified cmd) key (cs_payload cmd)),
           dd_repo = repo_save ops repo key r,
           dd_mutations = muts @ [\<lparr>mr_aggregate = cs_qualified cmd, mr_id = key, mr_operation = ''save'',
             mr_state = rec_json rops r\<rparr>],
           dd_collector = c\<rparr>)"

section \<open>The loop, from its last step backwards\<close>

text \<open>What a caller observes of a finished loop.\<close>

definition outcome :: "unit res \<times> ('s, 'r) dispatch_state \<Rightarrow> ('s, 'r) dispatched" where
  "outcome fin =
     (case fin of (m, st) \<Rightarrow>
        \<lparr>dd_result =
           rbind m (\<lambda>_. rbind (ordered (ds_hydrated st) HYDRATED) (\<lambda>(key, r). Inr (r, ds_events st))),
         dd_repo = ds_repo st, dd_mutations = ds_mutations st, dd_collector = ds_collector st\<rparr>)"

lemma run_skip: "f x = skip_arm \<Longrightarrow> run_steps f (x # xs) st = run_steps f xs st"
  by (simp add: skip_arm_def)

lemma run_check:
  "f x st = check_arm check st \<Longrightarrow>
   run_steps f (x # xs) st =
     (case check (ds_collector st) of
        (Inl e, c) \<Rightarrow> (Inl e, st\<lparr>ds_collector := c\<rparr>)
      | (Inr _, c) \<Rightarrow> run_steps f xs (st\<lparr>ds_collector := c\<rparr>))"
  by (simp add: check_arm_def split: prod.split sum.split)

definition decide_save ::
  "'r record_ops \<Rightarrow> ('s, 'r) repo_ops \<Rightarrow> command_spec \<Rightarrow> 's \<Rightarrow> unit res \<Rightarrow> (string \<times> value option) list \<Rightarrow>
   bool \<Rightarrow> string \<Rightarrow> 'r \<Rightarrow> (string \<times> 'r) staged" where
  "decide_save rops ops cmd repo boundary seeds later key r =
     sbind (lift boundary) (\<lambda>_.
     lift (if later \<and> repo_find ops repo key \<noteq> None then Inl (already_exists cmd key)
           else Inr (key, seed rops seeds r)))"

definition decide_rules ::
  "regex_engine \<Rightarrow> 'r record_ops \<Rightarrow> ('s, 'r) repo_ops \<Rightarrow> command_spec \<Rightarrow> 's \<Rightarrow> unit res \<Rightarrow>
   (string \<times> value option) list \<Rightarrow> bool \<Rightarrow> string \<Rightarrow> 'r \<Rightarrow> 'r \<Rightarrow> (string \<times> 'r) staged" where
  "decide_rules engine rops ops cmd repo boundary seeds later key r r' =
     sbind (if cs_ensures cmd = [] then sret ()
            else enforce_ensures engine (rec_fields rops r') (rec_fields rops r) (cs_args cmd)
              (cs_ensures cmd) (cs_command cmd)) (\<lambda>_.
     sbind (enforce_invariants engine (rec_fields rops r') (cs_aggregate cmd) (cs_invariants cmd)) (\<lambda>_.
     decide_save rops ops cmd repo boundary seeds later key r'))"

lemma decide_eq:
  "decide engine rops ops cmd repo h apply_mutations boundary seeds =
     sbind (lift (hydrate_record ops repo h cmd)) (\<lambda>(later, key, r).
     sbind (enforce_givens engine (rec_fields rops r) (cs_args cmd) (cs_givens cmd) (cs_command cmd)
       (cs_qualified cmd) key) (\<lambda>_.
     sbind (lift (admissible_transition (rec_fields rops r) (cs_transition cmd) (cs_command cmd))) (\<lambda>_.
     sbind (apply_mutations r) (\<lambda>r'.
     decide_rules engine rops ops cmd repo boundary seeds later key r r'))))"
  by (simp add: decide_def decide_rules_def decide_save_def)

lemma save_and_emit:
  assumes "ds_hydrated st = Some (key, r)" "ds_boundary st = Some boundary" "ds_seeds st = Some seeds"
  shows "outcome (run_steps (dispatch_step engine rops ops cmd) [AS_Save, AS_Emit] st) =
    commit rops ops cmd (ds_repo st) (ds_mutations st)
      (decide_save rops ops cmd (ds_repo st) boundary seeds (ds_defer st) key r (ds_collector st))"
  using assms
  by (cases boundary)
    (simp_all add: outcome_def save_arm_def emit_arm_def ordered_def persist_def commit_def decide_save_def Let_def)

lemma rules_save_and_emit:
  assumes st: "ds_hydrated st = Some (key, r')" "ds_boundary st = Some boundary" "ds_seeds st = Some seeds"
    and old: "ds_old st = (if cs_ensures cmd = [] then None else Some r)"
  shows "outcome (run_steps (dispatch_step engine rops ops cmd)
      [AS_EnforceEnsures, AS_EnforceInvariants, AS_Save, AS_Emit] st) =
    commit rops ops cmd (ds_repo st) (ds_mutations st)
      (decide_rules engine rops ops cmd (ds_repo st) boundary seeds (ds_defer st) key r r' (ds_collector st))"
proof -
  let ?f = "dispatch_step engine rops ops cmd"
  let ?ens = "if cs_ensures cmd = [] then sret ()
    else enforce_ensures engine (rec_fields rops r') (rec_fields rops r) (cs_args cmd) (cs_ensures cmd) (cs_command cmd)"
  let ?inv = "enforce_invariants engine (rec_fields rops r') (cs_aggregate cmd) (cs_invariants cmd)"
  obtain m c1 where ens: "?ens (ds_collector st) = (m, c1)" by fastforce
  obtain n c2 where inv: "?inv c1 = (n, c2)" by fastforce
  have "?f AS_EnforceEnsures st = check_arm ?ens st"
    using st old by (simp add: ensures_arm_def ordered_def check_arm_def)
  moreover have "?f AS_EnforceInvariants (st\<lparr>ds_collector := c1\<rparr>) = check_arm ?inv (st\<lparr>ds_collector := c1\<rparr>)"
    using st by (simp add: invariants_arm_def ordered_def)
  moreover have "outcome (run_steps ?f [AS_Save, AS_Emit] (st\<lparr>ds_collector := c2\<rparr>)) =
      commit rops ops cmd (ds_repo st) (ds_mutations st)
        (decide_save rops ops cmd (ds_repo st) boundary seeds (ds_defer st) key r' c2)"
    using save_and_emit [of "st\<lparr>ds_collector := c2\<rparr>" key r' boundary seeds engine rops ops cmd] st by simp
  ultimately show ?thesis
    using ens inv
    by (cases m; cases n)
      (simp_all add: run_check decide_rules_def sbind_def commit_def outcome_def del: run_steps.simps dispatch_step.simps)
qed

lemma run_steps_filter:
  "(\<And>x. x \<in> set xs \<Longrightarrow> \<not> P x \<Longrightarrow> f x = skip_arm) \<Longrightarrow> run_steps f xs st = run_steps f (filter P xs) st"
proof (induction xs arbitrary: st)
  case (Cons x xs)
  then show ?case
    by (cases "P x") (simp_all add: run_skip skip_arm_def split: prod.split sum.split)
qed simp

text \<open>A step that is performed elsewhere is a no-op of the loop.\<close>

lemma not_kernel_skips: "aggregate_step_site s \<noteq> Site_Kernel \<Longrightarrow> dispatch_step engine rops ops cmd s = skip_arm"
  by (cases s) simp_all

lemma kernel_steps:
  "filter (\<lambda>s. aggregate_step_site s = Site_Kernel) aggregate_order =
     [AS_Hydrate, AS_EnforceGivens, AS_AdmissibleTransition, AS_ApplyMutations,
      AS_EnforceEnsures, AS_EnforceInvariants, AS_Save, AS_Emit]"
  by (simp add: aggregate_order_def)

lemma mutate_and_rest:
  assumes st: "ds_hydrated st = Some (key, r)" "ds_boundary st = Some boundary" "ds_seeds st = Some seeds"
    "ds_apply st = Some apply_mutations"
  shows "outcome (run_steps (dispatch_step engine rops ops cmd)
      [AS_ApplyMutations, AS_EnforceEnsures, AS_EnforceInvariants, AS_Save, AS_Emit] st) =
    commit rops ops cmd (ds_repo st) (ds_mutations st)
      (sbind (apply_mutations r)
        (\<lambda>r'. decide_rules engine rops ops cmd (ds_repo st) boundary seeds (ds_defer st) key r r') (ds_collector st))"
proof -
  let ?f = "dispatch_step engine rops ops cmd"
  obtain m c1 where app: "apply_mutations r (ds_collector st) = (m, c1)" by fastforce
  show ?thesis
  proof (cases m)
    case (Inl e)
    then show ?thesis
      using st app by (simp add: mutate_arm_def ordered_def outcome_def sbind_def commit_def Let_def)
  next
    case (Inr r')
    let ?st = "st\<lparr>ds_old := (if cs_ensures cmd = [] then None else Some r), ds_apply := None, ds_collector := c1,
      ds_hydrated := Some (key, r')\<rparr>"
    have "?f AS_ApplyMutations st = (Inr (), ?st)"
      using st app Inr by (simp add: mutate_arm_def ordered_def Let_def)
    then show ?thesis
      using rules_save_and_emit [of ?st key r' boundary seeds cmd r engine rops ops] st app Inr
      by (simp add: sbind_def del: dispatch_step.simps)
  qed
qed

lemma guards_and_rest:
  assumes st: "ds_hydrated st = Some (key, r)" "ds_boundary st = Some boundary" "ds_seeds st = Some seeds"
    "ds_apply st = Some apply_mutations"
  shows "outcome (run_steps (dispatch_step engine rops ops cmd)
      [AS_EnforceGivens, AS_AdmissibleTransition, AS_ApplyMutations, AS_EnforceEnsures, AS_EnforceInvariants,
       AS_Save, AS_Emit] st) =
    commit rops ops cmd (ds_repo st) (ds_mutations st)
      (sbind (enforce_givens engine (rec_fields rops r) (cs_args cmd) (cs_givens cmd) (cs_command cmd)
         (cs_qualified cmd) key) (\<lambda>_.
       sbind (lift (admissible_transition (rec_fields rops r) (cs_transition cmd) (cs_command cmd))) (\<lambda>_.
       sbind (apply_mutations r)
        (\<lambda>r'. decide_rules engine rops ops cmd (ds_repo st) boundary seeds (ds_defer st) key r r'))) (ds_collector st))"
proof -
  let ?f = "dispatch_step engine rops ops cmd"
  let ?givens = "enforce_givens engine (rec_fields rops r) (cs_args cmd) (cs_givens cmd) (cs_command cmd)
    (cs_qualified cmd) key"
  let ?trans = "admissible_transition (rec_fields rops r) (cs_transition cmd) (cs_command cmd)"
  obtain m c1 where g: "?givens (ds_collector st) = (m, c1)" by fastforce
  let ?st = "st\<lparr>ds_collector := c1\<rparr>"
  have "?f AS_EnforceGivens st = check_arm ?givens st"
    using st by (simp add: givens_arm_def ordered_def)
  moreover have "?f AS_AdmissibleTransition ?st = check_arm (lift ?trans) ?st"
    using st by (simp add: transition_arm_def ordered_def)
  moreover have "outcome (run_steps ?f [AS_ApplyMutations, AS_EnforceEnsures, AS_EnforceInvariants, AS_Save, AS_Emit] ?st) =
      commit rops ops cmd (ds_repo st) (ds_mutations st) (sbind (apply_mutations r)
        (\<lambda>r'. decide_rules engine rops ops cmd (ds_repo st) boundary seeds (ds_defer st) key r r') c1)"
    using mutate_and_rest [of ?st key r boundary seeds apply_mutations engine rops ops cmd] st by simp
  ultimately show ?thesis
    using g
    by (cases m; cases ?trans)
      (simp_all add: run_check sbind_def commit_def outcome_def del: run_steps.simps dispatch_step.simps)
qed

lemma dispatch_refines_spec:
  "dispatch engine rops ops cmd repo muts c h apply_mutations boundary seeds =
   commit rops ops cmd repo muts (decide engine rops ops cmd repo h apply_mutations boundary seeds c)"
proof -
  let ?f = "dispatch_step engine rops ops cmd"
  let ?st = "dispatch_start repo muts c h apply_mutations boundary seeds"
  have "dispatch engine rops ops cmd repo muts c h apply_mutations boundary seeds =
      outcome (run_steps ?f aggregate_order ?st)"
    by (simp add: dispatch_def outcome_def)
  also have "run_steps ?f aggregate_order ?st =
      run_steps ?f [AS_Hydrate, AS_EnforceGivens, AS_AdmissibleTransition, AS_ApplyMutations,
        AS_EnforceEnsures, AS_EnforceInvariants, AS_Save, AS_Emit] ?st"
    unfolding kernel_steps [symmetric] by (rule run_steps_filter) (rule not_kernel_skips)
  also have "outcome \<dots> = commit rops ops cmd repo muts
      (decide engine rops ops cmd repo h apply_mutations boundary seeds c)"
  proof (cases "hydrate_record ops repo h cmd")
    case (Inl e)
    then show ?thesis
      by (simp add: hydrate_arm_def dispatch_start_def ordered_def outcome_def decide_eq commit_def)
  next
    case (Inr a)
    obtain later key r where a: "a = (later, key, r)" by (cases a)
    let ?st' = "?st\<lparr>ds_hydrate := None, ds_defer := later, ds_hydrated := Some (key, r)\<rparr>"
    have "?f AS_Hydrate ?st = (Inr (), ?st')"
      using Inr a by (simp add: hydrate_arm_def dispatch_start_def ordered_def)
    then show ?thesis
      using guards_and_rest [of ?st' key r boundary seeds apply_mutations engine rops ops cmd] Inr a
      by (simp add: decide_eq dispatch_start_def del: dispatch_step.simps)
  qed
  finally show ?thesis .
qed

section \<open>What a decision has checked\<close>

text \<open>In a real dispatch (no collector bound), a decision to save has passed every guard.\<close>

lemma hydrate_record_Inr:
  assumes "hydrate_record ops repo h cmd = Inr (later, key, r)"
  shows "key = hy_id h"
    "(\<exists>build si. h = Create key build si) \<Longrightarrow> key \<noteq> [] \<and> (repo_find ops repo key = None \<or> later)"
    "(\<forall>build si. h \<noteq> Create key build si) \<Longrightarrow> repo_find ops repo key = Some r"
  using assms by (auto simp: hydrate_record_def split: hydrate.splits if_splits option.splits)

lemma enforce_givens_None:
  "enforce_givens engine rf args givens cn qn key None = (Inr (), c) \<longleftrightarrow>
   c = None \<and>
   (\<forall>g\<in>set givens. rule_holds engine \<lparr>ctx_args = args, ctx_instance = rf\<rparr> (gs_expr g) = Inr True)"
  by (auto simp: enforce_givens_def first_failing_Inr)

lemma enforce_ensures_None:
  "enforce_ensures engine settled old args rules cn None = (Inr (), c) \<longleftrightarrow>
   c = None \<and>
   (\<forall>e\<in>set rules. rule_holds engine
      \<lparr>ctx_args = with_old (state_first args settled) old, ctx_instance = settled\<rparr> (es_expr e) = Inr True)"
  by (auto simp: enforce_ensures_def first_failing_Inr)

lemma sbind_Inr_iff:
  "sbind m f c = (Inr b, c') \<longleftrightarrow> (\<exists>a c1. m c = (Inr a, c1) \<and> f a c1 = (Inr b, c'))"
  by (auto simp: sbind_def split: prod.splits sum.splits)

text \<open>A generated mutation leaves the collector unbound when it is.\<close>

definition keeps_unbound :: "'r mutator \<Rightarrow> bool" where
  "keeps_unbound apply_mutations \<longleftrightarrow> (\<forall>r. snd (apply_mutations r None) = None)"

definition decision_checked ::
  "regex_engine \<Rightarrow> 'r record_ops \<Rightarrow> ('s, 'r) repo_ops \<Rightarrow> command_spec \<Rightarrow> 's \<Rightarrow> 'r hydrate \<Rightarrow> 'r mutator \<Rightarrow>
   (string \<times> value option) list \<Rightarrow> string \<Rightarrow> 'r \<Rightarrow> 'r \<Rightarrow> 'r \<Rightarrow> bool" where
  "decision_checked engine rops ops cmd repo h apply_mutations seeds key r0 r1 r2 \<longleftrightarrow>
     key = hy_id h \<and>
     (case h of
        Create k build _ \<Rightarrow> k \<noteq> [] \<and> repo_find ops repo k = None \<and> r0 = build ()
      | Act k \<Rightarrow> repo_find ops repo k = Some r0) \<and>
     list_all (\<lambda>g. rule_holds engine \<lparr>ctx_args = cs_args cmd, ctx_instance = rec_fields rops r0\<rparr> (gs_expr g)
       = Inr True) (cs_givens cmd) \<and>
     admissible_transition (rec_fields rops r0) (cs_transition cmd) (cs_command cmd) = Inr () \<and>
     fst (apply_mutations r0 None) = Inr r1 \<and>
     list_all (\<lambda>e. rule_holds engine
       \<lparr>ctx_args = with_old (state_first (cs_args cmd) (rec_fields rops r1)) (rec_fields rops r0),
        ctx_instance = rec_fields rops r1\<rparr> (es_expr e) = Inr True) (cs_ensures cmd) \<and>
     invariants_hold engine (rec_fields rops r1) (cs_invariants cmd) \<and>
     r2 = seed rops seeds r1"

lemma decide_checked:
  assumes "keeps_unbound apply_mutations"
    and "decide engine rops ops cmd repo h apply_mutations boundary seeds None = (Inr (key, r2), c)"
  shows "\<exists>r0 r1. decision_checked engine rops ops cmd repo h apply_mutations seeds key r0 r1 r2"
proof -
  obtain later k r0 where hyd: "hydrate_record ops repo h cmd = Inr (later, k, r0)"
    using assms(2) by (auto simp: decide_eq split: sum.splits)
  obtain r1 where steps:
      "\<forall>g\<in>set (cs_givens cmd). rule_holds engine \<lparr>ctx_args = cs_args cmd, ctx_instance = rec_fields rops r0\<rparr> (gs_expr g) = Inr True"
      "admissible_transition (rec_fields rops r0) (cs_transition cmd) (cs_command cmd) = Inr ()"
      "apply_mutations r0 None = (Inr r1, None)"
      "decide_rules engine rops ops cmd repo boundary seeds later k r0 r1 None = (Inr (key, r2), c)"
    using assms hyd
    by (auto simp: decide_eq sbind_Inr_iff enforce_givens_None keeps_unbound_def split: sum.splits)
      (metis prod.sel(2))
  have ens: "\<forall>e\<in>set (cs_ensures cmd). rule_holds engine
      \<lparr>ctx_args = with_old (state_first (cs_args cmd) (rec_fields rops r1)) (rec_fields rops r0),
       ctx_instance = rec_fields rops r1\<rparr> (es_expr e) = Inr True"
    using steps(4) by (cases "cs_ensures cmd = []") (auto simp: decide_rules_def sbind_Inr_iff enforce_ensures_None)
  obtain c1 where inv: "enforce_invariants engine (rec_fields rops r1) (cs_aggregate cmd) (cs_invariants cmd) None = (Inr (), c1)"
      "decide_save rops ops cmd repo boundary seeds later k r1 c1 = (Inr (key, r2), c)"
    using steps(4) by (cases "cs_ensures cmd = []") (auto simp: decide_rules_def sbind_Inr_iff enforce_ensures_None)
  have save: "k = key" "r2 = seed rops seeds r1" "later \<longrightarrow> repo_find ops repo key = None"
    using inv(2) by (auto simp: decide_save_def split: sum.splits if_splits)
  show ?thesis
    using hyd steps ens inv(1) save enforce_invariants_None [of engine "rec_fields rops r1" "cs_aggregate cmd" "cs_invariants cmd"]
    by (intro exI [of _ r0] exI [of _ r1])
      (auto simp: decision_checked_def list_all_iff hydrate_record_def split: hydrate.splits if_splits option.splits)
qed

section \<open>Properties\<close>

text \<open>
  C1: the dispatch loop decides and then commits. For every command, record type and repository,
  running the seventeen declared steps over the loop's slots is the same as: hydrate, givens,
  transition, mutation, ensures, invariants, settled-state checks and the deferred existence check,
  in that order and stopping at the first refusal without writing; then one save with its mutation
  record and the declared events. In particular the faults for an empty slot never occur.
\<close>

theorem dispatch_decides_then_commits:
  "dispatch engine rops ops cmd repo muts c h apply_mutations boundary seeds =
   commit rops ops cmd repo muts (decide engine rops ops cmd repo h apply_mutations boundary seeds c)"
  by (rule dispatch_refines_spec)

text \<open>
  C2: a refused dispatch changes nothing. Whatever step refuses, the repository and the list of
  mutation records the caller lent are as they were.
\<close>

theorem refused_dispatch_changes_nothing:
  assumes "dd_result (dispatch engine rops ops cmd repo muts c h apply_mutations boundary seeds) = Inl e"
  shows "dd_repo (dispatch engine rops ops cmd repo muts c h apply_mutations boundary seeds) = repo \<and>
    dd_mutations (dispatch engine rops ops cmd repo muts c h apply_mutations boundary seeds) = muts"
  using assms unfolding dispatch_refines_spec
  by (auto simp: commit_def split: prod.splits sum.splits)

theorem refused_dispatch_changes_nothing_witness:
  "dd_result (dispatch no_engine account_ops mem_ops (withdraw_spec 11) sample_store [] None (Act ''A1'')
     (withdraw 11) (Inr ()) []) = Inl (InvariantViolation (refused_text ''Account'' ''the balance is never negative'')) \<and>
   dd_repo (dispatch no_engine account_ops mem_ops (withdraw_spec 11) sample_store [] None (Act ''A1'')
     (withdraw 11) (Inr ()) []) = sample_store"
proof -
  have "dd_result (dispatch no_engine account_ops mem_ops (withdraw_spec 11) sample_store [] None (Act ''A1'')
     (withdraw 11) (Inr ()) []) = Inl (InvariantViolation (refused_text ''Account'' ''the balance is never negative''))"
    by code_simp
  from this refused_dispatch_changes_nothing [OF this] show ?thesis by simp
qed

text \<open>
  C3: what an accepted dispatch has checked and written. In a real dispatch against the in-memory
  repository, a success means: a creating command named a fresh, non-blank id, an acting one an
  existing record; every given held of the starting record and its transition was admissible;
  every ensures held of the mutated record against the old one, and every invariant held of the
  mutated record; the saved record is that one with its projections seeded. The store answers it
  under the id and is unchanged elsewhere, exactly one mutation record was appended, and the
  events are the declared ones in declared order.
\<close>

theorem accepted_dispatch:
  assumes wf: "mem_sorted repo" and gen: "keeps_unbound apply_mutations"
    and ok: "dispatch engine rops mem_ops cmd repo muts None h apply_mutations boundary seeds = d"
      "dd_result d = Inr (r, events)"
  shows "(\<exists>r0 r1. decision_checked engine rops mem_ops cmd repo h apply_mutations seeds (hy_id h) r0 r1 r) \<and>
    mem_find (dd_repo d) (hy_id h) = Some r \<and>
    (\<forall>key. key \<noteq> hy_id h \<longrightarrow> mem_find (dd_repo d) key = mem_find repo key) \<and>
    mem_sorted (dd_repo d) \<and>
    dd_mutations d = muts @ [\<lparr>mr_aggregate = cs_qualified cmd, mr_id = hy_id h, mr_operation = ''save'',
      mr_state = rec_json rops r\<rparr>] \<and>
    map ev_name events = cs_emits cmd \<and>
    list_all (\<lambda>e. ev_aggregate e = cs_qualified cmd \<and> ev_id e = hy_id h \<and> ev_payload e = cs_payload cmd) events"
proof -
  obtain key r2 c where dec: "decide engine rops mem_ops cmd repo h apply_mutations boundary seeds None = (Inr (key, r2), c)"
    using ok unfolding dispatch_refines_spec by (auto simp: commit_def split: prod.splits sum.splits)
  have d: "d = commit rops mem_ops cmd repo muts (Inr (key, r2), c)"
    using ok(1) dec by (simp add: dispatch_refines_spec)
  obtain r0 r1 where checked: "decision_checked engine rops mem_ops cmd repo h apply_mutations seeds key r0 r1 r2"
    using decide_checked [OF gen dec] by blast
  have key: "key = hy_id h" "r2 = r"
    using checked ok(2) d by (simp_all add: decision_checked_def commit_def)
  have events: "events = emitted (cs_emits cmd) (cs_qualified cmd) key (cs_payload cmd)"
    using ok(2) d by (simp add: commit_def)
  have "\<exists>r0 r1. decision_checked engine rops mem_ops cmd repo h apply_mutations seeds (hy_id h) r0 r1 r"
    using checked key by blast
  then show ?thesis
    using mem.find_save [OF wf] mem.wf_save [OF wf] d key events
    by (simp add: commit_def emitted_def list_all_iff comp_def)
qed

definition sample_withdrawal :: "(account memory, account) dispatched" where
  "sample_withdrawal =
     dispatch no_engine account_ops mem_ops (withdraw_spec 4) sample_store [] None (Act ''A1'')
       (withdraw 4) (Inr ()) []"

theorem accepted_dispatch_witness:
  "mem_sorted sample_store \<and> keeps_unbound (withdraw 4) \<and>
   mem_find (dd_repo sample_withdrawal) ''A1'' =
     Some \<lparr>acc_owner = ''ada'', acc_balance = 6, acc_status = ''open''\<rparr>"
proof -
  have wf: "mem_sorted sample_store"
    by (simp add: mem_sorted_def sample_store_def)
  have gen: "keeps_unbound (withdraw 4)"
    by (simp add: keeps_unbound_def withdraw_def)
  have "dd_result sample_withdrawal =
      Inr (\<lparr>acc_owner = ''ada'', acc_balance = 6, acc_status = ''open''\<rparr>,
        emitted [''Withdrawn'', ''BalanceChanged''] ''Banking::Account'' ''A1'' (cs_payload (withdraw_spec 4)))"
    by code_simp
  from accepted_dispatch [OF wf gen sample_withdrawal_def [symmetric] this] show ?thesis
    using wf gen by simp
qed

end
