(* ===== verification/Entity_Dispatch_Laws.thy ===== *)
theory Entity_Dispatch_Laws
  imports Entity_Dispatch Dispatch_Laws
begin

text \<open>
  The abstract account of an entity command: find the parent, run the element half on it (the same
  computation a delegating aggregate command runs), check the parent's invariants, then commit.
\<close>

section \<open>The element half\<close>

definition element_located :: "('t, 'e) entity_spec \<Rightarrow> 't \<Rightarrow> (nat \<times> 'e) res" where
  "element_located spec parent =
     (case position_of (en_matches spec) (en_get_list spec parent) of
        None \<Rightarrow> Inl (NotFound (NotFoundEntityElementMissingArgs_render (en_entity spec) (en_identity spec)
                  (en_wants spec) (en_aggregate spec) (debug_str (en_parent_id spec))))
      | Some position \<Rightarrow> Inr (position, en_get_list spec parent ! position))"

definition element_decide ::
  "regex_engine \<Rightarrow> 't record_ops \<Rightarrow> 'e record_ops \<Rightarrow> ('t, 'e) entity_spec \<Rightarrow> ('t, 'e) list_update \<Rightarrow>
   'e mutator \<Rightarrow> 't mutator" where
  "element_decide engine tops eops spec get_list_mut apply_mutations parent =
     sbind (lift (element_located spec parent)) (\<lambda>(position, element).
     sbind (lift (corrects_givens engine spec (rec_fields tops parent) (en_givens spec))) (\<lambda>_.
     sbind (staged_rules
       (\<lambda>given. rule_holds engine
          \<lparr>ctx_args = entity_args spec (rec_fields tops parent), ctx_instance = rec_fields eops element\<rparr> (gs_expr given))
       (given_refusal (en_command spec) (en_qualified spec) (en_parent_id spec))
       (filter (\<lambda>given. gs_corrects given = None) (en_givens spec))) (\<lambda>_.
     sbind (lift (admissible_transition (rec_fields eops element) (en_transition spec) (en_command spec))) (\<lambda>_.
     sbind (apply_mutations element) (\<lambda>element'.
     let parent' = get_list_mut (\<lambda>l. l[position := element']) parent
     in sbind (if en_ensures spec = [] then sret ()
               else enforce_ensures engine (rec_fields eops (en_get_list spec parent' ! position)) (rec_fields eops element)
                 (entity_args spec (rec_fields tops parent')) (en_ensures spec) (en_command spec)) (\<lambda>_.
     sret parent'))))))"

lemma sbind_sret_right: "sbind m sret = m"
  by (simp add: sbind_def sret_def fun_eq_iff split: prod.split sum.split)

lemma apply_entity_command_eq:
  "apply_entity_command engine tops eops spec get_list_mut apply_mutations parent =
   element_decide engine tops eops spec get_list_mut apply_mutations parent"
proof (cases "position_of (en_matches spec) (en_get_list spec parent)")
  case None
  then show ?thesis
    by (simp add: apply_entity_command_def entity_order_def locate_element_def element_decide_def
      element_located_def sbind_def fun_eq_iff)
next
  case (Some position)
  then show ?thesis
    by (simp add: apply_entity_command_def entity_order_def locate_element_def element_decide_def
      element_located_def element_givens_def element_transition_def element_mutations_def element_ensures_def
      element_start_def ordered_def lift_Inr sbind_assoc Let_def if_distrib
      del: sret_lift_simps sbind_simps cong: if_cong)
qed

section \<open>The loop\<close>

definition entity_outcome :: "unit res \<times> ('s, 't, 'e) entity_state \<Rightarrow> ('s, 't) dispatched" where
  "entity_outcome fin =
     (case fin of (m, st) \<Rightarrow>
        \<lparr>dd_result = rbind m (\<lambda>_. rbind (ordered (et_hydrated st) HYDRATED) (\<lambda>parent. Inr (parent, et_events st))),
         dd_repo = et_repo st, dd_mutations = et_mutations st, dd_collector = et_collector st\<rparr>)"

text \<open>Consecutive element steps of the loop are the element loop run on the parent in hand.\<close>

lemma run_element_steps:
  assumes "\<And>x. x \<in> set xs \<Longrightarrow> f x = element_arm engine tops eops spec x" "et_hydrated st = Some parent"
  shows "entity_outcome (run_steps f (xs @ ys) st) =
    (case element_loop engine tops eops spec xs (et_half st) parent (et_collector st) of
       (Inl e, c) \<Rightarrow> \<lparr>dd_result = Inl e, dd_repo = et_repo st, dd_mutations = et_mutations st, dd_collector = c\<rparr>
     | (Inr (half, parent'), c) \<Rightarrow>
         entity_outcome (run_steps f ys (st\<lparr>et_collector := c, et_half := half, et_hydrated := Some parent'\<rparr>)))"
  using assms
proof (induction xs arbitrary: st parent)
  case Nil
  then have "st\<lparr>et_hydrated := Some parent\<rparr> = st" by (cases st) simp
  then show ?case by simp
next
  case (Cons x xs)
  obtain m c where run: "element_run engine tops eops spec x (et_half st) parent (et_collector st) = (m, c)"
    by fastforce
  show ?case
  proof (cases m)
    case (Inl e)
    then show ?thesis
      using Cons.prems run by (simp add: element_arm_def ordered_def entity_outcome_def sbind_def)
  next
    case (Inr a)
    obtain half parent' where a: "a = (half, parent')" by (cases a)
    let ?st = "st\<lparr>et_collector := c, et_half := half, et_hydrated := Some parent'\<rparr>"
    have "f x st = (Inr (), ?st)"
      using Cons.prems run Inr a by (simp add: element_arm_def ordered_def)
    then show ?thesis
      using Cons.IH [of ?st parent'] Cons.prems run Inr a by (simp add: sbind_def split: prod.split sum.split)
  qed
qed

lemma element_loop_skip:
  assumes "\<And>x half parent. x \<in> set xs \<Longrightarrow> \<not> P x \<Longrightarrow> element_run engine tops eops spec x half parent = sret (half, parent)"
  shows "element_loop engine tops eops spec xs half parent =
    element_loop engine tops eops spec (filter P xs) half parent"
  using assms
  by (induction xs arbitrary: half parent) (auto intro!: sbind_cong split: prod.split)

definition element_steps :: "entity_step list" where
  "element_steps = [ES_LocateElement, ES_EnforceGivens, ES_AdmissibleTransition, ES_ApplyMutations,
     ES_AdvanceLifecycle, ES_EnforceEnsures]"

lemma element_loop_order:
  "element_loop engine tops eops spec entity_order half parent =
   element_loop engine tops eops spec element_steps half parent"
proof -
  have "filter (\<lambda>s. s \<in> set element_steps) entity_order = element_steps"
    by (simp add: entity_order_def element_steps_def)
  moreover have "element_run engine tops eops spec x half parent = sret (half, parent)"
    if "x \<notin> set element_steps" for x half parent
    using that by (cases x) (simp_all add: element_steps_def)
  ultimately show ?thesis
    using element_loop_skip [of entity_order "\<lambda>s. s \<in> set element_steps"] by metis
qed

definition decide_entity ::
  "regex_engine \<Rightarrow> 't record_ops \<Rightarrow> 'e record_ops \<Rightarrow> ('s, 't) repo_ops \<Rightarrow> ('t, 'e) entity_spec \<Rightarrow> parent_spec \<Rightarrow> 's \<Rightarrow>
   ('t, 'e) list_update \<Rightarrow> 'e mutator \<Rightarrow> (string \<times> value option) list \<Rightarrow> (string \<times> 't) staged" where
  "decide_entity engine tops eops ops spec pspec repo get_list_mut apply_mutations seeds =
     sbind (lift (ok_or (NotFound (NotFoundRecordMissingArgs_render (en_aggregate spec) (pa_identity pspec)
                    (debug_str (en_parent_id spec)))) (repo_find ops repo (en_parent_id spec)))) (\<lambda>parent.
     sbind (element_decide engine tops eops (spec\<lparr>en_parent_in_args := True\<rparr>) get_list_mut apply_mutations parent) (\<lambda>parent'.
     sbind (enforce_invariants engine (rec_fields tops parent') (en_aggregate spec) (pa_invariants pspec)) (\<lambda>_.
     sret (en_parent_id spec, seed tops seeds parent'))))"

text \<open>The commit of an entity command is an aggregate's, under the parent's id.\<close>

definition parent_command :: "('t, 'e) entity_spec \<Rightarrow> parent_spec \<Rightarrow> command_spec" where
  "parent_command spec pspec =
     \<lparr>cs_command = en_command spec, cs_qualified = en_qualified spec, cs_aggregate = en_aggregate spec,
      cs_identity = pa_identity pspec, cs_args = en_args spec, cs_givens = [], cs_transition = None,
      cs_ensures = [], cs_invariants = pa_invariants pspec, cs_emits = pa_emits pspec, cs_payload = pa_payload pspec\<rparr>"

lemma entity_tail:
  assumes "et_hydrated st = Some parent" "et_seeds st = Some seeds"
  shows "entity_outcome (run_steps (dispatch_entity_step engine tops eops ops (spec\<lparr>en_parent_in_args := True\<rparr>) pspec)
      [ES_EnforceInvariants, ES_Save, ES_Emit] st) =
    commit tops ops (parent_command spec pspec) (et_repo st) (et_mutations st)
      (sbind (enforce_invariants engine (rec_fields tops parent) (en_aggregate spec) (pa_invariants pspec)) (\<lambda>_.
       sret (en_parent_id spec, seed tops seeds parent)) (et_collector st))"
proof -
  obtain m c where inv: "enforce_invariants engine (rec_fields tops parent) (en_aggregate spec) (pa_invariants pspec)
      (et_collector st) = (m, c)"
    by fastforce
  show ?thesis
    using assms inv
    by (cases m) (simp_all add: entity_outcome_def parent_invariants_arm_def parent_save_arm_def parent_emit_arm_def
      ordered_def persist_def commit_def parent_command_def sbind_def Let_def)
qed

lemma dispatch_entity_refines_spec:
  "dispatch_entity engine tops eops ops spec pspec repo muts c get_list_mut apply_mutations seeds =
   commit tops ops (parent_command spec pspec) repo muts
     (decide_entity engine tops eops ops spec pspec repo get_list_mut apply_mutations seeds c)"
proof (cases "repo_find ops repo (en_parent_id spec)")
  case None
  then show ?thesis
    by (simp add: dispatch_entity_def entity_order_def entity_state_start_def entity_skip_arm_def hydrate_parent_arm_def
      decide_entity_def commit_def)
next
  case (Some parent)
  let ?spec = "spec\<lparr>en_parent_in_args := True\<rparr>"
  let ?f = "dispatch_entity_step engine tops eops ops ?spec pspec"
  let ?st = "entity_state_start repo muts c get_list_mut apply_mutations seeds"
  let ?st1 = "?st\<lparr>et_hydrated := Some parent\<rparr>"
  let ?half = "element_start get_list_mut apply_mutations"
  have "dispatch_entity engine tops eops ops spec pspec repo muts c get_list_mut apply_mutations seeds =
      entity_outcome (run_steps ?f entity_order ?st)"
    by (simp add: dispatch_entity_def entity_outcome_def)
  also have "run_steps ?f entity_order ?st = run_steps ?f (element_steps @ [ES_EnforceInvariants, ES_Save, ES_Emit]) ?st1"
    using Some by (simp add: entity_order_def element_steps_def entity_skip_arm_def hydrate_parent_arm_def entity_state_start_def)
  also have "entity_outcome \<dots> =
      (case element_loop engine tops eops ?spec element_steps ?half parent c of
         (Inl e, c) \<Rightarrow> \<lparr>dd_result = Inl e, dd_repo = repo, dd_mutations = muts, dd_collector = c\<rparr>
       | (Inr (half, parent'), c) \<Rightarrow>
           entity_outcome (run_steps ?f [ES_EnforceInvariants, ES_Save, ES_Emit]
             (?st1\<lparr>et_collector := c, et_half := half, et_hydrated := Some parent'\<rparr>)))"
  proof -
    have "?f x = element_arm engine tops eops ?spec x" if "x \<in> set element_steps" for x
      using that by (auto simp: element_steps_def)
    moreover have "et_hydrated ?st1 = Some parent" by simp
    ultimately show ?thesis
      using run_element_steps [of element_steps ?f engine tops eops ?spec ?st1 parent "[ES_EnforceInvariants, ES_Save, ES_Emit]"]
      by (simp only: entity_state_start_def entity_state.simps)
  qed
  also have "\<dots> = commit tops ops (parent_command spec pspec) repo muts
      (sbind (apply_entity_command engine tops eops ?spec get_list_mut apply_mutations parent) (\<lambda>parent'.
       sbind (enforce_invariants engine (rec_fields tops parent') (en_aggregate spec) (pa_invariants pspec)) (\<lambda>_.
       sret (en_parent_id spec, seed tops seeds parent'))) c)"
    unfolding apply_entity_command_def element_loop_order
    by (cases "element_loop engine tops eops ?spec element_steps ?half parent c")
      (auto simp: sbind_def [of "element_loop _ _ _ _ _ _ _"] sbind_assoc entity_tail entity_state_start_def commit_def [of _ _ _ _ _ "(Inl _, _)"]
        simp del: run_steps.simps split: sum.split)
  finally show ?thesis
    using Some by (simp add: decide_entity_def apply_entity_command_eq)
qed

section \<open>What an accepted entity command has done\<close>

lemma position_of_Some:
  "position_of p xs = Some i \<Longrightarrow> i < length xs \<and> p (xs ! i) \<and> (\<forall>j<i. \<not> p (xs ! j))"
proof (induction xs arbitrary: i)
  case (Cons x xs)
  then show ?case
    by (auto simp: nth_Cons split: if_splits nat.split)
qed simp

definition element_checked ::
  "regex_engine \<Rightarrow> 't record_ops \<Rightarrow> 'e record_ops \<Rightarrow> ('t, 'e) entity_spec \<Rightarrow> ('t, 'e) list_update \<Rightarrow>
   'e mutator \<Rightarrow> 't \<Rightarrow> 't \<Rightarrow> nat \<Rightarrow> 'e \<Rightarrow> bool" where
  "element_checked engine tops eops spec get_list_mut apply_mutations parent parent' i element' \<longleftrightarrow>
     i < length (en_get_list spec parent) \<and> en_matches spec (en_get_list spec parent ! i) \<and>
     list_all (\<lambda>e. \<not> en_matches spec e) (take i (en_get_list spec parent)) \<and>
     corrects_givens engine spec (rec_fields tops parent) (en_givens spec) = Inr () \<and>
     list_all (\<lambda>g. gs_corrects g = None \<longrightarrow> rule_holds engine
        \<lparr>ctx_args = entity_args spec (rec_fields tops parent),
         ctx_instance = rec_fields eops (en_get_list spec parent ! i)\<rparr> (gs_expr g) = Inr True) (en_givens spec) \<and>
     admissible_transition (rec_fields eops (en_get_list spec parent ! i)) (en_transition spec) (en_command spec) = Inr () \<and>
     fst (apply_mutations (en_get_list spec parent ! i) None) = Inr element' \<and>
     parent' = get_list_mut (\<lambda>l. l[i := element']) parent"

lemma element_decide_checked:
  assumes gen: "keeps_unbound apply_mutations"
    and ok: "element_decide engine tops eops spec get_list_mut apply_mutations parent None = (Inr parent', c)"
  shows "c = None \<and> (\<exists>i element'. element_checked engine tops eops spec get_list_mut apply_mutations parent parent' i element')"
proof -
  obtain i where i: "position_of (en_matches spec) (en_get_list spec parent) = Some i"
    using ok by (auto simp: element_decide_def element_located_def split: option.splits)
  have before: "list_all (\<lambda>e. \<not> en_matches spec e) (take i (en_get_list spec parent))"
    using position_of_Some [OF i] by (auto simp: list_all_length)
  let ?e = "en_get_list spec parent ! i"
  let ?given = "\<lambda>given. rule_holds engine
    \<lparr>ctx_args = entity_args spec (rec_fields tops parent), ctx_instance = rec_fields eops ?e\<rparr> (gs_expr given)"
  let ?parent = "\<lambda>element'. get_list_mut (\<lambda>l. l[i := element']) parent"
  let ?ens = "\<lambda>element'. if en_ensures spec = [] then sret ()
    else enforce_ensures engine (rec_fields eops (en_get_list spec (?parent element') ! i)) (rec_fields eops ?e)
      (entity_args spec (rec_fields tops (?parent element'))) (en_ensures spec) (en_command spec)"
  obtain element' c2 c3 where steps:
      "corrects_givens engine spec (rec_fields tops parent) (en_givens spec) = Inr ()"
      "first_failing ?given (given_refusal (en_command spec) (en_qualified spec) (en_parent_id spec))
         (filter (\<lambda>given. gs_corrects given = None) (en_givens spec)) = Inr ()"
      "admissible_transition (rec_fields eops ?e) (en_transition spec) (en_command spec) = Inr ()"
      "apply_mutations ?e None = (Inr element', c2)" "?ens element' c2 = (Inr (), c3)"
      "parent' = ?parent element'" "c = c3"
    using ok i unfolding element_decide_def element_located_def Let_def
    by (simp add: sbind_Inr_iff lift_def del: sbind_simps split: sum.splits) (elim exE conjE, blast)
  have "c2 = None"
    using gen steps(4) by (metis keeps_unbound_def prod.sel(2))
  then have "c = None"
    using steps(5,7) enforce_ensures_None by (cases "en_ensures spec = []") auto
  note app = steps(4) and rest = steps(1,3,6) this steps(2) [unfolded first_failing_Inr]
  show ?thesis
    using position_of_Some [OF i] before app rest
    by (auto simp: element_checked_def list_all_iff)
qed

text \<open>
  C8: an entity command is the element half between a parent's hydration and its save. For every
  parent and element type, \<open>dispatch_entity\<close> finds the parent, runs on it exactly the computation a
  delegating aggregate command runs (\<open>apply_entity_command\<close>), checks the parent's invariants, and then
  commits once under the parent's id; a refusal anywhere writes nothing.
\<close>

theorem dispatch_entity_decides_then_commits:
  "dispatch_entity engine tops eops ops spec pspec repo muts c get_list_mut apply_mutations seeds =
   commit tops ops (parent_command spec pspec) repo muts
     (sbind (lift (ok_or (NotFound (NotFoundRecordMissingArgs_render (en_aggregate spec) (pa_identity pspec)
                    (debug_str (en_parent_id spec)))) (repo_find ops repo (en_parent_id spec)))) (\<lambda>parent.
      sbind (apply_entity_command engine tops eops (spec\<lparr>en_parent_in_args := True\<rparr>) get_list_mut apply_mutations parent) (\<lambda>parent'.
      sbind (enforce_invariants engine (rec_fields tops parent') (en_aggregate spec) (pa_invariants pspec)) (\<lambda>_.
      sret (en_parent_id spec, seed tops seeds parent')))) c)"
  by (simp add: dispatch_entity_refines_spec decide_entity_def apply_entity_command_eq)

text \<open>
  C9: an entity command changes one element. When \<open>apply_entity_command\<close> succeeds in a real dispatch,
  the element it changed is the first one that matches, every given held of it (and every
  \<open>corrects\<close> given of the parent), its transition was admissible, and, for a generated accessor that
  updates the list it reads, the parent's list afterwards is the old list with that one element
  replaced by its mutation.
\<close>

theorem entity_command_changes_one_element:
  assumes gen: "keeps_unbound apply_mutations"
    and lens: "\<And>f p. en_get_list spec (get_list_mut f p) = f (en_get_list spec p)"
    and ok: "apply_entity_command engine tops eops spec get_list_mut apply_mutations parent None = (Inr parent', c)"
  shows "\<exists>i element'. element_checked engine tops eops spec get_list_mut apply_mutations parent parent' i element' \<and>
    en_get_list spec parent' = (en_get_list spec parent)[i := element'] \<and>
    length (en_get_list spec parent') = length (en_get_list spec parent)"
proof -
  obtain i element' where "element_checked engine tops eops spec get_list_mut apply_mutations parent parent' i element'"
    using element_decide_checked [OF gen ok [unfolded apply_entity_command_eq]] by blast
  moreover from this have "en_get_list spec parent' = (en_get_list spec parent)[i := element']"
    using lens by (simp add: element_checked_def)
  ultimately show ?thesis by auto
qed

theorem entity_command_changes_one_element_witness:
  "keeps_unbound (set_quantity 5) \<and> (\<forall>f p. en_get_list line_spec (update_lines f p) = f (en_get_list line_spec p)) \<and>
   (\<exists>i element'. (od_lines sample_order)[i := element'] =
      [\<lparr>ol_sku = ''tea'', ol_quantity = 2\<rparr>, \<lparr>ol_sku = ''jam'', ol_quantity = 5\<rparr>])"
proof -
  let ?after = "sample_order\<lparr>od_lines := [\<lparr>ol_sku = ''tea'', ol_quantity = 2\<rparr>, \<lparr>ol_sku = ''jam'', ol_quantity = 5\<rparr>]\<rparr>"
  have gen: "keeps_unbound (set_quantity 5)"
    by (simp add: keeps_unbound_def set_quantity_def)
  have lens: "en_get_list line_spec (update_lines f p) = f (en_get_list line_spec p)" for f p
    by (simp add: line_spec_def update_lines_def)
  have "apply_entity_command no_engine order_ops line_ops line_spec update_lines (set_quantity 5) sample_order None = (Inr ?after, None)"
    by code_simp
  from entity_command_changes_one_element [OF gen lens this] obtain i element' where
      "en_get_list line_spec ?after = (en_get_list line_spec sample_order)[i := element']"
    by blast
  then have "(od_lines sample_order)[i := element'] = od_lines ?after"
    by (simp add: line_spec_def)
  then show ?thesis
    using gen lens by (intro conjI exI [of _ i] exI [of _ element']) simp_all
qed

end
