(* ===== verification/Comparisons.thy ===== *)
theory Comparisons
  imports Float64 "HOL-Library.Multiset"
begin

text \<open>
  \<open>std::cmp::Ordering\<close> and the stable sort \<open>slice::sort_by\<close>, with the contract a comparison must
  keep for a sort by it to mean anything (locale \<open>ordering_on\<close>). The comparison of texts and that of
  floats other than NaN keep it. None of this is code of the repository.
\<close>

fun insort_by :: "('a \<Rightarrow> 'a \<Rightarrow> ordering) \<Rightarrow> 'a \<Rightarrow> 'a list \<Rightarrow> 'a list" where
  "insort_by cmp x [] = [x]"
| "insort_by cmp x (y # ys) = (if cmp x y = Greater then y # insort_by cmp x ys else x # y # ys)"

definition sort_by :: "('a \<Rightarrow> 'a \<Rightarrow> ordering) \<Rightarrow> 'a list \<Rightarrow> 'a list" where
  "sort_by cmp xs = foldr (insort_by cmp) xs []"

definition cmp_of :: "'a :: linorder \<Rightarrow> 'a \<Rightarrow> ordering" where
  "cmp_of a b = (if a < b then Less else if a = b then Equal else Greater)"

fun then_with :: "ordering \<Rightarrow> ordering \<Rightarrow> ordering" where
  "then_with Equal o2 = o2"
| "then_with o1 o2 = o1"

fun ord_reverse :: "ordering \<Rightarrow> ordering" where
  "ord_reverse Less = Greater"
| "ord_reverse Equal = Equal"
| "ord_reverse Greater = Less"

lemma ord_reverse_eq [simp]:
  "ord_reverse a = Less \<longleftrightarrow> a = Greater" "ord_reverse a = Equal \<longleftrightarrow> a = Equal"
  "ord_reverse a = Greater \<longleftrightarrow> a = Less" "ord_reverse (ord_reverse a) = a"
  by (cases a; simp)+

lemma then_with_eq:
  "then_with a b = Less \<longleftrightarrow> a = Less \<or> (a = Equal \<and> b = Less)"
  "then_with a b = Greater \<longleftrightarrow> a = Greater \<or> (a = Equal \<and> b = Greater)"
  by (cases a; simp)+

lemma mset_insort_by [simp]: "mset (insort_by cmp x ys) = add_mset x (mset ys)"
  by (induction ys) simp_all

lemma mset_sort_by [simp]: "mset (sort_by cmp xs) = mset xs"
  by (induction xs) (simp_all add: sort_by_def)

lemma set_insort_by [simp]: "set (insort_by cmp x ys) = insert x (set ys)"
  by (induction ys) auto

lemma set_sort_by [simp]: "set (sort_by cmp xs) = set xs"
  using mset_sort_by [of cmp xs] by (metis set_mset_mset)

lemma length_sort_by [simp]: "length (sort_by cmp xs) = length xs"
  using mset_sort_by [of cmp xs] by (metis size_mset)

lemma sort_by_Cons: "sort_by cmp (x # xs) = insort_by cmp x (sort_by cmp xs)"
  by (simp add: sort_by_def)

text \<open>What precedes what after a stable sort by \<open>cmp\<close> of a list already in the order \<open>R\<close>.\<close>

definition before :: "('a \<Rightarrow> 'a \<Rightarrow> ordering) \<Rightarrow> ('a \<Rightarrow> 'a \<Rightarrow> bool) \<Rightarrow> 'a \<Rightarrow> 'a \<Rightarrow> bool" where
  "before cmp R a b \<longleftrightarrow> cmp a b = Less \<or> (cmp a b = Equal \<and> R a b)"

section \<open>What a comparison promises\<close>

locale ordering_on =
  fixes ok :: "'a \<Rightarrow> bool" and cmp :: "'a \<Rightarrow> 'a \<Rightarrow> ordering"
  assumes flip: "ok a \<Longrightarrow> ok b \<Longrightarrow> cmp b a = ord_reverse (cmp a b)"
    and trans: "ok a \<Longrightarrow> ok b \<Longrightarrow> ok c \<Longrightarrow> cmp a b \<noteq> Greater \<Longrightarrow> cmp b c \<noteq> Greater \<Longrightarrow> cmp a c \<noteq> Greater"
begin

lemma same: "ok a \<Longrightarrow> cmp a a = Equal"
  using flip [of a a] by (cases "cmp a a") auto

lemma insort_by_before:
  assumes "ok x" "list_all ok ys" "sorted_wrt (before cmp R) ys" "\<forall>y\<in>set ys. R x y"
  shows "sorted_wrt (before cmp R) (insort_by cmp x ys)"
  using assms(2-)
proof (induction ys)
  case (Cons y ys)
  have ok: "ok y" "list_all ok ys"
    using Cons.prems by simp_all
  show ?case
  proof (cases "cmp x y = Greater")
    case True
    then have "cmp y x = Less"
      using flip [OF assms(1) ok(1)] by simp
    then show ?thesis
      using Cons True by (simp add: before_def)
  next
    case False
    have "cmp x z \<noteq> Greater" if "z \<in> set (y # ys)" for z
    proof (cases "z = y")
      case other: False
      then have "cmp y z \<noteq> Greater" "ok z"
        using that Cons.prems by (auto simp: before_def list_all_iff)
      then show ?thesis
        using trans [OF assms(1) ok(1)] False by blast
    qed (use False in simp)
    then have "before cmp R x z" if "z \<in> set (y # ys)" for z
      using that Cons.prems(3) by (cases "cmp x z") (auto simp: before_def)
    then show ?thesis
      using Cons.prems False by simp
  qed
qed simp

lemma sort_by_before:
  "list_all ok xs \<Longrightarrow> sorted_wrt R xs \<Longrightarrow> sorted_wrt (before cmp R) (sort_by cmp xs)"
proof (induction xs)
  case (Cons x xs)
  have "list_all ok (sort_by cmp xs)"
    using Cons.prems by (simp add: list_all_iff)
  then show ?case
    using Cons by (simp add: sort_by_Cons insort_by_before)
qed (simp add: sort_by_def)

end

interpretation text_order: ordering_on "\<lambda>_. True" "cmp_of :: 'a :: linorder \<Rightarrow> 'a \<Rightarrow> ordering"
  by unfold_locales (auto simp: cmp_of_def split: if_splits)

section \<open>Floats\<close>

lemma in_units_lower:
  "u \<le> v \<Longrightarrow> v \<le> e \<Longrightarrow> in_units s m e u = in_units s m e v * 2 ^ nat (v - u)"
  by (simp add: in_units_def mult.assoc power_add [symmetric] nat_add_distrib [symmetric])

text \<open>The same comparison in any unit no larger than both exponents.\<close>

lemma f64_cmp_units:
  assumes "u \<le> e" "u \<le> f"
  shows "f64_cmp (F_Fin s m e) (F_Fin t n f) = Some (cmp_of (in_units s m e u) (in_units t n f u))"
proof -
  let ?v = "min e f"
  have "in_units s m e u = in_units s m e ?v * 2 ^ nat (?v - u)"
    "in_units t n f u = in_units t n f ?v * 2 ^ nat (?v - u)"
    using assms in_units_lower [of u ?v e s m] in_units_lower [of u ?v f t n] by auto
  then show ?thesis
    by (simp add: Let_def cmp_of_def)
qed

lemma f64_cmp_flip: "f64_cmp y x = map_option ord_reverse (f64_cmp x y)"
  by (cases x; cases y) (auto simp: Let_def min.commute)

definition float_cmp :: "f64 \<Rightarrow> f64 \<Rightarrow> ordering" where
  "float_cmp x y = (case f64_cmp x y of Some c \<Rightarrow> c | None \<Rightarrow> Equal)"

interpretation float_order: ordering_on "\<lambda>x. x \<noteq> F_NaN" float_cmp
proof
  fix a b :: f64
  assume "a \<noteq> F_NaN" "b \<noteq> F_NaN"
  then show "float_cmp b a = ord_reverse (float_cmp a b)"
    using f64_cmp_flip [of b a] by (cases "f64_cmp a b") (simp_all add: float_cmp_def)
next
  fix a b c :: f64
  assume ok: "a \<noteq> F_NaN" "b \<noteq> F_NaN" "c \<noteq> F_NaN"
    and le: "float_cmp a b \<noteq> Greater" "float_cmp b c \<noteq> Greater"
  show "float_cmp a c \<noteq> Greater"
  proof (cases "\<exists>s m e t n f r k g. a = F_Fin s m e \<and> b = F_Fin t n f \<and> c = F_Fin r k g")
    case True
    then obtain s m e t n f r k g where fin: "a = F_Fin s m e" "b = F_Fin t n f" "c = F_Fin r k g"
      by blast
    let ?u = "min e (min f g)"
    have "float_cmp a b = cmp_of (in_units s m e ?u) (in_units t n f ?u)"
      "float_cmp b c = cmp_of (in_units t n f ?u) (in_units r k g ?u)"
      "float_cmp a c = cmp_of (in_units s m e ?u) (in_units r k g ?u)"
      unfolding float_cmp_def fin by (subst f64_cmp_units [of ?u]; simp)+
    then show ?thesis
      using le text_order.trans by auto
  next
    case False
    then show ?thesis
      using ok le by (cases a; cases b; cases c) (auto simp: float_cmp_def Let_def split: if_splits)
  qed
qed

text \<open>A comparison of keys compares what the keys are read from.\<close>

lemma ordering_on_key:
  "ordering_on ok cmp \<Longrightarrow> ordering_on (\<lambda>x. ok (f x)) (\<lambda>a b. cmp (f a) (f b))"
  unfolding ordering_on_def by blast

end
