(* ===== verification/Queries.thy ===== *)
theory Queries
  imports Store Comparisons
begin

text \<open>
  The where clause, order and cap every query shares: \<open>rust/src/kernel/query_comparators.rs\<close> with
  \<open>vocab/query_comparator.rs\<close>, \<open>query_ordering.rs\<close>, the filter of \<open>repository.rs\<close>, and
  \<open>apply_reference_hops\<close> of \<open>read_model.rs\<close>.

  \<open>slice::sort_by\<close> is a stable sort; it is the insertion sort of \<open>Comparisons\<close> here. For a comparison that is
  not a total preorder Rust leaves the order unspecified, and the theorems about order exclude it.
\<close>

type_synonym rows = "(string \<times> json) list"
type_synonym cross_domain = "(string \<times> aggregate_scan) list"

definition sort_by_id :: "(string \<times> 'a) list \<Rightarrow> (string \<times> 'a) list" where
  "sort_by_id rows = sort_by (\<lambda>a b. cmp_of (fst a) (fst b)) rows"

section \<open>Comparators\<close>

datatype query_comparator =
    QC_Eq | QC_Ne | QC_Gt | QC_Gte | QC_Lt | QC_Lte | QC_In | QC_Contains | QC_NoneInState

definition all_comparators :: "query_comparator list" where
  "all_comparators = [QC_Eq, QC_Ne, QC_Gt, QC_Gte, QC_Lt, QC_Lte, QC_In, QC_Contains, QC_NoneInState]"

fun comparator_name :: "query_comparator \<Rightarrow> string" where
  "comparator_name QC_Eq = ''eq''"
| "comparator_name QC_Ne = ''ne''"
| "comparator_name QC_Gt = ''gt''"
| "comparator_name QC_Gte = ''gte''"
| "comparator_name QC_Lt = ''lt''"
| "comparator_name QC_Lte = ''lte''"
| "comparator_name QC_In = ''in''"
| "comparator_name QC_Contains = ''contains''"
| "comparator_name QC_NoneInState = ''none_in_state''"

definition comparator_from_name :: "string \<Rightarrow> query_comparator option" where
  "comparator_from_name name = find (\<lambda>c. comparator_name c = name) all_comparators"

fun is_number :: "json \<Rightarrow> bool" where
  "is_number (J_Num n raw) = True"
| "is_number (J_Float n) = True"
| "is_number _ = False"

definition both_numbers :: "json \<Rightarrow> json \<Rightarrow> bool" where
  "both_numbers held want \<longleftrightarrow> is_number held \<and> is_number want"

fun number_of :: "json \<Rightarrow> f64" where
  "number_of (J_Num n raw) = n"
| "number_of (J_Float n) = n"
| "number_of _ = F_NaN"

text \<open>\<open>to_s\<close>: Ruby's text of a scalar.\<close>

fun to_s :: "json \<Rightarrow> string" where
  "to_s (J_Str s) = s"
| "to_s (J_Num n (Some raw)) = raw"
| "to_s (J_Num n None) =
     (if fract_zero n \<and> f64_lt (f64_abs n) (f64_of_int 1000000000000000)
      then show_i64 (f64_to_i64 n) else f64_display n)"
| "to_s (J_Float n) =
     (let rendered = f64_display n
      in if CHR ''.'' \<in> set rendered \<or> CHR ''e'' \<in> set rendered \<or> CHR ''E'' \<in> set rendered
         then rendered else rendered @ ''.0'')"
| "to_s (J_Bool b) = show_bool b"
| "to_s J_Null = []"
| "to_s other = to_json_string other"

text \<open>\<open>comparable\<close>: a value object reduces one level, to its first numeric or its only member.\<close>

fun comparable :: "json \<Rightarrow> json" where
  "comparable (J_Object flds) =
     (case find (\<lambda>(k, v). is_number v) flds of
        Some (k, numeric) \<Rightarrow> numeric
      | None \<Rightarrow> (case flds of [(k, v)] \<Rightarrow> v | _ \<Rightarrow> J_Object flds))"
| "comparable v = v"

fun members :: "json \<Rightarrow> string list" where
  "members (J_Array items) = map (\<lambda>item. to_s (comparable item)) items"
| "members v = map trim (split_str '','' (to_s v))"

fun contains :: "json \<Rightarrow> json \<Rightarrow> bool" where
  "contains (J_Array items) want = List.member (members (J_Array items)) (to_s want)"
| "contains held want = str_contains (to_s want) (to_s held)"

fun comparator_matches :: "query_comparator \<Rightarrow> json \<Rightarrow> json \<Rightarrow> bool" where
  "comparator_matches QC_Eq held want = json_eq held want"
| "comparator_matches QC_Ne held want = (\<not> json_eq held want)"
| "comparator_matches QC_Gt held want = (both_numbers held want \<and> f64_lt (number_of want) (number_of held))"
| "comparator_matches QC_Gte held want = (both_numbers held want \<and> f64_le (number_of want) (number_of held))"
| "comparator_matches QC_Lt held want = (both_numbers held want \<and> f64_lt (number_of held) (number_of want))"
| "comparator_matches QC_Lte held want = (both_numbers held want \<and> f64_le (number_of held) (number_of want))"
| "comparator_matches QC_In held want = List.member (members want) (to_s held)"
| "comparator_matches QC_Contains held want = contains held want"
| "comparator_matches QC_NoneInState held want = True"

definition or_null :: "json option \<Rightarrow> json" where
  "or_null v = (case v of Some j \<Rightarrow> j | None \<Rightarrow> J_Null)"

fun none_in_state_search :: "cross_domain \<Rightarrow> string \<Rightarrow> string \<Rightarrow> string \<Rightarrow> bool" where
  "none_in_state_search [] aggregate_name state held_id = True"
| "none_in_state_search ((domain, store) # rest) aggregate_name state held_id =
     (case store (domain @ ''::'' @ aggregate_name) of
        None \<Rightarrow> none_in_state_search rest aggregate_name state held_id
      | Some entries \<Rightarrow>
          (case map_of entries held_id of
             None \<Rightarrow> True
           | Some r \<Rightarrow> to_s (comparable (or_null (dig r ''state''))) \<noteq> state))"

definition none_in_state_matches :: "cross_domain \<Rightarrow> json \<Rightarrow> json \<Rightarrow> bool" where
  "none_in_state_matches cross held want =
     (case split_once '':'' (to_s want) of
        None \<Rightarrow> True
      | Some (aggregate_name, state) \<Rightarrow> none_in_state_search cross aggregate_name state (to_s held))"

section \<open>Filtering\<close>

definition entry_matches :: "json \<Rightarrow> string \<Rightarrow> query_comparator \<Rightarrow> json \<Rightarrow> cross_domain \<Rightarrow> bool" where
  "entry_matches r field comparator want cross =
     (let held = comparable (or_null (dig r field))
      in if comparator = QC_NoneInState then none_in_state_matches cross held want
         else comparator_matches comparator held want)"

definition filter_entries_cross_domain ::
  "rows \<Rightarrow> string \<Rightarrow> query_comparator \<Rightarrow> json \<Rightarrow> cross_domain \<Rightarrow> rows" where
  "filter_entries_cross_domain entries field comparator want cross =
     sort_by_id (filter (\<lambda>(key, r). entry_matches r field comparator (comparable want) cross) entries)"

definition filter_entries :: "rows \<Rightarrow> string \<Rightarrow> query_comparator \<Rightarrow> json \<Rightarrow> rows" where
  "filter_entries entries field comparator want = filter_entries_cross_domain entries field comparator want []"

section \<open>Order, offset and limit\<close>

datatype nulls_mode = Nulls_Native | Nulls_First | Nulls_Last

record order_by =
  ob_field :: string
  ob_descending :: bool
  ob_nulls :: nulls_mode

datatype limit = Limit_Literal i64 | Limit_Arg string

definition resolve_limit :: "limit \<Rightarrow> json \<Rightarrow> nat" where
  "resolve_limit l args =
     (let raw = (case l of
          Limit_Literal n \<Rightarrow> n
        | Limit_Arg name \<Rightarrow>
            (case Option.bind (json_get args name) json_as_i64 of Some n \<Rightarrow> n | None \<Rightarrow> 0))
      in nat (max 0 (sint raw)))"

definition order_key :: "json \<Rightarrow> string \<Rightarrow> json" where
  "order_key r field = comparable (or_null (dig r field))"

definition is_null :: "json \<Rightarrow> bool" where
  "is_null j = json_eq j J_Null"

definition compare_comparable :: "json \<Rightarrow> json \<Rightarrow> ordering" where
  "compare_comparable a b =
     (if is_number a \<and> is_number b
      then float_cmp (number_of a) (number_of b)
      else (case (a, b) of (J_Str x, J_Str y) \<Rightarrow> cmp_of x y | _ \<Rightarrow> Equal))"

definition apply_declared_order :: "rows \<Rightarrow> order_by \<Rightarrow> rows" where
  "apply_declared_order rows order =
     (let null_rows = filter (\<lambda>(key, r). is_null (order_key r (ob_field order))) rows;
          valued_rows = filter (\<lambda>(key, r). \<not> is_null (order_key r (ob_field order))) rows;
          valued_rows = sort_by (\<lambda>(ka, a) (kb, b).
            compare_comparable (order_key a (ob_field order)) (order_key b (ob_field order))) valued_rows;
          (valued_rows, null_rows) =
            (if ob_descending order then (rev valued_rows, rev null_rows) else (valued_rows, null_rows))
      in (case ob_nulls order of
            Nulls_First \<Rightarrow> null_rows @ valued_rows
          | Nulls_Last \<Rightarrow> valued_rows @ null_rows
          | Nulls_Native \<Rightarrow> if \<not> ob_descending order then null_rows @ valued_rows else valued_rows @ null_rows))"

definition apply_ordering ::
  "rows \<Rightarrow> order_by option \<Rightarrow> limit option \<Rightarrow> limit option \<Rightarrow> json \<Rightarrow> rows" where
  "apply_ordering rows order offset lim args =
     (let rows = sort_by_id rows;
          rows = (case order of None \<Rightarrow> rows | Some ob \<Rightarrow> apply_declared_order rows ob);
          rows = (case offset of None \<Rightarrow> rows | Some l \<Rightarrow> drop (min (resolve_limit l args) (length rows)) rows)
      in (case lim of None \<Rightarrow> rows | Some l \<Rightarrow> take (resolve_limit l args) rows))"

section \<open>Conditions and reference hops\<close>

datatype query_condition_value =
    QV_Literal string | QV_NumericLiteral f64 | QV_Arg string | QV_Null

fun resolve_value :: "query_condition_value \<Rightarrow> json \<Rightarrow> json" where
  "resolve_value (QV_Literal text) args = J_Str text"
| "resolve_value (QV_NumericLiteral n) args = J_Num n None"
| "resolve_value (QV_Arg name) args = or_null (json_get args name)"
| "resolve_value QV_Null args = J_Null"

record query_condition =
  qc_field :: string
  qc_comparator :: query_comparator
  qc_value :: query_condition_value

record hop_step =
  hs_via_field :: string
  hs_target_aggregate :: string

record reference_hop =
  rh_via_field :: string
  rh_target_aggregate :: string
  rh_through :: "hop_step list"
  rh_inner_field :: string
  rh_inner_comparator :: query_comparator
  rh_inner_value :: query_condition_value

definition unknown_aggregate :: "string \<Rightarrow> refusal" where
  "unknown_aggregate aggregate = TypeMismatch (''unknown aggregate '' @ debug_str aggregate)"

definition scan_known :: "aggregate_scan \<Rightarrow> string \<Rightarrow> rows res" where
  "scan_known store aggregate = ok_or (unknown_aggregate aggregate) (store aggregate)"

definition ids_of :: "rows \<Rightarrow> json list" where
  "ids_of entries = map (\<lambda>(key, r). J_Str key) entries"

text \<open>
  The chain of a hop, innermost last; \<open>hop_ids\<close> walks it inside out: the ids of the last target that
  satisfy the inner clause, then of each earlier target whose next field points at one of them.
\<close>

definition hop_chain :: "reference_hop \<Rightarrow> (string \<times> string) list" where
  "hop_chain hop =
     (rh_via_field hop, rh_target_aggregate hop) #
     map (\<lambda>step. (hs_via_field step, hs_target_aggregate step)) (rh_through hop)"

fun hop_back :: "aggregate_scan \<Rightarrow> (string \<times> string) list \<Rightarrow> json list \<Rightarrow> json list res" where
  "hop_back store ((via, target) # (via', source) # rest) ids =
     rbind (scan_known store source) (\<lambda>entries.
       hop_back store ((via', source) # rest) (ids_of (filter_entries entries via QC_In (J_Array ids))))"
| "hop_back store _ ids = Inr ids"

definition hop_ids :: "aggregate_scan \<Rightarrow> reference_hop \<Rightarrow> json \<Rightarrow> json list res" where
  "hop_ids store hop args =
     rbind (scan_known store (snd (last (hop_chain hop)))) (\<lambda>entries.
       hop_back store (rev (hop_chain hop))
         (ids_of (filter_entries entries (rh_inner_field hop) (rh_inner_comparator hop)
           (resolve_value (rh_inner_value hop) args))))"

fun apply_reference_hops :: "rows \<Rightarrow> reference_hop list \<Rightarrow> json \<Rightarrow> aggregate_scan \<Rightarrow> rows res" where
  "apply_reference_hops rows [] args store = Inr rows"
| "apply_reference_hops rows (hop # hops) args store =
     rbind (hop_ids store hop args) (\<lambda>ids.
       apply_reference_hops (filter_entries rows (rh_via_field hop) QC_In (J_Array ids)) hops args store)"

end
