(* ===== verification/Cursor.thy ===== *)
theory Cursor
  imports Queries Json_Roundtrip
begin

text \<open>
  \<open>rust/src/kernel/query_cursor.rs\<close>: the token that names a position in an ordered query (the
  URL-safe base64 of a JSON pair), the rows that follow it, and the split of a page. The 24-bit
  groups of base64 are \<open>u32\<close> values, \<open>32 word\<close> here.
\<close>

unbundle bit_operations_syntax

section \<open>Base64\<close>

definition ALPHABET :: string where
  "ALPHABET = ''ABCDEFGHIJKLMNOPQRSTUVWXYZabcdefghijklmnopqrstuvwxyz0123456789-_''"

text \<open>\<open>slice::chunks\<close>.\<close>

fun chunks :: "nat \<Rightarrow> 'a list \<Rightarrow> 'a list list" where
  "chunks n [] = []"
| "chunks n (x # xs) = (x # take (n - 1) xs) # chunks n (drop (n - 1) xs)"

text \<open>The fold of a chunk into one word, the first element \<open>high\<close> bits up, each next \<open>width\<close> lower.\<close>

definition pack :: "nat \<Rightarrow> nat \<Rightarrow> 32 word list \<Rightarrow> 32 word" where
  "pack high width xs = fold (\<lambda>(i, x) acc. acc OR push_bit (high - width * i) x) (enumerate 0 xs) 0"

definition byte_word :: "char \<Rightarrow> 32 word" where
  "byte_word c = word_of_int (of_char c)"

definition word_byte :: "32 word \<Rightarrow> char" where
  "word_byte w = char_of (uint w)"

definition sextet :: "32 word \<Rightarrow> nat \<Rightarrow> 32 word" where
  "sextet n i = drop_bit (18 - 6 * i) n AND 63"

definition base64_chunk :: "string \<Rightarrow> string" where
  "base64_chunk chunk =
     (let n = pack 16 8 (map byte_word chunk)
      in map (\<lambda>i. ALPHABET ! unat (sextet n i)) [0..<Suc (length chunk)])"

definition base64_url :: "string \<Rightarrow> string" where
  "base64_url bytes = concat (map base64_chunk (chunks 3 bytes))"

fun alphabet_position :: "char \<Rightarrow> string \<Rightarrow> 32 word option" where
  "alphabet_position c [] = None"
| "alphabet_position c (a # as) = (if a = c then Some 0 else map_option (\<lambda>p. p + 1) (alphabet_position c as))"

definition trim_end_pad :: "string \<Rightarrow> string" where
  "trim_end_pad text = rev (dropWhile (\<lambda>c. c = CHR ''='') (rev text))"

definition unbase64_chunk :: "32 word list \<Rightarrow> string option" where
  "unbase64_chunk chunk =
     (if length chunk = 1 then None
      else let n = pack 18 6 chunk
           in Some (map (\<lambda>i. word_byte (drop_bit (16 - 8 * i) n)) [0..<length chunk - 1]))"

definition unbase64_url :: "string \<Rightarrow> string option" where
  "unbase64_url text =
     Option.bind (those (map (\<lambda>b. alphabet_position b ALPHABET) (trim_end_pad text))) (\<lambda>sextets.
       map_option concat (those (map unbase64_chunk (chunks 4 sextets))))"

section \<open>Tokens\<close>

text \<open>\<open>String::from_utf8\<close>: which byte sequences are UTF-8.\<close>

definition byte_in :: "int \<Rightarrow> int \<Rightarrow> char \<Rightarrow> bool" where
  "byte_in lo hi c \<longleftrightarrow> lo \<le> of_char c \<and> of_char c \<le> hi"

fun utf8_valid :: "string \<Rightarrow> bool" where
  "utf8_valid [] = True"
| "utf8_valid (a # bs) =
     (if byte_in 0 127 a then utf8_valid bs
      else if byte_in 0xC2 0xDF a then
        (case bs of b # cs \<Rightarrow> byte_in 0x80 0xBF b \<and> utf8_valid cs | _ \<Rightarrow> False)
      else if byte_in 0xE0 0xEF a then
        (case bs of
           b # c # cs \<Rightarrow>
             (if byte_in 0xE0 0xE0 a then byte_in 0xA0 0xBF b
              else if byte_in 0xED 0xED a then byte_in 0x80 0x9F b
              else byte_in 0x80 0xBF b) \<and> byte_in 0x80 0xBF c \<and> utf8_valid cs
         | _ \<Rightarrow> False)
      else if byte_in 0xF0 0xF4 a then
        (case bs of
           b # c # d # cs \<Rightarrow>
             (if byte_in 0xF0 0xF0 a then byte_in 0x90 0xBF b
              else if byte_in 0xF4 0xF4 a then byte_in 0x80 0x8F b
              else byte_in 0x80 0xBF b) \<and> byte_in 0x80 0xBF c \<and> byte_in 0x80 0xBF d \<and> utf8_valid cs
         | _ \<Rightarrow> False)
      else False)"

definition encode :: "json \<Rightarrow> string \<Rightarrow> string" where
  "encode v key = base64_url (to_json_string (J_Array [v, J_Str key]))"

definition token_for :: "string \<Rightarrow> json \<Rightarrow> order_by option \<Rightarrow> string" where
  "token_for key r order =
     encode (case order of None \<Rightarrow> J_Null | Some ob \<Rightarrow> order_key r (ob_field ob)) key"

definition decode :: "string \<Rightarrow> (json \<times> string) res" where
  "decode token =
     (let invalid = TypeMismatch (''after '' @ debug_str token @ '' is not a cursor this query handed out'')
      in case unbase64_url token of
           None \<Rightarrow> Inl invalid
         | Some bytes \<Rightarrow>
             if \<not> utf8_valid bytes then Inl invalid
             else (case json_parse bytes of
                     Inr (J_Array [v, J_Str key]) \<Rightarrow> Inr (v, key)
                   | _ \<Rightarrow> Inl invalid))"

section \<open>Positions and pages\<close>

definition nulls_first :: "order_by \<Rightarrow> bool" where
  "nulls_first order =
     (case ob_nulls order of
        Nulls_First \<Rightarrow> True
      | Nulls_Last \<Rightarrow> False
      | Nulls_Native \<Rightarrow> \<not> ob_descending order)"

definition sequence :: "json \<Rightarrow> string \<Rightarrow> json \<Rightarrow> string \<Rightarrow> order_by \<Rightarrow> ordering" where
  "sequence key row_id held held_id order =
     (if is_null key \<noteq> is_null held
      then (if is_null key = nulls_first order then Less else Greater)
      else let by_value = (if is_null key then Equal else compare_comparable key held);
               forward = then_with by_value (cmp_of row_id held_id)
           in if ob_descending order then ord_reverse forward else forward)"

definition follows :: "string \<Rightarrow> json \<Rightarrow> order_by option \<Rightarrow> json \<Rightarrow> string \<Rightarrow> bool" where
  "follows row_id r order held held_id =
     (case order of
        None \<Rightarrow> row_id > held_id
      | Some ob \<Rightarrow> sequence (order_key r (ob_field ob)) row_id held held_id ob = Greater)"

definition rows_after :: "rows \<Rightarrow> order_by option \<Rightarrow> string option \<Rightarrow> rows res" where
  "rows_after rows order after =
     (case after of
        None \<Rightarrow> Inr rows
      | Some token \<Rightarrow>
          rbind (decode token) (\<lambda>(held, held_id).
            Inr (filter (\<lambda>(row_id, r). follows row_id r order held held_id) rows)))"

definition split_page :: "rows \<Rightarrow> order_by option \<Rightarrow> nat \<Rightarrow> rows \<times> string option" where
  "split_page rows order n =
     (if length rows \<le> n \<or> n = 0 then (take n rows, None)
      else let page = take n rows
           in (page, (if page = [] then None else (case last page of (key, r) \<Rightarrow> Some (token_for key r order)))))"

end
