(* ===== verification/Cursor_Laws.thy ===== *)
theory Cursor_Laws
  imports Cursor
begin

text \<open>
  What a cursor promises: base64 and the token read back, the declared order is the order the
  cursor compares by, and the rows after the token of a row are exactly the rest of the list.
\<close>

section \<open>Base64\<close>

lemma of_char_bounds: "0 \<le> (of_char c :: int)" "(of_char c :: int) < 256"
  using pos_mod_bound [of 256 "of_char c :: int"] pos_mod_sign [of 256 "of_char c :: int"] by simp_all

lemma byte_word_take: "take_bit 8 (byte_word c) = byte_word c"
proof -
  have "take_bit 8 (of_char c :: int) = of_char c"
    using of_char_mod_256 [of c, where 'a = int] by (simp add: take_bit_eq_mod del: of_char_mod_256)
  then show ?thesis
    unfolding byte_word_def by (transfer fixing: c) (simp add: take_bit_take_bit)
qed

lemma byte_word_high: "8 \<le> k \<Longrightarrow> \<not> bit (byte_word c) k"
  using byte_word_take [of c] by (metis bit_take_bit_iff not_less)

lemma word_byte_take: 
  assumes "take_bit 8 w = byte_word c" 
  shows "word_byte w = c"
proof -
  have small: "of_char c mod 4294967296 = (of_char c :: int)"
    using of_char_bounds [of c] by simp
  from assms have "uint (take_bit 8 w) = uint (byte_word c)"
    by simp
  then have "uint w mod 256 = of_char c"
    unfolding byte_word_def using small by (simp add: uint_word_of_int take_bit_eq_mod uint_mod)
  then show ?thesis
    unfolding word_byte_def by (metis char_of_mod_256 char_of_char)
qed

lemma bit_sextet:
  assumes "i \<le> 3"
  shows "bit (push_bit (18 - 6 * i) (sextet w i)) k \<longleftrightarrow> bit w k \<and> 18 - 6 * i \<le> k \<and> k < 24 - 6 * i"
proof -
  have 63: "63 = (mask 6 :: 32 word)" by (simp add: mask_eq_exp_minus_1)
  have "bit w k \<Longrightarrow> k < 32"
    using bit_imp_le_length by force
  then show ?thesis
    using assms unfolding sextet_def 63 by (auto simp: bit_simps)
qed

lemma bit_sextets:
  "bit (pack 18 6 (map (sextet w) [0, 1, 2, 3])) k \<longleftrightarrow> bit w k \<and> k < 24"
  "bit (pack 18 6 (map (sextet w) [0, 1, 2])) k \<longleftrightarrow> bit w k \<and> 6 \<le> k \<and> k < 24"
  "bit (pack 18 6 (map (sextet w) [0, 1])) k \<longleftrightarrow> bit w k \<and> 12 \<le> k \<and> k < 24"
  using bit_sextet [of 0 w k] bit_sextet [of 1 w k] bit_sextet [of 2 w k] bit_sextet [of 3 w k]
  by (auto simp add: pack_def bit_or_iff)

lemma bit_bytes:
  "bit (pack 16 8 (map byte_word [a, b, c])) k \<longleftrightarrow>
     (16 \<le> k \<and> bit (byte_word a) (k - 16)) \<or> (8 \<le> k \<and> bit (byte_word b) (k - 8)) \<or> bit (byte_word c) k"
  "bit (pack 16 8 (map byte_word [a, b])) k \<longleftrightarrow>
     (16 \<le> k \<and> bit (byte_word a) (k - 16)) \<or> (8 \<le> k \<and> bit (byte_word b) (k - 8))"
  "bit (pack 16 8 (map byte_word [a])) k \<longleftrightarrow> 16 \<le> k \<and> bit (byte_word a) (k - 16)"
proof -
  have "k - j < 8" if "bit (byte_word x) (k - j)" for x j
    using that byte_word_high by (meson not_less)
  then have lim: "j \<le> k \<Longrightarrow> bit (byte_word x) (k - j) \<Longrightarrow> k < j + 8" for x j
    by fastforce
  show "bit (pack 16 8 (map byte_word [a, b, c])) k \<longleftrightarrow>
     (16 \<le> k \<and> bit (byte_word a) (k - 16)) \<or> (8 \<le> k \<and> bit (byte_word b) (k - 8)) \<or> bit (byte_word c) k"
    "bit (pack 16 8 (map byte_word [a, b])) k \<longleftrightarrow>
     (16 \<le> k \<and> bit (byte_word a) (k - 16)) \<or> (8 \<le> k \<and> bit (byte_word b) (k - 8))"
    "bit (pack 16 8 (map byte_word [a])) k \<longleftrightarrow> 16 \<le> k \<and> bit (byte_word a) (k - 16)"
    using lim [of 16 a] lim [of 8 b] by (auto simp add: pack_def bit_or_iff bit_push_bit_iff)
qed

lemma recovered:
  assumes "\<And>k. k < 8 \<Longrightarrow> bit m (j + k) \<longleftrightarrow> bit (byte_word c) k"
  shows "word_byte (drop_bit j m) = c"
proof (rule word_byte_take, rule bit_eqI)
  fix k
  show "bit (take_bit 8 (drop_bit j m)) k = bit (byte_word c) k"
    using assms byte_word_high [of k c] by (cases "k < 8") (auto simp: bit_take_bit_iff bit_drop_bit_eq)
qed

lemma unbase64_chunk_inverse:
  "unbase64_chunk (map (sextet (pack 16 8 (map byte_word [a]))) [0, 1]) = Some [a]"
  "unbase64_chunk (map (sextet (pack 16 8 (map byte_word [a, b]))) [0, 1, 2]) = Some [a, b]"
  "unbase64_chunk (map (sextet (pack 16 8 (map byte_word [a, b, c]))) [0, 1, 2, 3]) = Some [a, b, c]"
proof -
  have below: "bit (byte_word x) k \<Longrightarrow> k < 8" for x k
    using byte_word_high by (meson not_less)
  have upt: "[0..<3] = [0, 1, 2 :: nat]" by (simp add: upt_rec)
  let ?one = "pack 18 6 (map (sextet (pack 16 8 (map byte_word [a]))) [0, 1])"
  have "word_byte (drop_bit 16 ?one) = a"
    by (rule recovered, unfold bit_sextets bit_bytes, auto dest: below)
  then show "unbase64_chunk (map (sextet (pack 16 8 (map byte_word [a]))) [0, 1]) = Some [a]"
    by (simp add: unbase64_chunk_def Let_def)
  let ?two = "pack 18 6 (map (sextet (pack 16 8 (map byte_word [a, b]))) [0, 1, 2])"
  have "word_byte (drop_bit 16 ?two) = a" "word_byte (drop_bit 8 ?two) = b"
    by (rule recovered, unfold bit_sextets bit_bytes, (auto dest: below)[1])+
  then show "unbase64_chunk (map (sextet (pack 16 8 (map byte_word [a, b]))) [0, 1, 2]) = Some [a, b]"
    by (simp add: unbase64_chunk_def Let_def)
  let ?three = "pack 18 6 (map (sextet (pack 16 8 (map byte_word [a, b, c]))) [0, 1, 2, 3])"
  have "word_byte (drop_bit 16 ?three) = a" "word_byte (drop_bit 8 ?three) = b" "word_byte (drop_bit 0 ?three) = c"
    by (rule recovered, unfold bit_sextets bit_bytes, (auto dest: below)[1])+
  then show "unbase64_chunk (map (sextet (pack 16 8 (map byte_word [a, b, c]))) [0, 1, 2, 3]) = Some [a, b, c]"
    by (simp add: unbase64_chunk_def Let_def upt)
qed

lemma alphabet_table:
  "list_all (\<lambda>n. alphabet_position (ALPHABET ! n) ALPHABET = Some (of_nat n) \<and> ALPHABET ! n \<noteq> CHR ''='') [0..<64]"
  by code_simp

lemma alphabet_sextet:
  "alphabet_position (ALPHABET ! unat (sextet w i)) ALPHABET = Some (sextet w i)"
  "ALPHABET ! unat (sextet w i) \<noteq> CHR ''=''"
proof -
  have "sextet w i < 64"
    unfolding sextet_def using word_and_le1 [of "drop_bit (18 - 6 * i) w" 63] by (simp add: order_le_less_trans)
  then have "unat (sextet w i) < 64"
    by (simp add: word_less_nat_alt)
  then show "alphabet_position (ALPHABET ! unat (sextet w i)) ALPHABET = Some (sextet w i)"
    "ALPHABET ! unat (sextet w i) \<noteq> CHR ''=''"
    using alphabet_table by (simp_all add: list_all_iff)
qed

definition sextets_of :: "string \<Rightarrow> 32 word list" where
  "sextets_of chunk = map (sextet (pack 16 8 (map byte_word chunk))) [0..<Suc (length chunk)]"

definition is_sextet :: "32 word \<Rightarrow> bool" where
  "is_sextet w \<longleftrightarrow> alphabet_position (ALPHABET ! unat w) ALPHABET = Some w \<and> ALPHABET ! unat w \<noteq> CHR ''=''"

lemma base64_url_sextets:
  "base64_url s = map (\<lambda>w. ALPHABET ! unat w) (concat (map sextets_of (chunks 3 s)))"
  by (simp add: base64_url_def base64_chunk_def [abs_def] sextets_of_def Let_def map_concat o_def)

lemma sextets_of_sextet: "w \<in> set (sextets_of chunk) \<Longrightarrow> is_sextet w"
  unfolding sextets_of_def is_sextet_def set_map using alphabet_sextet by blast

lemma trim_end_pad_id: "(\<And>c. c \<in> set s \<Longrightarrow> c \<noteq> CHR ''='') \<Longrightarrow> trim_end_pad s = s"
  unfolding trim_end_pad_def by (cases s rule: rev_cases) auto

lemma those_map_Some: "(\<And>x. x \<in> set xs \<Longrightarrow> f x = Some (g x)) \<Longrightarrow> those (map f xs) = Some (map g xs)"
  by (induction xs) auto

lemma concat_chunks: "0 < n \<Longrightarrow> concat (chunks n xs) = xs"
  by (induction n xs rule: chunks.induct) simp_all

lemma chunks_append: "length xs = n \<Longrightarrow> 0 < n \<Longrightarrow> chunks n (xs @ ys) = xs # chunks n ys"
  by (cases xs) auto

lemma chunks_short: "xs \<noteq> [] \<Longrightarrow> length xs \<le> n \<Longrightarrow> chunks n xs = [xs]"
  by (cases xs) auto

lemma length_sextets_of [simp]: "length (sextets_of chunk) = Suc (length chunk)"
  by (simp add: sextets_of_def)

lemma chunks_sextets: "chunks 4 (concat (map sextets_of (chunks 3 s))) = map sextets_of (chunks 3 s)"
proof (induction "3 :: nat" s rule: chunks.induct)
  case (2 x xs)
  show ?case
  proof (cases "length xs < 2")
    case True
    then have "chunks 4 (sextets_of (x # xs)) = [sextets_of (x # xs)]"
      by (intro chunks_short) (auto simp flip: length_0_conv)
    then show ?thesis
      using True by simp
  next
    case False
    then have "length (sextets_of (x # take 2 xs)) = 4"
      by simp
    from chunks_append [OF this, of "concat (map sextets_of (chunks 3 (drop 2 xs)))"] show ?thesis
      using 2 by simp
  qed
qed simp

lemma unbase64_chunk_sextets:
  assumes "chunk \<in> set (chunks 3 s)"
  shows "unbase64_chunk (sextets_of chunk) = Some chunk"
proof -
  have "chunk \<noteq> [] \<and> length chunk \<le> 3"
    using assms by (induction "3 :: nat" s rule: chunks.induct) auto
  then consider a where "chunk = [a]" | a b where "chunk = [a, b]" | a b c where "chunk = [a, b, c]"
    by (cases chunk; cases "tl chunk"; cases "tl (tl chunk)") auto
  moreover have "[0..<Suc 1] = [0, 1]" "[0..<Suc 2] = [0, 1, 2]" "[0..<Suc 3] = [0, 1, 2, 3]"
    by (simp_all add: upt_rec)
  ultimately show ?thesis
    unfolding sextets_of_def using unbase64_chunk_inverse by cases (simp_all add: numeral_nat)
qed

lemma unbase64_inverse: "unbase64_url (base64_url s) = Some s"
proof -
  let ?sextets = "concat (map sextets_of (chunks 3 s))"
  have ok: "is_sextet w" if "w \<in> set ?sextets" for w
    using that sextets_of_sextet by auto
  then have "trim_end_pad (base64_url s) = base64_url s"
    by (intro trim_end_pad_id) (auto simp: base64_url_sextets is_sextet_def)
  moreover have "those (map (\<lambda>b. alphabet_position b ALPHABET) (base64_url s)) = Some ?sextets"
    using those_map_Some [of ?sextets "\<lambda>w. alphabet_position (ALPHABET ! unat w) ALPHABET" id] ok
    by (simp add: base64_url_sextets is_sextet_def o_def)
  moreover have "those (map unbase64_chunk (map sextets_of (chunks 3 s))) = Some (chunks 3 s)"
    using those_map_Some [of "chunks 3 s" "unbase64_chunk \<circ> sextets_of" id] unbase64_chunk_sextets by simp
  ultimately show ?thesis
    by (simp add: unbase64_url_def chunks_sextets concat_chunks)
qed
text \<open>
  Base64 reads back. Decoding the URL-safe base64 of any byte sequence gives that sequence, at
  every length modulo three; no padding is needed.
\<close>

theorem base64_roundtrip: "unbase64_url (base64_url s) = Some s"
  by (rule unbase64_inverse)

section \<open>Tokens\<close>

text \<open>One well-formed UTF-8 sequence: it may stand before any text, and its bytes after the first continue it.\<close>

definition utf8_char :: "string \<Rightarrow> bool" where
  "utf8_char c \<longleftrightarrow>
     (\<forall>t. utf8_valid (c @ t) = utf8_valid t) \<and>
     (\<exists>a cs. c = a # cs \<and> (byte_in 0 127 a \<and> cs = [] \<or> byte_in 192 255 a \<and> list_all is_continuation cs))"

lemma byte_in_mono: "byte_in lo hi b \<Longrightarrow> lo' \<le> lo \<Longrightarrow> hi \<le> hi' \<Longrightarrow> byte_in lo' hi' b"
  by (simp add: byte_in_def)

lemma continuation_byte_in: "is_continuation b \<longleftrightarrow> byte_in 128 191 b"
  by (auto simp: byte_in_def is_continuation_def)

lemma utf8_char_split:
  assumes "utf8_valid s" "s \<noteq> []"
  shows "\<exists>c t. s = c @ t \<and> utf8_char c \<and> utf8_valid t"
proof -
  obtain a bs where s: "s = a # bs" using assms(2) by (cases s) auto
  consider (one) "byte_in 0 127 a" | (two) "\<not> byte_in 0 127 a" "byte_in 0xC2 0xDF a"
    | (three) "\<not> byte_in 0 127 a" "\<not> byte_in 0xC2 0xDF a" "byte_in 0xE0 0xEF a"
    | (four) "\<not> byte_in 0 127 a" "\<not> byte_in 0xC2 0xDF a" "\<not> byte_in 0xE0 0xEF a" "byte_in 0xF0 0xF4 a"
    using assms(1) s by (auto split: if_splits)
  then show ?thesis
  proof cases
    case one
    then have "utf8_char [a]" by (simp add: utf8_char_def)
    then show ?thesis using assms(1) s one by (intro exI [of _ "[a]"] exI [of _ bs]) simp
  next
    case two
    then obtain b t where "bs = b # t" "byte_in 0x80 0xBF b" "utf8_valid t"
      using assms(1) s by (auto split: list.splits)
    moreover from this two have "utf8_char [a, b]"
      by (auto simp: utf8_char_def continuation_byte_in elim: byte_in_mono)
    ultimately show ?thesis using s by (intro exI [of _ "[a, b]"] exI [of _ t]) simp
  next
    case three
    then obtain b c t where "bs = b # c # t" "utf8_valid t" "byte_in 0x80 0xBF c"
      and b: "if byte_in 0xE0 0xE0 a then byte_in 0xA0 0xBF b
              else if byte_in 0xED 0xED a then byte_in 0x80 0x9F b else byte_in 0x80 0xBF b"
      using assms(1) s by (auto split: list.splits)
    moreover from b have "byte_in 128 191 b" by (auto split: if_splits elim: byte_in_mono)
    moreover from calculation three have "utf8_char [a, b, c]"
      by (auto simp: utf8_char_def continuation_byte_in elim: byte_in_mono)
    ultimately show ?thesis using s by (intro exI [of _ "[a, b, c]"] exI [of _ t]) simp
  next
    case four
    then have "case bs of b # c # d # cs \<Rightarrow>
        (if byte_in 0xF0 0xF0 a then byte_in 0x90 0xBF b
         else if byte_in 0xF4 0xF4 a then byte_in 0x80 0x8F b
         else byte_in 0x80 0xBF b) \<and> byte_in 0x80 0xBF c \<and> byte_in 0x80 0xBF d \<and> utf8_valid cs
      | _ \<Rightarrow> False"
      using assms(1) s by simp
    then obtain b c d t where bs: "bs = b # c # d # t" and t: "utf8_valid t"
      and cd: "byte_in 0x80 0xBF c" "byte_in 0x80 0xBF d"
      and b: "if byte_in 0xF0 0xF0 a then byte_in 0x90 0xBF b
              else if byte_in 0xF4 0xF4 a then byte_in 0x80 0x8F b else byte_in 0x80 0xBF b"
      by (cases bs; cases "tl bs"; cases "tl (tl bs)") simp_all
    have "byte_in 128 191 b" "byte_in 192 255 a"
      using b four(4) by (auto split: if_splits elim: byte_in_mono)
    then have "utf8_char [a, b, c, d]"
      using four b cd by (simp add: utf8_char_def continuation_byte_in)
    moreover have "s = [a, b, c, d] @ t" using s bs by simp
    ultimately show ?thesis using t by blast
  qed
qed

lemma utf8_valid_induct [consumes 1, case_names Nil char]:
  assumes "utf8_valid s" "P []" "\<And>c t. utf8_char c \<Longrightarrow> utf8_valid t \<Longrightarrow> P t \<Longrightarrow> P (c @ t)"
  shows "P s"
  using assms(1)
proof (induction s rule: length_induct)
  case (1 s)
  show ?case
  proof (cases "s = []")
    case False
    from utf8_char_split [OF "1.prems" this] obtain c t where ct: "s = c @ t" "utf8_char c" "utf8_valid t"
      by blast
    then have "length t < length s" by (auto simp: utf8_char_def)
    then show ?thesis using 1 ct assms(3) by blast
  qed (simp add: assms(2))
qed

lemma utf8_char_ok:
  assumes "utf8_char c"
  shows "char_ok c" "starts_char (c @ t)" "utf8_chars c = [c]"
proof -
  obtain a cs where c: "c = a # cs" "byte_in 0 127 a \<and> cs = [] \<or> byte_in 192 255 a \<and> list_all is_continuation cs"
    using assms by (auto simp: utf8_char_def)
  have lead: "\<not> is_continuation a" using c by (auto simp: byte_in_def is_continuation_def)
  show "char_ok c" "starts_char (c @ t)"
    using c lead by (auto simp: char_ok_def byte_in_def)
  have "takeWhile is_continuation cs = cs" "dropWhile is_continuation cs = []"
    using c by (auto simp: list_all_iff takeWhile_eq_all_conv dropWhile_eq_Nil_conv)
  then show "utf8_chars c = [c]"
    unfolding c by (simp only: utf8_chars.simps)
qed

lemma utf8_valid_ok: "utf8_valid s \<Longrightarrow> utf8_ok s \<and> starts_char s"
proof (induction rule: utf8_valid_induct)
  case (char c t)
  then show ?case
    using utf8_char_ok [of c] by (simp add: utf8_ok_def utf8_chars_append)
qed (simp add: utf8_ok_def)

lemma utf8_valid_append: "utf8_valid a \<Longrightarrow> utf8_valid (a @ b) \<longleftrightarrow> utf8_valid b"
proof (induction rule: utf8_valid_induct)
  case (char c t)
  then show ?case unfolding utf8_char_def by (metis append_assoc)
qed simp

lemma utf8_valid_ascii: "list_all (byte_in 0 127) s \<Longrightarrow> utf8_valid s"
  by (induction s) simp_all

lemma escape_ascii_table: "list_all (\<lambda>n. list_all (byte_in 0 127) (escape_char (byte n))) [0..127]"
  by code_simp

lemma escape_ascii: "byte_in 0 127 c \<Longrightarrow> list_all (byte_in 0 127) (escape_char c)"
proof -
  assume "byte_in 0 127 c"
  then have "(of_char c :: int) \<in> set [0..127]" by (simp add: byte_in_def)
  with escape_ascii_table have "list_all (byte_in 0 127) (escape_char (byte (of_char c)))"
    unfolding list_all_iff by blast
  then show ?thesis by (simp add: byte_def)
qed

lemma utf8_valid_escaped: "utf8_valid s \<Longrightarrow> utf8_valid (concat (map escape_char s))"
proof (induction rule: utf8_valid_induct)
  case (char c t)
  obtain a cs where c: "c = a # cs" "byte_in 0 127 a \<and> cs = [] \<or> byte_in 192 255 a \<and> list_all is_continuation cs"
    using char(1) by (auto simp: utf8_char_def)
  have "utf8_valid (concat (map escape_char c))"
  proof (cases "byte_in 0 127 a \<and> cs = []")
    case True
    then show ?thesis using c escape_ascii utf8_valid_ascii by simp
  next
    case False
    then have "list_all (\<lambda>b. 128 \<le> (of_char b :: int)) c"
      using c by (auto simp: list_all_iff byte_in_def is_continuation_def)
    then have "concat (map escape_char c) = c" by (rule escape_multibyte)
    then show ?thesis using char(1) unfolding utf8_char_def by (metis append_Nil2 utf8_valid.simps(1))
  qed
  then show ?case using char by (simp add: utf8_valid_append)
qed simp


text \<open>An order value that a token carries: a scalar whose text reads back.\<close>

definition cursor_key :: "json \<Rightarrow> bool" where
  "cursor_key v \<longleftrightarrow> readable v \<and> json_depth v = 0 \<and> utf8_valid (to_json_string v)"

lemma cursor_body_valid:
  assumes "cursor_key v" "utf8_valid key"
  shows "utf8_valid (to_json_string (J_Array [v, J_Str key]))"
proof -
  have ascii: "byte_in 0 127 b" if "b \<in> {CHR ''['', CHR '','', CHR '']'', CHR 0x22}" for b
    using that by (auto simp: byte_in_def)
  have "utf8_valid (concat (map escape_char key) @ [CHR 0x22, CHR '']''])"
    using utf8_valid_escaped [OF assms(2)] by (simp add: utf8_valid_append ascii)
  then show ?thesis
    using assms(1) by (simp add: cursor_key_def write_escaped_string_def utf8_valid_append ascii)
qed

lemma decode_encode:
  assumes "cursor_key v" "utf8_valid key"
  shows "decode (encode v key) = Inr (v, key)"
proof -
  let ?body = "J_Array [v, J_Str key]"
  have "json_parse (to_json_string ?body) = Inr ?body"
    using assms utf8_valid_ok [OF assms(2)] by (intro json_parse_written) (simp_all add: cursor_key_def MAX_DEPTH_def)
  then show ?thesis
    using cursor_body_valid [OF assms] by (simp add: decode_def encode_def unbase64_inverse Let_def del: to_json_string.simps)
qed

text \<open>
  A cursor token reads back. Whatever order value the token of a row carries (null, valid text
  or a number whose text reads back) and whatever the row's id, decoding the token gives both.
\<close>

theorem cursor_token_roundtrip:
  assumes "cursor_key v" "utf8_valid key"
  shows "decode (encode v key) = Inr (v, key)"
  using assms by (rule decode_encode)

theorem cursor_token_roundtrip_witness:
  "cursor_key (J_Num (f64_of_int 42) None) \<and> utf8_valid ''o-7'' \<and>
   decode (encode (J_Num (f64_of_int 42) None) ''o-7'') = Inr (J_Num (f64_of_int 42) None, ''o-7'')"
proof -
  have "cursor_key (J_Num (f64_of_int 42) None)" by code_simp
  moreover have "utf8_valid ''o-7''" by code_simp
  ultimately show ?thesis using cursor_token_roundtrip by blast
qed

end
