(* ===== verification/Order_Laws.thy ===== *)
theory Order_Laws
  imports Cursor_Laws
begin

text \<open>
  The order a query answers in: the declared order is a total order on rows with distinct ids, it is
  the order the cursor compares positions by, and the rows after a row's token are the rest.
\<close>

section \<open>The declared order\<close>

fun is_text :: "json \<Rightarrow> bool" where
  "is_text (J_Str s) = True"
| "is_text _ = False"

definition numeric_key :: "json \<Rightarrow> bool" where
  "numeric_key j \<longleftrightarrow> is_number j \<and> number_of j \<noteq> F_NaN"

interpretation number_keys: ordering_on numeric_key compare_comparable
proof
  fix a b c
  assume ok: "numeric_key a" "numeric_key b"
  then show "compare_comparable b a = ord_reverse (compare_comparable a b)"
    using float_order.flip [of "number_of a" "number_of b"] by (simp add: numeric_key_def compare_comparable_def)
  assume "numeric_key c" "compare_comparable a b \<noteq> Greater" "compare_comparable b c \<noteq> Greater"
  then show "compare_comparable a c \<noteq> Greater"
    using ok float_order.trans [of "number_of a" "number_of b" "number_of c"] by (simp add: numeric_key_def compare_comparable_def)
qed

interpretation text_keys: ordering_on is_text compare_comparable
proof
  fix a b c
  assume ok: "is_text a" "is_text b"
  then show "compare_comparable b a = ord_reverse (compare_comparable a b)"
    using text_order.flip by (cases a; cases b) (auto simp: compare_comparable_def)
  assume "is_text c" "compare_comparable a b \<noteq> Greater" "compare_comparable b c \<noteq> Greater"
  then show "compare_comparable a c \<noteq> Greater"
    using ok text_order.trans by (cases a; cases b; cases c) (auto simp: compare_comparable_def)
qed

definition row_key :: "order_by \<Rightarrow> string \<times> json \<Rightarrow> json" where
  "row_key ob row = order_key (snd row) (ob_field ob)"

definition row_sequence :: "order_by \<Rightarrow> string \<times> json \<Rightarrow> string \<times> json \<Rightarrow> ordering" where
  "row_sequence ob a b = sequence (row_key ob a) (fst a) (row_key ob b) (fst b) ob"

text \<open>The declared fields the generator admits: all numbers or all texts, or unset.\<close>

definition keys_in :: "(json \<Rightarrow> bool) \<Rightarrow> order_by \<Rightarrow> rows \<Rightarrow> bool" where
  "keys_in ok ob rows \<longleftrightarrow> list_all (\<lambda>row. is_null (row_key ob row) \<or> ok (row_key ob row)) rows"

lemma sort_by_id_sorted:
  assumes "distinct (map fst rows)"
  shows "sorted_wrt (\<lambda>a b. fst a < fst b) (sort_by_id rows)"
proof -
  let ?cmp = "\<lambda>a b :: string \<times> 'a. cmp_of (fst a) (fst b)"
  have "ordering_on (\<lambda>_. True) ?cmp"
    by (rule ordering_on_key) (rule text_order.ordering_on_axioms)
  then have "sorted_wrt (before ?cmp (\<lambda>_ _. True)) (sort_by_id rows)"
    unfolding sort_by_id_def by (rule ordering_on.sort_by_before) (simp_all add: list_all_iff)
  then have sorted: "sorted_wrt (\<lambda>a b. fst a \<le> fst b) (sort_by_id rows)"
    by (rule sorted_wrt_mono_rel [rotated]) (auto simp: before_def cmp_of_def split: if_splits)
  have "mset (map fst (sort_by_id rows)) = mset (map fst rows)"
    by (simp add: sort_by_id_def)
  then have "distinct (map fst (sort_by_id rows))"
    using assms by (metis mset_eq_imp_distinct_iff)
  with sorted have "sorted_wrt (<) (map fst (sort_by_id rows))"
    unfolding strict_sorted_iff by (simp add: sorted_map)
  then show ?thesis by (simp add: sorted_wrt_map)
qed

context ordering_on
begin

lemma sort_by_ids:
  assumes "list_all (\<lambda>x. ok (f x)) xs" "sorted_wrt R xs"
  shows "sorted_wrt (before (\<lambda>a b. cmp (f a) (f b)) R) (sort_by (\<lambda>a b. cmp (f a) (f b)) xs)"
  using ordering_on.sort_by_before [OF ordering_on_key [OF ordering_on_axioms]] assms .

end

lemma declared_order_parts:
  "apply_declared_order rows ob =
     (let nulls = filter (\<lambda>row. is_null (row_key ob row)) rows;
          valued = sort_by (\<lambda>a b. compare_comparable (row_key ob a) (row_key ob b)) (filter (\<lambda>row. \<not> is_null (row_key ob row)) rows);
          turn = (if ob_descending ob then rev else (\<lambda>xs. xs))
      in if nulls_first ob then turn nulls @ turn valued else turn valued @ turn nulls)"
  by (simp add: apply_declared_order_def nulls_first_def Let_def row_key_def case_prod_unfold split: nulls_mode.split)

text \<open>Two rows in forward order: both unset, by id; both set, by value and then by id.\<close>

definition forward :: "(json \<Rightarrow> bool) \<Rightarrow> order_by \<Rightarrow> string \<times> json \<Rightarrow> string \<times> json \<Rightarrow> bool" where
  "forward ok ob a b \<longleftrightarrow>
     is_null (row_key ob a) = is_null (row_key ob b) \<and>
     (if is_null (row_key ob a) then fst a < fst b
      else ok (row_key ob a) \<and> ok (row_key ob b) \<and>
        before (\<lambda>a b. compare_comparable (row_key ob a) (row_key ob b)) (\<lambda>a b. fst a < fst b) a b)"

definition in_sequence :: "order_by \<Rightarrow> string \<times> json \<Rightarrow> string \<times> json \<Rightarrow> bool" where
  "in_sequence ob a b \<longleftrightarrow> row_sequence ob a b = Less \<and> row_sequence ob b a = Greater"

lemma forward_in_sequence:
  assumes "ordering_on ok compare_comparable" "forward ok ob a b"
  shows "if ob_descending ob then in_sequence ob b a else in_sequence ob a b"
proof -
  have "\<not> is_null (row_key ob a) \<Longrightarrow>
    compare_comparable (row_key ob b) (row_key ob a) = ord_reverse (compare_comparable (row_key ob a) (row_key ob b))"
    using assms ordering_on.flip by (auto simp: forward_def)
  then show ?thesis
    using assms(2)
    by (auto simp: forward_def in_sequence_def row_sequence_def sequence_def Let_def then_with_eq before_def cmp_of_def
        split: if_splits)
qed

lemma nulls_in_sequence:
  "is_null (row_key ob a) \<Longrightarrow> \<not> is_null (row_key ob b) \<Longrightarrow>
   if nulls_first ob then in_sequence ob a b else in_sequence ob b a"
  by (simp add: in_sequence_def row_sequence_def sequence_def)

lemma declared_order_sorted:
  assumes cmp: "ordering_on ok compare_comparable" and keys: "keys_in ok ob rows"
    and ids: "sorted_wrt (\<lambda>a b. fst a < fst b) rows"
  shows "sorted_wrt (in_sequence ob) (apply_declared_order rows ob)"
proof -
  let ?null = "\<lambda>row. is_null (row_key ob row)"
  let ?cmp = "\<lambda>a b. compare_comparable (row_key ob a) (row_key ob b)"
  let ?turn = "if ob_descending ob then rev else (\<lambda>xs. xs)"
  define nulls where "nulls = filter ?null rows"
  define valued where "valued = sort_by ?cmp (filter (\<lambda>row. \<not> ?null row) rows)"
  have sets: "list_all ?null nulls" "list_all (\<lambda>row. \<not> ?null row) valued" "list_all (\<lambda>row. ok (row_key ob row)) valued"
    using keys by (auto simp: nulls_def valued_def list_all_iff keys_in_def)
  have "sorted_wrt (\<lambda>a b. fst a < fst b) nulls"
    unfolding nulls_def using ids by (rule sorted_wrt_filter)
  then have nulls: "sorted_wrt (forward ok ob) nulls"
    by (rule sorted_wrt_mono_rel [rotated]) (use sets in \<open>auto simp: forward_def list_all_iff\<close>)
  have "sorted_wrt (before ?cmp (\<lambda>a b. fst a < fst b)) valued"
    unfolding valued_def using keys
    by (intro ordering_on.sort_by_ids [OF cmp] sorted_wrt_filter ids) (auto simp: list_all_iff keys_in_def)
  then have valued: "sorted_wrt (forward ok ob) valued"
    by (rule sorted_wrt_mono_rel [rotated]) (use sets in \<open>auto simp: forward_def list_all_iff\<close>)
  have turned: "sorted_wrt (in_sequence ob) (?turn xs)" if "sorted_wrt (forward ok ob) xs" for xs
    using that forward_in_sequence [OF cmp] by (auto simp: sorted_wrt_rev intro: sorted_wrt_mono_rel [rotated])
  have "set (?turn nulls) = set nulls" "set (?turn valued) = set valued"
    by simp_all
  then have "sorted_wrt (in_sequence ob) (if nulls_first ob then ?turn nulls @ ?turn valued else ?turn valued @ ?turn nulls)"
    using turned [OF nulls] turned [OF valued] sets nulls_in_sequence
    by (auto simp: sorted_wrt_append list_all_iff)
  then show ?thesis
    unfolding declared_order_parts Let_def nulls_def [symmetric] valued_def [symmetric] by simp
qed

lemma rows_follow:
  assumes "sorted_wrt R xs" "\<And>a b. R a b \<Longrightarrow> after b a \<and> \<not> after a b" "\<not> after (xs ! i) (xs ! i)" "i < length xs"
  shows "filter (\<lambda>b. after b (xs ! i)) xs = drop (Suc i) xs"
proof -
  have xs: "xs = take i xs @ xs ! i # drop (Suc i) xs"
    using assms(4) by (simp add: id_take_nth_drop)
  have "sorted_wrt R (take i xs @ xs ! i # drop (Suc i) xs)"
    using assms(1) xs by simp
  then have "filter (\<lambda>b. after b (xs ! i)) (take i xs) = []" "filter (\<lambda>b. after b (xs ! i)) (drop (Suc i) xs) = drop (Suc i) xs"
    using assms(2) by (auto simp: sorted_wrt_append filter_empty_conv filter_id_conv)
  then show ?thesis
    using assms(3) by (subst xs) simp
qed

section \<open>Resuming after a row\<close>

definition orderable :: "order_by option \<Rightarrow> rows \<Rightarrow> bool" where
  "orderable order rows =
     (case order of None \<Rightarrow> True | Some ob \<Rightarrow> keys_in numeric_key ob rows \<or> keys_in is_text ob rows)"

definition tokenable :: "order_by option \<Rightarrow> rows \<Rightarrow> bool" where
  "tokenable order rows =
     list_all (\<lambda>row. utf8_valid (fst row) \<and>
       (case order of None \<Rightarrow> True | Some ob \<Rightarrow> cursor_key (row_key ob row))) rows"

lemma apply_ordering_plain:
  "apply_ordering rows order None None args =
     (case order of None \<Rightarrow> sort_by_id rows | Some ob \<Rightarrow> apply_declared_order (sort_by_id rows) ob)"
  by (simp add: apply_ordering_def Let_def split: option.split)

lemma mset_apply_declared_order [simp]: "mset (apply_declared_order rows ob) = mset rows"
proof -
  have "mset (filter P rows) + mset (filter (\<lambda>x. \<not> P x) rows) = mset rows" for P
    by (simp add: union_filter_mset_complement)
  then show ?thesis
    by (simp add: declared_order_parts Let_def add.commute)
qed

lemma mset_apply_ordering [simp]: "mset (apply_ordering rows order None None args) = mset rows"
  by (simp add: apply_ordering_plain sort_by_id_def split: option.split)

lemma keys_in_sort_by_id [simp]: "keys_in ok ob (sort_by_id rows) = keys_in ok ob rows"
  by (simp add: keys_in_def sort_by_id_def list_all_iff)

definition comes_before :: "order_by option \<Rightarrow> string \<times> json \<Rightarrow> string \<times> json \<Rightarrow> bool" where
  "comes_before order a b = (case order of None \<Rightarrow> fst a < fst b | Some ob \<Rightarrow> in_sequence ob a b)"

lemma apply_ordering_sorted:
  assumes "distinct (map fst rows)" "orderable order rows"
  shows "sorted_wrt (comes_before order) (apply_ordering rows order None None args)"
proof (cases order)
  case (Some ob)
  obtain ok where "ordering_on ok compare_comparable" "keys_in ok ob rows"
    using assms(2) Some number_keys.ordering_on_axioms text_keys.ordering_on_axioms
    by (auto simp: orderable_def)
  then show ?thesis
    using sort_by_id_sorted [OF assms(1)] declared_order_sorted [of ok ob "sort_by_id rows"]
    by (simp add: apply_ordering_plain Some comes_before_def [abs_def])
qed (use assms in \<open>simp add: apply_ordering_plain comes_before_def [abs_def] sort_by_id_sorted\<close>)

lemma row_sequence_self: "numeric_key (row_key ob a) \<or> is_text (row_key ob a) \<or> is_null (row_key ob a) \<Longrightarrow> row_sequence ob a a = Equal"
  using number_keys.same text_keys.same text_order.same
  by (auto simp: row_sequence_def sequence_def Let_def)

lemma token_decodes:
  assumes "tokenable order rows" "(key, r) \<in> set rows"
  shows "decode (token_for key r order) =
    Inr ((case order of None \<Rightarrow> J_Null | Some ob \<Rightarrow> row_key ob (key, r)), key)"
proof -
  have "cursor_key J_Null" by code_simp
  then have "cursor_key (case order of None \<Rightarrow> J_Null | Some ob \<Rightarrow> row_key ob (key, r))" "utf8_valid key"
    using assms by (auto simp: tokenable_def list_all_iff split: option.splits)
  from decode_encode [OF this] show ?thesis
    by (simp add: token_for_def row_key_def split: option.splits)
qed

lemma rows_after_token:
  assumes "distinct (map fst rows)" "orderable order rows" "tokenable order rows"
    and ys: "ys = apply_ordering rows order None None args" "i < length ys" "ys ! i = (key, r)"
  shows "rows_after ys order (Some (token_for key r order)) = Inr (drop (Suc i) ys)"
proof -
  have same: "set ys = set rows"
    using ys(1) by (metis mset_apply_ordering set_mset_mset)
  have mem: "(key, r) \<in> set rows"
    using ys(2,3) same by (metis nth_mem)
  let ?held = "case order of None \<Rightarrow> J_Null | Some ob \<Rightarrow> row_key ob (key, r)"
  define after where "after = (\<lambda>b a. case order of None \<Rightarrow> fst b > fst a | Some ob \<Rightarrow> row_sequence ob b a = Greater)"
  have follows: "follows row_id q order ?held key = after (row_id, q) (key, r)" for row_id q
    by (simp add: follows_def after_def row_sequence_def row_key_def split: option.split)
  have "numeric_key (row_key ob (key, r)) \<or> is_text (row_key ob (key, r)) \<or> is_null (row_key ob (key, r))"
    if "order = Some ob" for ob
    using assms(2) mem that by (auto simp: orderable_def keys_in_def list_all_iff)
  then have "\<not> after (key, r) (key, r)"
    by (auto simp: after_def row_sequence_self split: option.split)
  moreover have "after b a \<and> \<not> after a b" if "comes_before order a b" for a b
    using that by (auto simp: after_def comes_before_def in_sequence_def split: option.splits)
  ultimately have "filter (\<lambda>b. after b (ys ! i)) ys = drop (Suc i) ys"
    using apply_ordering_sorted [OF assms(1,2), of args] ys
    by (intro rows_follow [where R = "comes_before order"]) simp_all
  then show ?thesis
    using token_decodes [OF assms(3) mem] ys(3) by (simp add: rows_after_def follows case_prod_beta')
qed


text \<open>
  C14: a query answers in its declared order. For rows with distinct ids whose order field holds only
  numbers, or only texts, or nothing, the answer is the offset and limit of one permutation of the
  rows: ordered by value in the declared direction, unset values where the declaration puts them,
  ids breaking ties in the same direction (and by id alone with no declared order).
\<close>

theorem query_answers_in_order:
  assumes "distinct (map fst rows)" "orderable order rows"
  shows "\<exists>ys. mset ys = mset rows \<and> sorted_wrt (comes_before order) ys \<and>
    apply_ordering rows order offset lim args =
      (let ys = (case offset of None \<Rightarrow> ys | Some l \<Rightarrow> drop (resolve_limit l args) ys)
       in case lim of None \<Rightarrow> ys | Some l \<Rightarrow> take (resolve_limit l args) ys)"
proof -
  have drop: "drop (min n (length ys)) ys = drop n ys" for n and ys :: rows
    by (simp add: min_def)
  let ?ys = "apply_ordering rows order None None args"
  have "apply_ordering rows order offset lim args =
      (let ys = (case offset of None \<Rightarrow> ?ys | Some l \<Rightarrow> drop (resolve_limit l args) ?ys)
       in case lim of None \<Rightarrow> ys | Some l \<Rightarrow> take (resolve_limit l args) ys)"
    by (simp add: apply_ordering_def Let_def drop split: option.split)
  then show ?thesis
    using apply_ordering_sorted [OF assms] mset_apply_ordering by blast
qed

definition ranked_rows :: rows where
  "ranked_rows =
     [(''b'', J_Object [(''rank'', J_Num (f64_of_int 2) None)]), (''a'', J_Object [(''rank'', J_Num (f64_of_int 2) None)]),
      (''c'', J_Object []), (''d'', J_Object [(''rank'', J_Num (f64_of_int 1) None)])]"

definition by_rank :: "order_by option" where
  "by_rank = Some \<lparr>ob_field = ''rank'', ob_descending = True, ob_nulls = Nulls_First\<rparr>"

theorem query_answers_in_order_witness:
  "distinct (map fst ranked_rows) \<and> orderable by_rank ranked_rows \<and>
   (\<exists>ys. mset ys = mset ranked_rows \<and> sorted_wrt (comes_before by_rank) ys \<and>
      map fst (apply_ordering ranked_rows by_rank None None J_Null) = map fst ys \<and>
      map fst ys = [''c'', ''b'', ''a'', ''d''])"
proof -
  have ok: "distinct (map fst ranked_rows)" "orderable by_rank ranked_rows"
    by code_simp+
  have "map fst (apply_ordering ranked_rows by_rank None None J_Null) = [''c'', ''b'', ''a'', ''d'']"
    by code_simp
  moreover have "sorted_wrt (comes_before by_rank) (apply_ordering ranked_rows by_rank None None J_Null)"
    using query_answers_in_order [OF ok, of None None J_Null] by (auto simp: Let_def)
  ultimately show ?thesis
    using ok mset_apply_ordering by metis
qed

text \<open>
  A cursor resumes after its row. The rows that follow the token of any row of an ordered answer
  are exactly the rows after it, in the same order: none is skipped and none is repeated.
\<close>

theorem cursor_resumes_after_row:
  assumes "distinct (map fst rows)" "orderable order rows" "tokenable order rows"
    and "ys = apply_ordering rows order None None args" "i < length ys" "ys ! i = (key, r)"
  shows "rows_after ys order (Some (token_for key r order)) = Inr (drop (Suc i) ys)"
  using assms by (rule rows_after_token)

theorem cursor_resumes_after_row_witness:
  "tokenable by_rank ranked_rows \<and>
   rows_after (apply_ordering ranked_rows by_rank None None J_Null) by_rank
     (Some (token_for ''b'' (snd (ranked_rows ! 0)) by_rank)) =
   Inr (drop 2 (apply_ordering ranked_rows by_rank None None J_Null))"
proof -
  let ?ys = "apply_ordering ranked_rows by_rank None None J_Null"
  have ok: "distinct (map fst ranked_rows)" "orderable by_rank ranked_rows" "tokenable by_rank ranked_rows"
    by code_simp+
  have "Suc 0 < length ?ys" "?ys ! Suc 0 = (''b'', snd (ranked_rows ! 0))"
    by code_simp+
  from cursor_resumes_after_row [OF ok refl this] ok show ?thesis
    by (simp add: numeral_2_eq_2)
qed

end
