(* ===== verification/Named_Query.thy ===== *)
theory Named_Query
  imports Cursor
begin

text \<open>
  \<open>rust/src/kernel/named_query.rs\<close>: a declared query and a declared entity query, compiled to rows of
  data and interpreted here; and the role checks of \<open>repository.rs\<close>, which run a declared query to
  decide who holds a role. A store is its \<open>scan\<close>; \<open>scan_each\<close> visits the same rows in that order.
\<close>

section \<open>Declared queries\<close>

record tenant_auth =
  ta_query_name :: string
  ta_tenant_field :: string
  ta_policy :: string

record query_def =
  qd_verb :: string
  qd_aggregate :: string
  qd_conditions :: "query_condition list"
  qd_reference_hops :: "reference_hop list"
  qd_order_by :: "order_by option"
  qd_offset :: "limit option"
  qd_limit :: "limit option"
  qd_cursor :: bool
  qd_authorization :: "tenant_auth option"

definition tenant_check :: "tenant_auth option \<Rightarrow> json \<Rightarrow> unit res" where
  "tenant_check authorization args =
     (case authorization of
        None \<Rightarrow> Inr ()
      | Some auth \<Rightarrow>
          if json_get args (ta_tenant_field auth) = None
          then Inl (Unauthorized (UnauthorizedTenantRequiredArgs_render (ta_query_name auth) (ta_tenant_field auth)))
          else Inr ())"

definition wants :: "query_condition list \<Rightarrow> json \<Rightarrow> (query_condition \<times> json) list" where
  "wants conditions args = map (\<lambda>c. (c, comparable (resolve_value (qc_value c) args))) conditions"

definition kept :: "(query_condition \<times> json) list \<Rightarrow> cross_domain \<Rightarrow> json \<Rightarrow> bool" where
  "kept ws cross r = list_all (\<lambda>(c, want). entry_matches r (qc_field c) (qc_comparator c) want cross) ws"

definition cursor_rows :: "rows \<Rightarrow> query_def \<Rightarrow> json \<Rightarrow> rows res" where
  "cursor_rows entries def args =
     (let ordered = apply_ordering entries (qd_order_by def) None None args;
          after = Option.bind (json_get args ''after'') json_as_str
      in rbind (rows_after ordered (qd_order_by def) after) (\<lambda>rows.
           Inr (case qd_limit def of None \<Rightarrow> rows | Some l \<Rightarrow> take (resolve_limit l args) rows)))"

definition matching_rows :: "aggregate_scan \<Rightarrow> query_def \<Rightarrow> json \<Rightarrow> cross_domain \<Rightarrow> rows res" where
  "matching_rows store def args cross =
     rbind (scan_known store (qd_aggregate def)) (\<lambda>entries.
       apply_reference_hops
         (sort_by_id (filter (\<lambda>(key, r). kept (wants (qd_conditions def) args) cross r) entries))
         (qd_reference_hops def) args store)"

definition run_cross_domain ::
  "aggregate_scan \<Rightarrow> query_def \<Rightarrow> json \<Rightarrow> cross_domain \<Rightarrow> string option \<Rightarrow> rows res" where
  "run_cross_domain store def args cross caller_role =
     rbind (tenant_check (qd_authorization def) args) (\<lambda>_.
     rbind (matching_rows store def args cross) (\<lambda>entries.
       if qd_cursor def then cursor_rows entries def args
       else Inr (apply_ordering entries (qd_order_by def) (qd_offset def) (qd_limit def) args)))"

definition run_query :: "aggregate_scan \<Rightarrow> query_def \<Rightarrow> json \<Rightarrow> string option \<Rightarrow> rows res" where
  "run_query store def args caller_role = run_cross_domain store def args [] caller_role"

record page =
  pg_rows :: rows
  pg_after :: "string option"

definition page_size :: "query_def \<Rightarrow> json \<Rightarrow> nat" where
  "page_size def args = (case qd_limit def of None \<Rightarrow> 0 | Some l \<Rightarrow> resolve_limit l args)"

text \<open>The size as an \<open>i64\<close>, plus one: the addition wraps at the largest page.\<close>

definition run_page :: "aggregate_scan \<Rightarrow> query_def \<Rightarrow> json \<Rightarrow> string option \<Rightarrow> page res" where
  "run_page store def args caller_role =
     (let n = page_size def args;
          widened = def\<lparr>qd_limit := Some (Limit_Literal (of_nat n + 1))\<rparr>
      in rbind (run_query store widened args caller_role) (\<lambda>rows.
           case split_page rows (qd_order_by def) n of
             (rows, after) \<Rightarrow> Inr \<lparr>pg_rows = rows, pg_after = after\<rparr>))"

definition find_query :: "query_def list \<Rightarrow> string \<Rightarrow> query_def option" where
  "find_query table verb = find (\<lambda>def. qd_verb def = verb) table"

section \<open>Entity queries\<close>

record entity_query_def =
  eq_verb :: string
  eq_aggregate :: string
  eq_list_field :: string
  eq_parent_key :: string
  eq_identity_keys :: "string list"
  eq_conditions :: "query_condition list"
  eq_order_by :: "order_by option"
  eq_offset :: "limit option"
  eq_limit :: "limit option"

definition find_entity_query :: "entity_query_def list \<Rightarrow> string \<Rightarrow> entity_query_def option" where
  "find_entity_query table verb = find (\<lambda>def. eq_verb def = verb) table"

text \<open>A value object of one field reduces to its value, at every level.\<close>

fun entity_comparable_value :: "json \<Rightarrow> json" where
  "entity_comparable_value (J_Object [(k, v)]) = entity_comparable_value v"
| "entity_comparable_value v = v"

definition entity_comparable :: "json option \<Rightarrow> json option" where
  "entity_comparable v = map_option entity_comparable_value v"

definition entity_compare :: "json option \<Rightarrow> json option \<Rightarrow> ordering" where
  "entity_compare a b =
     (case (a, b) of
        (Some (J_Num x xr), Some (J_Num y yr)) \<Rightarrow> float_cmp x y
      | (Some (J_Str x), Some (J_Str y)) \<Rightarrow> cmp_of x y
      | _ \<Rightarrow>
          let unset = (\<lambda>v. v = None \<or> v = Some J_Null)
          in if unset a then (if unset b then Equal else Less)
             else if unset b then Greater else Equal)"

fun identity_order :: "json \<Rightarrow> json \<Rightarrow> string list \<Rightarrow> ordering" where
  "identity_order a b [] = Equal"
| "identity_order a b (k # ks) =
     then_with (entity_compare (entity_comparable (json_get a k)) (entity_comparable (json_get b k)))
       (identity_order a b ks)"

fun merge_under :: "string \<Rightarrow> (string \<times> json) \<Rightarrow> (string \<times> json) list \<Rightarrow> (string \<times> json) list \<Rightarrow> (string \<times> json) list" where
  "merge_under parent_key lead tail_fields [] = lead # tail_fields"
| "merge_under parent_key lead tail_fields ((k, v) # rest) =
     (if k = parent_key then merge_under parent_key (fst lead, v) tail_fields rest
      else merge_under parent_key lead (tail_fields @ [(k, v)]) rest)"

definition row_under_parent :: "string \<Rightarrow> string \<Rightarrow> json \<Rightarrow> json" where
  "row_under_parent parent_key parent_id element =
     J_Object (merge_under parent_key (parent_key, J_Str parent_id) []
       (case element of J_Object pairs \<Rightarrow> pairs | _ \<Rightarrow> []))"

definition entity_entries :: "string \<Rightarrow> rows \<Rightarrow> rows" where
  "entity_entries list_field records =
     concat (map (\<lambda>(parent_id, r).
       case Option.bind (json_get r list_field) json_as_array of
         None \<Rightarrow> []
       | Some elements \<Rightarrow> map (\<lambda>element. (parent_id, element)) elements) records)"

definition run_entity :: "aggregate_scan \<Rightarrow> entity_query_def \<Rightarrow> json \<Rightarrow> json list res" where
  "run_entity store def args =
     rbind (scan_known store (eq_aggregate def)) (\<lambda>records.
       let entries = entity_entries (eq_list_field def) records;
           entries = fold (\<lambda>c entries. filter_entries entries (qc_field c) (qc_comparator c)
             (resolve_value (qc_value c) args)) (eq_conditions def) entries;
           entries = sort_by (\<lambda>(pa, a) (pb, b).
             then_with (cmp_of pa pb) (identity_order a b (eq_identity_keys def))) entries;
           ordered = apply_ordering entries (eq_order_by def) (eq_offset def) (eq_limit def) args
       in Inr (map (\<lambda>(parent_id, element). row_under_parent (eq_parent_key def) parent_id element) ordered))"

section \<open>Roles\<close>

definition assigned_query :: "query_def list \<Rightarrow> string option \<Rightarrow> query_def option" where
  "assigned_query queries assignments = Option.bind assignments (find_query queries)"

definition holds_role_via ::
  "aggregate_scan \<Rightarrow> query_def list \<Rightarrow> string option \<Rightarrow> string \<Rightarrow> string \<Rightarrow> bool" where
  "holds_role_via store queries assignments actor_id role =
     (case assigned_query queries assignments of
        None \<Rightarrow> False
      | Some def \<Rightarrow>
          (case run_query store def (J_Object [(''actor_id'', J_Str actor_id)]) None of
             Inl _ \<Rightarrow> False
           | Inr rows \<Rightarrow>
               list_ex (\<lambda>(key, r). Option.bind (dig r ''role_name.value'') json_as_str = Some role) rows))"

definition role_mismatch :: "string \<Rightarrow> string \<Rightarrow> string \<Rightarrow> refusal" where
  "role_mismatch command role caller_role =
     Unauthorized (UnauthorizedRoleMismatchArgs_render command role caller_role)"

definition check_role_via ::
  "string option \<Rightarrow> string \<Rightarrow> string option \<Rightarrow> string option \<Rightarrow> aggregate_scan \<Rightarrow> query_def list \<Rightarrow>
   string option \<Rightarrow> unit res" where
  "check_role_via command_role command_name caller_role caller_actor_id store queries assignments =
     (let attached = (assigned_query queries assignments \<noteq> None)
      in case (caller_role, command_role, caller_actor_id) of
           (None, Some role, Some actor_id) \<Rightarrow>
             if \<not> attached \<or> holds_role_via store queries assignments actor_id role then Inr ()
             else Inl (role_mismatch command_name role ''no assigned role'')
         | (Some caller, Some role, _) \<Rightarrow>
             let authorized = (case caller_actor_id of
                   Some actor_id \<Rightarrow>
                     if attached then holds_role_via store queries assignments actor_id role else caller = role
                 | None \<Rightarrow> caller = role)
             in if authorized then Inr () else Inl (role_mismatch command_name role caller)
         | _ \<Rightarrow> Inr ())"

definition check_roles_via ::
  "string list \<Rightarrow> string \<Rightarrow> string option \<Rightarrow> string option \<Rightarrow> aggregate_scan \<Rightarrow> query_def list \<Rightarrow>
   string option \<Rightarrow> unit res" where
  "check_roles_via command_roles command_name caller_role caller_actor_id store queries assignments =
     (if list_all (\<lambda>role. \<not> is_ok (check_role_via (Some role) command_name caller_role caller_actor_id
             store queries assignments)) command_roles
      then Inl (role_mismatch command_name (str_join '' or '' command_roles)
             (case caller_role of Some c \<Rightarrow> c | None \<Rightarrow> ''no assigned role''))
      else Inr ())"

end
