(* ===== verification/Named_Query_Laws.thy ===== *)
theory Named_Query_Laws
  imports Named_Query Order_Laws
begin

text \<open>
  What a declared query answers: its conditions are the chain of one filter per condition, its
  pages together are all its rows once, and the roles it decides are the ones it answers.
\<close>

section \<open>Paging\<close>

definition with_after :: "json \<Rightarrow> string \<Rightarrow> json" where
  "with_after args token =
     J_Object (put_field ''after'' (J_Str token) (case args of J_Object flds \<Rightarrow> flds | _ \<Rightarrow> []))"

text \<open>What a caller does: ask for a page, and then for the page after its token, until there is none.\<close>

fun pages :: "nat \<Rightarrow> aggregate_scan \<Rightarrow> query_def \<Rightarrow> json \<Rightarrow> rows list res" where
  "pages 0 store def args = Inl (Fault ''pages left'')"
| "pages (Suc n) store def args =
     rbind (run_page store def args None) (\<lambda>p.
       case pg_after p of
         None \<Rightarrow> Inr [pg_rows p]
       | Some token \<Rightarrow> rbind (pages n store def (with_after args token)) (\<lambda>ps. Inr (pg_rows p # ps)))"

text \<open>No part of the query but the cursor reads the argument \<open>after\<close>.\<close>

definition ignores_after :: "query_def \<Rightarrow> bool" where
  "ignores_after def \<longleftrightarrow>
     list_all (\<lambda>c. qc_value c \<noteq> QV_Arg ''after'') (qd_conditions def) \<and>
     list_all (\<lambda>hop. rh_inner_value hop \<noteq> QV_Arg ''after'') (qd_reference_hops def) \<and>
     qd_limit def \<noteq> Some (Limit_Arg ''after'') \<and>
     (case qd_authorization def of None \<Rightarrow> True | Some auth \<Rightarrow> ta_tenant_field auth \<noteq> ''after'')"

definition same_but_after :: "json \<Rightarrow> json \<Rightarrow> bool" where
  "same_but_after args args' \<longleftrightarrow> (\<forall>name. name \<noteq> ''after'' \<longrightarrow> json_get args' name = json_get args name)"

lemma map_of_put_field: "map_of (put_field key v flds) name = (if name = key then Some v else map_of flds name)"
  by (induction key v flds rule: put_field.induct) auto

lemma json_get_with_after:
  "json_get (with_after args token) name = (if name = ''after'' then Some (J_Str token) else json_get args name)"
  by (cases args) (simp_all add: with_after_def map_of_put_field)

lemma resolve_value_same:
  "same_but_after args args' \<Longrightarrow> v \<noteq> QV_Arg ''after'' \<Longrightarrow> resolve_value v args' = resolve_value v args"
  by (cases v) (auto simp: same_but_after_def)

lemma apply_reference_hops_same:
  "same_but_after args args' \<Longrightarrow> list_all (\<lambda>hop. rh_inner_value hop \<noteq> QV_Arg ''after'') hops \<Longrightarrow>
   apply_reference_hops rows hops args' store = apply_reference_hops rows hops args store"
  by (induction hops arbitrary: rows) (simp_all add: hop_ids_def resolve_value_same)

lemma query_same:
  assumes "same_but_after args args'" "ignores_after def"
  shows "matching_rows store def args' cross = matching_rows store def args cross"
    "tenant_check (qd_authorization def) args' = tenant_check (qd_authorization def) args"
    "page_size def args' = page_size def args"
proof -
  have "wants (qd_conditions def) args' = wants (qd_conditions def) args"
    using assms by (auto simp: wants_def ignores_after_def list_all_iff resolve_value_same)
  then show "matching_rows store def args' cross = matching_rows store def args cross"
    using assms by (simp add: matching_rows_def ignores_after_def apply_reference_hops_same)
  show "tenant_check (qd_authorization def) args' = tenant_check (qd_authorization def) args"
    using assms by (auto simp: tenant_check_def ignores_after_def same_but_after_def split: option.splits)
  show "page_size def args' = page_size def args"
    using assms
    by (auto simp: page_size_def resolve_limit_def ignores_after_def same_but_after_def Let_def split: option.splits limit.splits)
qed

lemma resolve_widened: "int n < 2 ^ 63 - 1 \<Longrightarrow> resolve_limit (Limit_Literal (of_nat n + 1)) args = Suc n"
proof -
  assume "int n < 2 ^ 63 - 1"
  then have "sint (i64_of_int (int (Suc n))) = int (Suc n)"
    by (intro sint_i64_of_int) (auto simp: in_i64_def)
  then have "sint (of_nat n + 1 :: i64) = int (Suc n)"
    by (simp add: i64_of_int_def add.commute)
  then show ?thesis by (simp add: resolve_limit_def)
qed


text \<open>A query whose rows a caller may page through, with the rows it answers in order.\<close>

definition pageable :: "aggregate_scan \<Rightarrow> query_def \<Rightarrow> json \<Rightarrow> rows \<Rightarrow> bool" where
  "pageable store def args entries \<longleftrightarrow>
     qd_cursor def \<and> ignores_after def \<and> tenant_check (qd_authorization def) args = Inr () \<and>
     matching_rows store def args [] = Inr entries \<and> distinct (map fst entries) \<and>
     orderable (qd_order_by def) entries \<and> tokenable (qd_order_by def) entries \<and>
     0 < page_size def args \<and> int (page_size def args) < 2 ^ 63 - 1"

lemma run_page_from:
  assumes page: "pageable store def args entries" and args': "same_but_after args args'"
    and ys: "ys = apply_ordering entries (qd_order_by def) None None args"
    and start: "rows_after ys (qd_order_by def) (Option.bind (json_get args' ''after'') json_as_str) = Inr (drop k ys)"
  defines "n \<equiv> page_size def args"
  shows "run_page store def args' None =
    Inr (if length ys \<le> k + n then \<lparr>pg_rows = drop k ys, pg_after = None\<rparr>
         else \<lparr>pg_rows = take n (drop k ys),
           pg_after = Some (case ys ! (k + n - 1) of (key, r) \<Rightarrow> token_for key r (qd_order_by def))\<rparr>)"
proof -
  note same = query_same [OF args', of def]
  have order: "apply_ordering entries (qd_order_by def) None None args' = ys"
    unfolding ys by (simp add: apply_ordering_plain)
  have n: "page_size def args' = n" "0 < n" "int n < 2 ^ 63 - 1"
    using page same by (simp_all add: pageable_def n_def)
  let ?widened = "def\<lparr>qd_limit := Some (Limit_Literal (of_nat n + 1))\<rparr>"
  have "matching_rows store ?widened args' [] = Inr entries" "tenant_check (qd_authorization def) args' = Inr ()"
    using page same by (simp_all add: pageable_def matching_rows_def)
  then have "run_query store ?widened args' None = Inr (take (Suc n) (drop k ys))"
    using page start order resolve_widened [OF n(3), of args']
    by (simp add: run_query_def run_cross_domain_def cursor_rows_def Let_def pageable_def)
  moreover have "last (take n (drop k ys)) = ys ! (k + n - 1)" if "k + n < length ys"
    using that n(2) by (simp add: last_conv_nth add.commute)
  ultimately show ?thesis
    using n by (auto simp: run_page_def Let_def split_page_def min_def split: prod.split)
qed

lemma pages_from:
  assumes page: "pageable store def args entries"
    and ys: "ys = apply_ordering entries (qd_order_by def) None None args"
  shows "same_but_after args args' \<Longrightarrow>
    rows_after ys (qd_order_by def) (Option.bind (json_get args' ''after'') json_as_str) = Inr (drop k ys) \<Longrightarrow>
    length ys - k < fuel \<Longrightarrow>
    \<exists>ps. pages fuel store def args' = Inr ps \<and> concat ps = drop k ys \<and>
      list_all (\<lambda>p. length p \<le> page_size def args) ps"
proof (induction fuel arbitrary: args' k)
  case (Suc fuel)
  let ?n = "page_size def args"
  note page_at = run_page_from [OF page Suc.prems(1) ys Suc.prems(2)]
  show ?case
  proof (cases "length ys \<le> k + ?n")
    case True
    then show ?thesis using page_at by simp
  next
    case False
    obtain key r where row: "ys ! (k + ?n - 1) = (key, r)" by fastforce
    let ?args = "with_after args' (token_for key r (qd_order_by def))"
    have n: "0 < ?n" using page by (simp add: pageable_def)
    have "rows_after ys (qd_order_by def) (Some (token_for key r (qd_order_by def))) = Inr (drop (Suc (k + ?n - 1)) ys)"
      using page False n row ys by (intro rows_after_token) (auto simp: pageable_def)
    then have "rows_after ys (qd_order_by def) (Option.bind (json_get ?args ''after'') json_as_str) = Inr (drop (k + ?n) ys)"
      using n by (simp add: json_get_with_after)
    moreover have "same_but_after args ?args"
      using Suc.prems(1) by (simp add: same_but_after_def json_get_with_after)
    ultimately obtain ps where ps: "pages fuel store def ?args = Inr ps" "concat ps = drop (k + ?n) ys"
        "list_all (\<lambda>p. length p \<le> ?n) ps"
      using Suc.IH [of ?args "k + ?n"] Suc.prems(3) n False by fastforce
    have "take ?n (drop k ys) @ drop (k + ?n) ys = drop k ys"
      by (metis add.commute append_take_drop_id drop_drop)
    then show ?thesis
      using page_at False row ps by simp
  qed
qed simp

text \<open>
  C15: paging ends and visits every row once, in order. Following the tokens of \<open>run_page\<close> from the
  first page on, a caller gets to a page with no token after at most one page per row; the pages
  put together are the rows that match, in the declared order, each of them exactly once, and no
  page is larger than the declared limit.
\<close>

theorem paging_visits_every_row_once:
  assumes "pageable store def args entries" "json_get args ''after'' = None" "length entries < fuel"
  shows "\<exists>ps. pages fuel store def args = Inr ps \<and>
    concat ps = apply_ordering entries (qd_order_by def) None None args \<and>
    mset (concat ps) = mset entries \<and> list_all (\<lambda>p. length p \<le> page_size def args) ps"
proof -
  let ?ys = "apply_ordering entries (qd_order_by def) None None args"
  have "length ?ys = length entries"
    by (metis mset_apply_ordering size_mset)
  then obtain ps where "pages fuel store def args = Inr ps" "concat ps = ?ys" "list_all (\<lambda>p. length p \<le> page_size def args) ps"
    using pages_from [OF assms(1) refl, of args 0 fuel] assms(2,3) by (auto simp: same_but_after_def rows_after_def)
  then show ?thesis by (metis mset_apply_ordering)
qed

definition ranked :: "string \<Rightarrow> int \<Rightarrow> string \<times> json" where
  "ranked key rank = (key, J_Object [(''rank'', J_Num (f64_of_int rank) None)])"

definition ranked_store :: aggregate_scan where
  "ranked_store aggregate =
     (if aggregate = ''Shop::Item'' then Some [ranked ''a'' 3, ranked ''b'' 1, ranked ''c'' 3, (''d'', J_Object []), ranked ''e'' 2]
      else None)"

definition ranked_query :: query_def where
  "ranked_query =
     \<lparr>qd_verb = ''Shop::Item.Ranked'', qd_aggregate = ''Shop::Item'', qd_conditions = [], qd_reference_hops = [],
      qd_order_by = Some \<lparr>ob_field = ''rank'', ob_descending = True, ob_nulls = Nulls_Native\<rparr>,
      qd_offset = None, qd_limit = Some (Limit_Literal 2), qd_cursor = True, qd_authorization = None\<rparr>"

theorem paging_visits_every_row_once_witness:
  "pageable ranked_store ranked_query (J_Object []) (the (ranked_store ''Shop::Item'')) \<and>
   (\<exists>ps. pages 6 ranked_store ranked_query (J_Object []) = Inr ps \<and>
     map fst (concat ps) = [''c'', ''a'', ''e'', ''b'', ''d''])"
proof -
  let ?rows = "the (ranked_store ''Shop::Item'')"
  have page: "pageable ranked_store ranked_query (J_Object []) ?rows"
    by code_simp
  moreover have "json_get (J_Object []) ''after'' = None" "length ?rows < 6"
    by (simp_all add: ranked_store_def)
  moreover have "map fst (apply_ordering ?rows (qd_order_by ranked_query) None None (J_Object [])) = [''c'', ''a'', ''e'', ''b'', ''d'']"
    by code_simp
  ultimately show ?thesis
    using paging_visits_every_row_once [OF page] by metis
qed

section \<open>Conditions\<close>

lemma insort_by_id: "insort_by (\<lambda>a b. cmp_of (fst a) (fst b)) x ys = insort_key fst x ys"
  by (induction ys) (auto simp: cmp_of_def)

lemma sort_by_id_key: "sort_by_id = sort_key fst"
  by (rule ext, rename_tac xs, induct_tac xs) (simp_all add: sort_by_id_def sort_by_def insort_by_id)

lemma filter_entries_sorted:
  "filter_entries_cross_domain (sort_by_id entries) field comparator want cross =
   sort_by_id (filter (\<lambda>(key, r). entry_matches r field comparator (comparable want) cross) entries)"
  by (simp add: filter_entries_cross_domain_def sort_by_id_key sort_key_id_if_sorted flip: filter_sort)

lemma conditions_chain:
  "fold (\<lambda>c rows. filter_entries_cross_domain rows (qc_field c) (qc_comparator c) (resolve_value (qc_value c) args) cross)
     conditions (sort_by_id entries) =
   sort_by_id (filter (\<lambda>(key, r). kept (wants conditions args) cross r) entries)"
proof (induction conditions arbitrary: entries)
  case Nil
  show ?case by (simp add: kept_def wants_def)
next
  case (Cons c conditions)
  show ?case
    by (simp add: filter_entries_sorted Cons kept_def wants_def case_prod_unfold conj_commute)
qed

text \<open>
  Testing all conditions per row is the chain of filters. The rows a declared query keeps in one
  pass over the borrowed rows are those that filtering once per condition, in order, would keep,
  sorted by id; then the reference hops narrow them.
\<close>

theorem query_conditions_chain:
  "matching_rows store def args cross =
   rbind (scan_known store (qd_aggregate def)) (\<lambda>entries.
     apply_reference_hops
       (fold (\<lambda>c rows. filter_entries_cross_domain rows (qc_field c) (qc_comparator c)
          (resolve_value (qc_value c) args) cross) (qd_conditions def) (sort_by_id entries))
       (qd_reference_hops def) args store)"
  by (simp add: matching_rows_def conditions_chain)

section \<open>Roles\<close>

text \<open>
  Any one of the declared roles suffices. A command with several roles is let through exactly
  when one of them is satisfied on its own; otherwise, and also when no role is listed at all, the
  refusal names them all.
\<close>

theorem any_declared_role_suffices:
  "check_roles_via roles command caller actor store queries assignments =
   (if list_ex (\<lambda>role. check_role_via (Some role) command caller actor store queries assignments = Inr ()) roles
    then Inr ()
    else Inl (role_mismatch command (str_join '' or '' roles) (case caller of Some c \<Rightarrow> c | None \<Rightarrow> ''no assigned role'')))"
proof -
  have "is_ok (r :: unit res) \<longleftrightarrow> r = Inr ()" for r by (cases r) auto
  then show ?thesis
    by (auto simp: check_roles_via_def list_all_iff list_ex_iff)
qed

text \<open>
  C16: an identified caller acts only in an assigned role. With an authorization provider compiled in,
  a role check that lets an identified caller through has found, among the rows the provider's own
  query answers for that actor, one that names the role; what role the caller states is not enough.
\<close>

theorem governed_role_is_assigned:
  assumes "assigned_query queries assignments = Some def"
    and "check_role_via (Some role) command caller (Some actor) store queries assignments = Inr ()"
  shows "\<exists>rows key r. run_query store def (J_Object [(''actor_id'', J_Str actor)]) None = Inr rows \<and>
    (key, r) \<in> set rows \<and> dig r ''role_name.value'' = Some (J_Str role)"
proof -
  have "holds_role_via store queries assignments actor role"
    using assms by (cases caller) (auto simp: check_role_via_def Let_def split: if_splits)
  then obtain rows key r where "run_query store def (J_Object [(''actor_id'', J_Str actor)]) None = Inr rows"
      "(key, r) \<in> set rows" "Option.bind (dig r ''role_name.value'') json_as_str = Some role"
    using assms(1) by (auto simp: holds_role_via_def list_ex_iff split: sum.splits)
  moreover from this(3) have "dig r ''role_name.value'' = Some (J_Str role)"
    by (cases "dig r ''role_name.value''"; cases "the (dig r ''role_name.value'')") auto
  ultimately show ?thesis by blast
qed

definition governance :: aggregate_scan where
  "governance aggregate =
     (if aggregate = ''Governance::Assignment'' then
        Some [(''g1'', J_Object [(''actor_id'', J_Str ''ada''), (''role_name'', J_Object [(''value'', J_Str ''Teller'')]), (''ends_at'', J_Null)]),
              (''g2'', J_Object [(''actor_id'', J_Str ''bob''), (''role_name'', J_Object [(''value'', J_Str ''Teller'')]), (''ends_at'', J_Str ''2024'')])]
      else None)"

definition live_assignments :: query_def where
  "live_assignments =
     \<lparr>qd_verb = ''Governance::Assignment.Live'', qd_aggregate = ''Governance::Assignment'',
      qd_conditions = [\<lparr>qc_field = ''actor_id'', qc_comparator = QC_Eq, qc_value = QV_Arg ''actor_id''\<rparr>,
        \<lparr>qc_field = ''ends_at'', qc_comparator = QC_Eq, qc_value = QV_Null\<rparr>],
      qd_reference_hops = [], qd_order_by = None, qd_offset = None, qd_limit = None, qd_cursor = False,
      qd_authorization = None\<rparr>"

theorem governed_role_is_assigned_witness:
  "check_role_via (Some ''Teller'') ''Open'' None (Some ''ada'') governance [live_assignments]
      (Some ''Governance::Assignment.Live'') = Inr () \<and>
   \<not> is_ok (check_role_via (Some ''Teller'') ''Open'' (Some ''Teller'') (Some ''bob'') governance [live_assignments]
      (Some ''Governance::Assignment.Live'')) \<and>
   (\<exists>rows key r. run_query governance live_assignments (J_Object [(''actor_id'', J_Str ''ada'')]) None = Inr rows \<and>
      (key, r) \<in> set rows \<and> dig r ''role_name.value'' = Some (J_Str ''Teller''))"
proof -
  have "assigned_query [live_assignments] (Some ''Governance::Assignment.Live'') = Some live_assignments"
    by (simp add: assigned_query_def find_query_def live_assignments_def)
  moreover have "check_role_via (Some ''Teller'') ''Open'' None (Some ''ada'') governance [live_assignments]
      (Some ''Governance::Assignment.Live'') = Inr ()"
    by code_simp
  moreover have "\<not> is_ok (check_role_via (Some ''Teller'') ''Open'' (Some ''Teller'') (Some ''bob'') governance [live_assignments]
      (Some ''Governance::Assignment.Live''))"
    by code_simp
  ultimately show ?thesis
    using governed_role_is_assigned by blast
qed

end
