(* ===== verification/Routing.thy ===== *)
theory Routing
  imports Json
begin

text \<open>
  \<open>rust/src/kernel/routing.rs\<close>: the invocation boundary, where the identity of the receiver is
  separated from the facts of the command.
\<close>

section \<open>The routing envelope\<close>

definition routing_refusal :: "string \<Rightarrow> refusal" where
  "routing_refusal message = TypeMismatch (''invalid routing envelope: '' @ message)"

definition nonempty_identity :: "string \<Rightarrow> string \<Rightarrow> string res" where
  "nonempty_identity v location =
     (if v = [] then Inl (routing_refusal (location @ '' identity must not be empty'')) else Inr v)"

record routing_envelope =
  re_aggregate :: string
  re_entities :: "string list"

definition entity_location :: "nat \<Rightarrow> string" where
  "entity_location index = ''to.entities['' @ show_int (int index) @ '']''"

fun entity_identities :: "nat \<Rightarrow> json list \<Rightarrow> string list res" where
  "entity_identities index [] = Inr []"
| "entity_identities index (identity # rest) =
     rbind (ok_or (routing_refusal (entity_location index @ '' must be a scalar identity'')) (json_as_str identity))
       (\<lambda>v. rbind (nonempty_identity v (entity_location index)) (\<lambda>v.
         rbind (entity_identities (Suc index) rest) (\<lambda>vs. Inr (v # vs))))"

definition route_entities :: "json option \<Rightarrow> json option \<Rightarrow> string list res" where
  "route_entities entity entities =
     (case (entity, entities) of
        (Some _, Some _) \<Rightarrow> Inl (routing_refusal ''entity route accepts either entity or entities, not both'')
      | (Some (J_Str identity), None) \<Rightarrow> rbind (nonempty_identity identity ''to.entity'') (\<lambda>v. Inr [v])
      | (Some _, None) \<Rightarrow> Inl (routing_refusal ''to.entity must be a scalar identity'')
      | (None, Some (J_Array identities)) \<Rightarrow>
          if identities = [] then Inl (routing_refusal ''entity route requires at least one entity identity'')
          else entity_identities 0 identities
      | (None, Some _) \<Rightarrow> Inl (routing_refusal ''to.entities must be an ordered identity list'')
      | (None, None) \<Rightarrow> Inl (routing_refusal ''entity route requires at least one entity identity''))"

definition envelope_from_json :: "json \<Rightarrow> routing_envelope res" where
  "envelope_from_json v =
     (case v of
        J_Str aggregate \<Rightarrow>
          rbind (nonempty_identity aggregate ''to'') (\<lambda>a. Inr \<lparr>re_aggregate = a, re_entities = []\<rparr>)
      | J_Object _ \<Rightarrow>
          rbind (ok_or (routing_refusal ''entity route requires a scalar aggregate identity'')
                   (Option.bind (json_get v ''aggregate'') json_as_str)) (\<lambda>aggregate.
          rbind (nonempty_identity aggregate ''to.aggregate'') (\<lambda>aggregate.
          rbind (route_entities (json_get v ''entity'') (json_get v ''entities'')) (\<lambda>entities.
            Inr \<lparr>re_aggregate = aggregate, re_entities = entities\<rparr>)))
      | _ \<Rightarrow> Inl (routing_refusal ''to must be an aggregate identity or an entity route''))"

definition require_depth :: "routing_envelope \<Rightarrow> nat \<Rightarrow> unit res" where
  "require_depth route expected =
     (if length (re_entities route) = expected then Inr ()
      else Inl (TypeMismatch (''to: for an entity command needs '' @ show_int (int expected) @ '' entity identit'' @
        (if expected = 1 then ''y'' else ''ies'') @ '' after the aggregate '' @ em_dash @ '' got '' @
        show_int (int (length (re_entities route))))))"

section \<open>Invocations\<close>

definition STEP_ENVELOPE_KEYS :: "string list" where
  "STEP_ENVELOPE_KEYS = [''verb'', ''role'', ''actor_id'', ''occurred_at'', ''dry_run'', ''query'']"

record command_invocation =
  ci_route :: "routing_envelope option"
  ci_facts :: json
  ci_explicit :: bool

definition non_null :: "json option \<Rightarrow> json option" where
  "non_null v = (case v of Some J_Null \<Rightarrow> None | _ \<Rightarrow> v)"

definition strip_routing_keys :: "json \<Rightarrow> json" where
  "strip_routing_keys v =
     (case v of
        J_Object flds \<Rightarrow> J_Object (filter (\<lambda>(name, x). name \<noteq> ''to'' \<and> name \<noteq> ''with'') flds)
      | other \<Rightarrow> other)"

definition route_of :: "json option \<Rightarrow> routing_envelope option res" where
  "route_of target =
     (case target of None \<Rightarrow> Inr None | Some t \<Rightarrow> rbind (envelope_from_json t) (\<lambda>route. Inr (Some route)))"

definition loose_facts :: "json \<Rightarrow> bool" where
  "loose_facts v =
     (case v of
        J_Object flds \<Rightarrow>
          list_ex (\<lambda>(key, x). key \<noteq> ''to'' \<and> key \<noteq> ''with'' \<and> \<not> List.member STEP_ENVELOPE_KEYS key) flds
      | _ \<Rightarrow> False)"

definition invocation_from_json :: "json \<Rightarrow> command_invocation res" where
  "invocation_from_json v =
     (let target = non_null (json_get v ''to'')
      in case non_null (json_get v ''with'') of
           None \<Rightarrow>
             rbind (route_of target) (\<lambda>route.
               Inr \<lparr>ci_route = route, ci_facts = strip_routing_keys v, ci_explicit = False\<rparr>)
         | Some explicit_facts \<Rightarrow>
             if json_get v ''args'' \<noteq> None then Inl (routing_refusal ''cannot combine to/with with legacy args'')
             else if loose_facts v then
               Inl (routing_refusal ''with: takes command facts, not both with: and loose keyword arguments'')
             else rbind (route_of target) (\<lambda>route.
               (case explicit_facts of
                  J_Object _ \<Rightarrow> Inr \<lparr>ci_route = route, ci_facts = explicit_facts, ci_explicit = True\<rparr>
                | _ \<Rightarrow> Inl (routing_refusal ''with must be an object of command facts''))))"

definition receiver_fact :: "json \<Rightarrow> string \<Rightarrow> string res" where
  "receiver_fact facts field =
     rbind (ok_or (routing_refusal ''aggregate-scoped operation requires to'') (json_get facts field)) to_id_component"

definition split_aggregate_receiver ::
  "command_invocation \<Rightarrow> string option \<Rightarrow> string option \<Rightarrow> (string \<times> json) res" where
  "split_aggregate_receiver call legacy_receiver_field to_receiver_field =
     rbind (case ci_route call of
              Some route \<Rightarrow> rbind (require_depth route 0) (\<lambda>_. Inr (re_aggregate route))
            | None \<Rightarrow>
                (case legacy_receiver_field of
                   Some field \<Rightarrow> receiver_fact (ci_facts call) field
                 | None \<Rightarrow>
                     (case to_receiver_field of
                        Some field \<Rightarrow> receiver_fact (ci_facts call) field
                      | None \<Rightarrow> Inl (routing_refusal ''aggregate-scoped operation requires to''))))
       (\<lambda>receiver.
          Inr (receiver,
            (case (ci_facts call, legacy_receiver_field) of
               (J_Object flds, Some field) \<Rightarrow> J_Object (filter (\<lambda>(name, x). name \<noteq> field) flds)
             | _ \<Rightarrow> ci_facts call)))"

section \<open>What an accepted invocation is\<close>

lemma nonempty_identity_Inr [simp]: "nonempty_identity v location = Inr w \<longleftrightarrow> w = v \<and> v \<noteq> []"
  by (auto simp: nonempty_identity_def)

lemma entity_identities_Inr:
  "entity_identities index identities = Inr vs \<Longrightarrow> map J_Str vs = identities \<and> [] \<notin> set vs"
proof (induction index identities arbitrary: vs rule: entity_identities.induct)
  case (2 index identity rest)
  then show ?case by (cases identity) (auto simp: rbind_eq_Inr)
qed simp

text \<open>The entity identities a route names, as the caller wrote them.\<close>

definition written_entities :: "json \<Rightarrow> json list" where
  "written_entities v =
     (case json_get v ''entity'' of
        Some identity \<Rightarrow> [identity]
      | None \<Rightarrow> (case json_get v ''entities'' of Some (J_Array identities) \<Rightarrow> identities | _ \<Rightarrow> []))"

lemma route_entities_Inr:
  assumes "route_entities (json_get v ''entity'') (json_get v ''entities'') = Inr vs"
  shows "vs \<noteq> [] \<and> [] \<notin> set vs \<and> map J_Str vs = written_entities v"
proof -
  have "vs \<noteq> []" if "identities \<noteq> []" "entity_identities 0 identities = Inr vs" for identities
    using entity_identities_Inr [OF that(2)] that(1) by auto
  then show ?thesis
    using assms entity_identities_Inr
    by (auto simp: route_entities_def written_entities_def rbind_eq_Inr split: option.splits json.splits if_splits)
qed

text \<open>
  An accepted invocation separates the receiver from the facts. The route, when there is one,
  names a non-blank aggregate and the entity identities the caller wrote, none blank, at least one
  for an entity route; with an explicit \<open>with\<close> the facts are that object untouched, otherwise they
  are the caller's fields without \<open>to\<close> and \<open>with\<close>.
\<close>

theorem accepted_invocation:
  assumes "invocation_from_json v = Inr call"
  shows "(case ci_route call of
      None \<Rightarrow> non_null (json_get v ''to'') = None
    | Some route \<Rightarrow> re_aggregate route \<noteq> [] \<and> [] \<notin> set (re_entities route) \<and>
        (json_get v ''to'' = Some (J_Str (re_aggregate route)) \<and> re_entities route = [] \<or>
         (\<exists>flds. json_get v ''to'' = Some (J_Object flds) \<and> re_entities route \<noteq> [] \<and>
            map_of flds ''aggregate'' = Some (J_Str (re_aggregate route)) \<and>
            map J_Str (re_entities route) = written_entities (J_Object flds)))) \<and>
    (if ci_explicit call then json_get v ''with'' = Some (ci_facts call) \<and> (\<exists>flds. ci_facts call = J_Object flds)
     else ci_facts call = strip_routing_keys v \<and> json_get (ci_facts call) ''to'' = None \<and> json_get (ci_facts call) ''with'' = None)"
proof -
  have as_str: "json_as_str j = Some s \<longleftrightarrow> j = J_Str s" for j s by (cases j) auto
  have route: "re_aggregate route \<noteq> [] \<and> [] \<notin> set (re_entities route) \<and>
      (t = J_Str (re_aggregate route) \<and> re_entities route = [] \<or>
       (\<exists>flds. t = J_Object flds \<and> re_entities route \<noteq> [] \<and> map_of flds ''aggregate'' = Some (J_Str (re_aggregate route)) \<and>
          map J_Str (re_entities route) = written_entities (J_Object flds)))"
    if "envelope_from_json t = Inr route" for t route
  proof (cases t)
    case (J_Object flds)
    then show ?thesis
      using that route_entities_Inr [of "J_Object flds"]
      by (auto simp: envelope_from_json_def rbind_eq_Inr ok_or_eq_Inr as_str bind_eq_Some_conv)
  qed (use that in \<open>auto simp: envelope_from_json_def rbind_eq_Inr\<close>)
  have target: "t \<noteq> J_Null \<and> json_get v name = Some t" if "non_null (json_get v name) = Some t" for t name
    using that by (cases "json_get v name"; cases "the (json_get v name)") (auto simp: non_null_def)
  have stripped: "json_get (strip_routing_keys v) name = None" if "name = ''to'' \<or> name = ''with''" for name
    using that by (cases v) (auto simp: strip_routing_keys_def map_of_eq_None_iff)
  have routed: "case ci_route call of None \<Rightarrow> non_null (json_get v ''to'') = None
     | Some route \<Rightarrow> \<exists>t. json_get v ''to'' = Some t \<and> envelope_from_json t = Inr route"
    if "route_of (non_null (json_get v ''to'')) = Inr (ci_route call)"
    using that target [of "''to''"]
    by (cases "non_null (json_get v ''to'')"; cases "ci_route call") (auto simp: route_of_def rbind_eq_Inr)
  have "route_of (non_null (json_get v ''to'')) = Inr (ci_route call) \<and>
    (if ci_explicit call then json_get v ''with'' = Some (ci_facts call) \<and> (\<exists>flds. ci_facts call = J_Object flds)
     else ci_facts call = strip_routing_keys v)"
  proof (cases "non_null (json_get v ''with'')")
    case (Some facts)
    with target [OF Some] assms show ?thesis
      by (cases facts) (auto simp: invocation_from_json_def Let_def rbind_eq_Inr split: if_splits)
  qed (use assms in \<open>auto simp: invocation_from_json_def Let_def rbind_eq_Inr\<close>)
  with routed show ?thesis
    using stripped by (auto dest!: route split: option.splits)
qed

definition sample_invocation :: json where
  "sample_invocation =
     J_Object [(''verb'', J_Str ''Shop::Order.Line.Set''),
       (''to'', J_Object [(''aggregate'', J_Str ''o1''), (''entities'', J_Array [J_Str ''l1'', J_Str ''p2''])]),
       (''with'', J_Object [(''quantity'', J_Bool True)])]"

theorem accepted_invocation_witness:
  "\<exists>call. invocation_from_json sample_invocation = Inr call \<and> ci_explicit call \<and>
     (\<exists>route. ci_route call = Some route \<and> [] \<notin> set (re_entities route))"
proof -
  let ?call = "\<lparr>ci_route = Some \<lparr>re_aggregate = ''o1'', re_entities = [''l1'', ''p2'']\<rparr>,
    ci_facts = J_Object [(''quantity'', J_Bool True)], ci_explicit = True\<rparr>"
  have "invocation_from_json sample_invocation = Inr ?call"
    by code_simp
  with accepted_invocation [OF this] show ?thesis
    by (intro exI [of _ ?call]) simp
qed

end
