(* ===== verification/Needs.thy ===== *)
theory Needs
  imports Json
begin

text \<open>
  \<open>rust/src/kernel/needs.rs\<close>: the facts a command needs, answered before the argument gates. The
  thread-local tables are the record \<open>needs_env\<close>; so are the fixed clock, and the two answers that
  come from outside the kernel: the system clock and the host callback, a function of the fact's
  name and type. A table is read as its \<open>HashMap\<close>: the last entry of a name is the one kept.
\<close>

section \<open>The calendar\<close>

text \<open>Arithmetic on \<open>i64\<close> in a release build: sums and products wrap, division truncates.\<close>

definition i64_div :: "i64 \<Rightarrow> i64 \<Rightarrow> i64" where
  "i64_div a b = i64_of_int (trunc_div (sint a) (sint b))"

definition days_from_civil :: "i64 \<Rightarrow> i64 \<Rightarrow> i64 \<Rightarrow> i64" where
  "days_from_civil y m day =
     (let y = (if sint m \<le> 2 then y - 1 else y);
          era = i64_div (if sint y \<ge> 0 then y else y - 399) 400;
          yoe = y - era * 400;
          doy = i64_div (153 * (if sint m > 2 then m - 3 else m + 9) + 2) 5 + day - 1;
          doe = yoe * 365 + i64_div yoe 4 - i64_div yoe 100 + doy
      in era * 146097 + doe - 719468)"

definition parse_iso8601_utc :: "string \<Rightarrow> i64 option" where
  "parse_iso8601_utc text =
     Option.bind (strip_suffix ''Z'' text) (\<lambda>text.
     Option.bind (split_once ''T'' text) (\<lambda>(date, time).
       (case (split_str ''-'' date, split_str '':'' time) of
          (y # m # day # _, h # mi # s # _) \<Rightarrow>
            Option.bind (parse_i64 y) (\<lambda>y. Option.bind (parse_i64 m) (\<lambda>m. Option.bind (parse_i64 day) (\<lambda>day.
            Option.bind (parse_i64 h) (\<lambda>h. Option.bind (parse_i64 mi) (\<lambda>mi.
            Option.bind (parse_i64 (hd (split_str ''.'' s))) (\<lambda>s.
              Some (days_from_civil y m day * 86400 + h * 3600 + mi * 60 + s)))))))
        | _ \<Rightarrow> None)))"

section \<open>The tables\<close>

record need =
  nd_fact :: string
  nd_attribute_type :: string

record needs_env =
  ne_table :: "(string \<times> need list) list"
  ne_defaults :: "(string \<times> (string \<times> json) list) list"
  ne_query_table :: "(string \<times> need list) list"
  ne_fixed_clock :: "i64 option"
  ne_asker :: "(string \<Rightarrow> string \<Rightarrow> json option) option"
  ne_system_clock :: i64

definition hash_lookup :: "(string \<times> 'a) list \<Rightarrow> string \<Rightarrow> 'a option" where
  "hash_lookup entries name = map_of (rev entries) name"

definition parse_need :: "json \<Rightarrow> need option" where
  "parse_need n =
     Option.bind (json_get n ''fact'') (\<lambda>f. Option.bind (json_as_str f) (\<lambda>fact.
       Some \<lparr>nd_fact = fact,
         nd_attribute_type = (case Option.bind (json_get n ''type'') json_as_str of Some t \<Rightarrow> t | None \<Rightarrow> [])\<rparr>))"

definition parse_table :: "json option \<Rightarrow> (string \<times> need list) list" where
  "parse_table table =
     (case table of
        Some (J_Object entries) \<Rightarrow>
          map (\<lambda>(name, needs).
            (name, List.map_filter parse_need (case json_as_array needs of Some ns \<Rightarrow> ns | None \<Rightarrow> []))) entries
      | _ \<Rightarrow> [])"

definition install :: "json option \<Rightarrow> needs_env \<Rightarrow> needs_env" where
  "install table env = env\<lparr>ne_table := parse_table table\<rparr>"

definition install_queries :: "json option \<Rightarrow> needs_env \<Rightarrow> needs_env" where
  "install_queries table env = env\<lparr>ne_query_table := parse_table table\<rparr>"

definition parse_defaults :: "json option \<Rightarrow> (string \<times> (string \<times> json) list) list" where
  "parse_defaults table =
     (case table of
        Some (J_Object entries) \<Rightarrow>
          List.map_filter (\<lambda>(verb, attributes).
            case attributes of J_Object held \<Rightarrow> Some (verb, held) | _ \<Rightarrow> None) entries
      | _ \<Rightarrow> [])"

definition install_defaults :: "json option \<Rightarrow> needs_env \<Rightarrow> needs_env" where
  "install_defaults table env = env\<lparr>ne_defaults := parse_defaults table\<rparr>"

definition set_asker :: "(string \<Rightarrow> string \<Rightarrow> json option) option \<Rightarrow> needs_env \<Rightarrow> needs_env" where
  "set_asker asker env = env\<lparr>ne_asker := asker\<rparr>"

definition fix_clock :: "i64 option \<Rightarrow> needs_env \<Rightarrow> needs_env" where
  "fix_clock secs env = env\<lparr>ne_fixed_clock := secs\<rparr>"

section \<open>Answers\<close>

definition now_secs :: "needs_env \<Rightarrow> string option \<Rightarrow> i64" where
  "now_secs env occurred_at =
     (case ne_fixed_clock env of
        Some fixed \<Rightarrow> fixed
      | None \<Rightarrow> (case Option.bind occurred_at parse_iso8601_utc of Some secs \<Rightarrow> secs | None \<Rightarrow> ne_system_clock env))"

definition ask :: "needs_env \<Rightarrow> need \<Rightarrow> json option" where
  "ask env n = Option.bind (ne_asker env) (\<lambda>asker. asker (nd_fact n) (nd_attribute_type n))"

definition answer :: "needs_env \<Rightarrow> need \<Rightarrow> string option \<Rightarrow> json option" where
  "answer env n occurred_at =
     (if nd_fact n = ''now'' \<or> nd_fact n = ''today'' then
        let secs = now_secs env occurred_at;
            result = (if nd_fact n = ''today'' then i64_of_int (sint secs div 86400) else secs)
        in Some (if nd_attribute_type n = ''Integer'' then json_int result
                 else J_Object [(''value'', json_int result)])
      else ask env n)"

definition has_key :: "string \<Rightarrow> (string \<times> 'a) list \<Rightarrow> bool" where
  "has_key name flds = list_ex (\<lambda>(k, v). k = name) flds"

definition fill_need :: "needs_env \<Rightarrow> string option \<Rightarrow> (string \<times> json) list \<Rightarrow> need \<Rightarrow> (string \<times> json) list \<Rightarrow> (string \<times> json) list" where
  "fill_need env occurred_at held n filled =
     (if has_key (nd_fact n) held then filled
      else (case answer env n occurred_at of None \<Rightarrow> filled | Some v \<Rightarrow> filled @ [(nd_fact n, v)]))"

definition fill_default :: "string \<times> json \<Rightarrow> (string \<times> json) list \<Rightarrow> (string \<times> json) list" where
  "fill_default entry filled = (if has_key (fst entry) filled then filled else filled @ [entry])"

definition fill_facts ::
  "needs_env \<Rightarrow> string option \<Rightarrow> need list \<Rightarrow> (string \<times> json) list \<Rightarrow> (string \<times> json) list \<Rightarrow> (string \<times> json) list" where
  "fill_facts env occurred_at needs defaults held =
     fold fill_default defaults (fold (fill_need env occurred_at held) needs held)"

definition enrich :: "needs_env \<Rightarrow> string \<Rightarrow> json \<Rightarrow> string option \<Rightarrow> json option" where
  "enrich env verb args occurred_at =
     (let needs = (case hash_lookup (ne_table env) verb of Some ns \<Rightarrow> ns | None \<Rightarrow> []);
          defaults = (case hash_lookup (ne_defaults env) verb of Some ds \<Rightarrow> ds | None \<Rightarrow> [])
      in if needs = [] \<and> defaults = [] then None
         else let explicit = (case json_get args ''with'' of Some (J_Object _) \<Rightarrow> True | _ \<Rightarrow> False);
                  facts = (if explicit then json_get args ''with'' else Some args)
              in (case facts of
                    Some (J_Object held) \<Rightarrow>
                      let filled = fill_facts env occurred_at needs defaults held
                      in if length filled = length held then None
                         else if \<not> explicit then Some (J_Object filled)
                         else (case args of
                                 J_Object envelope \<Rightarrow>
                                   Some (J_Object (map (\<lambda>(k, v). if k = ''with'' then (k, J_Object filled) else (k, v)) envelope))
                               | _ \<Rightarrow> None)
                  | _ \<Rightarrow> None))"

definition enrich_query :: "needs_env \<Rightarrow> string \<Rightarrow> json \<Rightarrow> string option \<Rightarrow> json option" where
  "enrich_query env question args occurred_at =
     Option.bind (hash_lookup (ne_query_table env) question) (\<lambda>needs.
       (case args of
          J_Object held \<Rightarrow>
            let filled = fold (fill_need env occurred_at held) needs held
            in if length filled = length held then None else Some (J_Object filled)
        | _ \<Rightarrow> None))"

end
