(* ===== verification/Needs_Laws.thy ===== *)
theory Needs_Laws
  imports Needs
begin

text \<open>
  The clock's calendar is the Gregorian one, a stamp answers the day and second it names, and a fact
  the caller supplied is never replaced.
\<close>

section \<open>The calendar\<close>

lemma i64_hom:
  "i64_of_int a + i64_of_int b = i64_of_int (a + b)" "i64_of_int a - i64_of_int b = i64_of_int (a - b)"
  "i64_of_int a * i64_of_int b = i64_of_int (a * b)"
  by (simp_all add: i64_of_int_def)

lemma i64_numerals: "numeral n = i64_of_int (numeral n)" "1 = i64_of_int 1"
  by (simp_all add: i64_of_int_def)

lemma i64_div_hom: "in_i64 a \<Longrightarrow> in_i64 b \<Longrightarrow> i64_div (i64_of_int a) (i64_of_int b) = i64_of_int (trunc_div a b)"
  by (simp add: i64_div_def)

lemma trunc_div_nonneg: "0 \<le> a \<Longrightarrow> 0 < b \<Longrightarrow> trunc_div a b = a div b"
  by (cases "a = 0") (simp_all add: trunc_div_def)

lemma era_floor: "trunc_div (if 0 \<le> y then y else y - 399) 400 = y div 400"
proof (cases "0 \<le> y")
  case False
  then have "trunc_div (y - 399) 400 = - ((399 - y) div 400)"
    by (simp add: trunc_div_def)
  also have "399 - y = 400 * (- (y div 400)) + (399 - y mod 400)"
    using div_mult_mod_eq [of y 400] by linarith
  then have "(399 - y) div 400 = - (y div 400)"
    by (rule int_div_pos_eq) (use pos_mod_bound [of 400 y] in simp_all)
  then have "- ((399 - y) div 400) = y div 400"
    by simp
  finally show ?thesis using False by simp
qed (simp add: trunc_div_nonneg)

text \<open>The proleptic Gregorian calendar on unbounded integers, years counted from March.\<close>

definition day_number :: "int \<Rightarrow> int \<Rightarrow> int \<Rightarrow> int" where
  "day_number y m d =
     (let y = (if m \<le> 2 then y - 1 else y); mp = (if m > 2 then m - 3 else m + 9)
      in 365 * y + y div 4 - y div 100 + y div 400 + (153 * mp + 2) div 5 + d - 1 - 719468)"

lemma era_days:
  "y div 400 * 146097 + ((y - y div 400 * 400) * 365 + (y - y div 400 * 400) div 4 - (y - y div 400 * 400) div 100) =
   365 * y + y div 4 - y div 100 + y div (400 :: int)"
proof -
  obtain e r where y: "y = 400 * e + r" "0 \<le> r" "r < 400"
    using that [of "y div 400" "y mod 400"] by simp
  then have "y div 400 = e" "y div 4 = 100 * e + r div 4" "y div 100 = 4 * e + r div 100"
    by linarith+
  then show ?thesis using y by simp
qed

definition in_range :: "int \<Rightarrow> bool" where
  "in_range x \<longleftrightarrow> - (2 ^ 32) \<le> x \<and> x \<le> 2 ^ 32"

lemma days_from_civil_eq:
  assumes "in_range y" "1 \<le> m" "m \<le> 12" "in_range d"
  shows "days_from_civil (i64_of_int y) (i64_of_int m) (i64_of_int d) = i64_of_int (day_number y m d)"
proof -
  have small: "in_i64 x" if "- (2 ^ 62) \<le> x" "x \<le> 2 ^ 62" for x
    using that by (simp add: in_i64_def)
  define y' where "y' = (if m \<le> 2 then y - 1 else y)"
  have y': "- (2 ^ 33) \<le> y'" "y' \<le> 2 ^ 33"
    using assms(1) by (auto simp: y'_def in_range_def)
  define yoe where "yoe = y' - y' div 400 * 400"
  have yoe: "0 \<le> yoe" "yoe < 400" by (auto simp: yoe_def minus_div_mult_eq_mod)
  have m: "sint (i64_of_int m) = m" "sint (i64_of_int y') = y'"
    using assms y' by (simp_all add: small)
  have w: "(if sint (i64_of_int m) \<le> 2 then i64_of_int y - 1 else i64_of_int y) = i64_of_int y'"
    by (simp add: m y'_def i64_numerals i64_hom)
  have "in_i64 (if 0 \<le> y' then y' else y' - 399)"
    using y' by (simp add: small)
  then have era: "i64_div (if sint (i64_of_int y') \<ge> 0 then i64_of_int y' else i64_of_int y' - 399) 400 = i64_of_int (y' div 400)"
    using i64_div_hom [of "if 0 \<le> y' then y' else y' - 399" 400] era_floor [of y']
    by (simp add: m small i64_numerals i64_hom split: if_splits)
  have quarters: "i64_div (i64_of_int yoe) 4 = i64_of_int (yoe div 4)" "i64_div (i64_of_int yoe) 100 = i64_of_int (yoe div 100)"
    using yoe by (simp_all add: i64_numerals i64_div_hom small trunc_div_nonneg)
  define mp where "mp = (if m > 2 then m - 3 else m + 9)"
  have mp: "0 \<le> mp" "mp \<le> 11" using assms by (auto simp: mp_def)
  have month: "i64_div (153 * (if sint (i64_of_int m) > 2 then i64_of_int m - 3 else i64_of_int m + 9) + 2) 5
      = i64_of_int ((153 * mp + 2) div 5)"
    using mp i64_div_hom [of "153 * mp + 2" 5]
    by (simp add: m mp_def i64_numerals i64_hom small trunc_div_nonneg split: if_splits)
  have "i64_of_int y' - i64_of_int (y' div 400) * 400 = i64_of_int yoe"
    by (simp add: yoe_def i64_numerals i64_hom)
  then have "days_from_civil (i64_of_int y) (i64_of_int m) (i64_of_int d) =
      i64_of_int (y' div 400 * 146097 + (yoe * 365 + yoe div 4 - yoe div 100 + ((153 * mp + 2) div 5 + d - 1)) - 719468)"
    unfolding days_from_civil_def Let_def w era month
    by (simp add: quarters) (simp add: i64_numerals i64_hom)
  moreover have "y' div 400 * 146097 + (yoe * 365 + yoe div 4 - yoe div 100 + ((153 * mp + 2) div 5 + d - 1)) - 719468 =
      day_number y m d"
    using era_days [of y']
    unfolding day_number_def Let_def y'_def [symmetric] mp_def [symmetric] yoe_def [symmetric] by linarith
  ultimately show ?thesis by simp
qed

lemma div_within:
  fixes k b y :: int
  assumes "0 < k" "- b \<le> y" "y \<le> b" "0 \<le> b"
  shows "- b \<le> y div k" "y div k \<le> b"
proof -
  have "b * 1 \<le> b * k" using assms by (intro mult_left_mono) auto
  then have "(- b * k) div k \<le> y div k" "y div k \<le> (b * k) div k"
    using assms by (intro zdiv_mono1; simp)+
  then show "- b \<le> y div k" "y div k \<le> b"
    using assms nonzero_mult_div_cancel_right [of k "- b"] by simp_all
qed

lemma day_number_bounds:
  assumes "- (2 ^ 32) \<le> a" "a \<le> 2 ^ 32" "1 \<le> b" "b \<le> 12" "1 \<le> c" "c \<le> 31"
  shows "- (2 ^ 44) \<le> day_number a b c" "day_number a b c \<le> 2 ^ 44"
proof -
  define y where "y = (if b \<le> 2 then a - 1 else a)"
  define mp where "mp = (if b > 2 then b - 3 else b + 9)"
  have y: "- (2 ^ 33) \<le> y" "y \<le> 2 ^ 33" using assms by (auto simp: y_def)
  then have "- (2 ^ 33) \<le> y div 4" "y div 4 \<le> 2 ^ 33" "- (2 ^ 33) \<le> y div 100" "y div 100 \<le> 2 ^ 33"
    "- (2 ^ 33) \<le> y div 400" "y div 400 \<le> 2 ^ 33"
    using div_within [of 4 "2 ^ 33" y] div_within [of 100 "2 ^ 33" y] div_within [of 400 "2 ^ 33" y] by simp_all
  moreover have "0 \<le> mp" "mp \<le> 11" using assms by (auto simp: mp_def)
  then have "0 \<le> (153 * mp + 2) div 5" "(153 * mp + 2) div 5 \<le> 2000 div 5"
    by (simp add: pos_imp_zdiv_nonneg_iff, intro zdiv_mono1) simp_all
  ultimately show "- (2 ^ 44) \<le> day_number a b c" "day_number a b c \<le> 2 ^ 44"
    using y assms unfolding day_number_def Let_def y_def [symmetric] mp_def [symmetric] by auto
qed

definition leap :: "int \<Rightarrow> bool" where
  "leap y \<longleftrightarrow> 4 dvd y \<and> (\<not> 100 dvd y \<or> 400 dvd y)"

definition gregorian_month_days :: "int \<Rightarrow> int \<Rightarrow> int" where
  "gregorian_month_days y m =
     (if m = 2 then (if leap y then 29 else 28) else if m \<in> {4, 6, 9, 11} then 30 else 31)"

definition valid_date :: "int \<Rightarrow> int \<Rightarrow> int \<Rightarrow> bool" where
  "valid_date y m d \<longleftrightarrow> 1 \<le> m \<and> m \<le> 12 \<and> 1 \<le> d \<and> d \<le> gregorian_month_days y m"

definition next_day :: "int \<Rightarrow> int \<Rightarrow> int \<Rightarrow> int \<times> int \<times> int" where
  "next_day y m d =
     (if d < gregorian_month_days y m then (y, m, d + 1)
      else if m < 12 then (y, m + 1, 1) else (y + 1, 1, 1))"

lemma leap_year_days:
  "365 * y + y div 4 - y div 100 + y div 400 =
   365 * (y - 1) + (y - 1) div 4 - (y - 1) div 100 + (y - 1) div 400 + (if leap y then 366 else (365 :: int))"
proof -
  have step: "y div k = (y - 1) div k + (if k dvd y then 1 else 0)" if "0 < k" for k :: int
  proof -
    have y: "y = k * (y div k) + y mod k" "0 \<le> y mod k" "y mod k < k"
      using that by simp_all
    show ?thesis
    proof (cases "y mod k = 0")
      case True
      then have "y - 1 = k * (y div k - 1) + (k - 1)"
        using y(1) by (simp add: algebra_simps)
      then have "(y - 1) div k = y div k - 1"
        by (rule int_div_pos_eq) (use that in simp_all)
      then show ?thesis using True by (simp add: dvd_eq_mod_eq_0)
    next
      case False
      have "y - 1 = k * (y div k) + (y mod k - 1)"
        using y(1) by simp
      then have "(y - 1) div k = y div k"
        by (rule int_div_pos_eq) (use False y in simp_all)
      then show ?thesis using False by (simp add: dvd_eq_mod_eq_0)
    qed
  qed
  have sum: "365 * y + (a + (if p then 1 else 0)) - (b + (if q then 1 else 0)) + (c + (if r then 1 else 0)) =
      365 * (y - 1) + a - b + c + (if p \<and> (\<not> q \<or> r) then 366 else 365)"
    if "r \<Longrightarrow> q" "q \<Longrightarrow> p" for a b c :: int and p q r
    using that by auto
  have "400 dvd y \<Longrightarrow> 100 dvd y" "100 dvd y \<Longrightarrow> 4 dvd y"
    by (rule dvd_trans [of _ 400] dvd_trans [of _ 100]; simp)+
  from sum [OF this] show ?thesis
    unfolding leap_def step [of 4, simplified] step [of 100, simplified] step [of 400, simplified] .
qed

lemma months_range: "m \<in> {1, 2, 3, 4, 5, 6, 7, 8, 9, 10, 11, 12} \<longleftrightarrow> 1 \<le> m \<and> m \<le> (12 :: int)"
proof -
  have "{1..12} = {1, 2, 3, 4, 5, 6, 7, 8, 9, 10, 11, 12 :: int}" unfolding set_upto [symmetric] by code_simp
  then show ?thesis by (metis atLeastAtMost_iff)
qed

lemma day_number_next:
  assumes "valid_date y m d" "next_day y m d = (y', m', d')"
  shows "day_number y' m' d' = day_number y m d + 1"
proof (cases "d < gregorian_month_days y m")
  case True
  then show ?thesis using assms by (auto simp: next_day_def day_number_def Let_def)
next
  case False
  then have d: "d = gregorian_month_days y m" using assms(1) by (simp add: valid_date_def)
  have "m \<in> {1, 2, 3, 4, 5, 6, 7, 8, 9, 10, 11, 12}"
    using assms(1) by (simp only: valid_date_def months_range)
  then consider (february) "m = 2" | (december) "m = 12" | (other) "m \<in> {1, 3, 4, 5, 6, 7, 8, 9, 10, 11}"
    by blast
  then show ?thesis
  proof cases
    case february
    define F where "F = (\<lambda>y :: int. 365 * y + y div 4 - y div 100 + y div 400)"
    have "day_number y 3 1 = F y - 719468" "day_number y 2 d = F (y - 1) + 337 + d - 1 - 719468"
      by (simp_all add: day_number_def Let_def F_def)
    moreover have "F y = F (y - 1) + (if leap y then 366 else 365)"
      unfolding F_def by (rule leap_year_days)
    moreover have "d = (if leap y then 29 else 28)"
      using d february by (simp add: gregorian_month_days_def)
    ultimately have "day_number y 3 1 = day_number y 2 d + 1"
      by simp
    then show ?thesis using assms(2) False february by (simp add: next_day_def)
  next
    case december
    then show ?thesis using assms(2) d by (auto simp: next_day_def day_number_def gregorian_month_days_def Let_def)
  next
    case other
    then show ?thesis using assms(2) d by (auto simp: next_day_def day_number_def gregorian_month_days_def Let_def)
  qed
qed


text \<open>
  The clock counts calendar days. The day number of the first of January 1970 is zero, and the day
  after any valid date, across ends of months, leap days and ends of years (before and after the
  epoch), has the next number, for years within 2^32 of zero.
\<close>

theorem calendar_days:
  assumes "valid_date y m d" "next_day y m d = (y', m', d')" "\<bar>y\<bar> < 2 ^ 32"
  shows "sint (days_from_civil (i64_of_int y') (i64_of_int m') (i64_of_int d')) =
    sint (days_from_civil (i64_of_int y) (i64_of_int m) (i64_of_int d)) + 1 \<and>
    sint (days_from_civil 1970 1 1) = 0"
proof -
  have valid': "valid_date y' m' d'"
    using assms(1,2) by (auto simp: valid_date_def next_day_def gregorian_month_days_def split: if_splits)
  have y': "\<bar>y'\<bar> \<le> 2 ^ 32"
    using assms(2,3) by (auto simp: next_day_def split: if_splits)
  have days: "sint (days_from_civil (i64_of_int a) (i64_of_int b) (i64_of_int c)) = day_number a b c"
    if date: "valid_date a b c" and a: "\<bar>a\<bar> \<le> 2 ^ 32" for a b c
  proof -
    have c: "1 \<le> c" "c \<le> 31" "1 \<le> b" "b \<le> 12"
      using date by (auto simp: valid_date_def gregorian_month_days_def split: if_splits)
    then have "in_range a" "in_range c" using a by (auto simp: in_range_def abs_le_iff)
    have "in_i64 (day_number a b c)"
      using day_number_bounds [of a b c] c a by (auto simp: in_i64_def abs_le_iff)
    with days_from_civil_eq [OF \<open>in_range a\<close> c(3,4) \<open>in_range c\<close>] show ?thesis by simp
  qed
  have "days_from_civil 1970 1 1 = 0"
    by code_simp
  then show ?thesis
    using days [OF assms(1)] days [OF valid' y'] day_number_next [OF assms(1,2)] assms(3) by simp
qed

theorem calendar_days_witness:
  "valid_date 2024 2 29 \<and> next_day 2024 2 29 = (2024, 3, 1) \<and>
   sint (days_from_civil (i64_of_int 2024) (i64_of_int 3) (i64_of_int 1)) =
   sint (days_from_civil (i64_of_int 2024) (i64_of_int 2) (i64_of_int 29)) + 1"
proof -
  have "valid_date 2024 2 29" "next_day 2024 2 29 = (2024, 3, 1)"
    by code_simp+
  with calendar_days [OF this] show ?thesis by simp
qed

section \<open>The facts a caller left out\<close>

lemma fill_needs_extends:
  "\<exists>extra. fold (fill_need env at held) needs filled = filled @ extra \<and>
    list_all (\<lambda>(k, v). \<not> has_key k held \<and> (\<exists>n\<in>set needs. nd_fact n = k \<and> answer env n at = Some v)) extra"
proof (induction needs arbitrary: filled)
  case (Cons n needs)
  define extra1 where "extra1 = (if has_key (nd_fact n) held then []
    else case answer env n at of None \<Rightarrow> [] | Some v \<Rightarrow> [(nd_fact n, v)])"
  have e1: "fill_need env at held n filled = filled @ extra1"
      "list_all (\<lambda>(k, v). \<not> has_key k held \<and> nd_fact n = k \<and> answer env n at = Some v) extra1"
    by (auto simp: fill_need_def extra1_def split: option.split)
  obtain extra where "fold (fill_need env at held) needs (filled @ extra1) = (filled @ extra1) @ extra"
      "list_all (\<lambda>(k, v). \<not> has_key k held \<and> (\<exists>n\<in>set needs. nd_fact n = k \<and> answer env n at = Some v)) extra"
    using Cons.IH [of "filled @ extra1"] by blast
  then show ?case
    using e1 by (intro exI [of _ "extra1 @ extra"]) (fastforce simp: list_all_iff)
qed simp

lemma fill_defaults_extends:
  "\<exists>extra. fold fill_default defaults filled = filled @ extra \<and>
    list_all (\<lambda>(k, v). \<not> has_key k filled \<and> (k, v) \<in> set defaults) extra"
proof (induction defaults arbitrary: filled)
  case (Cons d defaults)
  define extra1 where "extra1 = (if has_key (fst d) filled then [] else [d])"
  have e1: "fill_default d filled = filled @ extra1" "list_all (\<lambda>(k, v). \<not> has_key k filled \<and> (k, v) = d) extra1"
    by (cases d; simp add: fill_default_def extra1_def)+
  obtain extra where "fold fill_default defaults (filled @ extra1) = (filled @ extra1) @ extra"
      "list_all (\<lambda>(k, v). \<not> has_key k (filled @ extra1) \<and> (k, v) \<in> set defaults) extra"
    using Cons.IH [of "filled @ extra1"] by blast
  then show ?case
    using e1 by (intro exI [of _ "extra1 @ extra"]) (fastforce simp: list_all_iff has_key_def)
qed simp

lemma fill_facts_extends:
  "\<exists>extra. fill_facts env at needs defaults held = held @ extra \<and>
    list_all (\<lambda>(k, v). \<not> has_key k held \<and>
      ((\<exists>n\<in>set needs. nd_fact n = k \<and> answer env n at = Some v) \<or> (k, v) \<in> set defaults)) extra"
proof -
  obtain e1 where e1: "fold (fill_need env at held) needs held = held @ e1"
      "list_all (\<lambda>(k, v). \<not> has_key k held \<and> (\<exists>n\<in>set needs. nd_fact n = k \<and> answer env n at = Some v)) e1"
    using fill_needs_extends by blast
  obtain e2 where "fold fill_default defaults (held @ e1) = (held @ e1) @ e2"
      "list_all (\<lambda>(k, v). \<not> has_key k (held @ e1) \<and> (k, v) \<in> set defaults) e2"
    using fill_defaults_extends by blast
  then show ?thesis
    using e1 by (intro exI [of _ "e1 @ e2"]) (fastforce simp: list_all_iff has_key_def fill_facts_def)
qed

text \<open>The facts of a call: its \<open>with\<close> object, or the call itself.\<close>

definition call_facts :: "json \<Rightarrow> json" where
  "call_facts args = (case json_get args ''with'' of Some (J_Object held) \<Rightarrow> J_Object held | _ \<Rightarrow> args)"

lemma map_of_replace:
  "map_of (map (\<lambda>(k, v). if k = name then (k, w) else (k, v)) flds) key =
   (if key = name \<and> map_of flds name \<noteq> None then Some w else map_of flds key)"
  by (induction flds) auto

lemma enrich_cases:
  assumes "enrich env verb args at = Some args'"
  shows "\<exists>held needs defaults. call_facts args = J_Object held \<and>
    length (fill_facts env at needs defaults held) \<noteq> length held \<and>
    (if \<exists>h. json_get args ''with'' = Some (J_Object h)
     then json_get args' ''with'' = Some (J_Object (fill_facts env at needs defaults held)) \<and>
       (\<forall>name. name \<noteq> ''with'' \<longrightarrow> json_get args' name = json_get args name)
     else args' = J_Object (fill_facts env at needs defaults held)) \<and>
    needs = (case hash_lookup (ne_table env) verb of Some ns \<Rightarrow> ns | None \<Rightarrow> []) \<and>
    defaults = (case hash_lookup (ne_defaults env) verb of Some ds \<Rightarrow> ds | None \<Rightarrow> [])"
proof (cases "\<exists>h. json_get args ''with'' = Some (J_Object h)")
  case True
  then obtain h envelope where h: "json_get args ''with'' = Some (J_Object h)" "args = J_Object envelope"
    by (cases args) auto
  then show ?thesis
    using assms
    by (auto simp: enrich_def call_facts_def Let_def map_of_replace split: if_splits)
next
  case False
  then have "\<not> (case json_get args ''with'' of Some (J_Object _) \<Rightarrow> True | _ \<Rightarrow> False)" "call_facts args = args"
    by (auto simp: call_facts_def split: option.splits json.splits)
  then show ?thesis
    using assms False by (cases args) (auto simp: enrich_def Let_def split: if_splits)
qed


text \<open>
  A supplied fact wins. When \<open>enrich\<close> changes a call, the facts of the call afterwards are the
  facts the caller gave, untouched and first, followed by at least one added fact; every added
  one has a name the caller left out, and is the answer to a need of the verb or one of its
  declared defaults. The rest of an explicit envelope is as it was.
\<close>

theorem supplied_facts_win:
  assumes "enrich env verb args at = Some args'"
  shows "(\<exists>held extra. call_facts args = J_Object held \<and> extra \<noteq> [] \<and>
    (if \<exists>h. json_get args ''with'' = Some (J_Object h)
     then json_get args' ''with'' = Some (J_Object (held @ extra)) \<and>
       (\<forall>name. name \<noteq> ''with'' \<longrightarrow> json_get args' name = json_get args name)
     else args' = J_Object (held @ extra)) \<and>
    list_all (\<lambda>(k, v). \<not> has_key k held \<and>
      ((\<exists>needs n. hash_lookup (ne_table env) verb = Some needs \<and> n \<in> set needs \<and> nd_fact n = k \<and> answer env n at = Some v) \<or>
       (\<exists>defaults. hash_lookup (ne_defaults env) verb = Some defaults \<and> (k, v) \<in> set defaults))) extra)"
proof -
  obtain held needs defaults where call: "call_facts args = J_Object held"
      "length (fill_facts env at needs defaults held) \<noteq> length held"
      "if \<exists>h. json_get args ''with'' = Some (J_Object h)
       then json_get args' ''with'' = Some (J_Object (fill_facts env at needs defaults held)) \<and>
         (\<forall>name. name \<noteq> ''with'' \<longrightarrow> json_get args' name = json_get args name)
       else args' = J_Object (fill_facts env at needs defaults held)"
    and tables: "needs = (case hash_lookup (ne_table env) verb of Some ns \<Rightarrow> ns | None \<Rightarrow> [])"
      "defaults = (case hash_lookup (ne_defaults env) verb of Some ds \<Rightarrow> ds | None \<Rightarrow> [])"
    using enrich_cases [OF assms] by (elim exE conjE) (rule that)
  obtain extra where extra: "fill_facts env at needs defaults held = held @ extra"
      "list_all (\<lambda>(k, v). \<not> has_key k held \<and>
        ((\<exists>n\<in>set needs. nd_fact n = k \<and> answer env n at = Some v) \<or> (k, v) \<in> set defaults)) extra"
    using fill_facts_extends by blast
  have "list_all (\<lambda>(k, v). \<not> has_key k held \<and>
      ((\<exists>needs n. hash_lookup (ne_table env) verb = Some needs \<and> n \<in> set needs \<and> nd_fact n = k \<and> answer env n at = Some v) \<or>
       (\<exists>defaults. hash_lookup (ne_defaults env) verb = Some defaults \<and> (k, v) \<in> set defaults))) extra"
    using extra(2) unfolding tables
    by (rule list.pred_mono_strong) (cases "hash_lookup (ne_table env) verb"; cases "hash_lookup (ne_defaults env) verb"; auto)
  moreover have "extra \<noteq> []" using call(2) extra(1) by auto
  moreover note call(1) call(3) [unfolded extra(1)]
  ultimately show ?thesis by blast
qed

definition sample_needs :: needs_env where
  "sample_needs = \<lparr>ne_table = [(''Shop::Order.Place'', [\<lparr>nd_fact = ''now'', nd_attribute_type = ''Integer''\<rparr>])],
     ne_defaults = [(''Shop::Order.Place'', [(''gift'', J_Bool False), (''note'', J_Str ''x'')])], ne_query_table = [],
     ne_fixed_clock = None, ne_asker = None, ne_system_clock = 5\<rparr>"

theorem supplied_facts_win_witness:
  "enrich sample_needs ''Shop::Order.Place'' (J_Object [(''note'', J_Str ''hi'')]) None =
     Some (J_Object [(''note'', J_Str ''hi''), (''now'', json_int 5), (''gift'', J_Bool False)]) \<and>
   call_facts (J_Object [(''note'', J_Str ''hi'')]) = J_Object [(''note'', J_Str ''hi'')] \<and>
   (\<exists>held. call_facts (J_Object [(''note'', J_Str ''hi'')]) = J_Object held)"
proof -
  have "enrich sample_needs ''Shop::Order.Place'' (J_Object [(''note'', J_Str ''hi'')]) None =
     Some (J_Object [(''note'', J_Str ''hi''), (''now'', json_int 5), (''gift'', J_Bool False)])"
    by code_simp
  with supplied_facts_win [OF this] show ?thesis
    by (auto simp: call_facts_def)
qed

section \<open>Stamps\<close>

text \<open>The format the host stamps: \<open>YYYY-MM-DDTHH:MM:SSZ\<close>.\<close>

definition stamp :: "int \<Rightarrow> int \<Rightarrow> int \<Rightarrow> int \<Rightarrow> int \<Rightarrow> int \<Rightarrow> string" where
  "stamp y m d h mi s =
     show_int y @ ''-'' @ pad2 (show_int m) @ ''-'' @ pad2 (show_int d) @ ''T'' @
     pad2 (show_int h) @ '':'' @ pad2 (show_int mi) @ '':'' @ pad2 (show_int s) @ ''Z''"

definition two_digits_ok :: "int \<Rightarrow> bool" where
  "two_digits_ok n \<longleftrightarrow> parse_i64 (pad2 (show_int n)) = Some (i64_of_int n) \<and>
     list_all (\<lambda>c. c \<notin> {CHR ''-'', CHR '':'', CHR ''T'', CHR ''.'', CHR ''Z''}) (pad2 (show_int n))"

lemma two_digits_table: "list_all two_digits_ok [0..99]"
  by code_simp

lemma two_digits:
  assumes "0 \<le> n" "n \<le> 99"
  shows "parse_i64 (pad2 (show_int n)) = Some (i64_of_int n)"
    "CHR ''-'' \<notin> set (pad2 (show_int n))" "CHR '':'' \<notin> set (pad2 (show_int n))" "CHR ''T'' \<notin> set (pad2 (show_int n))"
    "CHR ''.'' \<notin> set (pad2 (show_int n))"
proof -
  have "two_digits_ok n"
    using two_digits_table assms by (simp add: list_all_iff)
  then show "parse_i64 (pad2 (show_int n)) = Some (i64_of_int n)"
    "CHR ''-'' \<notin> set (pad2 (show_int n))" "CHR '':'' \<notin> set (pad2 (show_int n))" "CHR ''T'' \<notin> set (pad2 (show_int n))"
    "CHR ''.'' \<notin> set (pad2 (show_int n))"
    by (auto simp: two_digits_ok_def list_all_iff)
qed

lemma parse_stamp:
  assumes "0 \<le> y" "y < 2 ^ 32" "0 \<le> m" "m \<le> 99" "0 \<le> d" "d \<le> 99" "0 \<le> h" "h \<le> 99" "0 \<le> mi" "mi \<le> 99" "0 \<le> s" "s \<le> 99"
  shows "parse_iso8601_utc (stamp y m d h mi s) =
    Some (days_from_civil (i64_of_int y) (i64_of_int m) (i64_of_int d) * 86400 +
      i64_of_int h * 3600 + i64_of_int mi * 60 + i64_of_int s)"
proof -
  let ?date = "show_int y @ CHR ''-'' # pad2 (show_int m) @ CHR ''-'' # pad2 (show_int d)"
  let ?time = "pad2 (show_int h) @ CHR '':'' # pad2 (show_int mi) @ CHR '':'' # pad2 (show_int s)"
  have year: "parse_i64 (show_int y) = Some (i64_of_int y)"
    using assms(1,2) by (simp add: parse_i64_show_int checked_i64_def in_i64_def)
  have digits: "list_all is_ascii_digit (show_int y)"
    using assms(1) show_digits_digits [of y] by (simp add: show_int_def)
  then have clean: "CHR ''-'' \<notin> set (show_int y)" "CHR ''T'' \<notin> set (show_int y)"
    by (auto simp: list_all_iff is_ascii_digit_def)
  have "stamp y m d h mi s = (?date @ CHR ''T'' # ?time) @ ''Z''"
    by (simp add: stamp_def)
  then have "strip_suffix ''Z'' (stamp y m d h mi s) = Some (?date @ CHR ''T'' # ?time)"
    by (simp add: strip_suffix_Some)
  moreover have "split_once ''T'' (?date @ CHR ''T'' # ?time) = Some (?date, ?time)"
    using assms clean two_digits by (intro split_once_char) auto
  moreover have "split_str ''-'' ?date = [show_int y, pad2 (show_int m), pad2 (show_int d)]"
    using assms clean two_digits by (simp add: split_str_char_step split_str_char_none del: split_str.simps)
  moreover have "split_str '':'' ?time = [pad2 (show_int h), pad2 (show_int mi), pad2 (show_int s)]"
    using assms two_digits by (simp add: split_str_char_step split_str_char_none del: split_str.simps)
  moreover have "hd (split_str ''.'' (pad2 (show_int s))) = pad2 (show_int s)"
    using assms two_digits by (simp add: split_str_char_none del: split_str.simps)
  ultimately show ?thesis
    using assms year two_digits by (simp add: parse_iso8601_utc_def del: split_str.simps)
qed

text \<open>
  A stamp answers its own moment. For a step stamped with a valid date and time of the years 0 to
  2^32, and no clock fixed, the fact \<open>today\<close> of integer type is the number of that calendar day, and
  \<open>now\<close> is the number of seconds to it plus the time of day.
\<close>

theorem stamp_answers_today:
  assumes "valid_date y m d" "0 \<le> y" "y < 2 ^ 32" "0 \<le> h" "h < 24" "0 \<le> mi" "mi < 60" "0 \<le> s" "s < 60"
    and "ne_fixed_clock env = None"
  shows "answer env \<lparr>nd_fact = ''today'', nd_attribute_type = ''Integer''\<rparr> (Some (stamp y m d h mi s)) =
      Some (json_int (days_from_civil (i64_of_int y) (i64_of_int m) (i64_of_int d))) \<and>
    now_secs env (Some (stamp y m d h mi s)) = i64_of_int (day_number y m d * 86400 + h * 3600 + mi * 60 + s)"
proof -
  have md: "1 \<le> m" "m \<le> 12" "1 \<le> d" "d \<le> 31"
    using assms(1) by (auto simp: valid_date_def gregorian_month_days_def split: if_splits)
  have days: "days_from_civil (i64_of_int y) (i64_of_int m) (i64_of_int d) = i64_of_int (day_number y m d)"
    using md assms by (intro days_from_civil_eq) (auto simp: in_range_def)
  let ?secs = "day_number y m d * 86400 + (h * 3600 + mi * 60 + s)"
  have "parse_iso8601_utc (stamp y m d h mi s) = Some (i64_of_int ?secs)"
    using parse_stamp [of y m d h mi s] md assms by (simp add: days i64_numerals i64_hom add.assoc)
  then have now: "now_secs env (Some (stamp y m d h mi s)) = i64_of_int ?secs"
    using assms by (simp add: now_secs_def)
  have bounds: "- (2 ^ 44) \<le> day_number y m d" "day_number y m d \<le> 2 ^ 44"
    using md assms(2,3) by (intro day_number_bounds; linarith)+
  have clock: "0 \<le> h * 3600 + mi * 60 + s" "h * 3600 + mi * 60 + s < 86400"
    using assms(4-9) by linarith+
  have "in_i64 ?secs" "in_i64 (day_number y m d)"
    using bounds clock by (simp_all add: in_i64_def)
  moreover have "?secs div 86400 = day_number y m d"
    using assms(4-9) by (intro int_div_pos_eq [of _ _ _ "h * 3600 + mi * 60 + s"]) auto
  ultimately show ?thesis
    using now by (simp add: answer_def days add.assoc)
qed

theorem stamp_answers_today_witness:
  "valid_date 2024 2 29 \<and>
   answer sample_needs \<lparr>nd_fact = ''today'', nd_attribute_type = ''Integer''\<rparr> (Some ''2024-02-29T23:59:59Z'') =
     Some (json_int 19782)"
proof -
  have "valid_date 2024 2 29" "ne_fixed_clock sample_needs = None" "stamp 2024 2 29 23 59 59 = ''2024-02-29T23:59:59Z''"
    "days_from_civil (i64_of_int 2024) (i64_of_int 2) (i64_of_int 29) = 19782"
    by code_simp+
  with stamp_answers_today [of 2024 2 29 23 59 59 sample_needs] show ?thesis by simp
qed

end
