(* ===== verification/Reference_Lookup.thy ===== *)
theory Reference_Lookup
  imports Interpreter
begin

text \<open>
  \<open>rust/src/kernel/reference_lookup.rs\<close>: a rule may read through a reference (\<open>order.customer.name\<close>).
  The records a command or an aggregate refers to are fetched before the rules run, as a tree of
  nodes at most \<open>DEREFERENCE_DEPTH\<close> deep, and the tree is read like any record. The store's
  \<open>find_fielded\<close> is a parameter: an aggregate name and an id in, the record's fields out.
\<close>

section \<open>The tree of references\<close>

record reference_spec =
  rs_field :: string
  rs_as_name :: string
  rs_target :: string

type_synonym reference_table = "(string \<times> reference_spec list) list"
type_synonym reference_lookup = "string \<Rightarrow> string \<Rightarrow> fielded option"

definition DEREFERENCE_DEPTH :: nat where
  "DEREFERENCE_DEPTH = 4"

definition specs_for :: "reference_table \<Rightarrow> string \<Rightarrow> reference_spec list" where
  "specs_for table target = (case map_of table target of None \<Rightarrow> [] | Some specs \<Rightarrow> specs)"

datatype deref_node = Deref_Node (dn_id: string) (dn_base: fielded) (dn_nested: "(string \<times> deref_node) list")

type_synonym derefs = "(string \<times> deref_node) list"

fun node_fielded :: "deref_node \<Rightarrow> fielded" where
  "node_fielded (Deref_Node key base nested) =
     Fielded
       (\<lambda>name. case map_of (map (\<lambda>(n, node). (n, node_fielded node)) nested) name of
          Some node \<Rightarrow> Some (FD_Nested node)
        | None \<Rightarrow> fl_field base name)
       (Some (V_Str key)) None (fl_items base)"

text \<open>The record one reference field names: a non-empty key that the store holds.\<close>

definition fetch_reference :: "reference_lookup \<Rightarrow> fielded \<Rightarrow> reference_spec \<Rightarrow> (string \<times> fielded) option" where
  "fetch_reference find_fielded source spec =
     (case fl_field source (rs_field spec) of
        Some (FD_Value (V_Str key)) \<Rightarrow>
          (if key = [] then None else map_option (Pair key) (find_fielded (rs_target spec) key))
      | _ \<Rightarrow> None)"

fun deref_layer ::
    "reference_lookup \<Rightarrow> reference_table \<Rightarrow> reference_spec list \<Rightarrow> fielded \<Rightarrow> nat \<Rightarrow> derefs" where
  "deref_layer find_fielded table specs source 0 = []"
| "deref_layer find_fielded table specs source (Suc depth) =
     List.map_filter (\<lambda>spec.
       map_option (\<lambda>(key, base).
           (rs_as_name spec,
            Deref_Node key base (deref_layer find_fielded table (specs_for table (rs_target spec)) base depth)))
         (fetch_reference find_fielded source spec))
       specs"

definition owner_deref :: "reference_lookup \<Rightarrow> reference_table \<Rightarrow> string \<Rightarrow> string \<Rightarrow> derefs" where
  "owner_deref find_fielded table target key =
     (case find_fielded target key of
        None \<Rightarrow> []
      | Some base \<Rightarrow> deref_layer find_fielded table (specs_for table target) base DEREFERENCE_DEPTH)"

definition parent_deref :: "reference_lookup \<Rightarrow> reference_table \<Rightarrow> string \<Rightarrow> string \<Rightarrow> deref_node option" where
  "parent_deref find_fielded table target key =
     (case find_fielded target key of
        None \<Rightarrow> None
      | Some base \<Rightarrow>
          Some (Deref_Node key base
            (deref_layer find_fielded table (specs_for table target) base DEREFERENCE_DEPTH)))"

definition command_deref ::
    "reference_lookup \<Rightarrow> reference_table \<Rightarrow> reference_spec list \<Rightarrow> fielded \<Rightarrow> derefs" where
  "command_deref find_fielded table specs args = deref_layer find_fielded table specs args DEREFERENCE_DEPTH"

definition with_references :: "derefs \<Rightarrow> fielded \<Rightarrow> derefs \<Rightarrow> fielded" where
  "with_references of_command args of_owner =
     Fielded
       (\<lambda>name. case map_of of_command name of
          Some node \<Rightarrow> Some (FD_Nested (node_fielded node))
        | None \<Rightarrow> (case fl_field args name of
            Some f \<Rightarrow> Some f
          | None \<Rightarrow> map_option (\<lambda>node. FD_Nested (node_fielded node)) (map_of of_owner name)))
       None None (fl_items args)"

section \<open>Projected fields\<close>

record projected_field_spec =
  pf_field :: string
  pf_reference :: string
  pf_remote_field :: string

fun projectable :: "value \<Rightarrow> value option" where
  "projectable (V_Str s) = Some (V_Str s)"
| "projectable (V_Int i) = Some (V_Int i)"
| "projectable (V_Float f) = Some (V_Float f)"
| "projectable (V_Bool b) = Some (V_Bool b)"
| "projectable _ = None"

definition seeded_projection :: "fielded \<Rightarrow> projected_field_spec \<Rightarrow> value option" where
  "seeded_projection view spec =
     (case fl_field view (pf_reference spec) of
        Some (FD_Nested node) \<Rightarrow>
          (case fl_field node (pf_remote_field spec) of
             Some (FD_Value v) \<Rightarrow> projectable v
           | Some (FD_Nested inner) \<Rightarrow> Option.bind (as_scalar inner) projectable
           | None \<Rightarrow> None)
      | _ \<Rightarrow> None)"

definition seeded_projections :: "fielded \<Rightarrow> projected_field_spec list \<Rightarrow> (string \<times> value option) list" where
  "seeded_projections view specs = map (\<lambda>spec. (pf_field spec, seeded_projection view spec)) specs"

section \<open>Following references one record at a time\<close>

text \<open>The record a name leads to: the first declared reference of that name that finds one.\<close>

fun first_reference ::
    "reference_lookup \<Rightarrow> reference_spec list \<Rightarrow> fielded \<Rightarrow> string \<Rightarrow> (string \<times> string \<times> fielded) option" where
  "first_reference find_fielded [] source name = None"
| "first_reference find_fielded (spec # specs) source name =
     (case fetch_reference find_fielded source spec of
        Some (key, base) \<Rightarrow>
          if rs_as_name spec = name then Some (rs_target spec, key, base)
          else first_reference find_fielded specs source name
      | None \<Rightarrow> first_reference find_fielded specs source name)"

fun chase ::
    "reference_lookup \<Rightarrow> reference_table \<Rightarrow> reference_spec list \<Rightarrow> fielded \<Rightarrow> string \<Rightarrow> string list \<Rightarrow>
     (string \<times> string \<times> fielded) option" where
  "chase find_fielded table specs source name [] = first_reference find_fielded specs source name"
| "chase find_fielded table specs source name (next # names) =
     (case first_reference find_fielded specs source name of
        None \<Rightarrow> None
      | Some (target, _, base) \<Rightarrow> chase find_fielded table (specs_for table target) base next names)"

lemma map_of_deref_layer:
  "map_of (deref_layer find_fielded table specs source (Suc depth)) name =
   map_option (\<lambda>(target, key, base).
       Deref_Node key base (deref_layer find_fielded table (specs_for table target) base depth))
     (first_reference find_fielded specs source name)"
  by (induction specs) (auto simp: List.map_filter_def split: option.split)

lemma fl_field_node:
  "fl_field (node_fielded (Deref_Node key base nested)) name =
   (case map_of nested name of Some node \<Rightarrow> Some (FD_Nested (node_fielded node)) | None \<Rightarrow> fl_field base name)"
  by (induction nested) (auto split: option.split)

lemma as_scalar_node [simp]: "as_scalar (node_fielded (Deref_Node key base nested)) = Some (V_Str key)"
  by simp

lemma walk_chase:
  assumes "chase find_fielded table specs source name names = Some (target, key, base)" "length names < depth"
  shows "\<exists>node. map_of (deref_layer find_fielded table specs source depth) name = Some node \<and>
    walk head (FD_Nested (node_fielded node)) names =
      Inr (FD_Nested (node_fielded (Deref_Node key base
        (deref_layer find_fielded table (specs_for table target) base (depth - Suc (length names))))))"
  using assms
proof (induction names arbitrary: specs source name depth)
  case Nil
  then obtain n where "depth = Suc n" by (cases depth) auto
  with Nil show ?case by (simp only: map_of_deref_layer) simp
next
  case (Cons x names)
  obtain n where n: "depth = Suc n" "length names < n" using Cons.prems(2) by (cases depth) auto
  obtain t i b where f: "first_reference find_fielded specs source name = Some (t, i, b)"
      "chase find_fielded table (specs_for table t) b x names = Some (target, key, base)"
    using Cons.prems(1) by (auto split: option.splits)
  from Cons.IH [OF f(2) n(2)] obtain node where node:
      "map_of (deref_layer find_fielded table (specs_for table t) b n) x = Some node"
      "walk head (FD_Nested (node_fielded node)) names =
        Inr (FD_Nested (node_fielded (Deref_Node key base
          (deref_layer find_fielded table (specs_for table target) base (n - Suc (length names))))))"
    by blast
  show ?case
    using node unfolding n(1) map_of_deref_layer f(1)
    by (simp del: node_fielded.simps deref_layer.simps add: step_field_def fl_field_node)
qed

lemma walk_append: "walk head f (xs @ ys) = rbind (walk head f xs) (\<lambda>g. walk head g ys)"
  by (induction xs arbitrary: f) (auto simp: rbind_def split: sum.splits)

lemma first_reference_name:
  "first_reference find_fielded specs source name = Some r \<Longrightarrow> name \<in> rs_as_name ` set specs"
  by (induction specs) (auto split: option.splits if_splits)

lemma map_of_deref_layer_None:
  assumes "name \<notin> rs_as_name ` set specs \<or> depth = 0"
  shows "map_of (deref_layer find_fielded table specs source depth) name = None"
proof (cases depth)
  case (Suc n)
  then have "first_reference find_fielded specs source name = None"
    using assms first_reference_name by (cases "first_reference find_fielded specs source name") fastforce+
  with Suc show ?thesis by (simp only: map_of_deref_layer) simp
qed simp

section \<open>Rules read the records they refer to\<close>

lemma walk_field_of_node:
  assumes "map_of nested name = None" "fl_field base name = Some f"
  shows "walk head (FD_Nested (node_fielded (Deref_Node key base nested))) [name] = Inr f"
  using assms by (simp add: step_field_def fl_field_node del: node_fielded.simps)

lemma lookup_through_owner:
  assumes "chase find_fielded table specs owner name names = Some (target, key, remote)" "length names < depth"
    and "ctx_args ctx = with_references of_command args (deref_layer find_fielded table specs owner depth)"
    and "map_of of_command name = None" "fl_field args name = None" "\<forall>n\<in>set (name # names @ rest). CHR ''.'' \<notin> set n"
  shows "lookup_field (str_join ''.'' (name # names @ rest)) ctx =
    walk name (FD_Nested (node_fielded (Deref_Node key remote
      (deref_layer find_fielded table (specs_for table target) remote (depth - Suc (length names)))))) rest"
proof -
  obtain node where node: "map_of (deref_layer find_fielded table specs owner depth) name = Some node"
    "walk name (FD_Nested (node_fielded node)) names =
      Inr (FD_Nested (node_fielded (Deref_Node key remote
        (deref_layer find_fielded table (specs_for table target) remote (depth - Suc (length names))))))"
    using walk_chase [OF assms(1,2)] by blast
  have "split_str ''.'' (str_join ''.'' (name # names @ rest)) = name # names @ rest"
    using assms(6) by (intro split_join_char) auto
  then show ?thesis
    using node assms(3-5)
    by (simp add: lookup_field_def resolve_head_def with_references_def walk_append
        del: split_str.simps node_fielded.simps deref_layer.simps)
qed

text \<open>
  A rule reads through its owner's references. When following up to four reference names from the
  stored owner, one fetched record at a time, leads to a record, the dotted path of those names
  evaluates to that record's id, and the path extended by a field of the record (not itself the name
  of a declared reference, unless the fourth hop was reached) evaluates to the field's value.
\<close>

theorem dotted_path_reads_remote_record:
  assumes owner: "find_fielded target key = Some owner"
    and chain: "chase find_fielded table (specs_for table target) owner name names = Some (target', key', remote)"
      "length names < 4"
    and view: "ctx_args ctx = with_references of_command args (owner_deref find_fielded table target key)"
      "map_of of_command name = None" "fl_field args name = None"
    and names: "\<forall>n\<in>set (name # names @ [f]). CHR ''.'' \<notin> set n"
    and final: "fl_field remote f = Some (FD_Value v)"
      "f \<notin> rs_as_name ` set (specs_for table target') \<or> length names = 3"
  shows "interpret_expr engine (E_Lookup (str_join ''.'' (name # names))) ctx = Inr (V_Str key') \<and>
    interpret_expr engine (E_Lookup (str_join ''.'' (name # names @ [f]))) ctx = Inr v"
proof -
  have args: "ctx_args ctx = with_references of_command args (deref_layer find_fielded table (specs_for table target) owner 4)"
    using view(1) owner by (simp add: owner_deref_def DEREFERENCE_DEPTH_def del: deref_layer.simps)
  let ?node = "Deref_Node key' remote (deref_layer find_fielded table (specs_for table target') remote (4 - Suc (length names)))"
  have "lookup_field (str_join ''.'' (name # names)) ctx = Inr (FD_Nested (node_fielded ?node))"
    using lookup_through_owner [OF chain(1,2) args view(2,3), of "[]"] names by simp
  then have "interpret_expr engine (E_Lookup (str_join ''.'' (name # names))) ctx = Inr (V_Str key')"
    by (simp only: interpret_leaf lookup_value_def finish_def rbind_simps field.case as_scalar_node option.case ok_or_simps)
  moreover have "walk name (FD_Nested (node_fielded ?node)) [f] = Inr (FD_Value v)"
    using final by (intro walk_field_of_node map_of_deref_layer_None) auto
  then have "lookup_field (str_join ''.'' (name # names @ [f])) ctx = Inr (FD_Value v)"
    using lookup_through_owner [OF chain(1,2) args view(2,3) names] by simp
  then have "interpret_expr engine (E_Lookup (str_join ''.'' (name # names @ [f]))) ctx = Inr v"
    by (simp only: interpret_leaf lookup_value_def finish_def rbind_simps field.case)
  ultimately show ?thesis ..
qed

definition scalar_record :: "(string \<times> value) list \<Rightarrow> fielded" where
  "scalar_record flds = Fielded (\<lambda>n. map_option FD_Value (map_of flds n)) None None (\<lambda>_. None)"

definition sample_lookup :: reference_lookup where
  "sample_lookup target key = map_of
     [((''Order'', ''o1''), scalar_record [(''customer_id'', V_Str ''c1'')]),
      ((''Customer'', ''c1''), scalar_record [(''region_id'', V_Str ''r1'')]),
      ((''Region'', ''r1''), scalar_record [(''code'', V_Int 7), (''order_id'', V_Str ''o1'')])] (target, key)"

definition sample_references :: reference_table where
  "sample_references =
     [(''Order'', [\<lparr>rs_field = ''customer_id'', rs_as_name = ''customer'', rs_target = ''Customer''\<rparr>]),
      (''Customer'', [\<lparr>rs_field = ''region_id'', rs_as_name = ''region'', rs_target = ''Region''\<rparr>]),
      (''Region'', [\<lparr>rs_field = ''order_id'', rs_as_name = ''order'', rs_target = ''Order''\<rparr>])]"

definition sample_view :: eval_ctx where
  "sample_view = \<lparr>ctx_args = with_references [] no_fields (owner_deref sample_lookup sample_references ''Order'' ''o1''),
     ctx_instance = no_fields\<rparr>"

theorem dotted_path_reads_remote_record_witness:
  "interpret_expr (\<lambda>_ _ _ _. Inl []) (E_Lookup ''customer.region'') sample_view = Inr (V_Str ''r1'') \<and>
   interpret_expr (\<lambda>_ _ _ _. Inl []) (E_Lookup ''customer.region.code'') sample_view = Inr (V_Int 7)"
proof -
  have found: "sample_lookup ''Order'' ''o1'' = Some (scalar_record [(''customer_id'', V_Str ''c1'')])"
    by (simp add: sample_lookup_def)
  have chain: "chase sample_lookup sample_references (specs_for sample_references ''Order'')
      (scalar_record [(''customer_id'', V_Str ''c1'')]) ''customer'' [''region''] =
      Some (''Region'', ''r1'', scalar_record [(''code'', V_Int 7), (''order_id'', V_Str ''o1'')])"
    by (simp add: sample_lookup_def sample_references_def specs_for_def fetch_reference_def scalar_record_def)
  have "ctx_args sample_view = with_references [] no_fields (owner_deref sample_lookup sample_references ''Order'' ''o1'')"
    "fl_field no_fields ''customer'' = None"
    "fl_field (scalar_record [(''code'', V_Int 7), (''order_id'', V_Str ''o1'')]) ''code'' = Some (FD_Value (V_Int 7))"
    "''code'' \<notin> rs_as_name ` set (specs_for sample_references ''Region'') \<or> length [''region''] = 3"
    by (simp_all add: sample_view_def no_fields_def scalar_record_def specs_for_def sample_references_def)
  with dotted_path_reads_remote_record [OF found chain, of sample_view "[]" no_fields "''code''" "V_Int 7"]
  show ?thesis by simp
qed

fun deref_height :: "deref_node \<Rightarrow> nat" where
  "deref_height (Deref_Node key base nested) = Suc (foldr max (map (\<lambda>(n, node). deref_height node) nested) 0)"

lemma deref_layer_height:
  "list_all (\<lambda>(n, node). deref_height node \<le> depth) (deref_layer find_fielded table specs source depth)"
proof (induction depth arbitrary: specs source)
  case (Suc depth)
  have "deref_height (Deref_Node key base (deref_layer find_fielded table specs base depth)) \<le> Suc depth" for key base specs
    using Suc.IH [of specs base] by (simp add: foldr_max_le list_all_iff split_beta)
  then show ?case
    by (auto simp: list_all_iff List.map_filter_def simp del: deref_height.simps)
qed simp

text \<open>
  Dereferencing is bounded, cycles in the reference table included: the trees fetched for a command,
  for an owner and below an entity's parent are at most four records deep, whatever the store holds.
\<close>

theorem dereference_bounded:
  "list_all (\<lambda>(n, node). deref_height node \<le> DEREFERENCE_DEPTH) (owner_deref find_fielded table target key) \<and>
   list_all (\<lambda>(n, node). deref_height node \<le> DEREFERENCE_DEPTH) (command_deref find_fielded table specs args) \<and>
   pred_option (\<lambda>node. deref_height node \<le> Suc DEREFERENCE_DEPTH \<and> dn_id node = key)
     (parent_deref find_fielded table target key)"
proof -
  have "deref_height node \<le> DEREFERENCE_DEPTH"
    if "(n, node) \<in> set (deref_layer find_fielded table specs source DEREFERENCE_DEPTH)" for n node specs source
    using that deref_layer_height [of DEREFERENCE_DEPTH find_fielded table specs source] by (auto simp: list_all_iff)
  then show ?thesis
    by (auto simp: owner_deref_def command_deref_def parent_deref_def foldr_max_le list_all_iff split: option.split)
qed

text \<open>A projected value is a scalar of the referenced record, read through the dereferenced view.\<close>

lemma seeded_projection_scalar:
  "seeded_projection view spec = Some v \<Longrightarrow>
   (\<exists>node. fl_field view (pf_reference spec) = Some (FD_Nested node) \<and> projectable v = Some v \<and>
     (fl_field node (pf_remote_field spec) = Some (FD_Value v) \<or>
      (\<exists>inner. fl_field node (pf_remote_field spec) = Some (FD_Nested inner) \<and> as_scalar inner = Some v)))"
  by (auto simp: seeded_projection_def bind_eq_Some_conv split: option.splits field.splits elim!: projectable.elims)

end
