(* ===== verification/Reactions.thy ===== *)
theory Reactions
  imports Named_Query Needs Routing Dispatch
begin

text \<open>
  \<open>rust/src/kernel/orchestrate.rs\<close>, the part that only reads: the declared policies and process
  managers, which leg of a manager answers an event, the correlation of an event, and the arguments
  a reaction dispatches with. A \<open>fn() -> Expr\<close> or \<open>fn() -> Json\<close> of a table is its value; the
  generated lookup functions of \<open>Tables\<close> are parameters, fields of the record \<open>tables\<close>.
\<close>

section \<open>Declarations\<close>

definition MAX_REACTION_DEPTH :: nat where
  "MAX_REACTION_DEPTH = 5"

definition reaction_depth :: "bool \<Rightarrow> nat \<Rightarrow> nat" where
  "reaction_depth root depth = (if root then 0 else depth + 1)"

record policy_rule =
  pr_policy_name :: string
  pr_event_name :: string
  pr_event_qualifier :: "string option"
  pr_target_verb :: string
  pr_where :: "expr option"
  pr_for_each :: "string option"
  pr_for_each_key :: "string option"
  pr_root :: bool
  pr_with_spec :: "(string \<times> string) list"

record cross_domain_policy_rule =
  xr_policy_name :: string
  xr_event_name :: string
  xr_event_qualifier :: "string option"
  xr_where :: "expr option"
  xr_target_domain :: string
  xr_target_verb :: string
  xr_with_spec :: "(string \<times> string) list"

record pending_reaction =
  px_policy_name :: string
  px_event_name :: string
  px_target_domain :: string
  px_target_verb :: string
  px_payload :: json

datatype with_value = With_Ref string | With_Literal json

datatype dispatch_spec = Dispatch_Spec
  (sp_command: string) (sp_with: "(string \<times> with_value) list") (sp_compensates: "dispatch_spec option")

record handler =
  hn_event_type :: string
  hn_from_state :: string
  hn_to_state :: string
  hn_dispatches :: "dispatch_spec list"

record process_manager =
  pm_name :: string
  pm_correlates_by :: string
  pm_starts_on :: string
  pm_ends_on :: string
  pm_initial_state :: string
  pm_handlers :: "handler list"

definition REFUSED :: string where
  "REFUSED = ''refused''"

record completed_compensation =
  cc_command :: string
  cc_args :: json

record saga_instance =
  si_state :: string
  si_memory :: json
  si_completed :: "completed_compensation list"

record tables =
  tb_policies :: "policy_rule list"
  tb_cross_domain :: "cross_domain_policy_rule list"
  tb_managers :: "process_manager list"
  tb_reference_key :: "string \<Rightarrow> string option"
  tb_queries :: "query_def list"
  tb_command_creates :: "string \<Rightarrow> bool"
  tb_identity_head :: "string \<Rightarrow> string option"
  tb_command_attributes :: "string \<Rightarrow> string list"
  tb_entity_identity_head :: "string \<Rightarrow> string option"

section \<open>Legs and correlations\<close>

definition select_leg :: "process_manager \<Rightarrow> string \<Rightarrow> string \<Rightarrow> handler option" where
  "select_leg pm event state =
     find (\<lambda>h. hn_event_type h = event \<and> hn_from_state h = state) (pm_handlers pm)"

fun spelled_once :: "string list \<Rightarrow> string list \<Rightarrow> string list" where
  "spelled_once expected [] = expected"
| "spelled_once expected (s # ss) = spelled_once (if List.member expected s then expected else expected @ [s]) ss"

definition leg_mismatch :: "process_manager \<Rightarrow> string \<Rightarrow> string \<Rightarrow> string" where
  "leg_mismatch pm event state =
     ''in '' @ debug_str state @ '', not '' @
     str_join '' or '' (spelled_once []
       (map (\<lambda>h. debug_str (hn_from_state h)) (filter (\<lambda>h. hn_event_type h = event) (pm_handlers pm))))"

definition correlation_head :: "string \<Rightarrow> string" where
  "correlation_head correlates_by = hd (split_str ''.'' correlates_by)"

definition nonempty_text :: "string \<Rightarrow> string option" where
  "nonempty_text text = (if text = [] then None else Some text)"

definition id_component :: "json \<Rightarrow> string option" where
  "id_component v = (case to_id_component v of Inl _ \<Rightarrow> None | Inr text \<Rightarrow> Some text)"

definition correlation_of :: "process_manager \<Rightarrow> event \<Rightarrow> (string \<Rightarrow> string option) \<Rightarrow> string option" where
  "correlation_of pm event reference_key =
     (case Option.bind (Option.bind (dig (ev_payload event) (pm_correlates_by pm)) id_component) nonempty_text of
        Some text \<Rightarrow> Some text
      | None \<Rightarrow>
          (case Option.bind (Option.bind (ev_correlation event)
               (\<lambda>stamp. map_of stamp (correlation_head (pm_correlates_by pm)))) nonempty_text of
             Some text \<Rightarrow> Some text
           | None \<Rightarrow>
               Option.bind (reference_key (ev_aggregate event)) (\<lambda>key.
               Option.bind (json_get (ev_payload event) key) (\<lambda>v.
               Option.bind (id_component v) nonempty_text))))"

definition resolve_with :: "process_manager \<Rightarrow> with_value \<Rightarrow> event \<Rightarrow> string \<Rightarrow> json \<Rightarrow> json" where
  "resolve_with pm v event correlation memory =
     (case v of
        With_Literal j \<Rightarrow> j
      | With_Ref name \<Rightarrow>
          if name = correlation_head (pm_correlates_by pm) then J_Str correlation
          else (case json_get (ev_payload event) name of
                  Some held \<Rightarrow> held
                | None \<Rightarrow> or_null (json_get memory name)))"

definition qualify_saga_command_name :: "string \<Rightarrow> string \<Rightarrow> string" where
  "qualify_saga_command_name domain_name command_name = domain_name @ ''::'' @ replace_first ''::'' ''.'' command_name"

section \<open>Projections\<close>

fun unescape :: "string \<Rightarrow> string" where
  "unescape [] = []"
| "unescape [c] = [c]"
| "unescape (c # d # cs) = (if c = CHR 0x5C then d # unescape cs else c # unescape (d # cs))"

definition read_literal_wire :: "string \<Rightarrow> json" where
  "read_literal_wire binding =
     (if binding = ''nil'' then J_Null
      else if binding = ''true'' then J_Bool True
      else if binding = ''false'' then J_Bool False
      else case parse_i64 binding of
        Some i \<Rightarrow> json_int i
      | None \<Rightarrow>
          (case parse_f64 binding of
             Some f \<Rightarrow> J_Float f
           | None \<Rightarrow>
               if length binding \<ge> 2 \<and> hd binding = CHR 0x22 \<and> last binding = CHR 0x22
               then J_Str (unescape (butlast (tl binding)))
               else J_Str binding))"

definition object_fields :: "json \<Rightarrow> (string \<times> json) list" where
  "object_fields j = (case j of J_Object pairs \<Rightarrow> pairs | _ \<Rightarrow> [])"

definition offer :: "string \<times> json \<Rightarrow> (string \<times> json) list \<Rightarrow> (string \<times> json) list" where
  "offer entry source = (if has_key (fst entry) source then source else source @ [entry])"

definition offer_row_fields :: "(string \<times> json) list \<Rightarrow> string \<Rightarrow> json \<Rightarrow> (string \<times> json) list" where
  "offer_row_fields source row_id row = fold offer (offer (''id'', J_Str row_id) (object_fields row)) source"

definition offer_emitter_head :: "(string \<times> json) list \<Rightarrow> event \<Rightarrow> tables \<Rightarrow> (string \<times> json) list" where
  "offer_emitter_head source event tb =
     (case tb_identity_head tb (ev_aggregate event) of
        None \<Rightarrow> source
      | Some head \<Rightarrow> if ev_id event = [] then source else offer (head, J_Str (ev_id event)) source)"

definition offer_emitter_id :: "(string \<times> json) list \<Rightarrow> event \<Rightarrow> (string \<times> json) list" where
  "offer_emitter_id source event =
     (if ev_id event = [] then source else offer (''id'', J_Str (ev_id event)) source)"

definition resolve_with_spec :: "(string \<times> string) list \<Rightarrow> (string \<times> json) list \<Rightarrow> (string \<times> json) list" where
  "resolve_with_spec with_spec source =
     map (\<lambda>(name, binding).
       (name, case strip_prefix '':'' binding of
                None \<Rightarrow> read_literal_wire binding
              | Some fld \<Rightarrow> or_null (map_of source fld))) with_spec"

definition cross_domain_payload :: "cross_domain_policy_rule \<Rightarrow> event \<Rightarrow> tables \<Rightarrow> json" where
  "cross_domain_payload policy event tb =
     (if xr_with_spec policy = [] then ev_payload event
      else J_Object (resolve_with_spec (xr_with_spec policy)
             (offer_emitter_id (offer_emitter_head (object_fields (ev_payload event)) event tb) event)))"

definition where_holds :: "regex_engine \<Rightarrow> expr option \<Rightarrow> event \<Rightarrow> bool" where
  "where_holds engine where_expr event =
     (case where_expr of
        None \<Rightarrow> True
      | Some e \<Rightarrow>
          (case interpret_expr engine e \<lparr>ctx_args = json_fielded (ev_payload event), ctx_instance = no_fields\<rparr> of
             Inl _ \<Rightarrow> False
           | Inr v \<Rightarrow> truthy v))"

definition for_each_query_args :: "query_def \<Rightarrow> event \<Rightarrow> tables \<Rightarrow> json" where
  "for_each_query_args def event tb =
     (let args = object_fields (ev_payload event);
          reads = (\<lambda>head. list_ex (\<lambda>c. qc_value c = QV_Arg head) (qd_conditions def))
      in J_Object (case tb_identity_head tb (ev_aggregate event) of
           None \<Rightarrow> args
         | Some head \<Rightarrow>
             if ev_id event \<noteq> [] \<and> reads head then offer (head, J_Str (ev_id event)) args else args))"

section \<open>Routing a reaction\<close>

definition resolved_id_component :: "json \<Rightarrow> string option" where
  "resolved_id_component v =
     Option.bind
       (case id_component v of
          Some text \<Rightarrow> Some text
        | None \<Rightarrow> Option.bind (json_get v ''value'') id_component)
       nonempty_text"

text \<open>The first of an aggregate's identity head and reference key that names an id among the pairs.\<close>

definition projected_identity :: "tables \<Rightarrow> string \<Rightarrow> (string \<times> json) list \<Rightarrow> string option" where
  "projected_identity tb aggregate pairs =
     (let named = (\<lambda>candidate. Option.bind candidate (\<lambda>key. Option.bind (map_of pairs key) resolved_id_component))
      in case named (tb_identity_head tb aggregate) of
           Some key \<Rightarrow> Some key
         | None \<Rightarrow> named (tb_reference_key tb aggregate))"

definition declared_facts :: "tables \<Rightarrow> string \<Rightarrow> (string \<times> json) list \<Rightarrow> (string \<times> json) list" where
  "declared_facts tb target_verb pairs = filter (\<lambda>(k, v). List.member (tb_command_attributes tb target_verb) k) pairs"

definition target_aggregate :: "string \<Rightarrow> string option" where
  "target_aggregate target_verb = map_option fst (rsplit_once ''.'' target_verb)"

definition split_routed_args :: "json \<Rightarrow> string \<Rightarrow> tables \<Rightarrow> json" where
  "split_routed_args projected target_verb tb =
     (case projected of
        J_Object pairs \<Rightarrow>
          let facts = J_Object (declared_facts tb target_verb pairs)
          in if tb_command_creates tb target_verb then facts
             else (case target_aggregate target_verb of
                     None \<Rightarrow> facts
                   | Some aggregate \<Rightarrow>
                       (case projected_identity tb aggregate pairs of
                          None \<Rightarrow> facts
                        | Some key \<Rightarrow> J_Object [(''to'', J_Str key), (''with'', facts)]))
      | _ \<Rightarrow> projected)"

definition entity_command_paths :: "string \<Rightarrow> (string \<times> string) option" where
  "entity_command_paths target_verb =
     Option.bind (split_once ''.'' target_verb) (\<lambda>(aggregate, rest).
     Option.bind (split_once ''.'' rest) (\<lambda>(entity, command_rest).
       if str_contains ''.'' command_rest then None else Some (aggregate, aggregate @ ''.'' @ entity)))"

definition route_dispatch_args :: "json \<Rightarrow> string \<Rightarrow> tables \<Rightarrow> event \<Rightarrow> json" where
  "route_dispatch_args projected target_verb tb event =
     (let routed = split_routed_args projected target_verb tb
      in if has_key ''to'' (object_fields routed) then routed
         else (case (entity_command_paths target_verb, projected) of
            (Some (aggregate, entity), J_Object pairs) \<Rightarrow>
              (case Option.bind (tb_entity_identity_head tb entity)
                   (\<lambda>head. Option.bind (map_of pairs head) resolved_id_component) of
                 None \<Rightarrow> routed
               | Some entity_id \<Rightarrow>
                   (case (case projected_identity tb aggregate pairs of
                            Some key \<Rightarrow> Some key
                          | None \<Rightarrow> if ev_aggregate event = aggregate then nonempty_text (ev_id event) else None) of
                      None \<Rightarrow> routed
                    | Some aggregate_id \<Rightarrow>
                        J_Object
                          [(''to'', J_Object [(''aggregate'', J_Str aggregate_id), (''entities'', J_Array [J_Str entity_id])]),
                           (''with'', J_Object (declared_facts tb target_verb pairs))]))
          | _ \<Rightarrow> routed))"

definition build_dispatch_args ::
    "process_manager \<Rightarrow> dispatch_spec \<Rightarrow> event \<Rightarrow> string \<Rightarrow> json \<Rightarrow> string \<Rightarrow> tables \<Rightarrow> json" where
  "build_dispatch_args pm spec event correlation memory domain_name tb =
     route_dispatch_args
       (J_Object (map (\<lambda>(key, v). (key, resolve_with pm v event correlation memory)) (sp_with spec)))
       (qualify_saga_command_name domain_name (sp_command spec)) tb event"

text \<open>A non-creating target on the emitting aggregate may be routed to the emitter itself.\<close>

definition routes_to_emitter :: "tables \<Rightarrow> event \<Rightarrow> (string \<times> string) option \<Rightarrow> string \<Rightarrow> bool" where
  "routes_to_emitter tb event extra target_verb \<longleftrightarrow>
     extra = None \<and> \<not> tb_command_creates tb target_verb \<and> target_aggregate target_verb = Some (ev_aggregate event)"

definition trigger_args_with_row ::
    "policy_rule \<Rightarrow> event \<Rightarrow> (string \<times> string) option \<Rightarrow> (string \<times> json) option \<Rightarrow> string \<Rightarrow> tables \<Rightarrow> json" where
  "trigger_args_with_row policy event extra row target_verb tb =
     (let payload = object_fields (ev_payload event);
          source = (case extra of
              None \<Rightarrow> payload
            | Some (key, row_id) \<Rightarrow> filter (\<lambda>(name, v). name \<noteq> key) payload @ [(key, J_Str row_id)])
      in if pr_with_spec policy = []
         then (if routes_to_emitter tb event extra target_verb
               then J_Object [(''to'', J_Str (ev_id event)), (''with'', J_Object (filter (\<lambda>(name, v). name \<noteq> ''to'') source))]
               else J_Object source)
         else let source = offer_emitter_head source event tb;
                  source = (case row of None \<Rightarrow> source | Some (row_id, r) \<Rightarrow> offer_row_fields source row_id r);
                  source = offer_emitter_id source event;
                  routed = split_routed_args (J_Object (resolve_with_spec (pr_with_spec policy) source)) target_verb tb;
                  pairs = object_fields routed
              in if routes_to_emitter tb event extra target_verb \<and> \<not> (has_key ''to'' pairs \<and> has_key ''with'' pairs)
                 then J_Object [(''to'', J_Str (ev_id event)), (''with'', routed)]
                 else routed)"

definition trigger_args :: "policy_rule \<Rightarrow> event \<Rightarrow> (string \<times> string) option \<Rightarrow> string \<Rightarrow> tables \<Rightarrow> json" where
  "trigger_args policy event extra target_verb tb = trigger_args_with_row policy event extra None target_verb tb"

text \<open>Which policies an event sets off: by name, by the emitting aggregate and by the predicate.\<close>

definition emitting :: "event \<Rightarrow> string" where
  "emitting event = (case rsplit_once ''::'' (ev_aggregate event) of None \<Rightarrow> ev_aggregate event | Some (_, name) \<Rightarrow> name)"

definition policy_matches :: "regex_engine \<Rightarrow> string \<Rightarrow> string option \<Rightarrow> expr option \<Rightarrow> event \<Rightarrow> bool" where
  "policy_matches engine event_name qualifier where_expr event \<longleftrightarrow>
     event_name = ev_name event \<and> (case qualifier of None \<Rightarrow> True | Some q \<Rightarrow> q = emitting event) \<and>
     where_holds engine where_expr event"

end
