(* ===== verification/Reaction_Routing.thy ===== *)
theory Reaction_Routing
  imports Reactions
begin

text \<open>
  The arguments a saga leg dispatches with, read back by the command's own decoder: \<open>orchestrate.rs\<close>
  writes a routing envelope that \<open>routing.rs\<close> accepts, or passes the declared facts flat.
\<close>

lemma resolved_id_nonempty: "resolved_id_component v = Some key \<Longrightarrow> key \<noteq> []"
  by (auto simp: resolved_id_component_def bind_eq_Some_conv nonempty_text_def split: option.splits if_splits)

lemma projected_identity_nonempty: "projected_identity tb aggregate pairs = Some key \<Longrightarrow> key \<noteq> []"
  by (auto simp: projected_identity_def Let_def bind_eq_Some_conv split: option.splits dest: resolved_id_nonempty)

lemma envelope_accepted:
  assumes "envelope_from_json target = Inr route"
  shows "invocation_from_json (J_Object [(''to'', target), (''with'', J_Object facts)]) =
    Inr \<lparr>ci_route = Some route, ci_facts = J_Object facts, ci_explicit = True\<rparr>"
proof -
  have "non_null (Some target) = Some target"
    using assms by (cases target) (auto simp: envelope_from_json_def non_null_def)
  with assms show ?thesis
    by (simp add: invocation_from_json_def route_of_def loose_facts_def non_null_def)
qed

lemma split_routed_args_cases:
  "split_routed_args (J_Object pairs) verb tb = J_Object (declared_facts tb verb pairs) \<or>
   (\<exists>aggregate key. target_aggregate verb = Some aggregate \<and> projected_identity tb aggregate pairs = Some key \<and>
     \<not> tb_command_creates tb verb \<and>
     split_routed_args (J_Object pairs) verb tb = J_Object [(''to'', J_Str key), (''with'', J_Object (declared_facts tb verb pairs))])"
  by (auto simp: split_routed_args_def Let_def split: option.split)

lemma route_dispatch_args_cases:
  assumes flat: "split_routed_args (J_Object pairs) verb tb = J_Object facts"
  shows "route_dispatch_args (J_Object pairs) verb tb event = J_Object facts \<or>
    (\<exists>aggregate entity_id key. entity_id \<noteq> [] \<and> key \<noteq> [] \<and>
      (projected_identity tb aggregate pairs = Some key \<or> ev_aggregate event = aggregate \<and> ev_id event = key) \<and>
      route_dispatch_args (J_Object pairs) verb tb event =
        J_Object [(''to'', J_Object [(''aggregate'', J_Str key), (''entities'', J_Array [J_Str entity_id])]),
          (''with'', J_Object (declared_facts tb verb pairs))])"
proof (cases "entity_command_paths verb")
  case (Some paths)
  obtain aggregate entity where paths: "paths = (aggregate, entity)" by (cases paths)
  define e where "e = Option.bind (tb_entity_identity_head tb entity) (\<lambda>head. Option.bind (map_of pairs head) resolved_id_component)"
  define k where "k = (case projected_identity tb aggregate pairs of
      Some key \<Rightarrow> Some key | None \<Rightarrow> if ev_aggregate event = aggregate then nonempty_text (ev_id event) else None)"
  have e: "e = Some entity_id \<Longrightarrow> entity_id \<noteq> []" for entity_id
    by (auto simp: e_def bind_eq_Some_conv dest: resolved_id_nonempty)
  have k: "k = Some key \<Longrightarrow> key \<noteq> [] \<and>
      (projected_identity tb aggregate pairs = Some key \<or> ev_aggregate event = aggregate \<and> ev_id event = key)" for key
    by (auto simp: k_def nonempty_text_def split: option.splits if_splits dest: projected_identity_nonempty)
  have "route_dispatch_args (J_Object pairs) verb tb event =
    (if has_key ''to'' facts then J_Object facts
     else case e of None \<Rightarrow> J_Object facts
       | Some entity_id \<Rightarrow> (case k of None \<Rightarrow> J_Object facts
         | Some key \<Rightarrow> J_Object [(''to'', J_Object [(''aggregate'', J_Str key), (''entities'', J_Array [J_Str entity_id])]),
             (''with'', J_Object (declared_facts tb verb pairs))]))"
    by (simp only: route_dispatch_args_def flat object_fields_def Some paths e_def [symmetric] k_def [symmetric] Let_def
        json.case prod.case option.case)
  then show ?thesis
    using e k by (cases e; cases k) (auto split: if_splits)
next
  case None
  then have "route_dispatch_args (J_Object pairs) verb tb event = J_Object facts"
    by (simp add: route_dispatch_args_def flat Let_def)
  then show ?thesis ..
qed

text \<open>
  What a saga leg sends is what its command reads. The arguments of a leg are either its facts,
  flat and sliced to the attributes the command declares, or an envelope that the command's decoder
  accepts as an explicit route with exactly those facts: the aggregate's identity is the first
  non-empty one the leg projects, or the emitter's own id when the emitter is that aggregate, and
  an entity command's route names one non-empty entity.
\<close>

theorem saga_arguments_decode:
  "(let args = route_dispatch_args (J_Object pairs) verb tb event; facts = J_Object (declared_facts tb verb pairs)
    in args = facts \<or>
      (\<exists>route aggregate. invocation_from_json args = Inr \<lparr>ci_route = Some route, ci_facts = facts, ci_explicit = True\<rparr> \<and>
        (projected_identity tb aggregate pairs = Some (re_aggregate route) \<or>
         ev_aggregate event = aggregate \<and> ev_id event = re_aggregate route) \<and>
        re_aggregate route \<noteq> [] \<and> length (re_entities route) \<le> 1 \<and> [] \<notin> set (re_entities route)))"
proof -
  define facts where "facts = declared_facts tb verb pairs"
  define routed where "routed = split_routed_args (J_Object pairs) verb tb"
  consider (flat) "routed = J_Object facts"
    | (to) aggregate key where "projected_identity tb aggregate pairs = Some key" "routed = J_Object [(''to'', J_Str key), (''with'', J_Object facts)]"
    using split_routed_args_cases [of pairs verb tb] unfolding routed_def facts_def by blast
  then show ?thesis
  proof cases
    case to
    then have "key \<noteq> []" by (auto dest: projected_identity_nonempty)
    then have "invocation_from_json routed = Inr \<lparr>ci_route = Some \<lparr>re_aggregate = key, re_entities = []\<rparr>, ci_facts = J_Object facts, ci_explicit = True\<rparr>"
      unfolding to by (intro envelope_accepted) (simp add: envelope_from_json_def)
    moreover have "route_dispatch_args (J_Object pairs) verb tb event = routed"
      by (simp add: route_dispatch_args_def routed_def [symmetric]) (simp add: to has_key_def object_fields_def)
    ultimately show ?thesis
      using to(1) \<open>key \<noteq> []\<close> unfolding Let_def facts_def
      by (intro disjI2 exI [of _ "\<lparr>re_aggregate = key, re_entities = []\<rparr>"] exI [of _ aggregate]) auto
  next
    case flat
    consider (unrouted) "route_dispatch_args (J_Object pairs) verb tb event = J_Object facts"
      | (entity) aggregate entity_id key where "entity_id \<noteq> []" "key \<noteq> []"
          "projected_identity tb aggregate pairs = Some key \<or> ev_aggregate event = aggregate \<and> ev_id event = key"
          "route_dispatch_args (J_Object pairs) verb tb event =
            J_Object [(''to'', J_Object [(''aggregate'', J_Str key), (''entities'', J_Array [J_Str entity_id])]), (''with'', J_Object facts)]"
      using route_dispatch_args_cases [OF flat [unfolded routed_def], of event] unfolding facts_def by blast
    then show ?thesis
    proof cases
      case entity
      have "envelope_from_json (J_Object [(''aggregate'', J_Str key), (''entities'', J_Array [J_Str entity_id])]) =
          Inr \<lparr>re_aggregate = key, re_entities = [entity_id]\<rparr>"
        using entity(1,2) by (simp add: envelope_from_json_def route_entities_def)
      from envelope_accepted [OF this] entity show ?thesis
        unfolding Let_def facts_def
        by (intro disjI2 exI [of _ "\<lparr>re_aggregate = key, re_entities = [entity_id]\<rparr>"] exI [of _ aggregate]) simp
    qed (simp add: facts_def)
  qed
qed

end
