(* ===== verification/Cascade.thy ===== *)
theory Cascade
  imports Reactions
begin

text \<open>
  \<open>rust/src/kernel/orchestrate.rs\<close>, the part that acts: a dispatch, the policies and saga legs its
  events set off, and theirs in turn. The store, the saga instances and the five logs that the
  source threads as mutable references are the record \<open>cascade\<close>; what a cascade only reads is
  \<open>cascade_env\<close>, with the generated \<open>dispatch\<close> and the store's \<open>scan\<close> as parameters.

  \<open>run\<close> calls itself through every reaction, and the loop that drains a saga's compensations has no
  bound of its own. Both take fuel, and \<open>None\<close> says that it ran out. Each function below takes the
  runner of the reactions it sets off as the argument \<open>rerun\<close>.
\<close>

section \<open>The state of a cascade\<close>

record 's cascade_env =
  ce_dispatch :: "'s \<Rightarrow> string \<Rightarrow> json \<Rightarrow> string option \<Rightarrow> string option \<Rightarrow> mutation_record list \<Rightarrow>
    event list res \<times> 's \<times> mutation_record list"
  ce_scan :: "'s \<Rightarrow> aggregate_scan"
  ce_tables :: tables
  ce_occurred_at :: "string option"
  ce_needs :: needs_env
  ce_engine :: regex_engine

type_synonym saga_key = "string \<times> string"

record 's cascade =
  ca_store :: 's
  ca_sagas :: "saga_key \<rightharpoonup> saga_instance"
  ca_all_events :: "event list"
  ca_mutations :: "mutation_record list"
  ca_cross_domain :: "pending_reaction list"
  ca_reaction_log :: "json list"
  ca_saga_log :: "json list"

type_synonym stamp = "(string \<times> string) list"

type_synonym 's runner =
  "string \<Rightarrow> json \<Rightarrow> string option \<Rightarrow> string option \<Rightarrow> stamp option \<Rightarrow> nat \<Rightarrow> 's cascade \<Rightarrow> (unit res \<times> 's cascade) option"

record saga_leg =
  lg_pm :: process_manager
  lg_correlation :: string
  lg_domain_name :: string

definition leg_key :: "saga_leg \<Rightarrow> saga_key" where
  "leg_key leg = (pm_name (lg_pm leg), lg_correlation leg)"

definition leg_stamp :: "saga_leg \<Rightarrow> stamp" where
  "leg_stamp leg = [(correlation_head (pm_correlates_by (lg_pm leg)), lg_correlation leg)]"

definition log_reaction :: "(string \<times> json) list \<Rightarrow> 's cascade \<Rightarrow> 's cascade" where
  "log_reaction flds st = st\<lparr>ca_reaction_log := ca_reaction_log st @ [J_Object flds]\<rparr>"

definition log_saga :: "(string \<times> json) list \<Rightarrow> 's cascade \<Rightarrow> 's cascade" where
  "log_saga flds st = st\<lparr>ca_saga_log := ca_saga_log st @ [J_Object flds]\<rparr>"

definition put_saga :: "saga_key \<Rightarrow> saga_instance \<Rightarrow> 's cascade \<Rightarrow> 's cascade" where
  "put_saga key inst st = st\<lparr>ca_sagas := (ca_sagas st)(key \<mapsto> inst)\<rparr>"

text \<open>A Rust \<open>for\<close> loop whose body may run out of fuel.\<close>

fun each :: "('a \<Rightarrow> 'b \<Rightarrow> 'b option) \<Rightarrow> 'a list \<Rightarrow> 'b \<Rightarrow> 'b option" where
  "each body [] st = Some st"
| "each body (x # xs) st = Option.bind (body x st) (each body xs)"

definition depth_reached :: string where
  "depth_reached = ''reaction depth '' @ show_int (int MAX_REACTION_DEPTH) @ '' reached''"

definition not_delivered :: "string \<Rightarrow> (string \<times> json) list" where
  "not_delivered reason = [(''delivered'', J_Bool False), (''reason'', J_Str reason)]"

definition outcome_fields :: "unit res \<Rightarrow> (string \<times> json) list" where
  "outcome_fields outcome =
     (case outcome of
        Inr _ \<Rightarrow> [(''delivered'', J_Bool True)]
      | Inl refusal \<Rightarrow> not_delivered (refusal_message refusal))"

section \<open>Policies\<close>

definition reaction_fields :: "policy_rule \<Rightarrow> event \<Rightarrow> (string \<times> json) list" where
  "reaction_fields policy event =
     [(''policy'', J_Str (pr_policy_name policy)), (''on'', J_Str (ev_name event)),
      (''trigger'', J_Str (pr_target_verb policy))]"

definition trigger :: "'s runner \<Rightarrow> policy_rule \<Rightarrow> event \<Rightarrow> nat \<Rightarrow> (string \<times> json) list \<Rightarrow> json \<Rightarrow> 's cascade \<Rightarrow> 's cascade option" where
  "trigger rerun policy event depth row_fields args st =
     map_option (\<lambda>(outcome, st). log_reaction (reaction_fields policy event @ row_fields @ outcome_fields outcome) st)
       (rerun (pr_target_verb policy) args None None None (reaction_depth (pr_root policy) depth) st)"

definition fan_out :: "'s cascade_env \<Rightarrow> 's runner \<Rightarrow> event \<Rightarrow> nat \<Rightarrow> policy_rule \<Rightarrow> string \<Rightarrow> 's cascade \<Rightarrow> 's cascade option" where
  "fan_out env rerun event depth policy query st =
     (let tb = ce_tables env;
          refused = (\<lambda>reason. Some (log_reaction (reaction_fields policy event @ not_delivered reason) st))
      in case find_query (tb_queries tb) query of
           None \<Rightarrow> refused (''no query '' @ query)
         | Some def \<Rightarrow>
             (case run_query (ce_scan env (ca_store st)) def (for_each_query_args def event tb) None of
                Inl refusal \<Rightarrow> refused (refusal_message refusal)
              | Inr rows \<Rightarrow>
                  each (\<lambda>(row_id, row).
                    trigger rerun policy event depth [(''for_row'', J_Str row_id)]
                      (trigger_args_with_row policy event (map_option (\<lambda>key. (key, row_id)) (pr_for_each_key policy))
                        (Some (row_id, row)) (pr_target_verb policy) tb)) rows st))"

definition react_policy :: "'s cascade_env \<Rightarrow> 's runner \<Rightarrow> event \<Rightarrow> nat \<Rightarrow> policy_rule \<Rightarrow> 's cascade \<Rightarrow> 's cascade option" where
  "react_policy env rerun event depth policy st =
     (if \<not> policy_matches (ce_engine env) (pr_event_name policy) (pr_event_qualifier policy) (pr_where policy) event
      then Some st
      else if depth \<ge> MAX_REACTION_DEPTH \<and> \<not> pr_root policy
      then Some (log_reaction (reaction_fields policy event @ not_delivered depth_reached) st)
      else (case pr_for_each policy of
              Some query \<Rightarrow> fan_out env rerun event depth policy query st
            | None \<Rightarrow>
                trigger rerun policy event depth []
                  (trigger_args policy event None (pr_target_verb policy) (ce_tables env)) st))"

definition cross_policy :: "'s cascade_env \<Rightarrow> event \<Rightarrow> cross_domain_policy_rule \<Rightarrow> 's cascade \<Rightarrow> 's cascade" where
  "cross_policy env event policy st =
     (if policy_matches (ce_engine env) (xr_event_name policy) (xr_event_qualifier policy) (xr_where policy) event
      then st\<lparr>ca_cross_domain := ca_cross_domain st @
        [\<lparr>px_policy_name = xr_policy_name policy, px_event_name = ev_name event,
          px_target_domain = xr_target_domain policy, px_target_verb = xr_target_verb policy,
          px_payload = cross_domain_payload policy event (ce_tables env)\<rparr>]\<rparr>
      else st)"

definition react_policies :: "'s cascade_env \<Rightarrow> 's runner \<Rightarrow> event \<Rightarrow> nat \<Rightarrow> 's cascade \<Rightarrow> 's cascade option" where
  "react_policies env rerun event depth st =
     map_option (fold (cross_policy env event) (tb_cross_domain (ce_tables env)))
       (each (react_policy env rerun event depth) (tb_policies (ce_tables env)) st)"

section \<open>Process managers\<close>

definition saga_fields :: "process_manager \<Rightarrow> string \<Rightarrow> (string \<times> json) list" where
  "saga_fields pm on = [(''process_manager'', J_Str (pm_name pm)), (''on'', J_Str on)]"

definition begin_one :: "'s cascade_env \<Rightarrow> event \<Rightarrow> process_manager \<Rightarrow> 's cascade \<Rightarrow> 's cascade" where
  "begin_one env event pm st =
     (if ev_name event \<noteq> pm_starts_on pm then st
      else (case correlation_of pm event (tb_reference_key (ce_tables env)) of
         None \<Rightarrow>
           log_saga (saga_fields pm (ev_name event) @
             [(''born'', J_Bool False), (''reason'', J_Str (''no '' @ pm_correlates_by pm @ '' in the payload''))]) st
       | Some correlation \<Rightarrow>
           if ca_sagas st (pm_name pm, correlation) \<noteq> None then st
           else log_saga (saga_fields pm (ev_name event) @
               [(''instance'', J_Str correlation), (''born'', J_Bool True), (''state'', J_Str (pm_initial_state pm))])
             (put_saga (pm_name pm, correlation)
               \<lparr>si_state = pm_initial_state pm, si_memory = ev_payload event, si_completed = []\<rparr> st)))"

definition begin_saga :: "'s cascade_env \<Rightarrow> event \<Rightarrow> 's cascade \<Rightarrow> 's cascade" where
  "begin_saga env event = fold (begin_one env event) (tb_managers (ce_tables env))"

definition end_one :: "'s cascade_env \<Rightarrow> event \<Rightarrow> process_manager \<Rightarrow> 's cascade \<Rightarrow> 's cascade" where
  "end_one env event pm st =
     (if ev_name event \<noteq> pm_ends_on pm then st
      else (case correlation_of pm event (tb_reference_key (ce_tables env)) of
         None \<Rightarrow> st
       | Some correlation \<Rightarrow>
           if ca_sagas st (pm_name pm, correlation) = None then st
           else log_saga (saga_fields pm (ev_name event) @
               [(''instance'', J_Str correlation), (''ended'', J_Bool True)])
             (st\<lparr>ca_sagas := (ca_sagas st)((pm_name pm, correlation) := None)\<rparr>)))"

definition end_saga :: "'s cascade_env \<Rightarrow> event \<Rightarrow> 's cascade \<Rightarrow> 's cascade" where
  "end_saga env event = fold (end_one env event) (tb_managers (ce_tables env))"

definition dispatch_fields :: "saga_leg \<Rightarrow> string \<Rightarrow> (string \<times> json) list" where
  "dispatch_fields leg command_name =
     [(''process_manager'', J_Str (pm_name (lg_pm leg))), (''instance'', J_Str (lg_correlation leg)),
      (''dispatch'', J_Str command_name)]"

definition push_compensation :: "saga_key \<Rightarrow> dispatch_spec \<Rightarrow> json option \<Rightarrow> 's cascade \<Rightarrow> bool \<times> 's cascade" where
  "push_compensation key spec compensation_args st =
     (case (sp_compensates spec, compensation_args, ca_sagas st key) of
        (Some undo, Some args, Some inst) \<Rightarrow>
          (True, put_saga key (inst\<lparr>si_completed := si_completed inst @ [\<lparr>cc_command = sp_command undo, cc_args = args\<rparr>]\<rparr>) st)
      | _ \<Rightarrow> (False, st))"

definition pop_compensation :: "saga_key \<Rightarrow> 's cascade \<Rightarrow> 's cascade" where
  "pop_compensation key st =
     (case ca_sagas st key of
        None \<Rightarrow> st
      | Some inst \<Rightarrow> put_saga key (inst\<lparr>si_completed := butlast (si_completed inst)\<rparr>) st)"

definition deliver_saga_dispatch ::
    "'s runner \<Rightarrow> saga_leg \<Rightarrow> dispatch_spec \<Rightarrow> json \<Rightarrow> nat \<Rightarrow> json option \<Rightarrow> 's cascade \<Rightarrow> (bool option \<times> 's cascade) option" where
  "deliver_saga_dispatch rerun leg spec args depth compensation_args st =
     (if depth \<ge> MAX_REACTION_DEPTH
      then Some (None, log_saga (dispatch_fields leg (sp_command spec) @ not_delivered depth_reached) st)
      else (case push_compensation (leg_key leg) spec compensation_args st of
         (recorded, st) \<Rightarrow>
           map_option (\<lambda>(outcome, st).
             (Some (is_ok outcome),
              log_saga (dispatch_fields leg (sp_command spec) @ outcome_fields outcome)
                (if recorded \<and> \<not> is_ok outcome then pop_compensation (leg_key leg) st else st)))
           (rerun (qualify_saga_command_name (lg_domain_name leg) (sp_command spec)) args None None
             (Some (leg_stamp leg)) (depth + 1) st)))"

definition deliver_derived_compensation ::
    "'s runner \<Rightarrow> saga_leg \<Rightarrow> completed_compensation \<Rightarrow> nat \<Rightarrow> 's cascade \<Rightarrow> 's cascade option" where
  "deliver_derived_compensation rerun leg entry depth st =
     (let failed = [(''compensation'', J_Bool True), (''compensation_failed'', J_Bool True)]
      in if depth \<ge> MAX_REACTION_DEPTH
         then Some (log_saga (dispatch_fields leg (cc_command entry) @ not_delivered depth_reached @ failed) st)
         else map_option (\<lambda>(outcome, st).
             log_saga (dispatch_fields leg (cc_command entry) @ outcome_fields outcome @
               (if is_ok outcome then [(''compensation'', J_Bool True)] else failed)) st)
           (rerun (qualify_saga_command_name (lg_domain_name leg) (cc_command entry)) (cc_args entry) None None
             (Some (leg_stamp leg)) (depth + 1) st))"

text \<open>The \<open>loop\<close> of \<open>compensate\<close>.\<close>

fun drain :: "'s runner \<Rightarrow> saga_leg \<Rightarrow> nat \<Rightarrow> nat \<Rightarrow> 's cascade \<Rightarrow> 's cascade option" where
  "drain rerun leg depth 0 st = None"
| "drain rerun leg depth (Suc fuel) st =
     (case ca_sagas st (leg_key leg) of
        None \<Rightarrow> Some st
      | Some inst \<Rightarrow>
          if si_completed inst = [] then Some st
          else Option.bind
            (deliver_derived_compensation rerun leg (last (si_completed inst)) depth (pop_compensation (leg_key leg) st))
            (drain rerun leg depth fuel))"

definition deliver_spec ::
    "'s cascade_env \<Rightarrow> 's runner \<Rightarrow> saga_leg \<Rightarrow> event \<Rightarrow> json \<Rightarrow> nat \<Rightarrow> dispatch_spec \<Rightarrow> 's cascade \<Rightarrow>
     (bool option \<times> 's cascade) option" where
  "deliver_spec env rerun leg event memory depth spec st =
     (let args_of = (\<lambda>spec. build_dispatch_args (lg_pm leg) spec event (lg_correlation leg) memory (lg_domain_name leg) (ce_tables env))
      in deliver_saga_dispatch rerun leg spec (args_of spec) depth (map_option args_of (sp_compensates spec)) st)"

text \<open>Taking a leg: the instance moves to its state and the move is logged.\<close>

definition move_saga :: "process_manager \<Rightarrow> string \<Rightarrow> string \<Rightarrow> handler \<Rightarrow> 's cascade \<Rightarrow> 's cascade" where
  "move_saga pm on correlation h st =
     log_saga (saga_fields pm on @ [(''instance'', J_Str correlation), (''advanced'', J_Bool True),
         (''from'', J_Str (hn_from_state h)), (''to'', J_Str (hn_to_state h))])
       (case ca_sagas st (pm_name pm, correlation) of
          None \<Rightarrow> st
        | Some inst \<Rightarrow> put_saga (pm_name pm, correlation) (inst\<lparr>si_state := hn_to_state h\<rparr>) st)"

definition not_advanced :: "process_manager \<Rightarrow> string \<Rightarrow> string \<Rightarrow> string \<Rightarrow> 's cascade \<Rightarrow> 's cascade" where
  "not_advanced pm on correlation reason st =
     log_saga (saga_fields pm on @
       [(''instance'', J_Str correlation), (''advanced'', J_Bool False), (''reason'', J_Str reason)]) st"

definition compensate ::
    "'s cascade_env \<Rightarrow> 's runner \<Rightarrow> nat \<Rightarrow> saga_leg \<Rightarrow> event \<Rightarrow> json \<Rightarrow> nat \<Rightarrow> 's cascade \<Rightarrow> 's cascade option" where
  "compensate env rerun fuel leg event memory depth st =
     (let pm = lg_pm leg
      in case ca_sagas st (leg_key leg) of
           None \<Rightarrow> Some st
         | Some inst \<Rightarrow>
             if \<not> list_ex (\<lambda>h. hn_event_type h = REFUSED) (pm_handlers pm) then Some st
             else (case select_leg pm REFUSED (si_state inst) of
                None \<Rightarrow> Some (not_advanced pm REFUSED (lg_correlation leg) (leg_mismatch pm REFUSED (si_state inst)) st)
              | Some h \<Rightarrow>
                  Option.bind (drain rerun leg depth fuel (move_saga pm REFUSED (lg_correlation leg) h st))
                    (each (\<lambda>spec st. map_option snd (deliver_spec env rerun leg event memory depth spec st))
                      (hn_dispatches h))))"

definition run_leg ::
    "'s cascade_env \<Rightarrow> 's runner \<Rightarrow> nat \<Rightarrow> saga_leg \<Rightarrow> event \<Rightarrow> json \<Rightarrow> nat \<Rightarrow> handler \<Rightarrow> 's cascade \<Rightarrow> 's cascade option" where
  "run_leg env rerun fuel leg event memory depth h st =
     Option.bind
       (each (\<lambda>spec (refused, st).
            map_option (\<lambda>(delivered, st). (refused \<or> delivered = Some False, st))
              (deliver_spec env rerun leg event memory depth spec st))
          (hn_dispatches h) (False, st))
       (\<lambda>(refused, st). if refused then compensate env rerun fuel leg event memory depth st else Some st)"

definition advance_one ::
    "'s cascade_env \<Rightarrow> 's runner \<Rightarrow> nat \<Rightarrow> event \<Rightarrow> nat \<Rightarrow> process_manager \<Rightarrow> 's cascade \<Rightarrow> 's cascade option" where
  "advance_one env rerun fuel event depth pm st =
     (if \<not> list_ex (\<lambda>h. hn_event_type h = ev_name event) (pm_handlers pm) then Some st
      else (case correlation_of pm event (tb_reference_key (ce_tables env)) of
         None \<Rightarrow> Some st
       | Some correlation \<Rightarrow>
           (case ca_sagas st (pm_name pm, correlation) of
              None \<Rightarrow> Some (not_advanced pm (ev_name event) correlation
                (''no conversation remembers '' @ debug_str correlation) st)
            | Some inst \<Rightarrow>
                (case select_leg pm (ev_name event) (si_state inst) of
                   None \<Rightarrow> Some (not_advanced pm (ev_name event) correlation
                     (leg_mismatch pm (ev_name event) (si_state inst)) st)
                 | Some h \<Rightarrow>
                     run_leg env rerun fuel
                       \<lparr>lg_pm = pm, lg_correlation = correlation, lg_domain_name = hd (split_str ''::'' (ev_aggregate event))\<rparr>
                       event (si_memory inst) depth h (move_saga pm (ev_name event) correlation h st)))))"

definition advance_saga :: "'s cascade_env \<Rightarrow> 's runner \<Rightarrow> nat \<Rightarrow> event \<Rightarrow> nat \<Rightarrow> 's cascade \<Rightarrow> 's cascade option" where
  "advance_saga env rerun fuel event depth st =
     each (advance_one env rerun fuel event depth) (tb_managers (ce_tables env)) st"

section \<open>The cascade\<close>

definition react :: "'s cascade_env \<Rightarrow> 's runner \<Rightarrow> nat \<Rightarrow> nat \<Rightarrow> event \<Rightarrow> 's cascade \<Rightarrow> 's cascade option" where
  "react env rerun fuel depth event st =
     Option.bind (react_policies env rerun event depth st) (\<lambda>st.
       map_option (end_saga env event) (advance_saga env rerun fuel event depth (begin_saga env event st)))"

definition stamped :: "stamp option \<Rightarrow> string option \<Rightarrow> event \<Rightarrow> event" where
  "stamped saga_correlation occurred_at event =
     (let event = (case saga_correlation of
            None \<Rightarrow> event
          | Some st \<Rightarrow>
              event\<lparr>ev_correlation := Some (fold (\<lambda>(k, v). put_field k v) st (case ev_correlation event of None \<Rightarrow> [] | Some held \<Rightarrow> held))\<rparr>)
      in case occurred_at of None \<Rightarrow> event | Some ts \<Rightarrow> event\<lparr>ev_occurred_at := Some ts\<rparr>)"

fun run :: "'s cascade_env \<Rightarrow> nat \<Rightarrow> 's runner" where
  "run env 0 verb args caller_role caller_actor_id saga_correlation depth st = None"
| "run env (Suc fuel) verb args caller_role caller_actor_id saga_correlation depth st =
     (let args = (case enrich (ce_needs env) verb args (ce_occurred_at env) of None \<Rightarrow> args | Some enriched \<Rightarrow> enriched)
      in case ce_dispatch env (ca_store st) verb args caller_role caller_actor_id (ca_mutations st) of
           (Inl refusal, store, mutations) \<Rightarrow> Some (Inl refusal, st\<lparr>ca_store := store, ca_mutations := mutations\<rparr>)
         | (Inr events, store, mutations) \<Rightarrow>
             let events = map (stamped saga_correlation (ce_occurred_at env)) events
             in map_option (Pair (Inr ()))
                  (each (react env (run env fuel) (Suc fuel) depth) events
                    (st\<lparr>ca_store := store, ca_mutations := mutations, ca_all_events := ca_all_events st @ events\<rparr>)))"

declare run.simps [simp del]

definition orchestrate ::
    "'s cascade_env \<Rightarrow> nat \<Rightarrow> 's \<Rightarrow> (saga_key \<rightharpoonup> saga_instance) \<Rightarrow> string \<Rightarrow> json \<Rightarrow> string option \<Rightarrow> string option \<Rightarrow> stamp option \<Rightarrow>
     nat \<Rightarrow> event list \<Rightarrow> mutation_record list \<Rightarrow> pending_reaction list \<Rightarrow> json list \<Rightarrow> json list \<Rightarrow> (unit res \<times> 's cascade) option" where
  "orchestrate env fuel store sagas verb args caller_role caller_actor_id saga_correlation depth all_events mutations
       cross_domain reaction_log saga_log =
     run env fuel verb args caller_role caller_actor_id saga_correlation depth
       \<lparr>ca_store = store, ca_sagas = sagas, ca_all_events = all_events, ca_mutations = mutations,
        ca_cross_domain = cross_domain, ca_reaction_log = reaction_log, ca_saga_log = saga_log\<rparr>"

end
