(* ===== verification/Cascade_Laws.thy ===== *)
theory Cascade_Laws
  imports Cascade
begin

text \<open>
  What a cascade keeps: the relations between the state before and after that hold of every step
  hold of the whole cascade (locales \<open>reaction_steps\<close> and \<open>cascade_steps\<close>), fuel only decides whether it ends, and without
  root policies and compensations it always does.
\<close>

section \<open>Relations that every step respects\<close>

definition runner_keeps :: "('s cascade \<Rightarrow> 's cascade \<Rightarrow> bool) \<Rightarrow> 's runner \<Rightarrow> bool" where
  "runner_keeps R rerun \<longleftrightarrow>
     (\<forall>verb args role actor corr depth st outcome st'.
        rerun verb args role actor corr depth st = Some (outcome, st') \<longrightarrow> R st st')"

lemma each_related:
  assumes "reflp R" "transp R"
    and "\<And>x st st'. x \<in> set xs \<Longrightarrow> body x st = Some st' \<Longrightarrow> R st st'" "each body xs st = Some st'"
  shows "R st st'"
  using assms(3,4)
proof (induction xs arbitrary: st)
  case Nil
  then show ?case using assms(1) by (simp add: reflpD)
next
  case (Cons x xs)
  then obtain mid where "body x st = Some mid" "each body xs mid = Some st'"
    by (auto simp: bind_eq_Some_conv)
  then have "R st mid" "R mid st'" using Cons by (metis list.set_intros)+
  then show ?case using assms(2) by (rule transpD [rotated])
qed

lemma fold_related:
  assumes "reflp R" "transp R" "\<And>x st. x \<in> set xs \<Longrightarrow> R st (f x st)"
  shows "R st (fold f xs st)"
  using assms(3)
proof (induction xs arbitrary: st)
  case (Cons x xs)
  then have "R st (f x st)" "R (f x st) (fold f xs (f x st))" by auto
  then show ?case using assms(2) by (auto dest: transpD)
qed (simp add: assms(1) reflpD)

lemma select_leg_Some:
  assumes "select_leg pm event state = Some h"
  shows "h \<in> set (pm_handlers pm)" "hn_event_type h = event" "hn_from_state h = state"
  using assms by (auto simp: select_leg_def find_Some_iff in_set_conv_nth)

lemma nonempty_text_Some [simp]: "nonempty_text t = Some u \<longleftrightarrow> t = u \<and> t \<noteq> []"
  by (simp add: nonempty_text_def)

lemma correlation_nonempty: "correlation_of pm event reference_key = Some c \<Longrightarrow> c \<noteq> []"
  by (auto simp: correlation_of_def bind_eq_Some_conv split: option.splits)

locale reaction_steps =
  fixes env :: "'s cascade_env" and R :: "'s cascade \<Rightarrow> 's cascade \<Rightarrow> bool"
  assumes R_refl: "R st st"
    and R_trans: "R st st' \<Longrightarrow> R st' st'' \<Longrightarrow> R st st''"
    and logged_reaction: "R st (log_reaction flds st)"
    and logged_saga: "R st (log_saga flds st)"
    and crossed: "R st (cross_policy env event policy st)"
    and born:
      "pm \<in> set (tb_managers (ce_tables env)) \<Longrightarrow> c \<noteq> [] \<Longrightarrow> ca_sagas st (pm_name pm, c) = None \<Longrightarrow>
       R st (put_saga (pm_name pm, c) \<lparr>si_state = pm_initial_state pm, si_memory = m, si_completed = []\<rparr> st)"
    and moved:
      "pm \<in> set (tb_managers (ce_tables env)) \<Longrightarrow> h \<in> set (pm_handlers pm) \<Longrightarrow>
       ca_sagas st (pm_name pm, c) = Some inst \<Longrightarrow> hn_from_state h = si_state inst \<Longrightarrow>
       R st (put_saga (pm_name pm, c) (inst\<lparr>si_state := hn_to_state h\<rparr>) st)"
    and recorded:
      "pm \<in> set (tb_managers (ce_tables env)) \<Longrightarrow> h \<in> set (pm_handlers pm) \<Longrightarrow> spec \<in> set (hn_dispatches h) \<Longrightarrow>
       sp_compensates spec = Some undo \<Longrightarrow> ca_sagas st (pm_name pm, c) = Some inst \<Longrightarrow>
       R st (put_saga (pm_name pm, c) (inst\<lparr>si_completed := si_completed inst @ [\<lparr>cc_command = sp_command undo, cc_args = j\<rparr>]\<rparr>) st)"
    and popped:
      "pm \<in> set (tb_managers (ce_tables env)) \<Longrightarrow> ca_sagas st (pm_name pm, c) = Some inst \<Longrightarrow>
       R st (put_saga (pm_name pm, c) (inst\<lparr>si_completed := butlast (si_completed inst)\<rparr>) st)"
    and ended: "R st (st\<lparr>ca_sagas := (ca_sagas st)(key := None)\<rparr>)"
begin

lemma R_order: "reflp R" "transp R"
  using R_refl R_trans by (auto intro!: reflpI transpI)

lemma R_trans_rev: "R st' st'' \<Longrightarrow> R st st' \<Longrightarrow> R st st''"
  by (rule R_trans)

lemmas each_R = each_related [OF R_order]

lemmas steps = R_refl logged_reaction logged_saga crossed

lemma trigger_related:
  "runner_keeps R rerun \<Longrightarrow> trigger rerun policy event depth flds args st = Some st' \<Longrightarrow> R st st'"
  unfolding trigger_def runner_keeps_def by (auto intro: R_trans_rev [OF logged_reaction])

lemma react_policy_related:
  assumes "runner_keeps R rerun" "react_policy env rerun event depth policy st = Some st'"
  shows "R st st'"
proof -
  have "R st st'" if "fan_out env rerun event depth policy query st = Some st'" for query
    using that trigger_related [OF assms(1)]
    by (auto simp: fan_out_def Let_def split: option.splits sum.splits intro: logged_reaction elim!: each_R [rotated])
  then show ?thesis
    using assms unfolding react_policy_def
    by (auto split: if_splits option.splits intro: steps trigger_related)
qed

lemma react_policies_related:
  assumes "runner_keeps R rerun" "react_policies env rerun event depth st = Some st'"
  shows "R st st'"
proof -
  obtain mid where mid: "each (react_policy env rerun event depth) (tb_policies (ce_tables env)) st = Some mid"
      "st' = fold (cross_policy env event) (tb_cross_domain (ce_tables env)) mid"
    using assms(2) by (auto simp: react_policies_def)
  have "R st mid"
    using react_policy_related [OF assms(1)] mid(1) by (rule each_R)
  moreover have "R mid st'"
    unfolding mid(2) by (rule fold_related [OF R_order crossed])
  ultimately show ?thesis by (rule R_trans)
qed

lemma begin_saga_related: "R st (begin_saga env event st)"
  unfolding begin_saga_def
proof (rule fold_related [OF R_order])
  fix pm st assume "pm \<in> set (tb_managers (ce_tables env))"
  then show "R st (begin_one env event pm st)"
    by (auto simp: begin_one_def split: option.splits intro: steps R_trans [OF born] dest: correlation_nonempty)
qed

lemma end_saga_related: "R st (end_saga env event st)"
  unfolding end_saga_def
proof (rule fold_related [OF R_order])
  fix pm st show "R st (end_one env event pm st)"
    by (auto simp: end_one_def split: option.splits intro: steps R_trans [OF ended])
qed

lemma pop_related: "lg_pm leg \<in> set (tb_managers (ce_tables env)) \<Longrightarrow> R st (pop_compensation (leg_key leg) st)"
  by (auto simp: pop_compensation_def leg_key_def split: option.splits intro: steps popped)

lemma deliver_spec_related:
  assumes "runner_keeps R rerun" "lg_pm leg \<in> set (tb_managers (ce_tables env))" "h \<in> set (pm_handlers (lg_pm leg))"
    "spec \<in> set (hn_dispatches h)" "deliver_spec env rerun leg event memory depth spec st = Some (delivered, st')"
  shows "R st st'"
proof (cases "depth \<ge> MAX_REACTION_DEPTH")
  case True
  then show ?thesis using assms(5) by (auto simp: deliver_spec_def deliver_saga_dispatch_def intro: steps)
next
  case False
  define push where "push = push_compensation (leg_key leg) spec (map_option (\<lambda>spec.
    build_dispatch_args (lg_pm leg) spec event (lg_correlation leg) memory (lg_domain_name leg) (ce_tables env)) (sp_compensates spec)) st"
  have pushed: "R st (snd push)"
    using assms(2-4) by (auto simp: push_def push_compensation_def leg_key_def split: option.splits intro: steps recorded)
  obtain verb args corr outcome mid where
      mid: "rerun verb args None None corr (depth + 1) (snd push) = Some (outcome, mid)"
    and st': "st' = log_saga (dispatch_fields leg (sp_command spec) @ outcome_fields outcome)
        (if fst push \<and> \<not> is_ok outcome then pop_compensation (leg_key leg) mid else mid)"
    using assms(5) False
    by (auto simp: deliver_spec_def deliver_saga_dispatch_def Let_def push_def [symmetric] split: prod.splits)
  have "R (snd push) mid" using assms(1) mid by (auto simp: runner_keeps_def)
  moreover have "R mid st'"
    unfolding st' by (rule R_trans [OF _ logged_saga]) (auto intro: steps pop_related [OF assms(2)])
  ultimately show ?thesis using pushed R_trans by blast
qed

lemma derived_related:
  "runner_keeps R rerun \<Longrightarrow> deliver_derived_compensation rerun leg entry depth st = Some st' \<Longrightarrow> R st st'"
  unfolding deliver_derived_compensation_def Let_def runner_keeps_def
  by (auto split: if_splits intro: steps R_trans [OF _ logged_saga])

lemma drain_related:
  assumes "runner_keeps R rerun" "lg_pm leg \<in> set (tb_managers (ce_tables env))" "drain rerun leg depth fuel st = Some st'"
  shows "R st st'"
  using assms(3)
proof (induction fuel arbitrary: st)
  case (Suc fuel)
  then show ?case
    using R_trans [OF pop_related [OF assms(2)]] R_trans [OF derived_related [OF assms(1)]]
    by (fastforce simp: bind_eq_Some_conv split: option.splits if_splits intro: R_refl)
qed simp

lemma move_related:
  "pm \<in> set (tb_managers (ce_tables env)) \<Longrightarrow> h \<in> set (pm_handlers pm) \<Longrightarrow>
   ca_sagas st (pm_name pm, c) = Some inst \<Longrightarrow> hn_from_state h = si_state inst \<Longrightarrow> R st (move_saga pm on c h st)"
  unfolding move_saga_def by (rule R_trans [OF _ logged_saga]) (auto split: option.splits intro: steps moved)

lemma compensate_related:
  assumes "runner_keeps R rerun" "lg_pm leg \<in> set (tb_managers (ce_tables env))"
    "compensate env rerun fuel leg event memory depth st = Some st'"
  shows "R st st'"
proof -
  have "R st st'" if h: "h \<in> set (pm_handlers (lg_pm leg))"
    and inst: "ca_sagas st (leg_key leg) = Some inst" "hn_from_state h = si_state inst"
    and drained: "drain rerun leg depth fuel (move_saga (lg_pm leg) REFUSED (lg_correlation leg) h st) = Some mid"
    and legs: "each (\<lambda>spec st. map_option snd (deliver_spec env rerun leg event memory depth spec st)) (hn_dispatches h) mid = Some st'"
    for h mid inst
  proof -
    have "R mid st'"
      using deliver_spec_related [OF assms(1,2) h] legs by (elim each_R [rotated]) auto
    then show ?thesis
      using move_related [OF assms(2) h inst(1) [unfolded leg_key_def] inst(2)] drain_related [OF assms(1,2) drained] R_trans
      by blast
  qed
  then show ?thesis
    using assms(3) select_leg_Some
    by (fastforce simp: compensate_def Let_def not_advanced_def bind_eq_Some_conv split: option.splits if_splits intro: steps)
qed

lemma run_leg_related:
  assumes "runner_keeps R rerun" "lg_pm leg \<in> set (tb_managers (ce_tables env))" "h \<in> set (pm_handlers (lg_pm leg))"
    "run_leg env rerun fuel leg event memory depth h st = Some st'"
  shows "R st st'"
proof -
  obtain refused mid where mid: "each (\<lambda>spec (refused, st).
      map_option (\<lambda>(delivered, st). (refused \<or> delivered = Some False, st))
        (deliver_spec env rerun leg event memory depth spec st)) (hn_dispatches h) (False, st) = Some (refused, mid)"
    "if refused then compensate env rerun fuel leg event memory depth mid = Some st' else st' = mid"
    using assms(4) by (auto simp: run_leg_def bind_eq_Some_conv split: if_splits)
  have "R (snd (False, st)) (snd (refused, mid))"
  proof (rule each_related [where R = "\<lambda>p q. R (snd p) (snd q)", OF _ _ _ mid(1)])
    show "reflp (\<lambda>p q. R (snd p) (snd q))" "transp (\<lambda>p q. R (snd p) (snd q))"
      using R_refl R_trans by (auto intro!: reflpI transpI)
  qed (use deliver_spec_related [OF assms(1-3)] in auto)
  moreover have "R mid st'"
    using mid(2) compensate_related [OF assms(1,2)] by (auto split: if_splits intro: R_refl)
  ultimately show ?thesis using R_trans by simp
qed

lemma advance_one_related:
  assumes "runner_keeps R rerun" and pm: "pm \<in> set (tb_managers (ce_tables env))"
    and adv: "advance_one env rerun fuel event depth pm st = Some st'"
  shows "R st st'"
proof -
  have "R st st'" if "h \<in> set (pm_handlers pm)" "ca_sagas st (pm_name pm, c) = Some inst" "hn_from_state h = si_state inst"
    and "run_leg env rerun fuel \<lparr>lg_pm = pm, lg_correlation = c, lg_domain_name = d\<rparr> event m depth h
      (move_saga pm (ev_name event) c h st) = Some st'" for h c d m inst
    using R_trans [OF move_related [OF pm that(1-3)] run_leg_related [OF assms(1) _ _ that(4)]] pm that(1) by simp
  then show "R st st'"
    using adv select_leg_Some
    by (fastforce simp: advance_one_def not_advanced_def split: option.splits if_splits intro: steps)
qed

lemma advance_saga_related:
  assumes "runner_keeps R rerun" "advance_saga env rerun fuel event depth st = Some st'"
  shows "R st st'"
  using assms(2) unfolding advance_saga_def by (rule each_R [rotated]) (rule advance_one_related [OF assms(1)])

lemma react_related:
  assumes "runner_keeps R rerun" "react env rerun fuel depth event st = Some st'"
  shows "R st st'"
proof -
  obtain s1 s2 where s: "react_policies env rerun event depth st = Some s1"
      "advance_saga env rerun fuel event depth (begin_saga env event s1) = Some s2" "st' = end_saga env event s2"
    using assms(2) by (auto simp: react_def bind_eq_Some_conv)
  have "R st s1" "R s1 (begin_saga env event s1)" "R (begin_saga env event s1) s2" "R s2 st'"
    using s assms(1) react_policies_related begin_saga_related advance_saga_related end_saga_related by blast+
  then show ?thesis using R_trans by blast
qed

end

locale cascade_steps = reaction_steps +
  assumes dispatched:
      "ce_dispatch env (ca_store st) verb args role actor (ca_mutations st) = (outcome, store, mutations) \<Longrightarrow>
       R st (st\<lparr>ca_store := store, ca_mutations := mutations,
         ca_all_events := ca_all_events st @
           (case outcome of Inl _ \<Rightarrow> [] | Inr events \<Rightarrow> map (stamped corr (ce_occurred_at env)) events)\<rparr>)"
begin

lemma run_respects: "runner_keeps R (run env fuel)"
proof (induction fuel)
  case (Suc fuel)
  have "R st st'" if r: "run env (Suc fuel) verb args role actor corr depth st = Some (outcome, st')"
    for verb args role actor corr depth st outcome st'
  proof -
    define args' where "args' = (case enrich (ce_needs env) verb args (ce_occurred_at env) of None \<Rightarrow> args | Some enriched \<Rightarrow> enriched)"
    obtain result store mutations where d:
        "ce_dispatch env (ca_store st) verb args' role actor (ca_mutations st) = (result, store, mutations)"
      by (cases "ce_dispatch env (ca_store st) verb args' role actor (ca_mutations st)") auto
    define mid where "mid = st\<lparr>ca_store := store, ca_mutations := mutations, ca_all_events := ca_all_events st @
      (case result of Inl _ \<Rightarrow> [] | Inr events \<Rightarrow> map (stamped corr (ce_occurred_at env)) events)\<rparr>"
    have "R st mid" unfolding mid_def using d by (rule dispatched)
    moreover have "R mid st'"
    proof (cases result)
      case (Inl e)
      then have "st' = mid" using r d by (auto simp: run.simps args'_def Let_def mid_def)
      then show ?thesis using R_refl by simp
    next
      case (Inr events)
      then have "each (react env (run env fuel) (Suc fuel) depth) (map (stamped corr (ce_occurred_at env)) events) mid = Some st'"
        using r d by (auto simp: run.simps args'_def Let_def mid_def)
      then show ?thesis
        by (rule each_R [rotated]) (rule react_related [OF Suc.IH])
    qed
    ultimately show ?thesis by (rule R_trans)
  qed
  then show ?case unfolding runner_keeps_def by blast
qed (simp add: runner_keeps_def run.simps)

lemma run_related: "run env fuel verb args role actor corr depth st = Some (outcome, st') \<Longrightarrow> R st st'"
  using run_respects unfolding runner_keeps_def by blast

end

section \<open>Fuel\<close>

text \<open>More fuel never changes a result.\<close>

definition runner_le :: "'s runner \<Rightarrow> 's runner \<Rightarrow> bool" where
  "runner_le rerun rerun' \<longleftrightarrow>
     (\<forall>verb args role actor corr depth st result.
        rerun verb args role actor corr depth st = Some result \<longrightarrow> rerun' verb args role actor corr depth st = Some result)"

lemma each_mono:
  assumes "\<And>x st st'. x \<in> set xs \<Longrightarrow> body x st = Some st' \<Longrightarrow> body' x st = Some st'" "each body xs st = Some st'"
  shows "each body' xs st = Some st'"
  using assms
proof (induction xs arbitrary: st)
  case (Cons x xs)
  then show ?case by (auto simp: bind_eq_Some_conv)
qed simp

lemma trigger_mono:
  "runner_le rerun rerun' \<Longrightarrow> trigger rerun policy event depth flds args st = Some st' \<Longrightarrow>
   trigger rerun' policy event depth flds args st = Some st'"
  unfolding trigger_def runner_le_def by fastforce

lemma react_policies_mono:
  assumes "runner_le rerun rerun'" "react_policies env rerun event depth st = Some st'"
  shows "react_policies env rerun' event depth st = Some st'"
proof -
  have "fan_out env rerun' event depth policy query st = Some st'"
    if "fan_out env rerun event depth policy query st = Some st'" for policy query st st'
    using that trigger_mono [OF assms(1)]
    by (auto simp: fan_out_def Let_def split: option.splits sum.splits elim!: each_mono [rotated])
  then have "react_policy env rerun' event depth policy st = Some st'"
    if "react_policy env rerun event depth policy st = Some st'" for policy st st'
    using that trigger_mono [OF assms(1)] by (auto simp: react_policy_def split: if_splits option.splits)
  then have "each (react_policy env rerun' event depth) policies st = Some st'"
    if "each (react_policy env rerun event depth) policies st = Some st'" for policies st st'
    using that by (rule each_mono)
  then show ?thesis
    using assms(2) by (auto simp: react_policies_def)
qed

lemma deliver_spec_mono:
  assumes "runner_le rerun rerun'" "deliver_spec env rerun leg event memory depth spec st = Some result"
  shows "deliver_spec env rerun' leg event memory depth spec st = Some result"
  using assms unfolding deliver_spec_def deliver_saga_dispatch_def Let_def runner_le_def
  by (fastforce split: if_splits prod.splits)

lemma drain_mono:
  assumes "runner_le rerun rerun'" "drain rerun leg depth fuel st = Some st'" "fuel \<le> fuel'"
  shows "drain rerun' leg depth fuel' st = Some st'"
  using assms(2,3)
proof (induction fuel arbitrary: st fuel')
  case (Suc fuel)
  have "deliver_derived_compensation rerun' leg entry depth st = Some st'"
    if "deliver_derived_compensation rerun leg entry depth st = Some st'" for entry st st'
    using that assms(1) unfolding deliver_derived_compensation_def Let_def runner_le_def
    by (fastforce split: if_splits)
  moreover obtain n where "fuel' = Suc n" "fuel \<le> n" using Suc.prems(2) by (cases fuel') auto
  ultimately show ?case
    using Suc.prems(1) Suc.IH by (auto simp: bind_eq_Some_conv split: option.splits if_splits)
qed simp

lemma compensate_mono:
  assumes "runner_le rerun rerun'" "compensate env rerun fuel leg event memory depth st = Some st'" "fuel \<le> fuel'"
  shows "compensate env rerun' fuel' leg event memory depth st = Some st'"
proof -
  have "each (\<lambda>spec st. map_option snd (deliver_spec env rerun' leg event memory depth spec st)) specs st = Some st'"
    if "each (\<lambda>spec st. map_option snd (deliver_spec env rerun leg event memory depth spec st)) specs st = Some st'" for specs st
    using that deliver_spec_mono [OF assms(1)] by (fastforce elim!: each_mono [rotated])
  then show ?thesis
    using assms(2) drain_mono [OF assms(1) _ assms(3)]
    by (auto simp: compensate_def Let_def bind_eq_Some_conv split: option.splits if_splits)
qed

lemma run_leg_mono:
  assumes "runner_le rerun rerun'" "run_leg env rerun fuel leg event memory depth h st = Some st'" "fuel \<le> fuel'"
  shows "run_leg env rerun' fuel' leg event memory depth h st = Some st'"
proof -
  let ?step = "\<lambda>rerun spec (refused, st). map_option (\<lambda>(delivered, st). (refused \<or> delivered = Some False, st))
    (deliver_spec env rerun leg event memory depth spec st)"
  have "each (?step rerun') specs p = Some q" if "each (?step rerun) specs p = Some q" for specs p q
    using that deliver_spec_mono [OF assms(1)] by (fastforce elim!: each_mono [rotated])
  then show ?thesis
    using assms(2) compensate_mono [OF assms(1) _ assms(3)]
    by (fastforce simp: run_leg_def bind_eq_Some_conv split: if_splits)
qed

lemma react_mono:
  assumes "runner_le rerun rerun'" "react env rerun fuel depth event st = Some st'" "fuel \<le> fuel'"
  shows "react env rerun' fuel' depth event st = Some st'"
proof -
  have "advance_one env rerun' fuel' event depth pm st = Some st'"
    if "advance_one env rerun fuel event depth pm st = Some st'" for pm st st'
    using that run_leg_mono [OF assms(1) _ assms(3)] by (auto simp: advance_one_def split: if_splits option.splits)
  then have "advance_saga env rerun' fuel' event depth st = Some st'"
    if "advance_saga env rerun fuel event depth st = Some st'" for st st'
    using that unfolding advance_saga_def by (rule each_mono)
  then show ?thesis
    using assms(2) react_policies_mono [OF assms(1)] by (fastforce simp: react_def bind_eq_Some_conv)
qed

lemma run_mono_Suc: "runner_le (run env fuel) (run env (Suc fuel))"
proof (induction fuel)
  case (Suc fuel)
  have "each (react env (run env (Suc fuel)) (Suc (Suc fuel)) depth) events st = Some st'"
    if "each (react env (run env fuel) (Suc fuel) depth) events st = Some st'" for depth events st st'
    using that react_mono [OF Suc.IH, where fuel = "Suc fuel" and fuel' = "Suc (Suc fuel)"] by (fastforce elim!: each_mono [rotated])
  then show ?case
    unfolding runner_le_def run.simps(2) [of env "Suc fuel"] run.simps(2) [of env fuel] Let_def
    by (fastforce split: prod.splits sum.splits)
qed (simp add: runner_le_def run.simps)

lemma run_mono:
  assumes "run env fuel verb args role actor corr depth st = Some result" "fuel \<le> fuel'"
  shows "run env fuel' verb args role actor corr depth st = Some result"
  using assms(2,1) by (induction rule: dec_induct) (auto simp: run_mono_Suc [unfolded runner_le_def, rule_format])

end
