(* ===== verification/Cascade_Samples.thy ===== *)
theory Cascade_Samples
  imports Cascade
begin

text \<open>
  Two small domains for the cascade. In the first an order reserves stock and is billed: the billing
  is refused and the reservation is compensated. In the second the compensation's own event makes the
  manager dispatch, and record, the compensated command again.
\<close>

definition sample_event :: "string \<Rightarrow> event" where
  "sample_event name =
     \<lparr>ev_name = name, ev_aggregate = ''Shop::Order'', ev_id = ''o1'', ev_payload = J_Object [(''order'', J_Str ''o1'')],
      ev_occurred_at = None, ev_correlation = None\<rparr>"

text \<open>The store counts accepted commands; \<open>Bill\<close> is refused, and an event carries its command's name.\<close>

definition sample_dispatch ::
    "nat \<Rightarrow> string \<Rightarrow> json \<Rightarrow> string option \<Rightarrow> string option \<Rightarrow> mutation_record list \<Rightarrow> event list res \<times> nat \<times> mutation_record list" where
  "sample_dispatch store verb args role actor mutations =
     (if verb = ''Shop::Order.Bill'' then (Inl (GivenNotMet ''no funds''), store, mutations)
      else if verb = ''Shop::Order.Hold'' then (Inr [], store + 1, mutations)
      else (Inr [sample_event verb], store + 1, mutations))"

definition hold :: "bool \<Rightarrow> dispatch_spec" where
  "hold compensated = Dispatch_Spec ''Order.Hold'' [] (if compensated then Some (Dispatch_Spec ''Order.Unhold'' [] None) else None)"

definition bill :: dispatch_spec where
  "bill = Dispatch_Spec ''Order.Bill'' [] None"

definition sample_manager :: "bool \<Rightarrow> handler list \<Rightarrow> process_manager" where
  "sample_manager compensated further =
     \<lparr>pm_name = ''Fulfilment'', pm_correlates_by = ''order'', pm_starts_on = ''Shop::Order.Place'', pm_ends_on = ''Shop::Order.Ship'',
      pm_initial_state = ''new'',
      pm_handlers =
        [\<lparr>hn_event_type = ''Shop::Order.Place'', hn_from_state = ''new'', hn_to_state = ''open'', hn_dispatches = [hold compensated, bill]\<rparr>,
         \<lparr>hn_event_type = REFUSED, hn_from_state = ''open'', hn_to_state = ''closing'', hn_dispatches = []\<rparr>] @ further\<rparr>"

definition sample_tables :: "process_manager \<Rightarrow> tables" where
  "sample_tables pm =
     \<lparr>tb_policies = [], tb_cross_domain = [], tb_managers = [pm], tb_reference_key = (\<lambda>_. None), tb_queries = [],
      tb_command_creates = (\<lambda>_. True), tb_identity_head = (\<lambda>_. None), tb_command_attributes = (\<lambda>_. []),
      tb_entity_identity_head = (\<lambda>_. None)\<rparr>"

definition sample_env :: "process_manager \<Rightarrow> nat cascade_env" where
  "sample_env pm =
     \<lparr>ce_dispatch = sample_dispatch, ce_scan = (\<lambda>_ _. None), ce_tables = sample_tables pm,
      ce_occurred_at = Some ''2024-02-29T00:00:00Z'',
      ce_needs = \<lparr>ne_table = [], ne_defaults = [], ne_query_table = [], ne_fixed_clock = None, ne_asker = None, ne_system_clock = 0\<rparr>,
      ce_engine = (\<lambda>_ _ _ _. Inl [])\<rparr>"

definition at_rest :: "nat cascade" where
  "at_rest = \<lparr>ca_store = 0, ca_sagas = Map.empty, ca_all_events = [], ca_mutations = [], ca_cross_domain = [],
     ca_reaction_log = [], ca_saga_log = []\<rparr>"

text \<open>The second domain: the compensation's event puts the order on hold again.\<close>

definition hold_again :: handler where
  "hold_again = \<lparr>hn_event_type = ''Shop::Order.Unhold'', hn_from_state = ''closing'', hn_to_state = ''closing'',
     hn_dispatches = [hold True]\<rparr>"

definition placed :: "(unit res \<times> nat cascade) option" where
  "placed = run (sample_env (sample_manager True [])) 7 ''Shop::Order.Place'' (J_Object []) None None None 0 at_rest"

text \<open>Placing the order: four dispatches, three of them accepted, and the saga ends up closing.\<close>

lemma placed_result:
  "\<exists>outcome st'. run (sample_env (sample_manager True [])) 7 ''Shop::Order.Place'' (J_Object []) None None None 0 at_rest = Some (outcome, st') \<and>
    ca_store st' = 3 \<and> map_option si_state (ca_sagas st' (''Fulfilment'', ''o1'')) = Some ''closing''"
proof -
  have "case placed of None \<Rightarrow> False
    | Some (outcome, st') \<Rightarrow> ca_store st' = 3 \<and> map_option si_state (ca_sagas st' (''Fulfilment'', ''o1'')) = Some ''closing''"
    by code_simp
  then show ?thesis by (auto simp: placed_def split: option.splits)
qed

end
