(* ===== verification/Cascade_Behaviour.thy ===== *)
theory Cascade_Behaviour
  imports Cascade_Laws Cascade_Samples
begin

text \<open>
  The laws of \<open>Cascade_Laws\<close> on concrete relations: logs only grow and carry the moment of the
  cascade, a saga moves along its declared legs, a refused leg leaves no trace, nothing is dispatched
  below the reaction depth, and a cascade without root policies and compensations ends.
\<close>

section \<open>Logs\<close>

definition logs_grow :: "'s cascade_env \<Rightarrow> 's cascade \<Rightarrow> 's cascade \<Rightarrow> bool" where
  "logs_grow env st st' \<longleftrightarrow>
     (\<exists>new. ca_all_events st' = ca_all_events st @ new \<and>
       (ce_occurred_at env \<noteq> None \<longrightarrow> list_all (\<lambda>event. ev_occurred_at event = ce_occurred_at env) new)) \<and>
     (\<exists>new. ca_reaction_log st' = ca_reaction_log st @ new) \<and>
     (\<exists>new. ca_saga_log st' = ca_saga_log st @ new) \<and>
     (\<exists>new. ca_cross_domain st' = ca_cross_domain st @ new)"

lemma logs_grow_trans: "logs_grow env st st' \<Longrightarrow> logs_grow env st' st'' \<Longrightarrow> logs_grow env st st''"
  unfolding logs_grow_def by (elim conjE exE) (auto intro!: exI)

lemma logs_grow_same:
  "ca_all_events st' = ca_all_events st \<Longrightarrow> ca_reaction_log st' = ca_reaction_log st @ r \<Longrightarrow>
   ca_saga_log st' = ca_saga_log st @ s \<Longrightarrow> ca_cross_domain st' = ca_cross_domain st @ x \<Longrightarrow> logs_grow env st st'"
  by (simp add: logs_grow_def)

lemma stamped_moment [simp]: "ev_occurred_at (stamped corr (Some ts) event) = Some ts"
  by (simp add: stamped_def Let_def)

interpretation logs: cascade_steps env "logs_grow env" for env :: "'s cascade_env"
proof (unfold_locales, goal_cases)
  case 2
  then show ?case by (rule logs_grow_trans)
next
  case (11 st verb args role actor outcome store mutations corr)
  then show ?case by (auto simp: logs_grow_def list_all_iff split: sum.split)
qed (auto intro!: logs_grow_same simp: log_reaction_def log_saga_def put_saga_def cross_policy_def)

text \<open>
  A cascade only appends. Whatever reactions it sets off, the event log, the reaction log, the saga
  log and the pending cross-domain reactions keep what they held and grow at the end; and when the
  host gave a moment, every event the cascade adds carries it.
\<close>

theorem cascade_appends:
  assumes "run env fuel verb args role actor corr depth st = Some (outcome, st')"
  shows "(\<exists>events. ca_all_events st' = ca_all_events st @ events \<and>
      (\<forall>ts event. ce_occurred_at env = Some ts \<and> event \<in> set events \<longrightarrow> ev_occurred_at event = Some ts)) \<and>
    (\<exists>reactions. ca_reaction_log st' = ca_reaction_log st @ reactions) \<and>
    (\<exists>sagas. ca_saga_log st' = ca_saga_log st @ sagas) \<and>
    (\<exists>pending. ca_cross_domain st' = ca_cross_domain st @ pending)"
  using logs.run_related [OF assms] by (auto simp: logs_grow_def list_all_iff)

theorem cascade_appends_witness:
  "\<exists>outcome st'. run (sample_env (sample_manager True [])) 7 ''Shop::Order.Place'' (J_Object []) None None None 0 at_rest = Some (outcome, st') \<and>
    ca_store st' = 3 \<and> (\<exists>sagas. ca_saga_log st' = ca_saga_log at_rest @ sagas)"
  using placed_result cascade_appends [of "sample_env (sample_manager True [])" 7 "''Shop::Order.Place''" "J_Object []" None None None 0 at_rest]
  by blast

section \<open>States of a saga\<close>

definition leg_of :: "'s cascade_env \<Rightarrow> string \<Rightarrow> string \<Rightarrow> string \<Rightarrow> bool" where
  "leg_of env name s t \<longleftrightarrow>
     (\<exists>pm\<in>set (tb_managers (ce_tables env)). pm_name pm = name \<and>
       (\<exists>h\<in>set (pm_handlers pm). hn_from_state h = s \<and> hn_to_state h = t))"

definition born_in :: "'s cascade_env \<Rightarrow> string \<Rightarrow> string \<Rightarrow> bool" where
  "born_in env name s \<longleftrightarrow> (\<exists>pm\<in>set (tb_managers (ce_tables env)). pm_name pm = name \<and> pm_initial_state pm = s)"

text \<open>An instance afterwards was there before or was born with a correlation, and moved along legs since.\<close>

definition saga_moves :: "'s cascade_env \<Rightarrow> 's cascade \<Rightarrow> 's cascade \<Rightarrow> bool" where
  "saga_moves env st st' \<longleftrightarrow>
     (\<forall>name c inst'. ca_sagas st' (name, c) = Some inst' \<longrightarrow>
       (\<exists>inst. ca_sagas st (name, c) = Some inst \<and> (leg_of env name)\<^sup>*\<^sup>* (si_state inst) (si_state inst')) \<or>
       c \<noteq> [] \<and> (\<exists>s. born_in env name s \<and> (leg_of env name)\<^sup>*\<^sup>* s (si_state inst')))"

lemma saga_moves_same: "ca_sagas st' = ca_sagas st \<Longrightarrow> saga_moves env st st'"
  by (auto simp: saga_moves_def)

lemma saga_moves_trans:
  assumes "saga_moves env st st'" "saga_moves env st' st''"
  shows "saga_moves env st st''"
  unfolding saga_moves_def
proof (intro allI impI)
  fix name c inst'' assume "ca_sagas st'' (name, c) = Some inst''"
  then consider (before) inst' where "ca_sagas st' (name, c) = Some inst'" "(leg_of env name)\<^sup>*\<^sup>* (si_state inst') (si_state inst'')"
    | (born) s where "c \<noteq> []" "born_in env name s" "(leg_of env name)\<^sup>*\<^sup>* s (si_state inst'')"
    using assms(2) unfolding saga_moves_def by blast
  then show "(\<exists>inst. ca_sagas st (name, c) = Some inst \<and> (leg_of env name)\<^sup>*\<^sup>* (si_state inst) (si_state inst'')) \<or>
      c \<noteq> [] \<and> (\<exists>s. born_in env name s \<and> (leg_of env name)\<^sup>*\<^sup>* s (si_state inst''))"
  proof cases
    case before
    then have "(\<exists>inst. ca_sagas st (name, c) = Some inst \<and> (leg_of env name)\<^sup>*\<^sup>* (si_state inst) (si_state inst')) \<or>
        c \<noteq> [] \<and> (\<exists>s. born_in env name s \<and> (leg_of env name)\<^sup>*\<^sup>* s (si_state inst'))"
      using assms(1) by (simp add: saga_moves_def)
    with before(2) show ?thesis by (blast intro: rtranclp_trans)
  qed blast
qed

lemma saga_moves_put:
  assumes "(\<exists>old. ca_sagas st (name, c) = Some old \<and> (leg_of env name)\<^sup>*\<^sup>* (si_state old) (si_state inst)) \<or>
    c \<noteq> [] \<and> (\<exists>s. born_in env name s \<and> (leg_of env name)\<^sup>*\<^sup>* s (si_state inst))"
  shows "saga_moves env st (put_saga (name, c) inst st)"
  using assms by (auto simp: saga_moves_def put_saga_def)

interpretation moves: cascade_steps env "saga_moves env" for env :: "'s cascade_env"
proof (unfold_locales, goal_cases)
  case 2
  then show ?case by (rule saga_moves_trans)
next
  case (6 pm c st m)
  then show ?case by (intro saga_moves_put) (auto simp: born_in_def)
next
  case (7 pm h st c inst)
  then have "leg_of env (pm_name pm) (si_state inst) (hn_to_state h)"
    by (auto simp: leg_of_def)
  with 7 show ?case by (intro saga_moves_put) auto
next
  case (8 pm h spec undo st c inst j)
  then show ?case by (intro saga_moves_put) auto
next
  case (9 pm st c inst)
  then show ?case by (intro saga_moves_put) auto
next
  case (10 st key)
  then show ?case by (auto simp: saga_moves_def)
qed (auto intro!: saga_moves_same simp: log_reaction_def log_saga_def cross_policy_def)

text \<open>
  C6: a saga follows its declaration. Whatever a cascade does, an instance found afterwards under a
  process manager's name either was there before or was born, under a non-empty correlation, in the
  manager's initial state; and its state is reached from that start along declared legs only.
\<close>

theorem saga_follows_legs:
  assumes "run env fuel verb args role actor corr depth st = Some (outcome, st')"
    and "ca_sagas st' (name, c) = Some inst'"
  shows "(\<exists>inst. ca_sagas st (name, c) = Some inst \<and> (leg_of env name)\<^sup>*\<^sup>* (si_state inst) (si_state inst')) \<or>
    c \<noteq> [] \<and> (\<exists>s. born_in env name s \<and> (leg_of env name)\<^sup>*\<^sup>* s (si_state inst'))"
  using moves.run_related [OF assms(1)] assms(2) by (simp add: saga_moves_def)

theorem saga_follows_legs_witness:
  "\<exists>outcome st' inst'. run (sample_env (sample_manager True [])) 7 ''Shop::Order.Place'' (J_Object []) None None None 0 at_rest = Some (outcome, st') \<and>
    ca_sagas st' (''Fulfilment'', ''o1'') = Some inst' \<and>
    (\<exists>s. born_in (sample_env (sample_manager True [])) ''Fulfilment'' s \<and>
      (leg_of (sample_env (sample_manager True [])) ''Fulfilment'')\<^sup>*\<^sup>* s (si_state inst'))"
proof -
  obtain outcome st' inst' where run: "run (sample_env (sample_manager True [])) 7 ''Shop::Order.Place'' (J_Object []) None None None 0 at_rest = Some (outcome, st')"
      "ca_sagas st' (''Fulfilment'', ''o1'') = Some inst'"
    using placed_result by auto
  with saga_follows_legs [OF run] show ?thesis by (auto simp: at_rest_def)
qed

section \<open>The reaction depth\<close>

definition untouched :: "'s cascade \<Rightarrow> 's cascade \<Rightarrow> bool" where
  "untouched st st' \<longleftrightarrow>
     ca_store st' = ca_store st \<and> ca_mutations st' = ca_mutations st \<and> ca_all_events st' = ca_all_events st"

interpretation still: reaction_steps env untouched for env :: "'s cascade_env"
  by unfold_locales (auto simp: untouched_def log_reaction_def log_saga_def put_saga_def cross_policy_def)

definition no_root_policies :: "'s cascade_env \<Rightarrow> bool" where
  "no_root_policies env \<longleftrightarrow> list_all (\<lambda>policy. \<not> pr_root policy) (tb_policies (ce_tables env))"

lemma each_cong: "(\<And>x st. x \<in> set xs \<Longrightarrow> f x st = g x st) \<Longrightarrow> each f xs st = each g xs st"
  by (induction xs arbitrary: st) (auto cong: Option.bind_cong)

lemma deep_drain:
  "MAX_REACTION_DEPTH \<le> depth \<Longrightarrow> drain rerun leg depth fuel st = drain rerun' leg depth fuel st"
  by (induction fuel arbitrary: st)
    (auto simp: deliver_derived_compensation_def Let_def cong: Option.bind_cong split: option.split)

lemma deep_compensate:
  assumes "MAX_REACTION_DEPTH \<le> depth"
  shows "compensate env rerun fuel leg event memory depth st = compensate env rerun' fuel leg event memory depth st"
proof -
  have "each (\<lambda>spec st. map_option snd (deliver_spec env rerun leg event memory depth spec st)) specs =
      each (\<lambda>spec st. map_option snd (deliver_spec env rerun' leg event memory depth spec st)) specs" for specs
    using assms by (intro ext each_cong) (simp add: deliver_spec_def deliver_saga_dispatch_def)
  moreover have "drain rerun leg depth fuel = drain rerun' leg depth fuel"
    using deep_drain [OF assms] by blast
  ultimately show ?thesis
    by (simp only: compensate_def)
qed

lemma deep_react:
  assumes "MAX_REACTION_DEPTH \<le> depth" "no_root_policies env"
  shows "react env rerun fuel depth event st = react env rerun' fuel depth event st"
proof -
  have "react_policies env rerun event depth st = react_policies env rerun' event depth st" for st
    unfolding react_policies_def using assms
    by (intro arg_cong [where f = "map_option _"] each_cong) (auto simp: react_policy_def no_root_policies_def list_all_iff)
  moreover have "run_leg env rerun fuel leg event memory depth h st = run_leg env rerun' fuel leg event memory depth h st" for leg memory h st
  proof -
    have "each (\<lambda>spec (refused, st). map_option (\<lambda>(delivered, st). (refused \<or> delivered = Some False, st))
          (deliver_spec env rerun leg event memory depth spec st)) specs =
        each (\<lambda>spec (refused, st). map_option (\<lambda>(delivered, st). (refused \<or> delivered = Some False, st))
          (deliver_spec env rerun' leg event memory depth spec st)) specs" for specs
      using assms(1) by (intro ext each_cong) (auto simp: deliver_spec_def deliver_saga_dispatch_def)
    moreover have "compensate env rerun fuel leg event memory depth = compensate env rerun' fuel leg event memory depth"
      using deep_compensate [OF assms(1)] by blast
    ultimately show ?thesis
      by (simp only: run_leg_def)
  qed
  then have "advance_one env rerun fuel event depth pm st = advance_one env rerun' fuel event depth pm st" for pm st
    by (simp add: advance_one_def cong: option.case_cong)
  then have "advance_saga env rerun fuel event depth st = advance_saga env rerun' fuel event depth st" for st
    unfolding advance_saga_def by (intro each_cong)
  ultimately show ?thesis by (simp add: react_def)
qed

lemma deep_react_still:
  assumes "MAX_REACTION_DEPTH \<le> depth" "no_root_policies env" "react env rerun fuel depth event st = Some st'"
  shows "untouched st st'"
proof (rule still.react_related)
  show "runner_keeps untouched (\<lambda>_ _ _ _ _ _ _. None)"
    by (simp add: runner_keeps_def)
  show "react env (\<lambda>_ _ _ _ _ _ _. None) fuel depth event st = Some st'"
    using assms(3) deep_react [OF assms(1,2)] by metis
qed

text \<open>
  C34: reactions stop at the reaction depth. Without root policies, a dispatch that runs at depth
  \<open>MAX_REACTION_DEPTH\<close> or deeper is the only one of its cascade: the store and the mutation records
  afterwards are those it left, and the events added are its own.
\<close>

theorem reactions_stop_at_depth:
  assumes "MAX_REACTION_DEPTH \<le> depth" "no_root_policies env"
    and "run env fuel verb args role actor corr depth st = Some (outcome, st')"
  shows "\<exists>args' result. ce_dispatch env (ca_store st) verb args' role actor (ca_mutations st) = (result, ca_store st', ca_mutations st') \<and>
    (case result of
       Inl refusal \<Rightarrow> outcome = Inl refusal \<and> ca_all_events st' = ca_all_events st
     | Inr events \<Rightarrow> outcome = Inr () \<and> ca_all_events st' = ca_all_events st @ map (stamped corr (ce_occurred_at env)) events)"
proof -
  obtain n where n: "fuel = Suc n" using assms(3) by (cases fuel) (auto simp: run.simps)
  define args' where "args' = (case enrich (ce_needs env) verb args (ce_occurred_at env) of None \<Rightarrow> args | Some enriched \<Rightarrow> enriched)"
  obtain result store mutations where d:
      "ce_dispatch env (ca_store st) verb args' role actor (ca_mutations st) = (result, store, mutations)"
    by (cases "ce_dispatch env (ca_store st) verb args' role actor (ca_mutations st)") auto
  show ?thesis
  proof (cases result)
    case (Inl e)
    then show ?thesis using assms(3) d by (intro exI [of _ args'] exI [of _ result]) (auto simp: n run.simps args'_def)
  next
    case (Inr events)
    then have e: "each (react env (run env n) (Suc n) depth) (map (stamped corr (ce_occurred_at env)) events)
        (st\<lparr>ca_store := store, ca_mutations := mutations,
          ca_all_events := ca_all_events st @ map (stamped corr (ce_occurred_at env)) events\<rparr>) = Some st'"
      and "outcome = Inr ()"
      using assms(3) d by (auto simp: n run.simps args'_def Let_def)
    have "untouched (st\<lparr>ca_store := store, ca_mutations := mutations,
          ca_all_events := ca_all_events st @ map (stamped corr (ce_occurred_at env)) events\<rparr>) st'"
      using still.each_R [OF deep_react_still [OF assms(1,2)] e] .
    with Inr d \<open>outcome = Inr ()\<close> show ?thesis
      by (intro exI [of _ args'] exI [of _ result]) (simp add: untouched_def)
  qed
qed

theorem reactions_stop_at_depth_witness:
  "\<exists>outcome st'. run (sample_env (sample_manager True [])) 2 ''Shop::Order.Place'' (J_Object []) None None None 5 at_rest = Some (outcome, st') \<and>
    length (ca_all_events st') = 1"
proof -
  have "case run (sample_env (sample_manager True [])) 2 ''Shop::Order.Place'' (J_Object []) None None None 5 at_rest of
    None \<Rightarrow> False | Some (outcome, st') \<Rightarrow> length (ca_all_events st') = 1 \<and> length (ca_saga_log st') = 4"
    by code_simp
  then obtain outcome st' where run:
      "run (sample_env (sample_manager True [])) 2 ''Shop::Order.Place'' (J_Object []) None None None 5 at_rest = Some (outcome, st')"
    by (auto split: option.splits)
  have "MAX_REACTION_DEPTH \<le> 5" "no_root_policies (sample_env (sample_manager True []))"
    by (simp_all add: MAX_REACTION_DEPTH_def no_root_policies_def sample_env_def sample_tables_def)
  then obtain args' result where
      "ce_dispatch (sample_env (sample_manager True [])) (ca_store at_rest) ''Shop::Order.Place'' args' None None (ca_mutations at_rest) =
        (result, ca_store st', ca_mutations st')"
      "case result of Inl refusal \<Rightarrow> outcome = Inl refusal \<and> ca_all_events st' = ca_all_events at_rest
       | Inr events \<Rightarrow> outcome = Inr () \<and> ca_all_events st' = ca_all_events at_rest @
           map (stamped None (ce_occurred_at (sample_env (sample_manager True [])))) events"
    using reactions_stop_at_depth [OF _ _ run] by blast
  then show ?thesis
    using run by (auto simp: sample_env_def sample_dispatch_def at_rest_def)
qed

section \<open>A refused leg\<close>

lemma run_refused:
  assumes "run env fuel verb args role actor corr depth st = Some (Inl refusal, st')"
  shows "\<exists>args' store mutations.
    ce_dispatch env (ca_store st) verb args' role actor (ca_mutations st) = (Inl refusal, store, mutations) \<and>
    st' = st\<lparr>ca_store := store, ca_mutations := mutations\<rparr>"
  using assms by (cases fuel) (auto simp: run.simps Let_def split: prod.splits sum.splits)

lemma pop_pushed:
  assumes "push_compensation key spec compensation_args st = (True, st')"
  shows "pop_compensation key (st'\<lparr>ca_store := store, ca_mutations := mutations\<rparr>) = st\<lparr>ca_store := store, ca_mutations := mutations\<rparr>"
proof -
  obtain inst entry where "ca_sagas st key = Some inst"
      "st' = put_saga key (inst\<lparr>si_completed := si_completed inst @ [entry]\<rparr>) st"
    using assms by (auto simp: push_compensation_def split: option.splits)
  then show ?thesis
    by (simp add: pop_compensation_def put_saga_def map_upd_triv)
qed

text \<open>
  C7: a refused saga dispatch leaves no trace but its log line. The compensation recorded ahead of the
  attempt is taken back exactly, so the saga instances, the event log, the reaction log and the
  pending reactions are as before; the store and the mutation records are as the refusing dispatch
  left them; and the saga log ends with one line that names the refusal.
\<close>

theorem refused_leg_leaves_no_trace:
  assumes "deliver_saga_dispatch (run env fuel) leg spec args depth compensation_args st = Some (Some False, st')"
  shows "\<exists>args' refusal.
    ce_dispatch env (ca_store st) (qualify_saga_command_name (lg_domain_name leg) (sp_command spec)) args' None None (ca_mutations st) =
      (Inl refusal, ca_store st', ca_mutations st') \<and>
    ca_sagas st' = ca_sagas st \<and> ca_all_events st' = ca_all_events st \<and>
    ca_reaction_log st' = ca_reaction_log st \<and> ca_cross_domain st' = ca_cross_domain st \<and>
    ca_saga_log st' = ca_saga_log st @
      [J_Object (dispatch_fields leg (sp_command spec) @ not_delivered (refusal_message refusal))]"
proof -
  obtain recorded mid where push: "push_compensation (leg_key leg) spec compensation_args st = (recorded, mid)"
    by fastforce
  then have mid: "ca_store mid = ca_store st" "ca_mutations mid = ca_mutations st" "\<not> recorded \<Longrightarrow> mid = st"
    by (auto simp: push_compensation_def put_saga_def split: option.splits)
  obtain refusal after where after:
      "run env fuel (qualify_saga_command_name (lg_domain_name leg) (sp_command spec)) args None None
        (Some (leg_stamp leg)) (depth + 1) mid = Some (Inl refusal, after)"
      "st' = log_saga (dispatch_fields leg (sp_command spec) @ not_delivered (refusal_message refusal))
        (if recorded then pop_compensation (leg_key leg) after else after)"
    using assms push
    by (auto simp: deliver_saga_dispatch_def is_ok_def outcome_fields_def split: if_splits sum.splits)
  obtain args' store mutations where d:
      "ce_dispatch env (ca_store mid) (qualify_saga_command_name (lg_domain_name leg) (sp_command spec)) args' None None
        (ca_mutations mid) = (Inl refusal, store, mutations)"
      "after = mid\<lparr>ca_store := store, ca_mutations := mutations\<rparr>"
    using run_refused [OF after(1)] by blast
  have "st' = log_saga (dispatch_fields leg (sp_command spec) @ not_delivered (refusal_message refusal))
      (st\<lparr>ca_store := store, ca_mutations := mutations\<rparr>)"
    using after(2) d(2) pop_pushed [of "leg_key leg" spec compensation_args st mid] push mid(3) by (cases recorded) simp_all
  then show ?thesis
    using d(1) mid by (intro exI [of _ args'] exI [of _ refusal]) (simp add: log_saga_def)
qed

definition open_order :: "nat cascade" where
  "open_order = put_saga (''Fulfilment'', ''o1'') \<lparr>si_state = ''open'', si_memory = J_Null, si_completed = []\<rparr> at_rest"

definition billing :: "(bool option \<times> nat cascade) option" where
  "billing = deliver_saga_dispatch (run (sample_env (sample_manager True [])) 2)
     \<lparr>lg_pm = sample_manager True [], lg_correlation = ''o1'', lg_domain_name = ''Shop''\<rparr>
     (Dispatch_Spec ''Order.Bill'' [] (Some (Dispatch_Spec ''Order.Unhold'' [] None))) J_Null 0 (Some J_Null) open_order"

theorem refused_leg_leaves_no_trace_witness:
  "\<exists>st'. billing = Some (Some False, st') \<and> ca_sagas st' = ca_sagas open_order \<and> length (ca_saga_log st') = 1"
proof -
  have "case billing of None \<Rightarrow> False | Some (delivered, st') \<Rightarrow> delivered = Some False"
    by code_simp
  then obtain st' where "billing = Some (Some False, st')"
    by (auto split: option.splits)
  with refused_leg_leaves_no_trace [OF this [unfolded billing_def]] show ?thesis
    by (auto simp: open_order_def at_rest_def put_saga_def)
qed

end
