(* ===== verification/Cascade_Termination.thy ===== *)
theory Cascade_Termination
  imports Cascade_Behaviour
begin

text \<open>
  When a cascade ends. Reactions nest at most \<open>MAX_REACTION_DEPTH\<close> deep unless a root policy starts
  again at zero, and the loop that drains compensations ends when nothing is pushed back. Both
  together give a bound on the fuel; without the second the loop can run forever.
\<close>

section \<open>Ledgers without compensations\<close>

definition no_compensations :: "'s cascade_env \<Rightarrow> bool" where
  "no_compensations env \<longleftrightarrow>
     list_all (\<lambda>pm. list_all (\<lambda>h. list_all (\<lambda>spec. sp_compensates spec = None) (hn_dispatches h)) (pm_handlers pm))
       (tb_managers (ce_tables env))"

definition ledger :: "'s cascade \<Rightarrow> saga_key \<Rightarrow> nat" where
  "ledger st key = (case ca_sagas st key of None \<Rightarrow> 0 | Some inst \<Rightarrow> length (si_completed inst))"

definition ledger_shrinks :: "'s cascade_env \<Rightarrow> 's cascade \<Rightarrow> 's cascade \<Rightarrow> bool" where
  "ledger_shrinks env st st' \<longleftrightarrow> no_compensations env \<longrightarrow> (\<forall>key. ledger st' key \<le> ledger st key)"

interpretation shrinks: cascade_steps env "ledger_shrinks env" for env :: "'s cascade_env"
proof (unfold_locales, goal_cases)
  case 2
  then show ?case unfolding ledger_shrinks_def using le_trans by blast
next
  case (8 pm h spec undo st c inst j)
  then show ?case by (force simp: ledger_shrinks_def no_compensations_def list_all_iff)
qed (auto simp: ledger_shrinks_def put_saga_def log_reaction_def log_saga_def cross_policy_def ledger_def split: option.splits)

section \<open>Every part of a cascade ends\<close>

definition within :: "nat \<Rightarrow> 's cascade \<Rightarrow> bool" where
  "within n st \<longleftrightarrow> (\<forall>key. ledger st key \<le> n)"

text \<open>The reactions of a dispatch at \<open>depth\<close> end, when those one deeper do.\<close>

definition ready :: "'s cascade_env \<Rightarrow> nat \<Rightarrow> nat \<Rightarrow> 's runner \<Rightarrow> bool" where
  "ready env n depth rerun \<longleftrightarrow>
     no_root_policies env \<and> no_compensations env \<and> runner_keeps (ledger_shrinks env) rerun \<and>
     (depth < MAX_REACTION_DEPTH \<longrightarrow>
       (\<forall>verb args role actor corr st. within n st \<longrightarrow> rerun verb args role actor corr (depth + 1) st \<noteq> None))"

lemma within_shrinks: "no_compensations env \<Longrightarrow> ledger_shrinks env st st' \<Longrightarrow> within n st \<Longrightarrow> within n st'"
  unfolding ledger_shrinks_def within_def using le_trans by blast

lemma each_ends:
  assumes "\<And>x st. x \<in> set xs \<Longrightarrow> P st \<Longrightarrow> \<exists>st'. body x st = Some st' \<and> P st'" "P st"
  shows "\<exists>st'. each body xs st = Some st' \<and> P st'"
  using assms
proof (induction xs arbitrary: st)
  case (Cons x xs)
  then obtain st' where "body x st = Some st'" "P st'" by fastforce
  with Cons show ?case by simp
qed simp

lemma ready_rerun:
  assumes "ready env n depth rerun" "depth < MAX_REACTION_DEPTH" "within n st"
  shows "\<exists>outcome st'. rerun verb args role actor corr (Suc depth) st = Some (outcome, st')"
  using assms by (auto simp: ready_def)

lemma ready_keeps: "ready env n depth rerun \<Longrightarrow> runner_keeps (ledger_shrinks env) rerun"
  by (simp add: ready_def)

lemma ready_within:
  assumes "ready env n depth rerun" "ledger_shrinks env st st'" "within n st"
  shows "within n st'"
  using assms within_shrinks by (auto simp: ready_def)

lemma trigger_ends:
  assumes "ready env n depth rerun" "depth < MAX_REACTION_DEPTH" "\<not> pr_root policy" "within n st"
  shows "\<exists>st'. trigger rerun policy event depth flds args st = Some st' \<and> within n st'"
proof -
  obtain st' where st': "trigger rerun policy event depth flds args st = Some st'"
    using ready_rerun [OF assms(1,2,4)] assms(3) by (fastforce simp: trigger_def reaction_depth_def)
  with ready_within [OF assms(1) shrinks.trigger_related [OF ready_keeps [OF assms(1)] st'] assms(4)] show ?thesis by blast
qed

lemma react_policies_end:
  assumes r: "ready env n depth rerun" and st: "within n st"
  shows "\<exists>st'. react_policies env rerun event depth st = Some st'"
proof -
  have policies: "\<exists>st'. react_policy env rerun event depth policy st = Some st'"
    if st: "within n st" and "policy \<in> set (tb_policies (ce_tables env))" for policy st
  proof (cases "depth < MAX_REACTION_DEPTH")
    case True
    have root: "\<not> pr_root policy"
      using r that(2) by (auto simp: ready_def no_root_policies_def list_all_iff)
    have "\<exists>st'. fan_out env rerun event depth policy query st = Some st'" for query
    proof -
      have "\<exists>st'. each (\<lambda>(row_id, row). trigger rerun policy event depth (f row_id) (g row_id row)) rows st = Some st' \<and> within n st'"
        for f g and rows :: rows
        by (rule each_ends [where P = "within n", OF _ st]) (auto intro: trigger_ends [OF r True root])
      then have "\<exists>st'. each (\<lambda>(row_id, row). trigger rerun policy event depth (f row_id) (g row_id row)) rows st = Some st'"
        for f g and rows :: rows by blast
      then show ?thesis
        by (simp add: fan_out_def Let_def split: option.split sum.split)
    qed
    with trigger_ends [OF r True root st] True show ?thesis
      by (fastforce simp: react_policy_def split: option.split)
  next
    case False
    have "\<not> pr_root policy"
      using r that(2) by (auto simp: ready_def no_root_policies_def list_all_iff)
    with False show ?thesis by (auto simp: react_policy_def)
  qed
  have "\<exists>st'. each (react_policy env rerun event depth) (tb_policies (ce_tables env)) st = Some st' \<and> within n st'"
    using policies ready_within [OF r shrinks.react_policy_related [OF ready_keeps [OF r]]]
    by (intro each_ends [where P = "within n", OF _ st]) blast
  then show ?thesis by (auto simp: react_policies_def)
qed

lemma deliver_spec_ends:
  assumes r: "ready env n depth rerun" and "within n st" "sp_compensates spec = None"
  shows "\<exists>delivered st'. deliver_spec env rerun leg event memory depth spec st = Some (delivered, st')"
proof (cases "depth < MAX_REACTION_DEPTH")
  case True
  then show ?thesis
    using ready_rerun [OF r True assms(2)] assms(3)
    by (simp add: deliver_spec_def deliver_saga_dispatch_def push_compensation_def)
next
  case False
  then show ?thesis by (simp add: deliver_spec_def deliver_saga_dispatch_def)
qed

lemma derived_ends:
  assumes "ready env n depth rerun" "within n st"
  shows "\<exists>st'. deliver_derived_compensation rerun leg entry depth st = Some st'"
  using ready_rerun [OF assms(1) _ assms(2)]
  by (cases "depth < MAX_REACTION_DEPTH") (auto simp: deliver_derived_compensation_def Let_def)

lemma pop_within: "within n st \<Longrightarrow> within n (pop_compensation key st)"
  by (auto simp: within_def ledger_def pop_compensation_def put_saga_def split: option.splits) (metis diff_le_self le_trans)

lemma drain_ends:
  assumes r: "ready env n depth rerun" and "within n st" "ledger st (leg_key leg) < fuel"
  shows "\<exists>st'. drain rerun leg depth fuel st = Some st'"
  using assms(2,3)
proof (induction fuel arbitrary: st)
  case (Suc fuel)
  show ?case
  proof (cases "ledger st (leg_key leg) = 0")
    case True
    then show ?thesis by (auto simp: ledger_def split: option.splits)
  next
    case False
    then obtain inst where inst: "ca_sagas st (leg_key leg) = Some inst" "si_completed inst \<noteq> []"
      by (auto simp: ledger_def split: option.splits)
    define mid where "mid = pop_compensation (leg_key leg) st"
    have "length (si_completed inst) - 1 < fuel"
      using Suc.prems(2) inst by (cases "si_completed inst") (auto simp: ledger_def)
    then have less: "ledger mid (leg_key leg) < fuel"
      using inst by (simp add: mid_def pop_compensation_def put_saga_def ledger_def)
    have mid: "within n mid"
      unfolding mid_def using Suc.prems(1) by (rule pop_within)
    obtain st' where st': "deliver_derived_compensation rerun leg (last (si_completed inst)) depth mid = Some st'"
      using derived_ends [OF r mid] by blast
    have shrunk: "ledger_shrinks env mid st'"
      using shrinks.derived_related [OF ready_keeps [OF r] st'] .
    then have "ledger st' (leg_key leg) < fuel"
      using r less unfolding ready_def ledger_shrinks_def by (meson le_less_trans)
    with Suc.IH [OF ready_within [OF r shrunk mid]] show ?thesis
      using inst st' by (simp add: mid_def)
  qed
qed simp

lemma declared_spec:
  "ready env n depth rerun \<Longrightarrow> pm \<in> set (tb_managers (ce_tables env)) \<Longrightarrow> h \<in> set (pm_handlers pm) \<Longrightarrow>
   spec \<in> set (hn_dispatches h) \<Longrightarrow> sp_compensates spec = None"
  by (auto simp: ready_def no_compensations_def list_all_iff)

lemma deliver_spec_within:
  assumes r: "ready env n depth rerun" and pm: "lg_pm leg \<in> set (tb_managers (ce_tables env))"
    and h: "h \<in> set (pm_handlers (lg_pm leg))" and spec: "spec \<in> set (hn_dispatches h)" and st: "within n st"
  shows "\<exists>delivered st'. deliver_spec env rerun leg event memory depth spec st = Some (delivered, st') \<and> within n st'"
proof -
  obtain delivered st' where d: "deliver_spec env rerun leg event memory depth spec st = Some (delivered, st')"
    using deliver_spec_ends [OF r st declared_spec [OF r pm h spec]] by blast
  with ready_within [OF r shrinks.deliver_spec_related [OF ready_keeps [OF r] pm h spec d] st] show ?thesis by blast
qed

lemma compensate_ends:
  assumes r: "ready env n depth rerun" and pm: "lg_pm leg \<in> set (tb_managers (ce_tables env))" and st: "within n st" "n < fuel"
  shows "\<exists>st'. compensate env rerun fuel leg event memory depth st = Some st'"
proof -
  have ends: "\<exists>delivered st'. deliver_spec env rerun leg event memory depth spec st = Some (delivered, st') \<and> within n st'"
    if "h \<in> set (pm_handlers (lg_pm leg))" "spec \<in> set (hn_dispatches h)" "within n st" for h spec st
    using that by (rule deliver_spec_within [OF r pm])
  have "\<exists>st'. Option.bind (drain rerun leg depth fuel (move_saga (lg_pm leg) REFUSED (lg_correlation leg) h st))
      (each (\<lambda>spec st. map_option snd (deliver_spec env rerun leg event memory depth spec st)) (hn_dispatches h)) = Some st'"
    if h: "h \<in> set (pm_handlers (lg_pm leg))" and inst: "ca_sagas st (leg_key leg) = Some inst" "hn_from_state h = si_state inst" for h inst
  proof -
    define mid where "mid = move_saga (lg_pm leg) REFUSED (lg_correlation leg) h st"
    have mid: "within n mid"
      unfolding mid_def using shrinks.move_related [OF pm h inst(1) [unfolded leg_key_def] inst(2)] st(1) by (rule ready_within [OF r])
    then have "ledger mid (leg_key leg) < fuel"
      using mid st(2) unfolding within_def by (meson le_less_trans)
    then obtain st' where st': "drain rerun leg depth fuel mid = Some st'"
      using drain_ends [OF r mid] by blast
    have "within n st'"
      using ready_within [OF r shrinks.drain_related [OF ready_keeps [OF r] pm st'] mid] .
    then have "\<exists>st''. each (\<lambda>spec st. map_option snd (deliver_spec env rerun leg event memory depth spec st)) (hn_dispatches h) st' = Some st'' \<and> within n st''"
      by (rule each_ends [where P = "within n", rotated]) (use ends [OF h] in fastforce)
    with st' show ?thesis by (auto simp: mid_def)
  qed
  then show ?thesis
    using select_leg_Some by (fastforce simp: compensate_def Let_def split: option.splits)
qed

lemma run_leg_ends:
  assumes r: "ready env n depth rerun" and pm: "lg_pm leg \<in> set (tb_managers (ce_tables env))"
    and h: "h \<in> set (pm_handlers (lg_pm leg))" and st: "within n st" "n < fuel"
  shows "\<exists>st'. run_leg env rerun fuel leg event memory depth h st = Some st'"
proof -
  let ?step = "\<lambda>spec (refused, st). map_option (\<lambda>(delivered, st). (refused \<or> delivered = Some False, st))
    (deliver_spec env rerun leg event memory depth spec st)"
  have ends: "\<exists>q. ?step spec p = Some q \<and> within n (snd q)" if spec: "spec \<in> set (hn_dispatches h)" and p: "within n (snd p)" for spec p
  proof -
    obtain delivered st' where "deliver_spec env rerun leg event memory depth spec (snd p) = Some (delivered, st')" "within n st'"
      using deliver_spec_within [OF r pm h spec p] by blast
    then show ?thesis by (cases p) simp
  qed
  have "\<exists>q. each ?step (hn_dispatches h) (False, st) = Some q \<and> within n (snd q)"
    using st(1) by (intro each_ends [where P = "\<lambda>q. within n (snd q)"] ends) simp_all
  then obtain refused mid where mid: "each ?step (hn_dispatches h) (False, st) = Some (refused, mid)" "within n mid"
    by auto
  then show ?thesis
    using compensate_ends [OF r pm mid(2) st(2)] by (simp add: run_leg_def mid(1))
qed

lemma react_ends:
  assumes r: "ready env n depth rerun" and st: "within n st" "n < fuel"
  shows "\<exists>st'. react env rerun fuel depth event st = Some st'"
proof -
  have one: "\<exists>st'. advance_one env rerun fuel event depth pm st = Some st'"
    if pm: "pm \<in> set (tb_managers (ce_tables env))" and st': "within n st" for pm st
  proof -
    have "\<exists>st'. run_leg env rerun fuel \<lparr>lg_pm = pm, lg_correlation = c, lg_domain_name = d\<rparr> event m depth h
        (move_saga pm (ev_name event) c h st) = Some st'"
      if h: "h \<in> set (pm_handlers pm)" "ca_sagas st (pm_name pm, c) = Some inst" "hn_from_state h = si_state inst" for h c d m inst
      using run_leg_ends [OF r, of "\<lparr>lg_pm = pm, lg_correlation = c, lg_domain_name = d\<rparr>" h
          "move_saga pm (ev_name event) c h st" fuel event m] pm h(1) st(2)
        ready_within [OF r shrinks.move_related [OF pm h] st'] by simp
    then show ?thesis
      using select_leg_Some by (fastforce simp: advance_one_def split: option.splits)
  qed
  have "\<exists>st'. advance_one env rerun fuel event depth pm st = Some st' \<and> within n st'"
    if "pm \<in> set (tb_managers (ce_tables env))" "within n st" for pm st
    using one [OF that] ready_within [OF r shrinks.advance_one_related [OF ready_keeps [OF r] that(1)] that(2)] by blast
  then have adv: "\<exists>st'. advance_saga env rerun fuel event depth st = Some st' \<and> within n st'" if "within n st" for st
    unfolding advance_saga_def using that by (intro each_ends [where P = "within n"])
  obtain s1 where s1: "react_policies env rerun event depth st = Some s1"
    using react_policies_end [OF r st(1)] by blast
  have "within n (begin_saga env event s1)"
    using ready_within [OF r] shrinks.react_policies_related [OF ready_keeps [OF r] s1] shrinks.begin_saga_related st(1) by blast
  with adv s1 show ?thesis by (auto simp: react_def)
qed

lemma run_ends:
  assumes "no_root_policies env" "no_compensations env"
  shows "within n st \<Longrightarrow> n + 1 + (MAX_REACTION_DEPTH - depth) \<le> fuel \<Longrightarrow>
    \<exists>result. run env fuel verb args role actor corr depth st = Some result"
proof (induction fuel arbitrary: depth verb args role actor corr st)
  case (Suc fuel)
  have "ready env n depth (run env fuel)"
    using assms Suc.IH [where depth = "depth + 1"] Suc.prems(2) shrinks.run_respects
    by (auto simp: ready_def)
  note ends = react_ends [OF this]
  have "\<exists>st'. react env (run env fuel) (Suc fuel) depth event st = Some st' \<and> within n st'" if w: "within n st" for event st
  proof -
    obtain st' where st': "react env (run env fuel) (Suc fuel) depth event st = Some st'"
      using ends [OF w, of "Suc fuel" event] Suc.prems(2) by auto
    with within_shrinks [OF assms(2) shrinks.react_related [OF shrinks.run_respects st'] w] show ?thesis by blast
  qed
  then have "\<exists>st'. each (react env (run env fuel) (Suc fuel) depth) events st = Some st' \<and> within n st'" if "within n st" for events st
    using that by (intro each_ends [where P = "within n"])
  moreover have "within n (st\<lparr>ca_store := store, ca_mutations := mutations, ca_all_events := events\<rparr>)" for store mutations events
    using Suc.prems(1) by (simp add: within_def ledger_def)
  ultimately have "\<exists>st'. each (react env (run env fuel) (Suc fuel) depth) events
      (st\<lparr>ca_store := store, ca_mutations := mutations, ca_all_events := logged\<rparr>) = Some st'" for events store mutations logged
    by blast
  then show ?case
    by (auto simp: run.simps Let_def split: prod.split sum.split)
qed simp

text \<open>
  C5: a cascade ends. With no root policy and no compensation declared, and at most \<open>n\<close> compensations
  in the ledger of any saga, every dispatch returns, at whatever depth, for every store and whatever
  its reactions: fuel \<open>n + 6\<close> gives a result, and more fuel gives the same one.
\<close>

theorem cascade_ends:
  assumes "no_root_policies env" "no_compensations env" "\<forall>key. ledger st key \<le> n"
  shows "\<exists>result. \<forall>fuel \<ge> n + 6. run env fuel verb args role actor corr depth st = Some result"
proof -
  obtain result where "run env (n + 6) verb args role actor corr depth st = Some result"
    using run_ends [OF assms(1,2), of n st depth "n + 6" verb args role actor corr] assms(3)
    by (auto simp: within_def MAX_REACTION_DEPTH_def)
  then show ?thesis using run_mono by blast
qed

theorem cascade_ends_witness:
  "\<exists>result. run (sample_env (sample_manager False [])) 6 ''Shop::Order.Place'' (J_Object []) None None None 0 at_rest = Some result \<and>
    run (sample_env (sample_manager False [])) 1000 ''Shop::Order.Place'' (J_Object []) None None None 0 at_rest = Some result"
proof -
  have "no_root_policies (sample_env (sample_manager False []))" "no_compensations (sample_env (sample_manager False []))"
    by code_simp+
  moreover have "\<forall>key. ledger at_rest key \<le> 0"
    by (simp add: ledger_def at_rest_def)
  ultimately show ?thesis
    using cascade_ends [of "sample_env (sample_manager False [])" at_rest 0 "''Shop::Order.Place''" "J_Object []" None None None 0]
    by fastforce
qed

end
