(* ===== verification/Compensation_Loop.thy ===== *)
theory Compensation_Loop
  imports Cascade_Termination
begin

text \<open>
  The drain loop of \<open>compensate\<close> on the second sample domain: an iteration pushes back the entry it
  popped, so the loop of \<open>rust/src/kernel/orchestrate.rs\<close> does not end.
\<close>

section \<open>A drain that never ends\<close>

definition looping :: "nat cascade_env" where
  "looping = sample_env (sample_manager True [hold_again])"

definition looping_leg :: saga_leg where
  "looping_leg = \<lparr>lg_pm = sample_manager True [hold_again], lg_correlation = ''o1'', lg_domain_name = ''Shop''\<rparr>"

lemma looping_simps [simp]:
  "ce_dispatch looping = sample_dispatch" "tb_managers (ce_tables looping) = [sample_manager True [hold_again]]"
  "tb_policies (ce_tables looping) = []" "tb_cross_domain (ce_tables looping) = []"
  "enrich (ce_needs looping) verb args ts = None"
  "lg_pm looping_leg = sample_manager True [hold_again]" "lg_correlation looping_leg = ''o1''"
  "lg_domain_name looping_leg = ''Shop''" "leg_key looping_leg = (''Fulfilment'', ''o1'')"
  by (simp_all add: looping_def sample_env_def sample_tables_def enrich_def hash_lookup_def looping_leg_def leg_key_def sample_manager_def)

lemma looping_commands [simp]:
  "qualify_saga_command_name ''Shop'' ''Order.Hold'' = ''Shop::Order.Hold''"
  "qualify_saga_command_name ''Shop'' ''Order.Bill'' = ''Shop::Order.Bill''"
  "qualify_saga_command_name ''Shop'' ''Order.Unhold'' = ''Shop::Order.Unhold''"
  by code_simp+

lemma looping_correlation [simp]:
  assumes "ev_payload event = J_Object [(''order'', J_Str ''o1'')]"
  shows "correlation_of (sample_manager c hs) event f = Some ''o1''"
proof -
  have "dig (J_Object [(''order'', J_Str ''o1'')]) ''order'' = Some (J_Str ''o1'')" "id_component (J_Str ''o1'') = Some ''o1''"
    by code_simp+
  then show ?thesis by (simp add: correlation_of_def assms sample_manager_def nonempty_text_def)
qed

lemma stamped_simps [simp]:
  "ev_name (stamped corr ts event) = ev_name event" "ev_payload (stamped corr ts event) = ev_payload event"
  "ev_aggregate (stamped corr ts event) = ev_aggregate event"
  by (simp_all add: stamped_def Let_def split: option.split)

lemma sample_event_simps [simp]:
  "ev_name (sample_event name) = name" "ev_payload (sample_event name) = J_Object [(''order'', J_Str ''o1'')]"
  "ev_aggregate (sample_event name) = ''Shop::Order''"
  by (simp_all add: sample_event_def)

lemma shop [simp]: "hd (split_str ''::'' ''Shop::Order'') = ''Shop''"
  by code_simp

lemma sample_manager_simps [simp]:
  "pm_name (sample_manager c hs) = ''Fulfilment''" "pm_starts_on (sample_manager c hs) = ''Shop::Order.Place''"
  "pm_ends_on (sample_manager c hs) = ''Shop::Order.Ship''" "pm_initial_state (sample_manager c hs) = ''new''"
  by (simp_all add: sample_manager_def)

lemma looping_legs [simp]:
  "select_leg (sample_manager True [hold_again]) ''Shop::Order.Unhold'' ''closing'' = Some hold_again"
  "select_leg (sample_manager True [hold_again]) ''Shop::Order.Place'' ''new'' =
     Some \<lparr>hn_event_type = ''Shop::Order.Place'', hn_from_state = ''new'', hn_to_state = ''open'', hn_dispatches = [hold True, bill]\<rparr>"
  "select_leg (sample_manager True [hold_again]) REFUSED ''open'' =
     Some \<lparr>hn_event_type = REFUSED, hn_from_state = ''open'', hn_to_state = ''closing'', hn_dispatches = []\<rparr>"
  "list_ex (\<lambda>h. hn_event_type h = ''Shop::Order.Unhold'') (pm_handlers (sample_manager True [hold_again]))"
  "list_ex (\<lambda>h. hn_event_type h = ''Shop::Order.Place'') (pm_handlers (sample_manager True [hold_again]))"
  "list_ex (\<lambda>h. hn_event_type h = REFUSED) (pm_handlers (sample_manager True [hold_again]))"
  "hn_to_state hold_again = ''closing''"
  by (simp_all add: select_leg_def sample_manager_def hold_again_def REFUSED_def)

text \<open>One saga instance, in a state and with a ledger of commands.\<close>

definition holds :: "nat cascade \<Rightarrow> string \<Rightarrow> string list \<Rightarrow> bool" where
  "holds st state commands \<longleftrightarrow>
     (\<exists>inst. ca_sagas st (''Fulfilment'', ''o1'') = Some inst \<and> si_state inst = state \<and> map cc_command (si_completed inst) = commands)"

lemma holds_log [simp]: "holds (log_saga flds st) state commands = holds st state commands"
  by (simp add: holds_def log_saga_def)

lemma holds_pop:
  "holds st state commands \<Longrightarrow> holds (pop_compensation (''Fulfilment'', ''o1'') st) state (butlast commands)"
  by (auto simp: holds_def pop_compensation_def put_saga_def map_butlast)

lemma holds_move:
  "holds st state commands \<Longrightarrow> holds (move_saga (sample_manager c hs) on ''o1'' h st) (hn_to_state h) commands"
  by (auto simp: holds_def move_saga_def put_saga_def log_saga_def)

lemma looping_deliver_hold:
  assumes "holds st state commands" "depth < MAX_REACTION_DEPTH"
    "deliver_spec looping (run looping n) looping_leg event memory depth (hold True) st = Some (delivered, st')"
  shows "delivered = Some True \<and> holds st' state (commands @ [''Order.Unhold''])"
  using assms
  by (cases n) (auto simp: deliver_spec_def deliver_saga_dispatch_def push_compensation_def hold_def run.simps
      sample_dispatch_def put_saga_def log_saga_def holds_def)

lemma looping_deliver_bill:
  assumes "holds st state commands" "depth < MAX_REACTION_DEPTH"
    "deliver_spec looping (run looping n) looping_leg event memory depth bill st = Some (delivered, st')"
  shows "delivered = Some False \<and> holds st' state commands"
  using assms
  by (cases n) (auto simp: deliver_spec_def deliver_saga_dispatch_def push_compensation_def bill_def run.simps
      sample_dispatch_def put_saga_def log_saga_def holds_def)

lemma looping_advance:
  assumes "ev_payload event = J_Object [(''order'', J_Str ''o1'')]" "ev_aggregate event = ''Shop::Order''" "holds st state commands"
    "list_ex (\<lambda>h. hn_event_type h = ev_name event) (pm_handlers (sample_manager True [hold_again]))"
    "select_leg (sample_manager True [hold_again]) (ev_name event) state = Some h"
  shows "\<exists>memory. advance_one looping rerun fuel event depth (sample_manager True [hold_again]) st =
    run_leg looping rerun fuel looping_leg event memory depth h (move_saga (sample_manager True [hold_again]) (ev_name event) ''o1'' h st)"
  using assms by (auto simp: advance_one_def holds_def looping_leg_def)

lemma looping_run_hold:
  assumes "holds st state commands" "depth < MAX_REACTION_DEPTH"
    "run_leg looping (run looping n) fuel looping_leg event memory depth hold_again st = Some st'"
  shows "holds st' state (commands @ [''Order.Unhold''])"
  using assms(3) looping_deliver_hold [OF assms(1,2)]
  by (fastforce simp: run_leg_def hold_again_def bind_eq_Some_conv split: if_splits)

lemma looping_unhold:
  assumes "holds st ''closing'' []" "run looping n ''Shop::Order.Unhold'' args None None corr (Suc 0) st = Some (outcome, st')"
  shows "holds st' ''closing'' [''Order.Unhold'']"
proof -
  obtain m where n: "n = Suc m" using assms(2) by (cases n) (auto simp: run.simps)
  define event where "event = stamped corr (ce_occurred_at looping) (sample_event ''Shop::Order.Unhold'')"
  define mid where "mid = st\<lparr>ca_store := Suc (ca_store st), ca_all_events := ca_all_events st @ [event]\<rparr>"
  have mid: "holds mid ''closing'' []" using assms(1) by (simp add: mid_def holds_def)
  have "react looping (run looping m) n (Suc 0) event mid = Some st'"
    using assms(2) by (auto simp: n run.simps sample_dispatch_def event_def mid_def bind_eq_Some_conv)
  then have "advance_one looping (run looping m) n event (Suc 0) (sample_manager True [hold_again]) mid = Some st'"
    by (auto simp: react_def react_policies_def advance_saga_def begin_saga_def begin_one_def end_saga_def end_one_def event_def bind_eq_Some_conv)
  then obtain memory where "run_leg looping (run looping m) n looping_leg event memory (Suc 0) hold_again
      (move_saga (sample_manager True [hold_again]) (ev_name event) ''o1'' hold_again mid) = Some st'"
    using looping_advance [OF _ _ mid, of event hold_again "run looping m" n "Suc 0"] by (auto simp: event_def)
  from looping_run_hold [OF holds_move [OF mid] _ this] show ?thesis by (simp add: MAX_REACTION_DEPTH_def)
qed

lemma looping_drain: "holds st ''closing'' [''Order.Unhold''] \<Longrightarrow> drain (run looping n) looping_leg 0 fuel st = None"
proof (induction fuel arbitrary: st)
  case (Suc fuel)
  then obtain inst entry where inst: "ca_sagas st (''Fulfilment'', ''o1'') = Some inst" "si_completed inst = [entry]"
      "cc_command entry = ''Order.Unhold''"
    by (auto simp: holds_def)
  have popped: "holds (pop_compensation (''Fulfilment'', ''o1'') st) ''closing'' []"
    using holds_pop [OF Suc.prems] by simp
  have "Option.bind (deliver_derived_compensation (run looping n) looping_leg entry 0 (pop_compensation (''Fulfilment'', ''o1'') st))
      (drain (run looping n) looping_leg 0 fuel) = None"
  proof (cases "run looping n ''Shop::Order.Unhold'' (cc_args entry) None None (Some (leg_stamp looping_leg)) (Suc 0)
      (pop_compensation (''Fulfilment'', ''o1'') st)")
    case (Some result)
    then have "holds (snd result) ''closing'' [''Order.Unhold'']"
      using looping_unhold [OF popped, of n _ _ "fst result" "snd result"] by simp
    then show ?thesis
      using Suc.IH Some inst by (cases result) (simp add: deliver_derived_compensation_def MAX_REACTION_DEPTH_def)
  qed (simp add: deliver_derived_compensation_def MAX_REACTION_DEPTH_def inst)
  then show ?case using inst by simp
qed simp

text \<open>
  C35: draining compensations is not bounded by the reaction depth. In a domain whose compensating
  command's event makes the process manager dispatch the compensated command again, the loop pops the
  entry its own iteration pushed back: placing an order there never returns, whatever the fuel.
\<close>

theorem compensation_drain_unbounded:
  "run looping fuel ''Shop::Order.Place'' args role actor corr 0 at_rest = None"
proof (rule ccontr)
  assume "run looping fuel ''Shop::Order.Place'' args role actor corr 0 at_rest \<noteq> None"
  then obtain outcome st' where run: "run looping fuel ''Shop::Order.Place'' args role actor corr 0 at_rest = Some (outcome, st')"
    by auto
  then obtain m where n: "fuel = Suc m" by (cases fuel) (auto simp: run.simps)
  define event where "event = stamped corr (ce_occurred_at looping) (sample_event ''Shop::Order.Place'')"
  define begun where "begun = begin_saga looping event (at_rest\<lparr>ca_store := Suc 0, ca_all_events := [event]\<rparr>)"
  have begun: "holds begun ''new'' []"
    by (simp add: begun_def begin_saga_def begin_one_def event_def at_rest_def holds_def put_saga_def log_saga_def)
  have "react looping (run looping m) fuel 0 event (at_rest\<lparr>ca_store := Suc 0, ca_all_events := [event]\<rparr>) = Some st'"
    using run by (auto simp: n run.simps sample_dispatch_def event_def at_rest_def bind_eq_Some_conv)
  then have "advance_one looping (run looping m) fuel event 0 (sample_manager True [hold_again]) begun = Some st'"
    by (auto simp: react_def react_policies_def advance_saga_def begun_def end_saga_def end_one_def event_def bind_eq_Some_conv)
  then obtain memory h where leg: "run_leg looping (run looping m) fuel looping_leg event memory 0 h
      (move_saga (sample_manager True [hold_again]) (ev_name event) ''o1'' h begun) = Some st'"
      "hn_dispatches h = [hold True, bill]" "hn_to_state h = ''open''"
    using looping_advance [OF _ _ begun, of event _ "run looping m" fuel 0] by (fastforce simp: event_def)
  let ?mid = "move_saga (sample_manager True [hold_again]) (ev_name event) ''o1'' h begun"
  obtain d1 s1 d2 s2 where s1: "deliver_spec looping (run looping m) looping_leg event memory 0 (hold True) ?mid = Some (d1, s1)"
    and s2: "deliver_spec looping (run looping m) looping_leg event memory 0 bill s1 = Some (d2, s2)"
    and after: "(if d1 = Some False \<or> d2 = Some False then compensate looping (run looping m) fuel looping_leg event memory 0 s2 else Some s2) = Some st'"
    using leg(1,2) by (auto simp: run_leg_def bind_eq_Some_conv simp del: if_split_asm)
  have "holds s1 ''open'' [''Order.Unhold'']"
    using looping_deliver_hold [OF holds_move [OF begun] _ s1] leg(3) by (simp add: MAX_REACTION_DEPTH_def)
  then have s2': "d2 = Some False" "holds s2 ''open'' [''Order.Unhold'']"
    using looping_deliver_bill [OF _ _ s2] by (simp_all add: MAX_REACTION_DEPTH_def)
  then obtain h' where "drain (run looping m) looping_leg 0 fuel
      (move_saga (sample_manager True [hold_again]) REFUSED ''o1'' h' s2) \<noteq> None" "hn_to_state h' = ''closing''"
    using after by (fastforce simp: compensate_def holds_def bind_eq_Some_conv)
  with looping_drain holds_move [OF s2'(2)] show False by metis
qed

end
