(* ===== verification/Read_Model.thy ===== *)
theory Read_Model
  imports Named_Query
begin

text \<open>
  \<open>rust/src/kernel/read_model.rs\<close> and \<open>vocab/reducer.rs\<close>: a compiled report. Its heads are scanned, linked
  to the root record, filtered and ordered, and answered as rows, as a reduction or as a grouped
  object. \<open>group_by\<close> is a generated function, a parameter; \<open>None\<close> as a result is the panic of an index
  out of range. Lower-casing a character outside ASCII is a parameter as well.
\<close>

section \<open>Declarations\<close>

record reference_field =
  rf_target_aggregate :: string
  rf_field :: string

record read_model_head =
  mh_aggregate :: string
  mh_as_name :: string
  mh_many :: bool
  mh_is_root :: bool
  mh_reference_fields :: "reference_field list"

record filtered_head =
  fh_as_name :: string
  fh_conditions :: "query_condition list"
  fh_reference_hops :: "reference_hop list"
  fh_order_by :: "order_by option"
  fh_offset :: "limit option"
  fh_limit :: "limit option"

datatype reducer =
    RD_Count | RD_Sum | RD_Avg | RD_Min | RD_Max | RD_Median | RD_Percentile | RD_Any | RD_All

definition all_reducers :: "reducer list" where
  "all_reducers = [RD_Count, RD_Sum, RD_Avg, RD_Min, RD_Max, RD_Median, RD_Percentile, RD_Any, RD_All]"

fun reducer_name :: "reducer \<Rightarrow> string" where
  "reducer_name RD_Count = ''count''"
| "reducer_name RD_Sum = ''sum''"
| "reducer_name RD_Avg = ''avg''"
| "reducer_name RD_Min = ''min''"
| "reducer_name RD_Max = ''max''"
| "reducer_name RD_Median = ''median''"
| "reducer_name RD_Percentile = ''percentile''"
| "reducer_name RD_Any = ''any''"
| "reducer_name RD_All = ''all''"

fun reducer_identity :: "reducer \<Rightarrow> string" where
  "reducer_identity RD_Count = ''0''"
| "reducer_identity RD_Sum = ''0''"
| "reducer_identity RD_Any = ''false''"
| "reducer_identity RD_All = ''true''"
| "reducer_identity _ = ''null''"

fun reducer_combine :: "reducer \<Rightarrow> string" where
  "reducer_combine RD_Count = ''add''"
| "reducer_combine RD_Sum = ''add''"
| "reducer_combine RD_Min = ''min''"
| "reducer_combine RD_Max = ''max''"
| "reducer_combine RD_Any = ''or''"
| "reducer_combine RD_All = ''and''"
| "reducer_combine _ = ''collect''"

fun reducer_inverse :: "reducer \<Rightarrow> string" where
  "reducer_inverse RD_Count = ''subtract''"
| "reducer_inverse RD_Sum = ''subtract''"
| "reducer_inverse _ = []"

definition reducer_from_name :: "string \<Rightarrow> reducer option" where
  "reducer_from_name name = find (\<lambda>r. reducer_name r = name) all_reducers"

datatype reduction =
    Reduce_Count | Reduce_Median string | Reduce_Sum string | Reduce_Avg string | Reduce_Min string | Reduce_Max string
  | Reduce_Percentile string f64 | Reduce_Any string | Reduce_All string

fun reducer_of :: "reduction \<Rightarrow> reducer" where
  "reducer_of Reduce_Count = RD_Count"
| "reducer_of (Reduce_Median _) = RD_Median"
| "reducer_of (Reduce_Sum _) = RD_Sum"
| "reducer_of (Reduce_Avg _) = RD_Avg"
| "reducer_of (Reduce_Min _) = RD_Min"
| "reducer_of (Reduce_Max _) = RD_Max"
| "reducer_of (Reduce_Percentile _ _) = RD_Percentile"
| "reducer_of (Reduce_Any _) = RD_Any"
| "reducer_of (Reduce_All _) = RD_All"

fun reduced_field :: "reduction \<Rightarrow> string option" where
  "reduced_field Reduce_Count = None"
| "reduced_field (Reduce_Median fld) = Some fld"
| "reduced_field (Reduce_Sum fld) = Some fld"
| "reduced_field (Reduce_Avg fld) = Some fld"
| "reduced_field (Reduce_Min fld) = Some fld"
| "reduced_field (Reduce_Max fld) = Some fld"
| "reduced_field (Reduce_Percentile fld _) = Some fld"
| "reduced_field (Reduce_Any fld) = Some fld"
| "reduced_field (Reduce_All fld) = Some fld"

record read_model_def =
  rm_verb :: string
  rm_reference_name :: "string option"
  rm_heads :: "read_model_head list"
  rm_filtered_heads :: "filtered_head list"
  rm_authorization :: "tenant_auth option"
  rm_group_by :: "(rows \<Rightarrow> json res) option"
  rm_reduction :: "reduction option"

section \<open>Reductions\<close>

definition empty_answer :: "reducer \<Rightarrow> json" where
  "empty_answer r =
     (if reducer_identity r = ''true'' then J_Bool True
      else if reducer_identity r = ''false'' then J_Bool False
      else case parse_f64 (reducer_identity r) of None \<Rightarrow> J_Null | Some v \<Rightarrow> J_Num v None)"

text \<open>The values of a field, reduced to comparable scalars; an absent field gives none.\<close>

definition field_values :: "rows \<Rightarrow> string \<Rightarrow> json list" where
  "field_values rows fld = map comparable (List.map_filter (\<lambda>(key, row). json_get row fld) rows)"

definition present_values :: "rows \<Rightarrow> string \<Rightarrow> json list" where
  "present_values rows fld = filter (\<lambda>v. v \<noteq> J_Null) (field_values rows fld)"

definition holds_no_value :: "rows \<Rightarrow> string \<Rightarrow> bool" where
  "holds_no_value rows fld = list_all (\<lambda>v. v = J_Null) (field_values rows fld)"

definition sorted_values :: "rows \<Rightarrow> string \<Rightarrow> json list" where
  "sorted_values rows fld = sort_by (\<lambda>a b. float_cmp (number_of a) (number_of b)) (present_values rows fld)"

text \<open>\<open>x.floor() as usize\<close>: zero below zero and for NaN, saturating above.\<close>

fun floor_usize :: "f64 \<Rightarrow> nat" where
  "floor_usize F_NaN = 0"
| "floor_usize (F_Inf s) = (if s then 0 else 2 ^ 64 - 1)"
| "floor_usize (F_Fin s m e) = (if s then 0 else nat (min (trunc_mag m e) (2 ^ 64 - 1)))"

definition nth_checked :: "'a list \<Rightarrow> nat \<Rightarrow> 'a option" where
  "nth_checked xs i = (if i < length xs then Some (xs ! i) else None)"

definition percentile :: "rows \<Rightarrow> string \<Rightarrow> f64 \<Rightarrow> json option" where
  "percentile rows fld at =
     (let values = sorted_values rows fld
      in if values = [] then Some J_Null
         else let position = f64_mul at (f64_of_int (int (length values - 1)));
                  lower = floor_usize position;
                  fraction = f64_sub position (f64_of_int (int lower))
              in if f64_eq fraction f64_zero then nth_checked values lower
                 else Option.bind (nth_checked values lower) (\<lambda>lo. Option.bind (nth_checked values (lower + 1)) (\<lambda>hi.
                   Some (J_Float (f64_add (number_of lo) (f64_mul fraction (f64_sub (number_of hi) (number_of lo))))))))"

definition one_half :: f64 where
  "one_half = round_ratio False 1 2"

definition median :: "rows \<Rightarrow> string \<Rightarrow> json option" where
  "median rows fld = percentile rows fld one_half"

definition sum_field :: "rows \<Rightarrow> string \<Rightarrow> json" where
  "sum_field rows fld = J_Num (foldl (\<lambda>acc v. f64_add acc (number_of v)) f64_zero (present_values rows fld)) None"

text \<open>\<open>Iterator::sum\<close> on \<open>f64\<close> starts at negative zero.\<close>

definition avg :: "rows \<Rightarrow> string \<Rightarrow> json" where
  "avg rows fld =
     (let values = map number_of (present_values rows fld)
      in if values = [] then J_Null
         else J_Float (f64_div (foldl f64_add (f64_neg f64_zero) values) (f64_of_int (int (length values)))))"

definition extreme :: "rows \<Rightarrow> string \<Rightarrow> bool \<Rightarrow> json" where
  "extreme rows fld want_max =
     (let values = sorted_values rows fld
      in if values = [] then J_Null else if want_max then last values else hd values)"

definition boolean_reduce :: "rows \<Rightarrow> string \<Rightarrow> bool \<Rightarrow> json" where
  "boolean_reduce rows fld want_all =
     (let values = List.map_filter json_as_bool (field_values rows fld)
      in J_Bool (if want_all then list_all (\<lambda>b. b) values else list_ex (\<lambda>b. b) values))"

definition reduce :: "rows \<Rightarrow> reduction \<Rightarrow> json option" where
  "reduce rows reduction =
     (if (case reduced_field reduction of None \<Rightarrow> False | Some fld \<Rightarrow> holds_no_value rows fld)
      then Some (empty_answer (reducer_of reduction))
      else (case reduction of
         Reduce_Count \<Rightarrow> Some (J_Num (f64_of_int (int (length rows))) None)
       | Reduce_Median fld \<Rightarrow> median rows fld
       | Reduce_Sum fld \<Rightarrow> Some (sum_field rows fld)
       | Reduce_Avg fld \<Rightarrow> Some (avg rows fld)
       | Reduce_Min fld \<Rightarrow> Some (extreme rows fld False)
       | Reduce_Max fld \<Rightarrow> Some (extreme rows fld True)
       | Reduce_Percentile fld at \<Rightarrow> percentile rows fld at
       | Reduce_Any fld \<Rightarrow> Some (boolean_reduce rows fld False)
       | Reduce_All fld \<Rightarrow> Some (boolean_reduce rows fld True)))"

section \<open>Grouping\<close>

datatype leaf_check = Identity_Covered | Refuse_Collision string

datatype leaf = Leaf_Row leaf_check | Leaf_Reduce reduction

definition row_id :: "json \<Rightarrow> string" where
  "row_id row = (case json_get row ''id'' of None \<Rightarrow> [] | Some v \<Rightarrow> to_s v)"

definition leaf_pairs :: "json list \<Rightarrow> rows" where
  "leaf_pairs grouped = map (\<lambda>row. (row_id row, row)) grouped"

definition group_key :: "string \<Rightarrow> json \<Rightarrow> json" where
  "group_key fld row = (case row of J_Object pairs \<Rightarrow> or_null (map_of pairs fld) | _ \<Rightarrow> J_Null)"

definition strip_field :: "string \<Rightarrow> json \<Rightarrow> json" where
  "strip_field fld row = (case row of J_Object pairs \<Rightarrow> J_Object (filter (\<lambda>(k, v). k \<noteq> fld) pairs) | other \<Rightarrow> other)"

fun add_to_group :: "json \<Rightarrow> json \<Rightarrow> (json \<times> json list) list \<Rightarrow> (json \<times> json list) list" where
  "add_to_group key row [] = [(key, [row])]"
| "add_to_group key row ((k, grouped) # groups) =
     (if json_eq k key then (k, grouped @ [row]) # groups else (k, grouped) # add_to_group key row groups)"

definition group_rows :: "string \<Rightarrow> json list \<Rightarrow> (json \<times> json list) list" where
  "group_rows fld rows = fold (\<lambda>row. add_to_group (group_key fld row) (strip_field fld row)) rows []"

definition leaf_row :: "json list \<Rightarrow> string list \<Rightarrow> leaf_check \<Rightarrow> (string \<times> json) list \<Rightarrow> json res" where
  "leaf_row grouped all_fields check path =
     (case check of
        Refuse_Collision read_model \<Rightarrow>
          if length grouped > 1
          then Inl (InvariantViolation (InvariantViolationGroupByCollisionArgs_render read_model all_fields (map row_id grouped)
                 (str_join '', '' (map (\<lambda>(fld, v). fld @ '' = '' @ to_s v) path))))
          else Inr (or_null (List.find (\<lambda>_. True) grouped))
      | Identity_Covered \<Rightarrow> Inr (or_null (List.find (\<lambda>_. True) grouped)))"

fun answer_groups :: "(json \<Rightarrow> json list \<Rightarrow> json res option) \<Rightarrow> (json \<times> json list) list \<Rightarrow> (string \<times> json) list res option" where
  "answer_groups answer [] = Some (Inr [])"
| "answer_groups answer ((key, grouped) # groups) =
     Option.bind (answer key grouped) (\<lambda>r. case r of
        Inl e \<Rightarrow> Some (Inl e)
      | Inr v \<Rightarrow> map_option (\<lambda>rest. rbind rest (\<lambda>out. Inr ((to_s key, v) # out))) (answer_groups answer groups))"

fun nest_level :: "json list \<Rightarrow> string list \<Rightarrow> string list \<Rightarrow> leaf \<Rightarrow> (string \<times> json) list \<Rightarrow> json res option" where
  "nest_level rows all_fields [] answer reached =
     Some (Inl (Fault (''nest called with empty fields '' @ em_dash @
       '' read_model_skip_reason should refuse a group_by with none'')))"
| "nest_level rows all_fields (fld # rest) answer reached =
     map_option (\<lambda>out. rbind out (\<lambda>out. Inr (J_Object out)))
       (answer_groups (\<lambda>key grouped.
          let path = reached @ [(fld, key)]
          in if rest = []
             then (case answer of
                     Leaf_Row check \<Rightarrow> Some (leaf_row grouped all_fields check path)
                   | Leaf_Reduce reduction \<Rightarrow> map_option Inr (reduce (leaf_pairs grouped) reduction))
             else nest_level grouped all_fields rest answer path)
          (group_rows fld rows))"

definition nest :: "json list \<Rightarrow> string list \<Rightarrow> leaf_check \<Rightarrow> json res option" where
  "nest rows names check = nest_level rows names names (Leaf_Row check) []"

definition nest_reduced :: "json list \<Rightarrow> string list \<Rightarrow> reduction \<Rightarrow> json res option" where
  "nest_reduced rows names reduction = nest_level rows names names (Leaf_Reduce reduction) []"

section \<open>Finding a read model\<close>

definition ascii_between :: "int \<Rightarrow> int \<Rightarrow> string \<Rightarrow> bool" where
  "ascii_between lo hi ch = (case ch of [c] \<Rightarrow> lo \<le> of_char c \<and> of_char c \<le> hi | _ \<Rightarrow> False)"

text \<open>The two word boundaries: before the last capital of a run, and before a capital after a small letter or digit.\<close>

definition word_boundary :: "string \<Rightarrow> string \<Rightarrow> string list \<Rightarrow> bool" where
  "word_boundary prev c rest \<longleftrightarrow>
     ascii_between 65 90 c \<and>
     (ascii_between 65 90 prev \<and> (case rest of [] \<Rightarrow> False | n # _ \<Rightarrow> ascii_between 97 122 n) \<or>
      ascii_between 97 122 prev \<or> ascii_between 48 57 prev)"

fun snake_chars :: "string option \<Rightarrow> string list \<Rightarrow> string list" where
  "snake_chars prev [] = []"
| "snake_chars prev (c # rest) =
     (if (case prev of None \<Rightarrow> False | Some p \<Rightarrow> word_boundary p c rest) then [''_'', c] else [c]) @ snake_chars (Some c) rest"

definition lowercase :: "(string \<Rightarrow> string) \<Rightarrow> string \<Rightarrow> string" where
  "lowercase lower ch = (case ch of [c] \<Rightarrow> [ascii_lower c] | _ \<Rightarrow> lower ch)"

definition to_snake :: "(string \<Rightarrow> string) \<Rightarrow> string \<Rightarrow> string" where
  "to_snake lower name = concat (map (lowercase lower) (snake_chars None (utf8_chars name)))"

definition matches_snake_alias :: "(string \<Rightarrow> string) \<Rightarrow> string \<Rightarrow> string \<Rightarrow> bool" where
  "matches_snake_alias lower declared_verb asked =
     (case (split_once ''.'' declared_verb, split_once ''.'' asked) of
        (Some (domain, name), Some (asked_domain, asked_name)) \<Rightarrow> domain = asked_domain \<and> to_snake lower name = asked_name
      | _ \<Rightarrow> False)"

definition find_read_model :: "(string \<Rightarrow> string) \<Rightarrow> read_model_def list \<Rightarrow> string \<Rightarrow> read_model_def option" where
  "find_read_model lower table verb =
     List.find (\<lambda>def. rm_verb def = verb \<or> matches_snake_alias lower (rm_verb def) verb) table"

section \<open>Running a read model\<close>

type_synonym projected = "(string \<times> rows) list"

definition fetch_root :: "aggregate_scan \<Rightarrow> read_model_head \<Rightarrow> string \<Rightarrow> (string \<times> json) res" where
  "fetch_root store head reference_id =
     rbind (scan_known store (mh_aggregate head)) (\<lambda>entries.
       case map_of entries reference_id of
         Some r \<Rightarrow> Inr (reference_id, r)
       | None \<Rightarrow>
           let bare = (case rsplit_once ''::'' (mh_aggregate head) of None \<Rightarrow> mh_aggregate head | Some (_, name) \<Rightarrow> name)
           in Inl (NotFound (NotFoundReadModelReferenceMissingArgs_render bare (debug_str reference_id))))"

definition record_matches :: "json \<Rightarrow> read_model_head \<Rightarrow> projected \<Rightarrow> bool" where
  "record_matches r head projected =
     list_ex (\<lambda>rf.
       case Option.bind (json_get r (rf_field rf)) json_as_str of
         None \<Rightarrow> False
       | Some held_id \<Rightarrow>
           list_ex (\<lambda>(aggregate, rows). aggregate = rf_target_aggregate rf \<and> list_ex (\<lambda>(key, _). key = held_id) rows) projected)
       (mh_reference_fields head)"

definition scan_matching :: "aggregate_scan \<Rightarrow> read_model_head \<Rightarrow> projected \<Rightarrow> rows" where
  "scan_matching store head projected =
     (case store (mh_aggregate head) of
        None \<Rightarrow> []
      | Some entries \<Rightarrow> sort_by_id (filter (\<lambda>(key, r). record_matches r head projected) entries))"

definition apply_filtered_head_options :: "rows \<Rightarrow> filtered_head \<Rightarrow> json \<Rightarrow> aggregate_scan \<Rightarrow> rows res" where
  "apply_filtered_head_options rows filtered args store =
     rbind (apply_reference_hops
         (fold (\<lambda>c rows. filter_entries rows (qc_field c) (qc_comparator c) (resolve_value (qc_value c) args)) (fh_conditions filtered) rows)
         (fh_reference_hops filtered) args store)
       (\<lambda>rows. Inr (apply_ordering rows (fh_order_by filtered) (fh_offset filtered) (fh_limit filtered) args))"

definition head_rows ::
    "aggregate_scan \<Rightarrow> read_model_def \<Rightarrow> json \<Rightarrow> string option \<Rightarrow> read_model_head \<Rightarrow> projected \<Rightarrow> rows res" where
  "head_rows store def args reference_id head projected =
     rbind (case reference_id of
         None \<Rightarrow> Inr (case store (mh_aggregate head) of None \<Rightarrow> [] | Some entries \<Rightarrow> entries)
       | Some key \<Rightarrow>
           if mh_is_root head then rbind (fetch_root store head key) (\<lambda>row. Inr [row])
           else Inr (scan_matching store head projected))
       (\<lambda>rows. case List.find (\<lambda>fh. fh_as_name fh = mh_as_name head) (rm_filtered_heads def) of
          None \<Rightarrow> Inr rows
        | Some filtered \<Rightarrow> apply_filtered_head_options rows filtered args store)"

text \<open>The loop over the heads, root first: what is projected so far and each name's rows.\<close>

fun project_heads ::
    "aggregate_scan \<Rightarrow> read_model_def \<Rightarrow> json \<Rightarrow> string option \<Rightarrow> read_model_head list \<Rightarrow> projected \<times> (string \<rightharpoonup> bool \<times> rows) \<Rightarrow>
     (projected \<times> (string \<rightharpoonup> bool \<times> rows)) res" where
  "project_heads store def args reference_id [] st = Inr st"
| "project_heads store def args reference_id (head # heads) (projected, by_as) =
     rbind (head_rows store def args reference_id head projected) (\<lambda>rows.
       project_heads store def args reference_id heads
         (projected @ [(mh_aggregate head, rows)], by_as(mh_as_name head \<mapsto> (mh_many head, rows))))"

definition root_first :: "read_model_head list \<Rightarrow> read_model_head list" where
  "root_first heads = filter mh_is_root heads @ filter (\<lambda>head. \<not> mh_is_root head) heads"

definition grouped_head :: "read_model_def \<Rightarrow> string \<Rightarrow> bool" where
  "grouped_head def as_name \<longleftrightarrow>
     rm_group_by def \<noteq> None \<and> list_ex (\<lambda>head. mh_many head \<and> mh_as_name head = as_name) (rm_heads def)"

definition head_value :: "read_model_def \<Rightarrow> string \<Rightarrow> bool \<Rightarrow> rows \<Rightarrow> json res option" where
  "head_value def as_name many rows =
     (if grouped_head def as_name
      then (case rm_group_by def of
              None \<Rightarrow> Some (Inl (Fault ''grouped_heads is only ever populated when def.group_by is Some''))
            | Some group_by \<Rightarrow> Some (group_by rows))
      else (case (rm_reduction def, many) of
              (Some reduction, True) \<Rightarrow> map_option Inr (reduce rows reduction)
            | (None, True) \<Rightarrow> Some (Inr (J_Array (map (\<lambda>(key, r). row_json key r) rows)))
            | (_, False) \<Rightarrow> Some (Inr (case rows of [] \<Rightarrow> J_Null | (key, r) # _ \<Rightarrow> row_json key r))))"

fun answer_heads ::
    "read_model_def \<Rightarrow> read_model_head list \<Rightarrow> (string \<rightharpoonup> bool \<times> rows) \<Rightarrow> (string \<times> json) list res option" where
  "answer_heads def [] by_as = Some (Inr [])"
| "answer_heads def (head # heads) by_as =
     (case by_as (mh_as_name head) of
        None \<Rightarrow> Some (Inl (Fault (''every head in def.heads was computed in the loop above '' @ em_dash @
          '' as_name is unique per read model (ReadModelBuilder#add_aggregate_head)'')))
      | Some (many, rows) \<Rightarrow>
          Option.bind (head_value def (mh_as_name head) many rows) (\<lambda>r. case r of
             Inl e \<Rightarrow> Some (Inl e)
           | Inr v \<Rightarrow>
               map_option (\<lambda>rest. rbind rest (\<lambda>out. Inr ((mh_as_name head, v) # out)))
                 (answer_heads def heads (by_as(mh_as_name head := None)))))"

definition reference_argument :: "read_model_def \<Rightarrow> json \<Rightarrow> string option res" where
  "reference_argument def args =
     (case rm_reference_name def of
        None \<Rightarrow> Inr None
      | Some name \<Rightarrow>
          rbind (ok_or (TypeMismatch (rm_verb def @ '': missing reference argument '' @ debug_str name))
            (Option.bind (json_get args name) json_as_str)) (\<lambda>key. Inr (Some key)))"

definition run_read_model :: "aggregate_scan \<Rightarrow> read_model_def \<Rightarrow> json \<Rightarrow> json res option" where
  "run_read_model store def args =
     (case rbind (reference_argument def args) (\<lambda>reference_id.
           rbind (tenant_check (rm_authorization def) args) (\<lambda>_.
             project_heads store def args reference_id (root_first (rm_heads def)) ([], Map.empty))) of
        Inl e \<Rightarrow> Some (Inl e)
      | Inr (_, by_as) \<Rightarrow> map_option (\<lambda>out. rbind out (\<lambda>out. Inr (J_Object out))) (answer_heads def (rm_heads def) by_as))"

end
