(* ===== verification/Read_Model_Laws.thy ===== *)
theory Read_Model_Laws
  imports Read_Model "HOL-Library.Multiset"
begin

text \<open>
  What a compiled report promises. A rooted report shows only records linked to the root it was asked
  about, directly or through records already shown; and a grouped answer holds every row exactly once,
  under the path of its own group values.
\<close>

section \<open>Rows stay rows\<close>

lemma set_sort_by_id [simp]: "set (sort_by_id rows) = set rows"
  by (simp add: sort_by_id_def)

lemma set_filter_entries: "set (filter_entries rows fld c want) \<subseteq> set rows"
  by (auto simp: filter_entries_def filter_entries_cross_domain_def)

lemma set_apply_declared_order: "set (apply_declared_order rows ob) \<subseteq> set rows"
  by (auto simp: apply_declared_order_def Let_def split: nulls_mode.splits if_splits)

lemma set_apply_ordering: "set (apply_ordering rows order offset lim args) \<subseteq> set rows"
proof -
  let ?ordered = "case order of None \<Rightarrow> sort_by_id rows | Some ob \<Rightarrow> apply_declared_order (sort_by_id rows) ob"
  have "set ?ordered \<subseteq> set rows"
    using set_apply_declared_order [of "sort_by_id rows"] by (auto split: option.splits)
  then show ?thesis
    by (auto simp: apply_ordering_def Let_def split: option.splits dest!: in_set_takeD in_set_dropD)
qed

lemma set_conditions: "set (fold (\<lambda>c rows. filter_entries rows (qc_field c) (qc_comparator c) (resolve_value (qc_value c) args)) cs rows) \<subseteq> set rows"
proof (induction cs arbitrary: rows)
  case (Cons c cs)
  show ?case
    using Cons.IH [of "filter_entries rows (qc_field c) (qc_comparator c) (resolve_value (qc_value c) args)"]
      set_filter_entries [of rows] by fastforce
qed simp

lemma set_reference_hops: "apply_reference_hops rows hops args store = Inr rows' \<Longrightarrow> set rows' \<subseteq> set rows"
proof (induction hops arbitrary: rows)
  case (Cons hop hops)
  then show ?case using set_filter_entries by fastforce
qed simp

lemma set_filtered_head: "apply_filtered_head_options rows fh args store = Inr rows' \<Longrightarrow> set rows' \<subseteq> set rows"
  unfolding apply_filtered_head_options_def
  using set_conditions set_reference_hops set_apply_ordering by (fastforce dest!: subsetD)

section \<open>Records linked to the root\<close>

inductive linked :: "aggregate_scan \<Rightarrow> read_model_head list \<Rightarrow> string \<Rightarrow> string \<Rightarrow> string \<times> json \<Rightarrow> bool"
  for store heads root_id where
  linked_root: "\<lbrakk>head \<in> set heads; mh_is_root head; store (mh_aggregate head) = Some entries;
      map_of entries root_id = Some r\<rbrakk> \<Longrightarrow> linked store heads root_id (mh_aggregate head) (root_id, r)"
| linked_by: "\<lbrakk>head \<in> set heads; store (mh_aggregate head) = Some entries; (key, r) \<in> set entries;
      rf \<in> set (mh_reference_fields head); json_get r (rf_field rf) = Some (J_Str held);
      linked store heads root_id (rf_target_aggregate rf) (held, owner)\<rbrakk> \<Longrightarrow>
    linked store heads root_id (mh_aggregate head) (key, r)"

definition rows_linked :: "aggregate_scan \<Rightarrow> read_model_head list \<Rightarrow> string \<Rightarrow> string \<Rightarrow> rows \<Rightarrow> bool" where
  "rows_linked store heads root_id aggregate rows = (\<forall>row\<in>set rows. linked store heads root_id aggregate row)"

definition projection_linked :: "aggregate_scan \<Rightarrow> read_model_head list \<Rightarrow> string \<Rightarrow> projected \<Rightarrow> bool" where
  "projection_linked store heads root_id projected =
     (\<forall>(aggregate, rows)\<in>set projected. rows_linked store heads root_id aggregate rows)"

lemma json_as_str_Some [simp]: "json_as_str j = Some s \<longleftrightarrow> j = J_Str s"
  by (cases j) auto

lemma fetch_root_linked:
  "\<lbrakk>fetch_root store head root_id = Inr row; head \<in> set heads; mh_is_root head\<rbrakk> \<Longrightarrow>
   linked store heads root_id (mh_aggregate head) row"
  by (auto simp: fetch_root_def scan_known_def Let_def split: option.splits intro: linked_root)

lemma scan_matching_linked:
  assumes "projection_linked store heads root_id projected" "head \<in> set heads"
  shows "rows_linked store heads root_id (mh_aggregate head) (scan_matching store head projected)"
proof -
  have "linked store heads root_id (mh_aggregate head) (key, r)"
    if entries: "store (mh_aggregate head) = Some entries" "(key, r) \<in> set entries"
      and shown: "record_matches r head projected" for entries key r
  proof -
    from shown obtain rf held rows owner where "rf \<in> set (mh_reference_fields head)"
      "json_get r (rf_field rf) = Some (J_Str held)" "(rf_target_aggregate rf, rows) \<in> set projected" "(held, owner) \<in> set rows"
      by (auto simp: record_matches_def list_ex_iff bind_eq_Some_conv split: option.splits)
    moreover from this have "linked store heads root_id (rf_target_aggregate rf) (held, owner)"
      using assms(1) by (force simp: projection_linked_def rows_linked_def)
    ultimately show ?thesis
      using assms(2) entries linked_by [of head heads store entries key r] by blast
  qed
  then show ?thesis
    by (cases "store (mh_aggregate head)") (auto simp: rows_linked_def scan_matching_def)
qed

lemma head_rows_linked:
  assumes "head_rows store def args (Some root_id) head projected = Inr rows"
    and "projection_linked store heads root_id projected" "head \<in> set heads"
  shows "rows_linked store heads root_id (mh_aggregate head) rows"
proof -
  let ?scan = "if mh_is_root head then rbind (fetch_root store head root_id) (\<lambda>row. Inr [row])
    else Inr (scan_matching store head projected)"
  from assms(1) obtain scanned where scan: "?scan = Inr scanned" and "set rows \<subseteq> set scanned"
    by (auto simp: head_rows_def split: option.splits dest: set_filtered_head)
  moreover have "rows_linked store heads root_id (mh_aggregate head) scanned"
  proof (cases "mh_is_root head")
    case True
    with scan assms(3) show ?thesis
      by (auto simp: rows_linked_def intro: fetch_root_linked)
  next
    case False
    with scan scan_matching_linked [OF assms(2,3)] show ?thesis by simp
  qed
  ultimately show ?thesis
    by (auto simp: rows_linked_def)
qed

lemma project_heads_linked:
  assumes "project_heads store def args (Some root_id) hs (projected, by_as) = Inr (projected', by_as')"
    and "projection_linked store heads root_id projected" "set hs \<subseteq> set heads"
    and "\<forall>name many rows. by_as name = Some (many, rows) \<longrightarrow>
      (\<exists>head\<in>set heads. mh_as_name head = name \<and> mh_many head = many \<and>
         rows_linked store heads root_id (mh_aggregate head) rows)"
  shows "\<forall>name many rows. by_as' name = Some (many, rows) \<longrightarrow>
      (\<exists>head\<in>set heads. mh_as_name head = name \<and> mh_many head = many \<and>
         rows_linked store heads root_id (mh_aggregate head) rows)"
  using assms
proof (induction hs arbitrary: projected by_as)
  case Nil
  then show ?case by simp
next
  case (Cons head hs)
  from Cons.prems obtain rows where rows: "head_rows store def args (Some root_id) head projected = Inr rows"
    and rest: "project_heads store def args (Some root_id) hs
      (projected @ [(mh_aggregate head, rows)], by_as(mh_as_name head \<mapsto> (mh_many head, rows))) = Inr (projected', by_as')"
    by auto
  have "rows_linked store heads root_id (mh_aggregate head) rows"
    using head_rows_linked [OF rows] Cons.prems by simp
  then show ?case
    using Cons.prems by (intro Cons.IH [OF rest]) (auto simp: projection_linked_def)
qed

lemma answered_cons:
  "Option.bind m (\<lambda>r. case r of Inl e \<Rightarrow> Some (Inl e)
      | Inr v \<Rightarrow> map_option (\<lambda>rest. rbind rest (\<lambda>out. Inr ((name, v) # out))) later) = Some (Inr answered) \<longleftrightarrow>
   (\<exists>v out. m = Some (Inr v) \<and> later = Some (Inr out) \<and> answered = (name, v) # out)"
  by (cases m) (auto split: sum.splits)

lemma answer_heads_Inr:
  "answer_heads def heads by_as = Some (Inr out) \<Longrightarrow>
   distinct (map mh_as_name heads) \<and>
   list_all2 (\<lambda>head (name, v). name = mh_as_name head \<and>
     (\<exists>many rows. by_as name = Some (many, rows) \<and> head_value def name many rows = Some (Inr v))) heads out"
proof (induction heads arbitrary: by_as out)
  case Nil
  then show ?case by simp
next
  case (Cons head heads)
  from Cons.prems obtain many rows v out' where
    "by_as (mh_as_name head) = Some (many, rows)" "head_value def (mh_as_name head) many rows = Some (Inr v)"
    and rest: "answer_heads def heads (by_as(mh_as_name head := None)) = Some (Inr out')"
    and "out = (mh_as_name head, v) # out'"
    by (auto simp: answered_cons split: option.splits)
  moreover from Cons.IH [OF rest]
  have "distinct (map mh_as_name heads)" and
    later: "list_all2 (\<lambda>head' (name, v). name = mh_as_name head' \<and> (\<exists>many rows. (by_as(mh_as_name head := None)) name = Some (many, rows) \<and>
       head_value def name many rows = Some (Inr v))) heads out'"
    by auto
  moreover from later have "mh_as_name head \<notin> mh_as_name ` set heads"
    by (fastforce simp: in_set_conv_nth list_all2_conv_all_nth)
  moreover from later have "list_all2 (\<lambda>head (name, v). name = mh_as_name head \<and>
     (\<exists>many rows. by_as name = Some (many, rows) \<and> head_value def name many rows = Some (Inr v))) heads out'"
    by (rule list_all2_mono) (auto split: if_splits)
  ultimately show ?case by auto
qed

text \<open>
  C19: a rooted report answers one entry per head, in the declared order and under the head's name, and the
  entry of a head is computed from rows of that head's aggregate all of which are linked to the root the
  report was asked about: the root record itself, or records holding a declared reference to a linked one.
\<close>

theorem read_model_rows_linked:
  assumes "rm_reference_name def = Some name"
    and "run_read_model store def args = Some (Inr answer)"
  shows "\<exists>root_id out. json_get args name = Some (J_Str root_id) \<and> answer = J_Object out \<and>
    list_all2 (\<lambda>head (as_name, v). as_name = mh_as_name head \<and>
      (\<exists>rows. (\<forall>row\<in>set rows. linked store (rm_heads def) root_id (mh_aggregate head) row) \<and>
         head_value def as_name (mh_many head) rows = Some (Inr v))) (rm_heads def) out"
proof -
  from assms obtain root_id projected by_as out where root: "json_get args name = Some (J_Str root_id)"
    and run: "project_heads store def args (Some root_id) (root_first (rm_heads def)) ([], Map.empty) = Inr (projected, by_as)"
    and out: "answer_heads def (rm_heads def) by_as = Some (Inr out)" "answer = J_Object out"
    by (auto simp: run_read_model_def reference_argument_def bind_eq_Some_conv rbind_eq_Inl split: sum.splits)
  have links: "\<exists>head\<in>set (rm_heads def). mh_as_name head = as_name \<and> mh_many head = many \<and>
      rows_linked store (rm_heads def) root_id (mh_aggregate head) rows"
    if "by_as as_name = Some (many, rows)" for as_name many rows
    using project_heads_linked [OF run, of "rm_heads def"] that by (simp add: projection_linked_def root_first_def subset_iff)
  have names: "head' = head" if "head \<in> set (rm_heads def)" "head' \<in> set (rm_heads def)" "mh_as_name head' = mh_as_name head" for head head'
    using answer_heads_Inr [OF out(1)] that by (simp add: distinct_map inj_on_def)
  have "list_all2 (\<lambda>head (as_name, v). as_name = mh_as_name head \<and>
      (\<exists>rows. (\<forall>row\<in>set rows. linked store (rm_heads def) root_id (mh_aggregate head) row) \<and>
         head_value def as_name (mh_many head) rows = Some (Inr v))) (rm_heads def) out"
    using conjunct2 [OF answer_heads_Inr [OF out(1)]]
  proof (rule list.rel_mono_strong)
    fix head as_v
    assume head: "head \<in> set (rm_heads def)" and "case as_v of (as_name, v) \<Rightarrow> as_name = mh_as_name head \<and>
      (\<exists>many rows. by_as as_name = Some (many, rows) \<and> head_value def as_name many rows = Some (Inr v))"
    then obtain v many rows where v: "as_v = (mh_as_name head, v)" "head_value def (mh_as_name head) many rows = Some (Inr v)"
      and "by_as (mh_as_name head) = Some (many, rows)"
      by (cases as_v) auto
    from links [OF this(3)] names [OF head] have "mh_many head = many" "rows_linked store (rm_heads def) root_id (mh_aggregate head) rows"
      by auto
    with v show "case as_v of (as_name, v) \<Rightarrow> as_name = mh_as_name head \<and>
      (\<exists>rows. (\<forall>row\<in>set rows. linked store (rm_heads def) root_id (mh_aggregate head) row) \<and>
         head_value def as_name (mh_many head) rows = Some (Inr v))"
      by (auto simp: rows_linked_def)
  qed
  with root out(2) show ?thesis by blast
qed

definition sample_report :: read_model_def where
  "sample_report = \<lparr>rm_verb = ''Shop.OrderReport'', rm_reference_name = Some ''order'',
     rm_heads = [\<lparr>mh_aggregate = ''Shop::Line'', mh_as_name = ''lines'', mh_many = True, mh_is_root = False,
                  mh_reference_fields = [\<lparr>rf_target_aggregate = ''Shop::Order'', rf_field = ''order''\<rparr>]\<rparr>,
                 \<lparr>mh_aggregate = ''Shop::Order'', mh_as_name = ''order'', mh_many = False, mh_is_root = True,
                  mh_reference_fields = []\<rparr>],
     rm_filtered_heads = [], rm_authorization = None, rm_group_by = None, rm_reduction = None\<rparr>"

definition sample_shop :: aggregate_scan where
  "sample_shop aggregate =
     (if aggregate = ''Shop::Order'' then Some [(''o1'', J_Object []), (''o2'', J_Object [])]
      else if aggregate = ''Shop::Line''
      then Some [(''l2'', J_Object [(''order'', J_Str ''o2'')]), (''l1'', J_Object [(''order'', J_Str ''o1'')])]
      else None)"

definition sample_answer :: json where
  "sample_answer = J_Object
     [(''lines'', J_Array [row_json ''l1'' (J_Object [(''order'', J_Str ''o1'')])]),
      (''order'', row_json ''o1'' (J_Object []))]"

lemma sample_report_runs:
  "run_read_model sample_shop sample_report (J_Object [(''order'', J_Str ''o1'')]) = Some (Inr sample_answer)"
  by code_simp

theorem read_model_rows_linked_witness:
  "\<exists>root_id out. sample_answer = J_Object out \<and>
    list_all2 (\<lambda>head (as_name, v). as_name = mh_as_name head \<and>
      (\<exists>rows. list_all (linked sample_shop (rm_heads sample_report) root_id (mh_aggregate head)) rows \<and>
         head_value sample_report as_name (mh_many head) rows = Some (Inr v))) (rm_heads sample_report) out"
  using read_model_rows_linked [of sample_report "''order''", OF _ sample_report_runs]
  by (auto simp: sample_report_def Ball_set)

section \<open>Grouped answers\<close>

text \<open>Two keys share a group when \<open>Json\<close>'s \<open>==\<close> says so; a key that is not equal to itself (NaN) has its own.\<close>

definition same_key :: "json \<Rightarrow> json \<Rightarrow> bool" where
  "same_key k key \<longleftrightarrow> k = key \<or> json_eq k key"

definition tagged :: "(json \<times> json list) list \<Rightarrow> (json \<times> json) list" where
  "tagged groups = concat (map (\<lambda>(k, grouped). map (Pair k) grouped) groups)"

definition grouped_as :: "string \<Rightarrow> json \<Rightarrow> json \<times> json \<Rightarrow> bool" where
  "grouped_as fld row = (\<lambda>(k, r). r = strip_field fld row \<and> same_key k (group_key fld row))"

lemma tagged_simps [simp]:
  "tagged [] = []"
  "tagged ((k, grouped) # groups) = map (Pair k) grouped @ tagged groups"
  by (simp_all add: tagged_def)

lemma rel_mset_union:
  assumes "rel_mset R (mset xs) (mset ys)" "rel_mset R (mset xs') (mset ys')"
  shows "rel_mset R (mset (xs @ xs')) (mset (ys @ ys'))"
proof -
  from assms obtain us vs us' vs' where "mset us = mset xs" "mset vs = mset ys" "list_all2 R us vs"
    "mset us' = mset xs'" "mset vs' = mset ys'" "list_all2 R us' vs'"
    by (auto simp: rel_mset_def)
  then show ?thesis
    by (auto simp: rel_mset_def intro!: exI [of _ "us @ us'"] exI [of _ "vs @ vs'"] list_all2_appendI)
qed

lemma add_to_group_tagged:
  "\<exists>k. same_key k key \<and> mset (tagged (add_to_group key row groups)) = add_mset (k, row) (mset (tagged groups))"
  by (induction key row groups rule: add_to_group.induct) (auto simp: same_key_def)

lemma group_rows_snoc: "group_rows fld (rows @ [row]) = add_to_group (group_key fld row) (strip_field fld row) (group_rows fld rows)"
  by (simp add: group_rows_def)

lemma group_rows_tagged: "rel_mset (grouped_as fld) (mset rows) (mset (tagged (group_rows fld rows)))"
proof (induction rows rule: rev_induct)
  case Nil
  then show ?case by (simp add: group_rows_def rel_mset_Zero)
next
  case (snoc row rows)
  obtain k where "same_key k (group_key fld row)" and
    "mset (tagged (group_rows fld (rows @ [row]))) = add_mset (k, strip_field fld row) (mset (tagged (group_rows fld rows)))"
    using add_to_group_tagged unfolding group_rows_snoc by blast
  with snoc.IH show ?case
    by (simp add: rel_mset_Plus grouped_as_def)
qed

lemma group_rows_nonempty: "(k, grouped) \<in> set (group_rows fld rows) \<Longrightarrow> grouped \<noteq> []"
proof (induction rows arbitrary: k grouped rule: rev_induct)
  case Nil
  then show ?case by (simp add: group_rows_def)
next
  case (snoc row rows)
  have "(k, grouped) \<in> set (add_to_group key r groups) \<Longrightarrow> \<forall>(k, g)\<in>set groups. g \<noteq> [] \<Longrightarrow> grouped \<noteq> []" for key r k grouped groups
    by (induction key r groups rule: add_to_group.induct) (auto split: if_splits)
  with snoc show ?case unfolding group_rows_snoc by blast
qed

lemma group_key_strip: "fld \<noteq> fld' \<Longrightarrow> group_key fld (strip_field fld' row) = group_key fld row"
proof -
  assume "fld \<noteq> fld'"
  then have "map_of (filter (\<lambda>(k, v). k \<noteq> fld') pairs) fld = map_of pairs fld" for pairs :: "(string \<times> json) list"
    by (induction pairs) auto
  then show ?thesis
    by (cases row) (simp_all add: group_key_def strip_field_def)
qed

text \<open>The leaves of an answer nested \<open>depth\<close> levels deep, each with the path of keys it stands under.\<close>

fun leaf_paths :: "nat \<Rightarrow> json \<Rightarrow> (string list \<times> json) list" where
  "leaf_paths 0 v = [([], v)]"
| "leaf_paths (Suc depth) (J_Object out) = concat (map (\<lambda>(key, v). map (map_prod (Cons key) (\<lambda>leaf. leaf)) (leaf_paths depth v)) out)"
| "leaf_paths (Suc depth) v = []"

definition placed_leaf :: "string list \<Rightarrow> json \<Rightarrow> string list \<times> json \<Rightarrow> bool" where
  "placed_leaf names row = (\<lambda>(path, leaf). leaf = fold strip_field names row \<and>
     list_all2 (\<lambda>fld key. \<exists>k. to_s k = key \<and> same_key k (group_key fld row)) names path)"

lemma placed_leaf_Cons:
  assumes "grouped_as fld row (k, r)" "placed_leaf names r (path, leaf)" "fld \<notin> set names"
  shows "placed_leaf (fld # names) row (to_s k # path, leaf)"
proof -
  have r: "r = strip_field fld row" "same_key k (group_key fld row)"
    using assms(1) by (simp_all add: grouped_as_def)
  have "list_all2 (\<lambda>fld key. \<exists>k. to_s k = key \<and> same_key k (group_key fld row)) names path"
    using assms(2,3) unfolding placed_leaf_def r(1) prod.case
    by (elim conjE list.rel_mono_strong) (metis group_key_strip)
  with r assms(2) show ?thesis
    by (auto simp: placed_leaf_def)
qed

text \<open>A group that the level below answered, with its key put before every path.\<close>

lemma group_placed:
  assumes "rel_mset (placed_leaf names) (mset grouped) (mset leaves)"
  shows "rel_mset (\<lambda>(k, r) (path, leaf). \<exists>path'. path = to_s k # path' \<and> placed_leaf names r (path', leaf))
    (mset (map (Pair k) grouped)) (mset (map (map_prod (Cons (to_s k)) (\<lambda>leaf. leaf)) leaves))"
  using assms
  by (force simp: multiset.rel_map elim: multiset.rel_mono_strong)

lemma answer_groups_placed:
  assumes "answer_groups answer groups = Some (Inr out)"
    and "\<And>k grouped v. (k, grouped) \<in> set groups \<Longrightarrow> answer k grouped = Some (Inr v) \<Longrightarrow>
      rel_mset (placed_leaf names) (mset grouped) (mset (leaf_paths depth v))"
  shows "rel_mset (\<lambda>(k, r) (path, leaf). \<exists>path'. path = to_s k # path' \<and> placed_leaf names r (path', leaf))
    (mset (tagged groups)) (mset (leaf_paths (Suc depth) (J_Object out)))"
  using assms
proof (induction groups arbitrary: out)
  case Nil
  then show ?case by (simp add: rel_mset_Zero)
next
  case (Cons group groups)
  obtain k grouped where group: "group = (k, grouped)" by fastforce
  with Cons.prems(1) obtain v out' where v: "answer k grouped = Some (Inr v)"
    and out': "answer_groups answer groups = Some (Inr out')" "out = (to_s k, v) # out'"
    by (auto simp: answered_cons)
  have "rel_mset (placed_leaf names) (mset grouped) (mset (leaf_paths depth v))"
    using Cons.prems(2) [of k grouped v] v group by simp
  moreover have "rel_mset (\<lambda>(k, r) (path, leaf). \<exists>path'. path = to_s k # path' \<and> placed_leaf names r (path', leaf))
    (mset (tagged groups)) (mset (leaf_paths (Suc depth) (J_Object out')))"
    using Cons.prems(2) by (intro Cons.IH [OF out'(1)]) auto
  ultimately show ?case
    using rel_mset_union [OF group_placed] out'(2) group by fastforce
qed

lemma nest_level_placed:
  assumes "nest_level rows all names (Leaf_Row (Refuse_Collision read_model)) reached = Some (Inr v)" "distinct names"
  shows "rel_mset (placed_leaf names) (mset rows) (mset (leaf_paths (length names) v))"
  using assms
proof (induction names arbitrary: rows reached v)
  case Nil
  then show ?case by simp
next
  case (Cons fld names)
  let ?answer = "\<lambda>key grouped. if names = [] then Some (leaf_row grouped all (Refuse_Collision read_model) (reached @ [(fld, key)]))
    else nest_level grouped all names (Leaf_Row (Refuse_Collision read_model)) (reached @ [(fld, key)])"
  from Cons.prems(1) obtain out where out: "answer_groups ?answer (group_rows fld rows) = Some (Inr out)" "v = J_Object out"
    by (auto simp: Let_def cong: if_cong)
  have "rel_mset (placed_leaf names) (mset grouped) (mset (leaf_paths (length names) w))"
    if group: "(k, grouped) \<in> set (group_rows fld rows)" and w: "?answer k grouped = Some (Inr w)" for k grouped w
  proof (cases "names = []")
    case True
    with w have "length grouped \<le> 1" "w = or_null (List.find (\<lambda>_. True) grouped)"
      by (auto simp: leaf_row_def split: if_splits)
    with group_rows_nonempty [OF group] have "grouped = [w]"
      by (cases grouped) (auto simp: or_null_def)
    with True show ?thesis
      by (simp add: placed_leaf_def rel_mset_Plus rel_mset_Zero)
  next
    case False
    with w Cons show ?thesis by simp
  qed
  from answer_groups_placed [OF out(1) this]
  have "rel_mset (grouped_as fld OO (\<lambda>(k, r) (path, leaf). \<exists>path'. path = to_s k # path' \<and> placed_leaf names r (path', leaf)))
    (mset rows) (mset (leaf_paths (Suc (length names)) v))"
    using group_rows_tagged out(2) by (fastforce simp: multiset.rel_compp)
  then show ?case
    using Cons.prems(2) placed_leaf_Cons by (fastforce elim!: multiset.rel_mono_strong)
qed

text \<open>
  Grouping loses no row and invents none. When a report grouped by distinct fields answers, the leaves
  of the nested object are, one to one, the rows without their group fields, and each stands under the path
  spelled by its own group values; two rows that would share a leaf are refused instead.
\<close>

theorem grouping_keeps_every_row:
  assumes "nest rows names (Refuse_Collision read_model) = Some (Inr answer)" and "distinct names"
  shows "\<exists>leaves. mset leaves = mset (leaf_paths (length names) answer) \<and>
    list_all2 (\<lambda>row (path, leaf). leaf = fold strip_field names row \<and>
      list_all2 (\<lambda>fld key. \<exists>k. to_s k = key \<and> same_key k (group_key fld row)) names path) rows leaves"
proof -
  have "rel_mset (placed_leaf names) (mset rows) (mset (leaf_paths (length names) answer))"
    using nest_level_placed assms by (simp add: nest_def)
  then obtain rows' leaves where "mset rows' = mset rows" "mset leaves = mset (leaf_paths (length names) answer)"
    and "list_all2 (placed_leaf names) rows' leaves"
    by (auto simp: rel_mset_def)
  then obtain leaves' where "list_all2 (placed_leaf names) rows leaves'" "mset leaves' = mset leaves"
    by (metis list_all2_reorder_left_invariance)
  then show ?thesis
    using \<open>mset leaves = _\<close> by (auto simp: placed_leaf_def intro!: exI [of _ leaves'] elim: list_all2_mono)
qed

definition sample_rows :: "json list" where
  "sample_rows = [J_Object [(''city'', J_Str ''Oslo''), (''kind'', J_Str ''a''), (''n'', J_Str ''1'')],
     J_Object [(''city'', J_Str ''Bern''), (''kind'', J_Str ''a''), (''n'', J_Str ''2'')],
     J_Object [(''city'', J_Str ''Oslo''), (''kind'', J_Str ''b''), (''n'', J_Str ''3'')]]"

definition sample_nested :: json where
  "sample_nested = J_Object
     [(''Oslo'', J_Object [(''a'', J_Object [(''n'', J_Str ''1'')]), (''b'', J_Object [(''n'', J_Str ''3'')])]),
      (''Bern'', J_Object [(''a'', J_Object [(''n'', J_Str ''2'')])])]"

lemma sample_rows_nest: "nest sample_rows [''city'', ''kind''] (Refuse_Collision ''R'') = Some (Inr sample_nested)"
  by code_simp

theorem grouping_keeps_every_row_witness:
  "\<exists>leaves. mset leaves = mset (leaf_paths 2 sample_nested) \<and>
    list_all2 (\<lambda>row (path, leaf). leaf = fold strip_field [''city'', ''kind''] row \<and>
      list_all2 (\<lambda>fld key. \<exists>k. to_s k = key \<and> same_key k (group_key fld row)) [''city'', ''kind''] path) sample_rows leaves"
  using grouping_keeps_every_row [OF sample_rows_nest] by (simp add: numeral_2_eq_2)

end
