(* ===== verification/Pattern.thy ===== *)
theory Pattern
  imports Json_Parser
begin

text \<open>
  The regular expressions of a declared \<open>pattern:\<close>. \<open>rust/src/kernel/pattern.rs\<close> parses and matches
  them by backtracking with a continuation; \<open>rust/parser/src/build/pattern_subset.rs\<close> says which ones a
  bluebook may declare. Characters are UTF-8 sequences, whose byte order is the order of code points.

  The recursive descent and the matcher call themselves through closures, so both carry fuel: \<open>Starved\<close>
  and \<open>None\<close> are fuel running out, never an answer of the source. \<open>Pattern_Laws\<close> shows that the parser's
  fuel always suffices and that some fuel suffices for every match.
\<close>

datatype node =
    N_Literal string
  | N_Any
  | N_Class bool "(string \<times> string) list"
  | N_LineStart
  | N_LineEnd
  | N_StringStart
  | N_StringEnd
  | N_Group "node list"
  | N_Alt "node list list"
  | N_Repeat node nat "nat option"

section \<open>Parsing\<close>

datatype 'a reading = Parsed 'a chars | Bad | Starved

fun after_reading :: "'a reading \<Rightarrow> ('a \<Rightarrow> chars \<Rightarrow> 'b reading) \<Rightarrow> 'b reading" where
  "after_reading (Parsed x cs) f = f x cs"
| "after_reading Bad f = Bad"
| "after_reading Starved f = Starved"

definition escape_of :: "string \<Rightarrow> string" where
  "escape_of c = (if c = ''t'' then [CHR 0x09] else if c = ''n'' then [CHR 0x0A] else if c = ''r'' then [CHR 0x0D] else c)"

definition backslash :: string where "backslash = [CHR 0x5C]"

text \<open>A member of a class: one character or escape, or a range when a dash follows that is not the last.\<close>

fun class_char :: "chars \<Rightarrow> (string \<times> chars) option" where
  "class_char [] = None"
| "class_char (c # cs) =
     (if c = backslash then (case cs of [] \<Rightarrow> None | e # cs' \<Rightarrow> Some (escape_of e, cs')) else Some (c, cs))"

fun range_ahead :: "chars \<Rightarrow> bool" where
  "range_ahead (a # b # cs) = (a = ''-'' \<and> b \<noteq> '']'')"
| "range_ahead _ = False"

definition class_member :: "chars \<Rightarrow> ((string \<times> string) \<times> chars) option" where
  "class_member cs =
     Option.bind (class_char cs) (\<lambda>(lo, cs).
       if range_ahead cs then map_option (\<lambda>(hi, cs). ((lo, hi), cs)) (class_char (tl cs)) else Some ((lo, lo), cs))"

lemma class_char_shorter: "class_char cs = Some (c, cs') \<Longrightarrow> length cs' < length cs"
  by (cases cs) (auto split: if_splits list.splits)

lemma class_member_shorter: "class_member cs = Some (r, cs') \<Longrightarrow> length cs' < length cs"
proof -
  assume "class_member cs = Some (r, cs')"
  then obtain lo mid where lo: "class_char cs = Some (lo, mid)" and "cs' = mid \<or> (\<exists>hi. class_char (tl mid) = Some (hi, cs'))"
    by (auto simp: class_member_def bind_eq_Some_conv split: if_splits)
  then have "length cs' \<le> length mid"
    by (cases mid) (auto dest: class_char_shorter)
  with class_char_shorter [OF lo] show ?thesis by simp
qed

function class_items :: "bool \<Rightarrow> chars \<Rightarrow> ((string \<times> string) list \<times> chars) option" where
  "class_items first cs =
     (if cs = [] then None
      else if hd cs = '']'' \<and> \<not> first then Some ([], tl cs)
      else Option.bind (class_member cs) (\<lambda>(r, cs'). map_option (\<lambda>(rs, rest). (r # rs, rest)) (class_items False cs')))"
  by pat_completeness auto
termination
  by (relation "measure (\<lambda>(first, cs). length cs)") (auto dest: class_member_shorter)

declare class_items.simps [simp del]

definition parse_class :: "chars \<Rightarrow> node reading" where
  "parse_class cs =
     (let negate = (next_char cs = Some ''^'')
      in case class_items True (if negate then tl cs else cs) of
           None \<Rightarrow> Bad
         | Some (ranges, cs) \<Rightarrow> Parsed (N_Class negate ranges) cs)"

text \<open>Decimal digits read as a \<open>usize\<close>; a number that does not fit is no quantifier.\<close>

definition repeat_digits :: "chars \<Rightarrow> (nat \<times> chars) option" where
  "repeat_digits cs =
     (let digits = concat (takeWhile is_digit_char cs); n = digits_val digits
      in if digits = [] \<or> n \<ge> 2 ^ 64 then None else Some (nat n, dropWhile is_digit_char cs))"

definition parse_bounded_repeat :: "chars \<Rightarrow> (nat \<times> nat option \<times> chars) option" where
  "parse_bounded_repeat cs =
     Option.bind (repeat_digits cs) (\<lambda>(mn, cs).
       if next_char cs = Some ''}'' then Some (mn, Some mn, tl cs)
       else if next_char cs = Some '','' then
         (if next_char (tl cs) = Some ''}'' then Some (mn, None, tl (tl cs))
          else Option.bind (repeat_digits (tl cs)) (\<lambda>(mx, cs).
            if next_char cs = Some ''}'' then Some (mn, Some mx, tl cs) else None))
       else None)"

definition quantifier :: "chars \<Rightarrow> (nat \<times> nat option \<times> chars) option" where
  "quantifier cs =
     (if next_char cs = Some ''*'' then Some (0, None, tl cs)
      else if next_char cs = Some ''+'' then Some (1, None, tl cs)
      else if next_char cs = Some ''?'' then Some (0, Some 1, tl cs)
      else if next_char cs = Some ''{'' then parse_bounded_repeat (tl cs)
      else None)"

fun parse_alt :: "nat \<Rightarrow> chars \<Rightarrow> node list reading"
  and parse_branches :: "nat \<Rightarrow> chars \<Rightarrow> node list list reading"
  and parse_concat :: "nat \<Rightarrow> chars \<Rightarrow> node list reading"
  and parse_repeat :: "nat \<Rightarrow> chars \<Rightarrow> node reading"
  and parse_atom :: "nat \<Rightarrow> chars \<Rightarrow> node reading" where
  "parse_alt 0 cs = Starved"
| "parse_alt (Suc n) cs =
     after_reading (parse_concat n cs) (\<lambda>first cs.
       if next_char cs \<noteq> Some ''|'' then Parsed first cs
       else after_reading (parse_branches n cs) (\<lambda>branches cs. Parsed [N_Alt (first # branches)] cs))"
| "parse_branches 0 cs = Starved"
| "parse_branches (Suc n) cs =
     (if next_char cs = Some ''|''
      then after_reading (parse_concat n (tl cs)) (\<lambda>branch cs.
             after_reading (parse_branches n cs) (\<lambda>branches cs. Parsed (branch # branches) cs))
      else Parsed [] cs)"
| "parse_concat 0 cs = Starved"
| "parse_concat (Suc n) cs =
     (if cs = [] \<or> hd cs = ''|'' \<or> hd cs = '')'' then Parsed [] cs
      else after_reading (parse_repeat n cs) (\<lambda>node cs.
             after_reading (parse_concat n cs) (\<lambda>nodes cs. Parsed (node # nodes) cs)))"
| "parse_repeat 0 cs = Starved"
| "parse_repeat (Suc n) cs =
     after_reading (parse_atom n cs) (\<lambda>atom cs.
       case quantifier cs of
         Some (mn, mx, cs) \<Rightarrow> Parsed (N_Repeat atom mn mx) cs
       | None \<Rightarrow> Parsed atom cs)"
| "parse_atom 0 cs = Starved"
| "parse_atom (Suc n) cs =
     (case cs of
        [] \<Rightarrow> Bad
      | c # cs \<Rightarrow>
          if c = ''.'' then Parsed N_Any cs
          else if c = ''^'' then Parsed N_LineStart cs
          else if c = ''$'' then Parsed N_LineEnd cs
          else if c = ''('' then
            after_reading (parse_alt n cs) (\<lambda>inner cs.
              if next_char cs = Some '')'' then Parsed (N_Group inner) (tl cs) else Bad)
          else if c = ''['' then parse_class cs
          else if c = backslash then
            (case cs of
               [] \<Rightarrow> Bad
             | e # cs \<Rightarrow>
                 Parsed (if e = ''A'' then N_StringStart
                         else if e = ''z'' \<or> e = ''Z'' then N_StringEnd
                         else N_Literal (escape_of e)) cs)
          else Parsed (N_Literal c) cs)"

definition pattern_fuel :: "chars \<Rightarrow> nat" where
  "pattern_fuel cs = 5 * length cs + 5"

definition parse_pattern :: "chars \<Rightarrow> node list option" where
  "parse_pattern cs =
     (case parse_alt (pattern_fuel cs) cs of
        Parsed nodes [] \<Rightarrow> Some nodes
      | _ \<Rightarrow> None)"

section \<open>Matching\<close>

definition class_matches :: "bool \<Rightarrow> (string \<times> string) list \<Rightarrow> string \<Rightarrow> bool" where
  "class_matches negate ranges c = (list_ex (\<lambda>(lo, hi). lo \<le> c \<and> c \<le> hi) ranges \<noteq> negate)"

definition newline :: string where "newline = [CHR 0x0A]"

text \<open>The test a node makes on the character it consumes, and on the place it stands at.\<close>

definition takes :: "node \<Rightarrow> string \<Rightarrow> bool" where
  "takes x c = (case x of N_Literal l \<Rightarrow> c = l | N_Any \<Rightarrow> c \<noteq> newline | N_Class negate ranges \<Rightarrow> class_matches negate ranges c | _ \<Rightarrow> False)"

fun any_match :: "('a \<Rightarrow> bool option) \<Rightarrow> 'a list \<Rightarrow> bool option" where
  "any_match f [] = Some False"
| "any_match f (x # xs) = (case f x of None \<Rightarrow> None | Some True \<Rightarrow> Some True | Some False \<Rightarrow> any_match f xs)"

fun match_from :: "nat \<Rightarrow> node list \<Rightarrow> chars \<Rightarrow> nat \<Rightarrow> (nat \<Rightarrow> bool option) \<Rightarrow> bool option"
  and match_repeat :: "nat \<Rightarrow> node \<Rightarrow> nat \<Rightarrow> nat \<Rightarrow> nat option \<Rightarrow> node list \<Rightarrow> chars \<Rightarrow> nat \<Rightarrow> (nat \<Rightarrow> bool option) \<Rightarrow> bool option" where
  "match_from 0 nodes txt ti cont = None"
| "match_from (Suc n) [] txt ti cont = cont ti"
| "match_from (Suc n) (N_Literal c # rest) txt ti cont =
     (if ti < length txt \<and> takes (N_Literal c) (txt ! ti) then match_from n rest txt (ti + 1) cont else Some False)"
| "match_from (Suc n) (N_Any # rest) txt ti cont =
     (if ti < length txt \<and> takes N_Any (txt ! ti) then match_from n rest txt (ti + 1) cont else Some False)"
| "match_from (Suc n) (N_Class negate ranges # rest) txt ti cont =
     (if ti < length txt \<and> takes (N_Class negate ranges) (txt ! ti) then match_from n rest txt (ti + 1) cont else Some False)"
| "match_from (Suc n) (N_LineStart # rest) txt ti cont =
     (if ti = 0 \<or> txt ! (ti - 1) = newline then match_from n rest txt ti cont else Some False)"
| "match_from (Suc n) (N_LineEnd # rest) txt ti cont =
     (if ti = length txt \<or> txt ! ti = newline then match_from n rest txt ti cont else Some False)"
| "match_from (Suc n) (N_StringStart # rest) txt ti cont =
     (if ti = 0 then match_from n rest txt ti cont else Some False)"
| "match_from (Suc n) (N_StringEnd # rest) txt ti cont =
     (if ti = length txt then match_from n rest txt ti cont else Some False)"
| "match_from (Suc n) (N_Group inner # rest) txt ti cont =
     match_from n inner txt ti (\<lambda>ti2. match_from n rest txt ti2 cont)"
| "match_from (Suc n) (N_Alt branches # rest) txt ti cont =
     any_match (\<lambda>b. match_from n b txt ti (\<lambda>ti2. match_from n rest txt ti2 cont)) branches"
| "match_from (Suc n) (N_Repeat x mn mx # rest) txt ti cont = match_repeat n x 0 mn mx rest txt ti cont"
| "match_repeat 0 x count mn mx rest txt ti cont = None"
| "match_repeat (Suc n) x count mn mx rest txt ti cont =
     (case (if (case mx of None \<Rightarrow> True | Some m \<Rightarrow> count < m)
            then match_from n [x] txt ti (\<lambda>ti2.
                   if ti2 = ti then Some False else match_repeat n x (count + 1) mn mx rest txt ti2 cont)
            else Some False) of
        None \<Rightarrow> None
      | Some True \<Rightarrow> Some True
      | Some False \<Rightarrow> if mn \<le> count then match_from n rest txt ti cont else Some False)"

fun anchored_start :: "node list \<Rightarrow> bool" where
  "anchored_start (N_StringStart # _) = True"
| "anchored_start _ = False"

definition matches_chars :: "nat \<Rightarrow> chars \<Rightarrow> chars \<Rightarrow> bool option" where
  "matches_chars n pattern txt =
     (case parse_pattern pattern of
        None \<Rightarrow> Some False
      | Some nodes \<Rightarrow>
          if anchored_start nodes then match_from n nodes txt 0 (\<lambda>_. Some True)
          else any_match (\<lambda>start. match_from n nodes txt start (\<lambda>_. Some True)) [0..<Suc (length txt)])"

definition pattern_matches :: "nat \<Rightarrow> string \<Rightarrow> string \<Rightarrow> bool option" where
  "pattern_matches n pattern txt = matches_chars n (utf8_chars pattern) (utf8_chars txt)"

section \<open>Whole-value anchors\<close>

fun whole_from :: "nat \<Rightarrow> bool \<Rightarrow> nat \<Rightarrow> chars \<Rightarrow> chars" where
  "whole_from index in_class class_start [] = []"
| "whole_from index in_class class_start (c # cs) =
     (if c = backslash then
        (case cs of [] \<Rightarrow> [c] | e # cs' \<Rightarrow> c # e # whole_from (index + 2) in_class class_start cs')
      else if in_class then
        c # whole_from (index + 1) (\<not> (c = '']'' \<and> index \<noteq> class_start)) class_start cs
      else if c = ''['' then
        c # whole_from (index + 1) True (if next_char cs = Some ''^'' then index + 2 else index + 1) cs
      else (if c = ''^'' then [backslash, ''A''] else if c = ''$'' then [backslash, ''z''] else [c]) @
        whole_from (index + 1) False class_start cs)"

definition whole_string :: "string \<Rightarrow> string" where
  "whole_string pattern = concat (whole_from 0 False 0 (utf8_chars pattern))"

definition matches_whole :: "nat \<Rightarrow> string \<Rightarrow> string \<Rightarrow> bool option" where
  "matches_whole n pattern txt = pattern_matches n (whole_string pattern) txt"

section \<open>The admitted subset\<close>

definition posix_class_at :: "chars \<Rightarrow> bool" where
  "posix_class_at cs =
     (next_char cs = Some ''['' \<and> next_char (tl cs) = Some '':'' \<and>
      (let rest = dropWhile (\<lambda>ch. case ch of [c] \<Rightarrow> (let k = (of_char c :: int) in 65 \<le> k \<and> k \<le> 90 \<or> 97 \<le> k \<and> k \<le> 122) | _ \<Rightarrow> False) (tl (tl cs))
       in next_char rest = Some '':'' \<and> next_char (tl rest) = Some '']''))"

definition escape_refusal :: "string option \<Rightarrow> string option" where
  "escape_refusal nxt =
     (case nxt of
        None \<Rightarrow> None
      | Some c \<Rightarrow>
          if is_digit_char c \<and> c \<noteq> ''0'' then Some ''backreference''
          else if c \<in> set [''k'', ''g''] then Some ''named_backreference''
          else if c \<in> set [''d'', ''D'', ''w'', ''W'', ''s'', ''S''] then Some ''perl_class''
          else None)"

definition group_refusal :: "chars \<Rightarrow> string option" where
  "group_refusal cs =
     (if next_char cs = Some ''('' \<and> next_char (tl cs) = Some ''?'' then
        (let third = next_char (drop 2 cs)
         in if third = Some ''='' \<or> third = Some ''!'' then Some ''lookahead''
            else if third = Some ''<'' \<and> (next_char (drop 3 cs) = Some ''='' \<or> next_char (drop 3 cs) = Some ''!'') then Some ''lookbehind''
            else if third = Some ''>'' then Some ''atomic_group''
            else None)
      else None)"

definition plain_refusal :: "chars \<Rightarrow> string option" where
  "plain_refusal cs =
     (case group_refusal cs of
        Some key \<Rightarrow> Some key
      | None \<Rightarrow>
          if posix_class_at cs then Some ''posix_class''
          else if (next_char cs = Some ''*'' \<or> next_char cs = Some ''+'' \<or> next_char cs = Some ''?'') \<and> next_char (tl cs) = Some ''+''
          then Some ''possessive''
          else None)"

text \<open>The key of the first refused construct, as \<open>validate\<close> passes it to \<open>refuse\<close>.\<close>

fun validate :: "chars \<Rightarrow> string option" where
  "validate [] = None"
| "validate (c # cs) =
     (if c = backslash then
        (case escape_refusal (next_char cs) of
           Some key \<Rightarrow> Some key
         | None \<Rightarrow> (case cs of [] \<Rightarrow> None | _ # cs' \<Rightarrow> validate cs'))
      else (case plain_refusal (c # cs) of Some key \<Rightarrow> Some key | None \<Rightarrow> validate cs))"

definition REASONS :: "(string \<times> string \<times> string) list" where
  "REASONS =
     [(''backreference'', ''backreference'',
       ''backreferences cannot be matched in linear time and portable engines refuse them ; a declared pattern may not depend on one''),
      (''named_backreference'', ''named backreference'',
       ''a named backreference is still a backreference '' @ em_dash @ '' it cannot be matched in linear time ; a declared pattern may not depend on one''),
      (''perl_class'', ''perl character class'',
       ''engines read it in OPPOSITE directions : ASCII in some and Unicode in others, so an Arabic-Indic digit satisfies one and not the other. Spell the range you mean '' @
       em_dash @ '' [0-9], [A-Za-z0-9_], [ '' @ backslash @ ''t] '' @ em_dash @ '' which every engine reads the same way''),
      (''posix_class'', ''posix bracket class'',
       ''[:digit:] and friends flip between ASCII and Unicode across engines '' @ em_dash @ '' the mirror of the perl classes, and wrong in the same way. Spell the range you mean''),
      (''lookahead'', ''lookahead'',
       ''lookahead cannot be matched in linear time and portable engines refuse it ; a declared pattern may not depend on it''),
      (''lookbehind'', ''lookbehind'',
       ''lookbehind cannot be matched in linear time and portable engines refuse it ; a declared pattern may not depend on it''),
      (''atomic_group'', ''atomic group'',
       ''an atomic group is a backtracking-engine control knob '' @ em_dash @ '' linear-time engines reject `(?>` as a syntax error''),
      (''possessive'', ''possessive quantifier'',
       ''a possessive quantifier is a backtracking-engine control knob '' @ em_dash @ '' linear-time engines reject it as a syntax error'')]"

text \<open>\<open>refuse\<close> panics on a key outside the table; \<open>None\<close> inside the option is that panic.\<close>

definition pattern_rejection :: "string \<Rightarrow> (string \<times> string) option option" where
  "pattern_rejection pattern = map_option (map_of REASONS) (validate (utf8_chars pattern))"

end
