(* ===== verification/Pattern_Laws.thy ===== *)
theory Pattern_Laws
  imports Pattern
begin

text \<open>
  What a declared pattern accepts. The reference is relational: \<open>spans\<close> gives the pairs of places a node
  leads between, with concatenation as composition and repetition as a power of the relation. The
  backtracking matcher decides it, up to empty repetitions, which it does not count; \<open>whole_string\<close>
  turns line anchors into anchors of the whole value, and nothing else.
\<close>

section \<open>Reference semantics\<close>

definition within :: "nat option \<Rightarrow> nat \<Rightarrow> bool" where
  "within mx k = (case mx of None \<Rightarrow> True | Some m \<Rightarrow> k \<le> m)"

text \<open>With \<open>growing\<close> set, every repetition counted has consumed a character.\<close>

fun spans :: "bool \<Rightarrow> chars \<Rightarrow> node \<Rightarrow> (nat \<times> nat) set"
  and seq_spans :: "bool \<Rightarrow> chars \<Rightarrow> node list \<Rightarrow> (nat \<times> nat) set" where
  "spans growing txt N_LineStart = {(i, i) | i. i = 0 \<or> txt ! (i - 1) = newline}"
| "spans growing txt N_LineEnd = {(i, i) | i. i = length txt \<or> txt ! i = newline}"
| "spans growing txt N_StringStart = {(0, 0)}"
| "spans growing txt N_StringEnd = {(length txt, length txt)}"
| "spans growing txt (N_Group inner) = seq_spans growing txt inner"
| "spans growing txt (N_Alt branches) = \<Union> (seq_spans growing txt ` set branches)"
| "spans growing txt (N_Repeat x mn mx) =
     (\<Union>k\<in>{k. mn \<le> k \<and> within mx k}. (if growing then spans growing txt x - Id else spans growing txt x) ^^ k)"
| "spans growing txt x = {(i, Suc i) | i. i < length txt \<and> takes x (txt ! i)}"
| "seq_spans growing txt [] = Id"
| "seq_spans growing txt (x # xs) = spans growing txt x O seq_spans growing txt xs"

lemma within_zero [simp]: "within mx 0"
  by (simp add: within_def split: option.splits)

lemma relpow_forward:
  assumes "\<And>i j. (i, j) \<in> R \<Longrightarrow> i \<le> j" and "(i, j) \<in> R ^^ k"
  shows "i \<le> (j :: nat)"
  using assms(2) by (induction k arbitrary: j) (auto dest!: assms(1) intro: order_trans)

lemma relpow_bounded:
  assumes "\<And>i j. (i, j) \<in> R \<Longrightarrow> i \<le> m \<Longrightarrow> j \<le> (m :: nat)" and "(i, j) \<in> R ^^ k" "i \<le> m"
  shows "j \<le> m"
  using assms(2,3) by (induction k arbitrary: j) (auto dest: assms(1))

lemma spans_forward_all:
  "\<forall>i j. (i, j) \<in> spans growing txt x \<longrightarrow> i \<le> j"
  "\<forall>i j. (i, j) \<in> seq_spans growing txt xs \<longrightarrow> i \<le> j"
proof (induction growing "txt" x and growing "txt" xs rule: spans_seq_spans.induct)
  case (7 growing t x mn mx)
  show ?case
  proof (intro allI impI)
    fix i j
    assume "(i, j) \<in> spans growing t (N_Repeat x mn mx)"
    then obtain k where k: "mn \<le> k \<and> within mx k" "(i, j) \<in> (if growing then spans growing t x - Id else spans growing t x) ^^ k"
      by auto
    have "\<forall>i j. (i, j) \<in> spans growing t x \<longrightarrow> i \<le> j"
      using 7 k(1) by (cases growing) blast+
    then have "(i, j) \<in> (if growing then spans growing t x - Id else spans growing t x) \<Longrightarrow> i \<le> j" for i j
      by (metis DiffD1)
    from relpow_forward [OF this k(2)] show "i \<le> j" .
  qed
next
  case (10 growing t x xs)
  then show ?case by (auto, meson order_trans)
qed auto

lemma spans_bounded_all:
  "\<forall>i j. (i, j) \<in> spans growing txt x \<longrightarrow> i \<le> length txt \<longrightarrow> j \<le> length txt"
  "\<forall>i j. (i, j) \<in> seq_spans growing txt xs \<longrightarrow> i \<le> length txt \<longrightarrow> j \<le> length txt"
proof (induction growing "txt" x and growing "txt" xs rule: spans_seq_spans.induct)
  case (7 growing t x mn mx)
  show ?case
  proof (intro allI impI)
    fix i j
    assume "(i, j) \<in> spans growing t (N_Repeat x mn mx)"
    and i: "i \<le> length t"
    then obtain k where k: "mn \<le> k \<and> within mx k" "(i, j) \<in> (if growing then spans growing t x - Id else spans growing t x) ^^ k"
      by auto
    have "(i, j) \<in> (if growing then spans growing t x - Id else spans growing t x) \<Longrightarrow> i \<le> length t \<Longrightarrow> j \<le> length t" for i j
      using 7 k(1) by (auto split: if_splits)
    from relpow_bounded [OF this k(2) i] show "j \<le> length t" .
  qed
qed auto

lemmas spans_forward = spans_forward_all [rule_format]
lemmas spans_bounded = spans_bounded_all [rule_format]

section \<open>The matcher decides the growing semantics\<close>

lemma any_match_total:
  "(\<And>x. x \<in> set xs \<Longrightarrow> f x \<noteq> None) \<Longrightarrow> any_match f xs = Some (\<exists>x\<in>set xs. f x = Some True)"
  by (induction xs) (auto split: option.splits bool.splits)

text \<open>From some fuel on, the matcher on \<open>nodes\<close> answers whether it reaches a place the continuation accepts.\<close>

definition total_from :: "chars \<Rightarrow> nat \<Rightarrow> (nat \<Rightarrow> bool option) \<Rightarrow> bool" where
  "total_from txt ti cont = (\<forall>j. ti \<le> j \<and> j \<le> length txt \<longrightarrow> cont j \<noteq> None)"

definition answers :: "chars \<Rightarrow> nat \<Rightarrow> node list \<Rightarrow> bool" where
  "answers txt n nodes = (\<forall>ti cont. ti \<le> length txt \<longrightarrow> total_from txt ti cont \<longrightarrow>
     match_from n nodes txt ti cont = Some (\<exists>j. (ti, j) \<in> seq_spans True txt nodes \<and> cont j = Some True))"

definition settles :: "chars \<Rightarrow> node list \<Rightarrow> bool" where
  "settles txt nodes = (\<exists>N. \<forall>n\<ge>N. answers txt n nodes)"

lemma answersD:
  "answers txt n nodes \<Longrightarrow> ti \<le> length txt \<Longrightarrow> total_from txt ti cont \<Longrightarrow>
   match_from n nodes txt ti cont = Some (\<exists>j. (ti, j) \<in> seq_spans True txt nodes \<and> cont j = Some True)"
  by (simp add: answers_def)

lemma total_after: "total_from txt ti cont \<Longrightarrow> ti \<le> tj \<Longrightarrow> total_from txt tj cont"
  by (simp add: total_from_def)

lemma total_rest: "answers txt n rest \<Longrightarrow> total_from txt ti cont \<Longrightarrow> total_from txt ti (\<lambda>tj. match_from n rest txt tj cont)"
  by (simp add: total_from_def answers_def)

lemma answers_then:
  assumes "answers txt n inner" "answers txt n rest" "ti \<le> length txt" "total_from txt ti cont"
  shows "match_from n inner txt ti (\<lambda>tj. match_from n rest txt tj cont) =
    Some (\<exists>j. (ti, j) \<in> seq_spans True txt inner O seq_spans True txt rest \<and> cont j = Some True)"
proof -
  have "match_from n rest txt j cont = Some True \<longleftrightarrow> (\<exists>k. (j, k) \<in> seq_spans True txt rest \<and> cont k = Some True)"
    if "(ti, j) \<in> seq_spans True txt inner" for j
    using answersD [OF assms(2)] spans_bounded(2) [OF that assms(3)] total_after [OF assms(4) spans_forward(2) [OF that]] by simp
  then show ?thesis
    unfolding answersD [OF assms(1,3) total_rest [OF assms(2,4)]] by blast
qed

lemma settles_both: "settles txt xs \<Longrightarrow> settles txt ys \<Longrightarrow> \<exists>N. \<forall>n\<ge>N. answers txt n xs \<and> answers txt n ys"
  unfolding settles_def by (meson nat_le_linear order_trans)

lemma from_Suc: "(\<And>n. n \<ge> N \<Longrightarrow> P (Suc n)) \<Longrightarrow> \<exists>N. \<forall>n\<ge>N. P n"
  by (metis Suc_le_D Suc_le_mono)

lemma settles_Suc: "(\<And>n. n \<ge> N \<Longrightarrow> answers txt (Suc n) xs) \<Longrightarrow> settles txt xs"
  unfolding settles_def by (rule from_Suc)

lemma settles_Nil: "settles txt []"
proof (rule settles_Suc [of 0])
  fix n :: nat
  have "cont ti = Some (cont ti = Some True)" if "ti \<le> length txt" "total_from txt ti cont" for ti cont
    using that by (cases "cont ti") (auto simp: total_from_def)
  then show "answers txt (Suc n) []" by (simp add: answers_def)
qed

lemma settles_here:
  assumes "settles txt rest"
    and "\<And>n ti cont. match_from (Suc n) (x # rest) txt ti cont =
      (if p ti then match_from n rest txt (if consumes then Suc ti else ti) cont else Some False)"
    and "spans True txt x = {(i, if consumes then Suc i else i) | i. p i}"
    and "\<And>i. p i \<Longrightarrow> consumes \<Longrightarrow> i < length txt"
  shows "settles txt (x # rest)"
proof -
  from assms(1) obtain N where N: "\<And>n. n \<ge> N \<Longrightarrow> answers txt n rest" by (auto simp: settles_def)
  show ?thesis
  proof (rule settles_Suc)
    fix n assume "n \<ge> N"
    note rest = answersD [OF N [OF this]]
    show "answers txt (Suc n) (x # rest)"
      unfolding answers_def
    proof (intro allI impI)
      fix ti cont
      assume ti: "ti \<le> length txt" "total_from txt ti cont"
      show "match_from (Suc n) (x # rest) txt ti cont = Some (\<exists>j. (ti, j) \<in> seq_spans True txt (x # rest) \<and> cont j = Some True)"
        using rest [of "if consumes then Suc ti else ti" cont] ti assms(4) [of ti]
        by (cases "p ti") (auto simp: assms(2,3) total_from_def relcomp_unfold)
    qed
  qed
qed

lemma settles_group:
  assumes "settles txt inner" "settles txt rest"
  shows "settles txt (N_Group inner # rest)"
proof -
  from settles_both [OF assms] obtain N where "\<forall>n\<ge>N. answers txt n inner \<and> answers txt n rest" ..
  then show ?thesis
    by (intro settles_Suc) (auto simp: answers_def answers_then)
qed

lemma settles_alt:
  assumes "\<forall>b\<in>set branches. settles txt b" "settles txt rest"
  shows "settles txt (N_Alt branches # rest)"
proof -
  have "\<exists>N. \<forall>n\<ge>N. \<forall>b\<in>set branches. answers txt n b"
    using assms(1)
  proof (induction branches)
    case (Cons b bs)
    then obtain N M where "\<forall>n\<ge>N. answers txt n b" "\<forall>n\<ge>M. \<forall>b\<in>set bs. answers txt n b"
      by (auto simp: settles_def)
    then show ?case by (intro exI [of _ "max N M"]) simp
  qed simp
  then obtain N M where N: "\<And>n. n \<ge> N \<Longrightarrow> \<forall>b\<in>set branches. answers txt n b" "\<And>n. n \<ge> M \<Longrightarrow> answers txt n rest"
    using assms(2) by (auto simp: settles_def)
  show ?thesis
  proof (rule settles_Suc)
    fix n assume n: "n \<ge> max N M"
    then have rest: "answers txt n rest" and branches: "\<And>b. b \<in> set branches \<Longrightarrow> answers txt n b" using N by auto
    show "answers txt (Suc n) (N_Alt branches # rest)"
      unfolding answers_def
    proof (intro allI impI)
      fix ti cont
      assume "ti \<le> length txt" "total_from txt ti cont"
      note each = answers_then [OF branches rest this]
      show "match_from (Suc n) (N_Alt branches # rest) txt ti cont =
          Some (\<exists>j. (ti, j) \<in> seq_spans True txt (N_Alt branches # rest) \<and> cont j = Some True)"
        by (subst match_from.simps, subst any_match_total) (auto simp: each)
    qed
  qed
qed

text \<open>The greedy loop, from a count within the bound: enough fuel for the characters left settles it.\<close>

definition repeats_to :: "chars \<Rightarrow> node \<Rightarrow> nat \<Rightarrow> nat \<Rightarrow> nat option \<Rightarrow> nat \<Rightarrow> nat \<Rightarrow> bool" where
  "repeats_to txt x count mn mx i j =
     (\<exists>k. mn \<le> count + k \<and> within mx (count + k) \<and> (i, j) \<in> (spans True txt x - Id) ^^ k)"

lemma relpow_first: "(i, j) \<in> R ^^ Suc k \<longleftrightarrow> (\<exists>m. (i, m) \<in> R \<and> (m, j) \<in> R ^^ k)"
  by (metis relcomp.cases relcomp.intros relpow.simps(2) relpow_commute prod.inject)

lemma repeats_unfold:
  "within mx count \<Longrightarrow> repeats_to txt x count mn mx i j \<longleftrightarrow>
     (mn \<le> count \<and> i = j) \<or>
     (within mx (Suc count) \<and> (\<exists>m. (i, m) \<in> spans True txt x \<and> m \<noteq> i \<and> repeats_to txt x (Suc count) mn mx m j))"
  (is "_ \<Longrightarrow> ?l \<longleftrightarrow> ?stop \<or> ?more")
proof -
  assume count: "within mx count"
  have "?l \<Longrightarrow> ?stop \<or> ?more"
  proof -
    assume ?l
    then obtain k where k: "mn \<le> count + k" "within mx (count + k)" "(i, j) \<in> (spans True txt x - Id) ^^ k"
      by (auto simp: repeats_to_def)
    show "?stop \<or> ?more"
    proof (cases k)
      case 0
      with k show ?thesis by simp
    next
      case (Suc k')
      with k obtain m where "(i, m) \<in> spans True txt x" "m \<noteq> i" "(m, j) \<in> (spans True txt x - Id) ^^ k'"
        by (auto simp: relpow_first simp del: relpow.simps)
      moreover from k Suc have "within mx (Suc count)" by (auto simp: within_def split: option.splits)
      ultimately show ?thesis
        using k Suc unfolding repeats_to_def by (metis add_Suc_shift)
    qed
  qed
  moreover have "?stop \<or> ?more \<Longrightarrow> ?l"
  proof (elim disjE conjE exE)
    assume "mn \<le> count" "i = j"
    with count show ?l by (auto simp: repeats_to_def intro: exI [of _ 0])
  next
    fix m
    assume m: "(i, m) \<in> spans True txt x" "m \<noteq> i" "repeats_to txt x (Suc count) mn mx m j"
    then obtain k where "mn \<le> Suc count + k" "within mx (Suc count + k)" "(m, j) \<in> (spans True txt x - Id) ^^ k"
      by (auto simp: repeats_to_def)
    with m show ?l
      unfolding repeats_to_def by (intro exI [of _ "Suc k"]) (auto simp: relpow_first simp del: relpow.simps)
  qed
  ultimately show ?thesis by blast
qed

lemma greedy_choice:
  "(again \<Longrightarrow> one_more = Some grown) \<Longrightarrow>
   (case (if again then one_more else Some False) of None \<Rightarrow> None | Some True \<Rightarrow> Some True
    | Some False \<Rightarrow> if enough then Some stopped else Some False) = Some (again \<and> grown \<or> enough \<and> stopped)"
  by (cases again; cases grown; simp)

lemma repeat_settles:
  assumes "settles txt [x]" "settles txt rest"
  shows "\<exists>N. \<forall>n\<ge>N. \<forall>ti count cont. length txt - ti < L \<longrightarrow> ti \<le> length txt \<longrightarrow> within mx count \<longrightarrow> total_from txt ti cont \<longrightarrow>
    match_repeat n x count mn mx rest txt ti cont =
      Some (\<exists>j l. repeats_to txt x count mn mx ti j \<and> (j, l) \<in> seq_spans True txt rest \<and> cont l = Some True)"
proof (induction L)
  case 0
  then show ?case by simp
next
  case (Suc L)
  then obtain N where N: "\<And>n ti count cont. n \<ge> N \<Longrightarrow> length txt - ti < L \<Longrightarrow> ti \<le> length txt \<Longrightarrow> within mx count \<Longrightarrow> total_from txt ti cont \<Longrightarrow>
    match_repeat n x count mn mx rest txt ti cont =
      Some (\<exists>j l. repeats_to txt x count mn mx ti j \<and> (j, l) \<in> seq_spans True txt rest \<and> cont l = Some True)"
    by blast
  from settles_both [OF assms] obtain M where M: "\<And>n. n \<ge> M \<Longrightarrow> answers txt n [x] \<and> answers txt n rest" by blast
  have "match_repeat (Suc n) x count mn mx rest txt ti cont =
      Some (\<exists>j l. repeats_to txt x count mn mx ti j \<and> (j, l) \<in> seq_spans True txt rest \<and> cont l = Some True)"
    if n: "n \<ge> max N M" and left: "length txt - ti < Suc L" and ti: "ti \<le> length txt" and count: "within mx count"
      and total: "total_from txt ti cont" for n ti count cont
  proof -
    let ?again = "\<lambda>tj. if tj = ti then Some False else match_repeat n x (count + 1) mn mx rest txt tj cont"
    let ?more = "\<exists>m j l. (ti, m) \<in> spans True txt x \<and> m \<noteq> ti \<and> repeats_to txt x (Suc count) mn mx m j \<and>
      (j, l) \<in> seq_spans True txt rest \<and> cont l = Some True"
    have stop: "match_from n rest txt ti cont = Some (\<exists>l. (ti, l) \<in> seq_spans True txt rest \<and> cont l = Some True)"
      using answersD ti total M n by simp
    have again: "?again tj = Some (tj \<noteq> ti \<and> (\<exists>j l. repeats_to txt x (Suc count) mn mx tj j \<and> (j, l) \<in> seq_spans True txt rest \<and> cont l = Some True))"
      if "within mx (Suc count)" "ti \<le> tj" "tj \<le> length txt" for tj
      using N [of n tj "Suc count" cont] that n left total_after [OF total that(2)] by simp
    have grow: "match_from n [x] txt ti ?again = Some ?more" if "within mx (Suc count)"
    proof -
      have "total_from txt ti ?again"
        using again that by (simp add: total_from_def del: not_None_eq)
      then have "match_from n [x] txt ti ?again = Some (\<exists>j. (ti, j) \<in> spans True txt x \<and> ?again j = Some True)"
        using answersD [OF conjunct1 [OF M] ti] n by simp
      also have "(\<exists>j. (ti, j) \<in> spans True txt x \<and> ?again j = Some True) \<longleftrightarrow> ?more"
      proof -
        have "?again m = Some True \<longleftrightarrow> m \<noteq> ti \<and> (\<exists>j l. repeats_to txt x (Suc count) mn mx m j \<and> (j, l) \<in> seq_spans True txt rest \<and> cont l = Some True)"
          if m: "(ti, m) \<in> spans True txt x" for m
          unfolding again [OF \<open>within mx (Suc count)\<close> spans_forward(1) [OF m] spans_bounded(1) [OF m ti]] by simp
        then show ?thesis by blast
      qed
      finally show ?thesis .
    qed
    have more: "(case mx of None \<Rightarrow> True | Some m \<Rightarrow> count < m) \<longleftrightarrow> within mx (Suc count)"
      by (auto simp: within_def split: option.splits)
    have split: "(\<exists>j l. repeats_to txt x count mn mx ti j \<and> (j, l) \<in> seq_spans True txt rest \<and> cont l = Some True) \<longleftrightarrow>
        within mx (Suc count) \<and> ?more \<or> mn \<le> count \<and> (\<exists>l. (ti, l) \<in> seq_spans True txt rest \<and> cont l = Some True)"
      unfolding repeats_unfold [OF count] by blast
    show ?thesis
      unfolding split match_repeat.simps more stop by (rule greedy_choice) (rule grow)
  qed
  then show ?case by (intro from_Suc [of "max N M"]) blast
qed

lemma settles_repeat:
  assumes "settles txt [x]" "settles txt rest"
  shows "settles txt (N_Repeat x mn mx # rest)"
proof -
  obtain N where N: "\<And>n ti cont. n \<ge> N \<Longrightarrow> ti \<le> length txt \<Longrightarrow> total_from txt ti cont \<Longrightarrow>
      match_repeat n x 0 mn mx rest txt ti cont =
        Some (\<exists>j l. repeats_to txt x 0 mn mx ti j \<and> (j, l) \<in> seq_spans True txt rest \<and> cont l = Some True)"
    using repeat_settles [OF assms, of "Suc (length txt)" mx mn] within_zero by (meson diff_le_self le_imp_less_Suc)
  have "repeats_to txt x 0 mn mx i j \<longleftrightarrow> (i, j) \<in> spans True txt (N_Repeat x mn mx)" for i j
    by (auto simp: repeats_to_def)
  then show ?thesis
    by (intro settles_Suc [of N]) (simp add: answers_def N relcomp_unfold del: spans.simps, blast)
qed

lemma every_sequence_settles: "settles txt nodes"
proof -
  have node: "\<forall>rest. settles txt rest \<longrightarrow> settles txt (x # rest)" for x
  proof (induction x)
    case (N_Group inner)
    then have "settles txt inner" by (induction inner) (auto intro: settles_Nil)
    then show ?case by (blast intro: settles_group)
  next
    case (N_Alt branches)
    have "settles txt b" if "\<forall>x\<in>set b. \<forall>rest. settles txt rest \<longrightarrow> settles txt (x # rest)" for b
      using that by (induction b) (auto intro: settles_Nil)
    with N_Alt have "\<forall>b\<in>set branches. settles txt b" by blast
    then show ?case by (blast intro: settles_alt)
  next
    case (N_Repeat x mn mx)
    then show ?case using settles_repeat settles_Nil by blast
  next
    case (N_Literal c)
    show ?case by (intro allI impI settles_here [where consumes = True and p = "\<lambda>i. i < length txt \<and> takes (N_Literal c) (txt ! i)"]) auto
  next
    case N_Any
    show ?case by (intro allI impI settles_here [where consumes = True and p = "\<lambda>i. i < length txt \<and> takes N_Any (txt ! i)"]) auto
  next
    case (N_Class negate ranges)
    show ?case by (intro allI impI settles_here [where consumes = True and p = "\<lambda>i. i < length txt \<and> takes (N_Class negate ranges) (txt ! i)"]) auto
  next
    case N_LineStart
    show ?case by (intro allI impI settles_here [where consumes = False and p = "\<lambda>i. i = 0 \<or> txt ! (i - 1) = newline"]) auto
  next
    case N_LineEnd
    show ?case by (intro allI impI settles_here [where consumes = False and p = "\<lambda>i. i = length txt \<or> txt ! i = newline"]) auto
  next
    case N_StringStart
    show ?case by (intro allI impI settles_here [where consumes = False and p = "\<lambda>i. i = 0"]) auto
  next
    case N_StringEnd
    show ?case by (intro allI impI settles_here [where consumes = False and p = "\<lambda>i. i = length txt"]) auto
  qed
  then show ?thesis
    by (induction nodes) (auto intro: settles_Nil)
qed

section \<open>Empty repetitions\<close>

fun nullable :: "node \<Rightarrow> bool" where
  "nullable (N_Literal _) = False"
| "nullable N_Any = False"
| "nullable (N_Class _ _) = False"
| "nullable (N_Group inner) = list_all nullable inner"
| "nullable (N_Alt branches) = list_ex (list_all nullable) branches"
| "nullable (N_Repeat x mn mx) = (mn = 0 \<or> nullable x)"
| "nullable _ = True"

text \<open>A pattern is steady when no repetition that must happen can match nothing.\<close>

fun steady :: "node \<Rightarrow> bool" where
  "steady (N_Group inner) = list_all steady inner"
| "steady (N_Alt branches) = list_all (list_all steady) branches"
| "steady (N_Repeat x mn mx) = ((mn = 0 \<or> \<not> nullable x) \<and> steady x)"
| "steady _ = True"

lemma seq_nullable:
  assumes "(i, i) \<in> seq_spans growing txt xs" "x \<in> set xs"
  shows "(i, i) \<in> spans growing txt x"
  using assms
proof (induction xs)
  case (Cons y ys)
  from Cons.prems(1) obtain j where "(i, j) \<in> spans growing txt y" "(j, i) \<in> seq_spans growing txt ys" by auto
  moreover from this have "j = i" using spans_forward by (metis le_antisym)
  ultimately show ?case using Cons by auto
qed simp

lemma spans_nullable: "(i, i) \<in> spans growing txt x \<Longrightarrow> nullable x"
proof (induction x)
  case (N_Group inner)
  then show ?case by (auto simp: list_all_iff dest: seq_nullable)
next
  case (N_Alt branches)
  then show ?case by (fastforce simp: list_ex_iff list_all_iff dest: seq_nullable)
next
  case (N_Repeat x mn mx)
  let ?R = "if growing then spans growing txt x - Id else spans growing txt x"
  from N_Repeat.prems obtain k where k: "mn \<le> k" "(i, i) \<in> ?R ^^ k" by auto
  have forward: "(a, b) \<in> ?R \<Longrightarrow> a \<le> b" for a b
    using spans_forward(1) by (metis DiffD1)
  show ?case
  proof (cases k)
    case (Suc k')
    with k(2) obtain m where m: "(i, m) \<in> ?R" "(m, i) \<in> ?R ^^ k'" unfolding Suc relpow_first by blast
    with forward [OF m(1)] relpow_forward [OF forward m(2)] have "(i, i) \<in> ?R" by simp
    with N_Repeat.IH show ?thesis by (auto split: if_splits)
  qed (use k in simp)
qed auto

lemma relpow_drop_empty: "(i, j) \<in> R ^^ k \<Longrightarrow> \<exists>k'\<le>k. (i, j) \<in> (R - Id) ^^ k'"
proof (induction k arbitrary: j)
  case (Suc k)
  then obtain m k' where m: "(m, j) \<in> R" "k' \<le> k" "(i, m) \<in> (R - Id) ^^ k'" by fastforce
  show ?case
  proof (cases "m = j")
    case True
    with m show ?thesis by (auto intro!: exI [of _ k'])
  next
    case False
    with m have "(i, j) \<in> (R - Id) ^^ Suc k'" by auto
    with m(2) show ?thesis by (metis Suc_le_mono)
  qed
qed simp

lemma relpow_subset: "(R :: ('a \<times> 'a) set) \<subseteq> S \<Longrightarrow> R ^^ k \<subseteq> S ^^ k"
  by (induction k) auto

lemma within_less: "within mx k \<Longrightarrow> k' \<le> k \<Longrightarrow> within mx k'"
  by (auto simp: within_def split: option.splits)

lemma seq_spans_cong: "(\<And>x. x \<in> set xs \<Longrightarrow> spans g txt x = spans h txt x) \<Longrightarrow> seq_spans g txt xs = seq_spans h txt xs"
  by (induction xs) simp_all

lemma steady_spans: "steady x \<Longrightarrow> spans True txt x = spans False txt x"
proof (induction x)
  case (N_Group inner)
  then show ?case
    unfolding spans.simps by (intro seq_spans_cong) (simp add: list_all_iff)
next
  case (N_Alt branches)
  then have "seq_spans True txt b = seq_spans False txt b" if "b \<in> set branches" for b
    using that by (intro seq_spans_cong) (simp add: list_all_iff)
  then show ?case by simp
next
  case (N_Repeat x mn mx)
  then have same: "spans True txt x = spans False txt x" by simp
  show ?case
  proof (cases "nullable x")
    case True
    with N_Repeat.prems have "mn = 0" by simp
    have "(spans False txt x - Id) ^^ k \<subseteq> spans False txt x ^^ k" for k
      by (rule relpow_subset) blast
    moreover have "\<exists>k'. within mx k' \<and> (i, j) \<in> (spans False txt x - Id) ^^ k'"
      if "(i, j) \<in> spans False txt x ^^ k" "within mx k" for i j k
      using relpow_drop_empty [OF that(1)] within_less [OF that(2)] by blast
    ultimately show ?thesis
      unfolding spans.simps same \<open>mn = 0\<close> by auto
  next
    case False
    then have "spans False txt x - Id = spans False txt x" by (auto dest: spans_nullable)
    with same show ?thesis by simp
  qed
qed simp_all

lemma seq_spans_mono: "(\<And>x. x \<in> set xs \<Longrightarrow> spans True txt x \<subseteq> spans False txt x) \<Longrightarrow> seq_spans True txt xs \<subseteq> seq_spans False txt xs"
  by (induction xs) (simp, simp add: relcomp_mono)

lemma growing_spans: "spans True txt x \<subseteq> spans False txt x"
proof (induction x)
  case (N_Group inner)
  then show ?case by (simp add: seq_spans_mono)
next
  case (N_Alt branches)
  then have "seq_spans True txt b \<subseteq> seq_spans False txt b" if "b \<in> set branches" for b
    using that by (intro seq_spans_mono) blast
  then show ?case by fastforce
next
  case (N_Repeat x mn mx)
  then have "(spans True txt x - Id) ^^ k \<subseteq> spans False txt x ^^ k" for k
    by (intro relpow_subset) auto
  then show ?case by fastforce
qed simp_all

section \<open>What a pattern matches\<close>

definition holds_match :: "bool \<Rightarrow> node list \<Rightarrow> chars \<Rightarrow> bool" where
  "holds_match growing nodes txt = (\<exists>i\<le>length txt. \<exists>j. (i, j) \<in> seq_spans growing txt nodes)"

lemma anchored_at_start: "anchored_start nodes \<Longrightarrow> (i, j) \<in> seq_spans growing txt nodes \<Longrightarrow> i = 0"
  by (cases nodes rule: anchored_start.cases) auto

lemma matches_chars_parsed:
  assumes "parse_pattern pattern = Some nodes"
  shows "\<exists>N. \<forall>n\<ge>N. matches_chars n pattern txt = Some (holds_match True nodes txt)"
proof -
  from every_sequence_settles obtain N where N: "\<And>n. n \<ge> N \<Longrightarrow> answers txt n nodes"
    unfolding settles_def by blast
  have run: "match_from n nodes txt ti (\<lambda>_. Some True) = Some (\<exists>j. (ti, j) \<in> seq_spans True txt nodes)"
    if "n \<ge> N" "ti \<le> length txt" for n ti
    using answersD [OF N [OF that(1)] that(2), of "\<lambda>_. Some True"] by (simp add: total_from_def)
  have "matches_chars n pattern txt = Some (holds_match True nodes txt)" if n: "n \<ge> N" for n
  proof (cases "anchored_start nodes")
    case True
    have "holds_match True nodes txt \<longleftrightarrow> (\<exists>j. (0, j) \<in> seq_spans True txt nodes)"
      unfolding holds_match_def using anchored_at_start [OF True] by blast
    with run [OF n, of 0] True show ?thesis
      by (simp add: matches_chars_def assms)
  next
    case False
    have "any_match (\<lambda>start. match_from n nodes txt start (\<lambda>_. Some True)) [0..<Suc (length txt)] =
        Some (\<exists>i\<in>set [0..<Suc (length txt)]. match_from n nodes txt i (\<lambda>_. Some True) = Some True)"
      using run [OF n] by (intro any_match_total) auto
    also have "\<dots> = Some (\<exists>i\<le>length txt. match_from n nodes txt i (\<lambda>_. Some True) = Some True)"
      by (simp only: set_upt Bex_def atLeastLessThan_iff less_Suc_eq_le le0 simp_thms)
    also have "\<dots> = Some (holds_match True nodes txt)"
      by (simp add: holds_match_def run [OF n] cong: conj_cong)
    finally show ?thesis
      using False by (simp add: matches_chars_def assms)
  qed
  then show ?thesis by blast
qed

lemma steady_holds_match: "list_all steady nodes \<Longrightarrow> holds_match True nodes txt = holds_match False nodes txt"
  unfolding holds_match_def by (subst seq_spans_cong [of nodes True _ False]) (auto simp: list_all_iff steady_spans)

lemma growing_holds_match: "holds_match True nodes txt \<Longrightarrow> holds_match False nodes txt"
  using seq_spans_mono [OF growing_spans, where xs = nodes] by (auto simp: holds_match_def)

text \<open>
  C17: the backtracking matcher always answers, and its answer is right. With enough fuel it returns, the same
  answer for all larger fuels; it refuses a pattern that does not parse; it finds a match only where the
  relational semantics has one, and finds one whenever there is one if no repetition that must happen can
  match nothing.
\<close>

theorem pattern_matcher_decides:
  "\<exists>b N. (\<forall>n\<ge>N. pattern_matches n pattern txt = Some b) \<and>
    (case parse_pattern (utf8_chars pattern) of
       None \<Rightarrow> \<not> b
     | Some nodes \<Rightarrow> (b \<longrightarrow> holds_match False nodes (utf8_chars txt)) \<and>
         (list_all steady nodes \<longrightarrow> b = holds_match False nodes (utf8_chars txt)))"
proof (cases "parse_pattern (utf8_chars pattern)")
  case None
  then have "pattern_matches n pattern txt = Some False" for n
    by (simp add: pattern_matches_def matches_chars_def)
  with None show ?thesis by auto
next
  case (Some nodes)
  with matches_chars_parsed [OF Some, of "utf8_chars txt"] growing_holds_match [of nodes] steady_holds_match [of nodes]
  show ?thesis
    by (auto simp: pattern_matches_def)
qed

text \<open>The e-mail shape: letters, an at sign, letters.\<close>

definition mail_shape :: string where "mail_shape = ''^[a-z]+@[a-z]+$''"

lemma mail_shape_parses:
  "parse_pattern (utf8_chars mail_shape) =
     Some [N_LineStart, N_Repeat (N_Class False [(''a'', ''z'')]) 1 None, N_Literal ''@'',
       N_Repeat (N_Class False [(''a'', ''z'')]) 1 None, N_LineEnd]"
  by code_simp

theorem pattern_matcher_decides_witness:
  "\<exists>N b. (\<forall>n\<ge>N. pattern_matches n mail_shape ''ab@c'' = Some b) \<and>
     b = holds_match False [N_LineStart, N_Repeat (N_Class False [(''a'', ''z'')]) 1 None, N_Literal ''@'',
       N_Repeat (N_Class False [(''a'', ''z'')]) 1 None, N_LineEnd] (utf8_chars ''ab@c'')"
  using pattern_matcher_decides [of mail_shape "''ab@c''"] by (auto simp: mail_shape_parses)

text \<open>
  C38: where a repetition that must happen can match nothing, the matcher misses matches: \<open>^(a*)+$\<close> is not
  found in the empty text, for any fuel that lets it answer, although one empty repetition matches there.
\<close>

theorem empty_repetition_missed:
  "\<exists>N. \<forall>n\<ge>N. pattern_matches n ''^(a*)+$'' [] = Some False \<and>
     (\<exists>nodes. parse_pattern (utf8_chars ''^(a*)+$'') = Some nodes \<and> holds_match False nodes [])"
proof -
  let ?nodes = "[N_LineStart, N_Repeat (N_Group [N_Repeat (N_Literal ''a'') 0 None]) 1 None, N_LineEnd]"
  have parsed: "parse_pattern (utf8_chars ''^(a*)+$'') = Some ?nodes" by code_simp
  have "(0, 0) \<in> spans False [] (N_Repeat (N_Literal ''a'') 0 None)"
    unfolding spans.simps by (rule UN_I [of 0]) (simp_all add: within_def)
  then have "(0, 0) \<in> spans False [] (N_Repeat (N_Group [N_Repeat (N_Literal ''a'') 0 None]) 1 None)"
    unfolding spans.simps(7) [where mn = 1] by (intro UN_I [of 1]) (auto simp: within_def simp del: spans.simps(7))
  then have "(0, 0) \<in> seq_spans False [] ?nodes"
    by (auto simp del: spans.simps(7))
  then have "holds_match False ?nodes []" by (auto simp: holds_match_def)
  moreover have "\<not> holds_match True ?nodes []"
  proof -
    have none: "spans True [] (N_Literal ''a'') - Id = {}" by auto
    have empty: "({} :: (nat \<times> nat) set) ^^ k \<subseteq> Id" "0 < k \<Longrightarrow> ({} :: (nat \<times> nat) set) ^^ k = {}" for k
      by (cases k; auto)+
    then have body: "spans True [] (N_Group [N_Repeat (N_Literal ''a'') 0 None]) - Id = {}"
      unfolding spans.simps(5,7) seq_spans.simps none by auto
    have "spans True [] (N_Repeat (N_Group [N_Repeat (N_Literal ''a'') 0 None]) 1 None) = {}"
      unfolding spans.simps(7) [where mn = 1] if_P [OF TrueI] body using empty(2) by simp
    then show ?thesis by (simp add: holds_match_def del: spans.simps)
  qed
  ultimately show ?thesis
    using matches_chars_parsed [OF parsed, of "[]"] parsed by (auto simp: pattern_matches_def)
qed

theorem empty_repetition_missed_witness: "\<exists>n. pattern_matches n ''^(a*)+$'' [] = Some False"
  using empty_repetition_missed by blast

section \<open>The declared subset\<close>

text \<open>
  The check of a declared pattern does not follow bracket classes or bounded repetitions: it refuses a class
  that lists two quantifier signs and admits a possessive bound.
\<close>

lemma subset_check_ignores_context:
  "validate (utf8_chars ''[*+]'') = Some ''possessive''"
  "validate (utf8_chars ''a{2}+'') = None"
  by code_simp+

text \<open>A lazy quantifier and a group without capture are admitted, but the matcher reads their signs as text.\<close>

lemma admitted_signs_read_as_text:
  "validate (utf8_chars ''a+?'') = None"
  "parse_pattern (utf8_chars ''a+?'') = Some [N_Repeat (N_Literal ''a'') 1 None, N_Literal ''?'']"
  "validate (utf8_chars ''(?:a)'') = None"
  "parse_pattern (utf8_chars ''(?:a)'') = Some [N_Group [N_Literal ''?'', N_Literal '':'', N_Literal ''a'']]"
  by code_simp+

end
