(* ===== verification/Whole_Value.thy ===== *)
theory Whole_Value
  imports Pattern_Laws Cursor_Laws
begin

text \<open>
  A declared pattern is enforced on the whole value: \<open>matches_whole\<close> of \<open>kernel/pattern.rs\<close> rewrites the text
  of the pattern before it is parsed. The rewriting is shown to commute with the parser: what is parsed is the
  declared pattern with its line anchors replaced, and a pattern between anchors must span the value.
\<close>

section \<open>The parser returns\<close>

lemma after_reading_Parsed [simp]:
  "after_reading m f = Parsed y r \<longleftrightarrow> (\<exists>x cs. m = Parsed x cs \<and> f x cs = Parsed y r)"
  by (cases m) auto

lemma after_reading_Starved [simp]:
  "after_reading m f = Starved \<longleftrightarrow> m = Starved \<or> (\<exists>x cs. m = Parsed x cs \<and> f x cs = Starved)"
  by (cases m) auto

lemma repeat_digits_shorter: "repeat_digits cs = Some (n, r) \<Longrightarrow> length r \<le> length cs"
  by (auto simp: repeat_digits_def Let_def length_dropWhile_le split: if_splits)

lemma bounded_repeat_shorter: "parse_bounded_repeat cs = Some (mn, mx, r) \<Longrightarrow> length r \<le> length cs"
  by (fastforce simp: parse_bounded_repeat_def bind_eq_Some_conv split: if_splits dest!: repeat_digits_shorter)

lemma quantifier_shorter: "quantifier cs = Some (mn, mx, r) \<Longrightarrow> length r \<le> length cs"
  by (auto simp: quantifier_def split: if_splits dest!: bounded_repeat_shorter)

lemma class_items_end: "cs = [] \<Longrightarrow> class_items first cs = None"
  by (simp add: class_items.simps)

lemma class_items_close: "class_items False ('']'' # cs) = Some ([], cs)"
  by (simp add: class_items.simps)

lemma class_items_member:
  "cs \<noteq> [] \<Longrightarrow> hd cs \<noteq> '']'' \<or> first \<Longrightarrow>
   class_items first cs =
     Option.bind (class_member cs) (\<lambda>(r, cs'). map_option (\<lambda>(rs, rest). (r # rs, rest)) (class_items False cs'))"
  by (subst class_items.simps) auto

lemma class_items_cases:
  assumes "cs = [] \<Longrightarrow> P" "\<And>rest. \<not> first \<Longrightarrow> cs = '']'' # rest \<Longrightarrow> P" "cs \<noteq> [] \<Longrightarrow> hd cs \<noteq> '']'' \<or> first \<Longrightarrow> P"
  shows P
  using assms by (cases cs) auto

lemma class_items_shorter: "class_items first cs = Some (rs, r) \<Longrightarrow> length r \<le> length cs"
proof (induction "length cs" arbitrary: first cs rs rule: less_induct)
  case less
  show ?case
  proof (rule class_items_cases [of cs _ first], goal_cases)
    case 1
    with less.prems show ?thesis by (simp add: class_items_end)
  next
    case (2 rest)
    with less.prems show ?thesis by (simp add: class_items_close)
  next
    case 3
    with less.prems obtain m cs' rs' where m: "class_member cs = Some (m, cs')" and rest: "class_items False cs' = Some (rs', r)"
      by (auto simp: class_items_member bind_eq_Some_conv)
    from less.hyps [OF class_member_shorter [OF m] rest] class_member_shorter [OF m] show ?thesis by simp
  qed
qed

lemma parse_class_shorter: "parse_class cs = Parsed x r \<Longrightarrow> length r \<le> length cs"
  by (cases cs) (auto simp: parse_class_def Let_def split: option.splits if_splits dest!: class_items_shorter)

lemma readings_shorter:
  "(\<forall>cs ns r. parse_alt n cs = Parsed ns r \<longrightarrow> length r \<le> length cs) \<and>
   (\<forall>cs bs r. parse_branches n cs = Parsed bs r \<longrightarrow> length r \<le> length cs) \<and>
   (\<forall>cs ns r. parse_concat n cs = Parsed ns r \<longrightarrow> length r \<le> length cs) \<and>
   (\<forall>cs x r. parse_repeat n cs = Parsed x r \<longrightarrow> length r < length cs) \<and>
   (\<forall>cs x r. parse_atom n cs = Parsed x r \<longrightarrow> length r < length cs)"
proof (induction n)
  case 0
  then show ?case by simp
next
  case (Suc n)
  then have alt: "\<And>cs ns r. parse_alt n cs = Parsed ns r \<Longrightarrow> length r \<le> length cs"
    and branches: "\<And>cs bs r. parse_branches n cs = Parsed bs r \<Longrightarrow> length r \<le> length cs"
    and con: "\<And>cs ns r. parse_concat n cs = Parsed ns r \<Longrightarrow> length r \<le> length cs"
    and rep: "\<And>cs x r. parse_repeat n cs = Parsed x r \<Longrightarrow> length r < length cs"
    and atom: "\<And>cs x r. parse_atom n cs = Parsed x r \<Longrightarrow> length r < length cs"
    by blast+
  have "parse_alt (Suc n) cs = Parsed ns r \<Longrightarrow> length r \<le> length cs" for cs ns r
    by (auto split: if_splits dest!: con branches)
  moreover have "parse_branches (Suc n) cs = Parsed bs r \<Longrightarrow> length r \<le> length cs" for cs bs r
    by (cases cs) (auto split: if_splits dest!: con branches)
  moreover have "parse_concat (Suc n) cs = Parsed ns r \<Longrightarrow> length r \<le> length cs" for cs ns r
    by (auto split: if_splits dest!: con rep)
  moreover have "parse_repeat (Suc n) cs = Parsed x r \<Longrightarrow> length r < length cs" for cs x r
  proof -
    assume "parse_repeat (Suc n) cs = Parsed x r"
    then obtain y mid where y: "parse_atom n cs = Parsed y mid" and "r = mid \<or> (\<exists>mn mx. quantifier mid = Some (mn, mx, r))"
      by (auto split: option.split_asm)
    then have "length r \<le> length mid" by (auto dest: quantifier_shorter)
    with atom [OF y] show ?thesis by simp
  qed
  moreover have "parse_atom (Suc n) cs = Parsed x r \<Longrightarrow> length r < length cs" for cs x r
    by (auto split: if_splits list.splits dest!: alt parse_class_shorter)
  ultimately show ?case by blast
qed

lemmas reading_shorter =
  readings_shorter [THEN conjunct1, rule_format]
  readings_shorter [THEN conjunct2, THEN conjunct1, rule_format]
  readings_shorter [THEN conjunct2, THEN conjunct2, THEN conjunct1, rule_format]
  readings_shorter [THEN conjunct2, THEN conjunct2, THEN conjunct2, THEN conjunct1, rule_format]
  readings_shorter [THEN conjunct2, THEN conjunct2, THEN conjunct2, THEN conjunct2, rule_format]

lemma parse_class_fed [simp]: "parse_class cs \<noteq> Starved"
  by (auto simp: parse_class_def Let_def split: option.splits)

lemma readings_fed:
  "(\<forall>cs. 5 * length cs + 5 \<le> n \<longrightarrow> parse_alt n cs \<noteq> Starved) \<and>
   (\<forall>cs. 5 * length cs + 4 \<le> n \<longrightarrow> parse_branches n cs \<noteq> Starved) \<and>
   (\<forall>cs. 5 * length cs + 3 \<le> n \<longrightarrow> parse_concat n cs \<noteq> Starved) \<and>
   (\<forall>cs. 5 * length cs + 2 \<le> n \<longrightarrow> parse_repeat n cs \<noteq> Starved) \<and>
   (\<forall>cs. 5 * length cs + 1 \<le> n \<longrightarrow> parse_atom n cs \<noteq> Starved)"
proof (induction n)
  case 0
  then show ?case by simp
next
  case (Suc n)
  then have alt: "\<And>cs. 5 * length cs + 5 \<le> n \<Longrightarrow> parse_alt n cs \<noteq> Starved"
    and branches: "\<And>cs. 5 * length cs + 4 \<le> n \<Longrightarrow> parse_branches n cs \<noteq> Starved"
    and con: "\<And>cs. 5 * length cs + 3 \<le> n \<Longrightarrow> parse_concat n cs \<noteq> Starved"
    and rep: "\<And>cs. 5 * length cs + 2 \<le> n \<Longrightarrow> parse_repeat n cs \<noteq> Starved"
    and atom: "\<And>cs. 5 * length cs + 1 \<le> n \<Longrightarrow> parse_atom n cs \<noteq> Starved"
    by blast+
  have "parse_alt (Suc n) cs \<noteq> Starved" if "5 * length cs + 5 \<le> Suc n" for cs
    using that con [of cs] branches by (auto dest: reading_shorter(3))
  moreover have "parse_branches (Suc n) cs \<noteq> Starved" if "5 * length cs + 4 \<le> Suc n" for cs
    using that con [of "tl cs"] branches by (cases cs) (auto dest: reading_shorter(3))
  moreover have "parse_concat (Suc n) cs \<noteq> Starved" if "5 * length cs + 3 \<le> Suc n" for cs
    using that rep [of cs] con by (auto dest: reading_shorter(4))
  moreover have "parse_repeat (Suc n) cs \<noteq> Starved" if "5 * length cs + 2 \<le> Suc n" for cs
    using that atom [of cs] by (auto split: option.splits)
  moreover have "parse_atom (Suc n) cs \<noteq> Starved" if "5 * length cs + 1 \<le> Suc n" for cs
    using that alt [of "tl cs"] by (cases cs) (auto split: list.splits)
  ultimately show ?case by blast
qed

lemma after_reading_mono:
  assumes "m \<noteq> Starved \<Longrightarrow> m' = m" "\<And>x cs. f x cs \<noteq> Starved \<Longrightarrow> f' x cs = f x cs"
    and "after_reading m f \<noteq> Starved"
  shows "after_reading m' f' = after_reading m f"
  using assms by (cases m) auto

definition fed_alike :: "nat \<Rightarrow> nat \<Rightarrow> bool" where
  "fed_alike n m \<longleftrightarrow>
     (\<forall>cs. parse_alt n cs \<noteq> Starved \<longrightarrow> parse_alt m cs = parse_alt n cs) \<and>
     (\<forall>cs. parse_branches n cs \<noteq> Starved \<longrightarrow> parse_branches m cs = parse_branches n cs) \<and>
     (\<forall>cs. parse_concat n cs \<noteq> Starved \<longrightarrow> parse_concat m cs = parse_concat n cs) \<and>
     (\<forall>cs. parse_repeat n cs \<noteq> Starved \<longrightarrow> parse_repeat m cs = parse_repeat n cs) \<and>
     (\<forall>cs. parse_atom n cs \<noteq> Starved \<longrightarrow> parse_atom m cs = parse_atom n cs)"

lemma fed_alike_Suc:
  assumes "fed_alike n m"
  shows "fed_alike (Suc n) (Suc m)"
proof -
  have same: "parse_alt n cs \<noteq> Starved \<Longrightarrow> parse_alt m cs = parse_alt n cs"
      "parse_branches n cs \<noteq> Starved \<Longrightarrow> parse_branches m cs = parse_branches n cs"
      "parse_concat n cs \<noteq> Starved \<Longrightarrow> parse_concat m cs = parse_concat n cs"
      "parse_repeat n cs \<noteq> Starved \<Longrightarrow> parse_repeat m cs = parse_repeat n cs"
      "parse_atom n cs \<noteq> Starved \<Longrightarrow> parse_atom m cs = parse_atom n cs" for cs
    using assms unfolding fed_alike_def by blast+
  have "parse_alt (Suc m) cs = parse_alt (Suc n) cs" if "parse_alt (Suc n) cs \<noteq> Starved" for cs
    using that unfolding parse_alt.simps
    by (rule after_reading_mono [OF same(3), rotated 2]) (auto intro!: after_reading_mono [OF same(2)] split: if_splits)
  moreover have "parse_branches (Suc m) cs = parse_branches (Suc n) cs" if "parse_branches (Suc n) cs \<noteq> Starved" for cs
    using that unfolding parse_branches.simps
    by (auto intro!: after_reading_mono [OF same(3)] after_reading_mono [OF same(2)] split: if_splits)
  moreover have "parse_concat (Suc m) cs = parse_concat (Suc n) cs" if "parse_concat (Suc n) cs \<noteq> Starved" for cs
    using that unfolding parse_concat.simps
    by (auto intro!: after_reading_mono [OF same(4)] after_reading_mono [OF same(3)] split: if_splits)
  moreover have "parse_repeat (Suc m) cs = parse_repeat (Suc n) cs" if "parse_repeat (Suc n) cs \<noteq> Starved" for cs
    using that unfolding parse_repeat.simps
    by (rule after_reading_mono [OF same(5), rotated 2]) auto
  moreover have "parse_atom (Suc m) cs = parse_atom (Suc n) cs" if "parse_atom (Suc n) cs \<noteq> Starved" for cs
    using that unfolding parse_atom.simps
    by (cases cs) (auto intro!: after_reading_mono [OF same(1)] split: if_splits)
  ultimately show ?thesis unfolding fed_alike_def by blast
qed

lemma readings_mono: "fed_alike n (Suc n)"
proof (induction n)
  case 0
  then show ?case by (simp add: fed_alike_def)
qed (rule fed_alike_Suc)

lemma parse_alt_fuel: "pattern_fuel cs \<le> n \<Longrightarrow> parse_alt n cs = parse_alt (pattern_fuel cs) cs \<and> parse_alt n cs \<noteq> Starved"
proof (induction n rule: dec_induct)
  case base
  then show ?case using readings_fed [of "pattern_fuel cs"] by (simp add: pattern_fuel_def)
next
  case (step n)
  then show ?case using readings_mono [of n] unfolding fed_alike_def by metis
qed

section \<open>Rewriting the anchors\<close>

text \<open>\<open>whole_from\<close> without indices: inside a class only the first member may be a closing bracket.\<close>

fun whole_out :: "chars \<Rightarrow> chars" and whole_class :: "bool \<Rightarrow> chars \<Rightarrow> chars" where
  "whole_out [] = []"
| "whole_out (c # cs) =
     (if c = backslash then (case cs of [] \<Rightarrow> [c] | e # cs' \<Rightarrow> c # e # whole_out cs')
      else if c = ''['' then
        (case cs of [] \<Rightarrow> [c] | d # cs' \<Rightarrow> if d = ''^'' then c # d # whole_class True cs' else c # whole_class True (d # cs'))
      else if c = ''^'' then backslash # ''A'' # whole_out cs
      else if c = ''$'' then backslash # ''z'' # whole_out cs
      else c # whole_out cs)"
| "whole_class first [] = []"
| "whole_class first (c # cs) =
     (if c = backslash then (case cs of [] \<Rightarrow> [c] | e # cs' \<Rightarrow> c # e # whole_class False cs')
      else if c = '']'' \<and> \<not> first then c # whole_out cs
      else c # whole_class False cs)"

lemma backslash_apart [simp]:
  "''^'' \<noteq> backslash" "''['' \<noteq> backslash" "'']'' \<noteq> backslash" "''|'' \<noteq> backslash" "'')'' \<noteq> backslash" "''('' \<noteq> backslash"
  "''*'' \<noteq> backslash" "''+'' \<noteq> backslash" "''?'' \<noteq> backslash" "''{'' \<noteq> backslash" "''}'' \<noteq> backslash" "'','' \<noteq> backslash"
  "''.'' \<noteq> backslash" "''$'' \<noteq> backslash" "''-'' \<noteq> backslash"
  by (simp_all add: backslash_def)

lemmas backslash_apart' [simp] = backslash_apart [symmetric]

lemma whole_from_eq:
  "whole_from i False s cs = whole_out cs \<and>
   (s < i \<longrightarrow> whole_from i True s cs = whole_class False cs) \<and>
   whole_from i True i cs = whole_class True cs"
proof (induction "length cs" arbitrary: i s cs rule: less_induct)
  case less
  have out: "whole_from j False t ds = whole_out ds" if "length ds < length cs" for j t ds
    using less [OF that] by blast
  have inside: "whole_from j True t ds = whole_class False ds" if "length ds < length cs" "t < j" for j t ds
    using less [OF that(1)] that(2) by blast
  have first: "whole_from j True j ds = whole_class True ds" if "length ds < length cs" for j ds
    using less [OF that] by blast
  show ?case
  proof (cases cs)
    case (Cons c rest)
    note one = whole_from.simps(2) whole_out.simps(2) whole_class.simps(2)
    have caret: "whole_from j True (Suc j) (''^'' # ds) = ''^'' # whole_from (Suc j) True (Suc j) ds" for j ds
      by simp
    have shorter: "length rest < length cs" "rest = e # ds \<Longrightarrow> length ds < length cs" for e ds
      using Cons by auto
    have "whole_from i False s cs = whole_out cs"
    proof (cases rest)
      case Nil
      then show ?thesis unfolding Cons by simp
    next
      case (Cons e ds)
      have long: "whole_from j False t (e # ds) = whole_out (e # ds)" "whole_from j True j (e # ds) = whole_class True (e # ds)" for j t
        using out [OF shorter(1)] first [OF shorter(1)] Cons by blast+
      have short: "whole_from j False t ds = whole_out ds" "whole_from j True j ds = whole_class True ds" for j t
        using out [OF shorter(2)] first [OF shorter(2)] Cons by blast+
      show ?thesis
        unfolding \<open>cs = _\<close> Cons whole_from.simps(2) [of i False s c] whole_out.simps(2) [of c]
        by (simp add: long short caret del: one)
    qed
    moreover have "whole_from i True s cs = whole_class False cs" if "s < i"
      unfolding Cons one using that
      by (simp add: out [OF shorter(1)] out [OF shorter(2)] inside [OF shorter(1)] inside [OF shorter(2)] del: one split: list.splits)
    moreover have "whole_from i True i cs = whole_class True cs"
      unfolding Cons one
      by (simp add: out [OF shorter(1)] inside [OF shorter(1)] inside [OF shorter(2)] del: one split: list.splits)
    ultimately show ?thesis by blast
  qed simp
qed

lemma whole_string_chars: "whole_string pattern = concat (whole_out (utf8_chars pattern))"
  using whole_from_eq by (simp add: whole_string_def)

section \<open>Rewriting commutes with parsing\<close>

fun to_whole :: "node \<Rightarrow> node" where
  "to_whole N_LineStart = N_StringStart"
| "to_whole N_LineEnd = N_StringEnd"
| "to_whole (N_Group inner) = N_Group (map to_whole inner)"
| "to_whole (N_Alt branches) = N_Alt (map (map to_whole) branches)"
| "to_whole (N_Repeat x mn mx) = N_Repeat (to_whole x) mn mx"
| "to_whole x = x"

fun read_whole :: "('a \<Rightarrow> 'a) \<Rightarrow> 'a reading \<Rightarrow> 'a reading" where
  "read_whole f (Parsed x cs) = Parsed (f x) (whole_out cs)"
| "read_whole f Bad = Bad"
| "read_whole f Starved = Starved"

lemma read_whole_after:
  "(\<And>x cs. g' (f x) (whole_out cs) = read_whole h (g x cs)) \<Longrightarrow> after_reading (read_whole f m) g' = read_whole h (after_reading m g)"
  by (cases m) simp_all

text \<open>In a class nothing but the state changes.\<close>

lemma next_char_class [simp]: "next_char (whole_class first cs) = next_char cs"
proof (cases cs)
  case (Cons c rest)
  then show ?thesis
    unfolding Cons whole_class.simps(2) by (cases rest) (simp_all del: whole_class.simps whole_out.simps)
qed simp

lemma class_char_whole:
  assumes "cs \<noteq> [] \<Longrightarrow> hd cs \<noteq> '']'' \<or> first"
  shows "class_char (whole_class first cs) = map_option (\<lambda>(c, cs'). (c, whole_class False cs')) (class_char cs)"
proof (cases cs)
  case (Cons c rest)
  with assms show ?thesis
    unfolding Cons whole_class.simps(2) by (cases rest) (auto simp del: whole_class.simps whole_out.simps)
qed simp

lemma next_char_range: "range_ahead cs \<longleftrightarrow> next_char cs = Some ''-'' \<and> next_char (tl cs) \<noteq> None \<and> next_char (tl cs) \<noteq> Some '']''"
  by (cases cs rule: range_ahead.cases) auto

lemma dash_whole: "next_char cs = Some ''-'' \<Longrightarrow> tl (whole_class False cs) = whole_class False (tl cs)"
  by (cases cs) auto

lemma range_ahead_whole [simp]: "range_ahead (whole_class False cs) = range_ahead cs"
  by (auto simp: next_char_range dash_whole)

lemma class_member_whole:
  assumes "cs \<noteq> [] \<Longrightarrow> hd cs \<noteq> '']'' \<or> first"
  shows "class_member (whole_class first cs) = map_option (\<lambda>(r, cs'). (r, whole_class False cs')) (class_member cs)"
proof (cases "class_char cs")
  case None
  then show ?thesis by (simp add: class_member_def class_char_whole [OF assms])
next
  case (Some p)
  obtain lo mid where p: "p = (lo, mid)" by fastforce
  have "class_char (tl (whole_class False mid)) = map_option (\<lambda>(c, cs'). (c, whole_class False cs')) (class_char (tl mid))" if "range_ahead mid"
    using that dash_whole [of mid] class_char_whole [of "tl mid" False] by (cases "tl mid") (auto simp: next_char_range)
  with Some p show ?thesis
    by (auto simp: class_member_def class_char_whole [OF assms] option.map_comp o_def case_prod_beta)
qed

lemma class_items_whole:
  "class_items first (whole_class first cs) = map_option (\<lambda>(rs, r). (rs, whole_out r)) (class_items first cs)"
proof (induction "length cs" arbitrary: first cs rule: less_induct)
  case less
  show ?case
  proof (rule class_items_cases [of cs _ first], goal_cases)
    case 1
    then show ?case by (simp add: class_items_end)
  next
    case (2 rest)
    then show ?case by (simp add: class_items_close)
  next
    case 3
    have whole: "whole_class first cs \<noteq> []" "hd (whole_class first cs) \<noteq> '']'' \<or> first"
      using 3 next_char_class [of first cs] by (cases cs; cases "whole_class first cs"; force)+
    show ?case
    proof (cases "class_member cs")
      case None
      then show ?thesis using 3 whole by (simp add: class_items_member class_member_whole)
    next
      case (Some m)
      then obtain r mid where m: "class_member cs = Some (r, mid)" by (cases m) auto
      from less [OF class_member_shorter [OF m], of False] m 3 whole show ?thesis
        by (simp add: class_items_member class_member_whole option.map_comp o_def case_prod_beta)
    qed
  qed
qed

definition plain :: "string \<Rightarrow> bool" where
  "plain c \<longleftrightarrow> c \<notin> {backslash, ''['', ''^'', ''$''}"

lemma next_char_whole:
  "next_char (whole_out cs) = map_option (\<lambda>c. if c = ''^'' \<or> c = ''$'' then backslash else c) (next_char cs)"
proof (cases cs)
  case (Cons c rest)
  then show ?thesis
    unfolding Cons whole_out.simps(2) by (cases rest) (simp_all del: whole_class.simps whole_out.simps)
qed simp

lemma next_char_out: "plain c \<Longrightarrow> next_char (whole_out cs) = Some c \<longleftrightarrow> next_char cs = Some c"
  by (cases "next_char cs") (auto simp: next_char_whole plain_def)

lemma whole_out_plain: "plain c \<Longrightarrow> whole_out (c # cs) = c # whole_out cs"
  by (simp add: plain_def)

lemma tl_out: "next_char cs = Some c \<Longrightarrow> plain c \<Longrightarrow> tl (whole_out cs) = whole_out (tl cs)"
  by (cases cs) (simp_all add: whole_out_plain del: whole_out.simps)

lemma plain_chars [simp]:
  "plain ''|''" "plain '')''" "plain ''(''" "plain ''*''" "plain ''+''" "plain ''?''" "plain ''{''" "plain ''}''" "plain '',''" "plain ''.''"
  by (simp_all add: plain_def)

lemma digits_whole [simp]:
  "takeWhile is_digit_char (whole_out cs) = takeWhile is_digit_char cs"
  "dropWhile is_digit_char (whole_out cs) = whole_out (dropWhile is_digit_char cs)"
proof -
  have digit: "is_digit_char c \<Longrightarrow> plain c" for c
    by (auto simp: plain_def is_digit_char_def is_ascii_digit_def backslash_def)
  have stop: "takeWhile is_digit_char (whole_out (c # ds)) = []" "dropWhile is_digit_char (whole_out (c # ds)) = whole_out (c # ds)"
    if "\<not> is_digit_char c" for c ds
  proof -
    have "\<not> is_digit_char backslash" by (simp add: is_digit_char_def is_ascii_digit_def backslash_def)
    with that next_char_whole [of "c # ds"] obtain d es where "whole_out (c # ds) = d # es" "\<not> is_digit_char d"
      by (cases "whole_out (c # ds)") (auto split: if_splits)
    then show "takeWhile is_digit_char (whole_out (c # ds)) = []" "dropWhile is_digit_char (whole_out (c # ds)) = whole_out (c # ds)"
      by simp_all
  qed
  have "takeWhile is_digit_char (whole_out cs) = takeWhile is_digit_char cs \<and>
    dropWhile is_digit_char (whole_out cs) = whole_out (dropWhile is_digit_char cs)"
  proof (induction cs)
    case (Cons c ds)
    then show ?case
      by (cases "is_digit_char c") (simp_all add: whole_out_plain digit stop del: whole_out.simps(2))
  qed simp
  then show "takeWhile is_digit_char (whole_out cs) = takeWhile is_digit_char cs"
    "dropWhile is_digit_char (whole_out cs) = whole_out (dropWhile is_digit_char cs)"
    by blast+
qed

lemma repeat_digits_whole: "repeat_digits (whole_out cs) = map_option (\<lambda>(n, r). (n, whole_out r)) (repeat_digits cs)"
  by (simp add: repeat_digits_def Let_def)

lemma bounded_repeat_whole:
  "parse_bounded_repeat (whole_out cs) = map_option (\<lambda>(mn, mx, r). (mn, mx, whole_out r)) (parse_bounded_repeat cs)"
proof (cases "repeat_digits cs")
  case None
  then show ?thesis by (simp add: parse_bounded_repeat_def repeat_digits_whole)
next
  case (Some p)
  obtain mn ds where p: "p = (mn, ds)" by fastforce
  show ?thesis
    by (cases "repeat_digits (tl ds)")
      (auto simp: parse_bounded_repeat_def repeat_digits_whole Some p next_char_out tl_out)
qed

lemma quantifier_whole: "quantifier (whole_out cs) = map_option (\<lambda>(mn, mx, r). (mn, mx, whole_out r)) (quantifier cs)"
  by (simp add: quantifier_def next_char_out tl_out bounded_repeat_whole)

lemma parse_class_whole:
  "\<exists>ds. whole_out (''['' # cs) = ''['' # ds \<and> parse_class ds = read_whole to_whole (parse_class cs)"
proof (cases "next_char cs = Some ''^''")
  case True
  then obtain rest where cs: "cs = ''^'' # rest" by (cases cs) auto
  have "whole_out (''['' # cs) = ''['' # ''^'' # whole_class True rest" by (simp add: cs del: whole_class.simps)
  moreover have "parse_class (''^'' # whole_class True rest) = read_whole to_whole (parse_class cs)"
    by (simp add: cs parse_class_def class_items_whole split: option.splits)
  ultimately show ?thesis by blast
next
  case False
  then have "whole_out (''['' # cs) = ''['' # whole_class True cs"
    by (cases cs) (simp_all del: whole_class.simps(2))
  moreover from False have "parse_class (whole_class True cs) = read_whole to_whole (parse_class cs)"
    by (simp add: parse_class_def class_items_whole split: option.splits)
  ultimately show ?thesis by blast
qed

definition reads_whole :: "nat \<Rightarrow> bool" where
  "reads_whole n \<longleftrightarrow>
     (\<forall>cs. parse_alt n (whole_out cs) = read_whole (map to_whole) (parse_alt n cs)) \<and>
     (\<forall>cs. parse_branches n (whole_out cs) = read_whole (map (map to_whole)) (parse_branches n cs)) \<and>
     (\<forall>cs. parse_concat n (whole_out cs) = read_whole (map to_whole) (parse_concat n cs)) \<and>
     (\<forall>cs. parse_repeat n (whole_out cs) = read_whole to_whole (parse_repeat n cs)) \<and>
     (\<forall>cs. parse_atom n (whole_out cs) = read_whole to_whole (parse_atom n cs))"

lemma ends_sequence_whole:
  "(whole_out cs = [] \<or> hd (whole_out cs) = ''|'' \<or> hd (whole_out cs) = '')'') \<longleftrightarrow> (cs = [] \<or> hd cs = ''|'' \<or> hd cs = '')'')"
proof -
  have ends: "(ds = [] \<or> hd ds = ''|'' \<or> hd ds = '')'') \<longleftrightarrow> next_char ds = None \<or> next_char ds = Some ''|'' \<or> next_char ds = Some '')''" for ds
    by (cases ds) auto
  show ?thesis
    unfolding ends by (simp add: next_char_out) (simp add: next_char_whole)
qed

lemma parse_atom_whole:
  assumes "\<And>cs. parse_alt n (whole_out cs) = read_whole (map to_whole) (parse_alt n cs)"
  shows "parse_atom (Suc n) (whole_out cs) = read_whole to_whole (parse_atom (Suc n) cs)"
proof (cases cs)
  case Nil
  then show ?thesis by simp
next
  case (Cons c rest)
  consider "c = backslash" | "c = ''[''" | "c = ''^''" | "c = ''$''" | "c = ''(''" | "plain c" "c \<noteq> ''(''"
    by (auto simp: plain_def)
  then show ?thesis
  proof cases
    case 1
    then show ?thesis unfolding Cons by (cases rest) simp_all
  next
    case 2
    with parse_class_whole [of rest] show ?thesis
      unfolding Cons by (auto simp del: whole_out.simps)
  next
    case 3
    then show ?thesis unfolding Cons by (simp add: backslash_def)
  next
    case 4
    then show ?thesis unfolding Cons by (simp add: backslash_def)
  next
    case 5
    have "after_reading (read_whole (map to_whole) (parse_alt n rest)) (\<lambda>inner cs.
          if next_char cs = Some '')'' then Parsed (N_Group inner) (tl cs) else Bad) =
        read_whole to_whole (after_reading (parse_alt n rest) (\<lambda>inner cs.
          if next_char cs = Some '')'' then Parsed (N_Group inner) (tl cs) else Bad))"
      by (rule read_whole_after) (simp add: next_char_out tl_out)
    with 5 show ?thesis unfolding Cons by (simp add: assms whole_out_plain del: whole_out.simps)
  next
    case 6
    then show ?thesis
      unfolding Cons whole_out_plain [OF 6(1)] by (simp add: plain_def)
  qed
qed

lemma every_reading_whole: "reads_whole n"
proof (induction n)
  case 0
  then show ?case by (simp add: reads_whole_def)
next
  case (Suc n)
  then have IH: "parse_alt n (whole_out cs) = read_whole (map to_whole) (parse_alt n cs)"
    "parse_branches n (whole_out cs) = read_whole (map (map to_whole)) (parse_branches n cs)"
    "parse_concat n (whole_out cs) = read_whole (map to_whole) (parse_concat n cs)"
    "parse_repeat n (whole_out cs) = read_whole to_whole (parse_repeat n cs)"
    "parse_atom n (whole_out cs) = read_whole to_whole (parse_atom n cs)" for cs
    unfolding reads_whole_def by blast+
  have "parse_alt (Suc n) (whole_out cs) = read_whole (map to_whole) (parse_alt (Suc n) cs)" for cs
    by (simp add: IH next_char_out read_whole_after [where h = "map to_whole"] if_distrib [of "read_whole _"] cong: if_cong)
  moreover have "parse_branches (Suc n) (whole_out cs) = read_whole (map (map to_whole)) (parse_branches (Suc n) cs)" for cs
    by (auto simp: IH next_char_out tl_out intro!: read_whole_after)
  moreover have "parse_concat (Suc n) (whole_out cs) = read_whole (map to_whole) (parse_concat (Suc n) cs)" for cs
    by (auto simp: IH ends_sequence_whole intro!: read_whole_after)
  moreover have "parse_repeat (Suc n) (whole_out cs) = read_whole to_whole (parse_repeat (Suc n) cs)" for cs
    by (auto simp: IH quantifier_whole intro!: read_whole_after split: option.splits)
  moreover have "parse_atom (Suc n) (whole_out cs) = read_whole to_whole (parse_atom (Suc n) cs)" for cs
    by (rule parse_atom_whole) (rule IH)
  ultimately show ?case unfolding reads_whole_def by blast
qed

text \<open>The rewriting keeps or lengthens the text and brings in the characters of the two anchors only.\<close>

definition respells :: "chars \<Rightarrow> chars \<Rightarrow> bool" where
  "respells cs ds \<longleftrightarrow> length cs \<le> length ds \<and> set ds \<subseteq> set cs \<union> {backslash, ''A'', ''z''}"

lemma respells_simps:
  "respells [] []"
  "respells cs ds \<Longrightarrow> respells (c # cs) (c # ds)"
  "respells cs ds \<Longrightarrow> respells (c # cs) (backslash # ''A'' # ds)"
  "respells cs ds \<Longrightarrow> respells (c # cs) (backslash # ''z'' # ds)"
  by (auto simp: respells_def)

lemma whole_respells: "respells cs (whole_out cs) \<and> respells cs (whole_class first cs)"
proof (induction "length cs" arbitrary: first cs rule: less_induct)
  case less
  show ?case
  proof (cases cs)
    case Nil
    then show ?thesis by (simp add: respells_simps)
  next
    case (Cons c rest)
    have rest: "respells rest (whole_out rest)" "\<forall>first. respells rest (whole_class first rest)"
      and later: "\<forall>e ds first. rest = e # ds \<longrightarrow> respells ds (whole_out ds) \<and> respells ds (whole_class first ds)"
      using less Cons by auto
    have "respells cs (whole_out cs)"
      unfolding Cons whole_out.simps(2) using rest later
      by (auto simp del: whole_out.simps whole_class.simps intro!: respells_simps split: list.split)
    moreover have "respells cs (whole_class first cs)"
      unfolding Cons whole_class.simps(2) using rest later
      by (auto simp del: whole_out.simps whole_class.simps intro!: respells_simps split: list.split)
    ultimately show ?thesis by blast
  qed
qed

lemma whole_out_Nil [simp]: "whole_out cs = [] \<longleftrightarrow> cs = []"
  using next_char_whole [of cs] by (cases cs; cases "whole_out cs") auto

lemma parse_pattern_whole: "parse_pattern (whole_out cs) = map_option (map to_whole) (parse_pattern cs)"
proof -
  have "parse_alt (pattern_fuel (whole_out cs)) (whole_out cs) = read_whole (map to_whole) (parse_alt (pattern_fuel cs) cs)"
    using every_reading_whole [of "pattern_fuel (whole_out cs)"] parse_alt_fuel [of cs "pattern_fuel (whole_out cs)"] whole_respells [of cs]
    by (simp add: reads_whole_def respells_def pattern_fuel_def)
  then show ?thesis
    by (auto simp: parse_pattern_def split: reading.splits list.splits)
qed

section \<open>Characters of the rewritten text\<close>

definition one_char :: "string \<Rightarrow> bool" where
  "one_char c \<longleftrightarrow> c \<noteq> [] \<and> starts_char c \<and> utf8_chars c = [c]"

lemma utf8_chars_concat: "list_all one_char cs \<Longrightarrow> utf8_chars (concat cs) = cs \<and> starts_char (concat cs)"
  by (induction cs) (auto simp: one_char_def utf8_chars_append)

lemma utf8_valid_one_char: "utf8_valid s \<Longrightarrow> list_all one_char (utf8_chars s)"
proof (induction rule: utf8_valid_induct)
  case (char c t)
  then show ?case
    using utf8_char_ok [of c] utf8_valid_ok [of t] by (auto simp: utf8_chars_append one_char_def utf8_char_def)
qed simp

lemma whole_string_reads: "utf8_valid p \<Longrightarrow> utf8_chars (whole_string p) = whole_out (utf8_chars p)"
proof -
  assume "utf8_valid p"
  moreover have "one_char backslash" "one_char ''A''" "one_char ''z''" by code_simp+
  ultimately have "list_all one_char (whole_out (utf8_chars p))"
    using utf8_valid_one_char [of p] whole_respells [of "utf8_chars p"] by (auto simp: list_all_iff respells_def)
  then show ?thesis by (simp add: whole_string_chars utf8_chars_concat)
qed

section \<open>Anchored patterns\<close>

lemma matches_whole_decides:
  assumes "utf8_valid pattern" "parse_pattern (utf8_chars pattern) = Some nodes"
  shows "\<exists>N. \<forall>n\<ge>N. matches_whole n pattern txt = Some (holds_match True (map to_whole nodes) (utf8_chars txt))"
  using matches_chars_parsed [of "whole_out (utf8_chars pattern)" "map to_whole nodes" "utf8_chars txt"] assms
  by (simp add: matches_whole_def pattern_matches_def whole_string_reads parse_pattern_whole)

lemma seq_spans_append: "seq_spans growing txt (xs @ ys) = seq_spans growing txt xs O seq_spans growing txt ys"
  by (induction xs) (simp_all add: O_assoc)

lemma nullable_to_whole [simp]: "nullable (to_whole x) = nullable x"
  by (induction x) (simp_all add: list_all_iff list_ex_iff)

lemma steady_to_whole [simp]: "steady (to_whole x) = steady x"
  by (induction x) (simp_all add: list_all_iff)

text \<open>
  C18: an anchored pattern is enforced on the whole value. When the declared pattern reads as \<open>^\<close>, a body and
  \<open>$\<close>, the matcher that dispatch uses answers for every value, and it accepts only values that the body spans
  from the first character to the last, line breaks included: no text before or after a line break gets
  past it. It accepts every such value too when no repetition of the body that must happen can match nothing; with
  such a repetition it can refuse a value the body spans.
\<close>

theorem anchored_pattern_spans_value:
  assumes "utf8_valid pattern"
    and "parse_pattern (utf8_chars pattern) = Some (N_LineStart # body @ [N_LineEnd])"
  shows "\<exists>b N. (\<forall>n\<ge>N. matches_whole n pattern txt = Some b) \<and>
    (b \<longrightarrow> (0, length (utf8_chars txt)) \<in> seq_spans False (utf8_chars txt) (map to_whole body)) \<and>
    (list_all steady body \<longrightarrow>
      (b \<longleftrightarrow> (0, length (utf8_chars txt)) \<in> seq_spans False (utf8_chars txt) (map to_whole body)))"
proof -
  let ?t = "utf8_chars txt"
  have "holds_match True (map to_whole (N_LineStart # body @ [N_LineEnd])) ?t \<longleftrightarrow>
      (0, length ?t) \<in> seq_spans True ?t (map to_whole body)"
    by (auto simp: holds_match_def seq_spans_append)
  moreover have "seq_spans True ?t (map to_whole body) \<subseteq> seq_spans False ?t (map to_whole body)"
    by (intro seq_spans_mono growing_spans)
  moreover have "seq_spans True ?t (map to_whole body) = seq_spans False ?t (map to_whole body)" if "list_all steady body"
    using that by (intro seq_spans_cong steady_spans) (auto simp: list_all_iff)
  ultimately show ?thesis using matches_whole_decides [OF assms, of "txt"] by blast
qed

theorem anchored_pattern_spans_value_witness:
  "\<exists>b N. (\<forall>n\<ge>N. matches_whole n mail_shape ''ab@c'' = Some b) \<and>
    (b \<longleftrightarrow> (0, length (utf8_chars ''ab@c'')) \<in> seq_spans False (utf8_chars ''ab@c'')
       (map to_whole [N_Repeat (N_Class False [(''a'', ''z'')]) 1 None, N_Literal ''@'', N_Repeat (N_Class False [(''a'', ''z'')]) 1 None]))"
proof -
  let ?body = "[N_Repeat (N_Class False [(''a'', ''z'')]) 1 None, N_Literal ''@'', N_Repeat (N_Class False [(''a'', ''z'')]) 1 None]"
  have "utf8_valid mail_shape" by code_simp
  moreover have "parse_pattern (utf8_chars mail_shape) = Some (N_LineStart # ?body @ [N_LineEnd])"
    by (simp add: mail_shape_parses)
  moreover have "list_all steady ?body" by simp
  ultimately show ?thesis using anchored_pattern_spans_value [of mail_shape ?body "''ab@c''"] by blast
qed

end
