(* ===== verification/Expression_Text.thy ===== *)
theory Expression_Text
  imports Expressions
begin

text \<open>
  The text of a predicate read into a tree: \<open>rust/parser/src/expr\<close> (\<open>mod.rs\<close>, \<open>evaluator.rs\<close>,
  \<open>resolver.rs\<close>). The readers look at bytes, and every byte they look for is ASCII, so texts are byte
  sequences throughout; bracket depths are integers.

  \<open>read_form\<close> is the cascade of tests of \<open>resolver::parse\<close>, in the source's order: it names the node a
  text is read as and the texts of its parts, and the two mutually recursive readers build the tree. \<open>None\<close>
  as a result is the source's panic on an integer literal that does not fit 64 bits.
\<close>

section \<open>Comparison operators\<close>

record operator_row =
  or_symbol :: string
  or_less_than :: bool
  or_equal :: bool
  or_negated :: bool

definition OPERATORS :: "operator_row list" where
  "OPERATORS =
     [\<lparr>or_symbol = ''>='', or_less_than = True, or_equal = False, or_negated = True\<rparr>,
      \<lparr>or_symbol = ''<='', or_less_than = True, or_equal = True, or_negated = False\<rparr>,
      \<lparr>or_symbol = ''<'', or_less_than = True, or_equal = False, or_negated = False\<rparr>,
      \<lparr>or_symbol = ''>'', or_less_than = True, or_equal = True, or_negated = True\<rparr>,
      \<lparr>or_symbol = ''=='', or_less_than = False, or_equal = True, or_negated = False\<rparr>,
      \<lparr>or_symbol = ''!='', or_less_than = False, or_equal = True, or_negated = True\<rparr>]"

definition find_operator :: "string \<Rightarrow> operator_row option" where
  "find_operator symbol = List.find (\<lambda>op. or_symbol op = symbol) OPERATORS"

section \<open>Trees\<close>

datatype resolver =
    R_Integer i64
  | R_Float f64
  | R_String string
  | R_Bool bool
  | R_Nil
  | R_Addition resolver resolver
  | R_Subtraction resolver resolver
  | R_Multiplication resolver resolver
  | R_Division resolver resolver
  | R_SignTest "operator_row option" resolver
  | R_Empty resolver
  | R_ToS resolver
  | R_Modulo resolver resolver
  | R_Size resolver
  | R_Lookup string
  | R_Array "resolver list"
  | R_BlockPredicate block_mode resolver string predicate_tree
  | R_MatchesRegex resolver string string
  | R_Presence resolver bool
  | R_Assignment resolver bool
  | R_Split resolver string
  | R_Strip resolver string
  | R_First resolver
  | R_Last resolver
  | R_StartsWith resolver string
  | R_EndsWith resolver string
  | R_Find resolver string predicate_tree "string list"
  | R_Sum resolver string predicate_tree
and predicate_tree =
    B_Or predicate_tree predicate_tree
  | B_And predicate_tree predicate_tree
  | B_Not predicate_tree
  | B_Compare operator_row resolver resolver
  | B_Include resolver resolver
  | B_Resolve resolver

section \<open>Scanning\<close>

definition is_quote :: "char \<Rightarrow> bool" where
  "is_quote c \<longleftrightarrow> c = CHR 0x22 \<or> c = CHR 0x27"

definition is_ascii_alphanumeric :: "char \<Rightarrow> bool" where
  "is_ascii_alphanumeric c \<longleftrightarrow>
     (let n = (of_char c :: int) in 48 \<le> n \<and> n \<le> 57 \<or> 65 \<le> n \<and> n \<le> 90 \<or> 97 \<le> n \<and> n \<le> 122)"

definition is_ascii_lowercase :: "char \<Rightarrow> bool" where
  "is_ascii_lowercase c \<longleftrightarrow> 97 \<le> (of_char c :: int) \<and> (of_char c :: int) \<le> 122"

definition is_ascii_space :: "char \<Rightarrow> bool" where
  "is_ascii_space c = List.member [CHR 0x20, CHR 0x09, CHR 0x0A, CHR 0x0C, CHR 0x0D] c"

text \<open>The index of the first operator outside quotes and brackets that \<open>accept\<close> allows.\<close>

fun top_level_from :: "string \<Rightarrow> (nat \<Rightarrow> bool) \<Rightarrow> int \<Rightarrow> char option \<Rightarrow> nat \<Rightarrow> string \<Rightarrow> nat option" where
  "top_level_from op accept depth quote i [] = None"
| "top_level_from op accept depth quote i (c # cs) =
     (case quote of
        Some q \<Rightarrow> top_level_from op accept depth (if c = q then None else quote) (i + 1) cs
      | None \<Rightarrow>
          if is_quote c then top_level_from op accept depth (Some c) (i + 1) cs
          else if c = CHR ''('' \<or> c = CHR ''{'' then top_level_from op accept (depth + 1) None (i + 1) cs
          else if c = CHR '')'' \<or> c = CHR ''}'' then top_level_from op accept (depth - 1) None (i + 1) cs
          else if depth = 0 \<and> starts_with op (c # cs) \<and> accept i then Some i
          else top_level_from op accept depth None (i + 1) cs)"

definition top_level_index :: "string \<Rightarrow> string \<Rightarrow> (nat \<Rightarrow> bool) \<Rightarrow> nat option" where
  "top_level_index expr op accept = top_level_from op accept 0 None 0 expr"

text \<open>Whether the depth of round brackets comes back to zero before the last character.\<close>

fun closes_early :: "int \<Rightarrow> string \<Rightarrow> bool" where
  "closes_early depth (c # d # cs) =
     (let depth = (if c = CHR ''('' then depth + 1 else if c = CHR '')'' then depth - 1 else depth)
      in depth = 0 \<or> closes_early depth (d # cs))"
| "closes_early depth _ = False"

definition inner :: "string \<Rightarrow> string" where
  "inner s = butlast (tl s)"

lemma length_dropWhile_concat: "length (concat (dropWhile P xs)) \<le> length (concat xs)"
  by (induction xs) auto

lemma length_concat_rev: "length (concat (rev xs)) = length (concat xs)"
  by (simp add: length_concat rev_map [symmetric] sum_list_rev del: rev_map)

lemma length_trim: "length (trim s) \<le> length s"
proof -
  have "length (trim s) \<le> length (concat (dropWhile is_whitespace (utf8_chars s)))"
    unfolding trim_def length_concat_rev by (metis length_concat_rev length_dropWhile_concat rev_rev_ident)
  also have "\<dots> \<le> length (concat (utf8_chars s))"
    by (rule length_dropWhile_concat)
  finally show ?thesis by (simp add: concat_utf8_chars)
qed

lemma length_inner: "s \<noteq> [] \<Longrightarrow> length (inner s) < length s"
  by (simp add: inner_def)

function strip_parens :: "string \<Rightarrow> string" where
  "strip_parens src =
     (let expr = trim src
      in if \<not> (starts_with ''('' expr \<and> ends_with '')'' expr) \<or> closes_early 0 expr then expr
         else strip_parens (trim (inner expr)))"
  by pat_completeness auto
termination
proof (relation "measure length")
  fix src expr :: string
  assume expr: "expr = trim src" and "\<not> (\<not> (starts_with ''('' expr \<and> ends_with '')'' expr) \<or> closes_early 0 expr)"
  then have "expr \<noteq> []" by (auto simp: starts_with_def)
  then have "length (trim (inner expr)) < length expr"
    using length_trim [of "inner expr"] length_inner [of expr] by simp
  with expr length_trim [of src] show "(trim (inner expr), src) \<in> measure length" by simp
qed simp

declare strip_parens.simps [simp del]

section \<open>Literals\<close>

definition strip_suffix_dotted :: "string \<Rightarrow> string \<Rightarrow> string option" where
  "strip_suffix_dotted expr suffix =
     (case strip_suffix (CHR ''.'' # suffix) expr of
        None \<Rightarrow> None
      | Some prefix \<Rightarrow> if prefix = [] \<or> CHR 0x0A \<in> set prefix then None else Some prefix)"

definition unsigned :: "string \<Rightarrow> string" where
  "unsigned expr = (case strip_prefix ''-'' expr of Some s \<Rightarrow> s | None \<Rightarrow> expr)"

definition is_integer_literal :: "string \<Rightarrow> bool" where
  "is_integer_literal expr \<longleftrightarrow> unsigned expr \<noteq> [] \<and> list_all is_ascii_digit (unsigned expr)"

definition is_float_literal :: "string \<Rightarrow> bool" where
  "is_float_literal expr =
     (case split_once ''.'' (unsigned expr) of
        None \<Rightarrow> False
      | Some (int_part, frac_part) \<Rightarrow>
          list_all is_ascii_digit int_part \<and> frac_part \<noteq> [] \<and> list_all is_ascii_digit frac_part)"

definition quoted_text :: "string \<Rightarrow> string option" where
  "quoted_text expr =
     (if length expr < 2 then None
      else if starts_with [CHR 0x22] expr \<and> ends_with [CHR 0x22] expr then Some (inner expr)
      else if starts_with [CHR 0x27] expr \<and> ends_with [CHR 0x27] expr then Some (inner expr)
      else None)"

text \<open>Top-level commas separate the elements of a bracketed list.\<close>

fun split_elements :: "int \<Rightarrow> char option \<Rightarrow> string \<Rightarrow> string \<Rightarrow> string list" where
  "split_elements depth quote current [] = [trim current]"
| "split_elements depth quote current (c # cs) =
     (case quote of
        Some q \<Rightarrow> split_elements depth (if c = q then None else quote) (current @ [c]) cs
      | None \<Rightarrow>
          let quote = (if is_quote c then Some c else None);
              depth = (if c = CHR ''['' \<or> c = CHR ''('' then depth + 1
                       else if c = CHR '']'' \<or> c = CHR '')'' then depth - 1 else depth)
          in if c = CHR '','' \<and> depth = 0 then trim current # split_elements depth quote [] cs
             else split_elements depth quote (current @ [c]) cs)"

definition array_elements :: "string \<Rightarrow> string list option" where
  "array_elements expr =
     (if \<not> (starts_with ''['' expr \<and> ends_with '']'' expr) then None
      else let body = trim (inner expr)
           in if body = [] then Some []
              else Some (filter (\<lambda>element. element \<noteq> []) (split_elements 0 None [] body)))"

section \<open>Arithmetic\<close>

text \<open>\<open>passed\<close> holds the bytes already passed, the nearest first. A minus is binary only after an operand.\<close>

definition ends_operand :: "char \<Rightarrow> bool" where
  "ends_operand b \<longleftrightarrow> is_ascii_alphanumeric b \<or> List.member [CHR ''_'', CHR '')'', CHR '']'', CHR 0x22, CHR 0x27] b"

definition binary_position :: "string \<Rightarrow> char \<Rightarrow> bool" where
  "binary_position passed c \<longleftrightarrow>
     c \<noteq> CHR ''-'' \<or>
     (case List.find (\<lambda>b. \<not> is_ascii_space b) passed of None \<Rightarrow> False | Some b \<Rightarrow> ends_operand b)"

fun last_binary :: "string \<Rightarrow> int \<Rightarrow> char option \<Rightarrow> string \<Rightarrow> nat option \<Rightarrow> string \<Rightarrow> nat option" where
  "last_binary ops depth quote passed found [] = found"
| "last_binary ops depth quote passed found (c # cs) =
     (case quote of
        Some q \<Rightarrow> last_binary ops depth (if c = q then None else quote) (c # passed) found cs
      | None \<Rightarrow>
          if is_quote c then last_binary ops depth (Some c) (c # passed) found cs
          else if c = CHR ''('' \<or> c = CHR ''{'' \<or> c = CHR ''['' then last_binary ops (depth + 1) None (c # passed) found cs
          else if c = CHR '')'' \<or> c = CHR ''}'' \<or> c = CHR '']'' then last_binary ops (depth - 1) None (c # passed) found cs
          else last_binary ops depth None (c # passed)
                 (if depth = 0 \<and> List.member ops c \<and> binary_position passed c then Some (length passed) else found) cs)"

definition split_last_binary :: "string \<Rightarrow> string \<Rightarrow> (char \<times> string \<times> string) option" where
  "split_last_binary expr ops =
     map_option (\<lambda>i. (expr ! i, trim (take i expr), trim (drop (i + 1) expr))) (last_binary ops 0 None [] None expr)"

text \<open>Whether the first round bracket closes at the last byte.\<close>

fun closes_last :: "int \<Rightarrow> char option \<Rightarrow> string \<Rightarrow> bool" where
  "closes_last depth quote [] = False"
| "closes_last depth quote (c # cs) =
     (case quote of
        Some q \<Rightarrow> closes_last depth (if c = q then None else quote) cs
      | None \<Rightarrow>
          if is_quote c then closes_last depth (Some c) cs
          else if c = CHR ''('' then closes_last (depth + 1) None cs
          else if c = CHR '')'' then (if depth - 1 = 0 then cs = [] else closes_last (depth - 1) None cs)
          else closes_last depth None cs)"

definition grouped :: "string \<Rightarrow> bool" where
  "grouped expr \<longleftrightarrow> starts_with ''('' expr \<and> ends_with '')'' expr \<and> closes_last 0 None expr"

section \<open>Suffixes and calls\<close>

definition SIGN_TESTS :: "(string \<times> string) list" where
  "SIGN_TESTS = [(''positive?'', ''>''), (''negative?'', ''<''), (''zero?'', ''=='')]"

text \<open>The first of the suffixes the text ends in, after a dot; here the receiver may be empty.\<close>

fun match_suffix :: "string \<Rightarrow> string list \<Rightarrow> (string \<times> string) option" where
  "match_suffix expr [] = None"
| "match_suffix expr (suffix # suffixes) =
     (case strip_suffix (CHR ''.'' # suffix) expr of
        Some prefix \<Rightarrow> Some (prefix, suffix)
      | None \<Rightarrow> match_suffix expr suffixes)"

definition sign_test :: "string \<Rightarrow> (string \<times> string) option" where
  "sign_test expr =
     Option.bind (match_suffix expr (map fst SIGN_TESTS)) (\<lambda>(receiver, test).
       map_option (Pair receiver) (map_of SIGN_TESTS test))"

definition match_call :: "string \<Rightarrow> string \<Rightarrow> (string \<times> string) option" where
  "match_call expr marker =
     (if ends_with '')'' expr then map_option (\<lambda>(a, b). (a, butlast b)) (rsplit_once marker expr) else None)"

definition match_string_call :: "string \<Rightarrow> string \<Rightarrow> (string \<times> string) option" where
  "match_string_call expr name =
     Option.bind (strip_suffix [CHR 0x22, CHR '')''] expr) (\<lambda>body.
     Option.bind (rsplit_once [CHR 0x22] body) (\<lambda>(passed, argument).
     Option.bind (strip_suffix (CHR ''.'' # name @ ''('') passed) (\<lambda>receiver.
       if receiver = [] \<or> CHR 0x0A \<in> set receiver then None else Some (receiver, argument))))"

text \<open>The last \<open>.match?(/\<close> that is not at the start and leaves room for the closing slash.\<close>

definition match_regex :: "string \<Rightarrow> (string \<times> string \<times> string) option" where
  "match_regex expr =
     Option.bind (strip_suffix '')'' expr) (\<lambda>body.
     Option.bind (rsplit_once ''/'' body) (\<lambda>(upto, flags).
       if \<not> list_all is_ascii_lowercase flags then None
       else map_option (\<lambda>i. (take i expr, drop (i + 9) upto, flags))
              (List.find (\<lambda>i. starts_with ''.match?(/'' (drop i body) \<and> 0 < i \<and> i + 9 \<le> length upto)
                 (rev [0..<length upto]))))"

section \<open>Blocks\<close>

datatype opener = Open_Block block_mode | Open_Find | Open_Sum

definition BLOCK_OPENERS :: "(string \<times> opener) list" where
  "BLOCK_OPENERS =
     [(''all?'', Open_Block BM_All), (''any?'', Open_Block BM_Any), (''none?'', Open_Block BM_None),
      (''find'', Open_Find), (''sum'', Open_Sum)]"

text \<open>After the suffix: a brace, a parameter between bars, then the body. Gives the body and the parameter.\<close>

definition block_head :: "string \<Rightarrow> (string \<times> string) option" where
  "block_head rest =
     Option.bind (strip_prefix ''{'' (dropWhile is_ascii_space rest)) (\<lambda>rest.
     Option.bind (strip_prefix ''|'' (dropWhile is_ascii_space rest)) (\<lambda>rest.
       let is_word = (\<lambda>b. is_ascii_alphanumeric b \<or> b = CHR ''_''); param = takeWhile is_word rest
       in if param = [] then None
          else map_option (\<lambda>body. (dropWhile is_ascii_space body, param)) (strip_prefix ''|'' (dropWhile is_word rest))))"

definition opening_at :: "string \<Rightarrow> string \<Rightarrow> nat \<Rightarrow> (string \<times> string) option" where
  "opening_at expr suffix i =
     (if i = 0 then None
      else Option.bind (strip_prefix (CHR ''.'' # suffix) (drop i expr)) block_head)"

definition first_opening :: "string \<Rightarrow> string \<Rightarrow> nat option" where
  "first_opening expr suffix = List.find (\<lambda>i. opening_at expr suffix i \<noteq> None) [0..<length expr]"

definition earlier_opening :: "string \<Rightarrow> string \<times> opener \<Rightarrow> (nat \<times> string \<times> opener) option \<Rightarrow> (nat \<times> string \<times> opener) option" where
  "earlier_opening expr row best =
     (case (first_opening expr (fst row), best) of
        (None, _) \<Rightarrow> best
      | (Some i, None) \<Rightarrow> Some (i, row)
      | (Some i, Some (j, _)) \<Rightarrow> if i < j then Some (i, row) else best)"

text \<open>The body up to its closing brace and what follows it.\<close>

fun matching_brace :: "int \<Rightarrow> char option \<Rightarrow> string \<Rightarrow> (string \<times> string) option" where
  "matching_brace depth quote [] = None"
| "matching_brace depth quote (c # cs) =
     (if quote = None \<and> c = CHR ''}'' \<and> depth - 1 = 0 then Some ([], cs)
      else map_option (\<lambda>(body, rest). (c # body, rest))
        (case quote of
           Some q \<Rightarrow> matching_brace depth (if c = q then None else quote) cs
         | None \<Rightarrow>
             if is_quote c then matching_brace depth (Some c) cs
             else if c = CHR ''{'' then matching_brace (depth + 1) None cs
             else if c = CHR ''}'' then matching_brace (depth - 1) None cs
             else matching_brace depth None cs))"

section \<open>The form of a text\<close>

datatype form =
    F_Value "resolver option"
  | F_Unary "resolver \<Rightarrow> resolver" string
  | F_Binary "resolver \<Rightarrow> resolver \<Rightarrow> resolver" string string
  | F_Same string
  | F_Array "string list"
  | F_Block "resolver \<Rightarrow> predicate_tree \<Rightarrow> resolver" string string

text \<open>
  A block whose text goes on where it may not is no block: its parts have been read all the same, and the
  whole is a lookup.
\<close>

definition block_node :: "string \<Rightarrow> opener \<Rightarrow> string \<Rightarrow> string \<Rightarrow> resolver \<Rightarrow> predicate_tree \<Rightarrow> resolver" where
  "block_node expr mode param trailing receiver predicate =
     (case mode of
        Open_Sum \<Rightarrow> if trailing \<noteq> [] then R_Lookup expr else R_Sum receiver param predicate
      | Open_Find \<Rightarrow>
          if \<not> (trailing = [] \<or> starts_with ''.'' trailing) then R_Lookup expr
          else R_Find receiver param predicate (if trailing = [] then [] else split_str ''.'' (tl trailing))
      | Open_Block m \<Rightarrow> if trailing \<noteq> [] then R_Lookup expr else R_BlockPredicate m receiver param predicate)"

definition parse_block_opener :: "string \<Rightarrow> form option" where
  "parse_block_opener expr =
     Option.bind (fold (earlier_opening expr) BLOCK_OPENERS None) (\<lambda>(i, suffix, mode).
     Option.bind (opening_at expr suffix i) (\<lambda>(from_body, param).
     map_option (\<lambda>(body, rest). F_Block (block_node expr mode param (trim rest)) (take i expr) (trim body))
       (matching_brace 1 None from_body)))"

fun first_form :: "form option list \<Rightarrow> form \<Rightarrow> form" where
  "first_form [] otherwise = otherwise"
| "first_form (None # forms) otherwise = first_form forms otherwise"
| "first_form (Some f # forms) otherwise = f"

definition literal_form :: "string \<Rightarrow> form option" where
  "literal_form expr =
     (if is_integer_literal expr then Some (F_Value (map_option R_Integer (parse_i64 expr)))
      else if is_float_literal expr then Some (F_Value (map_option R_Float (parse_f64 expr)))
      else if quoted_text expr \<noteq> None then Some (F_Value (map_option R_String (quoted_text expr)))
      else if expr = ''true'' then Some (F_Value (Some (R_Bool True)))
      else if expr = ''false'' then Some (F_Value (Some (R_Bool False)))
      else if expr = ''nil'' then Some (F_Value (Some R_Nil))
      else map_option F_Array (array_elements expr))"

definition sum_form :: "string \<Rightarrow> form option" where
  "sum_form expr =
     map_option (\<lambda>(op, left, right). F_Binary (if op = CHR ''+'' then R_Addition else R_Subtraction) left right)
       (split_last_binary expr ''+-'')"

definition product_form :: "string \<Rightarrow> form option" where
  "product_form expr =
     map_option (\<lambda>(op, left, right). F_Binary (if op = CHR ''*'' then R_Multiplication else R_Division) left right)
       (split_last_binary expr ''*/'')"

definition dotted :: "string \<Rightarrow> (resolver \<Rightarrow> resolver) \<Rightarrow> string \<Rightarrow> form option" where
  "dotted expr node suffix = map_option (F_Unary node) (strip_suffix_dotted expr suffix)"

text \<open>The tests of \<open>resolver::parse\<close>, in order; a text that passes none is a lookup.\<close>

definition form_rules :: "string \<Rightarrow> form option list" where
  "form_rules expr =
     [dotted expr R_Size ''length'',
      literal_form expr,
      sum_form expr,
      product_form expr,
      if grouped expr then Some (F_Same (inner expr)) else None,
      map_option (\<lambda>(receiver, symbol). F_Unary (R_SignTest (find_operator symbol)) receiver) (sign_test expr),
      dotted expr R_Empty ''empty?'',
      dotted expr R_ToS ''to_s'',
      map_option (\<lambda>(receiver, divisor). F_Binary R_Modulo receiver divisor) (match_call expr ''.modulo(''),
      dotted expr R_Size ''size'',
      map_option (\<lambda>(receiver, pattern, flags). F_Unary (\<lambda>r. R_MatchesRegex r pattern flags) receiver) (match_regex expr),
      dotted expr (\<lambda>r. R_Presence r False) ''present?'',
      dotted expr (\<lambda>r. R_Presence r True) ''blank?'',
      dotted expr (\<lambda>r. R_Assignment r False) ''set?'',
      dotted expr (\<lambda>r. R_Assignment r True) ''unset?'',
      dotted expr (\<lambda>r. R_Strip r ''both'') ''strip'',
      dotted expr (\<lambda>r. R_Strip r ''left'') ''lstrip'',
      dotted expr (\<lambda>r. R_Strip r ''right'') ''rstrip'',
      map_option (\<lambda>(receiver, separator). F_Unary (\<lambda>r. R_Split r separator) receiver) (match_string_call expr ''split''),
      dotted expr R_First ''first'',
      dotted expr R_Last ''last'',
      map_option (\<lambda>(receiver, substring). F_Unary (\<lambda>r. R_StartsWith r substring) receiver) (match_string_call expr ''start_with?''),
      map_option (\<lambda>(receiver, substring). F_Unary (\<lambda>r. R_EndsWith r substring) receiver) (match_string_call expr ''end_with?''),
      parse_block_opener expr]"

definition read_form :: "string \<Rightarrow> form" where
  "read_form expr = first_form (form_rules expr) (F_Value (Some (R_Lookup expr)))"

section \<open>The form of a predicate\<close>

definition split_top_level :: "string \<Rightarrow> string \<Rightarrow> (string \<times> string) option" where
  "split_top_level expr op =
     map_option (\<lambda>i. (trim (take i expr), trim (drop (i + length op) expr))) (top_level_index expr op (\<lambda>_. True))"

definition byte_at :: "string \<Rightarrow> nat \<Rightarrow> char option" where
  "byte_at s i = (if i < length s then Some (s ! i) else None)"

definition part_of_longer :: "string \<Rightarrow> nat \<Rightarrow> string \<Rightarrow> bool" where
  "part_of_longer expr i op =
     (byte_at expr (i + length op) = Some (CHR ''='') \<and> \<not> ends_with ''='' op \<or>
      (0 < i \<and> (\<exists>b\<in>set ''<>!=''. byte_at expr (i - 1) = Some b)) \<and> starts_with ''='' op)"

definition split_comparison :: "string \<Rightarrow> string \<Rightarrow> (string \<times> string) option" where
  "split_comparison expr op =
     map_option (\<lambda>i. (trim (take i expr), trim (drop (i + length op) expr)))
       (top_level_index expr op (\<lambda>i. \<not> part_of_longer expr i op))"

definition match_include :: "string \<Rightarrow> (string \<times> string) option" where
  "match_include expr = match_call expr ''.include?(''"

fun first_comparison :: "string \<Rightarrow> operator_row list \<Rightarrow> (operator_row \<times> string \<times> string) option" where
  "first_comparison expr [] = None"
| "first_comparison expr (op # ops) =
     (case split_comparison expr (or_symbol op) of
        Some (left, right) \<Rightarrow> Some (op, left, right)
      | None \<Rightarrow> first_comparison expr ops)"

datatype predicate_form =
    P_Both "predicate_tree \<Rightarrow> predicate_tree \<Rightarrow> predicate_tree" string string
  | P_Not string
  | P_Values "resolver \<Rightarrow> resolver \<Rightarrow> predicate_tree" string string
  | P_Value string

definition read_predicate :: "string \<Rightarrow> predicate_form" where
  "read_predicate expr =
     (case split_top_level expr ''||'' of
        Some (left, right) \<Rightarrow> P_Both B_Or left right
      | None \<Rightarrow>
     (case split_top_level expr ''&&'' of
        Some (left, right) \<Rightarrow> P_Both B_And left right
      | None \<Rightarrow>
     (if (case strip_prefix ''!'' expr of Some rest \<Rightarrow> rest \<noteq> [] | None \<Rightarrow> False) then P_Not (tl expr)
      else
     (case match_include expr of
        Some (haystack, needle) \<Rightarrow> P_Values B_Include haystack needle
      | None \<Rightarrow>
     (case first_comparison expr OPERATORS of
        Some (op, left, right) \<Rightarrow> P_Values (B_Compare op) left right
      | None \<Rightarrow> P_Value expr)))))"

section \<open>Parts are shorter\<close>

lemma rsplit_once_Some: "rsplit_once p s = Some (a, b) \<Longrightarrow> s = a @ p @ b"
  by (auto simp: rsplit_once_def dest!: split_once_Some) (metis rev_append rev_rev_ident append.assoc)

lemma first_form_in: "first_form forms otherwise = otherwise \<or> Some (first_form forms otherwise) \<in> set forms"
  by (induction forms otherwise rule: first_form.induct) auto

lemma split_elements_length: "element \<in> set (split_elements depth quote current cs) \<Longrightarrow> length element \<le> length current + length cs"
proof (induction depth quote current cs rule: split_elements.induct)
  case (1 depth quote current)
  then show ?case using length_trim by simp
next
  case (2 depth quote current c cs)
  then show ?case
    using length_trim [of current] by (fastforce simp: Let_def split: option.splits if_splits)
qed

lemma top_level_from_bounds: "top_level_from op accept depth quote i cs = Some j \<Longrightarrow> i \<le> j \<and> j < i + length cs"
proof (induction cs arbitrary: depth quote i)
  case (Cons c cs)
  have "j = i \<or> (\<exists>d q. top_level_from op accept d q (Suc i) cs = Some j)"
    using Cons.prems by (auto split: option.splits if_splits)
  then show ?case using Cons.IH by fastforce
qed simp

lemma last_binary_bounds:
  "last_binary ops depth quote passed found cs = Some j \<Longrightarrow> found = Some j \<or> length passed \<le> j \<and> j < length passed + length cs"
proof (induction cs arbitrary: depth quote passed found)
  case (Cons c cs)
  obtain d q f where "last_binary ops d q (c # passed) f cs = Some j" "f = found \<or> f = Some (length passed)"
    using Cons.prems by (auto split: option.splits if_splits)
  then show ?case using Cons.IH [of d q "c # passed" f] by auto
qed simp

fun parts :: "form \<Rightarrow> string list" where
  "parts (F_Value r) = []"
| "parts (F_Unary node part) = [part]"
| "parts (F_Binary node left right) = [left, right]"
| "parts (F_Same part) = [part]"
| "parts (F_Array elements) = elements"
| "parts (F_Block node receiver body) = [receiver, body]"

definition shorter_parts :: "string \<Rightarrow> form option \<Rightarrow> bool" where
  "shorter_parts expr f = (\<forall>form. f = Some form \<longrightarrow> (\<forall>part\<in>set (parts form). length part < length expr))"

lemma shorter_dotted: "shorter_parts expr (dotted expr node suffix)"
  by (auto simp: shorter_parts_def dotted_def strip_suffix_dotted_def strip_suffix_Some split: option.splits if_splits)

lemma shorter_literal: "shorter_parts expr (literal_form expr)"
proof -
  have "length element < length expr" if elements: "array_elements expr = Some es" "element \<in> set es" for es element
  proof -
    from elements have "expr \<noteq> []" "length element \<le> length (trim (inner expr))"
      using split_elements_length [of element 0 None "[]" "trim (inner expr)"]
      by (auto simp: array_elements_def Let_def starts_with_def split: if_splits)
    with length_trim [of "inner expr"] length_inner [of expr] show ?thesis by linarith
  qed
  then show ?thesis by (auto simp: shorter_parts_def literal_form_def)
qed

lemma shorter_split_last:
  "split_last_binary expr ops = Some (op, left, right) \<Longrightarrow> length left < length expr \<and> length right < length expr"
proof -
  assume "split_last_binary expr ops = Some (op, left, right)"
  then obtain i where "last_binary ops 0 None [] None expr = Some i" "left = trim (take i expr)" "right = trim (drop (i + 1) expr)"
    by (auto simp: split_last_binary_def)
  then show ?thesis
    using last_binary_bounds [of ops 0 None "[]" None expr i] length_trim [of "take i expr"] length_trim [of "drop (i + 1) expr"] by simp
qed

lemma shorter_call:
  assumes "match_call expr marker = Some (a, b)" "marker \<noteq> []"
  shows "length a < length expr \<and> length b < length expr"
proof -
  from assms obtain b' where "expr = a @ marker @ b'" "b = butlast b'"
    by (auto simp: match_call_def dest!: rsplit_once_Some split: if_splits)
  then show ?thesis using assms(2) by (cases marker) auto
qed

lemma shorter_sign_test: "sign_test expr = Some (receiver, symbol) \<Longrightarrow> length receiver < length expr"
proof -
  have "match_suffix expr suffixes = Some (prefix, suffix) \<Longrightarrow> length prefix < length expr" for suffixes prefix suffix
    by (induction suffixes) (auto simp: strip_suffix_Some split: option.splits)
  then show "sign_test expr = Some (receiver, symbol) \<Longrightarrow> length receiver < length expr"
    by (auto simp: sign_test_def bind_eq_Some_conv)
qed

lemma shorter_regex: "match_regex expr = Some (receiver, pattern, flags) \<Longrightarrow> length receiver < length expr"
proof -
  assume "match_regex expr = Some (receiver, pattern, flags)"
  then obtain body upto i where "strip_suffix '')'' expr = Some body" "rsplit_once ''/'' body = Some (upto, flags)"
    "receiver = take i expr" and i: "i < length upto"
    by (auto simp: match_regex_def bind_eq_Some_conv find_Some_iff rev_nth split: if_splits)
  then show ?thesis by (auto simp: strip_suffix_Some dest!: rsplit_once_Some)
qed

lemma shorter_string_call: "match_string_call expr name = Some (receiver, argument) \<Longrightarrow> length receiver < length expr"
  by (auto simp: match_string_call_def bind_eq_Some_conv strip_suffix_Some dest!: rsplit_once_Some split: if_splits)

lemma matching_brace_length: "matching_brace depth quote cs = Some (body, rest) \<Longrightarrow> length body + length rest < length cs"
proof (induction cs arbitrary: depth quote body)
  case (Cons c cs)
  have "body = [] \<and> rest = cs \<or> (\<exists>d q b. matching_brace d q cs = Some (b, rest) \<and> body = c # b)"
    using Cons.prems by (auto split: option.splits if_splits)
  then show ?case using Cons.IH by fastforce
qed simp

lemma block_head_length: "block_head rest = Some (body, param) \<Longrightarrow> length body \<le> length rest"
proof -
  assume "block_head rest = Some (body, param)"
  then obtain r1 r2 r3 word where "dropWhile is_ascii_space rest = ''{'' @ r1" "dropWhile is_ascii_space r1 = ''|'' @ r2"
    "dropWhile word r2 = ''|'' @ r3" "body = dropWhile is_ascii_space r3"
    by (auto simp: block_head_def bind_eq_Some_conv strip_prefix_Some Let_def split: if_splits)
  moreover from calculation have "length body \<le> length r3" "length (''|'' @ r3) \<le> length r2" "length (''|'' @ r2) \<le> length r1" "length (''{'' @ r1) \<le> length rest"
    by (metis length_dropWhile_le)+
  ultimately show ?thesis by simp
qed

lemma shorter_block: "shorter_parts expr (parse_block_opener expr)"
proof -
  have "length receiver < length expr \<and> length body < length expr"
    if "parse_block_opener expr = Some (F_Block node receiver body)" for node receiver body
  proof -
    from that obtain i suffix from_body param b rest where opened: "opening_at expr suffix i = Some (from_body, param)"
      and brace: "matching_brace 1 None from_body = Some (b, rest)" and parts: "receiver = take i expr" "body = trim b"
      by (auto simp: parse_block_opener_def bind_eq_Some_conv)
    from opened obtain tail where tail: "drop i expr = (CHR ''.'' # suffix) @ tail" "block_head tail = Some (from_body, param)" and "0 < i"
      by (auto simp: opening_at_def bind_eq_Some_conv strip_prefix_Some split: if_splits)
    from tail(1) have "i < length expr" by (metis append_Cons drop_all list.distinct(1) not_less)
    moreover have "length tail < length expr" using arg_cong [OF tail(1), of length] by simp
    ultimately show ?thesis
      using parts matching_brace_length [OF brace] block_head_length [OF tail(2)] length_trim [of b] by simp
  qed
  moreover have "parse_block_opener expr = Some form \<Longrightarrow> \<exists>node receiver body. form = F_Block node receiver body" for form
    by (auto simp: parse_block_opener_def bind_eq_Some_conv)
  ultimately show ?thesis by (fastforce simp: shorter_parts_def)
qed

lemma shorter_grouped: "shorter_parts expr (if grouped expr then Some (F_Same (inner expr)) else None)"
  using length_inner [of expr] by (cases expr) (auto simp: shorter_parts_def grouped_def starts_with_def)

lemma shorter_map:
  "(\<And>a b. m = Some (a, b) \<Longrightarrow> \<forall>part\<in>set (parts (f (a, b))). length part < length expr) \<Longrightarrow> shorter_parts expr (map_option f m)"
  by (auto simp: shorter_parts_def)

lemma read_form_shorter:
  assumes "part \<in> set (parts (read_form expr))"
  shows "length part < length expr"
proof -
  have "list_all (shorter_parts expr) (form_rules expr)"
    unfolding form_rules_def list_all_iff list.set ball_simps sum_form_def product_form_def
    by (intro conjI TrueI shorter_dotted shorter_literal shorter_grouped shorter_block shorter_map)
      (auto dest: shorter_split_last shorter_sign_test shorter_call shorter_regex shorter_string_call)
  then show ?thesis
    using assms first_form_in [of "form_rules expr" "F_Value (Some (R_Lookup expr))"]
    unfolding read_form_def list_all_iff shorter_parts_def by fastforce
qed

fun predicate_parts :: "predicate_form \<Rightarrow> string list" where
  "predicate_parts (P_Both node left right) = [left, right]"
| "predicate_parts (P_Not part) = [part]"
| "predicate_parts (P_Values node left right) = [left, right]"
| "predicate_parts (P_Value part) = []"

lemma shorter_split_top:
  assumes "map_option (\<lambda>i. (trim (take i expr), trim (drop (i + length op) expr))) (top_level_index expr op accept) = Some (left, right)" "op \<noteq> []"
  shows "length left < length expr \<and> length right < length expr"
proof -
  from assms obtain i where "top_level_index expr op accept = Some i" "left = trim (take i expr)" "right = trim (drop (i + length op) expr)"
    by auto
  then show ?thesis
    using top_level_from_bounds [of op accept 0 None 0 expr i] length_trim [of "take i expr"] length_trim [of "drop (i + length op) expr"] assms(2)
    by (cases op) (auto simp: top_level_index_def)
qed

lemmas shorter_top_level = shorter_split_top [OF split_top_level_def [symmetric, THEN trans]]
lemmas shorter_split_comparison = shorter_split_top [OF split_comparison_def [symmetric, THEN trans]]

lemma shorter_comparison: "first_comparison expr ops = Some (op, left, right) \<Longrightarrow> \<forall>row\<in>set ops. or_symbol row \<noteq> [] \<Longrightarrow>
   length left < length expr \<and> length right < length expr"
  by (induction ops) (auto dest: shorter_split_comparison split: option.splits)

lemma read_predicate_shorter:
  assumes "part \<in> set (predicate_parts (read_predicate expr))"
  shows "length part < length expr"
proof -
  have "length (tl expr) < length expr" if "strip_prefix ''!'' expr = Some rest" for rest
    using that by (cases expr) auto
  moreover have "\<forall>row\<in>set OPERATORS. or_symbol row \<noteq> []" by (simp add: OPERATORS_def)
  ultimately show ?thesis
    using assms unfolding read_predicate_def match_include_def
    by (auto split: option.splits if_splits dest: shorter_top_level shorter_call shorter_comparison)
qed

section \<open>The readers\<close>

lemma length_strip_parens: "length (strip_parens src) \<le> length src"
proof (induction src rule: strip_parens.induct)
  case (1 src)
  show ?case
  proof (cases "\<not> (starts_with ''('' (trim src) \<and> ends_with '')'' (trim src)) \<or> closes_early 0 (trim src)")
    case True
    then show ?thesis using length_trim [of src] by (subst strip_parens.simps) (simp add: Let_def)
  next
    case False
    then have "trim src \<noteq> []" by (auto simp: starts_with_def)
    have "length (strip_parens (trim (inner (trim src)))) \<le> length (trim (inner (trim src)))"
      using 1 False by (simp add: Let_def)
    also have "\<dots> \<le> length src"
      using length_trim [of src] length_trim [of "inner (trim src)"] length_inner [OF \<open>trim src \<noteq> []\<close>] by linarith
    finally show ?thesis using False by (subst strip_parens.simps) (simp add: Let_def)
  qed
qed

lemma form_parts_shorter: "read_form (trim src) = f \<Longrightarrow> \<forall>part\<in>set (parts f). length part < length src"
  using read_form_shorter length_trim [of src] by (meson less_le_trans)

lemma predicate_parts_shorter:
  "read_predicate (strip_parens (trim src)) = f \<Longrightarrow> \<forall>part\<in>set (predicate_parts f). length part < length src"
  using read_predicate_shorter length_strip_parens [of "trim src"] length_trim [of src] by (metis less_le_trans)

lemma predicate_value_shorter: "read_predicate (strip_parens (trim src)) = P_Value part \<Longrightarrow> length part \<le> length src"
proof -
  assume "read_predicate (strip_parens (trim src)) = P_Value part"
  then have "part = strip_parens (trim src)"
    unfolding read_predicate_def by (auto split: option.splits if_splits)
  then show ?thesis using length_strip_parens [of "trim src"] length_trim [of src] by simp
qed

function parse_resolver :: "string \<Rightarrow> resolver option" and parse_evaluator :: "string \<Rightarrow> predicate_tree option" where
  "parse_resolver src =
     (case read_form (trim src) of
        F_Value value \<Rightarrow> value
      | F_Unary node part \<Rightarrow> map_option node (parse_resolver part)
      | F_Binary node left right \<Rightarrow>
          Option.bind (parse_resolver left) (\<lambda>l. map_option (node l) (parse_resolver right))
      | F_Same part \<Rightarrow> parse_resolver part
      | F_Array elements \<Rightarrow> map_option R_Array (those (map parse_resolver elements))
      | F_Block node receiver body \<Rightarrow>
          Option.bind (parse_resolver receiver) (\<lambda>r. map_option (node r) (parse_evaluator body)))"
| "parse_evaluator src =
     (let expr = strip_parens (trim src)
      in case read_predicate expr of
           P_Both node left right \<Rightarrow>
             Option.bind (parse_evaluator left) (\<lambda>l. map_option (node l) (parse_evaluator right))
         | P_Not part \<Rightarrow> map_option B_Not (parse_evaluator part)
         | P_Values node left right \<Rightarrow>
             Option.bind (parse_resolver left) (\<lambda>l. map_option (node l) (parse_resolver right))
         | P_Value part \<Rightarrow> map_option B_Resolve (parse_resolver part))"
  by pat_completeness auto
termination
  by (relation "measure (case_sum (\<lambda>s. 2 * length s) (\<lambda>s. 2 * length s + 1))")
    (auto dest!: form_parts_shorter predicate_parts_shorter predicate_value_shorter)

declare parse_resolver.simps [simp del] parse_evaluator.simps [simp del]

section \<open>Canonical arithmetic\<close>

definition format_ruby_float :: "f64 \<Rightarrow> string" where
  "format_ruby_float value =
     (let rendered = f64_display value
      in if CHR ''.'' \<in> set rendered \<or> CHR ''e'' \<in> set rendered \<or> str_contains ''inf'' rendered \<or> str_contains ''NaN'' rendered
         then rendered else rendered @ ''.0'')"

definition binding_strength :: "char \<Rightarrow> nat" where
  "binding_strength op = (if op = CHR ''*'' \<or> op = CHR ''/'' then 2 else 1)"

fun node_strength :: "resolver \<Rightarrow> nat" where
  "node_strength (R_Addition l r) = 1"
| "node_strength (R_Subtraction l r) = 1"
| "node_strength (R_Multiplication l r) = 2"
| "node_strength (R_Division l r) = 2"
| "node_strength _ = 0"

text \<open>A side is bracketed when it binds looser than the operator, or as tightly on the right.\<close>

definition render_side :: "char \<Rightarrow> bool \<Rightarrow> resolver \<Rightarrow> string \<Rightarrow> string" where
  "render_side op on_right node rendered =
     (let held = node_strength node; strength = binding_strength op
      in if held \<noteq> 0 \<and> (held < strength \<or> on_right \<and> held = strength) then ''('' @ rendered @ '')'' else rendered)"

definition render_binary :: "resolver \<Rightarrow> string option \<Rightarrow> char \<Rightarrow> resolver \<Rightarrow> string option \<Rightarrow> string option" where
  "render_binary left rendered_left op right rendered_right =
     Option.bind rendered_left (\<lambda>l. Option.bind rendered_right (\<lambda>r.
       Some (render_side op False left l @ '' '' @ [op] @ '' '' @ render_side op True right r)))"

fun render_arithmetic :: "resolver \<Rightarrow> string option" where
  "render_arithmetic (R_Addition l r) = render_binary l (render_arithmetic l) (CHR ''+'') r (render_arithmetic r)"
| "render_arithmetic (R_Subtraction l r) = render_binary l (render_arithmetic l) (CHR ''-'') r (render_arithmetic r)"
| "render_arithmetic (R_Multiplication l r) = render_binary l (render_arithmetic l) (CHR ''*'') r (render_arithmetic r)"
| "render_arithmetic (R_Division l r) = render_binary l (render_arithmetic l) (CHR ''/'') r (render_arithmetic r)"
| "render_arithmetic (R_Lookup path) = Some path"
| "render_arithmetic (R_Integer n) = Some (show_int (sint n))"
| "render_arithmetic (R_Float f) = Some (format_ruby_float f)"
| "render_arithmetic _ = None"

text \<open>The canonical text of an expression; outside, \<open>None\<close> is the panic of the reader.\<close>

definition arithmetic_text :: "string \<Rightarrow> string option option" where
  "arithmetic_text expr =
     map_option (\<lambda>node. if node_strength node \<noteq> 0 then render_arithmetic node else None) (parse_resolver expr)"

end
