(* ===== verification/Expression_Roundtrip.thy ===== *)
theory Expression_Roundtrip
  imports Expression_Text Json_Roundtrip
begin

text \<open>
  The canonical text of an arithmetic expression (\<open>arithmetic_text\<close> of \<open>rust/parser/src/expr/resolver.rs\<close>)
  reads back as the tree it was printed from: brackets are printed exactly where the grouping needs them.
\<close>

section \<open>Bytes\<close>

definition word_char :: "char \<Rightarrow> bool" where
  "word_char c \<longleftrightarrow> is_ascii_alphanumeric c \<or> c = CHR ''_'' \<or> c = CHR ''.''"

definition op_char :: "char \<Rightarrow> bool" where
  "op_char c = List.member [CHR ''+'', CHR ''-'', CHR ''*'', CHR ''/''] c"

definition arith_char :: "char \<Rightarrow> bool" where
  "arith_char c \<longleftrightarrow> word_char c \<or> op_char c \<or> c = CHR '' '' \<or> c = CHR ''('' \<or> c = CHR '')''"

lemma word_char_props:
  assumes "word_char c"
  shows "\<not> is_quote c" "c \<notin> set ''(){}[]''" "\<not> op_char c" "\<not> is_ascii_space c" "c \<noteq> CHR '' ''"
  using assms by (auto simp: word_char_def is_ascii_alphanumeric_def is_quote_def op_char_def is_ascii_space_def Let_def)

lemma arith_ascii: "arith_char c \<Longrightarrow> \<not> is_continuation c"
  by (auto simp: arith_char_def word_char_def is_ascii_alphanumeric_def op_char_def is_continuation_def Let_def)

lemma arith_space: "arith_char c \<Longrightarrow> is_whitespace [c] \<longleftrightarrow> c = CHR '' ''"
  by (auto simp: is_whitespace_byte arith_char_def word_char_def is_ascii_alphanumeric_def op_char_def Let_def)

lemma utf8_chars_plain: "list_all (\<lambda>c. \<not> is_continuation c) s \<Longrightarrow> utf8_chars s = map (\<lambda>c. [c]) s"
proof (induction s)
  case (Cons c s)
  then have "takeWhile is_continuation s = []" "dropWhile is_continuation s = s"
    by (cases s; simp)+
  with Cons show ?case by (simp add: utf8_chars.simps(2))
qed simp

lemma trim_arith:
  assumes "list_all arith_char s"
  shows "trim s = rev (dropWhile (\<lambda>c. c = CHR '' '') (rev (dropWhile (\<lambda>c. c = CHR '' '') s)))"
proof -
  have drop: "dropWhile is_whitespace (map (\<lambda>c. [c]) xs) = map (\<lambda>c. [c]) (dropWhile (\<lambda>c. c = CHR '' '') xs)" if "list_all arith_char xs" for xs
    using that by (induction xs) (auto simp: arith_space)
  have "list_all arith_char (rev (dropWhile (\<lambda>c. c = CHR '' '') s))"
    using assms by (auto simp: list_all_iff dest: set_dropWhileD)
  with assms show ?thesis
    by (simp add: trim_def utf8_chars_plain list_all_iff arith_ascii drop rev_map)
qed

definition edged :: "string \<Rightarrow> bool" where
  "edged s \<longleftrightarrow> s \<noteq> [] \<and> list_all arith_char s \<and> hd s \<noteq> CHR '' '' \<and> ends_operand (last s)"

lemma ends_operand_not_space: "ends_operand c \<Longrightarrow> c \<noteq> CHR '' '' \<and> \<not> is_ascii_space c"
  by (auto simp: ends_operand_def is_ascii_alphanumeric_def is_ascii_space_def Let_def)

lemma trim_edged:
  assumes "edged s"
  shows "trim s = s" "trim (s @ '' '') = s" "trim (CHR '' '' # s) = s"
proof -
  have s: "list_all arith_char s" "dropWhile (\<lambda>c. c = CHR '' '') s = s" "dropWhile (\<lambda>c. c = CHR '' '') (rev s) = rev s"
    using assms ends_operand_not_space by (auto simp: edged_def hd_rev neq_Nil_conv dropWhile_eq_self_iff)
  then have "dropWhile (\<lambda>c. c = CHR '' '') (s @ '' '') = s @ '' ''"
    using assms by (cases s) (auto simp: edged_def)
  with s show "trim s = s" "trim (s @ '' '') = s" "trim (CHR '' '' # s) = s"
    by (simp_all add: trim_arith arith_char_def)
qed

section \<open>Printed trees\<close>

definition reserved_words :: "string list" where
  "reserved_words = [''length'', ''to_s'', ''size'', ''strip'', ''lstrip'', ''rstrip'', ''first'', ''last'']"

text \<open>A name: letters, digits, underscores and dots, not a literal and not ending in a reader's own word.\<close>

definition plain_name :: "string \<Rightarrow> bool" where
  "plain_name p \<longleftrightarrow>
     p \<noteq> [] \<and> list_all word_char p \<and> \<not> is_ascii_digit (hd p) \<and> hd p \<noteq> CHR ''.'' \<and> last p \<noteq> CHR ''.'' \<and>
     p \<notin> {''true'', ''false'', ''nil''} \<and> list_all (\<lambda>w. \<not> ends_with (CHR ''.'' # w) p) reserved_words"

fun plain_tree :: "resolver \<Rightarrow> bool" where
  "plain_tree (R_Lookup p) = plain_name p"
| "plain_tree (R_Integer n) = True"
| "plain_tree (R_Float f) = (is_float_literal (format_ruby_float f) \<and> parse_f64 (format_ruby_float f) = Some f)"
| "plain_tree (R_Addition l r) = (plain_tree l \<and> plain_tree r)"
| "plain_tree (R_Subtraction l r) = (plain_tree l \<and> plain_tree r)"
| "plain_tree (R_Multiplication l r) = (plain_tree l \<and> plain_tree r)"
| "plain_tree (R_Division l r) = (plain_tree l \<and> plain_tree r)"
| "plain_tree _ = False"

text \<open>The same tree as an operator and two sides, or a leaf with its text.\<close>

datatype sum_tree = Leaf_Text string | Joined char sum_tree sum_tree

fun strength :: "sum_tree \<Rightarrow> nat" where
  "strength (Leaf_Text s) = 0"
| "strength (Joined op l r) = binding_strength op"

fun bracketed :: "char \<Rightarrow> bool \<Rightarrow> sum_tree \<Rightarrow> bool" where
  "bracketed op on_right t = (strength t \<noteq> 0 \<and> (strength t < binding_strength op \<or> on_right \<and> strength t = binding_strength op))"

declare bracketed.simps [simp del]

definition enclosed :: "bool \<Rightarrow> string \<Rightarrow> string" where
  "enclosed b s = (if b then ''('' @ s @ '')'' else s)"

fun spelled :: "sum_tree \<Rightarrow> string" where
  "spelled (Leaf_Text s) = s"
| "spelled (Joined op l r) =
     enclosed (bracketed op False l) (spelled l) @ '' '' @ [op] @ '' '' @ enclosed (bracketed op True r) (spelled r)"

text \<open>A leaf: perhaps a sign, then word characters that end an operand.\<close>

definition leaf_text :: "string \<Rightarrow> bool" where
  "leaf_text s \<longleftrightarrow> (\<exists>sign body. s = sign @ body \<and> (sign = [] \<or> sign = ''-'') \<and> body \<noteq> [] \<and> list_all word_char body \<and> ends_operand (last body))"

fun spellable :: "sum_tree \<Rightarrow> bool" where
  "spellable (Leaf_Text s) = leaf_text s"
| "spellable (Joined op l r) = (op_char op \<and> spellable l \<and> spellable r)"

lemma leaf_edged: "leaf_text s \<Longrightarrow> edged s"
  unfolding leaf_text_def edged_def
  by (auto simp: arith_char_def list_all_iff op_char_def word_char_props(5))

lemma spelled_edged: "spellable t \<Longrightarrow> edged (spelled t)"
proof (induction t)
  case (Leaf_Text s)
  then show ?case by (simp add: leaf_edged)
next
  case (Joined op l r)
  then show ?case
    by (auto simp: edged_def enclosed_def arith_char_def ends_operand_def hd_append)
qed

lemma enclosed_edged: "edged s \<Longrightarrow> edged (enclosed b s)"
  by (auto simp: edged_def enclosed_def arith_char_def ends_operand_def)

section \<open>Scanning printed text\<close>

definition fresh :: "string \<Rightarrow> bool" where
  "fresh passed \<longleftrightarrow> \<not> binary_position passed (CHR ''-'')"

lemma fresh_after: "op_char op \<Longrightarrow> fresh (CHR '' '' # op # passed)" "fresh (CHR ''('' # passed)" "fresh []"
  by (auto simp: fresh_def binary_position_def op_char_def is_ascii_space_def ends_operand_def is_ascii_alphanumeric_def)

lemma operand_after: "edged s \<Longrightarrow> binary_position (CHR '' '' # rev s @ passed) c"
proof -
  assume "edged s"
  then obtain x xs where "s = xs @ [x]" "ends_operand x"
    unfolding edged_def by (metis append_butlast_last_id)
  then show ?thesis
    using ends_operand_not_space [of x] by (simp add: binary_position_def is_ascii_space_def)
qed

lemma scan_words:
  "list_all word_char body \<Longrightarrow> \<forall>c\<in>set ops. op_char c \<Longrightarrow>
   last_binary ops depth None passed found (body @ rest) = last_binary ops depth None (rev body @ passed) found rest"
proof (induction body arbitrary: passed)
  case (Cons c body)
  then have "\<not> is_quote c" "c \<notin> set ''(){}[]''" "\<not> List.member ops c"
    using word_char_props [of c] by auto
  with Cons show ?case by simp
qed simp

lemma scan_leaf:
  assumes "leaf_text s" "fresh passed" "\<forall>c\<in>set ops. op_char c"
  shows "last_binary ops depth None passed found (s @ rest) = last_binary ops depth None (rev s @ passed) found rest"
proof -
  from assms(1) obtain sign body where s: "s = sign @ body" "sign = [] \<or> sign = ''-''" "list_all word_char body"
    by (auto simp: leaf_text_def)
  from s(2) show ?thesis
    using scan_words [OF s(3) assms(3)] assms(2) by (auto simp: s(1) fresh_def is_quote_def)
qed

text \<open>The place, in the text of a tree, of the last operator of \<open>ops\<close> outside brackets.\<close>

fun last_op :: "string \<Rightarrow> sum_tree \<Rightarrow> nat option" where
  "last_op ops (Leaf_Text s) = None"
| "last_op ops (Joined op l r) =
     (let left = enclosed (bracketed op False l) (spelled l)
      in case (if bracketed op True r then None else last_op ops r) of
           Some j \<Rightarrow> Some (length left + 3 + j)
         | None \<Rightarrow>
             if List.member ops op then Some (length left + 1)
             else if bracketed op False l then None else last_op ops l)"

definition found_after :: "string \<Rightarrow> nat option \<Rightarrow> nat option \<Rightarrow> nat option" where
  "found_after passed place found = (case place of Some j \<Rightarrow> Some (length passed + j) | None \<Rightarrow> found)"

lemma scan_enclosed:
  assumes tree: "\<And>passed depth found rest. fresh passed \<Longrightarrow> 0 \<le> depth \<Longrightarrow>
      last_binary ops depth None passed found (spelled t @ rest) =
      last_binary ops depth None (rev (spelled t) @ passed) (if depth = 0 then found_after passed (last_op ops t) found else found) rest"
    and "fresh passed" "0 \<le> depth"
  shows "last_binary ops depth None passed found (enclosed b (spelled t) @ rest) =
    last_binary ops depth None (rev (enclosed b (spelled t)) @ passed)
      (if depth = 0 then found_after passed (if b then None else last_op ops t) found else found) rest"
proof (cases b)
  case True
  then show ?thesis
    using assms(3) by (simp add: enclosed_def is_quote_def tree fresh_after(2) found_after_def)
next
  case False
  then show ?thesis
    using tree [OF assms(2,3)] by (simp add: enclosed_def)
qed

lemma scan_tree:
  assumes "\<forall>c\<in>set ops. op_char c"
  shows "spellable t \<Longrightarrow> fresh passed \<Longrightarrow> 0 \<le> depth \<Longrightarrow>
    last_binary ops depth None passed found (spelled t @ rest) =
    last_binary ops depth None (rev (spelled t) @ passed)
      (if depth = 0 then found_after passed (last_op ops t) found else found) rest"
proof (induction t arbitrary: passed depth found rest)
  case (Leaf_Text s)
  then show ?case using scan_leaf assms by (simp add: found_after_def)
next
  case (Joined op l r)
  let ?L = "enclosed (bracketed op False l) (spelled l)" and ?R = "enclosed (bracketed op True r) (spelled r)"
  have op: "op_char op" "\<not> is_quote op" "op \<notin> set ''(){}[]''" "op \<noteq> CHR '' ''"
    using Joined.prems by (auto simp: op_char_def is_quote_def)
  have space: "\<not> List.member ops (CHR '' '')" using assms by (auto simp: op_char_def)
  have "edged ?L" using Joined.prems by (simp add: spelled_edged enclosed_edged)
  then have here: "binary_position (CHR '' '' # rev ?L @ passed) op" by (rule operand_after)
  have left: "last_binary ops depth None passed found (?L @ more) =
      last_binary ops depth None (rev ?L @ passed)
        (if depth = 0 then found_after passed (if bracketed op False l then None else last_op ops l) found else found) more" for found more
    using Joined by (intro scan_enclosed) auto
  have right: "last_binary ops depth None (CHR '' '' # op # CHR '' '' # rev ?L @ passed) found (?R @ rest) =
      last_binary ops depth None (rev ?R @ CHR '' '' # op # CHR '' '' # rev ?L @ passed)
        (if depth = 0 then found_after (CHR '' '' # op # CHR '' '' # rev ?L @ passed) (if bracketed op True r then None else last_op ops r) found else found) rest" for found
    using Joined op by (intro scan_enclosed fresh_after) auto
  have spaces: "last_binary ops depth None p f (CHR '' '' # cs) = last_binary ops depth None (CHR '' '' # p) f cs" for p f cs
    using space by (simp add: is_quote_def)
  have at_op: "last_binary ops depth None (CHR '' '' # rev ?L @ passed) f (op # cs) =
      last_binary ops depth None (op # CHR '' '' # rev ?L @ passed)
        (if depth = 0 \<and> List.member ops op then Some (length (CHR '' '' # rev ?L @ passed)) else f) cs" for f cs
    using op here by simp
  have "last_binary ops depth None passed found (spelled (Joined op l r) @ rest) =
      last_binary ops depth None passed found (?L @ CHR '' '' # op # CHR '' '' # ?R @ rest)"
    by simp
  also have "\<dots> = last_binary ops depth None (rev (spelled (Joined op l r)) @ passed)
      (if depth = 0 then found_after passed (last_op ops (Joined op l r)) found else found) rest"
    unfolding left spaces at_op right
    by (cases "depth = 0") (auto simp: found_after_def Let_def ac_simps eval_nat_numeral split: option.splits)
  finally show ?case .
qed

section \<open>The last operator is the root's\<close>

lemma op_strength: "op_char op \<Longrightarrow> binding_strength op = 1 \<longleftrightarrow> List.member ''+-'' op" "op_char op \<Longrightarrow> binding_strength op = 2 \<longleftrightarrow> List.member ''*/'' op"
  "binding_strength op = 1 \<or> binding_strength op = 2"
  by (auto simp: op_char_def binding_strength_def)

lemma strength_cases: "strength t = 0 \<or> strength t = 1 \<or> strength t = 2"
  using op_strength(3) by (cases t) auto

lemma no_loose_operator: "spellable t \<Longrightarrow> strength t \<noteq> 1 \<Longrightarrow> last_op ''+-'' t = None"
proof (induction t)
  case (Joined op l r)
  then have "binding_strength op = 2" using op_strength(3) [of op] by simp
  then have "\<not> List.member ''+-'' op" "bracketed op b u \<longleftrightarrow> strength u = 1 \<or> b \<and> strength u = 2" for b u
    using op_strength(1) [of op] Joined.prems op_strength(3) by (cases u; auto simp: bracketed.simps)+
  with Joined show ?case by (auto simp: Let_def)
qed simp

lemma root_operator:
  assumes "spellable (Joined op l r)" "ops = (if binding_strength op = 1 then ''+-'' else ''*/'')"
  shows "last_op ops (Joined op l r) = Some (length (enclosed (bracketed op False l) (spelled l)) + 1)"
proof -
  have "bracketed op True r \<or> last_op ops r = None"
  proof (cases "binding_strength op = 1")
    case True
    with assms show ?thesis using no_loose_operator [of r] by (cases "strength r = 1") (auto simp: bracketed.simps)
  next
    case False
    with op_strength(3) [of op] have "binding_strength op = 2" by simp
    then have "bracketed op True r \<or> strength r = 0"
      using strength_cases [of r] by (auto simp: bracketed.simps)
    moreover have "strength r = 0 \<Longrightarrow> last_op ops r = None"
      by (cases r) (simp_all add: binding_strength_def split: if_splits)
    ultimately show ?thesis by fastforce
  qed
  moreover have "List.member ops op" using assms op_strength [of op] by auto
  ultimately show ?thesis by (auto simp: Let_def)
qed

lemma operators_are_ops: "\<forall>c\<in>set ''+-''. op_char c" "\<forall>c\<in>set ''*/''. op_char c"
  by (simp_all add: op_char_def)

lemma last_binary_spelled:
  assumes "spellable t" "\<forall>c\<in>set ops. op_char c"
  shows "last_binary ops 0 None [] None (spelled t) = last_op ops t"
    and "last_binary ops 0 None [] None (enclosed True (spelled t)) = None"
proof -
  show "last_binary ops 0 None [] None (spelled t) = last_op ops t"
    using scan_tree [OF assms(2,1) fresh_after(3), of 0 None "[]"] by (simp add: found_after_def split: option.splits)
  show "last_binary ops 0 None [] None (enclosed True (spelled t)) = None"
    using scan_enclosed [OF scan_tree [OF assms(2,1)] fresh_after(3), of 0 None True "[]"] by (simp add: found_after_def)
qed

lemma split_root:
  assumes "spellable (Joined op l r)" "ops = (if binding_strength op = 1 then ''+-'' else ''*/'')"
  shows "split_last_binary (spelled (Joined op l r)) ops =
    Some (op, enclosed (bracketed op False l) (spelled l), enclosed (bracketed op True r) (spelled r))"
proof -
  have "edged (enclosed (bracketed op False l) (spelled l))" "edged (enclosed (bracketed op True r) (spelled r))"
    using assms(1) by (simp_all add: enclosed_edged spelled_edged)
  note trims = trim_edged(2) [OF this(1)] trim_edged(3) [OF this(2)]
  have "\<forall>c\<in>set ops. op_char c" using assms(2) operators_are_ops by simp
  from last_binary_spelled(1) [OF assms(1) this] show ?thesis
    unfolding root_operator [OF assms] by (simp add: split_last_binary_def nth_append trims)
qed

section \<open>Brackets\<close>

lemma closes_neutral: "list_all (\<lambda>c. \<not> is_quote c \<and> c \<noteq> CHR ''('' \<and> c \<noteq> CHR '')'') s \<Longrightarrow> closes_last depth None (s @ rest) = closes_last depth None rest"
  by (induction s) auto

lemma leaf_neutral: "leaf_text s \<Longrightarrow> list_all (\<lambda>c. \<not> is_quote c \<and> c \<noteq> CHR ''('' \<and> c \<noteq> CHR '')'') s"
  using word_char_props(1,2) by (fastforce simp: leaf_text_def list_all_iff is_quote_def)

lemma closes_enclosed:
  assumes "\<And>depth rest. 1 \<le> depth \<Longrightarrow> closes_last depth None (s @ rest) = closes_last depth None rest" "1 \<le> depth"
  shows "closes_last depth None (enclosed b s @ rest) = closes_last depth None rest"
  using assms by (simp add: enclosed_def is_quote_def)

lemma closes_tree: "spellable t \<Longrightarrow> 1 \<le> depth \<Longrightarrow> closes_last depth None (spelled t @ rest) = closes_last depth None rest"
proof (induction t arbitrary: depth rest)
  case (Joined op l r)
  then have "\<not> is_quote op" "op \<noteq> CHR ''(''" "op \<noteq> CHR '')''" by (auto simp: op_char_def is_quote_def)
  with Joined show ?case
    by (simp add: closes_enclosed is_quote_def)
qed (simp add: closes_neutral leaf_neutral)

lemma grouped_tree: "spellable t \<Longrightarrow> grouped (enclosed True (spelled t))"
  by (auto simp: grouped_def enclosed_def starts_with_def ends_with_def strip_suffix_Some is_quote_def closes_tree)

section \<open>The form a printed text is read as\<close>

text \<open>No leaf of the tree ends in \<open>.length\<close>, the one suffix tried first.\<close>

fun unmeasured :: "sum_tree \<Rightarrow> bool" where
  "unmeasured (Leaf_Text s) = (\<not> ends_with ''.length'' s)"
| "unmeasured (Joined op l r) = (unmeasured l \<and> unmeasured r)"

lemma suffix_in_word:
  assumes "w @ s = xs @ c # ys" "c \<notin> set s"
  shows "\<exists>u. ys = u @ s"
  using assms by (auto simp: append_eq_append_conv2 append_eq_Cons_conv)

lemma unmeasured_spelled: "unmeasured t \<Longrightarrow> \<not> ends_with ''.length'' (spelled t)"
proof (induction t)
  case (Joined op l r)
  show ?case
  proof
    assume "ends_with ''.length'' (spelled (Joined op l r))"
    then obtain w where "w @ ''.length'' = (enclosed (bracketed op False l) (spelled l) @ '' '' @ [op]) @ CHR '' '' # enclosed (bracketed op True r) (spelled r)"
      by (auto simp: ends_with_def strip_suffix_Some)
    from suffix_in_word [OF this] obtain u where u: "enclosed (bracketed op True r) (spelled r) = u @ ''.length''"
      by auto
    then have "last (enclosed (bracketed op True r) (spelled r)) = CHR ''h''" by simp
    then have "\<not> bracketed op True r" by (auto simp: enclosed_def)
    with u Joined show False by (auto simp: enclosed_def ends_with_def strip_suffix_Some)
  qed
qed simp

lemma not_digit: "\<not> is_ascii_digit (CHR '' '')" "\<not> is_ascii_digit (CHR ''('')" "\<not> is_ascii_digit (CHR ''h'')" "\<not> is_ascii_digit (CHR ''.'')"
  by (simp_all add: is_ascii_digit_def)

lemma not_literal:
  assumes "CHR '' '' \<in> set s \<or> hd s = CHR ''(''" "edged s"
  shows "literal_form s = None"
proof -
  have "unsigned s = s \<or> s = CHR ''-'' # unsigned s"
    by (auto simp: unsigned_def strip_prefix_Some split: option.splits)
  moreover have "CHR '' '' \<in> set s \<or> CHR ''('' \<in> set s" "s = CHR ''-'' # u \<Longrightarrow> CHR '' '' \<in> set u" for u
    using assms by (cases s; auto simp: edged_def)+
  ultimately have odd: "\<exists>c\<in>set (unsigned s). c = CHR '' '' \<or> c = CHR ''(''"
    by metis
  then have "\<not> is_integer_literal s" using not_digit by (auto simp: is_integer_literal_def list_all_iff)
  moreover have "\<not> is_float_literal s"
    using odd not_digit by (auto simp: is_float_literal_def list_all_iff split: option.splits dest!: split_once_Some)
  moreover have "hd s \<notin> {CHR 0x22, CHR 0x27, CHR ''[''}"
    using assms(2) by (cases s) (auto simp: edged_def arith_char_def word_char_def op_char_def is_ascii_alphanumeric_def Let_def)
  then have "quoted_text s = None" "array_elements s = None"
    using assms(2) by (auto simp: quoted_text_def array_elements_def starts_with_def strip_prefix_Some)
  ultimately show ?thesis using assms(1) by (auto simp: literal_form_def)
qed

lemma dotted_None: "\<not> ends_with (CHR ''.'' # suffix) s \<Longrightarrow> dotted s node suffix = None"
  by (simp add: dotted_def strip_suffix_dotted_def ends_with_def)

lemma read_joined:
  assumes "spellable (Joined op l r)" "unmeasured (Joined op l r)"
    and node: "node = (if op = CHR ''+'' then R_Addition else if op = CHR ''-'' then R_Subtraction
      else if op = CHR ''*'' then R_Multiplication else R_Division)"
  shows "read_form (spelled (Joined op l r)) =
    F_Binary node (enclosed (bracketed op False l) (spelled l)) (enclosed (bracketed op True r) (spelled r))"
proof -
  let ?s = "spelled (Joined op l r)"
  have first: "dotted ?s R_Size ''length'' = None"
    using unmeasured_spelled [OF assms(2)] by (intro dotted_None)
  have literal: "literal_form ?s = None"
    using spelled_edged [OF assms(1)] by (intro not_literal) auto
  show ?thesis
  proof (cases "binding_strength op = 1")
    case True
    then have "sum_form ?s = Some (F_Binary node (enclosed (bracketed op False l) (spelled l)) (enclosed (bracketed op True r) (spelled r)))"
      using split_root [OF assms(1), of "''+-''"] assms(1) node by (auto simp: sum_form_def op_char_def binding_strength_def)
    with first literal show ?thesis by (simp add: read_form_def form_rules_def)
  next
    case False
    then have "last_op ''+-'' (Joined op l r) = None"
      by (intro no_loose_operator assms(1)) simp
    then have "sum_form ?s = None"
      using last_binary_spelled(1) [OF assms(1) operators_are_ops(1)] by (simp add: sum_form_def split_last_binary_def)
    moreover have "product_form ?s = Some (F_Binary node (enclosed (bracketed op False l) (spelled l)) (enclosed (bracketed op True r) (spelled r)))"
      using False split_root [OF assms(1), of "''*/''"] assms(1) node by (auto simp: product_form_def op_char_def binding_strength_def)
    ultimately show ?thesis using first literal by (simp add: read_form_def form_rules_def)
  qed
qed

lemma parse_enclosed:
  assumes "spellable t"
  shows "parse_resolver (enclosed b (spelled t)) = parse_resolver (spelled t)"
proof (cases b)
  case True
  let ?s = "enclosed True (spelled t)"
  have "dotted ?s R_Size ''length'' = None"
    by (intro dotted_None) (auto simp: enclosed_def ends_with_def strip_suffix_Some dest!: arg_cong [where f = last])
  moreover have "literal_form ?s = None"
    using enclosed_edged [OF spelled_edged [OF assms], of True] by (intro not_literal) (auto simp: enclosed_def)
  moreover have "sum_form ?s = None" "product_form ?s = None"
    using last_binary_spelled(2) [OF assms] operators_are_ops by (simp_all add: sum_form_def product_form_def split_last_binary_def)
  ultimately have "read_form ?s = F_Same (inner ?s)"
    using grouped_tree [OF assms] by (simp add: read_form_def form_rules_def)
  moreover have "inner ?s = spelled t" by (simp add: inner_def enclosed_def)
  moreover have "trim ?s = ?s" using enclosed_edged [OF spelled_edged [OF assms]] by (rule trim_edged(1))
  ultimately show ?thesis using True by (subst parse_resolver.simps) simp
qed (simp add: enclosed_def)

lemma parse_joined:
  assumes "spellable (Joined op l r)" "unmeasured (Joined op l r)"
    and "node = (if op = CHR ''+'' then R_Addition else if op = CHR ''-'' then R_Subtraction
      else if op = CHR ''*'' then R_Multiplication else R_Division)"
  shows "parse_resolver (spelled (Joined op l r)) =
    Option.bind (parse_resolver (spelled l)) (\<lambda>a. map_option (node a) (parse_resolver (spelled r)))"
proof -
  have "trim (spelled (Joined op l r)) = spelled (Joined op l r)"
    using assms(1) by (intro trim_edged spelled_edged)
  then have "read_form (trim (spelled (Joined op l r))) =
    F_Binary node (enclosed (bracketed op False l) (spelled l)) (enclosed (bracketed op True r) (spelled r))"
    using read_joined [OF assms] by simp
  moreover have "spellable l" "spellable r" using assms(1) by simp_all
  ultimately show ?thesis
    by (subst parse_resolver.simps) (simp add: parse_enclosed)
qed

section \<open>Leaves\<close>

lemma leaf_operators: "leaf_text s \<Longrightarrow> sum_form s = None" "leaf_text s \<Longrightarrow> product_form s = None"
  using last_binary_spelled(1) [of "Leaf_Text s"] operators_are_ops
  by (simp_all add: sum_form_def product_form_def split_last_binary_def)

lemma word_last: "list_all word_char s \<Longrightarrow> s \<noteq> [] \<Longrightarrow> word_char (last s)"
  by (simp add: list_all_iff)

lemma not_word: "\<not> word_char (CHR ''?'')" "\<not> word_char (CHR '')'')" "\<not> word_char (CHR ''{'')" "\<not> word_char (CHR 0x22)" "\<not> word_char (CHR 0x27)"
  "\<not> word_char (CHR ''['')" "\<not> word_char (CHR ''('')" "\<not> word_char (CHR ''-'')"
  by (simp_all add: word_char_def is_ascii_alphanumeric_def)

lemma word_no_end: "list_all word_char s \<Longrightarrow> \<not> word_char (last p) \<Longrightarrow> p \<noteq> [] \<Longrightarrow> strip_suffix p s = None"
  by (cases "strip_suffix p s") (auto simp: strip_suffix_Some list_all_iff)

lemma word_no_call: "list_all word_char s \<Longrightarrow> match_call s m = None" "list_all word_char s \<Longrightarrow> match_string_call s name = None"
  "list_all word_char s \<Longrightarrow> match_regex s = None"
  by (simp_all add: match_call_def match_string_call_def match_regex_def ends_with_def word_no_end not_word)

lemma word_no_question: "list_all word_char s \<Longrightarrow> last suffix = CHR ''?'' \<Longrightarrow> suffix \<noteq> [] \<Longrightarrow> dotted s node suffix = None"
  by (intro dotted_None) (simp add: ends_with_def word_no_end not_word)

lemma word_no_sign_test: "list_all word_char s \<Longrightarrow> sign_test s = None"
  by (simp add: sign_test_def SIGN_TESTS_def word_no_end not_word)

lemma word_no_block: "list_all word_char s \<Longrightarrow> parse_block_opener s = None"
proof -
  assume words: "list_all word_char s"
  have "block_head rest = None" if "set rest \<subseteq> set s" for rest
  proof -
    have "CHR ''{'' \<notin> set (dropWhile is_ascii_space rest)"
      using that words not_word(3) by (auto simp: list_all_iff dest: set_dropWhileD)
    then have "strip_prefix ''{'' (dropWhile is_ascii_space rest) = None"
      by (metis append_Cons list.set_intros(1) not_None_eq strip_prefix_Some)
    then show ?thesis by (simp add: block_head_def)
  qed
  moreover have "set rest \<subseteq> set s" if "strip_prefix p (drop i s) = Some rest" for p i rest
    using that set_drop_subset [of i s] by (auto simp: strip_prefix_Some)
  ultimately have "opening_at s suffix i = None" for suffix i
    by (cases "strip_prefix (CHR ''.'' # suffix) (drop i s)") (simp_all add: opening_at_def)
  then have "first_opening s suffix = None" for suffix
    by (simp add: first_opening_def find_None_iff)
  then show ?thesis
    by (simp add: parse_block_opener_def BLOCK_OPENERS_def earlier_opening_def)
qed

lemma name_leaf: "plain_name p \<Longrightarrow> leaf_text p"
  unfolding leaf_text_def using word_last [of p]
  by (intro exI [of _ "[]"] exI [of _ p]) (auto simp: plain_name_def ends_operand_def word_char_def)

lemma name_not_literal: "plain_name p \<Longrightarrow> literal_form p = None"
proof -
  assume p: "plain_name p"
  then obtain c cs where c: "p = c # cs" "word_char c" "\<not> is_ascii_digit c" "c \<noteq> CHR ''.''"
    by (cases p) (auto simp: plain_name_def)
  have special: "c \<notin> {CHR ''-'', CHR 0x22, CHR 0x27, CHR ''[''}" using c(2) not_word by auto
  then have "unsigned p = p" by (auto simp: unsigned_def c(1))
  moreover from this have "\<not> is_float_literal p"
    using c by (auto simp: is_float_literal_def Cons_eq_append_conv split: option.splits dest!: split_once_Some)
  ultimately show ?thesis
    using c special p by (auto simp: literal_form_def is_integer_literal_def quoted_text_def array_elements_def starts_with_def plain_name_def)
qed

lemma read_name: "plain_name p \<Longrightarrow> parse_resolver p = Some (R_Lookup p)"
proof -
  assume p: "plain_name p"
  then have words: "list_all word_char p" by (simp add: plain_name_def)
  have reserved: "dotted p node w = None" if "w \<in> set reserved_words" for node w
    using p that by (intro dotted_None) (simp add: plain_name_def list_all_iff)
  have "\<not> grouped p" using words not_word(7) by (cases p) (auto simp: grouped_def starts_with_def)
  then have "read_form p = F_Value (Some (R_Lookup p))"
    using name_leaf [OF p]
    by (simp add: read_form_def form_rules_def name_not_literal [OF p] leaf_operators word_no_call [OF words]
        word_no_question [OF words] word_no_sign_test [OF words] word_no_block [OF words] reserved reserved_words_def)
  moreover have "trim p = p" using name_leaf [OF p] leaf_edged trim_edged(1) by blast
  ultimately show ?thesis by (subst parse_resolver.simps) simp
qed

lemma digits_words: "list_all is_ascii_digit ds \<Longrightarrow> list_all word_char ds"
  by (auto simp: list_all_iff word_char_def is_ascii_digit_def is_ascii_alphanumeric_def)

lemma digit_ends: "list_all is_ascii_digit ds \<Longrightarrow> ds \<noteq> [] \<Longrightarrow> ends_operand (last ds)"
  using last_in_set [of ds] by (auto simp: list_all_iff ends_operand_def is_ascii_digit_def is_ascii_alphanumeric_def)

lemma number_leaf:
  assumes "unsigned s = ds" "s = ds \<or> s = CHR ''-'' # ds" "ds = front @ tail" "tail \<noteq> []" "list_all is_ascii_digit tail" "list_all word_char front"
  shows "leaf_text s" "\<not> ends_with ''.length'' s"
proof -
  have "list_all word_char ds" "ds \<noteq> []" "ends_operand (last ds)"
    using assms digits_words digit_ends by auto
  with assms(2) show "leaf_text s"
    unfolding leaf_text_def by (auto intro: exI [of _ "[]"] exI [of _ "''-''"])
  have "last s = last tail" using assms by auto
  then have "last s \<noteq> CHR ''h''"
    using assms(4,5) not_digit(3) by (metis last_in_set list_all_iff)
  then show "\<not> ends_with ''.length'' s" by (auto simp: ends_with_iff)
qed

lemma unsigned_shape: "s = unsigned s \<or> s = CHR ''-'' # unsigned s"
  by (auto simp: unsigned_def strip_prefix_Some split: option.splits)

lemma integer_leaf: "is_integer_literal s \<Longrightarrow> leaf_text s \<and> \<not> ends_with ''.length'' s"
  using number_leaf [OF refl unsigned_shape, of s "[]" "unsigned s"] by (simp add: is_integer_literal_def)

lemma float_leaf: "is_float_literal s \<Longrightarrow> leaf_text s \<and> \<not> ends_with ''.length'' s"
proof -
  assume "is_float_literal s"
  then obtain a b where ab: "unsigned s = a @ ''.'' @ b" "list_all is_ascii_digit a" "b \<noteq> []" "list_all is_ascii_digit b"
    by (auto simp: is_float_literal_def dest!: split_once_Some split: option.splits)
  then have "list_all word_char (a @ ''.'')" using digits_words by (simp add: word_char_def)
  with number_leaf [OF refl unsigned_shape, of s "a @ ''.''" b] ab show ?thesis by simp
qed

lemma read_literal:
  assumes "leaf_text s" "\<not> ends_with ''.length'' s" "literal_form s = Some (F_Value v)"
  shows "parse_resolver s = v"
proof -
  have "read_form s = F_Value v"
    using dotted_None [OF assms(2)] assms(3) by (simp add: read_form_def form_rules_def)
  moreover have "trim s = s" using assms(1) leaf_edged trim_edged(1) by blast
  ultimately show ?thesis by (subst parse_resolver.simps) simp
qed

lemma show_int_literal: "is_integer_literal (show_int i)"
proof (cases "i < 0")
  case True
  then show ?thesis by (simp add: show_int_def is_integer_literal_def unsigned_def show_digits_digits)
next
  case False
  obtain c cs where s: "show_digits i = c # cs" by (cases "show_digits i") auto
  with False show_digits_no_sign [OF _ s] have "unsigned (show_digits i) = show_digits i" by (auto simp: unsigned_def)
  with False show ?thesis by (simp add: show_int_def is_integer_literal_def show_digits_digits)
qed

lemma float_not_integer: "is_float_literal s \<Longrightarrow> \<not> is_integer_literal s"
  by (auto simp: is_float_literal_def is_integer_literal_def is_ascii_digit_def dest!: split_once_Some split: option.splits)

section \<open>The round trip\<close>

fun tree_of :: "resolver \<Rightarrow> sum_tree" where
  "tree_of (R_Addition l r) = Joined (CHR ''+'') (tree_of l) (tree_of r)"
| "tree_of (R_Subtraction l r) = Joined (CHR ''-'') (tree_of l) (tree_of r)"
| "tree_of (R_Multiplication l r) = Joined (CHR ''*'') (tree_of l) (tree_of r)"
| "tree_of (R_Division l r) = Joined (CHR ''/'') (tree_of l) (tree_of r)"
| "tree_of (R_Lookup path) = Leaf_Text path"
| "tree_of (R_Integer n) = Leaf_Text (show_int (sint n))"
| "tree_of (R_Float f) = Leaf_Text (format_ruby_float f)"
| "tree_of _ = Leaf_Text []"

lemma strength_tree_of: "strength (tree_of t) = node_strength t"
  by (cases t) (simp_all add: binding_strength_def)

lemma render_side_enclosed: "render_side op on_right t s = enclosed (bracketed op on_right (tree_of t)) s"
  by (simp add: render_side_def enclosed_def bracketed.simps strength_tree_of Let_def)

lemma render_spelled: "plain_tree t \<Longrightarrow> render_arithmetic t = Some (spelled (tree_of t))"
  by (induction t rule: plain_tree.induct) (simp_all add: render_binary_def render_side_enclosed)

lemma plain_leaves: "plain_tree t \<Longrightarrow> spellable (tree_of t) \<and> unmeasured (tree_of t)"
proof (induction t rule: plain_tree.induct)
  case (1 p)
  then show ?case by (simp add: name_leaf) (simp add: plain_name_def reserved_words_def)
next
  case (2 n)
  show ?case using integer_leaf [OF show_int_literal] by simp
next
  case (3 f)
  then show ?case using float_leaf by simp
qed (simp_all add: op_char_def)

lemma parse_spelled: "plain_tree t \<Longrightarrow> parse_resolver (spelled (tree_of t)) = Some t"
proof (induction t rule: plain_tree.induct)
  case (1 p)
  then show ?case by (simp add: read_name)
next
  case (2 n)
  show ?case
    using integer_leaf [OF show_int_literal, of "sint n"] show_int_literal [of "sint n"]
    by (simp add: read_literal literal_form_def)
next
  case (3 f)
  then show ?case
    using float_leaf float_not_integer by (simp add: read_literal literal_form_def)
next
  case (4 l r)
  then show ?case using parse_joined [OF _ _ refl, of "CHR ''+''" "tree_of l" "tree_of r"] plain_leaves [OF 4(3)] by simp
next
  case (5 l r)
  then show ?case using parse_joined [OF _ _ refl, of "CHR ''-''" "tree_of l" "tree_of r"] plain_leaves [OF 5(3)] by simp
next
  case (6 l r)
  then show ?case using parse_joined [OF _ _ refl, of "CHR ''*''" "tree_of l" "tree_of r"] plain_leaves [OF 6(3)] by simp
next
  case (7 l r)
  then show ?case using parse_joined [OF _ _ refl, of "CHR ''/''" "tree_of l" "tree_of r"] plain_leaves [OF 7(3)] by simp
qed simp_all

text \<open>
  C11: the canonical text of an arithmetic expression over names and numbers exists, reads back as the very
  tree it was printed from (brackets stand exactly where the grouping needs them), and is its own canonical
  text.
\<close>

theorem arithmetic_text_roundtrip:
  assumes "parse_resolver expr = Some t" "plain_tree t" "node_strength t \<noteq> 0"
  shows "\<exists>s. arithmetic_text expr = Some (Some s) \<and> parse_resolver s = Some t \<and> arithmetic_text s = Some (Some s)"
  using assms by (simp add: arithmetic_text_def render_spelled parse_spelled)

theorem arithmetic_text_roundtrip_witness:
  "\<exists>s. arithmetic_text ''a-(b-2)'' = Some (Some s) \<and>
     parse_resolver s = Some (R_Subtraction (R_Lookup ''a'') (R_Subtraction (R_Lookup ''b'') (R_Integer 2))) \<and>
     arithmetic_text s = Some (Some s)"
proof (rule arithmetic_text_roundtrip)
  show "parse_resolver ''a-(b-2)'' = Some (R_Subtraction (R_Lookup ''a'') (R_Subtraction (R_Lookup ''b'') (R_Integer 2)))"
    by code_simp
qed code_simp+

end
