(* ===== verification/Rate_Limit.thy ===== *)
theory Rate_Limit
  imports Store "HOL-Library.AList" "HOL-Library.Word"
begin

unbundle bit_operations_syntax

text \<open>
  The host's rate limits: \<open>rust/host/src/rate_limit.rs\<close>, \<open>constant_time_eq\<close> of \<open>crypto.rs\<close> and the rule lookup
  of \<open>extension.rs\<close>. Instants and durations are nanoseconds, a \<open>HashMap\<close> is an association list without
  repeated keys, the \<open>BTreeMap\<close> of recent keys is a list sorted by sequence number. The sequence counter, a
  \<open>u64\<close> that grows by one per allowed request, is a natural number. The text forms of addresses, the header
  map of the web framework and the installed rules are parameters.
\<close>

section \<open>Sliding windows\<close>

definition DEFAULT_WINDOW_SECONDS :: nat where "DEFAULT_WINDOW_SECONDS = 3600"
definition DEFAULT_MAX_KEYS :: nat where "DEFAULT_MAX_KEYS = 10000"
definition U64_MAX :: nat where "U64_MAX = 2 ^ 64 - 1"
definition NANOS :: nat where "NANOS = 1000000000"
definition MILLI :: nat where "MILLI = 1000000"

record decision =
  dc_allowed :: bool
  dc_remaining :: nat
  dc_retry_after_secs :: nat

record stamped_entry =
  en_stamps :: "nat list"
  en_seq :: nat

record sliding_window =
  sw_limit :: nat
  sw_window :: nat
  sw_max_keys :: nat
  sw_entries :: "(string \<times> stamped_entry) list"
  sw_recency :: "(nat \<times> string) list"
  sw_next_seq :: nat

definition new_window :: "nat \<Rightarrow> nat \<Rightarrow> nat \<Rightarrow> sliding_window" where
  "new_window limit window max_keys =
     \<lparr>sw_limit = max limit 1, sw_window = window, sw_max_keys = max max_keys 1,
      sw_entries = [], sw_recency = [], sw_next_seq = 0\<rparr>"

text \<open>The stamps still inside the window; subtraction of instants saturates at zero.\<close>

definition unexpired :: "nat \<Rightarrow> nat \<Rightarrow> nat list \<Rightarrow> nat list" where
  "unexpired window now stamps = dropWhile (\<lambda>s. window \<le> now - s) stamps"

definition retry_secs :: "nat \<Rightarrow> nat" where
  "retry_secs wait =
     (let millis = wait div MILLI; secs = (millis + 999) div 1000
      in max (if secs \<le> U64_MAX then secs else U64_MAX) 1)"

definition record_request :: "string \<Rightarrow> nat \<Rightarrow> sliding_window \<Rightarrow> decision \<times> sliding_window" where
  "record_request key now w =
     (let seq = sw_next_seq w
      in case map_of (sw_entries w) key of
           Some e \<Rightarrow>
             let stamps = en_stamps e @ [now]
             in (\<lparr>dc_allowed = True, dc_remaining = sw_limit w - length stamps, dc_retry_after_secs = 0\<rparr>,
                 w\<lparr>sw_next_seq := seq + 1,
                   sw_entries := AList.update key \<lparr>en_stamps = stamps, en_seq = seq\<rparr> (sw_entries w),
                   sw_recency := btree_insert seq key (AList.delete (en_seq e) (sw_recency w))\<rparr>)
         | None \<Rightarrow>
             (\<lparr>dc_allowed = True, dc_remaining = sw_limit w - 1, dc_retry_after_secs = 0\<rparr>,
              w\<lparr>sw_next_seq := seq + 1,
                sw_entries := AList.update key \<lparr>en_stamps = [now], en_seq = seq\<rparr> (sw_entries w),
                sw_recency := btree_insert seq key (sw_recency w)\<rparr>))"

text \<open>The first loop of \<open>make_room\<close>: the least recently active keys go while their last stamp has left the window.\<close>

definition idle :: "nat \<Rightarrow> nat \<Rightarrow> (string \<times> stamped_entry) list \<Rightarrow> string \<Rightarrow> bool" where
  "idle window now entries key =
     (case map_of entries key of
        None \<Rightarrow> True
      | Some e \<Rightarrow> en_stamps e = [] \<or> window \<le> now - last (en_stamps e))"

fun sweep :: "nat \<Rightarrow> nat \<Rightarrow> (nat \<times> string) list \<Rightarrow> (string \<times> stamped_entry) list \<Rightarrow>
    (nat \<times> string) list \<times> (string \<times> stamped_entry) list" where
  "sweep window now [] entries = ([], entries)"
| "sweep window now ((seq, key) # recency) entries =
     (if idle window now entries key then sweep window now recency (AList.delete key entries)
      else ((seq, key) # recency, entries))"

text \<open>The second loop: while there is no room, the least recently active key goes.\<close>

fun evict :: "nat \<Rightarrow> (nat \<times> string) list \<Rightarrow> (string \<times> stamped_entry) list \<Rightarrow>
    (nat \<times> string) list \<times> (string \<times> stamped_entry) list" where
  "evict max_keys [] entries = ([], entries)"
| "evict max_keys ((seq, key) # recency) entries =
     (if max_keys \<le> length entries then evict max_keys recency (AList.delete key entries)
      else ((seq, key) # recency, entries))"

definition make_room :: "nat \<Rightarrow> sliding_window \<Rightarrow> sliding_window" where
  "make_room now w =
     (if length (sw_entries w) < sw_max_keys w then w
      else let (recency, entries) = sweep (sw_window w) now (sw_recency w) (sw_entries w);
               (recency, entries) = evict (sw_max_keys w) recency entries
           in w\<lparr>sw_recency := recency, sw_entries := entries\<rparr>)"

definition check_window :: "string \<Rightarrow> nat \<Rightarrow> sliding_window \<Rightarrow> decision \<times> sliding_window" where
  "check_window key now w =
     (case map_of (sw_entries w) key of
        Some e \<Rightarrow>
          let stamps = unexpired (sw_window w) now (en_stamps e);
              w = w\<lparr>sw_entries := AList.update key (e\<lparr>en_stamps := stamps\<rparr>) (sw_entries w)\<rparr>
          in if sw_limit w \<le> length stamps
             then let oldest = (case stamps of [] \<Rightarrow> now | s # _ \<Rightarrow> s); wait = sw_window w - (now - oldest)
                  in (\<lparr>dc_allowed = False, dc_remaining = 0, dc_retry_after_secs = retry_secs wait\<rparr>, w)
             else record_request key now w
      | None \<Rightarrow> record_request key now (make_room now w))"

section \<open>Addresses\<close>

datatype ip_addr = V4 "32 word" | V6 "128 word"

text \<open>An IPv4-mapped IPv6 address (\<open>::ffff:a.b.c.d\<close>) counts as its IPv4 form.\<close>

fun to_canonical :: "ip_addr \<Rightarrow> ip_addr" where
  "to_canonical (V4 a) = V4 a"
| "to_canonical (V6 a) = (if drop_bit 32 a = 0xFFFF then V4 (ucast a) else V6 a)"

record ip_net =
  nt_addr :: ip_addr
  nt_prefix :: nat

definition parse_unsigned :: "nat \<Rightarrow> string \<Rightarrow> nat option" where
  "parse_unsigned most s =
     (let digits = (case strip_prefix ''+'' s of Some rest \<Rightarrow> rest | None \<Rightarrow> s)
      in case parse_digits digits of
           Some n \<Rightarrow> if nat n \<le> most then Some (nat n) else None
         | None \<Rightarrow> None)"

definition parse_net :: "(string \<Rightarrow> ip_addr option) \<Rightarrow> string \<Rightarrow> ip_net option" where
  "parse_net parse_ip src =
     (let body = trim src;
          (addr_text, prefix_text) =
            (case split_once ''/'' body of Some (addr, prefix) \<Rightarrow> (addr, Some prefix) | None \<Rightarrow> (body, None))
      in Option.bind (parse_ip (trim addr_text)) (\<lambda>addr.
           let width = (case addr of V4 _ \<Rightarrow> 32 | V6 _ \<Rightarrow> 128)
           in map_option (\<lambda>prefix. \<lparr>nt_addr = addr, nt_prefix = prefix\<rparr>)
                (case prefix_text of
                   None \<Rightarrow> Some width
                 | Some p \<Rightarrow>
                     Option.bind (parse_unsigned 255 (trim p)) (\<lambda>n. if n \<le> width then Some n else None))))"

definition contains_ip :: "ip_net \<Rightarrow> ip_addr \<Rightarrow> bool" where
  "contains_ip net ip =
     (case (nt_addr net, to_canonical ip) of
        (V4 n, V4 a) \<Rightarrow>
          let mask = (if nt_prefix net = 0 then 0 else push_bit (32 - nt_prefix net) (-1))
          in n AND mask = a AND mask
      | (V6 n, V6 a) \<Rightarrow>
          let mask = (if nt_prefix net = 0 then 0 else push_bit (128 - nt_prefix net) (-1))
          in n AND mask = a AND mask
      | _ \<Rightarrow> False)"

definition byte_of :: "char \<Rightarrow> 8 word" where
  "byte_of c = of_int (of_char c)"

definition constant_time_eq :: "string \<Rightarrow> string \<Rightarrow> bool" where
  "constant_time_eq a b \<longleftrightarrow>
     length a = length b \<and> fold (\<lambda>(x, y) diff. diff OR (byte_of x XOR byte_of y)) (zip a b) 0 = 0"

record proxy_auth =
  pa_header :: string
  pa_secret :: string

record proxy_trust =
  pt_networks :: "ip_net list"
  pt_hops :: nat
  pt_auth :: "proxy_auth option"

definition trusts :: "proxy_trust \<Rightarrow> ip_addr option \<Rightarrow> string option \<Rightarrow> bool" where
  "trusts trust peer presented =
     ((case (pt_auth trust, presented) of
         (Some auth, Some given) \<Rightarrow> constant_time_eq (pa_secret auth) given
       | _ \<Rightarrow> False) \<or>
      (case peer of None \<Rightarrow> False | Some p \<Rightarrow> list_ex (\<lambda>net. contains_ip net p) (pt_networks trust)))"

text \<open>The forwarded entries, nearest first: the first that no trusted network holds; a bad entry ends the search.\<close>

fun first_untrusted :: "(string \<Rightarrow> ip_addr option) \<Rightarrow> ip_net list \<Rightarrow> string list \<Rightarrow> ip_addr option" where
  "first_untrusted parse_ip networks [] = None"
| "first_untrusted parse_ip networks (e # entries) =
     (case map_option to_canonical (parse_ip e) of
        None \<Rightarrow> None
      | Some ip \<Rightarrow>
          if \<not> list_ex (\<lambda>net. contains_ip net ip) networks then Some ip
          else first_untrusted parse_ip networks entries)"

definition forwarded_entries :: "string option \<Rightarrow> string list" where
  "forwarded_entries forwarded =
     filter (\<lambda>e. e \<noteq> []) (map trim (split_str '','' (case forwarded of Some f \<Rightarrow> f | None \<Rightarrow> [])))"

definition client_ip ::
    "(string \<Rightarrow> ip_addr option) \<Rightarrow> proxy_trust \<Rightarrow> ip_addr option \<Rightarrow> string option \<Rightarrow> string option \<Rightarrow> ip_addr option" where
  "client_ip parse_ip trust peer forwarded presented =
     (let peer = map_option to_canonical peer
      in if \<not> trusts trust peer presented then peer
         else let entries = forwarded_entries forwarded
              in if entries = [] then peer
                 else first_untrusted parse_ip (pt_networks trust) (drop (pt_hops trust) (rev entries)))"

section \<open>Settings\<close>

record rate_rule =
  rr_name :: string
  rr_method :: string
  rr_path :: string
  rr_limit_env :: string
  rr_default_limit :: nat

record rate_config =
  rc_enabled :: bool
  rc_window :: nat
  rc_limits :: "string \<rightharpoonup> nat"
  rc_max_keys :: nat
  rc_trust :: proxy_trust

definition setting :: "(string \<Rightarrow> string option) \<Rightarrow> string \<Rightarrow> string option" where
  "setting get name = (case map_option trim (get name) of Some v \<Rightarrow> if v = [] then None else Some v | None \<Rightarrow> None)"

text \<open>A setting that is not a positive whole number falls back to its default with a warning.\<close>

definition number_setting :: "(string \<Rightarrow> string option) \<Rightarrow> string \<Rightarrow> nat \<Rightarrow> string list \<Rightarrow> nat \<times> string list" where
  "number_setting get name fallback warnings =
     (case setting get name of
        None \<Rightarrow> (fallback, warnings)
      | Some raw \<Rightarrow>
          (case parse_unsigned U64_MAX raw of
             Some n \<Rightarrow> if n \<ge> 1 then (n, warnings) else (fallback, warnings @ [name @ ''='' @ debug_str raw @
                 '' is not a positive whole number; using '' @ show_int (int fallback)])
           | None \<Rightarrow> (fallback, warnings @ [name @ ''='' @ debug_str raw @
                 '' is not a positive whole number; using '' @ show_int (int fallback)])))"

fun limit_settings :: "(string \<Rightarrow> string option) \<Rightarrow> rate_rule list \<Rightarrow> (string \<rightharpoonup> nat) \<Rightarrow> string list \<Rightarrow> (string \<rightharpoonup> nat) \<times> string list" where
  "limit_settings get [] limits warnings = (limits, warnings)"
| "limit_settings get (rule # rules) limits warnings =
     (let (n, warnings) = number_setting get (rr_limit_env rule) (rr_default_limit rule) warnings
      in limit_settings get rules (limits(rr_name rule \<mapsto> n)) warnings)"

definition hops_setting :: "(string \<Rightarrow> string option) \<Rightarrow> string list \<Rightarrow> nat \<times> string list" where
  "hops_setting get warnings =
     (case setting get ''HECKS_TRUSTED_PROXY_HOPS'' of
        None \<Rightarrow> (0, warnings)
      | Some raw \<Rightarrow>
          (case parse_unsigned U64_MAX raw of
             Some n \<Rightarrow> (n, warnings)
           | None \<Rightarrow> (0, warnings @ [''HECKS_TRUSTED_PROXY_HOPS='' @ debug_str raw @ '' is not a whole number; using 0''])))"

fun parse_networks :: "(string \<Rightarrow> ip_addr option) \<Rightarrow> string list \<Rightarrow> string list \<Rightarrow> ip_net list \<times> string list" where
  "parse_networks parse_ip [] warnings = ([], warnings)"
| "parse_networks parse_ip (e # entries) warnings =
     (if trim e = [] then parse_networks parse_ip entries warnings
      else case parse_net parse_ip (trim e) of
             Some net \<Rightarrow> (let (nets, warnings) = parse_networks parse_ip entries warnings in (net # nets, warnings))
           | None \<Rightarrow> parse_networks parse_ip entries (warnings @ [''HECKS_TRUSTED_PROXIES entry '' @ debug_str (trim e) @
               '' is not an address or CIDR range; ignored'']))"

definition lower_byte :: "char \<Rightarrow> char" where
  "lower_byte c = (let n = (of_char c :: int) in if 65 \<le> n \<and> n \<le> 90 then byte (n + 32) else c)"

definition to_ascii_lowercase :: "string \<Rightarrow> string" where
  "to_ascii_lowercase s = map lower_byte s"

definition parse_proxy_auth ::
    "(string \<Rightarrow> bool) \<Rightarrow> (string \<Rightarrow> string option) \<Rightarrow> string list \<Rightarrow> proxy_auth option \<times> string list" where
  "parse_proxy_auth header_name get warnings =
     (let header = setting get ''HECKS_PROXY_AUTH_HEADER'';
          secret = (case get ''HECKS_PROXY_AUTH_SECRET'' of Some v \<Rightarrow> if v = [] then None else Some v | None \<Rightarrow> None)
      in case (header, secret) of
           (None, None) \<Rightarrow> (None, warnings)
         | (Some header, Some secret) \<Rightarrow>
             if header_name (to_ascii_lowercase header)
             then (Some \<lparr>pa_header = to_ascii_lowercase header, pa_secret = secret\<rparr>, warnings)
             else (None, warnings @ [''HECKS_PROXY_AUTH_HEADER '' @ debug_str header @
               '' is not a valid header name; proxy authentication is off''])
         | _ \<Rightarrow> (None, warnings @
               [''HECKS_PROXY_AUTH_HEADER and HECKS_PROXY_AUTH_SECRET must both be set; proxy authentication is off'']))"

definition is_off :: "string \<Rightarrow> bool" where
  "is_off v = List.member [''off'', ''false'', ''0'', ''no'', ''disabled''] (to_ascii_lowercase (trim v))"

definition from_lookup ::
    "(string \<Rightarrow> ip_addr option) \<Rightarrow> (string \<Rightarrow> bool) \<Rightarrow> rate_rule list \<Rightarrow> (string \<Rightarrow> string option) \<Rightarrow> rate_config \<times> string list" where
  "from_lookup parse_ip header_name rules get =
     (let (window, warnings) = number_setting get ''HECKS_RATE_LIMIT_WINDOW_SECONDS'' DEFAULT_WINDOW_SECONDS [];
          (limits, warnings) = limit_settings get rules Map.empty warnings;
          (max_keys, warnings) = number_setting get ''HECKS_RATE_LIMIT_MAX_KEYS'' DEFAULT_MAX_KEYS warnings;
          (hops, warnings) = hops_setting get warnings;
          (networks, warnings) =
            parse_networks parse_ip (split_str '','' (case get ''HECKS_TRUSTED_PROXIES'' of Some v \<Rightarrow> v | None \<Rightarrow> [])) warnings;
          (auth, warnings) = parse_proxy_auth header_name get warnings;
          enabled = (case get ''HECKS_RATE_LIMIT'' of Some v \<Rightarrow> \<not> is_off v | None \<Rightarrow> True)
      in (\<lparr>rc_enabled = enabled, rc_window = window * NANOS, rc_limits = limits, rc_max_keys = max_keys,
           rc_trust = \<lparr>pt_networks = networks, pt_hops = hops, pt_auth = auth\<rparr>\<rparr>, warnings))"

definition limit_for :: "rate_config \<Rightarrow> rate_rule \<Rightarrow> nat" where
  "limit_for config rule = (case rc_limits config (rr_name rule) of Some n \<Rightarrow> n | None \<Rightarrow> rr_default_limit rule)"

section \<open>Requests\<close>

datatype verdict = Verdict_Allowed | Verdict_Limited nat

record rate_limits =
  rl_config :: rate_config
  rl_windows :: "string \<rightharpoonup> sliding_window"
  rl_warned_untrusted_proxy :: bool

definition new_limits :: "rate_config \<Rightarrow> rate_limits" where
  "new_limits config = \<lparr>rl_config = config, rl_windows = Map.empty, rl_warned_untrusted_proxy = False\<rparr>"

text \<open>
  A request's headers: the value of a name when it is text, and all values of a name. The first is what
  \<open>headers.get(name)\<close> followed by \<open>to_str\<close> gives, the second what \<open>get_all\<close> gives, each read lossily.
\<close>

record request_headers =
  rh_get :: "string \<Rightarrow> string option"
  rh_get_all :: "string \<Rightarrow> string list"

definition joined_header :: "request_headers \<Rightarrow> string \<Rightarrow> string option" where
  "joined_header headers name =
     (let values = rh_get_all headers name in if values = [] then None else Some (str_join '', '' values))"

definition is_private :: "ip_addr \<Rightarrow> bool" where
  "is_private ip =
     (case ip of
        V4 a \<Rightarrow> drop_bit 24 a = 10 \<or> drop_bit 20 a = 0xAC1 \<or> drop_bit 16 a = 0xC0A8 \<or>
          drop_bit 24 a = 127 \<or> drop_bit 16 a = 0xA9FE
      | V6 a \<Rightarrow> a = 1 \<or> drop_bit 112 a AND 0xFE00 = 0xFC00)"

definition bucket_key :: "(ip_addr \<Rightarrow> string) \<Rightarrow> ip_addr \<Rightarrow> string" where
  "bucket_key show_ip ip =
     (case ip of
        V4 a \<Rightarrow> show_ip (V4 a)
      | V6 a \<Rightarrow> show_ip (V6 (a AND push_bit 64 (-1))) @ ''/64'')"

definition UNKNOWN_CLIENT :: string where "UNKNOWN_CLIENT = ''unknown''"

text \<open>The warning is logged once; here only the flag that says it was.\<close>

definition warn_if_proxy_untrusted :: "string option \<Rightarrow> ip_addr option \<Rightarrow> string option \<Rightarrow> rate_limits \<Rightarrow> rate_limits" where
  "warn_if_proxy_untrusted forwarded peer presented limits =
     (case map_option to_canonical peer of
        None \<Rightarrow> limits
      | Some p \<Rightarrow>
          if forwarded = None \<or> \<not> is_private p \<or> trusts (rc_trust (rl_config limits)) (Some p) presented then limits
          else limits\<lparr>rl_warned_untrusted_proxy := True\<rparr>)"

record address_text =
  at_parse :: "string \<Rightarrow> ip_addr option"
  at_show :: "ip_addr \<Rightarrow> string"

definition client_key :: "address_text \<Rightarrow> request_headers \<Rightarrow> ip_addr option \<Rightarrow> rate_limits \<Rightarrow> string \<times> rate_limits" where
  "client_key texts headers peer limits =
     (let trust = rc_trust (rl_config limits);
          forwarded = joined_header headers ''x-forwarded-for'';
          presented = Option.bind (pt_auth trust) (\<lambda>auth. rh_get headers (pa_header auth));
          limits = warn_if_proxy_untrusted forwarded peer presented limits
      in (case client_ip (at_parse texts) trust peer forwarded presented of
            None \<Rightarrow> UNKNOWN_CLIENT
          | Some ip \<Rightarrow> bucket_key (at_show texts) ip, limits))"

definition rate_rule_for :: "rate_rule list \<Rightarrow> string \<Rightarrow> string \<Rightarrow> rate_rule option" where
  "rate_rule_for rules verb path = List.find (\<lambda>rule. rr_method rule = verb \<and> rr_path rule = path) rules"

definition check_at ::
    "address_text \<Rightarrow> rate_rule list \<Rightarrow> string \<Rightarrow> string \<Rightarrow> request_headers \<Rightarrow> ip_addr option \<Rightarrow> nat \<Rightarrow> rate_limits \<Rightarrow>
     verdict \<times> rate_limits" where
  "check_at texts rules verb path headers peer now limits =
     (case (if rc_enabled (rl_config limits) then rate_rule_for rules verb path else None) of
        None \<Rightarrow> (Verdict_Allowed, limits)
      | Some rule \<Rightarrow>
          let (key, limits) = client_key texts headers peer limits;
              config = rl_config limits;
              held = (case rl_windows limits (rr_name rule) of
                Some w \<Rightarrow> w
              | None \<Rightarrow> new_window (limit_for config rule) (rc_window config) (rc_max_keys config));
              (decision, w) = check_window key now held
          in (if dc_allowed decision then Verdict_Allowed else Verdict_Limited (dc_retry_after_secs decision),
              limits\<lparr>rl_windows := (rl_windows limits)(rr_name rule \<mapsto> w)\<rparr>))"

end
