(* ===== verification/Rate_Limit_Laws.thy ===== *)
theory Rate_Limit_Laws
  imports Rate_Limit
begin

text \<open>
  What the sliding windows promise. A window never holds more keys than it may. Its decisions are those of a
  specification that keeps, per client, every allowed request since the client was last admitted, and names the
  clients a newcomer displaces: those that have been quiet for a whole window, then the least recently active. As
  long as no window sees more clients than the cap, that displaces nobody who counts, so the decisions are
  those of a history that forgets nothing, and no stretch of time as long as the window holds more than the
  limit. A refused caller who waits is allowed; and the client's address does not depend on what the
  client itself put in the forwarded header.
\<close>

section \<open>Specifications\<close>

text \<open>The requests of one client that still count, and the answer they give.\<close>

definition recent :: "nat \<Rightarrow> nat \<Rightarrow> nat list \<Rightarrow> nat list" where
  "recent window now stamps = filter (\<lambda>s. now - s < window) stamps"

definition answer_for :: "nat \<Rightarrow> nat \<Rightarrow> nat \<Rightarrow> nat list \<Rightarrow> decision" where
  "answer_for limit window now stamps =
     (let counted = recent window now stamps
      in if length counted < limit
         then \<lparr>dc_allowed = True, dc_remaining = limit - length counted - 1, dc_retry_after_secs = 0\<rparr>
         else \<lparr>dc_allowed = False, dc_remaining = 0,
               dc_retry_after_secs = retry_secs (window - (now - hd counted))\<rparr>)"

text \<open>
  The clients kept, the least recently allowed first, each with every request it was allowed since it was
  admitted. A newcomer to a full house displaces the quiet clients and then, from the front, as many as it takes.
\<close>

type_synonym kept = "(string \<times> nat list) list"

definition stamps_of :: "kept \<Rightarrow> string \<Rightarrow> nat list" where
  "stamps_of kept key = (case map_of kept key of Some stamps \<Rightarrow> stamps | None \<Rightarrow> [])"

definition quiet :: "nat \<Rightarrow> nat \<Rightarrow> string \<times> nat list \<Rightarrow> bool" where
  "quiet window now client \<longleftrightarrow> recent window now (snd client) = []"

definition displace :: "nat \<Rightarrow> nat \<Rightarrow> nat \<Rightarrow> kept \<Rightarrow> kept" where
  "displace cap window now kept =
     (if length kept < cap then kept
      else let live = filter (\<lambda>client. \<not> quiet window now client) kept in drop (Suc (length live) - cap) live)"

definition lru_check :: "nat \<Rightarrow> nat \<Rightarrow> nat \<Rightarrow> string \<Rightarrow> nat \<Rightarrow> kept \<Rightarrow> decision \<times> kept" where
  "lru_check limit window cap key now kept =
     (let d = answer_for limit window now (stamps_of kept key);
          others = (if key \<in> fst ` set kept then AList.delete key kept else displace cap window now kept)
      in (d, if dc_allowed d then others @ [(key, stamps_of kept key @ [now])] else kept))"

fun lru_run :: "nat \<Rightarrow> nat \<Rightarrow> nat \<Rightarrow> kept \<Rightarrow> (string \<times> nat) list \<Rightarrow> decision list \<times> kept" where
  "lru_run limit window cap kept [] = ([], kept)"
| "lru_run limit window cap kept ((key, now) # rs) =
     (let (d, kept) = lru_check limit window cap key now kept; (ds, kept) = lru_run limit window cap kept rs
      in (d # ds, kept))"

text \<open>The history that forgets nothing.\<close>

type_synonym history = "string \<Rightarrow> nat list"

definition spec_check :: "nat \<Rightarrow> nat \<Rightarrow> string \<Rightarrow> nat \<Rightarrow> history \<Rightarrow> decision \<times> history" where
  "spec_check limit window key now h =
     (let d = answer_for limit window now (h key) in (d, if dc_allowed d then h(key := h key @ [now]) else h))"

fun spec_run :: "nat \<Rightarrow> nat \<Rightarrow> history \<Rightarrow> (string \<times> nat) list \<Rightarrow> decision list \<times> history" where
  "spec_run limit window h [] = ([], h)"
| "spec_run limit window h ((key, now) # rs) =
     (let (d, h) = spec_check limit window key now h; (ds, h) = spec_run limit window h rs in (d # ds, h))"

fun run_window :: "sliding_window \<Rightarrow> (string \<times> nat) list \<Rightarrow> decision list \<times> sliding_window" where
  "run_window w [] = ([], w)"
| "run_window w ((key, now) # rs) =
     (let (d, w) = check_window key now w; (ds, w) = run_window w rs in (d # ds, w))"

section \<open>Association lists\<close>

lemma map_of_update: "map_of (AList.update k v al) = (map_of al)(k \<mapsto> v)"
  by (simp add: update_conv')

lemma map_of_delete: "map_of (AList.delete k al) = (map_of al)(k := None)"
  by (simp add: delete_conv')

lemma length_keys: "distinct (map fst al) \<Longrightarrow> length al = card (fst ` set al)"
  by (metis distinct_card length_map set_map)

section \<open>A window stays within its bounds\<close>

text \<open>
  The invariant of a window: no repeated key, a recency list sorted by sequence number that names exactly the
  keys held, no more keys than allowed, and per key between one stamp and the limit.
\<close>

definition linked :: "(nat \<times> string) list \<Rightarrow> (string \<times> stamped_entry) list \<Rightarrow> bool" where
  "linked recency entries \<longleftrightarrow>
     distinct (map fst entries) \<and> sorted_wrt (<) (map fst recency) \<and> distinct (map snd recency) \<and>
     (\<forall>seq key. (seq, key) \<in> set recency \<longleftrightarrow> (\<exists>e. map_of entries key = Some e \<and> en_seq e = seq))"

definition window_ok :: "sliding_window \<Rightarrow> bool" where
  "window_ok w \<longleftrightarrow>
     linked (sw_recency w) (sw_entries w) \<and> (\<forall>(seq, key)\<in>set (sw_recency w). seq < sw_next_seq w) \<and>
     length (sw_entries w) \<le> sw_max_keys w \<and> 1 \<le> sw_max_keys w \<and> 1 \<le> sw_limit w \<and>
     (\<forall>(key, e)\<in>set (sw_entries w). en_stamps e \<noteq> [] \<and> length (en_stamps e) \<le> sw_limit w)"

lemma set_delete: "set (AList.delete k al) = {x \<in> set al. fst x \<noteq> k}"
  by (auto simp: AList.delete_eq)

lemma set_update_sub: "distinct (map fst al) \<Longrightarrow> set (AList.update k v al) \<subseteq> insert (k, v) {x \<in> set al. fst x \<noteq> k}"
proof (induction al)
  case (Cons a al)
  then have "\<forall>x\<in>set al. fst x \<noteq> fst a" by (auto simp: image_iff)
  with Cons show ?case by (cases a) auto
qed simp

lemma linked_iff: "linked recency entries \<Longrightarrow> (seq, key) \<in> set recency \<longleftrightarrow> (\<exists>e. map_of entries key = Some e \<and> en_seq e = seq)"
  unfolding linked_def by blast

lemma linked_pop:
  assumes "linked ((seq, key) # recency) entries"
  shows "linked recency (AList.delete key entries)"
proof -
  have "(s, k) \<in> set recency \<longleftrightarrow> (\<exists>e. map_of (AList.delete key entries) k = Some e \<and> en_seq e = s)" for s k
  proof (cases "k = key")
    case True
    with assms show ?thesis by (force simp: linked_def map_of_delete)
  next
    case False
    then have "(s, k) \<in> set recency \<longleftrightarrow> (s, k) \<in> set ((seq, key) # recency)" by auto
    also have "\<dots> \<longleftrightarrow> (\<exists>e. map_of entries k = Some e \<and> en_seq e = s)" by (rule linked_iff [OF assms])
    finally show ?thesis using False by (simp add: map_of_delete)
  qed
  with assms show ?thesis by (simp add: linked_def distinct_delete)
qed

lemma linked_none: "linked [] entries \<Longrightarrow> entries = []"
  unfolding linked_def by (cases entries) (auto split: if_splits)

lemma sweep_linked:
  "linked recency entries \<Longrightarrow> sweep window now recency entries = (recency', entries') \<Longrightarrow>
   linked recency' entries' \<and> set recency' \<subseteq> set recency \<and> set entries' \<subseteq> set entries"
proof (induction window now recency entries rule: sweep.induct)
  case (2 window now seq key recency entries)
  show ?case
  proof (cases "idle window now entries key")
    case True
    with 2 linked_pop have "linked recency' entries' \<and> set recency' \<subseteq> set recency \<and> set entries' \<subseteq> set (AList.delete key entries)" by auto
    then show ?thesis by (auto simp: set_delete)
  qed (use 2 in auto)
qed auto

lemma evict_linked:
  "linked recency entries \<Longrightarrow> evict max_keys recency entries = (recency', entries') \<Longrightarrow> 1 \<le> max_keys \<Longrightarrow>
   linked recency' entries' \<and> set recency' \<subseteq> set recency \<and> set entries' \<subseteq> set entries \<and> length entries' < max_keys"
proof (induction max_keys recency entries rule: evict.induct)
  case (1 max_keys entries)
  then show ?case by (auto dest: linked_none)
next
  case (2 max_keys seq key recency entries)
  show ?case
  proof (cases "max_keys \<le> length entries")
    case True
    with 2 linked_pop have "linked recency' entries' \<and> set recency' \<subseteq> set recency \<and> set entries' \<subseteq> set (AList.delete key entries) \<and> length entries' < max_keys"
      by auto
    then show ?thesis by (auto simp: set_delete)
  qed (use 2 in auto)
qed

lemma make_room_ok:
  assumes "window_ok w"
  shows "window_ok (make_room now w) \<and> length (sw_entries (make_room now w)) < sw_max_keys w \<and>
    set (sw_entries (make_room now w)) \<subseteq> set (sw_entries w)"
proof (cases "length (sw_entries w) < sw_max_keys w")
  case False
  obtain r1 e1 where s: "sweep (sw_window w) now (sw_recency w) (sw_entries w) = (r1, e1)" by fastforce
  obtain r2 e2 where e: "evict (sw_max_keys w) r1 e1 = (r2, e2)" by fastforce
  have "linked (sw_recency w) (sw_entries w)" "1 \<le> sw_max_keys w" using assms by (simp_all add: window_ok_def)
  with sweep_linked [OF _ s] evict_linked [OF _ e]
  have "linked r2 e2" "set r2 \<subseteq> set (sw_recency w)" "set e2 \<subseteq> set (sw_entries w)" "length e2 < sw_max_keys w" by auto
  moreover have "make_room now w = w\<lparr>sw_recency := r2, sw_entries := e2\<rparr>" using False s e by (simp add: make_room_def)
  ultimately show ?thesis using assms by (auto simp: window_ok_def)
qed (use assms in \<open>simp add: make_room_def\<close>)

lemma btree_insert_last: "\<forall>(k', v')\<in>set al. k' < k \<Longrightarrow> btree_insert k v al = al @ [(k, v)]"
  by (induction al) auto

lemma linked_record:
  assumes "linked recency entries" "\<forall>(s, k)\<in>set recency. s < seq" "map_of entries key = Some old"
  shows "linked (AList.delete (en_seq old) recency @ [(seq, key)]) (AList.update key \<lparr>en_stamps = stamps, en_seq = seq\<rparr> entries)"
proof -
  have gone: "snd x \<noteq> key" if "x \<in> set (AList.delete (en_seq old) recency)" for x
    using that assms(3) linked_iff [OF assms(1), of "fst x" key] by (cases x rule: prod.exhaust) (auto simp: set_delete)
  have kept: "(s, k) \<in> set (AList.delete (en_seq old) recency)" if "(s, k) \<in> set recency" "k \<noteq> key" for s k
  proof -
    have "(en_seq old, key) \<in> set recency" using linked_iff [OF assms(1)] assms(3) by blast
    moreover have "distinct (map fst recency)" using assms(1) by (simp add: linked_def strict_sorted_iff)
    ultimately have "s \<noteq> en_seq old"
      using that eq_key_imp_eq_value [of recency s k key] by blast
    with that show ?thesis by (simp add: set_delete)
  qed
  have sub: "sorted_wrt (<) (map fst (AList.delete k recency))" "distinct (map snd (AList.delete k recency))" for k
    using assms(1) by (auto simp: linked_def AList.delete_eq sorted_wrt_map sorted_wrt_filter distinct_map inj_on_def)
  have "(s, k) \<in> set (AList.delete (en_seq old) recency @ [(seq, key)]) \<longleftrightarrow>
      (\<exists>e. map_of (AList.update key \<lparr>en_stamps = stamps, en_seq = seq\<rparr> entries) k = Some e \<and> en_seq e = s)" for s k
  proof (cases "k = key")
    case True
    then show ?thesis using gone by (fastforce simp: map_of_update)
  next
    case False
    with kept [of s k] have "(s, k) \<in> set (AList.delete (en_seq old) recency @ [(seq, key)]) \<longleftrightarrow> (s, k) \<in> set recency"
      by (auto simp: set_delete)
    with False assms(1) show ?thesis by (simp add: linked_def map_of_update)
  qed
  moreover have "sorted_wrt (<) (map fst (AList.delete (en_seq old) recency @ [(seq, key)]))"
    using sub(1) assms(2) by (auto simp: sorted_wrt_append set_delete)
  moreover have "distinct (map snd (AList.delete (en_seq old) recency @ [(seq, key)]))"
    using sub(2) gone by auto
  ultimately show ?thesis using assms(1) by (simp add: linked_def distinct_update)
qed

lemma linked_add:
  assumes "linked recency entries" "\<forall>(s, k)\<in>set recency. s < seq" "map_of entries key = None"
  shows "linked (recency @ [(seq, key)]) (AList.update key \<lparr>en_stamps = stamps, en_seq = seq\<rparr> entries)"
proof -
  have "key \<notin> snd ` set recency" using assms by (auto simp: linked_def)
  moreover from this have "(s, k) \<in> set (recency @ [(seq, key)]) \<longleftrightarrow>
      (\<exists>e. map_of (AList.update key \<lparr>en_stamps = stamps, en_seq = seq\<rparr> entries) k = Some e \<and> en_seq e = s)" for s k
    using assms(1) by (cases "k = key") (force simp: linked_def map_of_update)+
  ultimately show ?thesis
    using assms(1,2) by (auto simp: linked_def distinct_update sorted_wrt_append)
qed

lemma update_length: "key \<in> fst ` set al \<Longrightarrow> length (AList.update key v al) = length al" "key \<notin> fst ` set al \<Longrightarrow> length (AList.update key v al) = length al + 1"
  by (induction al) auto

lemma update_entries: "\<forall>x\<in>set al. P x \<Longrightarrow> P (k, v) \<Longrightarrow> \<forall>x\<in>set (AList.update k v al). P x"
  by (induction al) auto

lemma linked_touch:
  assumes "linked recency entries" "map_of entries key = Some e" "en_seq e' = en_seq e"
  shows "linked recency (AList.update key e' entries)"
proof -
  have "(\<exists>x. map_of (AList.update key e' entries) k = Some x \<and> en_seq x = s) \<longleftrightarrow> (\<exists>x. map_of entries k = Some x \<and> en_seq x = s)" for s k
    using assms(2,3) by (simp add: map_of_update)
  with assms(1) linked_iff [OF assms(1)] show ?thesis by (simp add: linked_def distinct_update)
qed

lemma record_ok:
  assumes ok: "linked (sw_recency w) (sw_entries w)" "\<forall>(seq, key)\<in>set (sw_recency w). seq < sw_next_seq w" "1 \<le> sw_limit w"
    and stamps: "\<forall>(k, e)\<in>set (sw_entries w). k \<noteq> key \<longrightarrow> en_stamps e \<noteq> [] \<and> length (en_stamps e) \<le> sw_limit w"
    and room: "length (sw_entries w) \<le> sw_max_keys w" "1 \<le> sw_max_keys w" "map_of (sw_entries w) key = None \<Longrightarrow> length (sw_entries w) < sw_max_keys w"
    and free: "\<And>e. map_of (sw_entries w) key = Some e \<Longrightarrow> length (en_stamps e) < sw_limit w"
  shows "window_ok (snd (record_request key now w))"
proof (cases "map_of (sw_entries w) key")
  case None
  let ?e = "\<lparr>en_stamps = [now], en_seq = sw_next_seq w\<rparr>"
  have "key \<notin> fst ` set (sw_entries w)" using None by (simp add: map_of_eq_None_iff)
  moreover from this have "\<forall>(k, e)\<in>set (AList.update key ?e (sw_entries w)). en_stamps e \<noteq> [] \<and> length (en_stamps e) \<le> sw_limit w"
    using stamps ok(3) by (intro update_entries) (fastforce simp: image_iff)+
  ultimately show ?thesis
    using None ok room linked_add [OF ok(1,2) None, of "[now]"]
    by (auto simp: record_request_def window_ok_def Let_def btree_insert_last update_length less_SucI)
next
  case (Some e)
  let ?e = "\<lparr>en_stamps = en_stamps e @ [now], en_seq = sw_next_seq w\<rparr>"
  have "set (AList.update key ?e (sw_entries w)) \<subseteq> insert (key, ?e) {x \<in> set (sw_entries w). fst x \<noteq> key}"
    using ok(1) by (intro set_update_sub) (simp add: linked_def)
  then have "\<forall>(k, e)\<in>set (AList.update key ?e (sw_entries w)). en_stamps e \<noteq> [] \<and> length (en_stamps e) \<le> sw_limit w"
    using stamps free [OF Some] by fastforce
  moreover have "\<forall>(s, k)\<in>set (AList.delete (en_seq e) (sw_recency w)). s < sw_next_seq w" using ok(2) by (auto simp: set_delete)
  moreover have "key \<in> fst ` set (sw_entries w)" using Some by (metis map_of_eq_None_iff option.distinct(1))
  ultimately show ?thesis
    using Some ok room linked_record [OF ok(1,2) Some, of "en_stamps e @ [now]"]
    by (auto simp: record_request_def window_ok_def Let_def btree_insert_last update_length less_SucI)
qed

lemma check_ok:
  assumes ok: "window_ok w"
  shows "window_ok (snd (check_window key now w))"
proof (cases "map_of (sw_entries w) key")
  case None
  have "window_ok (make_room now w)" "length (sw_entries (make_room now w)) < sw_max_keys w"
    "map_of (sw_entries (make_room now w)) key = None"
    using make_room_ok [OF ok, of now] None by (auto simp: map_of_eq_None_iff)
  moreover have "sw_max_keys (make_room now w) = sw_max_keys w" by (simp add: make_room_def split: prod.splits)
  ultimately have "window_ok (snd (record_request key now (make_room now w)))"
    by (intro record_ok) (auto simp: window_ok_def)
  with None show ?thesis by (simp add: check_window_def)
next
  case (Some e)
  let ?stamps = "unexpired (sw_window w) now (en_stamps e)"
  let ?w = "w\<lparr>sw_entries := AList.update key (e\<lparr>en_stamps := ?stamps\<rparr>) (sw_entries w)\<rparr>"
  have here: "key \<in> fst ` set (sw_entries w)" using Some by (metis map_of_eq_None_iff option.distinct(1))
  have "(key, e) \<in> set (sw_entries w)" using Some by (rule map_of_SomeD)
  then have "length (en_stamps e) \<le> sw_limit w" using ok by (auto simp: window_ok_def)
  then have short: "length ?stamps \<le> sw_limit w" unfolding unexpired_def by (meson length_dropWhile_le le_trans)
  have linked: "linked (sw_recency w) (AList.update key (e\<lparr>en_stamps := ?stamps\<rparr>) (sw_entries w))"
    using ok Some by (intro linked_touch) (auto simp: window_ok_def)
  have sub: "set (sw_entries ?w) \<subseteq> insert (key, e\<lparr>en_stamps := ?stamps\<rparr>) {x \<in> set (sw_entries w). fst x \<noteq> key}"
    using ok by (simp add: window_ok_def linked_def set_update_sub)
  show ?thesis
  proof (cases "sw_limit w \<le> length ?stamps")
    case True
    then have "?stamps \<noteq> []" using ok by (auto simp: window_ok_def)
    with sub short ok have "\<forall>(k, e)\<in>set (sw_entries ?w). en_stamps e \<noteq> [] \<and> length (en_stamps e) \<le> sw_limit w"
      by (fastforce simp: window_ok_def)
    then have "window_ok ?w" using ok linked here by (simp add: window_ok_def update_length)
    with True Some show ?thesis by (simp add: check_window_def Let_def)
  next
    case False
    have "\<forall>(k, e)\<in>set (sw_entries ?w). k \<noteq> key \<longrightarrow> en_stamps e \<noteq> [] \<and> length (en_stamps e) \<le> sw_limit w"
      using sub ok by (fastforce simp: window_ok_def)
    then have "window_ok (snd (record_request key now ?w))"
      using ok linked here False by (intro record_ok) (auto simp: window_ok_def update_length map_of_update)
    with False Some show ?thesis by (simp add: check_window_def Let_def)
  qed
qed

lemma run_ok: "window_ok w \<Longrightarrow> window_ok (snd (run_window w rs))"
proof (induction w rs rule: run_window.induct)
  case (2 w key now rs)
  then show ?case using check_ok [OF 2(2), of key now] by (auto split: prod.splits)
qed simp

text \<open>
  Whatever requests arrive, at whatever times, a window keeps its invariant: it never holds more keys than
  it may, its recency list names exactly the keys it holds, and no key has more stamps than the limit.
\<close>

theorem window_stays_bounded: "window_ok (snd (run_window (new_window limit window max_keys) rs))"
  by (rule run_ok) (simp add: window_ok_def new_window_def linked_def)

section \<open>The kept clients are refined\<close>

lemma unexpired_recent: "sorted stamps \<Longrightarrow> unexpired window now stamps = recent window now stamps"
proof (induction stamps)
  case (Cons s stamps)
  show ?case
  proof (cases "window \<le> now - s")
    case False
    with Cons.prems have "\<forall>x\<in>set (s # stamps). now - x < window" by auto
    then have "recent window now (s # stamps) = s # stamps"
      unfolding recent_def by (rule filter_True)
    with False show ?thesis by (simp add: unexpired_def)
  qed (use Cons in \<open>simp add: unexpired_def recent_def\<close>)
qed (simp add: unexpired_def recent_def)

text \<open>What a window remembers of a key: all but stamps that have left the window.\<close>

definition remembers :: "nat \<Rightarrow> nat \<Rightarrow> stamped_entry option \<Rightarrow> nat list \<Rightarrow> bool" where
  "remembers window now held stamps \<longleftrightarrow>
     (case held of
        None \<Rightarrow> stamps = []
      | Some e \<Rightarrow> \<exists>gone. stamps = gone @ en_stamps e \<and> (\<forall>s\<in>set gone. window \<le> now - s))"

lemma remembers_later: "remembers window now held stamps \<Longrightarrow> now \<le> now' \<Longrightarrow> remembers window now' held stamps"
  unfolding remembers_def by (fastforce split: option.splits)

lemma recent_remembered:
  assumes "remembers window now (Some e) stamps" "sorted stamps"
  shows "recent window now stamps = unexpired window now (en_stamps e)"
proof -
  from assms obtain gone where g: "stamps = gone @ en_stamps e" "\<forall>s\<in>set gone. window \<le> now - s"
    by (auto simp: remembers_def)
  then have "recent window now gone = []" by (auto simp: recent_def filter_empty_conv)
  moreover have "sorted (en_stamps e)" using assms(2) g(1) by (simp add: sorted_append)
  ultimately show ?thesis using g(1) unexpired_recent by (simp add: recent_def)
qed

lemma unexpired_splits: "\<exists>gone. stamps = gone @ unexpired window now stamps \<and> (\<forall>s\<in>set gone. window \<le> now - s)"
proof (intro exI conjI)
  show "stamps = takeWhile (\<lambda>s. window \<le> now - s) stamps @ unexpired window now stamps"
    by (simp add: unexpired_def)
qed (auto dest: set_takeWhileD)

lemma remembers_unexpired:
  assumes "remembers window now (Some e) stamps"
  shows "remembers window now (Some (e\<lparr>en_stamps := unexpired window now (en_stamps e)\<rparr>)) stamps"
proof -
  from assms obtain gone where "stamps = gone @ en_stamps e" "\<forall>s\<in>set gone. window \<le> now - s"
    by (auto simp: remembers_def)
  moreover obtain more_gone where "en_stamps e = more_gone @ unexpired window now (en_stamps e)" "\<forall>s\<in>set more_gone. window \<le> now - s"
    using unexpired_splits by blast
  ultimately have "stamps = (gone @ more_gone) @ unexpired window now (en_stamps e)" "\<forall>s\<in>set (gone @ more_gone). window \<le> now - s"
    by auto
  then show ?thesis unfolding remembers_def by auto
qed

lemma remembers_snoc:
  "remembers window now (Some e) stamps \<Longrightarrow>
   remembers window now (Some \<lparr>en_stamps = en_stamps e @ [t], en_seq = seq\<rparr>) (stamps @ [t])"
  by (auto simp: remembers_def)

lemma fst_member: "(k, v) \<in> al \<Longrightarrow> k \<in> fst ` al"
  by force

lemma recent_none: "sorted stamps \<Longrightarrow> stamps \<noteq> [] \<Longrightarrow> recent window now stamps = [] \<longleftrightarrow> window \<le> now - last stamps"
proof (induction stamps rule: rev_induct)
  case (snoc s stamps)
  then have "window \<le> now - x" if "window \<le> now - s" "x \<in> set stamps" for x
    using that diff_le_mono2 [of x s now] by (auto simp: sorted_append)
  then show ?case by (auto simp: recent_def filter_empty_conv not_less)
qed simp

lemma linked_length: "linked recency entries \<Longrightarrow> length entries = length recency"
proof -
  assume linked: "linked recency entries"
  then have "fst ` set entries = snd ` set recency"
    unfolding linked_def using map_of_eq_None_iff [of entries] by (force simp: image_iff)
  moreover have "length recency = card (snd ` set recency)"
    using linked by (metis distinct_card length_map linked_def set_map)
  ultimately show ?thesis using linked by (simp add: length_keys linked_def)
qed

text \<open>
  A kept client is represented by its entry: all of its stamps but some that have left the window. The recency list
  names the kept clients in their order.
\<close>

definition represents :: "nat \<Rightarrow> nat \<Rightarrow> (nat \<times> string) list \<Rightarrow> (string \<times> stamped_entry) list \<Rightarrow> kept \<Rightarrow> bool" where
  "represents window now recency entries kept \<longleftrightarrow>
     linked recency entries \<and> map snd recency = map fst kept \<and> sorted (map (last \<circ> snd) kept) \<and>
     (\<forall>(key, e)\<in>set entries. en_stamps e \<noteq> []) \<and>
     (\<forall>(key, stamps)\<in>set kept. sorted stamps \<and> (\<forall>s\<in>set stamps. s \<le> now) \<and>
        (\<exists>e. map_of entries key = Some e \<and> remembers window now (Some e) stamps))"

lemma represents_later: "represents window now recency entries kept \<Longrightarrow> now \<le> now' \<Longrightarrow> represents window now' recency entries kept"
  unfolding represents_def using remembers_later [of window now _ _ now'] by (fastforce dest: le_trans)

lemma representsD:
  assumes "represents window now recency entries kept" "(key, stamps) \<in> set kept"
  shows "sorted stamps" "\<forall>s\<in>set stamps. s \<le> now" "stamps \<noteq> []"
    "\<exists>e. map_of entries key = Some e \<and> remembers window now (Some e) stamps \<and> last stamps = last (en_stamps e)"
proof -
  from assms obtain e where e: "map_of entries key = Some e" "remembers window now (Some e) stamps"
    and past: "sorted stamps" "\<forall>s\<in>set stamps. s \<le> now"
    by (fastforce simp: represents_def)
  have "en_stamps e \<noteq> []" using assms(1) map_of_SomeD [OF e(1)] by (auto simp: represents_def)
  with e past show "sorted stamps" "\<forall>s\<in>set stamps. s \<le> now" "stamps \<noteq> []"
    "\<exists>e. map_of entries key = Some e \<and> remembers window now (Some e) stamps \<and> last stamps = last (en_stamps e)"
    by (auto simp: remembers_def)
qed

lemma represents_keys: "represents window now recency entries kept \<Longrightarrow> distinct (map fst kept) \<and> fst ` set entries = fst ` set kept"
proof -
  assume r: "represents window now recency entries kept"
  then have l: "linked recency entries" "map snd recency = map fst kept" by (simp_all add: represents_def)
  have "fst ` set entries = snd ` set recency"
    using l(1) map_of_eq_None_iff [of entries] unfolding linked_def by (force simp: image_iff)
  also have "\<dots> = fst ` set kept" using l(2) by (metis set_map)
  finally show ?thesis using l by (simp add: linked_def)
qed

lemma represents_lookup:
  assumes "represents window now recency entries kept"
  shows "map_of entries key = None \<longleftrightarrow> key \<notin> fst ` set kept"
    "map_of entries key = Some e \<Longrightarrow> (key, stamps_of kept key) \<in> set kept"
proof -
  note keys = represents_keys [OF assms]
  show "map_of entries key = None \<longleftrightarrow> key \<notin> fst ` set kept" using keys by (simp add: map_of_eq_None_iff)
  assume "map_of entries key = Some e"
  then have "key \<in> fst ` set kept" using keys by (metis map_of_eq_None_iff option.distinct(1))
  then obtain stamps where "map_of kept key = Some stamps" by (metis map_of_eq_None_iff not_None_eq)
  then show "(key, stamps_of kept key) \<in> set kept" by (simp add: stamps_of_def map_of_SomeD)
qed

lemma represents_pop:
  assumes "represents window now ((seq, key) # recency) entries ((key, stamps) # kept)"
  shows "represents window now recency (AList.delete key entries) kept"
  using assms linked_pop [of seq key recency entries] represents_keys [OF assms]
  by (force simp: represents_def map_of_delete set_delete image_iff split: prod.splits)

lemma idle_quiet:
  assumes "represents window now recency entries kept" "(key, stamps) \<in> set kept"
  shows "idle window now entries key = quiet window now (key, stamps)"
proof -
  from representsD [OF assms] obtain e where e: "map_of entries key = Some e" "last stamps = last (en_stamps e)"
    and s: "sorted stamps" "stamps \<noteq> []"
    by blast
  have "en_stamps e \<noteq> []" using assms(1) map_of_SomeD [OF e(1)] by (auto simp: represents_def)
  with e recent_none [OF s, of window now] show ?thesis by (simp add: idle_def quiet_def)
qed

text \<open>Quiet clients stand in front of the live ones, so the sweep finds all of them.\<close>

lemma sweep_drops_quiet:
  "represents window now recency entries kept \<Longrightarrow> sweep window now recency entries = (recency', entries') \<Longrightarrow>
   represents window now recency' entries' (filter (\<lambda>client. \<not> quiet window now client) kept)"
proof (induction window now recency entries arbitrary: kept rule: sweep.induct)
  case (1 window now entries)
  then show ?case by (auto simp: represents_def)
next
  case (2 window now seq key recency entries)
  from 2(2) obtain stamps rest where kept: "kept = (key, stamps) # rest"
    by (cases kept) (auto simp: represents_def)
  have here: "idle window now entries key = quiet window now (key, stamps)"
    using 2(2) unfolding kept by (rule idle_quiet) simp
  show ?case
  proof (cases "idle window now entries key")
    case True
    with 2(1) [OF True represents_pop] 2(2,3) here show ?thesis by (simp add: kept)
  next
    case False
    have "\<not> quiet window now client" if "client \<in> set rest" for client
    proof -
      obtain k s where c: "client = (k, s)" by (cases client)
      have "last stamps \<le> last s" using 2(2) that c by (auto simp: represents_def kept)
      moreover have "now - last stamps < window"
        using False here representsD [OF 2(2), of key stamps] recent_none [of stamps window now] by (auto simp: kept quiet_def)
      moreover have "sorted s" "s \<noteq> []" using representsD [OF 2(2), of k s] that c kept by auto
      ultimately show ?thesis using recent_none [of s window now] c by (auto simp: quiet_def)
    qed
    then have "filter (\<lambda>client. \<not> quiet window now client) kept = kept" using False here by (simp add: kept)
    with 2(2,3) False show ?thesis by auto
  qed
qed

lemma evict_drops_first:
  "represents window now recency entries kept \<Longrightarrow> evict cap recency entries = (recency', entries') \<Longrightarrow> 1 \<le> cap \<Longrightarrow>
   represents window now recency' entries' (drop (Suc (length kept) - cap) kept)"
proof (induction cap recency entries arbitrary: kept rule: evict.induct)
  case (1 cap entries)
  then have "kept = []" by (auto simp: represents_def)
  with 1 show ?case by auto
next
  case (2 cap seq key recency entries)
  from 2(2) obtain stamps rest where kept: "kept = (key, stamps) # rest"
    by (cases kept) (auto simp: represents_def)
  have "length entries = Suc (length rest)"
    using 2(2) linked_length [of "(seq, key) # recency" entries] map_eq_imp_length_eq [of snd recency fst rest]
    by (auto simp: represents_def kept)
  moreover note 2(1) [OF _ represents_pop [OF 2(2) [unfolded kept]] _ 2(4)] 2(2,3)
  ultimately show ?case by (cases "cap \<le> length entries") (auto simp: kept Suc_diff_le)
qed

lemma make_room_displaces:
  assumes "represents (sw_window w) now (sw_recency w) (sw_entries w) kept" "1 \<le> sw_max_keys w"
  shows "represents (sw_window w) now (sw_recency (make_room now w)) (sw_entries (make_room now w))
    (displace (sw_max_keys w) (sw_window w) now kept)"
proof (cases "length (sw_entries w) < sw_max_keys w")
  case True
  have "length (sw_entries w) = length kept"
    using assms(1) linked_length map_eq_imp_length_eq unfolding represents_def by metis
  with True assms show ?thesis by (simp add: make_room_def displace_def)
next
  case False
  obtain r1 e1 where s: "sweep (sw_window w) now (sw_recency w) (sw_entries w) = (r1, e1)" by fastforce
  obtain r2 e2 where e: "evict (sw_max_keys w) r1 e1 = (r2, e2)" by fastforce
  have "length (sw_entries w) = length kept"
    using assms(1) linked_length map_eq_imp_length_eq unfolding represents_def by metis
  with evict_drops_first [OF sweep_drops_quiet [OF assms(1) s] e assms(2)] False s e
  show ?thesis by (simp add: make_room_def displace_def Let_def)
qed

lemma answer_allows [simp]: "dc_allowed (answer_for limit window now stamps) \<longleftrightarrow> length (recent window now stamps) < limit"
  by (simp add: answer_for_def Let_def)

lemma represents_touch:
  assumes "represents window now recency entries kept" "map_of entries key = Some e" "en_seq e' = en_seq e" "en_stamps e' \<noteq> []"
    and "remembers window now (Some e') (stamps_of kept key)"
  shows "represents window now recency (AList.update key e' entries) kept"
proof -
  have "stamps = stamps_of kept key" if "(key, stamps) \<in> set kept" for stamps
    using that represents_keys [OF assms(1)] by (simp add: stamps_of_def)
  moreover have "\<forall>(k, x)\<in>set (AList.update key e' entries). en_stamps x \<noteq> []"
    using assms(1,4) by (intro update_entries) (auto simp: represents_def)
  ultimately show ?thesis
    using assms linked_touch [of recency entries key e e'] unfolding represents_def
    by (auto simp: map_of_update split: if_splits)
qed

lemma represents_join:
  assumes "represents window now recency entries kept" "\<forall>(s, k)\<in>set recency. s < seq" "map_of entries key = None"
  shows "represents window now (recency @ [(seq, key)]) (AList.update key \<lparr>en_stamps = [now], en_seq = seq\<rparr> entries)
    (kept @ [(key, [now])])"
proof -
  let ?e = "\<lparr>en_stamps = [now], en_seq = seq\<rparr>"
  have "\<forall>(k, x)\<in>set (AList.update key ?e entries). en_stamps x \<noteq> []"
    using assms(1) by (intro update_entries) (auto simp: represents_def)
  moreover have "last stamps \<le> now" if "(k, stamps) \<in> set kept" for k stamps
    using representsD(2,3) [OF assms(1) that] by simp
  moreover have "k \<noteq> key" if "(k, stamps) \<in> set kept" for k stamps
    using that assms(3) represents_lookup(1) [OF assms(1), of key] by force
  ultimately show ?thesis
    using assms linked_add [of recency entries seq key "[now]"] unfolding represents_def
    by (fastforce simp: sorted_append map_of_update remembers_def)
qed

lemma represents_move:
  assumes "represents window now recency entries kept" "\<forall>(s, k)\<in>set recency. s < seq" "map_of entries key = Some e"
    and "remembers window now (Some \<lparr>en_stamps = stamps, en_seq = seq\<rparr>) (stamps_of kept key @ [now])" "stamps \<noteq> []"
  shows "represents window now (AList.delete (en_seq e) recency @ [(seq, key)])
    (AList.update key \<lparr>en_stamps = stamps, en_seq = seq\<rparr> entries) (AList.delete key kept @ [(key, stamps_of kept key @ [now])])"
proof -
  let ?e = "\<lparr>en_stamps = stamps, en_seq = seq\<rparr>"
  have linked: "linked recency entries" and order: "map snd recency = map fst kept"
    using assms(1) by (simp_all add: represents_def)
  have here: "(key, stamps_of kept key) \<in> set kept" by (rule represents_lookup(2) [OF assms(1,3)])
  have "s = en_seq e \<longleftrightarrow> k = key" if r: "(s, k) \<in> set recency" for s k
  proof
    show "k = key" if "s = en_seq e"
    proof -
      have "(en_seq e, key) \<in> set recency" using linked_iff [OF linked] assms(3) by blast
      moreover have "distinct (map fst recency)" using linked by (simp add: linked_def strict_sorted_iff)
      ultimately show ?thesis using r that eq_key_imp_eq_value by fast
    qed
    show "s = en_seq e" if "k = key" using r that linked_iff [OF linked] assms(3) by auto
  qed
  then have "\<forall>(s, k)\<in>set recency. s = en_seq e \<longleftrightarrow> k = key" by blast
  then have "map snd (AList.delete (en_seq e) recency) = filter (\<lambda>k. k \<noteq> key) (map snd recency)"
    unfolding AList.delete_eq filter_map by (intro arg_cong [where f = "map snd"] filter_cong) auto
  also have "\<dots> = map fst (AList.delete key kept)" unfolding order AList.delete_eq filter_map
    by (intro arg_cong [where f = "map fst"] filter_cong) auto
  finally have names: "map snd (AList.delete (en_seq e) recency) = map fst (AList.delete key kept)" .
  have "\<forall>(k, x)\<in>set (AList.update key ?e entries). en_stamps x \<noteq> []"
    using assms(1,5) by (intro update_entries) (auto simp: represents_def)
  moreover have "last s \<le> now" if "(k, s) \<in> set kept" for k s
    using representsD(2,3) [OF assms(1) that] by simp
  moreover have "sorted (map (last \<circ> snd) (AList.delete key kept))"
    using assms(1) by (simp add: represents_def AList.delete_eq sorted_filter)
  moreover have "sorted (stamps_of kept key @ [now])" "\<forall>s\<in>set (stamps_of kept key @ [now]). s \<le> now"
    using representsD(1,2) [OF assms(1) here] by (auto simp: sorted_append)
  moreover have "linked (AList.delete (en_seq e) recency @ [(seq, key)]) (AList.update key ?e entries)"
    by (rule linked_record [OF linked assms(2,3)])
  ultimately show ?thesis
    using names assms(1,4) unfolding represents_def by (auto simp: sorted_append set_delete map_of_update)
qed

lemma update_twice: "AList.update k v (AList.update k u al) = AList.update k v al"
  by (induction al) auto

lemma counted_stamps:
  assumes "represents window now recency entries kept" "map_of entries key = Some e"
  shows "recent window now (stamps_of kept key) = unexpired window now (en_stamps e)"
    "remembers window now (Some e) (stamps_of kept key)"
proof -
  note here = represents_lookup(2) [OF assms]
  from representsD(4) [OF assms(1) here] assms(2) show r: "remembers window now (Some e) (stamps_of kept key)" by auto
  show "recent window now (stamps_of kept key) = unexpired window now (en_stamps e)"
    by (rule recent_remembered [OF r representsD(1) [OF assms(1) here]])
qed

lemma check_refines:
  assumes ok: "window_ok w" and r: "represents (sw_window w) now (sw_recency w) (sw_entries w) kept"
    and lru: "lru_check (sw_limit w) (sw_window w) (sw_max_keys w) key now kept = (d, kept')"
  shows "\<exists>w'. check_window key now w = (d, w') \<and> represents (sw_window w) now (sw_recency w') (sw_entries w') kept'"
proof (cases "map_of (sw_entries w) key")
  case None
  let ?w = "make_room now w"
  have room: "window_ok ?w" "set (sw_entries ?w) \<subseteq> set (sw_entries w)" using make_room_ok [OF ok, of now] by simp_all
  have same: "sw_window ?w = sw_window w" "sw_limit ?w = sw_limit w" by (simp_all add: make_room_def split: prod.splits)
  have "map_of (sw_entries ?w) key = None" using None room(2) by (auto simp: map_of_eq_None_iff)
  moreover have "key \<notin> fst ` set kept" using None represents_lookup(1) [OF r] by simp
  moreover from this have "stamps_of kept key = []" by (simp add: stamps_of_def map_of_eq_None_iff option.case_eq_if)
  moreover have "1 \<le> sw_limit w" "1 \<le> sw_max_keys w" "\<forall>(s, k)\<in>set (sw_recency ?w). s < sw_next_seq ?w"
    using ok room(1) by (auto simp: window_ok_def)
  moreover note represents_join [OF make_room_displaces [OF r], of "sw_next_seq ?w" key]
  ultimately show ?thesis
    using None lru same by (auto simp: check_window_def record_request_def lru_check_def answer_for_def recent_def Let_def btree_insert_last)
next
  case (Some e)
  let ?stamps = "unexpired (sw_window w) now (en_stamps e)"
  have counted: "recent (sw_window w) now (stamps_of kept key) = ?stamps" by (rule counted_stamps(1) [OF r Some])
  have held: "remembers (sw_window w) now (Some (e\<lparr>en_stamps := ?stamps\<rparr>)) (stamps_of kept key)"
    by (rule remembers_unexpired [OF counted_stamps(2) [OF r Some]])
  have here: "key \<in> fst ` set kept" using represents_lookup(1) [OF r, of key] Some by auto
  have limit: "1 \<le> sw_limit w" using ok by (simp add: window_ok_def)
  show ?thesis
  proof (cases "sw_limit w \<le> length ?stamps")
    case True
    then have "(case ?stamps of [] \<Rightarrow> now | s # _ \<Rightarrow> s) = hd ?stamps" "?stamps \<noteq> []" using limit by (cases ?stamps; simp)+
    with True Some lru counted represents_touch [OF r Some _ _ held]
    show ?thesis by (simp add: check_window_def lru_check_def answer_for_def Let_def)
  next
    case False
    have "represents (sw_window w) now (AList.delete (en_seq e) (sw_recency w) @ [(sw_next_seq w, key)])
      (AList.update key \<lparr>en_stamps = ?stamps @ [now], en_seq = sw_next_seq w\<rparr> (sw_entries w)) kept'"
      using represents_move [OF r _ Some remembers_snoc [OF held, simplified]] ok lru here counted False
      by (auto simp: lru_check_def answer_for_def Let_def window_ok_def)
    moreover have "\<forall>(s, k)\<in>set (AList.delete (en_seq e) (sw_recency w)). s < sw_next_seq w"
      using ok by (auto simp: window_ok_def set_delete)
    ultimately show ?thesis
      using Some lru here counted False
      by (auto simp: check_window_def record_request_def lru_check_def answer_for_def Let_def btree_insert_last map_of_update update_twice)
  qed
qed

lemma check_settings: "sw_limit (snd (check_window key now w)) = sw_limit w \<and> sw_window (snd (check_window key now w)) = sw_window w \<and>
    sw_max_keys (snd (check_window key now w)) = sw_max_keys w"
  by (auto simp: check_window_def record_request_def make_room_def Let_def split: option.splits prod.splits)

lemma runs_agree:
  assumes "window_ok w" "represents (sw_window w) now (sw_recency w) (sw_entries w) kept" "sorted (now # map snd rs)"
  shows "fst (run_window w rs) = fst (lru_run (sw_limit w) (sw_window w) (sw_max_keys w) kept rs)"
  using assms
proof (induction rs arbitrary: now w kept)
  case (Cons r rs)
  obtain key t where r: "r = (key, t)" by (cases r)
  obtain d kept' where lru: "lru_check (sw_limit w) (sw_window w) (sw_max_keys w) key t kept = (d, kept')" by fastforce
  have "represents (sw_window w) t (sw_recency w) (sw_entries w) kept"
    using Cons.prems(2,3) r represents_later by auto
  from check_refines [OF Cons.prems(1) this lru] obtain w' where
    step: "check_window key t w = (d, w')" "represents (sw_window w) t (sw_recency w') (sw_entries w') kept'" by blast
  have "window_ok w'" using check_ok [OF Cons.prems(1), of key t] step(1) by simp
  moreover note check_settings [of key t w]
  ultimately have "fst (run_window w' rs) = fst (lru_run (sw_limit w) (sw_window w) (sw_max_keys w) kept' rs)"
    using Cons.IH [of w' t kept'] Cons.prems(3) step r by simp
  with step lru r show ?case by (auto split: prod.splits)
qed simp

lemma new_window_ok: "window_ok (new_window limit window max_keys)"
  by (simp add: window_ok_def new_window_def linked_def)

lemma new_window_runs:
  "sorted (map snd rs) \<Longrightarrow> fst (run_window (new_window limit window max_keys) rs) =
     fst (lru_run (max limit 1) window (max max_keys 1) [] rs)"
  using runs_agree [OF new_window_ok, of limit window max_keys 0 "[]" rs]
  by (simp add: new_window_def represents_def linked_def)

text \<open>
  C32: for any requests in the order of time, from any number of clients, the decisions of a sliding window (allowed
  or not, what is left, when to retry) are those of the specification that counts, per client, the requests
  inside the window since the client was last admitted. With the cap reached, a client not among the kept
  displaces those that were allowed nothing for a whole window and then the least recently allowed, one place's
  worth; a displaced client starts afresh.
\<close>

theorem window_refines_lru:
  assumes "sorted (map snd rs)"
  shows "fst (run_window (new_window limit window max_keys) rs) = fst (lru_run (max limit 1) window (max max_keys 1) [] rs)"
  using assms by (rule new_window_runs)

text \<open>With room for one client, the second client displaces the first, which is then allowed again within the window.\<close>

theorem window_refines_lru_witness:
  "map dc_allowed (fst (run_window (new_window 1 10 1) [(''a'', 0), (''b'', 1), (''a'', 2), (''a'', 3)])) = [True, True, True, False]"
proof -
  have "lru_check 1 10 1 ''a'' 0 [] = (answer_for 1 10 0 [], [(''a'', [0])])"
    "lru_check 1 10 1 ''b'' 1 [(''a'', [0])] = (answer_for 1 10 1 [], [(''b'', [1])])"
    "lru_check 1 10 1 ''a'' 2 [(''b'', [1])] = (answer_for 1 10 2 [], [(''a'', [2])])"
    "lru_check 1 10 1 ''a'' 3 [(''a'', [2])] = (answer_for 1 10 3 [2], [(''a'', [2])])"
    by (simp_all add: lru_check_def stamps_of_def displace_def quiet_def recent_def Let_def)
  then have "map dc_allowed (fst (lru_run (max 1 1) 10 (max 1 1) [] [(''a'', 0), (''b'', 1), (''a'', 2), (''a'', 3)])) = [True, True, True, False]"
    by (simp add: recent_def)
  moreover have "sorted (map snd [(''a'', 0 :: nat), (''b'', 1), (''a'', 2), (''a'', 3)])" by simp
  ultimately show ?thesis by (simp only: window_refines_lru)
qed

section \<open>A window with room forgets nothing that counts\<close>

text \<open>The clients seen less than a window ago; requests between which no more than \<open>cap\<close> of them come.\<close>

definition callers :: "nat \<Rightarrow> nat \<Rightarrow> (string \<times> nat) list \<Rightarrow> string set" where
  "callers window now seen = fst ` set (filter (\<lambda>(key, s). now - s < window) seen)"

fun uncrowded :: "nat \<Rightarrow> nat \<Rightarrow> (string \<times> nat) list \<Rightarrow> (string \<times> nat) list \<Rightarrow> bool" where
  "uncrowded cap window seen [] \<longleftrightarrow> True"
| "uncrowded cap window seen ((key, now) # rs) \<longleftrightarrow>
     card (insert key (callers window now seen)) \<le> cap \<and> uncrowded cap window (seen @ [(key, now)]) rs"

definition recalls :: "nat \<Rightarrow> nat \<Rightarrow> (string \<times> nat) list \<Rightarrow> kept \<Rightarrow> history \<Rightarrow> bool" where
  "recalls window now seen kept h \<longleftrightarrow>
     distinct (map fst kept) \<and> (\<forall>(key, stamps)\<in>set kept. \<forall>s\<in>set stamps. (key, s) \<in> set seen) \<and>
     (\<forall>key. \<exists>gone. h key = gone @ stamps_of kept key \<and> (\<forall>s\<in>set gone. window \<le> now - s))"

lemma recalls_later: "recalls window now seen kept h \<Longrightarrow> now \<le> now' \<Longrightarrow> recalls window now' seen kept h"
  unfolding recalls_def by (meson diff_le_mono le_trans)

lemma recalls_answer: "recalls window now seen kept h \<Longrightarrow> answer_for limit window now (h key) = answer_for limit window now (stamps_of kept key)"
proof -
  assume "recalls window now seen kept h"
  then obtain gone where g: "h key = gone @ stamps_of kept key" "\<forall>s\<in>set gone. window \<le> now - s"
    unfolding recalls_def by blast
  then have "recent window now gone = []" by (auto simp: recent_def filter_empty_conv)
  then have "recent window now (h key) = recent window now (stamps_of kept key)" using g(1) by (simp add: recent_def)
  then show ?thesis by (simp add: answer_for_def)
qed

lemma stamps_of_filter:
  assumes "distinct (map fst kept)"
  shows "stamps_of (filter P kept) key = (if P (key, stamps_of kept key) then stamps_of kept key else [])"
  using assms by (induction kept) (auto simp: stamps_of_def split: option.splits dest!: map_of_SomeD dest: fst_member)

lemma displace_live:
  assumes r: "recalls window now seen kept h" and key: "key \<notin> fst ` set kept"
    and "card (insert key (callers window now seen)) \<le> cap"
  shows "recalls window now seen (displace cap window now kept) h \<and> set (displace cap window now kept) \<subseteq> set kept"
proof (cases "length kept < cap")
  case False
  let ?live = "filter (\<lambda>client. \<not> quiet window now client) kept"
  have seen: "fst ` set ?live \<subseteq> callers window now seen"
  proof
    fix k
    assume "k \<in> fst ` set ?live"
    then obtain stamps s where "(k, stamps) \<in> set kept" "s \<in> set stamps" "now - s < window"
      by (auto simp: quiet_def recent_def filter_empty_conv)
    with r show "k \<in> callers window now seen" unfolding recalls_def callers_def by (force simp: image_iff)
  qed
  have "Suc (length ?live) = card (insert key (fst ` set ?live))"
    using r key by (subst card_insert_disjoint) (auto simp: recalls_def length_keys distinct_map_filter)
  also have "\<dots> \<le> card (insert key (callers window now seen))"
    using seen by (intro card_mono) (auto simp: callers_def)
  finally have live: "displace cap window now kept = ?live" using False assms(3) by (simp add: displace_def Let_def)
  have "\<exists>gone. h k = gone @ stamps_of ?live k \<and> (\<forall>s\<in>set gone. window \<le> now - s)" for k
  proof -
    from r obtain gone where g: "h k = gone @ stamps_of kept k" "\<forall>s\<in>set gone. window \<le> now - s"
      unfolding recalls_def by blast
    have "distinct (map fst kept)" using r by (simp add: recalls_def)
    note now = stamps_of_filter [OF this, of "\<lambda>client. \<not> quiet window now client" k]
    show ?thesis
    proof (cases "quiet window now (k, stamps_of kept k)")
      case True
      then have "\<forall>s\<in>set (stamps_of kept k). window \<le> now - s" by (auto simp: quiet_def recent_def filter_empty_conv)
      with True g now show ?thesis by (intro exI [of _ "h k"]) auto
    qed (use g now in auto)
  qed
  with r live show ?thesis by (auto simp: recalls_def distinct_map_filter)
qed (use r in \<open>simp add: displace_def\<close>)

lemma stamps_of_snoc:
  "key \<notin> fst ` set kept \<Longrightarrow> stamps_of (kept @ [(key, stamps)]) k = (if k = key then stamps else stamps_of kept k)"
  by (auto simp: stamps_of_def map_add_def split: option.splits dest!: map_of_SomeD dest: fst_member)

lemma recalls_snoc:
  assumes "recalls window now seen kept h" "key \<notin> fst ` set others" "distinct (map fst others)" "set others \<subseteq> set kept"
    and "\<And>k. k \<noteq> key \<Longrightarrow> \<exists>gone. h k = gone @ stamps_of others k \<and> (\<forall>s\<in>set gone. window \<le> now - s)"
  shows "recalls window now (seen @ [(key, now)]) (others @ [(key, stamps_of kept key @ [now])]) (h(key := h key @ [now]))"
proof -
  from assms(1) obtain gone where "h key = gone @ stamps_of kept key" "\<forall>s\<in>set gone. window \<le> now - s"
    unfolding recalls_def by blast
  moreover have "(key, s) \<in> set seen" if "s \<in> set (stamps_of kept key)" for s
    using that assms(1) by (fastforce simp: recalls_def stamps_of_def split: option.splits dest!: map_of_SomeD)
  moreover have "\<forall>(k, stamps)\<in>set others. \<forall>s\<in>set stamps. (k, s) \<in> set seen"
    using assms(1,4) unfolding recalls_def by blast
  ultimately show ?thesis using assms(2,3,5) by (auto simp: recalls_def stamps_of_snoc)
qed

lemma lru_check_recalls:
  assumes r: "recalls window now seen kept h" and room: "card (insert key (callers window now seen)) \<le> cap"
    and lru: "lru_check limit window cap key now kept = (d, kept')"
  shows "\<exists>h'. spec_check limit window key now h = (d, h') \<and> recalls window now (seen @ [(key, now)]) kept' h'"
proof -
  define others where "others = (if key \<in> fst ` set kept then AList.delete key kept else displace cap window now kept)"
  have "key \<notin> fst ` set others \<and> distinct (map fst others) \<and> set others \<subseteq> set kept \<and>
    (\<forall>k. k \<noteq> key \<longrightarrow> (\<exists>gone. h k = gone @ stamps_of others k \<and> (\<forall>s\<in>set gone. window \<le> now - s)))"
  proof (cases "key \<in> fst ` set kept")
    case True
    then have "others = AList.delete key kept" by (simp add: others_def)
    with r show ?thesis by (auto simp: recalls_def distinct_delete set_delete stamps_of_def map_of_delete)
  next
    case False
    then have "recalls window now seen others h" "set others \<subseteq> set kept"
      using displace_live [OF r False room] by (simp_all add: others_def)
    moreover from this(2) False have "key \<notin> fst ` set others" by blast
    ultimately show ?thesis unfolding recalls_def by blast
  qed
  with r have "recalls window now (seen @ [(key, now)]) (others @ [(key, stamps_of kept key @ [now])]) (h(key := h key @ [now]))"
    by (intro recalls_snoc) auto
  moreover have "recalls window now (seen @ [(key, now)]) kept h" using r by (fastforce simp: recalls_def)
  ultimately show ?thesis
    using lru recalls_answer [OF r, of limit key] by (auto simp: lru_check_def spec_check_def others_def Let_def simp del: answer_allows)
qed

lemma lru_run_recalls:
  assumes "recalls window now seen kept h" "uncrowded cap window seen rs" "sorted (now # map snd rs)"
  shows "fst (lru_run limit window cap kept rs) = fst (spec_run limit window h rs)"
  using assms
proof (induction rs arbitrary: now seen kept h)
  case (Cons r rs)
  obtain key t where r: "r = (key, t)" by (cases r)
  obtain d kept' where lru: "lru_check limit window cap key t kept = (d, kept')" by fastforce
  have "recalls window t seen kept h" using Cons.prems(1,3) r recalls_later by auto
  from lru_check_recalls [OF this _ lru] Cons.prems(2) r obtain h' where
    "spec_check limit window key t h = (d, h')" "recalls window t (seen @ [(key, t)]) kept' h'" by auto
  with Cons.IH [of t "seen @ [(key, t)]" kept' h'] Cons.prems(2,3) r lru show ?case by (auto split: prod.splits)
qed simp

section \<open>No stretch of time holds too many\<close>

definition allowed_times :: "string \<Rightarrow> (string \<times> nat) list \<Rightarrow> decision list \<Rightarrow> nat list" where
  "allowed_times key rs ds = map (snd \<circ> fst) (filter (\<lambda>((k, t), d). k = key \<and> dc_allowed d) (zip rs ds))"

definition within_stretch :: "nat \<Rightarrow> nat \<Rightarrow> nat list \<Rightarrow> nat list" where
  "within_stretch window a stamps = filter (\<lambda>s. a \<le> s \<and> s < a + window) stamps"

definition sparse :: "nat \<Rightarrow> nat \<Rightarrow> nat list \<Rightarrow> bool" where
  "sparse limit window stamps \<longleftrightarrow> (\<forall>a. length (within_stretch window a stamps) \<le> limit)"

lemma spec_history: "snd (spec_run limit window h rs) key = h key @ allowed_times key rs (fst (spec_run limit window h rs))"
proof (induction rs arbitrary: h)
  case (Cons r rs)
  obtain k t where r: "r = (k, t)" by (cases r)
  obtain d h' where d: "spec_check limit window k t h = (d, h')" by (cases "spec_check limit window k t h")
  then have "h' key = h key @ (if k = key \<and> dc_allowed d then [t] else [])"
    by (auto simp: spec_check_def Let_def split: if_splits)
  with Cons.IH [of h'] r d show ?case by (auto simp: allowed_times_def split: prod.splits)
qed (simp add: allowed_times_def)

lemma sparse_snoc:
  assumes "sparse limit window stamps" "\<forall>s\<in>set stamps. s \<le> now" "length (recent window now stamps) < limit"
  shows "sparse limit window (stamps @ [now])"
  unfolding sparse_def
proof
  fix a
  show "length (within_stretch window a (stamps @ [now])) \<le> limit"
  proof (cases "a \<le> now \<and> now < a + window")
    case True
    then have "filter (\<lambda>s. a \<le> s \<and> s < a + window) stamps = filter (\<lambda>s. a \<le> s \<and> s < a + window) (recent window now stamps)"
      by (auto simp: recent_def intro!: filter_cong)
    then have "length (within_stretch window a stamps) \<le> length (recent window now stamps)"
      by (simp add: within_stretch_def)
    with assms(3) show ?thesis by (simp add: within_stretch_def)
  next
    case False
    with assms(1) show ?thesis by (auto simp: sparse_def within_stretch_def)
  qed
qed

lemma spec_sparse:
  assumes "\<forall>key. sparse limit window (h key) \<and> (\<forall>s\<in>set (h key). s \<le> now)" "sorted (now # map snd rs)"
  shows "sparse limit window (snd (spec_run limit window h rs) key)"
  using assms
proof (induction rs arbitrary: h now)
  case (Cons r rs)
  obtain k t where r: "r = (k, t)" by (cases r)
  obtain d h' where d: "spec_check limit window k t h = (d, h')" by (cases "spec_check limit window k t h")
  have t: "now \<le> t" using Cons.prems(2) r by simp
  then have past: "\<forall>s\<in>set (h key). s \<le> t" for key using Cons.prems(1) le_trans by blast
  have "sparse limit window (h' key) \<and> (\<forall>s\<in>set (h' key). s \<le> t)" for key
  proof (cases "length (recent window t (h k)) < limit")
    case True
    with d have "h' = h(k := h k @ [t])" by (auto simp: spec_check_def)
    with Cons.prems(1) past sparse_snoc [OF _ past True] show ?thesis by auto
  next
    case False
    with d have "h' = h" by (auto simp: spec_check_def Let_def)
    with Cons.prems(1) past show ?thesis by blast
  qed
  then have "sparse limit window (snd (spec_run limit window h' rs) key)"
    using Cons.prems(2) r by (intro Cons.IH) auto
  with r d show ?case by (auto split: prod.splits)
qed simp

text \<open>
  C33: when requests arrive in the order of time, and at none of them have more clients than the cap come within
  the last window, no client is allowed more than the limit within any stretch of time as long as the window.
  However many clients come in all, the ones a newcomer displaces have then been quiet for a window.
\<close>

theorem rate_limit_holds:
  assumes "sorted (map snd rs)" "uncrowded (max max_keys 1) window [] rs"
  shows "length (within_stretch window a
    (allowed_times key rs (fst (run_window (new_window limit window max_keys) rs)))) \<le> max limit 1"
proof -
  have "fst (run_window (new_window limit window max_keys) rs) = fst (spec_run (max limit 1) window (\<lambda>_. []) rs)"
    using new_window_runs [OF assms(1)] lru_run_recalls [of window 0 "[]" "[]" "\<lambda>_. []"] assms
    by (simp add: recalls_def stamps_of_def)
  moreover have "sparse (max limit 1) window (snd (spec_run (max limit 1) window (\<lambda>_. []) rs) key)"
    using assms(1) by (intro spec_sparse [where now = 0]) (auto simp: sparse_def within_stretch_def)
  ultimately show ?thesis by (simp add: spec_history sparse_def)
qed

text \<open>Three clients in all, one at a time, under a cap of one: each newcomer displaces one that is past counting.\<close>

theorem rate_limit_holds_witness:
  "length (within_stretch 10 10 (allowed_times ''b'' [(''a'', 0), (''b'', 10), (''b'', 15), (''c'', 25), (''a'', 40)]
     (fst (run_window (new_window 1 10 1) [(''a'', 0), (''b'', 10), (''b'', 15), (''c'', 25), (''a'', 40)])))) \<le> 1"
  using rate_limit_holds [of "[(''a'', 0), (''b'', 10), (''b'', 15), (''c'', 25), (''a'', 40)]" 1 10 10 "''b''" 1]
  by (simp add: callers_def)

section \<open>Waiting\<close>

lemma run_window_same: "sw_window w = window \<Longrightarrow> sw_window (snd (run_window w rs)) = window"
proof (induction w rs rule: run_window.induct)
  case (2 w key now rs)
  then show ?case using check_settings [of key now w] by (auto split: prod.splits)
qed simp

definition past :: "nat \<Rightarrow> (string \<times> stamped_entry) list \<Rightarrow> bool" where
  "past now entries \<longleftrightarrow> (\<forall>(key, e)\<in>set entries. \<forall>s\<in>set (en_stamps e). s \<le> now)"

lemma unexpired_subset: "s \<in> set (unexpired window now stamps) \<Longrightarrow> s \<in> set stamps"
  by (auto simp: unexpired_def dest: set_dropWhileD)

lemma past_update: "past now entries \<Longrightarrow> \<forall>s\<in>set (en_stamps e). s \<le> now \<Longrightarrow> past now (AList.update key e entries)"
  unfolding past_def by (rule update_entries) auto

lemma past_lookup: "past now entries \<Longrightarrow> map_of entries key = Some e \<Longrightarrow> \<forall>s\<in>set (en_stamps e). s \<le> now"
  unfolding past_def by (auto dest: map_of_SomeD)

lemma past_record:
  assumes "past now (sw_entries w)"
  shows "past now (sw_entries (snd (record_request key now w)))"
proof (cases "map_of (sw_entries w) key")
  case None
  with past_update [OF assms] show ?thesis by (simp add: record_request_def Let_def)
next
  case (Some e)
  with past_update [OF assms] past_lookup [OF assms Some] show ?thesis by (simp add: record_request_def Let_def)
qed

lemma past_check:
  assumes "past now (sw_entries w)" "window_ok w"
  shows "past now (sw_entries (snd (check_window key now w)))"
proof (cases "map_of (sw_entries w) key")
  case None
  have "past now (sw_entries (make_room now w))" using assms make_room_ok [OF assms(2), of now] by (auto simp: past_def)
  with None show ?thesis by (simp add: check_window_def past_record)
next
  case (Some e)
  let ?entries = "AList.update key (e\<lparr>en_stamps := unexpired (sw_window w) now (en_stamps e)\<rparr>) (sw_entries w)"
  have "past now ?entries"
    using past_lookup [OF assms(1) Some] unexpired_subset by (intro past_update [OF assms(1)]) auto
  with past_record [of now "w\<lparr>sw_entries := ?entries\<rparr>" key] Some show ?thesis by (simp add: check_window_def Let_def)
qed

lemma past_later: "past now entries \<Longrightarrow> now \<le> now' \<Longrightarrow> past now' entries"
  unfolding past_def by fastforce

lemma past_run:
  assumes "past now (sw_entries w)" "window_ok w" "sorted (now # map snd rs)"
  shows "past (last (now # map snd rs)) (sw_entries (snd (run_window w rs)))"
  using assms
proof (induction rs arbitrary: now w)
  case (Cons r rs)
  obtain key t where r: "r = (key, t)" by (cases r)
  obtain d w' where step: "check_window key t w = (d, w')" by fastforce
  have "past t (sw_entries w)" using Cons.prems(1,3) r past_later by auto
  then have "past t (sw_entries w')" "window_ok w'"
    using past_check [of t w key] check_ok [of w key t] Cons.prems(2) step by simp_all
  with Cons.IH [of t w'] Cons.prems(3) r step show ?case by (auto split: prod.splits)
qed simp

lemma retry_covers: "wait \<le> U64_MAX * NANOS \<Longrightarrow> wait \<le> retry_secs wait * NANOS + MILLI"
proof -
  assume "wait \<le> U64_MAX * NANOS"
  then have "wait div MILLI \<le> U64_MAX * 1000" by (simp add: NANOS_def MILLI_def div_le_mono less_eq_div_iff_mult_less_eq)
  then have "(wait div MILLI + 999) div 1000 \<le> U64_MAX" by simp
  moreover have "wait \<le> (wait div MILLI) * MILLI + MILLI" by (simp add: MILLI_def)
  moreover have "wait div MILLI \<le> (wait div MILLI + 999) div 1000 * 1000" by linarith
  ultimately show ?thesis unfolding retry_secs_def Let_def NANOS_def MILLI_def by (auto simp: max_def)
qed

text \<open>
  A caller refused at an instant, who comes back after the seconds the refusal named and a millisecond
  more, is allowed. The millisecond is needed: the wait is cut to milliseconds before it is rounded up.
\<close>

theorem waiting_is_enough:
  assumes "sorted (map snd rs @ [t])" "window \<le> U64_MAX * NANOS"
    and "check_window key t (snd (run_window (new_window limit window max_keys) rs)) = (d, w)" "\<not> dc_allowed d"
    and "t + dc_retry_after_secs d * NANOS + MILLI \<le> later"
  shows "dc_allowed (fst (check_window key later w))"
proof -
  let ?w = "snd (run_window (new_window limit window max_keys) rs)"
  have new: "window_ok (new_window limit window max_keys)" "past 0 (sw_entries (new_window limit window max_keys))"
    by (simp_all add: window_ok_def new_window_def linked_def past_def)
  have ok: "window_ok ?w" by (rule run_ok [OF new(1)])
  have "past (last (0 # map snd rs)) (sw_entries ?w)" using assms(1) by (intro past_run new) (simp add: sorted_append)
  moreover have "last (0 # map snd rs) \<le> t" using assms(1) by (cases rs rule: rev_cases) (auto simp: sorted_append)
  ultimately have past: "past t (sw_entries ?w)" by (rule past_later)
  have W: "sw_window ?w = window" by (rule run_window_same) (simp add: new_window_def)
  obtain e where e: "map_of (sw_entries ?w) key = Some e"
    using assms(3,4) by (cases "map_of (sw_entries ?w) key") (auto simp: check_window_def record_request_def Let_def split: option.splits)
  let ?stamps = "unexpired window t (en_stamps e)"
  have full: "sw_limit ?w \<le> length ?stamps" and d: "dc_retry_after_secs d = retry_secs (window - (t - (case ?stamps of [] \<Rightarrow> t | s # _ \<Rightarrow> s)))"
    and w: "w = ?w\<lparr>sw_entries := AList.update key (e\<lparr>en_stamps := ?stamps\<rparr>) (sw_entries ?w)\<rparr>"
    using assms(3,4) e W by (auto simp: check_window_def record_request_def Let_def split: if_splits option.splits)
  have "1 \<le> sw_limit ?w" "length (en_stamps e) \<le> sw_limit ?w" using ok map_of_SomeD [OF e] by (auto simp: window_ok_def)
  moreover have "length ?stamps \<le> length (en_stamps e)" by (simp add: unexpired_def length_dropWhile_le)
  ultimately obtain s stamps where s: "?stamps = s # stamps" "length stamps < sw_limit ?w"
    using full by (cases ?stamps) auto
  have "s \<in> set (en_stamps e)" using s(1) unexpired_subset by (metis list.set_intros(1))
  then have "s \<le> t" using past_lookup [OF past e] by blast
  have "window - (t - s) \<le> U64_MAX * NANOS" using assms(2) by simp
  from retry_covers [OF this] have "window \<le> later - s" using assms(5) d s(1) \<open>s \<le> t\<close> by simp
  then have "unexpired window later ?stamps = unexpired window later stamps" unfolding s(1) by (simp add: unexpired_def)
  then have "length (unexpired window later ?stamps) < sw_limit ?w"
    using s(2) length_dropWhile_le [of "\<lambda>s. window \<le> later - s" stamps] by (simp add: unexpired_def)
  then show ?thesis
    using W by (simp add: w check_window_def map_of_update record_request_def Let_def)
qed

theorem waiting_is_enough_witness:
  "dc_allowed (fst (check_window ''a'' 1001000500
     (snd (check_window ''a'' 500 (snd (run_window (new_window 1 1000 5) [(''a'', 0)]))))))"
proof -
  have d: "check_window ''a'' 500 (snd (run_window (new_window 1 1000 5) [(''a'', 0)])) =
      (\<lparr>dc_allowed = False, dc_remaining = 0, dc_retry_after_secs = 1\<rparr>,
       snd (check_window ''a'' 500 (snd (run_window (new_window 1 1000 5) [(''a'', 0)]))))"
    by (simp add: check_window_def new_window_def record_request_def make_room_def unexpired_def retry_secs_def MILLI_def Let_def)
  show ?thesis
    by (rule waiting_is_enough [OF _ _ d]) (simp_all add: U64_MAX_def NANOS_def MILLI_def)
qed

text \<open>
  The hint alone can be a nanosecond short: one request per two seconds, refused 999999999 nanoseconds after
  the last, is told to wait one second, and after that second is refused again.
\<close>

lemma retry_hint_short:
  "map dc_allowed (fst (run_window (new_window 1 (2 * NANOS) 5) [(''a'', 0), (''a'', 999999999), (''a'', 999999999 + NANOS)])) = [True, False, False]"
  "map dc_retry_after_secs (fst (run_window (new_window 1 (2 * NANOS) 5) [(''a'', 0), (''a'', 999999999)])) = [0, 1]"
  by (simp_all add: check_window_def new_window_def record_request_def make_room_def unexpired_def retry_secs_def
      MILLI_def NANOS_def U64_MAX_def Let_def)

section \<open>Addresses\<close>

lemma fold_or_zero: "fold (\<lambda>(x, y) diff. diff OR f x y) ps (d :: 8 word) = 0 \<longleftrightarrow> d = 0 \<and> (\<forall>(x, y)\<in>set ps. f x y = 0)"
  by (induction ps arbitrary: d) (auto simp: or_eq_0_iff)

lemma byte_of_inject: "byte_of x = byte_of y \<longleftrightarrow> x = y"
  by (simp add: byte_of_def word_of_int_eq_iff take_bit_eq_mod)

lemma constant_time_eq_iff: "constant_time_eq a b \<longleftrightarrow> a = b"
proof
  assume eq: "constant_time_eq a b"
  then have len: "length a = length b" and same: "\<forall>(x, y)\<in>set (zip a b). byte_of x XOR byte_of y = 0"
    by (simp_all add: constant_time_eq_def fold_or_zero)
  have "x = y" if "byte_of x XOR byte_of y = 0" for x y
  proof -
    have "byte_of y = (byte_of x XOR byte_of x) XOR byte_of y" by simp
    also have "\<dots> = byte_of x XOR (byte_of x XOR byte_of y)" by (simp only: xor.assoc)
    also have "\<dots> = byte_of x" using that by simp
    finally show ?thesis using byte_of_inject by simp
  qed
  with same have "\<forall>(x, y)\<in>set (zip a b). x = y" by blast
  with len show "a = b" by (induction rule: list_induct2) auto
qed (auto simp: constant_time_eq_def fold_or_zero zip_same_conv_map)

lemma mask_prefix:
  fixes n a :: "'w :: len word"
  shows "n AND NOT (mask k) = a AND NOT (mask k) \<longleftrightarrow> drop_bit k n = drop_bit k a"
proof -
  have "drop_bit k (u AND NOT (mask k)) = drop_bit k u" for u :: "'w word"
    by (rule bit_word_eqI) (auto simp: bit_simps dest: bit_imp_le_length)
  moreover have "push_bit k (drop_bit k u) = u AND NOT (mask k)" for u :: "'w word"
    by (rule bit_word_eqI) (auto simp: bit_simps dest: bit_imp_le_length)
  ultimately show ?thesis by metis
qed

text \<open>An address is in a network exactly when the bits of the prefix agree.\<close>

lemma contains_same_prefix:
  "nt_addr net = V4 n \<Longrightarrow> 0 < nt_prefix net \<Longrightarrow> nt_prefix net \<le> 32 \<Longrightarrow>
     contains_ip net (V4 a) \<longleftrightarrow> drop_bit (32 - nt_prefix net) n = drop_bit (32 - nt_prefix net) a"
  by (simp add: contains_ip_def mask_prefix Let_def)

lemma split_str_append: "split_str [c] (x @ c # y) = split_str [c] x @ split_str [c] y"
proof (induction x rule: measure_induct_rule [of length])
  case (less x)
  show ?case
  proof (cases "c \<in> set x")
    case True
    then obtain u v where x: "x = u @ c # v" "c \<notin> set u" by (meson split_list_first)
    with less [of v] show ?thesis by (simp add: split_str_char_step)
  qed (simp add: split_str_char_step split_str_char_none)
qed

lemma forwarded_append: "forwarded_entries (Some (x @ '','' @ y)) = forwarded_entries (Some x) @ forwarded_entries (Some y)"
  by (simp add: forwarded_entries_def split_str_append)

lemma first_untrusted_append: "first_untrusted parse_ip nets ys = Some ip \<Longrightarrow> first_untrusted parse_ip nets (ys @ zs) = Some ip"
  by (induction ys) (auto split: option.splits if_splits)

text \<open>
  The forwarded header grows at its right end, so what a client wrote itself stands to the left of what
  the proxies added. Once the proxies' part decides an address, nothing to its left changes the address the
  client is counted under; and a peer nothing trusts is counted as itself whatever it sends.
\<close>

theorem client_cannot_choose_address:
  assumes "client_ip parse_ip trust peer (Some proxied) presented = Some ip"
    and "trusts trust (map_option to_canonical peer) presented \<Longrightarrow> forwarded_entries (Some proxied) \<noteq> []"
  shows "client_ip parse_ip trust peer (Some (claimed @ '','' @ proxied)) presented = Some ip"
proof (cases "trusts trust (map_option to_canonical peer) presented")
  case True
  let ?proxied = "forwarded_entries (Some proxied)"
  have "first_untrusted parse_ip (pt_networks trust) (drop (pt_hops trust) (rev ?proxied)) = Some ip"
    using assms True by (simp add: client_ip_def Let_def split: if_splits)
  from first_untrusted_append [OF this] True assms(2) show ?thesis
    by (simp add: client_ip_def forwarded_append Let_def del: append.simps)
qed (use assms in \<open>simp add: client_ip_def Let_def\<close>)

definition sample_parse :: "string \<Rightarrow> ip_addr option" where
  "sample_parse s = (if s = ''1.2.3.4'' then Some (V4 0x01020304) else None)"

definition sample_trust :: proxy_trust where
  "sample_trust = \<lparr>pt_networks = [\<lparr>nt_addr = V4 0x0A000000, nt_prefix = 8\<rparr>], pt_hops = 0, pt_auth = None\<rparr>"

theorem client_cannot_choose_address_witness:
  "client_ip sample_parse sample_trust (Some (V4 0x0A000001)) (Some (''9.9.9.9'' @ '','' @ ''1.2.3.4'')) None = Some (V4 0x01020304)"
  by (rule client_cannot_choose_address) code_simp+

end
