(* ===== verification/Strict_Json.thy ===== *)
theory Strict_Json
  imports Json_Parser Cursor
begin

text \<open>
  The strict reader of tokens: \<open>rust/host/src/platform_signin/strict_json.rs\<close>. The state of the source's parser
  is the text still to read, and the nesting levels still allowed stand for \<open>MAX_DEPTH\<close> minus the source's
  depth. The container loops carry the reader of one value as an argument and go on only when a turn has
  consumed text, which \<open>value_at_shorter\<close> shows always holds. An object is an association list; the reader
  refuses a repeated key, so the list stands for the source's \<open>HashMap\<close>.
\<close>

datatype sjson =
    SJ_Null
  | SJ_Bool bool
  | SJ_Int int
  | SJ_Number
  | SJ_Str string
  | SJ_Array "sjson list"
  | SJ_Object "(string \<times> sjson) list"

type_synonym sobject = "(string \<times> sjson) list"

definition get_member :: "sobject \<Rightarrow> string \<Rightarrow> sjson option" where
  "get_member obj name = map_of obj name"

definition get_str :: "sobject \<Rightarrow> string \<Rightarrow> string option" where
  "get_str obj name = (case get_member obj name of Some (SJ_Str s) \<Rightarrow> Some s | _ \<Rightarrow> None)"

definition is_present :: "sobject \<Rightarrow> string \<Rightarrow> bool" where
  "is_present obj name \<longleftrightarrow> \<not> (case get_member obj name of None \<Rightarrow> True | Some v \<Rightarrow> v = SJ_Null)"

definition STRICT_DEPTH :: nat where "STRICT_DEPTH = 8"

section \<open>Words, strings and numbers\<close>

definition skip_whitespace :: "string \<Rightarrow> string" where
  "skip_whitespace cs = dropWhile (\<lambda>c. List.member [CHR 0x20, CHR 0x09, CHR 0x0A, CHR 0x0D] c) cs"

fun expect_byte :: "char \<Rightarrow> string \<Rightarrow> string option" where
  "expect_byte b (c # cs) = (if c = b then Some cs else None)"
| "expect_byte b [] = None"

definition literal_word :: "string \<Rightarrow> sjson \<Rightarrow> string \<Rightarrow> (sjson \<times> string) option" where
  "literal_word word v cs = map_option (Pair v) (strip_prefix word cs)"

definition hex4 :: "string \<Rightarrow> (int \<times> string) option" where
  "hex4 cs = (if length cs < 4 then None else map_option (\<lambda>n. (n, drop 4 cs)) (hex_digits 0 (take 4 cs)))"

definition unicode_escape :: "string \<Rightarrow> (string \<times> string) option" where
  "unicode_escape cs =
     Option.bind (hex4 cs) (\<lambda>(first, cs).
       if 0xD800 \<le> first \<and> first \<le> 0xDBFF then
         Option.bind (expect_byte (CHR 0x5C) cs) (\<lambda>cs.
         Option.bind (expect_byte (CHR ''u'') cs) (\<lambda>cs.
         Option.bind (hex4 cs) (\<lambda>(second, cs).
           if 0xDC00 \<le> second \<and> second \<le> 0xDFFF
           then Some (utf8_of_code (0x10000 + (first - 0xD800) * 1024 + (second - 0xDC00)), cs)
           else None)))
       else if 0xDC00 \<le> first \<and> first \<le> 0xDFFF then None
       else Some (utf8_of_code first, cs))"

definition read_escape :: "string \<Rightarrow> (string \<times> string) option" where
  "read_escape cs =
     (case cs of
        [] \<Rightarrow> None
      | b # cs \<Rightarrow>
          if b = CHR ''u'' then unicode_escape cs
          else map_option (\<lambda>c. ([c], cs))
            (map_of [(CHR 0x22, CHR 0x22), (CHR 0x5C, CHR 0x5C), (CHR ''/'', CHR ''/''), (CHR ''b'', CHR 0x08),
               (CHR ''f'', CHR 0x0C), (CHR ''n'', CHR 0x0A), (CHR ''r'', CHR 0x0D), (CHR ''t'', CHR 0x09)] b))"

lemma hex4_shorter: "hex4 cs = Some (n, rest) \<Longrightarrow> length rest < length cs"
  by (auto simp: hex4_def split: if_splits)

lemma expect_byte_shorter: "expect_byte b cs = Some rest \<Longrightarrow> length rest < length cs"
  by (cases cs) (auto split: if_splits)

lemma read_escape_shorter: "read_escape cs = Some (out, rest) \<Longrightarrow> length rest < length cs"
  unfolding read_escape_def unicode_escape_def
  by (auto simp: bind_eq_Some_conv split: list.splits if_splits dest!: hex4_shorter expect_byte_shorter)

function string_body :: "string \<Rightarrow> string \<Rightarrow> (string \<times> string) option" where
  "string_body out [] = None"
| "string_body out (b # cs) =
     (if b = CHR 0x22 then (if utf8_valid out then Some (out, cs) else None)
      else if b = CHR 0x5C then
        (case read_escape cs of None \<Rightarrow> None | Some (c, rest) \<Rightarrow> string_body (out @ c) rest)
      else if (of_char b :: int) < 0x20 then None
      else string_body (out @ [b]) cs)"
  by pat_completeness auto
termination
  by (relation "measure (\<lambda>(out, cs). length cs)") (auto dest: read_escape_shorter)

definition read_string :: "string \<Rightarrow> (string \<times> string) option" where
  "read_string cs = Option.bind (expect_byte (CHR 0x22) cs) (string_body [])"

definition read_digits :: "string \<Rightarrow> (string \<times> string) option" where
  "read_digits cs =
     (let ds = takeWhile is_ascii_digit cs in if ds = [] then None else Some (ds, dropWhile is_ascii_digit cs))"

definition I128_MAX :: int where "I128_MAX = 2 ^ 127 - 1"
definition I128_MIN :: int where "I128_MIN = - (2 ^ 127)"

definition integer_from :: "string \<Rightarrow> bool \<Rightarrow> int" where
  "integer_from digits negative =
     (let v = digits_val digits
      in if v \<le> I128_MAX then (if negative then - v else v) else if negative then I128_MIN else I128_MAX)"

definition read_number :: "string \<Rightarrow> (sjson \<times> string) option" where
  "read_number cs =
     (let negative = starts_with ''-'' cs; cs = (if negative then tl cs else cs)
      in Option.bind (if starts_with ''0'' cs then Some (''0'', tl cs) else read_digits cs) (\<lambda>(digits, cs).
         Option.bind (if starts_with ''.'' cs then map_option (\<lambda>(_, cs). (True, cs)) (read_digits (tl cs)) else Some (False, cs))
           (\<lambda>(has_fraction, cs).
         Option.bind
           (if starts_with ''e'' cs \<or> starts_with ''E'' cs
            then (let cs = tl cs; cs = (if starts_with ''+'' cs \<or> starts_with ''-'' cs then tl cs else cs)
                  in map_option (\<lambda>(_, cs). (True, cs)) (read_digits cs))
            else Some (False, cs))
           (\<lambda>(has_exponent, cs).
              if has_fraction \<or> has_exponent then Some (SJ_Number, cs)
              else Some (SJ_Int (integer_from digits negative), cs)))))"

section \<open>Containers\<close>

type_synonym reader = "string \<Rightarrow> (sjson \<times> string) option"

function object_members :: "reader \<Rightarrow> string \<Rightarrow> sobject \<Rightarrow> (sobject \<times> string) option" where
  "object_members read cs seen =
     Option.bind (read_string (skip_whitespace cs)) (\<lambda>(key, rest).
     Option.bind (expect_byte (CHR '':'') (skip_whitespace rest)) (\<lambda>rest.
     Option.bind (read (skip_whitespace rest)) (\<lambda>(v, rest).
       if List.member (map fst seen) key then None
       else case skip_whitespace rest of
              [] \<Rightarrow> None
            | c # rest \<Rightarrow>
                if c = CHR '','' then
                  (if length rest < length cs then object_members read rest (seen @ [(key, v)]) else None)
                else if c = CHR ''}'' then Some (seen @ [(key, v)], rest)
                else None)))"
  by pat_completeness auto
termination
  by (relation "measure (\<lambda>(_, cs, _). length cs)") auto

definition read_object :: "reader \<Rightarrow> string \<Rightarrow> (sobject \<times> string) option" where
  "read_object read cs =
     Option.bind (expect_byte (CHR ''{'') cs) (\<lambda>cs.
       case expect_byte (CHR ''}'') (skip_whitespace cs) of
         Some rest \<Rightarrow> Some ([], rest)
       | None \<Rightarrow> object_members read (skip_whitespace cs) [])"

function array_items :: "reader \<Rightarrow> string \<Rightarrow> sjson list \<Rightarrow> (sjson list \<times> string) option" where
  "array_items read cs items =
     Option.bind (read (skip_whitespace cs)) (\<lambda>(v, rest).
       case skip_whitespace rest of
         [] \<Rightarrow> None
       | c # rest \<Rightarrow>
           if c = CHR '','' then (if length rest < length cs then array_items read rest (items @ [v]) else None)
           else if c = CHR '']'' then Some (items @ [v], rest)
           else None)"
  by pat_completeness auto
termination
  by (relation "measure (\<lambda>(_, cs, _). length cs)") auto

declare object_members.simps [simp del] array_items.simps [simp del]

definition read_array :: "reader \<Rightarrow> string \<Rightarrow> (sjson list \<times> string) option" where
  "read_array read cs =
     Option.bind (expect_byte (CHR ''['') cs) (\<lambda>cs.
       case expect_byte (CHR '']'') (skip_whitespace cs) of
         Some rest \<Rightarrow> Some ([], rest)
       | None \<Rightarrow> array_items read (skip_whitespace cs) [])"

definition value_with ::
    "(string \<Rightarrow> (sobject \<times> string) option) \<Rightarrow> (string \<Rightarrow> (sjson list \<times> string) option) \<Rightarrow> reader" where
  "value_with object array cs =
     (case cs of
        [] \<Rightarrow> None
      | c # _ \<Rightarrow>
          if c = CHR ''{'' then map_option (map_prod SJ_Object (\<lambda>r. r)) (object cs)
          else if c = CHR ''['' then map_option (map_prod SJ_Array (\<lambda>r. r)) (array cs)
          else if c = CHR 0x22 then map_option (map_prod SJ_Str (\<lambda>r. r)) (read_string cs)
          else if c = CHR ''t'' then literal_word ''true'' (SJ_Bool True) cs
          else if c = CHR ''f'' then literal_word ''false'' (SJ_Bool False) cs
          else if c = CHR ''n'' then literal_word ''null'' SJ_Null cs
          else if c = CHR ''-'' \<or> is_ascii_digit c then read_number cs
          else None)"

text \<open>The readers of an object and of a value with so many levels left.\<close>

fun value_at :: "nat \<Rightarrow> reader" where
  "value_at 0 = value_with (\<lambda>_. None) (\<lambda>_. None)"
| "value_at (Suc levels) = value_with (read_object (value_at levels)) (read_array (value_at levels))"

definition parse_object :: "string \<Rightarrow> sobject option" where
  "parse_object bytes =
     (if \<not> utf8_valid bytes then None
      else Option.bind (read_object (value_at (STRICT_DEPTH - 1)) (skip_whitespace bytes)) (\<lambda>(obj, rest).
        if skip_whitespace rest = [] then Some obj else None))"

section \<open>Readers consume text\<close>

lemma skip_whitespace_length: "length (skip_whitespace cs) \<le> length cs"
  by (simp add: skip_whitespace_def length_dropWhile_le)

lemma string_body_shorter: "string_body out cs = Some (s, rest) \<Longrightarrow> length rest < length cs"
proof (induction out cs rule: string_body.induct)
  case (2 out b cs)
  then show ?case
    by (auto split: if_splits option.splits dest: read_escape_shorter) (meson less_SucI less_trans read_escape_shorter)
qed simp

lemma read_string_shorter: "read_string cs = Some (s, rest) \<Longrightarrow> length rest < length cs"
  unfolding read_string_def
  by (auto simp: bind_eq_Some_conv dest!: expect_byte_shorter string_body_shorter)

lemma read_digits_shorter: "read_digits cs = Some (ds, rest) \<Longrightarrow> length rest < length cs"
proof -
  assume "read_digits cs = Some (ds, rest)"
  then have "cs = ds @ rest" "ds \<noteq> []" by (auto simp: read_digits_def Let_def split: if_splits)
  then show ?thesis by (cases ds) auto
qed

lemma length_tl_le: "length (tl cs) \<le> length cs"
  by simp

lemma read_number_shorter: "read_number cs = Some (v, rest) \<Longrightarrow> length rest < length cs"
proof -
  assume "read_number cs = Some (v, rest)"
  then obtain digits cs1 cs2 cs3 f x where
    one: "(if starts_with ''0'' (if starts_with ''-'' cs then tl cs else cs)
        then Some (''0'', tl (if starts_with ''-'' cs then tl cs else cs))
        else read_digits (if starts_with ''-'' cs then tl cs else cs)) = Some (digits, cs1)"
    and two: "(if starts_with ''.'' cs1 then map_option (\<lambda>(_, cs). (True, cs)) (read_digits (tl cs1)) else Some (False, cs1)) = Some (f, cs2)"
    and three: "(if starts_with ''e'' cs2 \<or> starts_with ''E'' cs2
            then (let cs = tl cs2; cs = (if starts_with ''+'' cs \<or> starts_with ''-'' cs then tl cs else cs)
                  in map_option (\<lambda>(_, cs). (True, cs)) (read_digits cs))
            else Some (False, cs2)) = Some (x, cs3)"
    and rest: "rest = cs3"
    unfolding read_number_def Let_def by (auto simp: bind_eq_Some_conv split: if_splits)
  have "length cs1 < length cs"
    using one length_tl_le [of cs] by (auto simp: starts_with_iff split: if_splits dest!: read_digits_shorter)
  moreover have "length cs2 \<le> length cs1"
    using two length_tl_le [of cs1] by (auto split: if_splits dest!: read_digits_shorter)
  moreover have "length cs3 \<le> length cs2"
    using three length_tl_le [of cs2] length_tl_le [of "tl cs2"] by (auto simp: Let_def split: if_splits dest!: read_digits_shorter)
  ultimately show ?thesis using rest by simp
qed

definition consuming :: "(string \<Rightarrow> ('a \<times> string) option) \<Rightarrow> bool" where
  "consuming read \<longleftrightarrow> (\<forall>cs v rest. read cs = Some (v, rest) \<longrightarrow> length rest < length cs)"

lemma skipped_shorter: "skip_whitespace cs = c # rest \<Longrightarrow> length rest < length cs"
  using skip_whitespace_length [of cs] by simp

lemma object_members_step:
  assumes "consuming read"
  shows "object_members read cs seen =
     Option.bind (read_string (skip_whitespace cs)) (\<lambda>(key, rest).
     Option.bind (expect_byte (CHR '':'') (skip_whitespace rest)) (\<lambda>rest.
     Option.bind (read (skip_whitespace rest)) (\<lambda>(v, rest).
       if List.member (map fst seen) key then None
       else case skip_whitespace rest of
              [] \<Rightarrow> None
            | c # rest \<Rightarrow>
                if c = CHR '','' then object_members read rest (seen @ [(key, v)])
                else if c = CHR ''}'' then Some (seen @ [(key, v)], rest)
                else None)))"
proof -
  have "length r5 < length cs"
    if "read_string (skip_whitespace cs) = Some (key, r1)" "expect_byte (CHR '':'') (skip_whitespace r1) = Some r2"
      "read (skip_whitespace r2) = Some (v, r3)" "skip_whitespace r3 = c # r5" for key r1 r2 v r3 c r5
    using that assms skip_whitespace_length [of cs] skip_whitespace_length [of r1] skip_whitespace_length [of r2]
    by (fastforce simp: consuming_def dest: read_string_shorter expect_byte_shorter skipped_shorter)
  then show ?thesis
    by (subst object_members.simps) (auto simp: bind_eq_Some_conv intro!: Option.bind_cong split: list.splits)
qed

lemma array_items_step:
  assumes "consuming read"
  shows "array_items read cs items =
     Option.bind (read (skip_whitespace cs)) (\<lambda>(v, rest).
       case skip_whitespace rest of
         [] \<Rightarrow> None
       | c # rest \<Rightarrow>
           if c = CHR '','' then array_items read rest (items @ [v])
           else if c = CHR '']'' then Some (items @ [v], rest)
           else None)"
proof -
  have "length r2 < length cs"
    if "read (skip_whitespace cs) = Some (v, r1)" "skip_whitespace r1 = c # r2" for v r1 c r2
    using that assms skip_whitespace_length [of cs] by (fastforce simp: consuming_def dest: skipped_shorter)
  then show ?thesis
    by (subst array_items.simps) (auto intro!: Option.bind_cong split: list.splits)
qed

lemma consumingD: "consuming read \<Longrightarrow> read cs = Some (v, rest) \<Longrightarrow> length rest < length cs"
  by (simp add: consuming_def)

lemma object_members_turn:
  assumes "consuming read" "object_members read cs seen = Some (obj, rest)"
  obtains key r1 r2 v r3 c r4 where "read_string (skip_whitespace cs) = Some (key, r1)"
    "expect_byte (CHR '':'') (skip_whitespace r1) = Some r2" "read (skip_whitespace r2) = Some (v, r3)"
    "skip_whitespace r3 = c # r4" "key \<notin> fst ` set seen"
    "object_members read r4 (seen @ [(key, v)]) = Some (obj, rest) \<or> r4 = rest \<and> obj = seen @ [(key, v)]" "length r4 < length cs"
proof -
  have eq: "Option.bind (read_string (skip_whitespace cs)) (\<lambda>(key, rest).
     Option.bind (expect_byte (CHR '':'') (skip_whitespace rest)) (\<lambda>rest.
     Option.bind (read (skip_whitespace rest)) (\<lambda>(v, rest).
       if List.member (map fst seen) key then None
       else case skip_whitespace rest of
              [] \<Rightarrow> None
            | c # rest \<Rightarrow>
                if c = CHR '','' then object_members read rest (seen @ [(key, v)])
                else if c = CHR ''}'' then Some (seen @ [(key, v)], rest)
                else None))) = Some (obj, rest)"
    using assms(2) object_members_step [OF assms(1), of cs seen] by argo
  obtain key r1 where k: "read_string (skip_whitespace cs) = Some (key, r1)"
    using eq by (cases "read_string (skip_whitespace cs)") auto
  obtain r2 where e: "expect_byte (CHR '':'') (skip_whitespace r1) = Some r2"
    using eq k by (cases "expect_byte (CHR '':'') (skip_whitespace r1)") auto
  obtain v r3 where v: "read (skip_whitespace r2) = Some (v, r3)"
    using eq k e by (cases "read (skip_whitespace r2)") auto
  obtain c r4 where c: "skip_whitespace r3 = c # r4"
    using eq k e v by (cases "skip_whitespace r3") (auto split: if_splits)
  have "length r4 < length cs"
    using read_string_shorter [OF k] expect_byte_shorter [OF e] consumingD [OF assms(1) v] skipped_shorter [OF c]
      skip_whitespace_length [of cs] skip_whitespace_length [of r1] skip_whitespace_length [of r2] by linarith
  with k e v c show thesis using that eq by (simp split: if_splits)
qed

lemma array_items_turn:
  assumes "consuming read" "array_items read cs items = Some (vs, rest)"
  obtains v r1 c r2 where "read (skip_whitespace cs) = Some (v, r1)" "skip_whitespace r1 = c # r2"
    "array_items read r2 (items @ [v]) = Some (vs, rest) \<or> r2 = rest \<and> vs = items @ [v]" "length r2 < length cs"
proof -
  have eq: "Option.bind (read (skip_whitespace cs)) (\<lambda>(v, rest).
       case skip_whitespace rest of
         [] \<Rightarrow> None
       | c # rest \<Rightarrow>
           if c = CHR '','' then array_items read rest (items @ [v])
           else if c = CHR '']'' then Some (items @ [v], rest)
           else None) = Some (vs, rest)"
    using assms(2) array_items_step [OF assms(1), of cs items] by argo
  obtain v r1 where v: "read (skip_whitespace cs) = Some (v, r1)"
    using eq by (cases "read (skip_whitespace cs)") auto
  obtain c r2 where c: "skip_whitespace r1 = c # r2"
    using eq v by (cases "skip_whitespace r1") auto
  have "length r2 < length cs"
    using consumingD [OF assms(1) v] skipped_shorter [OF c] skip_whitespace_length [of cs] by linarith
  with v c show thesis using that eq by (simp split: if_splits)
qed

lemma object_members_shorter:
  "consuming read \<Longrightarrow> object_members read cs seen = Some (obj, rest) \<Longrightarrow> length rest < length cs"
proof (induction "length cs" arbitrary: cs seen rule: less_induct)
  case less
  show ?case
    using less.prems by (rule object_members_turn) (use less.hyps less.prems(1) in fastforce)
qed

lemma array_items_shorter:
  "consuming read \<Longrightarrow> array_items read cs items = Some (vs, rest) \<Longrightarrow> length rest < length cs"
proof (induction "length cs" arbitrary: cs items rule: less_induct)
  case less
  show ?case
    using less.prems by (rule array_items_turn) (use less.hyps less.prems(1) in fastforce)
qed

lemma container_consuming: "consuming read \<Longrightarrow> consuming (read_object read)" "consuming read \<Longrightarrow> consuming (read_array read)"
proof -
  assume read: "consuming read"
  have "length rest < length cs" if obj: "read_object read cs = Some (obj, rest)" for cs obj rest
  proof -
    from obj obtain r where r: "expect_byte (CHR ''{'') cs = Some r"
      and go: "expect_byte (CHR ''}'') (skip_whitespace r) = Some rest \<or> object_members read (skip_whitespace r) [] = Some (obj, rest)"
      by (auto simp: read_object_def bind_eq_Some_conv split: option.splits)
    from go have "length rest < length (skip_whitespace r)" using expect_byte_shorter object_members_shorter [OF read] by blast
    with expect_byte_shorter [OF r] skip_whitespace_length [of r] show ?thesis by linarith
  qed
  then show "consuming (read_object read)" by (auto simp: consuming_def)
  have "length rest < length cs" if arr: "read_array read cs = Some (vs, rest)" for cs vs rest
  proof -
    from arr obtain r where r: "expect_byte (CHR ''['') cs = Some r"
      and go: "expect_byte (CHR '']'') (skip_whitespace r) = Some rest \<or> array_items read (skip_whitespace r) [] = Some (vs, rest)"
      by (auto simp: read_array_def bind_eq_Some_conv split: option.splits)
    from go have "length rest < length (skip_whitespace r)" using expect_byte_shorter array_items_shorter [OF read] by blast
    with expect_byte_shorter [OF r] skip_whitespace_length [of r] show ?thesis by linarith
  qed
  then show "consuming (read_array read)" by (auto simp: consuming_def)
qed

lemma literal_word_shorter: "literal_word word v cs = Some (u, rest) \<Longrightarrow> word \<noteq> [] \<Longrightarrow> length rest < length cs"
  by (auto simp: literal_word_def strip_prefix_Some)

lemma value_with_cases:
  assumes "value_with object array cs = Some (v, rest)"
  obtains obj where "object cs = Some (obj, rest)" "v = SJ_Object obj"
  | vs where "array cs = Some (vs, rest)" "v = SJ_Array vs"
  | s where "read_string cs = Some (s, rest)" "v = SJ_Str s"
  | word where "literal_word word v cs = Some (v, rest)" "word \<noteq> []" "v = SJ_Null \<or> (\<exists>b. v = SJ_Bool b)"
  | "read_number cs = Some (v, rest)"
proof (cases cs)
  case (Cons c cs')
  have lit: "literal_word word u cs = Some (v, rest) \<Longrightarrow> u = v" for word u by (auto simp: literal_word_def)
  consider "c = CHR ''{''" | "c = CHR ''[''" | "c = CHR 0x22" | "c = CHR ''t''" | "c = CHR ''f''" | "c = CHR ''n''"
    | "c \<notin> {CHR ''{'', CHR ''['', CHR 0x22, CHR ''t'', CHR ''f'', CHR ''n''}" by blast
  then show thesis
  proof cases
    case 1
    then show ?thesis using assms that(1) Cons by (auto simp: value_with_def)
  next
    case 2
    then show ?thesis using assms that(2) Cons by (auto simp: value_with_def)
  next
    case 3
    then show ?thesis using assms that(3) Cons by (auto simp: value_with_def)
  next
    case 4
    then have "literal_word ''true'' (SJ_Bool True) cs = Some (v, rest)" using assms Cons by (simp add: value_with_def)
    then show ?thesis using that(4) [of "''true''"] lit by blast
  next
    case 5
    then have "literal_word ''false'' (SJ_Bool False) cs = Some (v, rest)" using assms Cons by (simp add: value_with_def)
    then show ?thesis using that(4) [of "''false''"] lit by blast
  next
    case 6
    then have "literal_word ''null'' SJ_Null cs = Some (v, rest)" using assms Cons by (simp add: value_with_def)
    then show ?thesis using that(4) [of "''null''"] lit by blast
  next
    case 7
    then show ?thesis using assms that(5) Cons by (auto simp: value_with_def split: if_splits)
  qed
qed (use assms in \<open>simp add: value_with_def\<close>)

lemma value_with_consuming:
  assumes "consuming object" "consuming array"
  shows "consuming (value_with object array)"
proof -
  have "length rest < length cs" if "value_with object array cs = Some (v, rest)" for cs v rest
    using that
  proof (cases rule: value_with_cases)
    case (1 obj)
    then show ?thesis using consumingD [OF assms(1)] by blast
  next
    case (2 vs)
    then show ?thesis using consumingD [OF assms(2)] by blast
  next
    case (3 s)
    then show ?thesis using read_string_shorter by blast
  next
    case (4 word)
    then show ?thesis using literal_word_shorter by blast
  next
    case 5
    then show ?thesis using read_number_shorter by blast
  qed
  then show ?thesis by (simp add: consuming_def)
qed

lemma value_at_shorter: "consuming (value_at levels)"
proof (induction levels)
  case 0
  show ?case unfolding value_at.simps by (rule value_with_consuming) (simp_all add: consuming_def)
next
  case (Suc levels)
  then show ?case unfolding value_at.simps by (intro value_with_consuming container_consuming)
qed

section \<open>What is accepted\<close>

text \<open>A value with at most so many levels, no repeated key at any level, valid text and 128-bit integers.\<close>

fun well_read :: "nat \<Rightarrow> sjson \<Rightarrow> bool" where
  "well_read levels (SJ_Int n) = (I128_MIN \<le> n \<and> n \<le> I128_MAX)"
| "well_read levels (SJ_Str s) = utf8_valid s"
| "well_read 0 (SJ_Array vs) = False"
| "well_read (Suc levels) (SJ_Array vs) = list_all (well_read levels) vs"
| "well_read 0 (SJ_Object obj) = False"
| "well_read (Suc levels) (SJ_Object obj) =
     (distinct (map fst obj) \<and> list_all (\<lambda>(key, v). utf8_valid key \<and> well_read levels v) obj)"
| "well_read levels _ = True"

lemma string_body_valid: "string_body out cs = Some (s, rest) \<Longrightarrow> utf8_valid s"
  by (induction out cs rule: string_body.induct) (auto split: if_splits option.splits)

lemma read_string_valid: "read_string cs = Some (s, rest) \<Longrightarrow> utf8_valid s"
  by (auto simp: read_string_def bind_eq_Some_conv dest: string_body_valid)

lemma digits_val_nonneg: "list_all is_ascii_digit ds \<Longrightarrow> 0 \<le> digits_val ds"
proof (induction ds rule: rev_induct)
  case (snoc d ds)
  then show ?case by (auto simp: digits_val_def digit_val_def is_ascii_digit_def)
qed (simp add: digits_val_def)

lemma integer_from_range: "0 \<le> digits_val ds \<Longrightarrow> I128_MIN \<le> integer_from ds negative \<and> integer_from ds negative \<le> I128_MAX"
  by (auto simp: integer_from_def I128_MAX_def I128_MIN_def Let_def)

lemma read_digits_all: "read_digits cs = Some (ds, rest) \<Longrightarrow> list_all is_ascii_digit ds"
  by (auto simp: read_digits_def Let_def list_all_iff dest: set_takeWhileD split: if_splits)

lemma read_number_read:
  assumes "read_number cs = Some (v, rest)"
  shows "well_read levels v"
proof -
  obtain digits r negative where v: "v = SJ_Number \<or> v = SJ_Int (integer_from digits negative)"
    and digits: "digits = ''0'' \<or> (\<exists>r'. read_digits r = Some (digits, r'))"
    using assms unfolding read_number_def Let_def
    by (auto simp: bind_eq_Some_conv split: if_splits)
  from digits have "0 \<le> digits_val digits"
    using digits_val_nonneg read_digits_all by (auto simp: digits_val_def digit_val_def)
  with v integer_from_range show ?thesis by auto
qed

lemma object_members_read:
  assumes "consuming read" "\<And>cs v rest. read cs = Some (v, rest) \<Longrightarrow> well_read levels v"
  shows "object_members read cs seen = Some (obj, rest) \<Longrightarrow> well_read (Suc levels) (SJ_Object seen) \<Longrightarrow> well_read (Suc levels) (SJ_Object obj)"
proof (induction "length cs" arbitrary: cs seen rule: less_induct)
  case less
  from assms(1) less.prems(1) show ?case
  proof (rule object_members_turn)
    fix key r1 r2 v r3 c r4
    assume r: "read_string (skip_whitespace cs) = Some (key, r1)" "read (skip_whitespace r2) = Some (v, r3)"
      "key \<notin> fst ` set seen" "length r4 < length cs"
      and go: "object_members read r4 (seen @ [(key, v)]) = Some (obj, rest) \<or> r4 = rest \<and> obj = seen @ [(key, v)]"
    have grown: "well_read (Suc levels) (SJ_Object (seen @ [(key, v)]))"
      using less.prems(2) r(3) read_string_valid [OF r(1)] assms(2) [OF r(2)] by auto
    from go less.hyps [OF r(4) _ grown] grown show ?thesis by blast
  qed
qed

lemma array_items_read:
  assumes "consuming read" "\<And>cs v rest. read cs = Some (v, rest) \<Longrightarrow> well_read levels v"
  shows "array_items read cs items = Some (vs, rest) \<Longrightarrow> list_all (well_read levels) items \<Longrightarrow> list_all (well_read levels) vs"
proof (induction "length cs" arbitrary: cs items rule: less_induct)
  case less
  from assms(1) less.prems(1) show ?case
  proof (rule array_items_turn)
    fix v r1 c r2
    assume r: "read (skip_whitespace cs) = Some (v, r1)" "length r2 < length cs"
      and go: "array_items read r2 (items @ [v]) = Some (vs, rest) \<or> r2 = rest \<and> vs = items @ [v]"
    have grown: "list_all (well_read levels) (items @ [v])" using less.prems(2) assms(2) [OF r(1)] by simp
    from go less.hyps [OF r(2) _ grown] grown show ?thesis by blast
  qed
qed

lemma containers_read:
  assumes "consuming read" "\<And>cs v rest. read cs = Some (v, rest) \<Longrightarrow> well_read levels v"
  shows "read_object read cs = Some (obj, rest) \<Longrightarrow> well_read (Suc levels) (SJ_Object obj)"
    and "read_array read cs = Some (vs, rest) \<Longrightarrow> well_read (Suc levels) (SJ_Array vs)"
  using object_members_read [OF assms, where seen = "[]"] array_items_read [OF assms, where items = "[]"]
  by (auto simp: read_object_def read_array_def bind_eq_Some_conv split: option.splits)

lemma value_at_read: "value_at levels cs = Some (v, rest) \<Longrightarrow> well_read levels v"
proof (induction levels arbitrary: cs v rest)
  case 0
  then have "value_with (\<lambda>_. None) (\<lambda>_. None) cs = Some (v, rest)" by simp
  then show ?case by (cases rule: value_with_cases) (auto dest: read_string_valid read_number_read)
next
  case (Suc levels)
  then have "value_with (read_object (value_at levels)) (read_array (value_at levels)) cs = Some (v, rest)" by simp
  then show ?case
  proof (cases rule: value_with_cases)
    case (1 obj)
    with containers_read(1) [of "value_at levels" levels cs obj rest, OF value_at_shorter Suc.IH] show ?thesis by simp
  next
    case (2 vs)
    with containers_read(2) [of "value_at levels" levels cs vs rest, OF value_at_shorter Suc.IH] show ?thesis by simp
  qed (auto dest: read_string_valid read_number_read)
qed

text \<open>
  C31: an object the strict reader accepts has no repeated key at any depth, nests at most eight levels, and
  holds only valid text and integers in the 128-bit range.
\<close>

theorem strict_object_has_one_reading:
  assumes "parse_object bytes = Some obj"
  shows "well_read STRICT_DEPTH (SJ_Object obj)"
proof -
  from assms obtain rest where "read_object (value_at (STRICT_DEPTH - 1)) (skip_whitespace bytes) = Some (obj, rest)"
    by (auto simp: parse_object_def bind_eq_Some_conv split: if_splits)
  then have "well_read (Suc (STRICT_DEPTH - 1)) (SJ_Object obj)"
  proof (rule containers_read(1) [OF value_at_shorter, rotated])
    show "well_read (STRICT_DEPTH - 1) v" if "value_at (STRICT_DEPTH - 1) cs = Some (v, rest')" for cs v rest'
      using that by (rule value_at_read)
  qed
  moreover have "Suc (STRICT_DEPTH - 1) = STRICT_DEPTH" by (simp add: STRICT_DEPTH_def)
  ultimately show ?thesis by simp
qed

definition sample_object :: string where
  "sample_object = ''{'' @ [CHR 0x22] @ ''a'' @ [CHR 0x22] @ '':[1,{}]}''"

theorem strict_object_has_one_reading_witness:
  "well_read STRICT_DEPTH (SJ_Object [(''a'', SJ_Array [SJ_Int 1, SJ_Object []])])"
  by (rule strict_object_has_one_reading [of sample_object]) code_simp

end
