(* ===== verification/Signin.thy ===== *)
theory Signin
  imports Strict_Json Rate_Limit
begin

unbundle bit_operations_syntax

text \<open>
  Signing in with a platform token, \<open>rust/host/src/platform_signin\<close>: the compact token (\<open>jws.rs\<close>), the record of
  spent identifiers (\<open>jti.rs\<close>), the issuer's key set and its cache (\<open>jwks.rs\<close>, \<open>fetcher.rs\<close>) and the ordered
  checks (\<open>verify.rs\<close>).

  Times are the source's 64-bit and 128-bit integers, as integers with saturation written out. The base64,
  SHA-256, Ed25519 and Unicode lower-case functions are parameters (record \<open>crypto\<close>), as are the comparison of
  secrets, the network and the source of keys. A lock is taken for a whole operation, so operations are steps
  on the state it guards.
\<close>

record crypto =
  cr_encode :: "string \<Rightarrow> string"
  cr_decode :: "string \<Rightarrow> string option"
  cr_sha256 :: "string \<Rightarrow> string"
  cr_ed25519 :: "string \<Rightarrow> string \<Rightarrow> string \<Rightarrow> bool"
  cr_lowercase :: "string \<Rightarrow> string"

definition I64_MAX :: int where "I64_MAX = 2 ^ 63 - 1"
definition I64_MIN :: int where "I64_MIN = - (2 ^ 63)"

definition clamp_i64 :: "int \<Rightarrow> int" where
  "clamp_i64 n = (if I64_MIN \<le> n \<and> n \<le> I64_MAX then n else if n < 0 then I64_MIN else I64_MAX)"

definition sat_sub64 :: "int \<Rightarrow> int \<Rightarrow> int" where
  "sat_sub64 a b = clamp_i64 (a - b)"

definition sat128 :: "int \<Rightarrow> int" where
  "sat128 n = (if n < I128_MIN then I128_MIN else if I128_MAX < n then I128_MAX else n)"

section \<open>Compact tokens\<close>

datatype jws_fault = Jws_TooLarge | Jws_Malformed

record compact_jws =
  jw_header :: sobject
  jw_claims :: sobject
  jw_signing_input :: string
  jw_signature_segment :: string

definition json_segment :: "crypto \<Rightarrow> string \<Rightarrow> (jws_fault, sobject) result" where
  "json_segment cr segment =
     (case cr_decode cr segment of
        None \<Rightarrow> Inl Jws_Malformed
      | Some bytes \<Rightarrow> ok_or Jws_Malformed (parse_object bytes))"

definition parse_compact :: "crypto \<Rightarrow> string \<Rightarrow> nat \<Rightarrow> (jws_fault, compact_jws) result" where
  "parse_compact cr src max_bytes =
     (if max_bytes < length src then Inl Jws_TooLarge
      else case split_str ''.'' src of
             [header, claims, signature] \<Rightarrow>
               rbind (json_segment cr header) (\<lambda>h.
               rbind (json_segment cr claims) (\<lambda>c.
                 Inr \<lparr>jw_header = h, jw_claims = c, jw_signing_input = header @ ''.'' @ claims, jw_signature_segment = signature\<rparr>))
           | _ \<Rightarrow> Inl Jws_Malformed)"

definition signature_bytes :: "crypto \<Rightarrow> compact_jws \<Rightarrow> string option" where
  "signature_bytes cr jws = cr_decode cr (jw_signature_segment jws)"

section \<open>Spent identifiers\<close>

definition DEFAULT_MAX_ENTRIES :: nat where "DEFAULT_MAX_ENTRIES = 100000"

record jti_store =
  js_max_entries :: nat
  js_seen :: "(string \<times> int) list"

definition new_jti_store :: "nat \<Rightarrow> jti_store" where
  "new_jti_store max_entries = \<lparr>js_max_entries = max_entries, js_seen = []\<rparr>"

definition unforgotten :: "int \<Rightarrow> (string \<times> int) list \<Rightarrow> (string \<times> int) list" where
  "unforgotten now seen = filter (\<lambda>(_, expiry). now < expiry) seen"

definition claim_jti :: "string \<Rightarrow> int \<Rightarrow> int \<Rightarrow> jti_store \<Rightarrow> bool \<times> jti_store" where
  "claim_jti jti expires_at now st =
     (let seen = unforgotten now (js_seen st)
      in if List.member (map fst seen) jti \<or> js_max_entries st \<le> length seen then (False, st\<lparr>js_seen := seen\<rparr>)
         else (True, st\<lparr>js_seen := seen @ [(jti, expires_at)]\<rparr>))"

definition jti_len :: "int \<Rightarrow> jti_store \<Rightarrow> nat" where
  "jti_len now st = length (unforgotten now (js_seen st))"

section \<open>Keys\<close>

definition DEFAULT_TTL_SECONDS :: int where "DEFAULT_TTL_SECONDS = 300"
definition DEFAULT_MIN_REFETCH_SECONDS :: int where "DEFAULT_MIN_REFETCH_SECONDS = 30"
definition MAX_TTL_SECONDS :: int where "MAX_TTL_SECONDS = 3600"
definition ED25519_PUBLIC_KEY_BYTES :: nat where "ED25519_PUBLIC_KEY_BYTES = 32"

record verifying_key =
  vk_x :: string

definition from_x :: "crypto \<Rightarrow> string \<Rightarrow> verifying_key option" where
  "from_x cr x =
     Option.bind (cr_decode cr x) (\<lambda>raw. if length raw = ED25519_PUBLIC_KEY_BYTES then Some \<lparr>vk_x = x\<rparr> else None)"

definition quoted_member :: "string \<Rightarrow> string \<Rightarrow> string" where
  "quoted_member name v = [CHR 0x22] @ name @ [CHR 0x22, CHR '':'', CHR 0x22] @ v @ [CHR 0x22]"

definition thumbprint_of :: "crypto \<Rightarrow> string \<Rightarrow> string" where
  "thumbprint_of cr x =
     cr_encode cr (cr_sha256 cr (''{'' @ quoted_member ''crv'' ''Ed25519'' @ '','' @ quoted_member ''kty'' ''OKP'' @ '','' @
       quoted_member ''x'' x @ ''}''))"

definition thumbprint :: "crypto \<Rightarrow> verifying_key \<Rightarrow> string" where
  "thumbprint cr key = thumbprint_of cr (vk_x key)"

datatype key_refusal = NotAnObject | NotOkp | NotEd25519 | BadX | CarriesPrivateKey

definition key_from_entry :: "crypto \<Rightarrow> sjson \<Rightarrow> (key_refusal, verifying_key) result" where
  "key_from_entry cr e =
     (case e of
        SJ_Object jwk \<Rightarrow>
          if get_member jwk ''d'' \<noteq> None then Inl CarriesPrivateKey
          else if get_str jwk ''kty'' \<noteq> Some ''OKP'' then Inl NotOkp
          else if get_str jwk ''crv'' \<noteq> Some ''Ed25519'' then Inl NotEd25519
          else ok_or BadX (Option.bind (get_str jwk ''x'') (from_x cr))
      | _ \<Rightarrow> Inl NotAnObject)"

record parsed_keys =
  pk_keys :: "string \<rightharpoonup> verifying_key"
  pk_refused :: "key_refusal list"

fun collect_keys :: "crypto \<Rightarrow> sjson list \<Rightarrow> parsed_keys \<Rightarrow> parsed_keys" where
  "collect_keys cr [] parsed = parsed"
| "collect_keys cr (e # es) parsed =
     collect_keys cr es
       (case key_from_entry cr e of
          Inr key \<Rightarrow> parsed\<lparr>pk_keys := (pk_keys parsed)(thumbprint cr key \<mapsto> key)\<rparr>
        | Inl refusal \<Rightarrow> parsed\<lparr>pk_refused := pk_refused parsed @ [refusal]\<rparr>)"

text \<open>\<open>None\<close> is \<open>JwksMalformed\<close>.\<close>

definition parse_jwks :: "crypto \<Rightarrow> string \<Rightarrow> parsed_keys option" where
  "parse_jwks cr body =
     Option.bind (parse_object body) (\<lambda>document.
       case get_member document ''keys'' of
         Some (SJ_Array es) \<Rightarrow> Some (collect_keys cr es \<lparr>pk_keys = Map.empty, pk_refused = []\<rparr>)
       | _ \<Rightarrow> None)"

section \<open>The key set cache\<close>

record cache_state =
  cs_keys :: "string \<rightharpoonup> verifying_key"
  cs_fetched_at :: "int option"
  cs_attempted_at :: "int option"
  cs_hinted_ttl :: "int option"

definition empty_cache :: cache_state where
  "empty_cache = \<lparr>cs_keys = Map.empty, cs_fetched_at = None, cs_attempted_at = None, cs_hinted_ttl = None\<rparr>"

record cache_timing =
  ct_ttl_seconds :: int
  ct_min_refetch_seconds :: int

definition default_timing :: cache_timing where
  "default_timing = \<lparr>ct_ttl_seconds = DEFAULT_TTL_SECONDS, ct_min_refetch_seconds = DEFAULT_MIN_REFETCH_SECONDS\<rparr>"

text \<open>The network as the cache sees it: a state, a fetch that may fail, and the hint of the last answer.\<close>

record 'n fetcher =
  ft_fetch :: "'n \<Rightarrow> string option \<times> 'n"
  ft_ttl_hint :: "'n \<Rightarrow> int option"

definition is_stale :: "cache_timing \<Rightarrow> cache_state \<Rightarrow> int \<Rightarrow> bool" where
  "is_stale timing st now =
     (let ttl = (case cs_hinted_ttl st of Some t \<Rightarrow> t | None \<Rightarrow> ct_ttl_seconds timing)
      in case cs_fetched_at st of None \<Rightarrow> True | Some fetched \<Rightarrow> ttl \<le> sat_sub64 now fetched)"

text \<open>\<open>i64::clamp\<close> panics when the bounds are out of order: the outer \<open>None\<close>.\<close>

definition bounded_hint :: "cache_timing \<Rightarrow> int option \<Rightarrow> int option option" where
  "bounded_hint timing hint =
     (case hint of
        None \<Rightarrow> Some None
      | Some h \<Rightarrow>
          if MAX_TTL_SECONDS < ct_min_refetch_seconds timing then None
          else Some (Some (max (ct_min_refetch_seconds timing) (min h MAX_TTL_SECONDS))))"

definition refresh_due :: "cache_timing \<Rightarrow> cache_state \<Rightarrow> string \<Rightarrow> int \<Rightarrow> bool" where
  "refresh_due timing st kid now =
     (case cs_attempted_at st of
        None \<Rightarrow> True
      | Some attempted \<Rightarrow>
          (is_stale timing st now \<or> cs_keys st kid = None) \<and> ct_min_refetch_seconds timing \<le> sat_sub64 now attempted)"

definition refresh :: "crypto \<Rightarrow> 'n fetcher \<Rightarrow> cache_timing \<Rightarrow> int \<Rightarrow> cache_state \<times> 'n \<Rightarrow> (cache_state \<times> 'n) option" where
  "refresh cr fetcher timing now world =
     (let st = (fst world)\<lparr>cs_attempted_at := Some now\<rparr>; (body, net) = ft_fetch fetcher (snd world)
      in case Option.bind body (parse_jwks cr) of
           None \<Rightarrow> Some (st, net)
         | Some parsed \<Rightarrow>
             map_option (\<lambda>hint. (st\<lparr>cs_keys := pk_keys parsed, cs_fetched_at := Some now, cs_hinted_ttl := hint\<rparr>, net))
               (bounded_hint timing (ft_ttl_hint fetcher net)))"

text \<open>\<open>JwksCache::key_for\<close>; the outer \<open>None\<close> is a panic.\<close>

definition key_for ::
    "crypto \<Rightarrow> 'n fetcher \<Rightarrow> cache_timing \<Rightarrow> string \<Rightarrow> int \<Rightarrow> cache_state \<times> 'n \<Rightarrow> (verifying_key option \<times> cache_state \<times> 'n) option" where
  "key_for cr fetcher timing kid now world =
     Option.bind (if refresh_due timing (fst world) kid now then refresh cr fetcher timing now world else Some world)
       (\<lambda>world. Some (if is_stale timing (fst world) now then None else cs_keys (fst world) kid, world))"

section \<open>Fetching the key set\<close>

definition FETCH_MAX_BODY :: nat where "FETCH_MAX_BODY = 64 * 1024"

text \<open>An answer of the network: status, announced length, the cache header, the body in pieces; a piece may fail.\<close>

record http_answer =
  ha_status :: nat
  ha_content_length :: "nat option"
  ha_cache_control :: "string option"
  ha_chunks :: "string option list"

fun read_chunks :: "string \<Rightarrow> string option list \<Rightarrow> string option" where
  "read_chunks body [] = Some body"
| "read_chunks body (None # pieces) = None"
| "read_chunks body (Some piece # pieces) =
     (if FETCH_MAX_BODY < length body + length piece then None else read_chunks (body @ piece) pieces)"

definition max_age_of :: "string \<Rightarrow> int option" where
  "max_age_of cache_control =
     (let directives = map (\<lambda>d. to_ascii_lowercase (trim d)) (split_str '','' cache_control)
      in if list_ex (\<lambda>d. d = ''no-store'' \<or> d = ''no-cache'') directives then None
         else case List.find (\<lambda>d. starts_with ''max-age='' d) directives of
                None \<Rightarrow> None
              | Some d \<Rightarrow>
                  (case parse_i64 (drop (length ''max-age='') d) of
                     Some w \<Rightarrow> if 0 \<le> sint w then Some (sint w) else None
                   | None \<Rightarrow> None))"

definition get_document :: "http_answer option \<Rightarrow> (string \<times> int option) option" where
  "get_document answer =
     Option.bind answer (\<lambda>a.
       if ha_status a \<noteq> 200 \<or> (case ha_content_length a of Some n \<Rightarrow> FETCH_MAX_BODY < n | None \<Rightarrow> False) then None
       else Option.bind (read_chunks [] (ha_chunks a)) (\<lambda>body.
         if utf8_valid body then Some (body, Option.bind (ha_cache_control a) max_age_of) else None))"

text \<open>\<open>HttpJwksFetcher\<close>: its state is the hint it stored and the answers still to come.\<close>

definition http_fetch :: "int option \<times> http_answer option list \<Rightarrow> string option \<times> int option \<times> http_answer option list" where
  "http_fetch net =
     (case snd net of
        [] \<Rightarrow> (None, None, [])
      | answer # answers \<Rightarrow>
          (case get_document answer of
             None \<Rightarrow> (None, None, answers)
           | Some (body, hint) \<Rightarrow> (Some body, hint, answers)))"

definition http_fetcher :: "(int option \<times> http_answer option list) fetcher" where
  "http_fetcher = \<lparr>ft_fetch = http_fetch, ft_ttl_hint = fst\<rparr>"

section \<open>The checks\<close>

datatype reason =
    MissingCookie | StateMismatch | TooLarge | Malformed | BadAlg | UnknownKid | BadSignature | BadIss | BadAud
  | BadEnv | MissingClaim | NotYetValid | Expired | Lifetime | NonceMismatch | Replay | EmailUnverified | SubjectMismatch

definition ALL_REASONS :: "reason list" where
  "ALL_REASONS = [MissingCookie, StateMismatch, TooLarge, Malformed, BadAlg, UnknownKid, BadSignature, BadIss, BadAud,
     BadEnv, MissingClaim, NotYetValid, Expired, Lifetime, NonceMismatch, Replay, EmailUnverified, SubjectMismatch]"

fun reason_code :: "reason \<Rightarrow> string" where
  "reason_code MissingCookie = ''missing_cookie''"
| "reason_code StateMismatch = ''state_mismatch''"
| "reason_code TooLarge = ''too_large''"
| "reason_code Malformed = ''malformed''"
| "reason_code BadAlg = ''bad_alg''"
| "reason_code UnknownKid = ''unknown_kid''"
| "reason_code BadSignature = ''bad_signature''"
| "reason_code BadIss = ''bad_iss''"
| "reason_code BadAud = ''bad_aud''"
| "reason_code BadEnv = ''bad_env''"
| "reason_code MissingClaim = ''missing_claim''"
| "reason_code NotYetValid = ''not_yet_valid''"
| "reason_code Expired = ''expired''"
| "reason_code Lifetime = ''lifetime''"
| "reason_code NonceMismatch = ''nonce_mismatch''"
| "reason_code Replay = ''replay''"
| "reason_code EmailUnverified = ''email_unverified''"
| "reason_code SubjectMismatch = ''subject_mismatch''"

definition reason_from_code :: "string \<Rightarrow> reason option" where
  "reason_from_code code = List.find (\<lambda>r. reason_code r = code) ALL_REASONS"

definition REQUIRED_CLAIMS :: "string list" where
  "REQUIRED_CLAIMS = [''iss'', ''aud'', ''env'', ''sub'', ''email'', ''email_verified'', ''nonce'', ''iat'', ''nbf'', ''exp'', ''jti'']"

record signin_cookie =
  sc_nonce :: string
  sc_state :: string

record signin_request =
  sr_token :: "string option"
  sr_state :: "string option"
  sr_cookie :: "signin_cookie option"

record signin_config =
  sf_issuer_url :: string
  sf_jwks_url :: string
  sf_site_id :: string
  sf_environment :: string
  sf_skew_seconds :: int
  sf_max_lifetime_seconds :: int
  sf_max_token_bytes :: nat

record verified_claims =
  vc_issuer :: string
  vc_audience :: string
  vc_environment :: string
  vc_subject :: string
  vc_email :: string
  vc_idp_issuer :: "string option"
  vc_idp_subject :: "string option"
  vc_roles :: "string list"
  vc_nonce :: string
  vc_issued_at :: int
  vc_not_before :: int
  vc_expires_at :: int
  vc_all :: sobject

text \<open>A verifier: its settings, the functions it uses, the comparison of secrets and its source of keys.\<close>

record 'k verifier =
  vf_config :: signin_config
  vf_crypto :: crypto
  vf_compare :: "string \<Rightarrow> string \<Rightarrow> bool"
  vf_key_for :: "string \<Rightarrow> int \<Rightarrow> 'k \<Rightarrow> verifying_key option \<times> 'k"

record 'k verifier_state =
  vs_keys :: 'k
  vs_jti :: jti_store

definition secure_compare :: "crypto \<Rightarrow> string \<Rightarrow> string \<Rightarrow> bool" where
  "secure_compare cr a b \<longleftrightarrow> 
     fold (\<lambda>(x, y) difference. difference OR (byte_of x XOR byte_of y)) (zip (cr_sha256 cr a) (cr_sha256 cr b)) 0 = 0"

definition integer_claim :: "sobject \<Rightarrow> string \<Rightarrow> int option" where
  "integer_claim claims name = (case get_member claims name of Some (SJ_Int n) \<Rightarrow> Some n | _ \<Rightarrow> None)"

definition check_cookie_and_state :: "'k verifier \<Rightarrow> signin_request \<Rightarrow> (reason, signin_cookie) result" where
  "check_cookie_and_state v request =
     (case sr_cookie request of
        Some cookie \<Rightarrow>
          if sc_nonce cookie = [] \<or> sc_state cookie = [] then Inl MissingCookie
          else (case sr_state request of
                  Some state \<Rightarrow>
                    if state = [] then Inl StateMismatch
                    else if vf_compare v state (sc_state cookie) then Inr cookie else Inl StateMismatch
                | None \<Rightarrow> Inl StateMismatch)
      | None \<Rightarrow> Inl MissingCookie)"

definition parse_token :: "crypto \<Rightarrow> string option \<Rightarrow> nat \<Rightarrow> (reason, compact_jws) result" where
  "parse_token cr token max_bytes =
     (case token of
        None \<Rightarrow> Inl Malformed
      | Some t \<Rightarrow>
          (case parse_compact cr t max_bytes of
             Inr jws \<Rightarrow> Inr jws
           | Inl Jws_TooLarge \<Rightarrow> Inl TooLarge
           | Inl Jws_Malformed \<Rightarrow> Inl Malformed))"

definition signature_verifies :: "crypto \<Rightarrow> verifying_key \<Rightarrow> compact_jws \<Rightarrow> bool" where
  "signature_verifies cr key jws = cr_ed25519 cr (vk_x key) (jw_signature_segment jws) (jw_signing_input jws)"

definition check_signature :: "'k verifier \<Rightarrow> compact_jws \<Rightarrow> int \<Rightarrow> 'k \<Rightarrow> (reason, unit) result \<times> 'k" where
  "check_signature v jws now keys =
     (if get_str (jw_header jws) ''alg'' \<noteq> Some ''EdDSA'' then (Inl BadAlg, keys)
      else if get_str (jw_header jws) ''typ'' \<noteq> Some ''JWT'' then (Inl Malformed, keys)
      else if signature_bytes (vf_crypto v) jws = None then (Inl Malformed, keys)
      else case get_str (jw_header jws) ''kid'' of
             None \<Rightarrow> (Inl UnknownKid, keys)
           | Some kid \<Rightarrow>
               (case vf_key_for v kid now keys of
                  (None, keys) \<Rightarrow> (Inl UnknownKid, keys)
                | (Some key, keys) \<Rightarrow>
                    (if signature_verifies (vf_crypto v) key jws then Inr () else Inl BadSignature, keys)))"

definition check_pinned_claims :: "signin_config \<Rightarrow> sobject \<Rightarrow> (reason, unit) result" where
  "check_pinned_claims config claims =
     (if list_ex (\<lambda>name. \<not> is_present claims name) REQUIRED_CLAIMS then Inl MissingClaim
      else if get_str claims ''iss'' \<noteq> Some (sf_issuer_url config) then Inl BadIss
      else if get_str claims ''aud'' \<noteq> Some (sf_site_id config) then Inl BadAud
      else if get_str claims ''env'' \<noteq> Some (sf_environment config) then Inl BadEnv
      else Inr ())"

definition check_times :: "signin_config \<Rightarrow> sobject \<Rightarrow> int \<Rightarrow> (reason, unit) result" where
  "check_times config claims now =
     (case (integer_claim claims ''iat'', integer_claim claims ''nbf'', integer_claim claims ''exp'') of
        (Some iat, Some nbf, Some exp) \<Rightarrow>
          let skew = sf_skew_seconds config
          in if sat128 (now + skew) < nbf then Inl NotYetValid
             else if exp \<le> sat128 (now - skew) then Inl Expired
             else let lifetime = sat128 (exp - iat)
                  in if 1 \<le> lifetime \<and> lifetime \<le> sf_max_lifetime_seconds config then Inr () else Inl Lifetime
      | _ \<Rightarrow> Inl Malformed)"

definition check_nonce :: "'k verifier \<Rightarrow> sobject \<Rightarrow> signin_cookie \<Rightarrow> (reason, unit) result" where
  "check_nonce v claims cookie =
     (case get_str claims ''nonce'' of
        Some nonce \<Rightarrow> if vf_compare v nonce (sc_nonce cookie) then Inr () else Inl NonceMismatch
      | None \<Rightarrow> Inl NonceMismatch)"

definition remembered_until :: "signin_config \<Rightarrow> sobject \<Rightarrow> int" where
  "remembered_until config claims =
     clamp_i64 (sat128 ((case integer_claim claims ''exp'' of Some e \<Rightarrow> e | None \<Rightarrow> 0) + sf_skew_seconds config))"

definition spend_jti :: "signin_config \<Rightarrow> sobject \<Rightarrow> int \<Rightarrow> jti_store \<Rightarrow> (reason, unit) result \<times> jti_store" where
  "spend_jti config claims now st =
     (case get_str claims ''jti'' of
        None \<Rightarrow> (Inl Replay, st)
      | Some jti \<Rightarrow>
          if jti = [] then (Inl Replay, st)
          else (case claim_jti jti (remembered_until config claims) now st of
                  (won, st) \<Rightarrow> (if won then Inr () else Inl Replay, st)))"

definition check_identity :: "crypto \<Rightarrow> sobject \<Rightarrow> (reason, unit) result" where
  "check_identity cr claims =
     (if get_member claims ''email_verified'' \<noteq> Some (SJ_Bool True) then Inl EmailUnverified
      else case (get_str claims ''email'', get_str claims ''sub'') of
             (Some email, Some subject) \<Rightarrow> if subject = cr_lowercase cr email then Inr () else Inl SubjectMismatch
           | _ \<Rightarrow> Inl Malformed)"

definition role_names :: "sobject \<Rightarrow> string list" where
  "role_names claims =
     (case get_member claims ''roles'' of
        Some (SJ_Array items) \<Rightarrow> List.map_filter (\<lambda>item. case item of SJ_Str role \<Rightarrow> Some role | _ \<Rightarrow> None) items
      | _ \<Rightarrow> [])"

definition accepted :: "crypto \<Rightarrow> sobject \<Rightarrow> verified_claims" where
  "accepted cr claims =
     (let text_of = (\<lambda>name. case get_str claims name of Some s \<Rightarrow> s | None \<Rightarrow> []);
          time = (\<lambda>name. clamp_i64 (case integer_claim claims name of Some n \<Rightarrow> n | None \<Rightarrow> 0))
      in \<lparr>vc_issuer = text_of ''iss'', vc_audience = text_of ''aud'', vc_environment = text_of ''env'',
          vc_subject = text_of ''sub'', vc_email = cr_lowercase cr (text_of ''email''),
          vc_idp_issuer = get_str claims ''idp_iss'', vc_idp_subject = get_str claims ''idp_sub'',
          vc_roles = role_names claims, vc_nonce = text_of ''nonce'', vc_issued_at = time ''iat'',
          vc_not_before = time ''nbf'', vc_expires_at = time ''exp'', vc_all = claims\<rparr>)"

text \<open>The checks in their order; the first failure is the verdict.\<close>

definition run_checks ::
    "'k verifier \<Rightarrow> signin_request \<Rightarrow> int \<Rightarrow> 'k verifier_state \<Rightarrow> (reason, verified_claims) result \<times> 'k verifier_state" where
  "run_checks v request now st =
     (case check_cookie_and_state v request of
        Inl r \<Rightarrow> (Inl r, st)
      | Inr cookie \<Rightarrow>
     (case parse_token (vf_crypto v) (sr_token request) (sf_max_token_bytes (vf_config v)) of
        Inl r \<Rightarrow> (Inl r, st)
      | Inr jws \<Rightarrow>
     (case check_signature v jws now (vs_keys st) of
        (Inl r, keys) \<Rightarrow> (Inl r, st\<lparr>vs_keys := keys\<rparr>)
      | (Inr _, keys) \<Rightarrow>
     (let st = st\<lparr>vs_keys := keys\<rparr>; claims = jw_claims jws
      in case rbind (check_pinned_claims (vf_config v) claims) (\<lambda>_.
               rbind (check_times (vf_config v) claims now) (\<lambda>_. check_nonce v claims cookie)) of
           Inl r \<Rightarrow> (Inl r, st)
         | Inr _ \<Rightarrow>
     (case spend_jti (vf_config v) claims now (vs_jti st) of
        (Inl r, jti) \<Rightarrow> (Inl r, st\<lparr>vs_jti := jti\<rparr>)
      | (Inr _, jti) \<Rightarrow>
          (map_sum (\<lambda>r. r) (\<lambda>_. accepted (vf_crypto v) claims) (check_identity (vf_crypto v) claims),
           st\<lparr>vs_jti := jti\<rparr>))))))"

text \<open>A verifier over the key set cache; a panic of the cache finds no key.\<close>

definition cache_keys ::
    "crypto \<Rightarrow> 'n fetcher \<Rightarrow> cache_timing \<Rightarrow> string \<Rightarrow> int \<Rightarrow> cache_state \<times> 'n \<Rightarrow> verifying_key option \<times> cache_state \<times> 'n" where
  "cache_keys cr fetcher timing kid now world =
     (case key_for cr fetcher timing kid now world of Some r \<Rightarrow> r | None \<Rightarrow> (None, world))"

end
