(* ===== verification/Single_Use.thy ===== *)
theory Single_Use
  imports Main
begin

text \<open>
  What a ledger of spent tokens promises whoever presents tokens to it: a token that is accepted was not spent and is
  spent from then on. The callbacks of a sign-in and the handoff tokens share this interface.
\<close>

text \<open>The tokens a step accepts out of a sequence of requests and their moments.\<close>

fun spend_all :: "('r \<Rightarrow> int \<Rightarrow> 's \<Rightarrow> 't option \<times> 's) \<Rightarrow> ('r \<times> int) list \<Rightarrow> 's \<Rightarrow> 't list" where
  "spend_all step [] s = []"
| "spend_all step ((r, now) # rs) s =
     (case step r now s of
        (Some t, s) \<Rightarrow> t # spend_all step rs s
      | (None, s) \<Rightarrow> spend_all step rs s)"

locale single_use =
  fixes step :: "'r \<Rightarrow> int \<Rightarrow> 's \<Rightarrow> 't option \<times> 's"
    and is_spent :: "'s \<Rightarrow> int \<Rightarrow> 't \<Rightarrow> bool"
    and in_range :: "'r \<Rightarrow> int \<Rightarrow> bool"
  assumes accepts_unspent: "\<lbrakk>in_range r now; step r now s = (Some t, s')\<rbrakk> \<Longrightarrow> \<not> is_spent s now t"
    and spends_accepted: "\<lbrakk>in_range r now; step r now s = (Some t, s')\<rbrakk> \<Longrightarrow> is_spent s' now t"
    and stays_spent: "\<lbrakk>is_spent s now t; now \<le> now'\<rbrakk> \<Longrightarrow> is_spent (snd (step r now' s)) now' t"
    and spent_ages: "\<lbrakk>is_spent s now t; now \<le> now'\<rbrakk> \<Longrightarrow> is_spent s now' t"
begin

lemma spent_not_accepted:
  "\<lbrakk>is_spent s now t; sorted (now # map snd rs); list_all (\<lambda>(r, now). in_range r now) rs\<rbrakk> \<Longrightarrow> t \<notin> set (spend_all step rs s)"
proof (induction rs arbitrary: s now)
  case (Cons p rs)
  obtain r m where p: "p = (r, m)" by (cases p)
  obtain won s' where step: "step r m s = (won, s')" by fastforce
  have m: "now \<le> m" "is_spent s m t" using Cons.prems p spent_ages by auto
  then have "is_spent s' m t" using stays_spent [of s m t m r] step by simp
  then have "t \<notin> set (spend_all step rs s')" using Cons.prems p by (intro Cons.IH [of _ m]) auto
  moreover have "won \<noteq> Some t" using accepts_unspent step m(2) Cons.prems(3) p by fastforce
  ultimately show ?case using step p by (auto split: option.splits)
qed simp

lemma accepted_once:
  "\<lbrakk>sorted (map snd rs); list_all (\<lambda>(r, now). in_range r now) rs\<rbrakk> \<Longrightarrow> distinct (spend_all step rs s)"
proof (induction rs arbitrary: s)
  case (Cons p rs)
  obtain r m where p: "p = (r, m)" by (cases p)
  obtain won s' where step: "step r m s = (won, s')" by fastforce
  have "t \<notin> set (spend_all step rs s')" if "won = Some t" for t
    using spends_accepted [of r m s t s'] spent_not_accepted [of s' m t rs] step that Cons.prems p by auto
  then show ?case using Cons step p by (auto split: option.splits)
qed simp

end

end
