(* ===== verification/Signin_Laws.thy ===== *)
theory Signin_Laws
  imports Signin Single_Use
begin

text \<open>
  What signing in promises: a token is accepted exactly when every check of the declared order holds, at most
  once while the clock does not go back, under a key whose own thumbprint the token names; an identifier is
  spent only by a request that passed every check before it; and the key set is fetched no more often than the
  least interval.
\<close>

section \<open>Each check\<close>

named_theorems passes

lemma cookie_passes [passes]:
  "check_cookie_and_state v request = Inr cookie \<longleftrightarrow>
     sr_cookie request = Some cookie \<and> sc_nonce cookie \<noteq> [] \<and> sc_state cookie \<noteq> [] \<and>
     (\<exists>state. sr_state request = Some state \<and> state \<noteq> [] \<and> vf_compare v state (sc_state cookie))"
  by (auto simp: check_cookie_and_state_def split: option.splits if_splits)

lemma token_passes [passes]:
  "parse_token cr token max_bytes = Inr jws \<longleftrightarrow> (\<exists>t. token = Some t \<and> parse_compact cr t max_bytes = Inr jws)"
  by (auto simp: parse_token_def split: option.splits sum.splits jws_fault.splits)

lemma signature_passes [passes]:
  "check_signature v jws now keys = (Inr u, keys') \<longleftrightarrow>
     get_str (jw_header jws) ''alg'' = Some ''EdDSA'' \<and> get_str (jw_header jws) ''typ'' = Some ''JWT'' \<and>
     signature_bytes (vf_crypto v) jws \<noteq> None \<and>
     (\<exists>kid key. get_str (jw_header jws) ''kid'' = Some kid \<and> vf_key_for v kid now keys = (Some key, keys') \<and>
        signature_verifies (vf_crypto v) key jws)"
  by (auto simp: check_signature_def split: option.splits prod.splits if_splits)

lemma pinned_passes [passes]:
  "check_pinned_claims config claims = Inr u \<longleftrightarrow>
     list_all (is_present claims) REQUIRED_CLAIMS \<and> get_str claims ''iss'' = Some (sf_issuer_url config) \<and>
     get_str claims ''aud'' = Some (sf_site_id config) \<and> get_str claims ''env'' = Some (sf_environment config)"
  by (auto simp: check_pinned_claims_def list_ex_iff list_all_iff split: if_splits)

lemma nonce_passes [passes]:
  "check_nonce v claims cookie = Inr u \<longleftrightarrow> (\<exists>nonce. get_str claims ''nonce'' = Some nonce \<and> vf_compare v nonce (sc_nonce cookie))"
  by (auto simp: check_nonce_def split: option.splits if_splits)

lemma identity_passes [passes]:
  "check_identity cr claims = Inr u \<longleftrightarrow>
     get_member claims ''email_verified'' = Some (SJ_Bool True) \<and>
     (\<exists>email. get_str claims ''email'' = Some email \<and> get_str claims ''sub'' = Some (cr_lowercase cr email))"
  by (auto simp: check_identity_def split: option.splits if_splits)

text \<open>Settings and times that fit the source's integers.\<close>

definition fits64 :: "int \<Rightarrow> bool" where
  "fits64 n \<longleftrightarrow> I64_MIN \<le> n \<and> n \<le> I64_MAX"

definition times_ok :: "signin_config \<Rightarrow> sobject \<Rightarrow> int \<Rightarrow> bool" where
  "times_ok config claims now \<longleftrightarrow>
     (case (integer_claim claims ''iat'', integer_claim claims ''nbf'', integer_claim claims ''exp'') of
        (Some iat, Some nbf, Some exp) \<Rightarrow>
          nbf \<le> now + sf_skew_seconds config \<and> now < exp + sf_skew_seconds config \<and>
          1 \<le> exp - iat \<and> exp - iat \<le> sf_max_lifetime_seconds config
      | _ \<Rightarrow> False)"

lemma sat128_in_range: "fits64 a \<Longrightarrow> fits64 b \<Longrightarrow> sat128 (a + b) = a + b \<and> sat128 (a - b) = a - b"
  by (simp add: fits64_def sat128_def I64_MIN_def I64_MAX_def I128_MIN_def I128_MAX_def)

lemma sat128_lifetime: "fits64 most \<Longrightarrow> 1 \<le> sat128 n \<and> sat128 n \<le> most \<longleftrightarrow> 1 \<le> n \<and> n \<le> most"
  by (auto simp: fits64_def sat128_def I64_MIN_def I64_MAX_def I128_MIN_def I128_MAX_def)

text \<open>Saturation never changes the verdict on the times: they are compared as whole numbers would be.\<close>

lemma times_passes:
  assumes "fits64 now" "fits64 (sf_skew_seconds config)" "fits64 (sf_max_lifetime_seconds config)"
  shows "check_times config claims now = Inr u \<longleftrightarrow> times_ok config claims now"
  using sat128_in_range [OF assms(1,2)] sat128_lifetime [OF assms(3)]
  by (auto simp: check_times_def times_ok_def Let_def split: option.splits if_splits)

lemma spend_passes [passes]:
  "spend_jti config claims now st = (Inr u, st') \<longleftrightarrow>
     (\<exists>jti. get_str claims ''jti'' = Some jti \<and> jti \<noteq> [] \<and> jti \<notin> fst ` set (unforgotten now (js_seen st)) \<and>
        length (unforgotten now (js_seen st)) < js_max_entries st \<and>
        st' = st\<lparr>js_seen := unforgotten now (js_seen st) @ [(jti, remembered_until config claims)]\<rparr>)"
  by (auto simp: spend_jti_def claim_jti_def Let_def split: option.splits if_splits)

section \<open>All checks\<close>

text \<open>Everything the checks before the spending of the identifier demand of a request and its token.\<close>

definition genuine :: "'k verifier \<Rightarrow> signin_request \<Rightarrow> int \<Rightarrow> 'k \<Rightarrow> signin_cookie \<Rightarrow> compact_jws \<Rightarrow> 'k \<Rightarrow> bool" where
  "genuine v request now keys cookie jws keys' \<longleftrightarrow>
     check_cookie_and_state v request = Inr cookie \<and>
     parse_token (vf_crypto v) (sr_token request) (sf_max_token_bytes (vf_config v)) = Inr jws \<and>
     check_signature v jws now keys = (Inr (), keys') \<and>
     check_pinned_claims (vf_config v) (jw_claims jws) = Inr () \<and>
     check_times (vf_config v) (jw_claims jws) now = Inr () \<and>
     check_nonce v (jw_claims jws) cookie = Inr ()"

lemma map_sum_Inr: "map_sum f g r = Inr x \<longleftrightarrow> (\<exists>y. r = Inr y \<and> x = g y)"
  by (cases r) auto

lemma run_checks_passes:
  "run_checks v request now st = (Inr claims, st') \<longleftrightarrow>
     (\<exists>cookie jws keys jti. genuine v request now (vs_keys st) cookie jws keys \<and>
        spend_jti (vf_config v) (jw_claims jws) now (vs_jti st) = (Inr (), jti) \<and>
        check_identity (vf_crypto v) (jw_claims jws) = Inr () \<and>
        claims = accepted (vf_crypto v) (jw_claims jws) \<and> st' = st\<lparr>vs_keys := keys, vs_jti := jti\<rparr>)"
  unfolding run_checks_def genuine_def
  by (auto simp: Let_def rbind_def map_sum_Inr split: sum.splits prod.splits)

text \<open>What the module documents of an acceptable request, in the order of the checks.\<close>

definition acceptable :: "'k verifier \<Rightarrow> signin_request \<Rightarrow> int \<Rightarrow> 'k verifier_state \<Rightarrow> bool" where
  "acceptable v request now st \<longleftrightarrow>
    (\<exists>cookie state token jws kid key keys nonce jti email.
       sr_cookie request = Some cookie \<and> sc_nonce cookie \<noteq> [] \<and> sc_state cookie \<noteq> [] \<and>
       sr_state request = Some state \<and> state \<noteq> [] \<and> vf_compare v state (sc_state cookie) \<and>
       sr_token request = Some token \<and> parse_compact (vf_crypto v) token (sf_max_token_bytes (vf_config v)) = Inr jws \<and>
       get_str (jw_header jws) ''alg'' = Some ''EdDSA'' \<and> get_str (jw_header jws) ''typ'' = Some ''JWT'' \<and>
       signature_bytes (vf_crypto v) jws \<noteq> None \<and> get_str (jw_header jws) ''kid'' = Some kid \<and>
       vf_key_for v kid now (vs_keys st) = (Some key, keys) \<and> signature_verifies (vf_crypto v) key jws \<and>
       list_all (is_present (jw_claims jws)) REQUIRED_CLAIMS \<and>
       get_str (jw_claims jws) ''iss'' = Some (sf_issuer_url (vf_config v)) \<and>
       get_str (jw_claims jws) ''aud'' = Some (sf_site_id (vf_config v)) \<and>
       get_str (jw_claims jws) ''env'' = Some (sf_environment (vf_config v)) \<and>
       times_ok (vf_config v) (jw_claims jws) now \<and>
       get_str (jw_claims jws) ''nonce'' = Some nonce \<and> vf_compare v nonce (sc_nonce cookie) \<and>
       get_str (jw_claims jws) ''jti'' = Some jti \<and> jti \<noteq> [] \<and>
       jti \<notin> fst ` set (unforgotten now (js_seen (vs_jti st))) \<and>
       length (unforgotten now (js_seen (vs_jti st))) < js_max_entries (vs_jti st) \<and>
       get_member (jw_claims jws) ''email_verified'' = Some (SJ_Bool True) \<and>
       get_str (jw_claims jws) ''email'' = Some email \<and>
       get_str (jw_claims jws) ''sub'' = Some (cr_lowercase (vf_crypto v) email))"

text \<open>
  C27: a token is accepted exactly when the browser's cookie and state match, the text is a token in bounds
  signed with EdDSA by the key its header names, the claims name this issuer, site and environment, its times
  hold within the skew and the longest life, its nonce is the cookie's, its identifier is unspent and there is
  room to remember it, and the issuer vouches for the email the subject is made of.
\<close>

theorem accepted_exactly_when_checks_hold:
  assumes "fits64 now" "fits64 (sf_skew_seconds (vf_config v))" "fits64 (sf_max_lifetime_seconds (vf_config v))"
  shows "(\<exists>claims st'. run_checks v request now st = (Inr claims, st')) \<longleftrightarrow> acceptable v request now st"
  unfolding run_checks_passes genuine_def passes times_passes [OF assms] acceptable_def by blast

section \<open>A sample\<close>

definition with_quotes :: "string \<Rightarrow> string" where
  "with_quotes s = map (\<lambda>c. if c = CHR ''~'' then CHR 0x22 else c) s"

definition sample_crypto :: crypto where
  "sample_crypto = \<lparr>cr_encode = (\<lambda>s. s), cr_decode = Some, cr_sha256 = (\<lambda>_. ''k''), cr_ed25519 = (\<lambda>x s i. s = ''sig''), cr_lowercase = (\<lambda>s. s)\<rparr>"

definition sample_config :: signin_config where
  "sample_config = \<lparr>sf_issuer_url = ''i'', sf_jwks_url = ''u'', sf_site_id = ''s'', sf_environment = ''staging'',
     sf_skew_seconds = 30, sf_max_lifetime_seconds = 60, sf_max_token_bytes = 4096\<rparr>"

definition sample_token :: string where
  "sample_token = with_quotes (''{~alg~:~EdDSA~,~typ~:~JWT~,~kid~:~k~}.{~iss~:~i~,~aud~:~s~,~env~:~staging~,~sub~:~e~,~email~:~e~,'' @
     ''~email_verified~:true,~nonce~:~n~,~iat~:100,~nbf~:100,~exp~:150,~jti~:~j~}.sig'')"

definition sample_jwks :: string where
  "sample_jwks = with_quotes ''{~keys~:[{~kty~:~OKP~,~crv~:~Ed25519~,~x~:~abcdefghijklmnopqrstuvwxyz012345~}]}''"

definition sample_fetcher :: "unit fetcher" where
  "sample_fetcher = \<lparr>ft_fetch = (\<lambda>n. (Some sample_jwks, n)), ft_ttl_hint = (\<lambda>_. None)\<rparr>"

definition sample_verifier :: "(cache_state \<times> unit) verifier" where
  "sample_verifier = \<lparr>vf_config = sample_config, vf_crypto = sample_crypto, vf_compare = (=),
     vf_key_for = cache_keys sample_crypto sample_fetcher default_timing\<rparr>"

definition sample_request :: signin_request where
  "sample_request = \<lparr>sr_token = Some sample_token, sr_state = Some ''t'', sr_cookie = Some \<lparr>sc_nonce = ''n'', sc_state = ''t''\<rparr>\<rparr>"

definition sample_state :: "(cache_state \<times> unit) verifier_state" where
  "sample_state = \<lparr>vs_keys = (empty_cache, ()), vs_jti = new_jti_store 10\<rparr>"

lemma sample_accepted: "\<exists>claims st'. run_checks sample_verifier sample_request 120 sample_state = (Inr claims, st')"
proof -
  have "is_ok (fst (run_checks sample_verifier sample_request 120 sample_state))" by code_simp
  then show ?thesis
    by (cases "run_checks sample_verifier sample_request 120 sample_state"; cases "fst (run_checks sample_verifier sample_request 120 sample_state)")
      (auto simp: is_ok_def)
qed

theorem accepted_exactly_when_checks_hold_witness: "acceptable sample_verifier sample_request 120 sample_state"
proof -
  have "fits64 120" "fits64 (sf_skew_seconds (vf_config sample_verifier))" "fits64 (sf_max_lifetime_seconds (vf_config sample_verifier))"
    by (simp_all add: fits64_def I64_MIN_def I64_MAX_def sample_verifier_def sample_config_def)
  from accepted_exactly_when_checks_hold [OF this, of sample_request sample_state] sample_accepted show ?thesis by blast
qed

section \<open>A token is accepted once\<close>

lemma remembered_beyond:
  assumes "fits64 now" "now < I64_MAX" "fits64 (sf_skew_seconds config)" "check_times config claims now = Inr u"
  shows "now < remembered_until config claims"
proof -
  from assms(4) obtain e where e: "integer_claim claims ''exp'' = Some e" "\<not> e \<le> sat128 (now - sf_skew_seconds config)"
    by (auto simp: check_times_def Let_def split: option.splits if_splits)
  then have "now < e + sf_skew_seconds config" using sat128_in_range [OF assms(1,3)] by simp
  with assms(1,2) e(1) show ?thesis
    by (auto simp: remembered_until_def sat128_def clamp_i64_def fits64_def I64_MIN_def I64_MAX_def I128_MIN_def I128_MAX_def)
qed

lemma unforgotten_iff: "(j, r) \<in> set (unforgotten now seen) \<longleftrightarrow> (j, r) \<in> set seen \<and> now < r"
  by (auto simp: unforgotten_def)

text \<open>What is kept of the spent identifiers over one run of the checks: all that have not run out.\<close>

lemma run_checks_keeps:
  assumes "(j, r) \<in> set (js_seen (vs_jti st))" "now < r"
  shows "(j, r) \<in> set (js_seen (vs_jti (snd (run_checks v request now st))))"
  using assms unfolding run_checks_def spend_jti_def claim_jti_def
  by (auto simp: Let_def unforgotten_iff split: sum.splits prod.splits option.splits if_splits)

fun run_signins :: "'k verifier \<Rightarrow> (signin_request \<times> int) list \<Rightarrow> 'k verifier_state \<Rightarrow> (reason, verified_claims) result list \<times> 'k verifier_state" where
  "run_signins v [] st = ([], st)"
| "run_signins v ((request, now) # rs) st =
     (let (r, st) = run_checks v request now st; (results, st) = run_signins v rs st in (r # results, st))"

definition accepted_tokens :: "(signin_request \<times> int) list \<Rightarrow> (reason, verified_claims) result list \<Rightarrow> string list" where
  "accepted_tokens rs results =
     List.map_filter (\<lambda>((request, now), r). if is_ok r then sr_token request else None) (zip rs results)"

definition spent :: "'k verifier \<Rightarrow> jti_store \<Rightarrow> int \<Rightarrow> string \<Rightarrow> bool" where
  "spent v store now token \<longleftrightarrow>
     (\<exists>jws jti. parse_compact (vf_crypto v) token (sf_max_token_bytes (vf_config v)) = Inr jws \<and>
        get_str (jw_claims jws) ''jti'' = Some jti \<and>
        (remembered_until (vf_config v) (jw_claims jws) \<le> now \<or>
         (jti, remembered_until (vf_config v) (jw_claims jws)) \<in> set (js_seen store)))"

lemma spent_stays:
  assumes "spent v (vs_jti st) now token" "now \<le> now'"
  shows "spent v (vs_jti (snd (run_checks v request now' st))) now' token"
proof -
  from assms(1) obtain jws jti where t: "parse_compact (vf_crypto v) token (sf_max_token_bytes (vf_config v)) = Inr jws"
    "get_str (jw_claims jws) ''jti'' = Some jti"
    and where_it_is: "remembered_until (vf_config v) (jw_claims jws) \<le> now \<or>
         (jti, remembered_until (vf_config v) (jw_claims jws)) \<in> set (js_seen (vs_jti st))"
    unfolding spent_def by blast
  have "remembered_until (vf_config v) (jw_claims jws) \<le> now' \<or>
      (jti, remembered_until (vf_config v) (jw_claims jws)) \<in> set (js_seen (vs_jti (snd (run_checks v request now' st))))"
    using where_it_is assms(2) run_checks_keeps [of jti "remembered_until (vf_config v) (jw_claims jws)" st now' v request]
    by linarith
  with t show ?thesis unfolding spent_def by blast
qed

lemma accepted_was_unspent:
  assumes "run_checks v request now st = (Inr claims, st')" "sr_token request = Some token"
    and "fits64 now" "now < I64_MAX" "fits64 (sf_skew_seconds (vf_config v))"
  shows "\<not> spent v (vs_jti st) now token" "spent v (vs_jti st') now token"
proof -
  from assms(1,2) obtain jws jti where
    jws: "parse_compact (vf_crypto v) token (sf_max_token_bytes (vf_config v)) = Inr jws" "get_str (jw_claims jws) ''jti'' = Some jti"
    and times: "check_times (vf_config v) (jw_claims jws) now = Inr ()"
    and fresh: "jti \<notin> fst ` set (unforgotten now (js_seen (vs_jti st)))"
    and st': "js_seen (vs_jti st') = unforgotten now (js_seen (vs_jti st)) @ [(jti, remembered_until (vf_config v) (jw_claims jws))]"
    unfolding run_checks_passes genuine_def token_passes spend_passes by fastforce
  have beyond: "now < remembered_until (vf_config v) (jw_claims jws)" by (rule remembered_beyond [OF assms(3,4,5) times])
  have "(jti, remembered_until (vf_config v) (jw_claims jws)) \<notin> set (js_seen (vs_jti st))"
    using fresh beyond unforgotten_iff [of jti _ now "js_seen (vs_jti st)"] by (force simp: image_iff)
  with beyond jws show "\<not> spent v (vs_jti st) now token" by (auto simp: spent_def)
  from st' jws show "spent v (vs_jti st') now token" by (auto simp: spent_def)
qed

definition signin_step :: "'k verifier \<Rightarrow> signin_request \<Rightarrow> int \<Rightarrow> 'k verifier_state \<Rightarrow> string option \<times> 'k verifier_state" where
  "signin_step v request now st =
     (case run_checks v request now st of (r, st) \<Rightarrow> (if is_ok r then sr_token request else None, st))"

interpretation signins: single_use "signin_step v" "\<lambda>st. spent v (vs_jti st)"
    "\<lambda>_ now. fits64 now \<and> now < I64_MAX \<and> fits64 (sf_skew_seconds (vf_config v))"
  for v :: "'k verifier"
proof unfold_locales
  fix request now and st st' :: "'k verifier_state" and token
  assume "fits64 now \<and> now < I64_MAX \<and> fits64 (sf_skew_seconds (vf_config v))" "signin_step v request now st = (Some token, st')"
  then show "\<not> spent v (vs_jti st) now token" "spent v (vs_jti st') now token"
    using accepted_was_unspent [of v request now st]
    by (auto simp: signin_step_def is_ok_def split: prod.splits if_splits sum.splits)
next
  fix request now now' and st :: "'k verifier_state" and token
  assume "spent v (vs_jti st) now token" "now \<le> now'"
  then show "spent v (vs_jti (snd (signin_step v request now' st))) now' token" "spent v (vs_jti st) now' token"
    using spent_stays [of v st now token now' request] by (auto simp: signin_step_def spent_def split: prod.splits)
qed

lemma accepted_tokens_spent: "accepted_tokens rs (fst (run_signins v rs st)) = spend_all (signin_step v) rs st"
proof (induction rs arbitrary: st)
  case (Cons p rs)
  obtain request t where p: "p = (request, t)" by (cases p)
  obtain r st' where step: "run_checks v request t st = (r, st')" by fastforce
  show ?case using Cons.IH [of st'] p step
    by (simp add: accepted_tokens_def map_filter_simps signin_step_def case_prod_beta Let_def split: option.splits)
qed (simp add: accepted_tokens_def map_filter_simps)

text \<open>
  C28: whatever requests arrive, in the order of a clock that does not go back, and whatever the verifier had
  seen before, no token is accepted twice.
\<close>

theorem token_accepted_at_most_once:
  assumes "sorted (map snd rs)" "list_all (\<lambda>(request, now). fits64 now \<and> now < I64_MAX) rs" "fits64 (sf_skew_seconds (vf_config v))"
  shows "distinct (accepted_tokens rs (fst (run_signins v rs st)))"
  unfolding accepted_tokens_spent using assms by (intro signins.accepted_once) (auto simp: list_all_iff)

theorem token_accepted_at_most_once_witness:
  "distinct (accepted_tokens [(sample_request, 120), (sample_request, 121)]
     (fst (run_signins sample_verifier [(sample_request, 120), (sample_request, 121)] sample_state)))"
  by (rule token_accepted_at_most_once)
    (simp_all add: fits64_def I64_MIN_def I64_MAX_def sample_verifier_def sample_config_def)

text \<open>
  An identifier enters the record only when its bearer's request passed every check before the spending:
  a request that fails an earlier check cannot burn a token.
\<close>

theorem identifier_spent_by_its_bearer:
  assumes "run_checks v request now st = (r, st')"
    and "(jti, until) \<in> set (js_seen (vs_jti st'))" "(jti, until) \<notin> set (js_seen (vs_jti st))"
  shows "\<exists>cookie jws keys. genuine v request now (vs_keys st) cookie jws keys \<and> get_str (jw_claims jws) ''jti'' = Some jti"
  using assms unfolding run_checks_def genuine_def spend_jti_def claim_jti_def
  by (auto simp: Let_def unforgotten_iff rbind_def split: sum.splits prod.splits option.splits if_splits)

theorem identifier_spent_by_its_bearer_witness:
  "\<exists>cookie jws keys. genuine sample_verifier sample_request 120 (vs_keys sample_state) cookie jws keys \<and>
     get_str (jw_claims jws) ''jti'' = Some ''j''"
proof (rule identifier_spent_by_its_bearer [OF surjective_pairing])
  show "(''j'', 180) \<in> set (js_seen (vs_jti (snd (run_checks sample_verifier sample_request 120 sample_state))))" by code_simp
  show "(''j'', 180) \<notin> set (js_seen (vs_jti sample_state))" by (simp add: sample_state_def new_jti_store_def)
qed

section \<open>Room for identifiers\<close>

definition store_ok :: "jti_store \<Rightarrow> bool" where
  "store_ok st \<longleftrightarrow> distinct (map fst (js_seen st)) \<and> length (js_seen st) \<le> js_max_entries st"

lemma claim_ok:
  assumes "store_ok st"
  shows "store_ok (snd (claim_jti jti expires_at now st))"
proof -
  have kept: "distinct (map fst (unforgotten now (js_seen st)))" "length (unforgotten now (js_seen st)) \<le> js_max_entries st"
    using assms le_trans [OF length_filter_le] by (auto simp: store_ok_def unforgotten_def distinct_map_filter)
  then show ?thesis by (auto simp: claim_jti_def store_ok_def Let_def)
qed

lemma spend_ok: "store_ok st \<Longrightarrow> store_ok (snd (spend_jti config claims now st))"
  using claim_ok by (auto simp: spend_jti_def split: option.splits prod.splits) (metis snd_conv)+

lemma run_checks_store_ok:
  assumes "store_ok (vs_jti st)"
  shows "store_ok (vs_jti (snd (run_checks v request now st)))"
  using assms spend_ok [OF assms] unfolding run_checks_def
  by (auto simp: Let_def split: sum.splits prod.splits) (metis snd_conv)+

section \<open>Keys named by their own thumbprint\<close>

text \<open>A source of keys hands out, for an identifier, only a key that has this identifier.\<close>

locale key_source =
  fixes lookup :: "string \<Rightarrow> int \<Rightarrow> 'k \<Rightarrow> verifying_key option \<times> 'k"
    and name_of :: "verifying_key \<Rightarrow> string"
    and sound :: "'k \<Rightarrow> bool"
  assumes lookup_sound: "sound keys \<Longrightarrow> lookup kid now keys = (found, keys') \<Longrightarrow> sound keys'"
    and lookup_named: "sound keys \<Longrightarrow> lookup kid now keys = (Some key, keys') \<Longrightarrow> name_of key = kid"
begin

lemma signed_by_named_key:
  assumes "vf_key_for v = lookup" "sound keys" "check_signature v jws now keys = (Inr u, keys')"
  shows "\<exists>key. get_str (jw_header jws) ''kid'' = Some (name_of key) \<and> signature_verifies (vf_crypto v) key jws"
  using assms lookup_named unfolding signature_passes by metis

lemma run_checks_sound:
  assumes "vf_key_for v = lookup" "sound (vs_keys st)"
  shows "sound (vs_keys (snd (run_checks v request now st)))"
proof -
  have "sound keys'" if "check_signature v jws now (vs_keys st) = (r, keys')" for jws r keys'
    using that assms lookup_sound unfolding check_signature_def
    by (auto split: if_splits option.splits prod.splits)
  then show ?thesis
    using assms(2) unfolding run_checks_def by (auto simp: Let_def split: sum.splits prod.splits)
qed

end

definition named_keys :: "crypto \<Rightarrow> (string \<rightharpoonup> verifying_key) \<Rightarrow> bool" where
  "named_keys cr keys \<longleftrightarrow> (\<forall>kid key. keys kid = Some key \<longrightarrow> thumbprint cr key = kid)"

lemma collect_keys_named: "named_keys cr (pk_keys parsed) \<Longrightarrow> named_keys cr (pk_keys (collect_keys cr es parsed))"
proof (induction cr es parsed rule: collect_keys.induct)
  case (2 cr e es parsed)
  from "2.prems" have "named_keys cr (pk_keys (case key_from_entry cr e of
      Inr key \<Rightarrow> parsed\<lparr>pk_keys := (pk_keys parsed)(thumbprint cr key \<mapsto> key)\<rparr>
    | Inl refusal \<Rightarrow> parsed\<lparr>pk_refused := pk_refused parsed @ [refusal]\<rparr>))"
    by (cases "key_from_entry cr e") (simp_all add: named_keys_def)
  from "2.IH" [OF this] show ?case by simp
qed simp

lemma parse_jwks_named: "parse_jwks cr body = Some parsed \<Longrightarrow> named_keys cr (pk_keys parsed)"
proof -
  assume "parse_jwks cr body = Some parsed"
  then obtain document where "(case get_member document ''keys'' of
      Some (SJ_Array es) \<Rightarrow> Some (collect_keys cr es \<lparr>pk_keys = Map.empty, pk_refused = []\<rparr>) | _ \<Rightarrow> None) = Some parsed"
    by (auto simp: parse_jwks_def bind_eq_Some_conv)
  then obtain es where "parsed = collect_keys cr es \<lparr>pk_keys = Map.empty, pk_refused = []\<rparr>"
    by (cases "get_member document ''keys''") (auto split: sjson.splits)
  moreover have "named_keys cr (pk_keys \<lparr>pk_keys = Map.empty, pk_refused = []\<rparr>)" by (simp add: named_keys_def)
  ultimately show ?thesis using collect_keys_named by blast
qed

lemma refresh_named:
  assumes "named_keys cr (cs_keys (fst world))" "refresh cr fetcher timing now world = Some world'"
  shows "named_keys cr (cs_keys (fst world'))"
  using assms parse_jwks_named [of cr]
  by (auto simp: refresh_def Let_def bind_eq_Some_conv split: prod.splits option.splits)

lemma key_for_cases:
  assumes "key_for cr fetcher timing kid now world = Some (found, world')"
  shows "(if refresh_due timing (fst world) kid now then refresh cr fetcher timing now world = Some world' else world' = world)"
    "found = (if is_stale timing (fst world') now then None else cs_keys (fst world') kid)"
  using assms by (auto simp: key_for_def bind_eq_Some_conv split: if_splits)

interpretation cached: key_source "cache_keys cr fetcher timing" "thumbprint cr" "\<lambda>world. named_keys cr (cs_keys (fst world))"
  for cr :: crypto and fetcher :: "'n fetcher" and timing :: cache_timing
proof
  fix world :: "cache_state \<times> 'n" and kid :: string and now :: int and found world'
  assume named: "named_keys cr (cs_keys (fst world))" and looked: "cache_keys cr fetcher timing kid now world = (found, world')"
  have step: "key_for cr fetcher timing kid now world = Some (found, world') \<or> found = None \<and> world' = world"
    using looked by (auto simp: cache_keys_def split: option.splits)
  show after: "named_keys cr (cs_keys (fst world'))"
    using step named key_for_cases(1) refresh_named by metis
  fix key
  assume "cache_keys cr fetcher timing kid now world = (Some key, world')"
  with looked step have "cs_keys (fst world') kid = Some key" by (auto dest!: key_for_cases(2) split: if_splits)
  with after show "thumbprint cr key = kid" by (simp add: named_keys_def)
qed

text \<open>
  C29: over the cache of the issuer's key set, an accepted token is signed by a key whose own thumbprint is the
  identifier the token's header names, whatever identifiers the key set document claimed for its keys.
\<close>

theorem accepted_under_named_key:
  assumes "vf_key_for v = cache_keys cr fetcher timing" "vs_keys st = (empty_cache, net)"
    and "fst (run_signins v rs st) ! i = Inr claims" "i < length rs"
  shows "\<exists>token jws key. sr_token (fst (rs ! i)) = Some token \<and>
    parse_compact (vf_crypto v) token (sf_max_token_bytes (vf_config v)) = Inr jws \<and>
    get_str (jw_header jws) ''kid'' = Some (thumbprint cr key) \<and> signature_verifies (vf_crypto v) key jws"
proof -
  have "named_keys cr (cs_keys (fst (vs_keys st)))" by (simp add: assms(2) empty_cache_def named_keys_def)
  then show ?thesis
    using assms(1,3,4)
  proof (induction rs arbitrary: st i)
    case (Cons a rs)
    obtain request t where a: "a = (request, t)" by (cases a)
    obtain r st' where step: "run_checks v request t st = (r, st')" by fastforce
    have sound: "named_keys cr (cs_keys (fst (vs_keys st')))"
      using cached.run_checks_sound [OF Cons.prems(2,1), of request t] step by simp
    show ?case
    proof (cases i)
      case 0
      with Cons.prems(3) a step have "run_checks v request t st = (Inr claims, st')" by (simp split: prod.splits)
      then obtain cookie jws keys where g: "genuine v request t (vs_keys st) cookie jws keys" by (auto simp: run_checks_passes)
      then have "check_signature v jws t (vs_keys st) = (Inr (), keys)" by (simp add: genuine_def)
      from cached.signed_by_named_key [OF Cons.prems(2,1) this] g 0 a show ?thesis
        by (auto simp: genuine_def token_passes)
    next
      case (Suc k)
      with Cons.prems(3) a step have "fst (run_signins v rs st') ! k = Inr claims" by (auto split: prod.splits)
      with Cons.IH [OF sound Cons.prems(2), of k] Cons.prems(4) Suc show ?thesis by simp
    qed
  qed simp
qed

theorem accepted_under_named_key_witness:
  "\<exists>token jws key. sr_token sample_request = Some token \<and>
     parse_compact (vf_crypto sample_verifier) token (sf_max_token_bytes (vf_config sample_verifier)) = Inr jws \<and>
     get_str (jw_header jws) ''kid'' = Some (thumbprint sample_crypto key) \<and>
     signature_verifies (vf_crypto sample_verifier) key jws"
proof -
  obtain claims st' where "run_checks sample_verifier sample_request 120 sample_state = (Inr claims, st')"
    using sample_accepted by blast
  then have "fst (run_signins sample_verifier [(sample_request, 120)] sample_state) ! 0 = Inr claims" by simp
  from accepted_under_named_key [OF _ _ this, of sample_crypto sample_fetcher default_timing "()"] show ?thesis
    by (simp add: sample_verifier_def sample_state_def)
qed

section \<open>How often the key set is fetched\<close>

fun fetch_times ::
    "crypto \<Rightarrow> 'n fetcher \<Rightarrow> cache_timing \<Rightarrow> (string \<times> int) list \<Rightarrow> cache_state \<times> 'n \<Rightarrow> int list" where
  "fetch_times cr fetcher timing [] world = []"
| "fetch_times cr fetcher timing ((kid, now) # rs) world =
     (if refresh_due timing (fst world) kid now then [now] else []) @
     (case key_for cr fetcher timing kid now world of
        None \<Rightarrow> []
      | Some (found, world) \<Rightarrow> fetch_times cr fetcher timing rs world)"

lemma sat_sub64_le: "fits64 a \<Longrightarrow> fits64 b \<Longrightarrow> a \<le> b \<Longrightarrow> sat_sub64 b a \<le> b - a"
  by (simp add: sat_sub64_def clamp_i64_def fits64_def I64_MIN_def I64_MAX_def)

lemma refresh_attempted: "refresh cr fetcher timing now world = Some world' \<Longrightarrow> cs_attempted_at (fst world') = Some now"
  by (auto simp: refresh_def Let_def split: prod.splits option.splits)

lemma key_for_attempted:
  assumes "key_for cr fetcher timing kid now world = Some (found, world')"
  shows "cs_attempted_at (fst world') = (if refresh_due timing (fst world) kid now then Some now else cs_attempted_at (fst world))"
  using key_for_cases(1) [OF assms] refresh_attempted [of cr fetcher timing now world world'] by (auto split: if_splits)

lemma spaced_before:
  "sorted_wrt (\<lambda>a b. gap \<le> b - a) (t # ts) \<Longrightarrow> s \<le> t \<Longrightarrow> gap \<le> t - s \<Longrightarrow> sorted_wrt (\<lambda>a b. gap \<le> b - a) (s # t # (ts :: int list))"
  by force

lemma fetches_after:
  assumes "cs_attempted_at (fst world) = Some tried" "sorted (tried # map snd rs)" "list_all fits64 (tried # map snd rs)"
  shows "sorted_wrt (\<lambda>a b. ct_min_refetch_seconds timing \<le> b - a) (tried # fetch_times cr fetcher timing rs world)"
  using assms
proof (induction rs arbitrary: world tried)
  case (Cons a rs)
  obtain kid now where a: "a = (kid, now)" by (cases a)
  let ?later = "case key_for cr fetcher timing kid now world of None \<Rightarrow> [] | Some (found, world) \<Rightarrow> fetch_times cr fetcher timing rs world"
  have "sorted_wrt (\<lambda>a b. ct_min_refetch_seconds timing \<le> b - a) (t # ?later)"
    if "t = (if refresh_due timing (fst world) kid now then now else tried)" for t
  proof (cases "key_for cr fetcher timing kid now world")
    case (Some out)
    obtain found world' where out: "out = (found, world')" by (cases out)
    have "cs_attempted_at (fst world') = Some t"
      using key_for_attempted [of cr fetcher timing kid now world found world'] Some out that Cons.prems(1) by simp
    moreover have "sorted (t # map snd rs)" "list_all fits64 (t # map snd rs)" using Cons.prems(2,3) a that by auto
    ultimately show ?thesis using Cons.IH [of world' t] Some out by simp
  qed simp
  note later = this
  show ?case
  proof (cases "refresh_due timing (fst world) kid now")
    case True
    have "tried \<le> now" using Cons.prems(2) a by simp
    moreover from this True have "ct_min_refetch_seconds timing \<le> now - tried"
      using Cons.prems(1,3) a sat_sub64_le [of tried now] by (auto simp: refresh_due_def)
    ultimately show ?thesis using spaced_before [OF later [OF refl]] True a by simp
  qed (use later a in simp)
qed simp

text \<open>
  C30: however many identifiers are asked for, known or not, while the clock does not go back, any two fetches of
  the key set are at least the least interval apart.
\<close>

theorem key_set_fetches_spaced:
  assumes "sorted (map snd rs)" "list_all fits64 (map snd rs)"
  shows "sorted_wrt (\<lambda>a b. ct_min_refetch_seconds timing \<le> b - a) (fetch_times cr fetcher timing rs (empty_cache, net))"
proof (cases rs)
  case (Cons a rs')
  obtain kid now where a: "a = (kid, now)" by (cases a)
  have due: "refresh_due timing (fst (empty_cache, net)) kid now" by (simp add: refresh_due_def empty_cache_def)
  show ?thesis
  proof (cases "key_for cr fetcher timing kid now (empty_cache, net)")
    case None
    with Cons a due show ?thesis by simp
  next
    case (Some out)
    obtain found world where out: "out = (found, world)" by (cases out)
    have "cs_attempted_at (fst world) = Some now" using key_for_attempted [of cr fetcher timing kid now "(empty_cache, net)" found world] Some out due by simp
    from fetches_after [OF this, where rs = rs'] assms Cons a due Some out show ?thesis by simp
  qed
qed simp

theorem key_set_fetches_spaced_witness:
  "sorted_wrt (\<lambda>a b. 30 \<le> b - a)
     (fetch_times sample_crypto sample_fetcher default_timing [(''k'', 100), (''z'', 110), (''y'', 140)] (empty_cache, ()))"
  using key_set_fetches_spaced [of "[(''k'', 100), (''z'', 110), (''y'', 140)]" default_timing sample_crypto sample_fetcher "()"]
  by (simp add: fits64_def I64_MIN_def I64_MAX_def default_timing_def DEFAULT_MIN_REFETCH_SECONDS_def)

end
