(* ===== verification/Serde_Value.thy ===== *)
theory Serde_Value
  imports Text_Ops
begin

text \<open>
  The JSON values the host works on: \<open>serde_json::Value\<close> with the features \<open>preserve_order\<close> and
  \<open>arbitrary_precision\<close>, as the host's \<open>Cargo.toml\<close> asks for them. An object is a list of members in insertion
  order, a number is its text. Only the operations the modelled files use are here.
\<close>

datatype svalue =
    SV_Null
  | SV_Bool bool
  | SV_Number string
  | SV_String string
  | SV_Array "svalue list"
  | SV_Object "(string \<times> svalue) list"

fun sv_get :: "svalue \<Rightarrow> string \<Rightarrow> svalue option" where
  "sv_get (SV_Object fields) key = map_of fields key"
| "sv_get _ key = None"

fun sv_as_str :: "svalue \<Rightarrow> string option" where
  "sv_as_str (SV_String s) = Some s"
| "sv_as_str _ = None"

fun sv_as_bool :: "svalue \<Rightarrow> bool option" where
  "sv_as_bool (SV_Bool b) = Some b"
| "sv_as_bool _ = None"

fun sv_as_array :: "svalue \<Rightarrow> svalue list option" where
  "sv_as_array (SV_Array vs) = Some vs"
| "sv_as_array _ = None"

definition U64_LIMIT :: int where "U64_LIMIT = 2 ^ 64"

fun sv_as_u64 :: "svalue \<Rightarrow> int option" where
  "sv_as_u64 (SV_Number digits) =
     Option.bind (parse_digits digits) (\<lambda>n. if n < U64_LIMIT then Some n else None)"
| "sv_as_u64 _ = None"

text \<open>\<open>Map::insert\<close> keeps the place of a key that is there; \<open>Map::remove\<close> moves the last member into the gap.\<close>

fun sv_insert :: "string \<Rightarrow> svalue \<Rightarrow> (string \<times> svalue) list \<Rightarrow> (string \<times> svalue) list" where
  "sv_insert key v [] = [(key, v)]"
| "sv_insert key v ((k, w) # fields) = (if k = key then (k, v) # fields else (k, w) # sv_insert key v fields)"

fun sv_swap_remove :: "string \<Rightarrow> (string \<times> svalue) list \<Rightarrow> (string \<times> svalue) list" where
  "sv_swap_remove key [] = []"
| "sv_swap_remove key ((k, w) # fields) =
     (if k = key then (if fields = [] then [] else last fields # butlast fields)
      else (k, w) # sv_swap_remove key fields)"

text \<open>\<open>v[key] = x\<close>: null becomes an object first, any other value that is no object panics (\<open>None\<close>).\<close>

fun sv_set :: "svalue \<Rightarrow> string \<Rightarrow> svalue \<Rightarrow> svalue option" where
  "sv_set SV_Null key x = Some (SV_Object [(key, x)])"
| "sv_set (SV_Object fields) key x = Some (SV_Object (sv_insert key x fields))"
| "sv_set _ key x = None"

text \<open>\<open>if let Some(fields) = v.as_object_mut() { fields.remove(key); }\<close>\<close>

fun sv_remove :: "svalue \<Rightarrow> string \<Rightarrow> svalue" where
  "sv_remove (SV_Object fields) key = SV_Object (sv_swap_remove key fields)"
| "sv_remove v key = v"

text \<open>Well-formed values, as a map of members allows no key twice.\<close>

fun sv_wf :: "svalue \<Rightarrow> bool" where
  "sv_wf (SV_Object fields) = (distinct (map fst fields) \<and> list_all (\<lambda>(_, v). sv_wf v) fields)"
| "sv_wf (SV_Array vs) = list_all sv_wf vs"
| "sv_wf _ = True"

lemma sv_as_Some [simp]:
  "sv_as_str v = Some s \<longleftrightarrow> v = SV_String s" "sv_as_bool v = Some b \<longleftrightarrow> v = SV_Bool b" "sv_as_array v = Some vs \<longleftrightarrow> v = SV_Array vs"
  by (cases v; auto)+

lemma map_of_sv_insert [simp]: "map_of (sv_insert key v fields) = (map_of fields)(key \<mapsto> v)"
  by (induction key v fields rule: sv_insert.induct) auto

lemma keys_sv_insert: "fst ` set (sv_insert key v fields) = insert key (fst ` set fields)"
  by (induction key v fields rule: sv_insert.induct) auto

lemma distinct_sv_insert: "distinct (map fst fields) \<Longrightarrow> distinct (map fst (sv_insert key v fields))"
  by (induction key v fields rule: sv_insert.induct) (auto simp: keys_sv_insert)

lemma members_sv_insert: "list_all P fields \<Longrightarrow> P (key, v) \<Longrightarrow> (\<And>k w. P (k, w) \<Longrightarrow> P (k, v)) \<Longrightarrow> list_all P (sv_insert key v fields)"
  by (induction key v fields rule: sv_insert.induct) auto

lemma sv_swap_remove_set: "distinct (map fst fields) \<Longrightarrow> set (sv_swap_remove key fields) = {(k, v) \<in> set fields. k \<noteq> key}"
proof (induction key fields rule: sv_swap_remove.induct)
  case (2 key k w fields)
  have "set (last fields # butlast fields) = set fields" if "fields \<noteq> []"
    using that by (cases fields rule: rev_cases) auto
  with 2 show ?case by (auto simp: image_iff)
qed simp

lemma distinct_sv_swap_remove: "distinct (map fst fields) \<Longrightarrow> distinct (map fst (sv_swap_remove key fields))"
proof (induction key fields rule: sv_swap_remove.induct)
  case (2 key k w fields)
  have "distinct (map fst (last fields # butlast fields))" if "fields \<noteq> []"
    using that 2 by (cases fields rule: rev_cases) auto
  with 2 show ?case by (auto simp: image_iff sv_swap_remove_set)
qed simp

lemma sv_get_set: "sv_set v key x = Some v' \<Longrightarrow> sv_get v' k = (if k = key then Some x else sv_get v k)"
  by (cases "(v, key, x)" rule: sv_set.cases) auto

lemma sv_set_wf: "sv_set v key x = Some v' \<Longrightarrow> sv_wf v \<Longrightarrow> sv_wf x \<Longrightarrow> sv_wf v'"
  by (cases "(v, key, x)" rule: sv_set.cases) (auto simp: distinct_sv_insert intro!: members_sv_insert)

lemma sv_get_remove: "sv_wf v \<Longrightarrow> sv_get (sv_remove v key) k = (if k = key then None else sv_get v k)"
proof (cases v)
  case (SV_Object fields)
  moreover assume "sv_wf v"
  ultimately have d: "distinct (map fst fields)" by simp
  have "map_of (sv_swap_remove key fields) k = (if k = key then None else map_of fields k)"
  proof (cases "\<exists>w. (k, w) \<in> set fields \<and> k \<noteq> key")
    case True
    then obtain w where "(k, w) \<in> set fields" "k \<noteq> key" by blast
    with d show ?thesis by (simp add: distinct_sv_swap_remove sv_swap_remove_set)
  next
    case False
    with d have "map_of (sv_swap_remove key fields) k = None" "k \<noteq> key \<longrightarrow> map_of fields k = None"
      by (auto simp: map_of_eq_None_iff sv_swap_remove_set image_iff)
    then show ?thesis by simp
  qed
  with SV_Object show ?thesis by simp
qed auto

lemma sv_remove_wf: "sv_wf v \<Longrightarrow> sv_wf (sv_remove v key)"
  by (cases v) (auto simp: distinct_sv_swap_remove sv_swap_remove_set list_all_iff)

end
