(* ===== verification/Host_Needs.thy ===== *)
theory Host_Needs
  imports Serde_Value
begin

text \<open>
  The facts a command or query needs, as the host answers them before the kernel runs:
  \<open>rust/host/core/src/needs.rs\<close>. A domain's intermediate representation is a JSON value; the clock is the
  number of seconds it answers.
\<close>

definition sv_list :: "svalue \<Rightarrow> string \<Rightarrow> svalue list" where
  "sv_list v key = (case Option.bind (sv_get v key) sv_as_array of Some vs \<Rightarrow> vs | None \<Rightarrow> [])"

definition sv_str :: "svalue \<Rightarrow> string \<Rightarrow> string option" where
  "sv_str v key = Option.bind (sv_get v key) sv_as_str"

definition str_or_empty :: "string option \<Rightarrow> string" where
  "str_or_empty s = (case s of Some s \<Rightarrow> s | None \<Rightarrow> [])"

definition ir_named :: "svalue \<Rightarrow> string \<Rightarrow> bool" where
  "ir_named v name \<longleftrightarrow> sv_str v ''name'' = Some name"

text \<open>\<open>s.rsplit("::").next()\<close>\<close>

definition last_segment :: "string \<Rightarrow> string" where
  "last_segment s = (case rsplit_once ''::'' s of Some (_, b) \<Rightarrow> b | None \<Rightarrow> s)"

type_synonym declared_need = "string \<times> string option"

definition attribute_type :: "svalue list \<Rightarrow> string \<Rightarrow> string option" where
  "attribute_type attributes need = Option.bind (List.find (\<lambda>a. ir_named a need) attributes) (\<lambda>a. sv_str a ''type'')"

definition needs_of :: "svalue \<Rightarrow> declared_need list" where
  "needs_of node =
     map (\<lambda>need. (need, attribute_type (sv_list node ''attributes'') need))
       (List.map_filter (\<lambda>n. sv_str n ''fact'') (sv_list node ''needs''))"

definition declared_needs :: "svalue \<Rightarrow> string \<Rightarrow> declared_need list" where
  "declared_needs domain_ir verb =
     (case rsplit_once ''.'' verb of
        None \<Rightarrow> []
      | Some (qualified_aggregate, command_name) \<Rightarrow>
          let aggregates = filter (\<lambda>a. ir_named a (last_segment qualified_aggregate)) (sv_list domain_ir ''aggregates'');
              commands = filter (\<lambda>c. ir_named c command_name) (concat (map (\<lambda>a. sv_list a ''commands'') aggregates))
          in concat (map needs_of commands))"

definition need_entry :: "declared_need \<Rightarrow> svalue" where
  "need_entry n = SV_Object [(''fact'', SV_String (fst n)), (''type'', SV_String (str_or_empty (snd n)))]"

definition needs_table :: "svalue \<Rightarrow> svalue" where
  "needs_table domain_ir =
     (let domain = str_or_empty (sv_str domain_ir ''name'');
          verbs = concat (map (\<lambda>a. map (\<lambda>c. domain @ ''::'' @ str_or_empty (sv_str a ''name'') @ ''.'' @ str_or_empty (sv_str c ''name''))
                                   (sv_list a ''commands'')) (sv_list domain_ir ''aggregates''));
          add = (\<lambda>fields verb. let needs = declared_needs domain_ir verb
                  in if needs = [] then fields else sv_insert verb (SV_Array (map need_entry needs)) fields)
      in SV_Object (foldl add [] verbs))"

text \<open>The command a verb names, on an aggregate or on an entity nested in it.\<close>

fun entity_node :: "svalue \<Rightarrow> string list \<Rightarrow> svalue option" where
  "entity_node node [] = Some node"
| "entity_node node (entity # path) =
     Option.bind (List.find (\<lambda>e. ir_named e entity) (sv_list node ''entities'')) (\<lambda>node. entity_node node path)"

definition command_for :: "svalue \<Rightarrow> string \<Rightarrow> svalue option" where
  "command_for domain_ir verb =
     (case split_str ''.'' verb of
        [] \<Rightarrow> None
      | first # segments \<Rightarrow>
          if segments = [] then None
          else Option.bind (List.find (\<lambda>a. ir_named a (last_segment first)) (sv_list domain_ir ''aggregates'')) (\<lambda>node.
               Option.bind (entity_node node (butlast segments)) (\<lambda>node.
                 List.find (\<lambda>c. ir_named c (last segments)) (sv_list node ''commands''))))"

definition declared_default :: "svalue \<Rightarrow> (string \<times> svalue) option" where
  "declared_default a =
     (case sv_get a ''default'' of
        Some d \<Rightarrow> if d = SV_Null then None else map_option (\<lambda>name. (name, d)) (sv_str a ''name'')
      | None \<Rightarrow> None)"

definition declared_defaults :: "svalue \<Rightarrow> string \<Rightarrow> (string \<times> svalue) list" where
  "declared_defaults domain_ir verb =
     (case command_for domain_ir verb of
        None \<Rightarrow> []
      | Some command \<Rightarrow> List.map_filter declared_default (sv_list command ''attributes''))"

definition add_defaults :: "svalue \<Rightarrow> string \<Rightarrow> svalue list \<Rightarrow> (string \<times> svalue) list \<Rightarrow> (string \<times> svalue) list" where
  "add_defaults domain_ir prefix commands verbs =
     foldl (\<lambda>verbs command.
       let verb = prefix @ ''.'' @ str_or_empty (sv_str command ''name'');
           defaults = foldl (\<lambda>fields (name, v). sv_insert name v fields) [] (declared_defaults domain_ir verb)
       in if defaults = [] then verbs else sv_insert verb (SV_Object defaults) verbs) verbs commands"

lemma map_of_size: "map_of fields key = Some v \<Longrightarrow> size v < size (SV_Object fields)"
  by (induction fields) (auto split: if_splits)

lemma sv_list_size: "x \<in> set (sv_list v key) \<Longrightarrow> size x < size v"
proof -
  assume "x \<in> set (sv_list v key)"
  then obtain fields vs where "v = SV_Object fields" "map_of fields key = Some (SV_Array vs)" "x \<in> set vs"
    by (cases v) (auto simp: sv_list_def split: option.splits dest: sym simp: bind_eq_Some_conv)
  with map_of_size [of fields key "SV_Array vs"] show ?thesis
    using size_list_estimation' [of x vs "size x" size] by fastforce
qed

function collect_defaults :: "svalue \<Rightarrow> svalue \<Rightarrow> string \<Rightarrow> (string \<times> svalue) list \<Rightarrow> (string \<times> svalue) list" where
  "collect_defaults domain_ir node prefix verbs =
     foldl (\<lambda>verbs entity. collect_defaults domain_ir entity (prefix @ ''.'' @ str_or_empty (sv_str entity ''name'')) verbs)
       (add_defaults domain_ir prefix (sv_list node ''commands'') verbs) (sv_list node ''entities'')"
  by pat_completeness auto
termination
  by (relation "measure (\<lambda>(_, node, _, _). size node)") (auto simp: sv_list_size)

definition defaults_table :: "svalue \<Rightarrow> svalue" where
  "defaults_table domain_ir =
     (let domain = str_or_empty (sv_str domain_ir ''name'')
      in SV_Object (foldl (\<lambda>verbs aggregate.
           collect_defaults domain_ir aggregate (domain @ ''::'' @ str_or_empty (sv_str aggregate ''name'')) verbs)
           [] (sv_list domain_ir ''aggregates'')))"

text \<open>\<open>facts_mut\<close> and a change made through it: the \<open>with\<close> object of an invocation, or the flat object itself.\<close>

definition change_facts :: "((string \<times> svalue) list \<Rightarrow> (string \<times> svalue) list) \<Rightarrow> svalue \<Rightarrow> svalue" where
  "change_facts f args =
     (case args of
        SV_Object fields \<Rightarrow>
          (case map_of fields ''with'' of
             Some (SV_Object facts) \<Rightarrow> SV_Object (sv_insert ''with'' (SV_Object (f facts)) fields)
           | _ \<Rightarrow> SV_Object (f fields))
      | _ \<Rightarrow> args)"

definition answer_fact :: "string \<Rightarrow> string option \<Rightarrow> int \<Rightarrow> svalue option" where
  "answer_fact need ty now =
     (if need = ''now'' \<or> need = ''today'' then
        let answer = SV_Number (show_int (if need = ''today'' then now div 86400 else now))
        in Some (if ty = Some ''Integer'' then answer else SV_Object [(''value'', answer)])
      else None)"

datatype supplied = Kept | Replaced

fun fill_facts_with :: "supplied \<Rightarrow> int \<Rightarrow> declared_need list \<Rightarrow> (string \<times> svalue) list \<Rightarrow> (string \<times> svalue) list" where
  "fill_facts_with given now [] facts = facts"
| "fill_facts_with given now ((need, ty) # needs) facts =
     fill_facts_with given now needs
       (if given = Kept \<and> map_of facts need \<noteq> None then facts
        else case answer_fact need ty now of Some v \<Rightarrow> sv_insert need v facts | None \<Rightarrow> facts)"

definition fill_needs :: "svalue \<Rightarrow> string \<Rightarrow> svalue \<Rightarrow> int \<Rightarrow> svalue" where
  "fill_needs domain_ir verb args now = change_facts (fill_facts_with Kept now (declared_needs domain_ir verb)) args"

definition answer_needs :: "svalue \<Rightarrow> string \<Rightarrow> svalue \<Rightarrow> int \<Rightarrow> svalue" where
  "answer_needs domain_ir verb args now = change_facts (fill_facts_with Replaced now (declared_needs domain_ir verb)) args"

definition declared_query_needs :: "svalue \<Rightarrow> string \<Rightarrow> declared_need list" where
  "declared_query_needs domain_ir question =
     (case rsplit_once ''.'' question of
        None \<Rightarrow> []
      | Some (qualified_aggregate, query_name) \<Rightarrow>
          (case Option.bind (List.find (\<lambda>a. ir_named a (last_segment qualified_aggregate)) (sv_list domain_ir ''aggregates''))
                  (\<lambda>a. List.find (\<lambda>q. ir_named q query_name) (sv_list a ''queries'')) of
             None \<Rightarrow> []
           | Some query \<Rightarrow> needs_of query))"

fun change_object :: "((string \<times> svalue) list \<Rightarrow> (string \<times> svalue) list) \<Rightarrow> svalue \<Rightarrow> svalue" where
  "change_object f (SV_Object fields) = SV_Object (f fields)"
| "change_object f v = v"

definition fill_query_needs :: "svalue \<Rightarrow> string \<Rightarrow> svalue \<Rightarrow> int \<Rightarrow> svalue" where
  "fill_query_needs domain_ir question args now = change_object (fill_facts_with Kept now (declared_query_needs domain_ir question)) args"

definition answer_query_needs :: "svalue \<Rightarrow> string \<Rightarrow> svalue \<Rightarrow> int \<Rightarrow> svalue" where
  "answer_query_needs domain_ir question args now =
     change_object (fill_facts_with Replaced now (declared_query_needs domain_ir question)) args"

fun fill_missing :: "(string \<times> svalue) list \<Rightarrow> (string \<times> svalue) list \<Rightarrow> (string \<times> svalue) list" where
  "fill_missing [] facts = facts"
| "fill_missing ((name, v) # defaults) facts =
     fill_missing defaults (if map_of facts name \<noteq> None then facts else sv_insert name v facts)"

definition fill_defaults :: "svalue \<Rightarrow> string \<Rightarrow> svalue \<Rightarrow> svalue" where
  "fill_defaults domain_ir verb args =
     (let defaults = declared_defaults domain_ir verb
      in if defaults = [] then args else change_facts (fill_missing defaults) args)"

end
