(* ===== verification/Host_Store.thy ===== *)
theory Host_Store
  imports Serde_Value Store "HOL-Library.Product_Lexorder"
begin

text \<open>
  Where a domain's journal lives: \<open>rust/host/core/src/journal.rs\<close>, \<open>store.rs\<close> and the in-memory backend
  \<open>store/memory.rs\<close>, with the storage names of \<open>rust/codegen/src/hecks_naming.rs\<close>.

  The data of one store is a record. The domain lock is held for a whole unit of work and the data lock for a
  whole operation, so every operation is a function on the record. Errors are their messages. The Unicode
  lower-case mapping of a character is a parameter.
\<close>

section \<open>Names\<close>

definition ascii_upper_case :: "char \<Rightarrow> bool" where
  "ascii_upper_case c \<longleftrightarrow> (65 :: int) \<le> of_char c \<and> of_char c \<le> (90 :: int)"

definition ascii_lower_case :: "char \<Rightarrow> bool" where
  "ascii_lower_case c \<longleftrightarrow> (97 :: int) \<le> of_char c \<and> of_char c \<le> (122 :: int)"

text \<open>The first substitution: an underscore before the last capital of a run that a small letter follows.\<close>

function acronym_boundary :: "string \<Rightarrow> string" where
  "acronym_boundary [] = []"
| "acronym_boundary (c # cs) =
     (if ascii_upper_case c then
        let capitals = takeWhile ascii_upper_case (c # cs); rest = dropWhile ascii_upper_case (c # cs)
        in if 2 \<le> length capitals \<and> rest \<noteq> [] \<and> ascii_lower_case (hd rest)
           then butlast capitals @ [CHR ''_'', last capitals] @ acronym_boundary rest
           else capitals @ acronym_boundary rest
      else c # acronym_boundary cs)"
  by pat_completeness auto
termination
  by (relation "measure length") (auto simp: less_Suc_eq_le length_dropWhile_le)

text \<open>The second: an underscore between a small letter or digit and a capital.\<close>

fun naming_boundary :: "char option \<Rightarrow> string \<Rightarrow> string" where
  "naming_boundary prev [] = []"
| "naming_boundary prev (c # cs) =
     (if ascii_upper_case c \<and> (case prev of Some p \<Rightarrow> ascii_lower_case p \<or> is_ascii_digit p | None \<Rightarrow> False)
      then CHR ''_'' # c # naming_boundary (Some c) cs
      else c # naming_boundary (Some c) cs)"

definition ruby_downcase :: "(string \<Rightarrow> string) \<Rightarrow> string \<Rightarrow> string" where
  "ruby_downcase lower src = concat (map lower (utf8_chars src))"

definition snake :: "(string \<Rightarrow> string) \<Rightarrow> string \<Rightarrow> string" where
  "snake lower name = ruby_downcase lower (naming_boundary None (acronym_boundary name))"

definition storage_name :: "(string \<Rightarrow> string) \<Rightarrow> string \<Rightarrow> string" where
  "storage_name lower qualified_aggregate =
     snake lower (case rsplit_once ''::'' qualified_aggregate of Some (_, short) \<Rightarrow> short | None \<Rightarrow> qualified_aggregate)"

section \<open>Rows\<close>

record journal_snapshot =
  sn_ordinal :: int
  sn_seed :: svalue
  sn_sagas_backfilled :: bool

record saga_row =
  sg_process_manager :: string
  sg_correlation :: string
  sg_state :: string
  sg_memory :: svalue
  sg_completed_compensations :: svalue

record lineage_config =
  lc_domain :: string
  lc_era :: "int option"
  lc_mirrored :: "string list option"
  lc_seal_every :: "int option"

definition mirrors :: "lineage_config \<Rightarrow> string \<Rightarrow> bool" where
  "mirrors config qualified_aggregate =
     (case lc_mirrored config of None \<Rightarrow> True | Some capable \<Rightarrow> List.member capable qualified_aggregate)"

record mutation =
  mu_aggregate :: string
  mu_id :: string
  mu_operation :: string
  mu_state :: svalue

record held_era =
  he_ordinal :: int
  he_label :: "string option"
  he_watermark :: "int option"

record journal_row =
  jr_ordinal :: int
  jr_step :: svalue

record dead_letter =
  dl_policy :: string
  dl_target_domain :: string
  dl_target_verb :: string
  dl_payload :: svalue
  dl_error :: string
  dl_attempts :: int

text \<open>What a dispatch or a read replays.\<close>

record replay_state =
  rs_snapshot :: "journal_snapshot option"
  rs_steps :: "svalue list"
  rs_sagas :: "saga_row list"

definition needs_saga_backfill :: "replay_state \<Rightarrow> bool" where
  "needs_saga_backfill st = (case rs_snapshot st of Some s \<Rightarrow> \<not> sn_sagas_backfilled s | None \<Rightarrow> False)"

definition replay_seed :: "replay_state \<Rightarrow> svalue" where
  "replay_seed st =
     (case rs_snapshot st of
        Some s \<Rightarrow> if \<not> needs_saga_backfill st then sn_seed s else SV_Object []
      | None \<Rightarrow> SV_Object [])"

record lineage_write =
  lw_config :: lineage_config
  lw_mutations :: "mutation list"

record accepted_step =
  ac_verb :: string
  ac_args :: svalue
  ac_new_seed :: svalue
  ac_saga_upserts :: "saga_row list"
  ac_saga_deletes :: "(string \<times> string) list"
  ac_lineage :: "lineage_write option"

section \<open>The data of a store\<close>

datatype store_fault = Fault_Snapshot | Fault_AfterSagas

text \<open>A map of the source is a list in key order; \<open>fault\<close> is the failure point a test arms.\<close>

record store_data =
  sd_journal :: "journal_row list"
  sd_snapshot :: "journal_snapshot option"
  sd_sagas :: "((string \<times> string) \<times> saga_row) list"
  sd_dead_letters :: "dead_letter list"
  sd_heads :: "((string \<times> string) \<times> (string \<times> svalue) list) list"
  sd_eras :: "(string \<times> held_era list) list"
  sd_fault :: "store_fault option"

definition empty_store :: store_data where
  "empty_store = \<lparr>sd_journal = [], sd_snapshot = None, sd_sagas = [], sd_dead_letters = [], sd_heads = [], sd_eras = [], sd_fault = None\<rparr>"

definition steps_after :: "store_data \<Rightarrow> int option \<Rightarrow> svalue list" where
  "steps_after data ordinal =
     map jr_step (filter (\<lambda>row. case ordinal of None \<Rightarrow> True | Some after \<Rightarrow> after < jr_ordinal row) (sd_journal data))"

definition read_state :: "store_data \<Rightarrow> replay_state" where
  "read_state data =
     \<lparr>rs_snapshot = sd_snapshot data, rs_steps = steps_after data (map_option sn_ordinal (sd_snapshot data)), rs_sagas = []\<rparr>"

definition hold_era :: "string \<Rightarrow> string \<Rightarrow> store_data \<Rightarrow> int \<times> store_data" where
  "hold_era domain label data =
     (let held = (case map_of (sd_eras data) domain of Some eras \<Rightarrow> eras | None \<Rightarrow> []);
          ordinal = (if held = [] then 1 else he_ordinal (last held) + 1)
      in (ordinal, data\<lparr>sd_eras := btree_insert domain (held @ [\<lparr>he_ordinal = ordinal, he_label = Some label, he_watermark = None\<rparr>]) (sd_eras data)\<rparr>))"

definition eras_of :: "store_data \<Rightarrow> string \<Rightarrow> held_era list" where
  "eras_of data domain = (case map_of (sd_eras data) domain of Some eras \<Rightarrow> eras | None \<Rightarrow> [])"

definition current_era :: "store_data \<Rightarrow> string \<Rightarrow> int option" where
  "current_era data domain = (if eras_of data domain = [] then None else Some (he_ordinal (last (eras_of data domain))))"

definition head_all :: "store_data \<Rightarrow> string \<Rightarrow> string \<Rightarrow> (string \<times> svalue) list" where
  "head_all data domain storage = (case map_of (sd_heads data) (domain, storage) of Some rows \<Rightarrow> rows | None \<Rightarrow> [])"

definition head_by_id :: "store_data \<Rightarrow> string \<Rightarrow> string \<Rightarrow> string \<Rightarrow> svalue option" where
  "head_by_id data domain storage key = map_of (head_all data domain storage) key"

definition first_heads :: "store_data \<Rightarrow> string list \<Rightarrow> string \<Rightarrow> (string \<times> svalue) list option" where
  "first_heads data domains storage =
     (case List.map_filter (\<lambda>domain. map_of (sd_heads data) (domain, storage)) domains of rows # _ \<Rightarrow> Some rows | [] \<Rightarrow> None)"

definition head_states :: "store_data \<Rightarrow> string list \<Rightarrow> string \<Rightarrow> svalue list" where
  "head_states data domains storage = (case first_heads data domains storage of Some rows \<Rightarrow> map snd rows | None \<Rightarrow> [])"

definition field_holds :: "svalue \<Rightarrow> string \<times> string \<Rightarrow> bool" where
  "field_holds st m \<longleftrightarrow> Option.bind (Option.bind (sv_get st (fst m)) (\<lambda>v. sv_get v ''value'')) sv_as_str = Some (snd m)"

definition head_find :: "store_data \<Rightarrow> string list \<Rightarrow> string \<Rightarrow> (string \<times> string) list \<Rightarrow> svalue option" where
  "head_find data domains storage wanted =
     Option.bind (first_heads data domains storage) (\<lambda>rows. List.find (\<lambda>st. list_all (field_holds st) wanted) (map snd rows))"

definition save_head :: "(string \<Rightarrow> string) \<Rightarrow> lineage_config \<Rightarrow> mutation \<Rightarrow> store_data \<Rightarrow> store_data" where
  "save_head lower config m data =
     (let storage = storage_name lower (mu_aggregate m)
      in data\<lparr>sd_heads := btree_insert (lc_domain config, storage)
                (btree_insert (mu_id m) (mu_state m) (head_all data (lc_domain config) storage)) (sd_heads data)\<rparr>)"

definition no_era_message :: "lineage_config \<Rightarrow> string" where
  "no_era_message config = ''cannot append a lineage mutation for '' @ lc_domain config @ '': no era is active''"

definition bad_operation_message :: "mutation \<Rightarrow> string" where
  "bad_operation_message m =
     ''unsupported operation '' @ debug_str (mu_operation m) @ '': only '' @ debug_str ''save'' @ '' is generated today''"

definition apply_heads :: "(string \<Rightarrow> string) \<Rightarrow> lineage_config \<Rightarrow> mutation list \<Rightarrow> store_data \<Rightarrow> (string, unit) result \<times> store_data" where
  "apply_heads lower config mutations data =
     (if lc_era config = None \<and> mutations \<noteq> [] then (Inl (no_era_message config), data)
      else case List.find (\<lambda>m. mu_operation m \<noteq> ''save'') mutations of
             Some bad \<Rightarrow> (Inl (bad_operation_message bad), data)
           | None \<Rightarrow> (Inr (), fold (save_head lower config) mutations data))"

text \<open>\<open>put_heads\<close>, \<open>put_head\<close> and \<open>amend_head\<close>; a decision that panics is \<open>None\<close>.\<close>

definition put_head :: "(string \<Rightarrow> string) \<Rightarrow> lineage_config \<Rightarrow> mutation \<Rightarrow> store_data \<Rightarrow> (string, unit) result \<times> store_data" where
  "put_head lower config m data = apply_heads lower config [m] data"

definition amend_head ::
    "(string \<Rightarrow> string) \<Rightarrow> lineage_config \<Rightarrow> string \<Rightarrow> string \<Rightarrow>
     ((string \<times> svalue) list \<Rightarrow> ('t \<times> (string \<times> svalue) option) option) \<Rightarrow> store_data \<Rightarrow> ((string, 't) result \<times> store_data) option" where
  "amend_head lower config aggregate storage decide data =
     map_option (\<lambda>(answer, write).
       case write of
         None \<Rightarrow> (Inr answer, data)
       | Some (key, st) \<Rightarrow>
           (case put_head lower config \<lparr>mu_aggregate = aggregate, mu_id = key, mu_operation = ''save'', mu_state = st\<rparr> data of
              (Inl e, data) \<Rightarrow> (Inl e, data)
            | (Inr _, data) \<Rightarrow> (Inr answer, data)))
       (decide (head_all data (lc_domain config) storage))"

definition record_dead_letter :: "dead_letter \<Rightarrow> store_data \<Rightarrow> store_data" where
  "record_dead_letter d data = data\<lparr>sd_dead_letters := sd_dead_letters data @ [d]\<rparr>"

definition next_ordinal :: "store_data \<Rightarrow> int" where
  "next_ordinal data = (if sd_journal data = [] then 1 else jr_ordinal (last (sd_journal data)) + 1)"

section \<open>Units of work\<close>

definition load_unit :: "store_data \<Rightarrow> replay_state" where
  "load_unit data =
     (let st = \<lparr>rs_snapshot = sd_snapshot data, rs_steps = [], rs_sagas = map snd (sd_sagas data)\<rparr>;
          after = (if \<not> needs_saga_backfill st then map_option sn_ordinal (rs_snapshot st) else None)
      in st\<lparr>rs_steps := steps_after data after\<rparr>)"

definition fails_at :: "store_data \<Rightarrow> store_fault \<Rightarrow> (string, unit) result" where
  "fails_at data point = (if sd_fault data = Some point then Inl ''injected write failure'' else Inr ())"

definition saga_row_key :: "saga_row \<Rightarrow> string \<times> string" where
  "saga_row_key saga = (sg_process_manager saga, sg_correlation saga)"

definition btree_remove :: "'k \<Rightarrow> ('k \<times> 'v) list \<Rightarrow> ('k \<times> 'v) list" where
  "btree_remove k m = filter (\<lambda>(l, _). l \<noteq> k) m"

definition journal_step :: "string \<Rightarrow> svalue \<Rightarrow> svalue" where
  "journal_step verb args = SV_Object [(''verb'', SV_String verb), (''args'', args)]"

definition commit_rows :: "accepted_step \<Rightarrow> store_data \<Rightarrow> store_data" where
  "commit_rows ac data =
     (let ordinal = next_ordinal data
      in data\<lparr>sd_journal := sd_journal data @ [\<lparr>jr_ordinal = ordinal, jr_step = journal_step (ac_verb ac) (ac_args ac)\<rparr>],
              sd_snapshot := Some \<lparr>sn_ordinal = ordinal, sn_seed = ac_new_seed ac, sn_sagas_backfilled = True\<rparr>,
              sd_sagas := fold btree_remove (ac_saga_deletes ac)
                            (fold (\<lambda>saga. btree_insert (saga_row_key saga) saga) (ac_saga_upserts ac) (sd_sagas data))\<rparr>)"

definition commit_unit :: "(string \<Rightarrow> string) \<Rightarrow> accepted_step \<Rightarrow> store_data \<Rightarrow> (string, unit) result \<times> store_data" where
  "commit_unit lower ac data =
     (case fails_at data Fault_Snapshot of
        Inl e \<Rightarrow> (Inl e, data)
      | Inr _ \<Rightarrow>
          (case fails_at data Fault_AfterSagas of
             Inl e \<Rightarrow> (Inl e, data)
           | Inr _ \<Rightarrow>
               (case ac_lineage ac of
                  None \<Rightarrow> (Inr (), commit_rows ac data)
                | Some lineage \<Rightarrow> apply_heads lower (lw_config lineage) (lw_mutations lineage) (commit_rows ac data))))"

end
