(* ===== verification/Host_Clock.thy ===== *)
theory Host_Clock
  imports Values
begin

text \<open>
  The host's calendar, \<open>rust/host/core/src/clock.rs\<close>: seconds of the Unix epoch written as an ISO 8601 instant and
  read back. The source computes on 64-bit integers; the years it can meet (four digits when reading, seconds
  of 64 bits when writing) keep every intermediate value far inside that range, so the model computes on
  integers. Reading the system clock is an argument of the definitions that need it.
\<close>

definition civil_from_days :: "int \<Rightarrow> int \<times> int \<times> int" where
  "civil_from_days z =
     (let z = z + 719468;
          era = trunc_div (if z \<ge> 0 then z else z - 146096) 146097;
          doe = z - era * 146097;
          yoe = (doe - doe div 1460 + doe div 36524 - doe div 146096) div 365;
          y = yoe + era * 400;
          doy = doe - (365 * yoe + yoe div 4 - yoe div 100);
          mp = (5 * doy + 2) div 153;
          d = doy - (153 * mp + 2) div 5 + 1;
          m = (if mp < 10 then mp + 3 else mp - 9)
      in (if m \<le> 2 then y + 1 else y, m, d))"

definition civil_days :: "int \<Rightarrow> int \<Rightarrow> int \<Rightarrow> int" where
  "civil_days year month day =
     (let y = (if month \<le> 2 then year - 1 else year);
          era = trunc_div (if y \<ge> 0 then y else y - 399) 400;
          yoe = y - era * 400;
          mp = (if month > 2 then month - 3 else month + 9);
          doy = trunc_div (153 * mp + 2) 5 + day - 1;
          doe = yoe * 365 + trunc_div yoe 4 - trunc_div yoe 100 + doy
      in era * 146097 + doe - 719468)"

definition days_in_month :: "int \<Rightarrow> int \<Rightarrow> int" where
  "days_in_month year month =
     (if month = 2 then
        (if trunc_mod year 4 = 0 \<and> (trunc_mod year 100 \<noteq> 0 \<or> trunc_mod year 400 = 0) then 29 else 28)
      else if month \<in> {4, 6, 9, 11} then 30
      else 31)"

definition iso_utc :: "int \<Rightarrow> string" where
  "iso_utc secs =
     (let days = secs div 86400; rem = secs mod 86400;
          (y, mo, d) = civil_from_days days
      in pad4 (show_int y) @ ''-'' @ pad2 (show_int mo) @ ''-'' @ pad2 (show_int d) @ ''T'' @
         pad2 (show_int (rem div 3600)) @ '':'' @ pad2 (show_int (rem mod 3600 div 60)) @ '':'' @
         pad2 (show_int (rem mod 60)) @ ''Z'')"

text \<open>The closure \<open>number\<close>: the digits of a part of the text.\<close>

definition number_at :: "string \<Rightarrow> nat \<Rightarrow> nat \<Rightarrow> int option" where
  "number_at src a b =
     (let digits = take (b - a) (drop a src)
      in if length src < b then None else if list_all is_ascii_digit digits then parse_digits digits else None)"

definition fraction_ok :: "string \<Rightarrow> bool" where
  "fraction_ok fraction \<longleftrightarrow>
     fraction = [] \<or> starts_with ''.'' fraction \<and> 1 < length fraction \<and> list_all is_ascii_digit (drop 1 fraction)"

definition parse_iso_utc :: "string \<Rightarrow> int option" where
  "parse_iso_utc src =
     (if length src < 20 \<or> \<not> list_all (\<lambda>c. (of_char c :: int) < 128) src \<or> last src \<noteq> CHR ''Z'' then None
      else if \<not> (src ! 4 = CHR ''-'' \<and> src ! 7 = CHR ''-'' \<and> src ! 10 = CHR ''T'' \<and> src ! 13 = CHR '':'' \<and> src ! 16 = CHR '':'')
              \<or> \<not> fraction_ok (butlast (drop 19 src)) then None
      else Option.bind (number_at src 0 4) (\<lambda>year.
           Option.bind (number_at src 5 7) (\<lambda>month.
           Option.bind (number_at src 8 10) (\<lambda>day.
           Option.bind (number_at src 11 13) (\<lambda>hour.
           Option.bind (number_at src 14 16) (\<lambda>minute.
           Option.bind (number_at src 17 19) (\<lambda>second.
             if 1 \<le> month \<and> month \<le> 12 \<and> 1 \<le> day \<and> day \<le> days_in_month year month \<and>
                hour < 24 \<and> minute < 60 \<and> second < 60
             then Some (civil_days year month day * 86400 + hour * 3600 + minute * 60 + second) else None)))))))"

section \<open>Digits\<close>

lemma digits_val_Cons_zero: "digits_val (CHR ''0'' # s) = digits_val s"
  by (simp add: digits_val_def digit_val_def)

lemma digits_val_replicate_zero: "digits_val (replicate n CHR ''0'' @ s) = digits_val s"
  by (induction n) (simp_all add: digits_val_Cons_zero)

lemma show_digits_length: "0 \<le> n \<Longrightarrow> n < 10 ^ k \<Longrightarrow> 0 < k \<Longrightarrow> length (show_digits n) \<le> k"
proof (induction n arbitrary: k rule: show_digits.induct)
  case (1 n)
  show ?case
  proof (cases "n < 10")
    case True
    with 1 show ?thesis by (subst show_digits.simps) simp
  next
    case False
    have "k \<noteq> 1" using False 1 by auto
    with 1 have "1 < k" by simp
    then obtain j where j: "k = Suc j" "0 < j" by (cases k) auto
    then have "length (show_digits (n div 10)) \<le> j" using 1 False by (intro "1.IH") (auto simp: div_less_iff_less_mult)
    with False j show ?thesis by (subst show_digits.simps) simp
  qed
qed

lemma padded_digits:
  assumes "0 \<le> n" "n < 10 ^ k" "0 < k" "s = replicate (k - length (show_int n)) CHR ''0'' @ show_int n"
  shows "length s = k" "list_all is_ascii_digit s" "parse_digits s = Some n"
proof -
  have sh: "show_int n = show_digits n" using assms by (simp add: show_int_def)
  with assms show "length s = k" using show_digits_length [of n k] by simp
  show "list_all is_ascii_digit s"
    using assms sh show_digits_digits [of n] by (auto simp: list_all_iff is_ascii_digit_def)
  then show "parse_digits s = Some n"
    using assms sh by (simp add: parse_digits_def digits_val_replicate_zero)
qed

section \<open>Days and dates\<close>

text \<open>Days since 1 March of the first year of a 400-year era, and the year they fall in.\<close>

definition era_year :: "int \<Rightarrow> int" where
  "era_year doe = (doe - doe div 1460 + doe div 36524 - doe div 146096) div 365"

definition year_start :: "int \<Rightarrow> int" where
  "year_start yoe = 365 * yoe + yoe div 4 - yoe div 100"

lemma era_parts:
  fixes doe :: int
  assumes "0 \<le> doe" "doe \<le> 146096"
  obtains c q t u where "doe = 36524 * c + 1461 * q + 365 * t + u" "0 \<le> c" "c \<le> 3" "0 \<le> q" "q \<le> 24" "0 \<le> t" "t \<le> 3"
    "0 \<le> u" "u \<le> 365" "u = 365 \<Longrightarrow> t = 3 \<and> (q < 24 \<or> c = 3)"
proof -
  define c where "c = min 3 (doe div 36524)"
  define r where "r = doe - 36524 * c"
  have r: "0 \<le> r" "r \<le> 36524" "r = 36524 \<Longrightarrow> c = 3" "0 \<le> c" "c \<le> 3"
    using assms unfolding r_def c_def by (auto simp: min_def split: if_splits)
  define q where "q = r div 1461"
  define s where "s = r - 1461 * q"
  have s: "0 \<le> s" "s \<le> 1460" "0 \<le> q" "q \<le> 24" "q = 24 \<Longrightarrow> s = 1460 \<Longrightarrow> c = 3"
    using r unfolding s_def q_def by auto
  define t where "t = min 3 (s div 365)"
  define u where "u = s - 365 * t"
  have u: "0 \<le> u" "u \<le> 365" "0 \<le> t" "t \<le> 3" "u = 365 \<Longrightarrow> t = 3 \<and> s = 1460"
    using s unfolding u_def t_def by (auto simp: min_def split: if_splits)
  have "doe = 36524 * c + 1461 * q + 365 * t + u"
    unfolding u_def s_def r_def by simp
  then show ?thesis using that r s u by fastforce
qed

lemma era_year_parts:
  assumes "0 \<le> c" "c \<le> 3" "0 \<le> q" "q \<le> 24" "0 \<le> t" "t \<le> 3" "0 \<le> u" "u \<le> 365"
    and "u = 365 \<Longrightarrow> t = 3 \<and> (q < 24 \<or> c = 3)" and doe: "doe = 36524 * c + 1461 * q + 365 * t + u"
  shows "era_year doe = 100 * c + 4 * q + t"
proof -
  define e where "e = (24 * c + q + 365 * t + u) div 1460"
  have "doe = (24 * c + q + 365 * t + u) + 1460 * (25 * c + q)" by (simp add: doe)
  then have d1: "doe div 1460 = 25 * c + q + e" unfolding e_def by (metis div_mult_self2 add.commute zero_neq_numeral)
  define w where "w = 1461 * q + 365 * t + u"
  have w: "doe = 36524 * c + w" "0 \<le> w" "w \<le> 36524" "w = 36524 \<Longrightarrow> c = 3" using assms unfolding w_def by linarith+
  have d2: "doe div 36524 - doe div 146096 = c"
  proof (cases "w = 36524")
    case True
    with w show ?thesis by simp
  next
    case False
    then have "w div 36524 = 0" "doe div 146096 = 0" using w assms by (auto simp: div_pos_pos_trivial)
    with w show ?thesis by simp
  qed
  have "0 \<le> e" "e \<le> 1" "e = 1 \<Longrightarrow> 269 \<le> u" "u = 365 \<Longrightarrow> e = 1" using assms unfolding e_def by linarith+
  then have "0 \<le> u - e" "u - e < 365" using assms by (cases "e = 1"; linarith)+
  moreover have "doe - doe div 1460 + doe div 36524 - doe div 146096 = (u - e) + 365 * (100 * c + 4 * q + t)"
    using d1 d2 by (simp add: doe)
  ultimately show ?thesis unfolding era_year_def by (simp add: div_pos_pos_trivial)
qed

lemma year_start_parts:
  assumes "0 \<le> c" "c \<le> 3" "0 \<le> q" "q \<le> 24" "0 \<le> t" "t \<le> 3"
  shows "year_start (100 * c + 4 * q + t) = 36524 * c + 1461 * q + 365 * t"
proof -
  have "(100 * c + 4 * q + t) div 4 = 25 * c + q" "(100 * c + 4 * q + t) div 100 = c" using assms by linarith+
  then show ?thesis by (simp add: year_start_def)
qed


text \<open>A year of the era starts on its first of March; the year before a leap day has 366 days.\<close>

definition era_leap :: "int \<Rightarrow> bool" where
  "era_leap yoe \<longleftrightarrow> (yoe + 1) mod 4 = 0 \<and> ((yoe + 1) mod 100 \<noteq> 0 \<or> (yoe + 1) mod 400 = 0)"

lemma era_day_of_year:
  assumes "0 \<le> doe" "doe \<le> 146096"
  shows "0 \<le> era_year doe" "era_year doe \<le> 399" "0 \<le> doe - year_start (era_year doe)"
    "doe - year_start (era_year doe) \<le> 365"
    "doe - year_start (era_year doe) = 365 \<Longrightarrow> era_leap (era_year doe)"
proof -
  obtain c q t u where p: "doe = 36524 * c + 1461 * q + 365 * t + u" "0 \<le> c" "c \<le> 3" "0 \<le> q" "q \<le> 24" "0 \<le> t" "t \<le> 3"
    "0 \<le> u" "u \<le> 365" and l: "u = 365 \<Longrightarrow> t = 3 \<and> (q < 24 \<or> c = 3)"
    using era_parts [OF assms] by metis
  have y: "era_year doe = 100 * c + 4 * q + t" using p l by (intro era_year_parts) auto
  have "year_start (100 * c + 4 * q + t) = 36524 * c + 1461 * q + 365 * t" using p by (intro year_start_parts)
  with y p have du: "doe - year_start (era_year doe) = u" by simp
  show "0 \<le> era_year doe" "era_year doe \<le> 399" using y p by simp_all
  show "0 \<le> doe - year_start (era_year doe)" "doe - year_start (era_year doe) \<le> 365" using du p by simp_all
  assume "doe - year_start (era_year doe) = 365"
  with du l have "t = 3" and q: "q < 24 \<or> c = 3" by auto
  with y have yp: "era_year doe + 1 = 100 * c + 4 * (q + 1)" by simp
  have "(100 * c + 4 * (q + 1)) mod 4 = 0" by presburger
  moreover have "(100 * c + 4 * (q + 1)) mod 100 \<noteq> 0 \<or> (100 * c + 4 * (q + 1)) mod 400 = 0"
  proof (cases "q < 24")
    case True
    then have "(4 * (q + 1)) mod 100 = 4 * (q + 1)" using p by simp
    then have "(100 * c + 4 * (q + 1)) mod 100 = 4 * (q + 1)" by (metis mod_mult_self4 mult.commute)
    with p show ?thesis by simp
  next
    case False
    with p q show ?thesis by auto
  qed
  ultimately show "era_leap (era_year doe)" unfolding era_leap_def yp by blast
qed

text \<open>The months of a year that starts in March.\<close>

definition month_lengths :: "int list" where
  "month_lengths = [31, 30, 31, 30, 31, 31, 30, 31, 30, 31, 31, 29]"

definition month_ok :: "int \<Rightarrow> bool" where
  "month_ok doy \<longleftrightarrow>
     (let mp = (5 * doy + 2) div 153; d = doy - (153 * mp + 2) div 5 + 1
      in 0 \<le> mp \<and> mp \<le> 11 \<and> 1 \<le> d \<and> d \<le> month_lengths ! nat mp \<and> (mp = 11 \<and> d = 29 \<longrightarrow> doy = 365))"

lemma months_ok: "0 \<le> doy \<Longrightarrow> doy \<le> 365 \<Longrightarrow> month_ok doy"
proof -
  have "list_all month_ok [0..365]" by code_simp
  then show "0 \<le> doy \<Longrightarrow> doy \<le> 365 \<Longrightarrow> month_ok doy" by (simp add: list_all_iff)
qed

lemma trunc_nonneg: "0 \<le> a \<Longrightarrow> 0 < b \<Longrightarrow> trunc_div a b = a div b" "0 \<le> a \<Longrightarrow> 0 < b \<Longrightarrow> trunc_mod a b = a mod b"
  by (cases "a = 0"; simp add: trunc_div_def trunc_mod_def)+

lemma month_length:
  assumes "0 \<le> mp" "mp \<le> 11" "0 \<le> y"
  shows "mp < 11 \<Longrightarrow> days_in_month (if 10 \<le> mp then y + 1 else y) (if mp < 10 then mp + 3 else mp - 9) = month_lengths ! nat mp"
    and "mp = 11 \<Longrightarrow> days_in_month (y + 1) 2 = (if era_leap (y mod 400) then 29 else 28)"
proof -
  have "mp = 0 \<or> mp = 1 \<or> mp = 2 \<or> mp = 3 \<or> mp = 4 \<or> mp = 5 \<or> mp = 6 \<or> mp = 7 \<or> mp = 8 \<or> mp = 9 \<or> mp = 10 \<or> mp = 11"
    using assms(1,2) by presburger
  then show "mp < 11 \<Longrightarrow> days_in_month (if 10 \<le> mp then y + 1 else y) (if mp < 10 then mp + 3 else mp - 9) = month_lengths ! nat mp"
    by (elim disjE) (simp_all add: days_in_month_def month_lengths_def)
  have "(y mod 400 + 1) mod k = (y + 1) mod k" if "k dvd 400" for k
    using that by (metis mod_add_left_eq mod_mod_cancel)
  then have "(y mod 400 + 1) mod 4 = (y + 1) mod 4" "(y mod 400 + 1) mod 100 = (y + 1) mod 100" "(y mod 400 + 1) mod 400 = (y + 1) mod 400"
    by simp_all
  moreover have "trunc_mod (y + 1) 4 = (y + 1) mod 4" "trunc_mod (y + 1) 100 = (y + 1) mod 100" "trunc_mod (y + 1) 400 = (y + 1) mod 400"
    using assms by (simp_all add: trunc_nonneg)
  ultimately show "mp = 11 \<Longrightarrow> days_in_month (y + 1) 2 = (if era_leap (y mod 400) then 29 else 28)"
    by (simp only: days_in_month_def era_leap_def simp_thms if_True)
qed


lemma civil_from_days_eq:
  "civil_from_days z =
     (let n = z + 719468; era = trunc_div (if n \<ge> 0 then n else n - 146096) 146097; doe = n - era * 146097;
          doy = doe - year_start (era_year doe); mp = (5 * doy + 2) div 153; m = (if mp < 10 then mp + 3 else mp - 9)
      in (if m \<le> 2 then era_year doe + era * 400 + 1 else era_year doe + era * 400, m, doy - (153 * mp + 2) div 5 + 1))"
  by (simp only: civil_from_days_def era_year_def year_start_def Let_def)

lemma civil_inverse:
  assumes "0 \<le> z" and civil: "civil_from_days z = (y, m, d)"
  shows "civil_days y m d = z" "1 \<le> m" "m \<le> 12" "1 \<le> d" "d \<le> days_in_month y m" "0 \<le> y"
    "z < 2932897 \<Longrightarrow> y < 10000"
proof -
  define n where "n = z + 719468"
  define era where "era = n div 146097"
  define doe where "doe = n mod 146097"
  define yoe where "yoe = era_year doe"
  define doy where "doy = doe - year_start yoe"
  define mp where "mp = (5 * doy + 2) div 153"
  have n: "0 \<le> n" "n = era * 146097 + doe" using assms unfolding n_def era_def doe_def by simp_all
  have doe: "0 \<le> doe" "doe \<le> 146096" unfolding doe_def by simp_all
  have era: "0 \<le> era" using n unfolding era_def by simp
  note yd = era_day_of_year [OF doe, folded yoe_def, folded doy_def]
  have "month_ok doy" using yd by (intro months_ok)
  define dd where "dd = doy - (153 * mp + 2) div 5 + 1"
  have mp: "0 \<le> mp" "mp \<le> 11" "1 \<le> dd" "dd \<le> month_lengths ! nat mp" "mp = 11 \<Longrightarrow> dd = 29 \<Longrightarrow> doy = 365"
    using \<open>month_ok doy\<close> unfolding month_ok_def mp_def dd_def by (auto simp: Let_def)
  have eras: "trunc_div (if n \<ge> 0 then n else n - 146096) 146097 = era" "n - era * 146097 = doe"
    using n trunc_nonneg(1) [of n 146097] unfolding era_def by simp_all
  have "civil_from_days z = (let m = if mp < 10 then mp + 3 else mp - 9 in (if m \<le> 2 then yoe + era * 400 + 1 else yoe + era * 400, m, dd))"
    unfolding civil_from_days_eq [of z, folded n_def] eras dd_def mp_def doy_def yoe_def by (simp only: Let_def eras)
  then have y: "y = (if 10 \<le> mp then yoe + era * 400 + 1 else yoe + era * 400)" and m: "m = (if mp < 10 then mp + 3 else mp - 9)" and d: "d = dd"
    using civil mp by (auto simp: Let_def split: if_splits)
  show "1 \<le> m" "m \<le> 12" using m mp by auto
  show "1 \<le> d" using d mp by simp
  show "0 \<le> y" using y yd era by simp
  have y0: "(if m \<le> 2 then y - 1 else y) = yoe + era * 400" using y m mp by auto
  have mp': "(if m > 2 then m - 3 else m + 9) = mp" using m mp by auto
  have eo: "trunc_div (yoe + era * 400) 400 = era" using yd era by (simp add: trunc_nonneg)
  show "civil_days y m d = z"
    using yd era mp n unfolding civil_days_def y0 mp' Let_def
    by (simp add: eo trunc_nonneg d dd_def doy_def year_start_def n_def)
  show "d \<le> days_in_month y m"
  proof (cases "mp = 11")
    case True
    have "(yoe + era * 400) mod 400 = yoe" using yd by simp
    moreover have "dd \<le> 29" using mp True by (simp add: month_lengths_def)
    ultimately show ?thesis
      using month_length(2) [of mp "yoe + era * 400"] mp True yd era y m d by (cases "dd = 29") auto
  next
    case False
    with month_length(1) [of mp "yoe + era * 400"] mp yd era y m d show ?thesis by simp
  qed
  assume "z < 2932897"
  then have "n < 3652365" by (simp add: n_def)
  then have "era \<le> 24" unfolding era_def by linarith
  show "y < 10000"
  proof (cases "era = 24")
    case True
    then have "doe < 146037" using n \<open>n < 3652365\<close> by simp
    have "mp < 10" if "yoe = 399"
      using that \<open>doe < 146037\<close> unfolding mp_def doy_def year_start_def by simp
    then show ?thesis using True y yd by (cases "yoe = 399") auto
  next
    case False
    then show ?thesis using \<open>era \<le> 24\<close> y yd by (auto split: if_splits)
  qed
qed


section \<open>Reading back a written instant\<close>

lemma clock_two_digits:
  assumes "0 \<le> n" "n < 100"
  obtains a b where "pad2 (show_int n) = [a, b]" "is_ascii_digit a" "is_ascii_digit b" "parse_digits [a, b] = Some n"
proof -
  have "length (pad2 (show_int n)) = 2" "list_all is_ascii_digit (pad2 (show_int n))" "parse_digits (pad2 (show_int n)) = Some n"
    using padded_digits [of n 2 "pad2 (show_int n)"] assms by (simp_all add: pad2_def)
  then show ?thesis using that by (auto simp: length_Suc_conv numeral_2_eq_2)
qed

lemma four_digits:
  assumes "0 \<le> n" "n < 10000"
  obtains a b c d where "pad4 (show_int n) = [a, b, c, d]" "list_all is_ascii_digit [a, b, c, d]" "parse_digits [a, b, c, d] = Some n"
proof -
  have "length (pad4 (show_int n)) = 4" "list_all is_ascii_digit (pad4 (show_int n))" "parse_digits (pad4 (show_int n)) = Some n"
    using padded_digits [of n 4 "pad4 (show_int n)"] assms by (simp_all add: pad4_def)
  then show ?thesis using that by (auto simp: length_Suc_conv eval_nat_numeral)
qed

lemma digit_ascii: "is_ascii_digit c \<Longrightarrow> (of_char c :: int) < 128"
  by (simp add: is_ascii_digit_def)

text \<open>
  An instant of the years up to 9999, written as text, reads back as the same second.
\<close>

theorem instant_roundtrip:
  assumes "0 \<le> secs" "secs < 253402300800"
  shows "parse_iso_utc (iso_utc secs) = Some secs"
proof -
  define z where "z = secs div 86400"
  obtain y m d where civil: "civil_from_days z = (y, m, d)" using prod_cases3 by blast
  have z: "0 \<le> z" "z < 2932897" using assms unfolding z_def by linarith+
  note inv = civil_inverse [OF z(1) civil]
  have "days_in_month y m \<le> 31" by (simp add: days_in_month_def)
  define r where "r = secs mod 86400"
  have r: "0 \<le> r" "r < 86400" unfolding r_def by simp_all
  obtain y1 y2 y3 y4 where Y: "pad4 (show_int y) = [y1, y2, y3, y4]" "list_all is_ascii_digit [y1, y2, y3, y4]" "parse_digits [y1, y2, y3, y4] = Some y"
    by (rule four_digits [OF inv(6) inv(7) [OF z(2)]])
  obtain m1 m2 where M: "pad2 (show_int m) = [m1, m2]" "is_ascii_digit m1" "is_ascii_digit m2" "parse_digits [m1, m2] = Some m"
    using clock_two_digits [of m] inv by auto
  obtain d1 d2 where D: "pad2 (show_int d) = [d1, d2]" "is_ascii_digit d1" "is_ascii_digit d2" "parse_digits [d1, d2] = Some d"
    using clock_two_digits [of d] inv \<open>days_in_month y m \<le> 31\<close> by auto
  have bounds: "r div 3600 < 24" "r mod 3600 div 60 < 60" "r mod 60 < 60" using r by linarith+
  have nn: "0 \<le> r div 3600" "0 \<le> r mod 3600 div 60" "0 \<le> r mod 60" using r by simp_all
  have hundred: "r div 3600 < 100" "r mod 3600 div 60 < 100" "r mod 60 < 100" using bounds by linarith+
  obtain h1 h2 where H: "pad2 (show_int (r div 3600)) = [h1, h2]" "is_ascii_digit h1" "is_ascii_digit h2" "parse_digits [h1, h2] = Some (r div 3600)"
    by (rule clock_two_digits [OF nn(1) hundred(1)])
  obtain n1 n2 where N: "pad2 (show_int (r mod 3600 div 60)) = [n1, n2]" "is_ascii_digit n1" "is_ascii_digit n2" "parse_digits [n1, n2] = Some (r mod 3600 div 60)"
    by (rule clock_two_digits [OF nn(2) hundred(2)])
  obtain s1 s2 where S: "pad2 (show_int (r mod 60)) = [s1, s2]" "is_ascii_digit s1" "is_ascii_digit s2" "parse_digits [s1, s2] = Some (r mod 60)"
    by (rule clock_two_digits [OF nn(3) hundred(3)])
  have written: "iso_utc secs = [y1, y2, y3, y4, CHR ''-'', m1, m2, CHR ''-'', d1, d2, CHR ''T'', h1, h2, CHR '':'', n1, n2, CHR '':'', s1, s2, CHR ''Z'']"
    unfolding iso_utc_def z_def [symmetric] r_def [symmetric] by (simp add: civil Let_def Y M D H N S)
  have "r mod 60 = r mod 3600 mod 60" by (simp add: mod_mod_cancel)
  then have "r div 3600 * 3600 + r mod 3600 div 60 * 60 + r mod 60 = r" by (simp add: add.assoc)
  moreover have "z * 86400 + r = secs" unfolding z_def r_def by simp
  ultimately have clock: "z * 86400 + r div 3600 * 3600 + r mod 3600 div 60 * 60 + r mod 60 = secs" by simp
  show ?thesis
    unfolding written parse_iso_utc_def number_at_def fraction_ok_def
    using Y M D H N S inv bounds clock by (simp add: digit_ascii Let_def starts_with_def eval_nat_numeral)
qed

theorem instant_roundtrip_witness: "parse_iso_utc (iso_utc 1709210096) = Some 1709210096"
  by (rule instant_roundtrip) simp_all

end
