(* ===== verification/Host_Dispatch.thy ===== *)
theory Host_Dispatch
  imports Host_Needs Host_Store Host_Clock
begin

text \<open>
  A command from request to journal: \<open>rust/host/core/src/dispatch.rs\<close>, with the delivery of cross-domain reactions
  of \<open>lambda_client.rs\<close> and the preview's answer of \<open>validation.rs\<close>.

  The compiled domain module, the printing of JSON, the Unicode lower-case mapping and the client of the other
  domains' functions are parameters (record \<open>host_env\<close>): the module and the client take and give JSON values, a
  failure is its message. The client threads a state of its own. The lines written to the process log are left
  out.
\<close>

record invoke_outcome =
  io_body :: svalue
  io_function_error :: bool

record 'w host_env =
  hv_lower :: "string \<Rightarrow> string"
  hv_print :: "svalue \<Rightarrow> string"
  hv_kernel :: "svalue \<Rightarrow> (string, svalue) result"
  hv_invoke :: "string \<Rightarrow> svalue \<Rightarrow> 'w \<Rightarrow> (string, invoke_outcome) result \<times> 'w"
  hv_ir :: "svalue option"
  hv_config :: lineage_config

section \<open>Deliveries\<close>

definition function_name_for :: "'w host_env \<Rightarrow> string \<Rightarrow> string" where
  "function_name_for env domain = ''hecks-'' @ ruby_downcase (hv_lower env) domain"

record delivery_record =
  dr_policy :: string
  dr_target_domain :: string
  dr_target_verb :: string
  dr_delivered :: bool
  dr_reason :: "string option"

definition opt_string :: "string option \<Rightarrow> svalue" where
  "opt_string s = (case s of Some s \<Rightarrow> SV_String s | None \<Rightarrow> SV_Null)"

definition delivery_json :: "delivery_record \<Rightarrow> svalue" where
  "delivery_json r =
     SV_Object [(''policy'', SV_String (dr_policy r)), (''target_domain'', SV_String (dr_target_domain r)),
       (''target_verb'', SV_String (dr_target_verb r)), (''delivered'', SV_Bool (dr_delivered r)), (''reason'', opt_string (dr_reason r))]"

definition reaction_payload :: "svalue \<Rightarrow> svalue" where
  "reaction_payload reaction = (case sv_get reaction ''payload'' of Some v \<Rightarrow> v | None \<Rightarrow> SV_Object [])"

definition target_refusal :: "svalue \<Rightarrow> string \<Rightarrow> svalue option" where
  "target_refusal body target_verb =
     Option.bind (Option.bind (sv_get body ''refusals'') sv_as_array) (List.find (\<lambda>r. sv_str r ''verb'' = Some target_verb))"

definition deliver :: "'w host_env \<Rightarrow> svalue \<Rightarrow> 'w \<Rightarrow> (string, delivery_record) result \<times> 'w" where
  "deliver env reaction w =
     (let policy = str_or_empty (sv_str reaction ''policy'');
          target_domain = str_or_empty (sv_str reaction ''target_domain'');
          target_verb = str_or_empty (sv_str reaction ''target_verb'');
          function_name = function_name_for env target_domain
      in case hv_invoke env function_name (journal_step target_verb (reaction_payload reaction)) w of
           (Inl e, w) \<Rightarrow> (Inl e, w)
         | (Inr outcome, w) \<Rightarrow>
             if io_function_error outcome then
               (Inl (''Lambda '' @ function_name @ '' ('' @ target_verb @ ''): '' @
                  (case sv_str (io_body outcome) ''errorMessage'' of Some m \<Rightarrow> m | None \<Rightarrow> hv_print env (io_body outcome))), w)
             else
               (let refusal = target_refusal (io_body outcome) target_verb
                in Inr \<lparr>dr_policy = policy, dr_target_domain = target_domain, dr_target_verb = target_verb,
                        dr_delivered = (refusal = None),
                        dr_reason = Option.bind refusal (\<lambda>r. sv_str r ''error'')\<rparr>, w))"

definition MAX_DELIVERY_ATTEMPTS :: nat where "MAX_DELIVERY_ATTEMPTS = 3"

record delivery_failure =
  df_policy :: string
  df_target_domain :: string
  df_target_verb :: string
  df_payload :: svalue
  df_error :: string
  df_attempts :: nat

text \<open>The attempts still to make after the last error; the waits between them are left out.\<close>

fun attempt_delivery :: "nat \<Rightarrow> string \<Rightarrow> 'w host_env \<Rightarrow> svalue \<Rightarrow> 'w \<Rightarrow> (string, delivery_record) result \<times> 'w" where
  "attempt_delivery 0 last_error env reaction w = (Inl last_error, w)"
| "attempt_delivery (Suc n) last_error env reaction w =
     (case deliver env reaction w of
        (Inr r, w) \<Rightarrow> (Inr r, w)
      | (Inl e, w) \<Rightarrow> attempt_delivery n e env reaction w)"

definition deliver_with_retry :: "'w host_env \<Rightarrow> svalue \<Rightarrow> 'w \<Rightarrow> (delivery_failure, delivery_record) result \<times> 'w" where
  "deliver_with_retry env reaction w =
     (case attempt_delivery MAX_DELIVERY_ATTEMPTS ''no delivery attempt ran'' env reaction w of
        (Inr r, w) \<Rightarrow> (Inr r, w)
      | (Inl e, w) \<Rightarrow>
          (Inl \<lparr>df_policy = str_or_empty (sv_str reaction ''policy''), df_target_domain = str_or_empty (sv_str reaction ''target_domain''),
                df_target_verb = str_or_empty (sv_str reaction ''target_verb''), df_payload = reaction_payload reaction,
                df_error = e, df_attempts = MAX_DELIVERY_ATTEMPTS\<rparr>, w))"

section \<open>Callers\<close>

record caller =
  ca_role :: "string option"
  ca_actor_id :: "string option"

definition no_caller :: caller where
  "no_caller = \<lparr>ca_role = None, ca_actor_id = None\<rparr>"

definition ANONYMOUS_ROLE :: string where "ANONYMOUS_ROLE = ''Anonymous''"

datatype enforcement = Enforcement_Off | Enforcement_Shadow | Enforcement_Enforce

definition parse_enforcement :: "(string \<Rightarrow> string) \<Rightarrow> string option \<Rightarrow> enforcement" where
  "parse_enforcement ascii_lowercase v =
     (case map_option (\<lambda>v. ascii_lowercase (trim v)) v of
        Some mode \<Rightarrow> if mode = ''shadow'' then Enforcement_Shadow else if mode = ''enforce'' then Enforcement_Enforce else Enforcement_Off
      | None \<Rightarrow> Enforcement_Off)"

definition effective :: "enforcement \<Rightarrow> caller \<Rightarrow> caller" where
  "effective mode c =
     (if mode \<noteq> Enforcement_Off \<and> ca_role c = None \<and> ca_actor_id c = None
      then \<lparr>ca_role = Some ANONYMOUS_ROLE, ca_actor_id = None\<rparr> else c)"

datatype origin = Origin_External | Origin_Request | Origin_HostInternal
datatype run_effect = Effect_Commit | Effect_Preview

section \<open>The kernel's answer\<close>

definition refused_for_role :: "svalue \<Rightarrow> bool" where
  "refused_for_role answer = list_ex (\<lambda>r. sv_str r ''kind'' = Some ''Unauthorized'') (sv_list answer ''refusals'')"

datatype kernel_answer = Answer_Accepted | Answer_Refused | Answer_Failed string

definition classify_answer :: "'w host_env \<Rightarrow> svalue \<Rightarrow> kernel_answer" where
  "classify_answer env answer =
     (case sv_get answer ''error'' of
        Some e \<Rightarrow> Answer_Failed (case sv_as_str e of Some m \<Rightarrow> m | None \<Rightarrow> hv_print env e)
      | None \<Rightarrow> if sv_list answer ''refusals'' \<noteq> [] then Answer_Refused else Answer_Accepted)"

definition kernel_run :: "'w host_env \<Rightarrow> svalue \<Rightarrow> (string, svalue) result" where
  "kernel_run env input =
     rbind (hv_kernel env input) (\<lambda>answer.
       case classify_answer env answer of
         Answer_Failed message \<Rightarrow> Inl (''the kernel failed before it could run the command: '' @ message)
       | _ \<Rightarrow> Inr answer)"

definition is_sv_object :: "svalue \<Rightarrow> bool" where
  "is_sv_object v = (case v of SV_Object _ \<Rightarrow> True | _ \<Rightarrow> False)"

definition routed_invocation :: "svalue \<Rightarrow> svalue \<Rightarrow> (string, svalue) result" where
  "routed_invocation receiver facts =
     (if is_sv_object facts then Inr (SV_Object [(''to'', receiver), (''with'', facts)])
      else Inl ''with must be an object of command facts'')"

definition facts_invocation :: "svalue \<Rightarrow> (string, svalue) result" where
  "facts_invocation facts =
     (if is_sv_object facts then Inr (SV_Object [(''with'', facts)]) else Inl ''with must be an object of command facts'')"

text \<open>\<open>validation::accepted\<close>\<close>

definition dry_run_accepted :: "svalue \<Rightarrow> bool" where
  "dry_run_accepted answer =
     (let runs = sv_list answer ''dry_runs''
      in if runs = [] then False
         else (case Option.bind (sv_get (last runs) ''ok'') sv_as_bool of Some b \<Rightarrow> b | None \<Rightarrow> False))"

section \<open>One step\<close>

definition put_member :: "string \<Rightarrow> svalue \<Rightarrow> svalue \<Rightarrow> svalue" where
  "put_member key v obj = change_object (sv_insert key v) obj"

definition preview_step :: "string \<Rightarrow> svalue \<Rightarrow> svalue" where
  "preview_step verb args =
     (let step = SV_Object [(''dry_run'', SV_String verb)]
      in if sv_get args ''with'' \<noteq> None then
           fold (\<lambda>key step. case sv_get args key of Some v \<Rightarrow> put_member key v step | None \<Rightarrow> step) [''to'', ''with''] step
         else case sv_get args ''to'' of
                Some receiver \<Rightarrow> put_member ''with'' (sv_remove args ''to'') (put_member ''to'' receiver step)
              | None \<Rightarrow> put_member ''args'' args step)"

definition nonempty_object :: "svalue \<Rightarrow> bool" where
  "nonempty_object v = (case v of SV_Object ms \<Rightarrow> ms \<noteq> [] | _ \<Rightarrow> False)"

definition kernel_input :: "'w host_env \<Rightarrow> svalue \<Rightarrow> svalue list \<Rightarrow> svalue \<Rightarrow> svalue" where
  "kernel_input env seed steps sagas_seed =
     (let input = SV_Object [(''seed'', seed), (''steps'', SV_Array steps), (''sagas'', sagas_seed)]
      in case hv_ir env of
           None \<Rightarrow> input
         | Some domain_ir \<Rightarrow>
             let input = (if nonempty_object (needs_table domain_ir) then put_member ''needs'' (needs_table domain_ir) input else input)
             in if nonempty_object (defaults_table domain_ir) then put_member ''defaults'' (defaults_table domain_ir) input else input)"

definition saga_json :: "saga_row \<Rightarrow> svalue" where
  "saga_json r =
     SV_Object [(''process_manager'', SV_String (sg_process_manager r)), (''correlation'', SV_String (sg_correlation r)),
       (''state'', SV_String (sg_state r)), (''memory'', sg_memory r), (''completed_compensations'', sg_completed_compensations r)]"

definition required_field :: "'w host_env \<Rightarrow> string \<Rightarrow> svalue \<Rightarrow> string \<Rightarrow> (string, string) result" where
  "required_field env what e key =
     ok_or (what @ '' missing '' @ [CHR 0x22] @ key @ [CHR 0x22] @ '': '' @ hv_print env e) (sv_str e key)"

definition saga_from_entry :: "'w host_env \<Rightarrow> svalue \<Rightarrow> (string, saga_row) result" where
  "saga_from_entry env e =
     rbind (required_field env ''saga_snapshot entry'' e ''process_manager'') (\<lambda>manager.
     rbind (required_field env ''saga_snapshot entry'' e ''correlation'') (\<lambda>correlation.
     rbind (required_field env ''saga_snapshot entry'' e ''state'') (\<lambda>st.
       Inr \<lparr>sg_process_manager = manager, sg_correlation = correlation, sg_state = st,
            sg_memory = (case sv_get e ''memory'' of Some v \<Rightarrow> v | None \<Rightarrow> SV_Object []),
            sg_completed_compensations = (case sv_get e ''completed_compensations'' of Some v \<Rightarrow> v | None \<Rightarrow> SV_Array [])\<rparr>)))"

definition saga_upserts :: "'w host_env \<Rightarrow> svalue \<Rightarrow> (string, saga_row list) result" where
  "saga_upserts env answer = traverse (saga_from_entry env) (sv_list answer ''saga_snapshot'')"

definition entry_key :: "svalue \<Rightarrow> (string \<times> string) option" where
  "entry_key e =
     Option.bind (sv_str e ''process_manager'') (\<lambda>manager. map_option (\<lambda>correlation. (manager, correlation)) (sv_str e ''correlation''))"

definition saga_deletes :: "svalue \<Rightarrow> saga_row list \<Rightarrow> (string \<times> string) list" where
  "saga_deletes answer held =
     (case Option.bind (sv_get answer ''saga_snapshot'') sv_as_array of
        None \<Rightarrow> []
      | Some entries \<Rightarrow>
          let still_present = List.map_filter entry_key entries
          in filter (\<lambda>key. \<not> List.member still_present key) (map saga_row_key held))"

definition mutation_from :: "'w host_env \<Rightarrow> svalue \<Rightarrow> (string, mutation option) result" where
  "mutation_from env m =
     rbind (required_field env ''mutation record'' m ''aggregate'') (\<lambda>aggregate.
       if \<not> mirrors (hv_config env) aggregate then Inr None
       else rbind (required_field env ''mutation record'' m ''id'') (\<lambda>key.
            rbind (required_field env ''mutation record'' m ''operation'') (\<lambda>operation.
            rbind (ok_or (''mutation record missing '' @ debug_str ''state'' @ '': '' @ hv_print env m) (sv_get m ''state'')) (\<lambda>st.
              Inr (Some \<lparr>mu_aggregate = aggregate, mu_id = key, mu_operation = operation, mu_state = st\<rparr>)))))"

definition last_step_list :: "svalue \<Rightarrow> string \<Rightarrow> svalue list" where
  "last_step_list answer key =
     (let steps = sv_list answer key
      in if steps = [] then [] else (case sv_as_array (last steps) of Some vs \<Rightarrow> vs | None \<Rightarrow> []))"

definition lineage_write_of :: "'w host_env \<Rightarrow> svalue \<Rightarrow> (string, lineage_write option) result" where
  "lineage_write_of env answer =
     (if lc_era (hv_config env) = None then Inr None
      else map_sum (\<lambda>e. e) (\<lambda>ms. Some \<lparr>lw_config = hv_config env, lw_mutations = List.map_filter (\<lambda>m. m) ms\<rparr>)
             (traverse (mutation_from env) (last_step_list answer ''mutations'')))"

definition fill_arguments :: "origin \<Rightarrow> svalue \<Rightarrow> string \<Rightarrow> svalue \<Rightarrow> int \<Rightarrow> svalue" where
  "fill_arguments origin domain_ir verb args now =
     fill_defaults domain_ir verb
       (if origin = Origin_Request then answer_needs domain_ir verb args now else fill_needs domain_ir verb args now)"

text \<open>The step as the kernel runs it, stamped with the role, the actor and the moment.\<close>

definition live_step :: "run_effect \<Rightarrow> string \<Rightarrow> svalue \<Rightarrow> caller \<Rightarrow> int \<Rightarrow> svalue" where
  "live_step effect verb args c stamp =
     (let step = (case effect of Effect_Commit \<Rightarrow> journal_step verb args | Effect_Preview \<Rightarrow> preview_step verb args);
          step = (case ca_role c of Some role \<Rightarrow> put_member ''role'' (SV_String role) step | None \<Rightarrow> step);
          step = (case ca_actor_id c of Some actor \<Rightarrow> put_member ''actor_id'' (SV_String actor) step | None \<Rightarrow> step)
      in put_member ''occurred_at'' (SV_String (iso_utc (max stamp 0))) step)"

section \<open>Reactions for other domains\<close>

definition reaction_line :: "svalue \<Rightarrow> delivery_record \<Rightarrow> svalue" where
  "reaction_line reaction r =
     SV_Object [(''policy'', SV_String (dr_policy r)), (''on'', SV_String (str_or_empty (sv_str reaction ''on''))),
       (''trigger'', SV_String (dr_target_verb r)), (''delivered'', SV_Bool (dr_delivered r)), (''reason'', opt_string (dr_reason r))]"

definition push_reaction :: "svalue \<Rightarrow> svalue \<Rightarrow> svalue" where
  "push_reaction line answer =
     (case sv_get answer ''reactions'' of
        Some (SV_Array lines) \<Rightarrow> put_member ''reactions'' (SV_Array (lines @ [line])) answer
      | _ \<Rightarrow> answer)"

definition dead_letter_of :: "delivery_failure \<Rightarrow> dead_letter" where
  "dead_letter_of f =
     \<lparr>dl_policy = df_policy f, dl_target_domain = df_target_domain f, dl_target_verb = df_target_verb f,
      dl_payload = df_payload f, dl_error = df_error f, dl_attempts = int (df_attempts f)\<rparr>"

record 'w delivering =
  de_answer :: svalue
  de_deliveries :: "svalue list"
  de_first_failure :: "string option"
  de_data :: store_data
  de_world :: 'w

definition deliver_one :: "'w host_env \<Rightarrow> svalue \<Rightarrow> 'w delivering \<Rightarrow> 'w delivering" where
  "deliver_one env reaction d =
     (case deliver_with_retry env reaction (de_world d) of
        (Inr r, w) \<Rightarrow>
          d\<lparr>de_answer := push_reaction (reaction_line reaction r) (de_answer d),
            de_deliveries := de_deliveries d @ [delivery_json r], de_world := w\<rparr>
      | (Inl f, w) \<Rightarrow>
          d\<lparr>de_data := record_dead_letter (dead_letter_of f) (de_data d), de_world := w,
            de_first_failure := (case de_first_failure d of Some e \<Rightarrow> Some e | None \<Rightarrow> Some (df_error f))\<rparr>)"

record dispatch_outcome =
  oc_result :: svalue
  oc_accepted :: bool

type_synonym 'w dispatched = "(string, dispatch_outcome) result \<times> store_data \<times> 'w"

definition deliver_reactions :: "'w host_env \<Rightarrow> svalue \<Rightarrow> bool \<Rightarrow> store_data \<Rightarrow> 'w \<Rightarrow> 'w dispatched" where
  "deliver_reactions env answer accepted data w =
     (let d = fold (deliver_one env) (last_step_list answer ''cross_domain_reactions'')
                \<lparr>de_answer = answer, de_deliveries = [], de_first_failure = None, de_data = data, de_world = w\<rparr>
      in case de_first_failure d of
           Some e \<Rightarrow> (Inl e, de_data d, de_world d)
         | None \<Rightarrow>
             (Inr \<lparr>oc_result = put_member ''cross_domain_deliveries'' (SV_Array (de_deliveries d)) (de_answer d), oc_accepted = accepted\<rparr>,
              de_data d, de_world d))"

section \<open>A dispatch\<close>

definition accepted_step_of :: "'w host_env \<Rightarrow> string \<Rightarrow> svalue \<Rightarrow> svalue \<Rightarrow> saga_row list \<Rightarrow> (string, accepted_step) result" where
  "accepted_step_of env verb args answer held =
     rbind (saga_upserts env answer) (\<lambda>upserts.
     rbind (lineage_write_of env answer) (\<lambda>lineage.
       Inr \<lparr>ac_verb = verb, ac_args = args,
            ac_new_seed = (case sv_get answer ''instances'' of Some v \<Rightarrow> v | None \<Rightarrow> SV_Object []),
            ac_saga_upserts = upserts, ac_saga_deletes = saga_deletes answer held, ac_lineage = lineage\<rparr>))"

text \<open>The arguments the kernel runs and the journal keeps.\<close>

definition filled_arguments :: "'w host_env \<Rightarrow> origin \<Rightarrow> string \<Rightarrow> svalue \<Rightarrow> int \<Rightarrow> svalue" where
  "filled_arguments env origin verb args now =
     (case hv_ir env of Some domain_ir \<Rightarrow> fill_arguments origin domain_ir verb args now | None \<Rightarrow> args)"

definition kernel_answer_to ::
    "'w host_env \<Rightarrow> run_effect \<Rightarrow> string \<Rightarrow> svalue \<Rightarrow> caller \<Rightarrow> int \<Rightarrow> replay_state \<Rightarrow> (string, svalue) result" where
  "kernel_answer_to env effect verb args c stamp st =
     kernel_run env (kernel_input env (replay_seed st) (rs_steps st @ [live_step effect verb args c stamp]) (SV_Array (map saga_json (rs_sagas st))))"

definition run_command ::
    "'w host_env \<Rightarrow> origin \<Rightarrow> run_effect \<Rightarrow> string \<Rightarrow> svalue \<Rightarrow> caller \<Rightarrow> int \<Rightarrow> int \<Rightarrow> store_data \<Rightarrow> 'w \<Rightarrow> 'w dispatched" where
  "run_command env origin effect verb args c now stamp data w =
     (let st = load_unit data; args = filled_arguments env origin verb args now
      in case kernel_answer_to env effect verb args c stamp st of
           Inl e \<Rightarrow> (Inl e, data, w)
         | Inr answer \<Rightarrow>
             if effect = Effect_Preview then (Inr \<lparr>oc_result = answer, oc_accepted = dry_run_accepted answer\<rparr>, data, w)
             else if classify_answer env answer = Answer_Accepted then
               (case accepted_step_of env verb args answer (rs_sagas st) of
                  Inl e \<Rightarrow> (Inl e, data, w)
                | Inr ac \<Rightarrow>
                    (case commit_unit (hv_lower env) ac data of
                       (Inl e, data) \<Rightarrow> (Inl e, data, w)
                     | (Inr _, data) \<Rightarrow> deliver_reactions env answer True data w))
             else deliver_reactions env answer False data w)"

definition dispatch_with ::
    "enforcement \<Rightarrow> 'w host_env \<Rightarrow> origin \<Rightarrow> run_effect \<Rightarrow> string \<Rightarrow> svalue \<Rightarrow> caller \<Rightarrow> int \<Rightarrow> int \<Rightarrow> store_data \<Rightarrow> 'w \<Rightarrow> 'w dispatched" where
  "dispatch_with mode env origin effect verb args c now stamp data w =
     (let checked = (if origin = Origin_HostInternal then c else effective mode c)
      in case run_command env origin effect verb args checked now stamp data w of
           (Inl e, data, w) \<Rightarrow> (Inl e, data, w)
         | (Inr outcome, data, w) \<Rightarrow>
             if mode = Enforcement_Shadow \<and> ca_role c = None \<and> \<not> oc_accepted outcome \<and> refused_for_role (oc_result outcome)
             then run_command env origin effect verb args no_caller now stamp data w
             else (Inr outcome, data, w))"

definition handle_command ::
    "enforcement \<Rightarrow> 'w host_env \<Rightarrow> string \<Rightarrow> svalue \<Rightarrow> string option \<Rightarrow> int \<Rightarrow> int \<Rightarrow> store_data \<Rightarrow> 'w \<Rightarrow> 'w dispatched" where
  "handle_command mode env verb args role =
     dispatch_with mode env (if role = None then Origin_HostInternal else Origin_External) Effect_Commit verb args
       \<lparr>ca_role = role, ca_actor_id = None\<rparr>"

definition handle_as ::
    "enforcement \<Rightarrow> 'w host_env \<Rightarrow> string \<Rightarrow> svalue \<Rightarrow> caller \<Rightarrow> int \<Rightarrow> int \<Rightarrow> store_data \<Rightarrow> 'w \<Rightarrow> 'w dispatched" where
  "handle_as mode env verb args c = dispatch_with mode env Origin_External Effect_Commit verb args c"

definition handle_request ::
    "enforcement \<Rightarrow> 'w host_env \<Rightarrow> string \<Rightarrow> svalue \<Rightarrow> caller \<Rightarrow> int \<Rightarrow> int \<Rightarrow> store_data \<Rightarrow> 'w \<Rightarrow> 'w dispatched" where
  "handle_request mode env verb args c = dispatch_with mode env Origin_Request Effect_Commit verb args c"

definition preview_as ::
    "enforcement \<Rightarrow> 'w host_env \<Rightarrow> string \<Rightarrow> svalue \<Rightarrow> caller \<Rightarrow> int \<Rightarrow> int \<Rightarrow> store_data \<Rightarrow> 'w \<Rightarrow> 'w dispatched" where
  "preview_as mode env verb args c = dispatch_with mode env Origin_External Effect_Preview verb args c"

definition preview_request ::
    "enforcement \<Rightarrow> 'w host_env \<Rightarrow> string \<Rightarrow> svalue \<Rightarrow> caller \<Rightarrow> int \<Rightarrow> int \<Rightarrow> store_data \<Rightarrow> 'w \<Rightarrow> 'w dispatched" where
  "preview_request mode env verb args c = dispatch_with mode env Origin_Request Effect_Preview verb args c"

definition handle_routed_request ::
    "enforcement \<Rightarrow> 'w host_env \<Rightarrow> string \<Rightarrow> svalue \<Rightarrow> svalue \<Rightarrow> caller \<Rightarrow> int \<Rightarrow> int \<Rightarrow> store_data \<Rightarrow> 'w \<Rightarrow> 'w dispatched" where
  "handle_routed_request mode env verb receiver facts c now stamp data w =
     (case routed_invocation receiver facts of
        Inl e \<Rightarrow> (Inl e, data, w)
      | Inr args \<Rightarrow> handle_request mode env verb args c now stamp data w)"

definition handle_facts_request ::
    "enforcement \<Rightarrow> 'w host_env \<Rightarrow> string \<Rightarrow> svalue \<Rightarrow> caller \<Rightarrow> int \<Rightarrow> int \<Rightarrow> store_data \<Rightarrow> 'w \<Rightarrow> 'w dispatched" where
  "handle_facts_request mode env verb facts c now stamp data w =
     (case facts_invocation facts of
        Inl e \<Rightarrow> (Inl e, data, w)
      | Inr args \<Rightarrow> handle_request mode env verb args c now stamp data w)"

section \<open>Reads\<close>

definition read_world :: "'w host_env \<Rightarrow> store_data \<Rightarrow> (string, svalue) result" where
  "read_world env data =
     (let st = read_state data
      in case rs_snapshot st of
           Some s \<Rightarrow>
             if rs_steps st = [] then
               Inr (SV_Object [(''instances'', sn_seed s), (''events'', SV_Array []), (''refusals'', SV_Array [])])
             else kernel_run env (SV_Object [(''seed'', sn_seed s), (''steps'', SV_Array (rs_steps st))])
         | None \<Rightarrow> kernel_run env (SV_Object [(''steps'', SV_Array (rs_steps st))]))"

definition answer_query :: "'w host_env \<Rightarrow> string \<Rightarrow> svalue \<Rightarrow> store_data \<Rightarrow> (string, svalue) result" where
  "answer_query env question args data =
     rbind (read_world env data) (\<lambda>st.
       kernel_run env (SV_Object [(''seed'', (case sv_get st ''instances'' of Some v \<Rightarrow> v | None \<Rightarrow> SV_Object [])),
         (''steps'', SV_Array [SV_Object [(''query'', SV_String question), (''args'', args)]])]))"

definition query_world :: "'w host_env \<Rightarrow> string \<Rightarrow> svalue \<Rightarrow> int \<Rightarrow> store_data \<Rightarrow> (string, svalue) result" where
  "query_world env question args now data =
     answer_query env question (case hv_ir env of Some domain_ir \<Rightarrow> fill_query_needs domain_ir question args now | None \<Rightarrow> args) data"

definition query_request :: "'w host_env \<Rightarrow> string \<Rightarrow> svalue \<Rightarrow> int \<Rightarrow> store_data \<Rightarrow> (string, svalue) result" where
  "query_request env question args now data =
     answer_query env question (case hv_ir env of Some domain_ir \<Rightarrow> answer_query_needs domain_ir question args now | None \<Rightarrow> args) data"

definition present_answer :: "'w host_env \<Rightarrow> svalue \<Rightarrow> (string, svalue) result" where
  "present_answer env answer = kernel_run env (SV_Object [(''present'', answer)])"

end
