(* ===== verification/Member_Access.thy ===== *)
theory Member_Access
  imports Host_Dispatch
begin

text \<open>
  Who may sign in to a site: the membership half of \<open>rust/host/src/auth.rs\<close>. A member is a head row whose state is a
  JSON value holding a role, a disabled flag, the end of an access window and the identity it is linked to.

  The lower-case mapping of a string is a parameter beside those of \<open>host_env\<close>; a decision reads the clock once,
  so the moment is an argument. An update panics when a row's state is no object: the outer \<open>None\<close>.
\<close>

type_synonym head_rows = "(string \<times> svalue) list"

record 'w member_env =
  me_lowercase :: "string \<Rightarrow> string"
  me_host :: "'w host_env"
  me_domain_ir :: svalue

definition member_domain :: "'w member_env \<Rightarrow> string" where
  "member_domain me = str_or_empty (sv_str (me_domain_ir me) ''name'')"

section \<open>Reading a row\<close>

definition value_member :: "svalue \<Rightarrow> string \<Rightarrow> svalue option" where
  "value_member st key = Option.bind (sv_get st key) (\<lambda>v. sv_get v ''value'')"

definition value_str :: "svalue \<Rightarrow> string \<Rightarrow> string option" where
  "value_str st key = Option.bind (value_member st key) sv_as_str"

definition flag :: "svalue \<Rightarrow> string \<Rightarrow> bool" where
  "flag st key = (case Option.bind (sv_get st key) sv_as_bool of Some b \<Rightarrow> b | None \<Rightarrow> False)"

definition is_disabled :: "svalue \<Rightarrow> bool" where "is_disabled st = flag st ''disabled''"
definition is_deleted :: "svalue \<Rightarrow> bool" where "is_deleted st = flag st ''deleted''"

definition EXPIRY_FIELD :: string where "EXPIRY_FIELD = ''access_expires_at''"

datatype window = Window_Open | Window_Ends int | Window_Unreadable

definition expiry_raw :: "svalue \<Rightarrow> svalue option" where
  "expiry_raw st = Option.bind (sv_get st EXPIRY_FIELD) (\<lambda>v. if v = SV_Null then None else Some v)"

definition raw_or_value :: "svalue \<Rightarrow> svalue" where
  "raw_or_value raw = (case sv_get raw ''value'' of Some v \<Rightarrow> v | None \<Rightarrow> raw)"

definition window_of :: "svalue \<Rightarrow> window" where
  "window_of st =
     (case expiry_raw st of
        None \<Rightarrow> Window_Open
      | Some raw \<Rightarrow>
          (case Option.bind (sv_as_str (raw_or_value raw)) parse_iso_utc of None \<Rightarrow> Window_Unreadable | Some n \<Rightarrow> Window_Ends n))"

definition expiry_text :: "(svalue \<Rightarrow> string) \<Rightarrow> svalue \<Rightarrow> string option" where
  "expiry_text print st =
     map_option (\<lambda>raw. case sv_as_str (raw_or_value raw) of Some s \<Rightarrow> s | None \<Rightarrow> print (raw_or_value raw)) (expiry_raw st)"

definition is_expired_at :: "svalue \<Rightarrow> int \<Rightarrow> bool" where
  "is_expired_at st now = (case window_of st of Window_Open \<Rightarrow> False | Window_Unreadable \<Rightarrow> True | Window_Ends ends \<Rightarrow> ends \<le> now)"

definition is_lapsed_at :: "svalue \<Rightarrow> int \<Rightarrow> bool" where
  "is_lapsed_at st now \<longleftrightarrow> is_disabled st \<or> is_expired_at st now"

definition expiry_after_days_from :: "int \<Rightarrow> int \<Rightarrow> string" where
  "expiry_after_days_from days now = iso_utc (max (now + days * 86400) 0)"

definition role_of :: "svalue \<Rightarrow> string option" where "role_of st = value_str st ''role''"
definition linked_identity_id :: "svalue \<Rightarrow> string option" where "linked_identity_id st = value_str st ''identity_id''"

definition ADMIN_ROLES :: "string list" where "ADMIN_ROLES = [''Admin'', ''Owner'']"
definition GRANTABLE_ROLES :: "string list" where "GRANTABLE_ROLES = [''Admin'', ''Owner'', ''Member'']"

definition is_admin_role :: "string \<Rightarrow> bool" where "is_admin_role role = List.member ADMIN_ROLES role"

definition has_admin_role :: "svalue \<Rightarrow> bool" where
  "has_admin_role st = (case role_of st of Some role \<Rightarrow> is_admin_role role | None \<Rightarrow> False)"

definition is_active_admin :: "svalue \<Rightarrow> int \<Rightarrow> bool" where
  "is_active_admin st now \<longleftrightarrow> has_admin_role st \<and> \<not> is_lapsed_at st now"

definition is_last_active_admin :: "head_rows \<Rightarrow> svalue \<Rightarrow> int \<Rightarrow> bool" where
  "is_last_active_admin rows st now \<longleftrightarrow> is_active_admin st now \<and> length (filter (\<lambda>(_, s). is_active_admin s now) rows) \<le> 1"

definition is_open_admin :: "svalue \<Rightarrow> int \<Rightarrow> bool" where
  "is_open_admin st now \<longleftrightarrow> is_active_admin st now \<and> window_of st = Window_Open"

definition strands_open_admin :: "(string \<Rightarrow> string) \<Rightarrow> head_rows \<Rightarrow> string \<Rightarrow> svalue \<Rightarrow> int \<Rightarrow> bool" where
  "strands_open_admin lowercase rows key after now \<longleftrightarrow>
     (let had = list_ex (\<lambda>(_, s). is_open_admin s now) rows;
          keeps = is_open_admin after now \<or>
                  list_ex (\<lambda>(other, s). lowercase other \<noteq> lowercase key \<and> is_open_admin s now) rows;
          first_admin = \<not> list_ex (\<lambda>(_, s). has_admin_role s) rows;
          windowed_first = first_admin \<and> has_admin_role after \<and> \<not> keeps
      in had \<and> \<not> keeps \<or> windowed_first)"

section \<open>Where members are kept\<close>

definition membership_provider :: "svalue \<Rightarrow> (string \<times> string) option" where
  "membership_provider domain_ir =
     Option.bind (sv_get domain_ir ''membership'') (\<lambda>provided.
     Option.bind (sv_str provided ''provider'') (\<lambda>provider.
     map_option (\<lambda>aggregate. (provider, aggregate)) (sv_str provided ''aggregate'')))"

definition membership_names :: "'w member_env \<Rightarrow> string \<Rightarrow> string \<times> string" where
  "membership_names me aggregate =
     (let bare = last_segment aggregate in (bare, snake (hv_lower (me_host me)) bare))"

definition no_membership :: string where
  "no_membership =
     ''this domain attaches no bluebook that provides '' @ debug_str ''membership'' @ '' '' @ em_dash @ '' cannot resolve who may sign in''"

definition membership_aggregate :: "'w member_env \<Rightarrow> (string, string \<times> string) result" where
  "membership_aggregate me = ok_or no_membership (map_option (\<lambda>(_, aggregate). membership_names me aggregate) (membership_provider (me_domain_ir me)))"

definition member_rows :: "'w member_env \<Rightarrow> store_data \<Rightarrow> (string, head_rows) result" where
  "member_rows me data = rbind (membership_aggregate me) (\<lambda>(_, storage). Inr (head_all data (member_domain me) storage))"

definition member_row_by_email :: "'w member_env \<Rightarrow> string \<Rightarrow> store_data \<Rightarrow> (string, svalue option) result" where
  "member_row_by_email me email data = rbind (membership_aggregate me) (\<lambda>(_, storage). Inr (head_by_id data (member_domain me) storage email))"

definition append_member_state :: "'w member_env \<Rightarrow> string \<Rightarrow> svalue \<Rightarrow> store_data \<Rightarrow> (string, unit) result \<times> store_data" where
  "append_member_state me key st data =
     (case membership_aggregate me of
        Inl e \<Rightarrow> (Inl e, data)
      | Inr (aggregate, _) \<Rightarrow>
          put_head (hv_lower (me_host me)) (hv_config (me_host me))
            \<lparr>mu_aggregate = aggregate, mu_id = key, mu_operation = ''save'', mu_state = st\<rparr> data)"

definition amend_members ::
    "'w member_env \<Rightarrow> (head_rows \<Rightarrow> ('t \<times> (string \<times> svalue) option) option) \<Rightarrow> store_data \<Rightarrow> ((string, 't) result \<times> store_data) option" where
  "amend_members me decide data =
     (case membership_aggregate me of
        Inl e \<Rightarrow> Some (Inl e, data)
      | Inr (aggregate, storage) \<Rightarrow> amend_head (hv_lower (me_host me)) (hv_config (me_host me)) aggregate storage decide data)"

definition find_row :: "(string \<Rightarrow> string) \<Rightarrow> head_rows \<Rightarrow> string \<Rightarrow> (string \<times> svalue) option" where
  "find_row lowercase rows target = List.find (\<lambda>(key, _). lowercase key = target) rows"

definition caller_active :: "(string \<Rightarrow> string) \<Rightarrow> head_rows \<Rightarrow> string \<Rightarrow> int \<Rightarrow> bool" where
  "caller_active lowercase rows caller now = list_ex (\<lambda>(key, st). lowercase key = caller \<and> is_active_admin st now) rows"

definition valued :: "string \<Rightarrow> svalue" where
  "valued s = SV_Object [(''value'', SV_String s)]"

section \<open>Changing members\<close>

datatype grant_outcome = Grant_Done | Grant_UnknownPerson | Grant_LastOpenAdmin

definition granted_state :: "svalue \<Rightarrow> string \<Rightarrow> string option \<Rightarrow> svalue option" where
  "granted_state member role expires_at =
     Option.bind (sv_set member ''role'' (valued role)) (\<lambda>st.
       case expires_at of Some instant \<Rightarrow> sv_set st EXPIRY_FIELD (SV_String instant) | None \<Rightarrow> Some (sv_remove st EXPIRY_FIELD))"

definition decide_grant ::
    "(string \<Rightarrow> string) \<Rightarrow> string \<Rightarrow> string \<Rightarrow> string option \<Rightarrow> int \<Rightarrow> head_rows \<Rightarrow> (grant_outcome \<times> (string \<times> svalue) option) option" where
  "decide_grant lowercase target role expires_at now rows =
     (case find_row lowercase rows target of
        None \<Rightarrow> Some (Grant_UnknownPerson, None)
      | Some (key, member) \<Rightarrow>
          map_option (\<lambda>st. if strands_open_admin lowercase rows key st now then (Grant_LastOpenAdmin, None) else (Grant_Done, Some (key, st)))
            (granted_state member role expires_at))"

definition grant_access_until ::
    "'w member_env \<Rightarrow> string \<Rightarrow> string \<Rightarrow> string option \<Rightarrow> int \<Rightarrow> store_data \<Rightarrow> ((string, grant_outcome) result \<times> store_data) option" where
  "grant_access_until me email role expires_at now data =
     amend_members me (decide_grant (me_lowercase me) (me_lowercase me (trim email)) role expires_at now) data"

definition grant_access :: "'w member_env \<Rightarrow> string \<Rightarrow> string \<Rightarrow> int \<Rightarrow> store_data \<Rightarrow> ((string, bool) result \<times> store_data) option" where
  "grant_access me email role now data =
     map_option (\<lambda>(r, data). (map_sum (\<lambda>e. e) (\<lambda>oc. oc = Grant_Done) r, data)) (grant_access_until me email role None now data)"

definition admit_person :: "'w member_env \<Rightarrow> string \<Rightarrow> string \<Rightarrow> store_data \<Rightarrow> (string, bool) result \<times> store_data" where
  "admit_person me email name data =
     (let email = me_lowercase me email
      in case member_rows me data of
           Inl e \<Rightarrow> (Inl e, data)
         | Inr rows \<Rightarrow>
             if list_ex (\<lambda>(key, _). me_lowercase me key = email) rows then (Inr False, data)
             else (case append_member_state me email (SV_Object [(''name'', valued name), (''email'', valued email)]) data of
                     (Inl e, data) \<Rightarrow> (Inl e, data)
                   | (Inr _, data) \<Rightarrow> (Inr True, data)))"

datatype disable_outcome = Disable_Done | Disable_CallerNotAdmin | Disable_SelfDisable | Disable_UnknownPerson | Disable_LastAdmin | Disable_LastOpenAdmin

definition decide_disable ::
    "(string \<Rightarrow> string) \<Rightarrow> string \<Rightarrow> string \<Rightarrow> bool \<Rightarrow> int \<Rightarrow> head_rows \<Rightarrow> (disable_outcome \<times> (string \<times> svalue) option) option" where
  "decide_disable lowercase caller target disable now rows =
     (if \<not> caller_active lowercase rows caller now then Some (Disable_CallerNotAdmin, None)
      else if disable \<and> caller = target then Some (Disable_SelfDisable, None)
      else case find_row lowercase rows target of
             None \<Rightarrow> Some (Disable_UnknownPerson, None)
           | Some (key, st) \<Rightarrow>
               if is_disabled st = disable then Some (Disable_Done, None)
               else if disable \<and> is_last_active_admin rows st now then Some (Disable_LastAdmin, None)
               else map_option (\<lambda>st. if strands_open_admin lowercase rows key st now then (Disable_LastOpenAdmin, None) else (Disable_Done, Some (key, st)))
                      (if disable then sv_set st ''disabled'' (SV_Bool True) else Some (sv_remove st ''disabled'')))"

definition set_person_disabled ::
    "'w member_env \<Rightarrow> string \<Rightarrow> string \<Rightarrow> bool \<Rightarrow> int \<Rightarrow> store_data \<Rightarrow> ((string, disable_outcome) result \<times> store_data) option" where
  "set_person_disabled me caller target disable now data =
     amend_members me (decide_disable (me_lowercase me) (me_lowercase me (trim caller)) (me_lowercase me (trim target)) disable now) data"

datatype delete_outcome = Delete_Done | Delete_CallerNotAdmin | Delete_UnknownPerson | Delete_NotDisabled

definition decide_delete ::
    "(string \<Rightarrow> string) \<Rightarrow> string \<Rightarrow> string \<Rightarrow> int \<Rightarrow> head_rows \<Rightarrow> (delete_outcome \<times> (string \<times> svalue) option) option" where
  "decide_delete lowercase caller target now rows =
     (if \<not> caller_active lowercase rows caller now then Some (Delete_CallerNotAdmin, None)
      else case find_row lowercase rows target of
             None \<Rightarrow> Some (Delete_UnknownPerson, None)
           | Some (key, st) \<Rightarrow>
               if is_deleted st then Some (Delete_Done, None)
               else if \<not> is_disabled st then Some (Delete_NotDisabled, None)
               else map_option (\<lambda>st. (Delete_Done, Some (key, st))) (sv_set st ''deleted'' (SV_Bool True)))"

definition set_person_deleted ::
    "'w member_env \<Rightarrow> string \<Rightarrow> string \<Rightarrow> int \<Rightarrow> store_data \<Rightarrow> ((string, delete_outcome) result \<times> store_data) option" where
  "set_person_deleted me caller target now data =
     amend_members me (decide_delete (me_lowercase me) (me_lowercase me (trim caller)) (me_lowercase me (trim target)) now) data"

datatype role_outcome = Role_Done | Role_CallerNotAdmin | Role_UnknownPerson | Role_LastAdmin | Role_LastOpenAdmin

definition decide_role ::
    "(string \<Rightarrow> string) \<Rightarrow> string \<Rightarrow> string \<Rightarrow> string \<Rightarrow> int \<Rightarrow> head_rows \<Rightarrow> (role_outcome \<times> (string \<times> svalue) option) option" where
  "decide_role lowercase caller target role now rows =
     (if \<not> caller_active lowercase rows caller now then Some (Role_CallerNotAdmin, None)
      else case find_row lowercase rows target of
             None \<Rightarrow> Some (Role_UnknownPerson, None)
           | Some (key, st) \<Rightarrow>
               if role_of st = Some role then Some (Role_Done, None)
               else if \<not> is_admin_role role \<and> is_last_active_admin rows st now then Some (Role_LastAdmin, None)
               else map_option (\<lambda>st. if strands_open_admin lowercase rows key st now then (Role_LastOpenAdmin, None) else (Role_Done, Some (key, st)))
                      (sv_set st ''role'' (valued role)))"

definition set_person_role ::
    "'w member_env \<Rightarrow> string \<Rightarrow> string \<Rightarrow> string \<Rightarrow> int \<Rightarrow> store_data \<Rightarrow> ((string, role_outcome) result \<times> store_data) option" where
  "set_person_role me caller target role now data =
     amend_members me (decide_role (me_lowercase me) (me_lowercase me (trim caller)) (me_lowercase me (trim target)) role now) data"

section \<open>Asking about members\<close>

definition caller_is_admin :: "'w member_env \<Rightarrow> string \<Rightarrow> int \<Rightarrow> store_data \<Rightarrow> (string, bool) result" where
  "caller_is_admin me email now data = map_sum (\<lambda>e. e) (\<lambda>rows. caller_active (me_lowercase me) rows (me_lowercase me email) now) (member_rows me data)"

definition has_access :: "'w member_env \<Rightarrow> string \<Rightarrow> int \<Rightarrow> store_data \<Rightarrow> (string, bool) result" where
  "has_access me email now data =
     map_sum (\<lambda>e. e)
       (\<lambda>rows. list_ex (\<lambda>(key, st). me_lowercase me key = me_lowercase me email \<and> role_of st \<noteq> None \<and> \<not> is_lapsed_at st now) rows)
       (member_rows me data)"

definition active_role :: "'w member_env \<Rightarrow> string \<Rightarrow> int \<Rightarrow> store_data \<Rightarrow> (string, string option) result" where
  "active_role me email now data =
     map_sum (\<lambda>e. e)
       (\<lambda>rows. Option.bind (List.find (\<lambda>(key, st). me_lowercase me key = me_lowercase me email \<and> \<not> is_lapsed_at st now) rows) (\<lambda>(_, st). role_of st))
       (member_rows me data)"

definition member_identity_id :: "'w member_env \<Rightarrow> string \<Rightarrow> store_data \<Rightarrow> (string, string option) result" where
  "member_identity_id me email data =
     map_sum (\<lambda>e. e)
       (\<lambda>rows. Option.bind (List.find (\<lambda>(key, st). me_lowercase me key = me_lowercase me email \<and> \<not> is_deleted st) rows) (\<lambda>(_, st). linked_identity_id st))
       (member_rows me data)"

definition opt_value :: "svalue option \<Rightarrow> svalue" where
  "opt_value v = (case v of Some v \<Rightarrow> v | None \<Rightarrow> SV_Null)"

definition person_json :: "(svalue \<Rightarrow> string) \<Rightarrow> int \<Rightarrow> svalue \<Rightarrow> svalue" where
  "person_json print now st =
     SV_Object
       [(''name'', opt_value (value_member st ''name'')), (''email'', opt_value (value_member st ''email'')),
        (''role'', opt_string (role_of st)), (''linked'', SV_Bool (value_member st ''identity_id'' \<noteq> None)),
        (''granted'', SV_Bool (role_of st \<noteq> None \<and> \<not> is_disabled st \<and> \<not> is_expired_at st now)),
        (''disabled'', SV_Bool (is_disabled st)), (''access_expires_at'', opt_string (expiry_text print st)),
        (''expired'', SV_Bool (is_expired_at st now)), (''identity_id'', opt_string (linked_identity_id st))]"

definition all_people :: "'w member_env \<Rightarrow> int \<Rightarrow> store_data \<Rightarrow> (string, svalue list) result" where
  "all_people me now data =
     map_sum (\<lambda>e. e) (\<lambda>rows. map (person_json (hv_print (me_host me)) now) (filter (\<lambda>st. \<not> is_deleted st) (map snd rows))) (member_rows me data)"

section \<open>Signing a member in\<close>

record session =
  se_identity_id :: string
  se_email :: string
  se_name :: string
  se_role :: "string option"

definition session_caller :: "session option \<Rightarrow> caller" where
  "session_caller s =
     (case s of
        None \<Rightarrow> no_caller
      | Some s \<Rightarrow> \<lparr>ca_role = se_role s, ca_actor_id = (if se_identity_id s = [] then None else Some (se_identity_id s))\<rparr>)"

fun first_some :: "'a option list \<Rightarrow> 'a option" where
  "first_some [] = None"
| "first_some (Some a # rest) = Some a"
| "first_some (None # rest) = first_some rest"

definition identity_id_from_state :: "svalue \<Rightarrow> string option" where
  "identity_id_from_state st =
     first_some [sv_str st ''identity'', value_str st ''identity'', sv_str st ''identity_id'', value_str st ''identity_id'']"

definition resolve_identity :: "svalue \<Rightarrow> string \<Rightarrow> string \<Rightarrow> string option" where
  "resolve_identity instances issuer subject =
     Option.bind (sv_get instances (''Identity::ExternalIdentifier#'' @ issuer @ '':'' @ subject)) identity_id_from_state"

record identity_provider =
  ip_provider :: string
  ip_register :: string
  ip_link :: string
  ip_resolve :: string

definition identity_provider_of :: "svalue \<Rightarrow> identity_provider option" where
  "identity_provider_of domain_ir =
     Option.bind (sv_get domain_ir ''identity'') (\<lambda>provided.
     Option.bind (sv_str provided ''provider'') (\<lambda>provider.
     Option.bind (sv_str provided ''register'') (\<lambda>register.
     Option.bind (sv_str provided ''link'') (\<lambda>link.
     map_option (\<lambda>resolve. \<lparr>ip_provider = provider, ip_register = register, ip_link = link, ip_resolve = resolve\<rparr>)
       (sv_str provided ''resolve'')))))"

definition authorization_grant :: "svalue \<Rightarrow> string option" where
  "authorization_grant domain_ir =
     Option.bind (sv_get domain_ir ''authorization'') (\<lambda>provided.
     Option.bind (sv_str provided ''grant'') (\<lambda>grant.
     map_option (\<lambda>_. grant) (sv_str provided ''assignment_aggregate'')))"

definition resolve_identity_from_head :: "'w member_env \<Rightarrow> string \<Rightarrow> string \<Rightarrow> store_data \<Rightarrow> string option" where
  "resolve_identity_from_head me issuer subject data =
     (case identity_provider_of (me_domain_ir me) of
        None \<Rightarrow> None
      | Some _ \<Rightarrow>
          Option.bind (head_find data [member_domain me, ''Identity''] ''external_identifier'' [(''issuer'', issuer), (''subject'', subject)])
            identity_id_from_state)"

definition session_for_member_by_identity :: "'w member_env \<Rightarrow> string \<Rightarrow> int \<Rightarrow> store_data \<Rightarrow> (string, session option) result" where
  "session_for_member_by_identity me identity_id now data =
     rbind (membership_aggregate me) (\<lambda>(_, storage).
       Inr (Option.bind (head_find data [member_domain me] storage [(''identity_id'', identity_id)]) (\<lambda>st.
         if is_lapsed_at st now then None
         else Option.bind (value_str st ''email'') (\<lambda>email.
              map_option (\<lambda>name. \<lparr>se_identity_id = identity_id, se_email = email, se_name = name, se_role = value_str st ''role''\<rparr>)
                (value_str st ''name'')))))"

text \<open>The first half of \<open>provision\<close>: the member's row and role, when it may be linked.\<close>

definition linkable_member :: "'w member_env \<Rightarrow> string \<Rightarrow> int \<Rightarrow> store_data \<Rightarrow> (string, (svalue \<times> string) option) result" where
  "linkable_member me email now data =
     rbind (member_row_by_email me email data) (\<lambda>row.
       Inr (Option.bind row (\<lambda>member.
         if is_lapsed_at member now then None
         else case (role_of member, value_member member ''identity_id'') of
                (Some role, None) \<Rightarrow> Some (member, role)
              | _ \<Rightarrow> None)))"

text \<open>A command the host sends on its own behalf; a refusal is an error.\<close>

definition system_command ::
    "enforcement \<Rightarrow> 'w member_env \<Rightarrow> string \<Rightarrow> svalue \<Rightarrow> int \<Rightarrow> store_data \<Rightarrow> 'w \<Rightarrow> (string, unit) result \<times> store_data \<times> 'w" where
  "system_command mode me verb args now data w =
     (case handle_command mode (me_host me) verb args None now now data w of
        (Inl e, data, w) \<Rightarrow> (Inl e, data, w)
      | (Inr outcome, data, w) \<Rightarrow>
          if oc_accepted outcome then (Inr (), data, w)
          else (Inl (verb @ '' refused: '' @ hv_print (me_host me) (oc_result outcome)), data, w))"

definition register_identity ::
    "enforcement \<Rightarrow> 'w member_env \<Rightarrow> identity_provider \<Rightarrow> string \<Rightarrow> string \<Rightarrow> string \<Rightarrow> int \<Rightarrow> store_data \<Rightarrow> 'w \<Rightarrow>
     (string, string) result \<times> store_data \<times> 'w" where
  "register_identity mode me provider issuer subject fresh now data w =
     (case resolve_identity_from_head me issuer subject data of
        Some existing \<Rightarrow> (Inr existing, data, w)
      | None \<Rightarrow>
          (case system_command mode me (ip_register provider) (SV_Object [(''identity_id'', valued fresh)]) now data w of
             (Inl e, data, w) \<Rightarrow> (Inl e, data, w)
           | (Inr _, data, w) \<Rightarrow>
               (case system_command mode me (ip_link provider)
                       (SV_Object [(''identity'', SV_String fresh), (''key'', valued (issuer @ '':'' @ subject)), (''issuer'', valued issuer), (''subject'', valued subject)])
                       now data w of
                  (Inl e, data, w) \<Rightarrow> (Inl e, data, w)
                | (Inr _, data, w) \<Rightarrow> (Inr fresh, data, w))))"

definition not_provided :: "string \<Rightarrow> string \<Rightarrow> string" where
  "not_provided what purpose =
     ''this domain attaches no bluebook that provides '' @ debug_str what @ '' '' @ em_dash @ '' cannot '' @ purpose"

text \<open>The second half of \<open>provision\<close>: it writes the row it read in the first half, with the identity added.\<close>

definition link_member ::
    "enforcement \<Rightarrow> 'w member_env \<Rightarrow> string \<Rightarrow> string \<Rightarrow> string \<Rightarrow> string \<Rightarrow> svalue \<Rightarrow> string \<Rightarrow> int \<Rightarrow> store_data \<Rightarrow> 'w \<Rightarrow>
     ((string, session option) result \<times> store_data \<times> 'w) option" where
  "link_member mode me email issuer subject fresh member role now data w =
     (case identity_provider_of (me_domain_ir me) of
        None \<Rightarrow> Some (Inl (not_provided ''identity'' ''register or link an identity''), data, w)
      | Some provider \<Rightarrow>
          (case register_identity mode me provider issuer subject fresh now data w of
             (Inl e, data, w) \<Rightarrow> Some (Inl e, data, w)
           | (Inr identity_id, data, w) \<Rightarrow>
               (case authorization_grant (me_domain_ir me) of
                  None \<Rightarrow> Some (Inl (not_provided ''authorization'' ''grant a role''), data, w)
                | Some grant \<Rightarrow>
                    (case system_command mode me grant
                            (SV_Object [(''actor_id'', valued identity_id), (''role_name'', valued role),
                               (''scope'', valued (lc_domain (hv_config (me_host me)))), (''starts_at'', valued (iso_utc (max now 0)))])
                            now data w of
                       (Inl e, data, w) \<Rightarrow> Some (Inl e, data, w)
                     | (Inr _, data, w) \<Rightarrow>
                         (case sv_set member ''identity_id'' (valued identity_id) of
                            None \<Rightarrow> None
                          | Some st \<Rightarrow>
                              (case append_member_state me email st data of
                                 (Inl e, data) \<Rightarrow> Some (Inl e, data, w)
                               | (Inr _, data) \<Rightarrow>
                                   Some (Inr (Some \<lparr>se_identity_id = identity_id, se_email = email,
                                     se_name = str_or_empty (value_str member ''name''), se_role = Some role\<rparr>), data, w)))))))"

definition provision ::
    "enforcement \<Rightarrow> 'w member_env \<Rightarrow> string \<Rightarrow> string \<Rightarrow> string \<Rightarrow> string \<Rightarrow> int \<Rightarrow> store_data \<Rightarrow> 'w \<Rightarrow>
     ((string, session option) result \<times> store_data \<times> 'w) option" where
  "provision mode me email issuer subject fresh now data w =
     (case linkable_member me email now data of
        Inl e \<Rightarrow> Some (Inl e, data, w)
      | Inr None \<Rightarrow> Some (Inr None, data, w)
      | Inr (Some (member, role)) \<Rightarrow> link_member mode me email issuer subject fresh member role now data w)"

end
