(* ===== verification/Host_Dispatch_Laws.thy ===== *)
theory Host_Dispatch_Laws
  imports Host_Dispatch
begin

text \<open>
  What a dispatch leaves behind: the journal and the snapshot move together and only for an accepted command, the
  host answers like one that keeps the last accepted instances in memory, every reaction for another domain
  is delivered or kept as a dead letter, and a request cannot answer the facts its command asks the host for.
\<close>

section \<open>Deliveries\<close>

text \<open>Two stores that differ at most in their dead letters.\<close>

definition same_rows :: "store_data \<Rightarrow> store_data \<Rightarrow> bool" where
  "same_rows data data' \<longleftrightarrow> data'\<lparr>sd_dead_letters := sd_dead_letters data\<rparr> = data"

lemma same_rows_refl [simp]: "same_rows data data"
  by (simp add: same_rows_def)

lemma same_rows_fields:
  assumes "same_rows data data'"
  shows "sd_journal data' = sd_journal data" "sd_snapshot data' = sd_snapshot data" "sd_sagas data' = sd_sagas data"
    "sd_heads data' = sd_heads data" "sd_eras data' = sd_eras data" "sd_fault data' = sd_fault data"
  using assms by (cases data; cases data'; simp add: same_rows_def)+

lemma same_rows_load: "same_rows data data' \<Longrightarrow> load_unit data' = load_unit data"
  by (simp add: load_unit_def steps_after_def same_rows_fields)

lemma same_rows_trans: "same_rows a b \<Longrightarrow> same_rows b c \<Longrightarrow> same_rows a c"
  by (cases a; cases b; cases c) (auto simp: same_rows_def)

lemma attempts_kept:
  "deliver_with_retry env reaction w = (Inl f, w') \<Longrightarrow> df_attempts f = 3"
  by (auto simp: deliver_with_retry_def MAX_DELIVERY_ATTEMPTS_def split: prod.splits sum.splits)

text \<open>Every reaction attempted, in order, whatever became of the ones before it.\<close>

fun attempt_all ::
    "'w host_env \<Rightarrow> svalue list \<Rightarrow> 'w \<Rightarrow> (svalue \<times> (delivery_failure, delivery_record) result) list \<times> 'w" where
  "attempt_all env [] w = ([], w)"
| "attempt_all env (reaction # reactions) w =
     (let (r, w) = deliver_with_retry env reaction w; (rs, w) = attempt_all env reactions w in ((reaction, r) # rs, w))"

definition failed_attempts :: "(svalue \<times> ('e, 'a) result) list \<Rightarrow> 'e list" where
  "failed_attempts results = List.map_filter (\<lambda>(_, r). case r of Inl f \<Rightarrow> Some f | Inr _ \<Rightarrow> None) results"

definition made_deliveries :: "(svalue \<times> ('e, 'a) result) list \<Rightarrow> (svalue \<times> 'a) list" where
  "made_deliveries results = List.map_filter (\<lambda>(reaction, r). case r of Inl _ \<Rightarrow> None | Inr a \<Rightarrow> Some (reaction, a)) results"

lemma results_simps [simp]:
  "failed_attempts [] = []" "failed_attempts ((reaction, Inl f) # results) = f # failed_attempts results"
  "failed_attempts ((reaction, Inr a) # results) = failed_attempts results"
  "made_deliveries [] = []" "made_deliveries ((reaction, Inl f) # results) = made_deliveries results"
  "made_deliveries ((reaction, Inr a) # results) = (reaction, a) # made_deliveries results"
  by (simp_all add: failed_attempts_def made_deliveries_def map_filter_simps)

definition with_letters :: "store_data \<Rightarrow> delivery_failure list \<Rightarrow> store_data" where
  "with_letters data failed = data\<lparr>sd_dead_letters := sd_dead_letters data @ map dead_letter_of failed\<rparr>"

definition reported :: "svalue \<Rightarrow> (svalue \<times> delivery_record) list \<Rightarrow> svalue" where
  "reported answer made = fold (\<lambda>(reaction, r). push_reaction (reaction_line reaction r)) made answer"

lemma deliver_fold:
  "attempt_all env reactions (de_world d) = (results, w) \<Longrightarrow>
   fold (deliver_one env) reactions d =
     d\<lparr>de_answer := reported (de_answer d) (made_deliveries results),
       de_deliveries := de_deliveries d @ map (delivery_json \<circ> snd) (made_deliveries results),
       de_first_failure := (case de_first_failure d of
          Some e \<Rightarrow> Some e
        | None \<Rightarrow> (case failed_attempts results of f # _ \<Rightarrow> Some (df_error f) | [] \<Rightarrow> None)),
       de_data := with_letters (de_data d) (failed_attempts results), de_world := w\<rparr>"
proof (induction reactions arbitrary: d results)
  case Nil
  then show ?case by (cases d) (auto simp: reported_def with_letters_def split: option.split)
next
  case (Cons reaction reactions)
  obtain r w1 where r: "deliver_with_retry env reaction (de_world d) = (r, w1)" by fastforce
  obtain rest w2 where rest: "attempt_all env reactions w1 = (rest, w2)" by fastforce
  have world: "de_world (deliver_one env reaction d) = w1" using r by (simp add: deliver_one_def split: sum.split)
  have all: "results = (reaction, r) # rest" "w2 = w" using Cons.prems r rest by simp_all
  with Cons.IH [of "deliver_one env reaction d" rest] rest world
  have IH: "fold (deliver_one env) (reaction # reactions) d =
     (deliver_one env reaction d)\<lparr>de_answer := reported (de_answer (deliver_one env reaction d)) (made_deliveries rest),
       de_deliveries := de_deliveries (deliver_one env reaction d) @ map (delivery_json \<circ> snd) (made_deliveries rest),
       de_first_failure := (case de_first_failure (deliver_one env reaction d) of
          Some e \<Rightarrow> Some e
        | None \<Rightarrow> (case failed_attempts rest of f # _ \<Rightarrow> Some (df_error f) | [] \<Rightarrow> None)),
       de_data := with_letters (de_data (deliver_one env reaction d)) (failed_attempts rest), de_world := w\<rparr>"
    by simp
  show ?case
    unfolding IH using r all
    by (cases r) (auto simp: deliver_one_def reported_def with_letters_def record_dead_letter_def split: option.split)
qed

lemma attempt_all_reactions: "map fst (fst (attempt_all env reactions w)) = reactions"
  by (induction reactions arbitrary: w) (simp_all add: split_def Let_def)

lemma attempt_all_attempts: "list_all (\<lambda>f. df_attempts f = 3) (failed_attempts (fst (attempt_all env reactions w)))"
proof (induction reactions arbitrary: w)
  case (Cons reaction reactions)
  obtain r w1 where "deliver_with_retry env reaction w = (r, w1)" by fastforce
  with Cons [of w1] show ?case by (cases r) (auto simp: split_def Let_def dest: attempts_kept)
qed simp

lemma deliver_reactions_eq:
  "deliver_reactions env answer verdict data w =
     (case attempt_all env (last_step_list answer ''cross_domain_reactions'') w of (results, w') \<Rightarrow>
        (case failed_attempts results of
           f # _ \<Rightarrow> Inl (df_error f)
         | [] \<Rightarrow> Inr \<lparr>oc_result = put_member ''cross_domain_deliveries''
                       (SV_Array (map (delivery_json \<circ> snd) (made_deliveries results))) (reported answer (made_deliveries results)),
                     oc_accepted = verdict\<rparr>,
         with_letters data (failed_attempts results), w'))"
proof -
  obtain results w' where "attempt_all env (last_step_list answer ''cross_domain_reactions'') w = (results, w')" by fastforce
  with deliver_fold [of env "last_step_list answer ''cross_domain_reactions''"
      "\<lparr>de_answer = answer, de_deliveries = [], de_first_failure = None, de_data = data, de_world = w\<rparr>" results w']
  show ?thesis by (simp add: deliver_reactions_def Let_def split: list.split)
qed

text \<open>
  C24: every reaction for another domain gets its attempts, whatever became of the ones before it: the results of
  the call are those of attempting each reaction of the last step once, in order, where an attempt that fails is made
  three times. Every failure is kept as a dead letter, in order, and the first of them is the error of the call;
  without one the call reports every delivery, and for each a line among the reactions. Nothing else of the
  store changes.
\<close>

theorem every_reaction_accounted_for:
  "(let (results, w') = attempt_all env (last_step_list answer ''cross_domain_reactions'') w; failed = failed_attempts results
    in map fst results = last_step_list answer ''cross_domain_reactions'' \<and>
       length (made_deliveries results) + length failed = length (last_step_list answer ''cross_domain_reactions'') \<and>
       list_all (\<lambda>f. df_attempts f = 3) failed \<and>
       deliver_reactions env answer verdict data w =
         (if failed = []
          then Inr \<lparr>oc_result = put_member ''cross_domain_deliveries''
                      (SV_Array (map (delivery_json \<circ> snd) (made_deliveries results))) (reported answer (made_deliveries results)),
                    oc_accepted = verdict\<rparr>
          else Inl (df_error (hd failed)),
          data\<lparr>sd_dead_letters := sd_dead_letters data @ map dead_letter_of failed\<rparr>, w'))"
proof -
  let ?reactions = "last_step_list answer ''cross_domain_reactions''"
  obtain results w' where run: "attempt_all env ?reactions w = (results, w')" by fastforce
  have "length (made_deliveries results) + length (failed_attempts results) = length results"
  proof (induction results)
    case (Cons p results)
    then show ?case by (cases p; cases "snd p") auto
  qed simp
  moreover have "map fst results = ?reactions" using attempt_all_reactions [of env ?reactions w] run by simp
  moreover have "list_all (\<lambda>f. df_attempts f = 3) (failed_attempts results)"
    using attempt_all_attempts [of env ?reactions w] run by simp
  moreover have "length results = length ?reactions" using \<open>map fst results = ?reactions\<close> by (metis length_map)
  ultimately show ?thesis
    by (auto simp: run deliver_reactions_eq with_letters_def Let_def split: list.split)
qed

lemma same_rows_letters: "same_rows data (with_letters data failed)"
  by (simp add: same_rows_def with_letters_def)

lemma deliver_reactions_keeps: "deliver_reactions env answer verdict data w = (r, data', w') \<Longrightarrow> same_rows data data'"
  by (auto simp: deliver_reactions_eq same_rows_letters split: prod.splits)

lemma deliver_reactions_verdict:
  "deliver_reactions env answer verdict data w = (Inr outcome, data', w') \<Longrightarrow> oc_accepted outcome = verdict"
  by (auto simp: deliver_reactions_def Let_def split: option.splits)


section \<open>What is committed\<close>

text \<open>The command \<open>verb\<close> with arguments \<open>args\<close>, accepted with the answer \<open>answer\<close>, is the one change of the journal.\<close>

definition committed :: "string \<Rightarrow> svalue \<Rightarrow> svalue \<Rightarrow> store_data \<Rightarrow> store_data \<Rightarrow> bool" where
  "committed verb args answer data data' \<longleftrightarrow>
     sd_journal data' = sd_journal data @ [\<lparr>jr_ordinal = next_ordinal data, jr_step = journal_step verb args\<rparr>] \<and>
     sd_snapshot data' = Some \<lparr>sn_ordinal = next_ordinal data,
       sn_seed = (case sv_get answer ''instances'' of Some v \<Rightarrow> v | None \<Rightarrow> SV_Object []), sn_sagas_backfilled = True\<rparr>"

lemma save_head_rows:
  "sd_journal (save_head lower config m data) = sd_journal data" "sd_snapshot (save_head lower config m data) = sd_snapshot data"
  by (simp_all add: save_head_def Let_def)

lemma save_heads_rows:
  "sd_journal (fold (save_head lower config) ms data) = sd_journal data" "sd_snapshot (fold (save_head lower config) ms data) = sd_snapshot data"
  by (induction ms arbitrary: data) (simp_all add: save_head_rows)

lemma apply_heads_rows:
  "apply_heads lower config ms data = (r, data') \<Longrightarrow> sd_journal data' = sd_journal data \<and> sd_snapshot data' = sd_snapshot data"
  by (auto simp: apply_heads_def save_heads_rows split: if_splits option.splits)

lemma commit_unit_rows:
  "commit_unit lower ac data = (r, data') \<Longrightarrow>
     data' = data \<and> \<not> is_ok r \<or> sd_journal data' = sd_journal (commit_rows ac data) \<and> sd_snapshot data' = sd_snapshot (commit_rows ac data)"
  by (auto simp: commit_unit_def fails_at_def dest: apply_heads_rows split: sum.splits option.splits if_splits)

lemma accepted_step_fields:
  "accepted_step_of env verb args answer held = Inr ac \<Longrightarrow>
     ac_verb ac = verb \<and> ac_args ac = args \<and> ac_new_seed ac = (case sv_get answer ''instances'' of Some v \<Rightarrow> v | None \<Rightarrow> SV_Object [])"
  by (auto simp: accepted_step_of_def)

lemma commit_rows_committed:
  "accepted_step_of env verb args answer held = Inr ac \<Longrightarrow>
   sd_journal data' = sd_journal (commit_rows ac data) \<Longrightarrow> sd_snapshot data' = sd_snapshot (commit_rows ac data) \<Longrightarrow>
     committed verb args answer data data'"
  by (drule accepted_step_fields) (simp add: committed_def commit_rows_def Let_def)

lemma committed_same: "committed verb args answer data data1 \<Longrightarrow> same_rows data1 data' \<Longrightarrow> committed verb args answer data data'"
  by (simp add: committed_def same_rows_fields)

text \<open>One run of a command: what the kernel answered, and what became of the store.\<close>

definition accepted_answer ::
    "'w host_env \<Rightarrow> origin \<Rightarrow> string \<Rightarrow> svalue \<Rightarrow> caller \<Rightarrow> int \<Rightarrow> int \<Rightarrow> store_data \<Rightarrow> svalue \<Rightarrow> bool" where
  "accepted_answer env origin verb args c now stamp data answer \<longleftrightarrow>
     kernel_answer_to env Effect_Commit verb (filled_arguments env origin verb args now) c stamp (load_unit data) = Inr answer \<and>
     classify_answer env answer = Answer_Accepted"

lemma run_command_cases:
  assumes "run_command env origin effect verb args c now stamp data w = (r, data', w')"
  shows "same_rows data data' \<and> (effect = Effect_Preview \<longrightarrow> data' = data \<and> w' = w) \<and>
           (\<forall>outcome. r = Inr outcome \<longrightarrow> effect = Effect_Preview \<or> \<not> oc_accepted outcome)
       \<or> effect = Effect_Commit \<and> (\<exists>answer. accepted_answer env origin verb args c now stamp data answer \<and>
           committed verb (filled_arguments env origin verb args now) answer data data') \<and>
           (\<forall>outcome. r = Inr outcome \<longrightarrow> oc_accepted outcome)"
proof (cases "kernel_answer_to env effect verb (filled_arguments env origin verb args now) c stamp (load_unit data)")
  case (Inr answer)
  note ans = Inr
  show ?thesis
  proof (cases "effect = Effect_Commit \<and> classify_answer env answer = Answer_Accepted")
    case True
    then have acc: "accepted_answer env origin verb args c now stamp data answer" using Inr by (simp add: accepted_answer_def)
    show ?thesis
    proof (cases "accepted_step_of env verb (filled_arguments env origin verb args now) answer (rs_sagas (load_unit data))")
      case (Inl e)
      with assms ans True show ?thesis by (auto simp: run_command_def Let_def)
    next
      case (Inr ac)
      obtain q data1 where q: "commit_unit (hv_lower env) ac data = (q, data1)" by fastforce
      consider "data1 = data" "\<not> is_ok q" | "committed verb (filled_arguments env origin verb args now) answer data data1"
        using commit_unit_rows [OF q] commit_rows_committed [OF Inr] by blast
      then show ?thesis
      proof cases
        case 1
        with assms ans True Inr q show ?thesis by (auto simp: run_command_def Let_def is_ok_def split: sum.splits)
      next
        case 2
        have "committed verb (filled_arguments env origin verb args now) answer data data' \<and> (\<forall>outcome. r = Inr outcome \<longrightarrow> oc_accepted outcome)"
        proof (cases q)
          case (Inl e)
          with assms ans True Inr q 2 show ?thesis by (auto simp: run_command_def Let_def)
        next
          case (Inr u)
          with assms ans True \<open>accepted_step_of _ _ _ _ _ = Inr ac\<close> q have "deliver_reactions env answer True data1 w = (r, data', w')"
            by (simp add: run_command_def Let_def)
          with 2 show ?thesis by (auto dest: deliver_reactions_keeps deliver_reactions_verdict committed_same)
        qed
        with acc True show ?thesis by blast
      qed
    qed
  next
    case False
    with assms Inr show ?thesis
      by (cases effect) (auto simp: run_command_def Let_def dest: deliver_reactions_keeps deliver_reactions_verdict split: if_splits)
  qed
qed (use assms in \<open>auto simp: run_command_def Let_def\<close>)


lemma dispatch_cases:
  assumes "dispatch_with mode env origin effect verb args c now stamp data w = (r, data', w')"
  shows "same_rows data data' \<and> (effect = Effect_Preview \<longrightarrow> data' = data \<and> w' = w) \<and>
           (\<forall>outcome. r = Inr outcome \<longrightarrow> effect = Effect_Preview \<or> \<not> oc_accepted outcome)
       \<or> effect = Effect_Commit \<and> (\<exists>answer checked. accepted_answer env origin verb args checked now stamp data answer \<and>
           committed verb (filled_arguments env origin verb args now) answer data data') \<and>
           (\<forall>outcome. r = Inr outcome \<longrightarrow> oc_accepted outcome)"
proof -
  define checked where "checked = (if origin = Origin_HostInternal then c else effective mode c)"
  obtain r1 data1 w1 where run: "run_command env origin effect verb args checked now stamp data w = (r1, data1, w1)"
    using prod_cases3 by blast
  note first = run_command_cases [OF run]
  show ?thesis
  proof (cases "\<exists>outcome. r1 = Inr outcome \<and> mode = Enforcement_Shadow \<and> ca_role c = None \<and> \<not> oc_accepted outcome \<and> refused_for_role (oc_result outcome)")
    case True
    then have again: "run_command env origin effect verb args no_caller now stamp data1 w1 = (r, data', w')"
      using assms run by (auto simp: dispatch_with_def checked_def [symmetric] Let_def)
    from first True have d1: "same_rows data data1" "effect = Effect_Preview \<longrightarrow> data1 = data \<and> w1 = w" by auto
    then have "next_ordinal data1 = next_ordinal data" "load_unit data1 = load_unit data"
      by (simp_all add: next_ordinal_def same_rows_fields same_rows_load)
    then have "accepted_answer env origin verb args no_caller now stamp data1 answer \<Longrightarrow> accepted_answer env origin verb args no_caller now stamp data answer"
      "committed verb args' answer data1 data' \<Longrightarrow> committed verb args' answer data data'" for answer args'
      using d1 by (simp_all add: accepted_answer_def committed_def same_rows_fields)
    note moved = this
    from run_command_cases [OF again] show ?thesis
    proof (elim disjE)
      assume "same_rows data1 data' \<and> (effect = Effect_Preview \<longrightarrow> data' = data1 \<and> w' = w1) \<and>
        (\<forall>outcome. r = Inr outcome \<longrightarrow> effect = Effect_Preview \<or> \<not> oc_accepted outcome)"
      with d1 show ?thesis by (auto intro: same_rows_trans)
    qed (use moved in blast)
  next
    case False
    then have "r = r1" "data' = data1" "w' = w1"
      using assms run by (auto simp: dispatch_with_def checked_def [symmetric] Let_def split: sum.splits if_splits)
    with first show ?thesis by blast
  qed
qed

text \<open>
  C20: a dispatch in any mode journals its command at most once and only when the kernel accepted it: either the
  store keeps all its rows (up to dead letters) and a commit is reported as refused or as an error, or exactly
  one row is appended, under the next ordinal and with the arguments the kernel ran, together with the snapshot
  of the kernel's instances, and the outcome, if one is reported, says accepted. A preview changes nothing.
\<close>

theorem dispatch_journals_accepted_commands:
  assumes "dispatch_with mode env origin effect verb args c now stamp data w = (r, data', w')"
  shows "same_rows data data' \<and> (effect = Effect_Preview \<longrightarrow> data' = data \<and> w' = w) \<and>
           (\<forall>outcome. r = Inr outcome \<longrightarrow> effect = Effect_Preview \<or> \<not> oc_accepted outcome)
       \<or> effect = Effect_Commit \<and> (\<exists>answer checked. accepted_answer env origin verb args checked now stamp data answer \<and>
           committed verb (filled_arguments env origin verb args now) answer data data') \<and>
           (\<forall>outcome. r = Inr outcome \<longrightarrow> oc_accepted outcome)"
  by (rule dispatch_cases [OF assms])

section \<open>A host without a journal\<close>

text \<open>
  A host that keeps the instances of the last accepted command and everything else of a store but the journal
  and the snapshot. A command runs on those instances alone: nothing is replayed.
\<close>

type_synonym plain_host = "svalue \<times> store_data"

definition without_journal :: "store_data \<Rightarrow> store_data" where
  "without_journal data = data\<lparr>sd_journal := [], sd_snapshot := None\<rparr>"

definition plain_commit :: "(string \<Rightarrow> string) \<Rightarrow> accepted_step \<Rightarrow> plain_host \<Rightarrow> (string, unit) result \<times> plain_host" where
  "plain_commit lower ac p =
     (case fails_at (snd p) Fault_Snapshot of
        Inl e \<Rightarrow> (Inl e, p)
      | Inr _ \<Rightarrow>
          (case fails_at (snd p) Fault_AfterSagas of
             Inl e \<Rightarrow> (Inl e, p)
           | Inr _ \<Rightarrow>
               let rest = (snd p)\<lparr>sd_sagas := fold btree_remove (ac_saga_deletes ac)
                            (fold (\<lambda>saga. btree_insert (saga_row_key saga) saga) (ac_saga_upserts ac) (sd_sagas (snd p)))\<rparr>
               in (case ac_lineage ac of
                     None \<Rightarrow> (Inr (), ac_new_seed ac, rest)
                   | Some lineage \<Rightarrow>
                       (case apply_heads lower (lw_config lineage) (lw_mutations lineage) rest of
                          (r, rest) \<Rightarrow> (r, ac_new_seed ac, rest)))))"

definition plain_deliver :: "'w host_env \<Rightarrow> svalue \<Rightarrow> bool \<Rightarrow> plain_host \<Rightarrow> 'w \<Rightarrow> (string, dispatch_outcome) result \<times> plain_host \<times> 'w" where
  "plain_deliver env answer verdict p w =
     (case deliver_reactions env answer verdict (snd p) w of (r, rest, w) \<Rightarrow> (r, (fst p, rest), w))"

definition plain_run ::
    "'w host_env \<Rightarrow> origin \<Rightarrow> run_effect \<Rightarrow> string \<Rightarrow> svalue \<Rightarrow> caller \<Rightarrow> int \<Rightarrow> int \<Rightarrow> plain_host \<Rightarrow> 'w \<Rightarrow>
     (string, dispatch_outcome) result \<times> plain_host \<times> 'w" where
  "plain_run env origin effect verb args c now stamp p w =
     (let args = filled_arguments env origin verb args now; sagas = map snd (sd_sagas (snd p))
      in case kernel_run env (kernel_input env (fst p) [live_step effect verb args c stamp] (SV_Array (map saga_json sagas))) of
           Inl e \<Rightarrow> (Inl e, p, w)
         | Inr answer \<Rightarrow>
             if effect = Effect_Preview then (Inr \<lparr>oc_result = answer, oc_accepted = dry_run_accepted answer\<rparr>, p, w)
             else if classify_answer env answer = Answer_Accepted then
               (case accepted_step_of env verb args answer sagas of
                  Inl e \<Rightarrow> (Inl e, p, w)
                | Inr ac \<Rightarrow>
                    (case plain_commit (hv_lower env) ac p of
                       (Inl e, p) \<Rightarrow> (Inl e, p, w)
                     | (Inr _, p) \<Rightarrow> plain_deliver env answer True p w))
             else plain_deliver env answer False p w)"

definition plain_dispatch ::
    "enforcement \<Rightarrow> 'w host_env \<Rightarrow> origin \<Rightarrow> run_effect \<Rightarrow> string \<Rightarrow> svalue \<Rightarrow> caller \<Rightarrow> int \<Rightarrow> int \<Rightarrow> plain_host \<Rightarrow> 'w \<Rightarrow>
     (string, dispatch_outcome) result \<times> plain_host \<times> 'w" where
  "plain_dispatch mode env origin effect verb args c now stamp p w =
     (let checked = (if origin = Origin_HostInternal then c else effective mode c)
      in case plain_run env origin effect verb args checked now stamp p w of
           (Inl e, p, w) \<Rightarrow> (Inl e, p, w)
         | (Inr outcome, p, w) \<Rightarrow>
             if mode = Enforcement_Shadow \<and> ca_role c = None \<and> \<not> oc_accepted outcome \<and> refused_for_role (oc_result outcome)
             then plain_run env origin effect verb args no_caller now stamp p w
             else (Inr outcome, p, w))"

text \<open>Any sequence of dispatches, each in its own mode, from any origin, committing or previewing.\<close>

record host_call =
  hc_mode :: enforcement
  hc_origin :: origin
  hc_effect :: run_effect
  hc_verb :: string
  hc_args :: svalue
  hc_caller :: caller
  hc_now :: int
  hc_stamp :: int

fun host_calls :: "'w host_env \<Rightarrow> host_call list \<Rightarrow> store_data \<Rightarrow> 'w \<Rightarrow> (string, dispatch_outcome) result list \<times> store_data \<times> 'w" where
  "host_calls env [] data w = ([], data, w)"
| "host_calls env (k # calls) data w =
     (let (r, data, w) = dispatch_with (hc_mode k) env (hc_origin k) (hc_effect k) (hc_verb k) (hc_args k) (hc_caller k)
                           (hc_now k) (hc_stamp k) data w;
          (rs, data, w) = host_calls env calls data w
      in (r # rs, data, w))"

fun plain_calls :: "'w host_env \<Rightarrow> host_call list \<Rightarrow> plain_host \<Rightarrow> 'w \<Rightarrow> (string, dispatch_outcome) result list \<times> plain_host \<times> 'w" where
  "plain_calls env [] p w = ([], p, w)"
| "plain_calls env (k # calls) p w =
     (let (r, p, w) = plain_dispatch (hc_mode k) env (hc_origin k) (hc_effect k) (hc_verb k) (hc_args k) (hc_caller k)
                        (hc_now k) (hc_stamp k) p w;
          (rs, p, w) = plain_calls env calls p w
      in (r # rs, p, w))"

section \<open>The journal refines it\<close>

text \<open>
  Ordinals count the rows from one, and the snapshot stands for all of them. \<open>plain_of\<close> forgets the journal and
  keeps what a dispatch starts from.
\<close>

definition numbered :: "store_data \<Rightarrow> bool" where
  "numbered data \<longleftrightarrow> map jr_ordinal (sd_journal data) = [1..int (length (sd_journal data))]"

definition snapshot_current :: "store_data \<Rightarrow> bool" where
  "snapshot_current data \<longleftrightarrow> numbered data \<and>
     (case sd_snapshot data of
        None \<Rightarrow> sd_journal data = []
      | Some s \<Rightarrow> sn_sagas_backfilled s \<and> sn_ordinal s = int (length (sd_journal data)))"

definition plain_of :: "store_data \<Rightarrow> plain_host" where
  "plain_of data = (replay_seed (load_unit data), without_journal data)"

lemma numbered_next: "numbered data \<Longrightarrow> next_ordinal data = int (length (sd_journal data)) + 1"
proof (cases "sd_journal data" rule: rev_cases)
  case (snoc rows row)
  assume "numbered data"
  then have "last (map jr_ordinal (sd_journal data)) = last [1..int (length (sd_journal data))]" by (simp add: numbered_def)
  with snoc have "jr_ordinal row = last [1..int (length rows) + 1]" by (simp add: add.commute)
  then have "jr_ordinal row = int (length rows) + 1" by (simp add: upto_rec2)
  with snoc show ?thesis by (simp add: next_ordinal_def)
qed (simp add: next_ordinal_def)

lemma numbered_bound: "numbered data \<Longrightarrow> row \<in> set (sd_journal data) \<Longrightarrow> jr_ordinal row \<le> int (length (sd_journal data))"
proof -
  assume "numbered data" "row \<in> set (sd_journal data)"
  then have "jr_ordinal row \<in> set [1..int (length (sd_journal data))]" unfolding numbered_def by (metis image_eqI list.set_map)
  then show ?thesis by simp
qed

lemma current_load:
  assumes "snapshot_current data"
  shows "rs_steps (load_unit data) = []" "rs_sagas (load_unit data) = map snd (sd_sagas (snd (plain_of data)))"
proof -
  show "rs_steps (load_unit data) = []"
    using assms numbered_bound [of data]
    by (cases "sd_snapshot data")
      (auto simp: snapshot_current_def load_unit_def steps_after_def needs_saga_backfill_def filter_empty_conv not_less Let_def)
qed (simp add: load_unit_def plain_of_def without_journal_def Let_def)

lemma snapshot_current_iff: "sd_journal data' = sd_journal data \<Longrightarrow> sd_snapshot data' = sd_snapshot data \<Longrightarrow> snapshot_current data' = snapshot_current data"
  by (simp add: snapshot_current_def numbered_def split: option.split)

lemma commit_rows_current:
  assumes "snapshot_current data"
  shows "snapshot_current (commit_rows ac data)" "replay_seed (load_unit (commit_rows ac data)) = ac_new_seed ac"
proof -
  have n: "numbered data" using assms by (simp add: snapshot_current_def)
  show "snapshot_current (commit_rows ac data)"
    using n numbered_next [OF n] by (simp add: snapshot_current_def commit_rows_def numbered_def upto_rec2 Let_def)
qed (simp add: commit_rows_def load_unit_def replay_seed_def needs_saga_backfill_def Let_def)

lemma replay_seed_snapshot: "sd_snapshot data' = sd_snapshot data \<Longrightarrow> replay_seed (load_unit data') = replay_seed (load_unit data)"
  by (simp add: load_unit_def replay_seed_def needs_saga_backfill_def Let_def split: option.split)

lemma apply_heads_without_journal:
  "apply_heads lower config ms (without_journal data) = map_prod (\<lambda>r. r) without_journal (apply_heads lower config ms data)"
proof -
  have "save_head lower config m (without_journal data) = without_journal (save_head lower config m data)" for m data
    by (simp add: save_head_def head_all_def without_journal_def Let_def)
  then have "fold (save_head lower config) ms (without_journal data) = without_journal (fold (save_head lower config) ms data)"
    by (induction ms arbitrary: data) simp_all
  then show ?thesis by (simp add: apply_heads_def split: option.split)
qed

lemma commit_refines:
  assumes "snapshot_current data" "commit_unit lower ac data = (r, data')"
  shows "plain_commit lower ac (plain_of data) = (r, plain_of data') \<and> snapshot_current data'"
proof (cases "sd_fault data = Some Fault_Snapshot \<or> sd_fault data = Some Fault_AfterSagas")
  case True
  with assms show ?thesis by (auto simp: commit_unit_def plain_commit_def fails_at_def plain_of_def without_journal_def split: if_splits)
next
  case False
  let ?rest = "(without_journal data)\<lparr>sd_sagas := fold btree_remove (ac_saga_deletes ac)
      (fold (\<lambda>saga. btree_insert (saga_row_key saga) saga) (ac_saga_upserts ac) (sd_sagas (without_journal data)))\<rparr>"
  have rest: "?rest = without_journal (commit_rows ac data)" by (simp add: without_journal_def commit_rows_def Let_def)
  have fault: "sd_fault (without_journal data) = sd_fault data" by (simp add: without_journal_def)
  show ?thesis
  proof (cases "ac_lineage ac")
    case None
    with False assms commit_rows_current [OF assms(1), of ac] fault show ?thesis
      by (auto simp: commit_unit_def plain_commit_def fails_at_def plain_of_def rest Let_def)
  next
    case (Some lineage)
    with False assms(2) have heads: "apply_heads lower (lw_config lineage) (lw_mutations lineage) (commit_rows ac data) = (r, data')"
      by (simp add: commit_unit_def fails_at_def)
    with apply_heads_rows have same: "sd_journal data' = sd_journal (commit_rows ac data)" "sd_snapshot data' = sd_snapshot (commit_rows ac data)" by blast+
    have "plain_commit lower ac (plain_of data) = (r, ac_new_seed ac, without_journal data')"
      using False Some fault heads by (simp add: plain_commit_def fails_at_def plain_of_def rest apply_heads_without_journal Let_def)
    with commit_rows_current [OF assms(1), of ac] same replay_seed_snapshot [OF same(2)] snapshot_current_iff [OF same]
    show ?thesis by (simp add: plain_of_def)
  qed
qed

lemma deliver_refines:
  assumes "deliver_reactions env answer verdict data w = (r, data', w')" "snapshot_current data"
  shows "plain_deliver env answer verdict (plain_of data) w = (r, plain_of data', w') \<and> snapshot_current data'"
proof -
  have same: "sd_journal data' = sd_journal data" "sd_snapshot data' = sd_snapshot data"
    using same_rows_fields [OF deliver_reactions_keeps [OF assms(1)]] by simp_all
  have "deliver_reactions env answer verdict (without_journal data) w = (r, without_journal data', w')"
    using assms(1) by (auto simp: deliver_reactions_eq with_letters_def without_journal_def split: prod.splits)
  with assms(2) same replay_seed_snapshot [OF same(2)] snapshot_current_iff [OF same]
  show ?thesis by (simp add: plain_deliver_def plain_of_def)
qed

lemma run_refines:
  assumes "run_command env origin effect verb args c now stamp data w = (r, data', w')" "snapshot_current data"
  shows "plain_run env origin effect verb args c now stamp (plain_of data) w = (r, plain_of data', w') \<and> snapshot_current data'"
proof -
  define args' where "args' = filled_arguments env origin verb args now"
  note load = current_load [OF assms(2)]
  have asked: "kernel_answer_to env effect verb args' c stamp (load_unit data) =
      kernel_run env (kernel_input env (fst (plain_of data)) [live_step effect verb args' c stamp]
        (SV_Array (map saga_json (map snd (sd_sagas (snd (plain_of data)))))))"
    by (simp add: kernel_answer_to_def load) (simp add: plain_of_def)
  note run = assms(1) [unfolded run_command_def Let_def, folded args'_def, unfolded asked load(2)]
  note plain = plain_run_def [of env origin effect verb args c now stamp "plain_of data" w, unfolded Let_def, folded args'_def]
  show ?thesis
  proof (cases "kernel_run env (kernel_input env (fst (plain_of data)) [live_step effect verb args' c stamp]
        (SV_Array (map saga_json (map snd (sd_sagas (snd (plain_of data)))))))")
    case (Inl e)
    with run assms(2) plain show ?thesis by simp
  next
    case (Inr answer)
    note answer = Inr
    consider "effect = Effect_Preview" | "effect \<noteq> Effect_Preview" "classify_answer env answer \<noteq> Answer_Accepted"
      | "effect \<noteq> Effect_Preview" "classify_answer env answer = Answer_Accepted" by blast
    then show ?thesis
    proof cases
      case 3
      show ?thesis
      proof (cases "accepted_step_of env verb args' answer (map snd (sd_sagas (snd (plain_of data))))")
        case (Inr ac)
        obtain q data1 where q: "commit_unit (hv_lower env) ac data = (q, data1)" by fastforce
        note committed = commit_refines [OF assms(2) q]
        show ?thesis
        proof (cases q)
          case (Inr u)
          with run answer 3 \<open>accepted_step_of _ _ _ _ _ = Inr ac\<close> q have "deliver_reactions env answer True data1 w = (r, data', w')" by simp
          from deliver_refines [OF this] committed plain answer 3 \<open>accepted_step_of _ _ _ _ _ = Inr ac\<close> Inr show ?thesis by simp
        qed (use run plain answer 3 Inr q committed in simp)
      qed (use run plain answer 3 assms(2) in simp)
    qed (use run plain answer assms(2) deliver_refines [of env answer False data w r data' w'] in simp_all)
  qed
qed

lemma dispatch_refines_plain:
  assumes "dispatch_with mode env origin effect verb args c now stamp data w = (r, data', w')" "snapshot_current data"
  shows "plain_dispatch mode env origin effect verb args c now stamp (plain_of data) w = (r, plain_of data', w') \<and> snapshot_current data'"
proof -
  obtain r1 data1 w1 where run: "run_command env origin effect verb args (if origin = Origin_HostInternal then c else effective mode c)
      now stamp data w = (r1, data1, w1)"
    using prod_cases3 by blast
  note first = run_refines [OF run assms(2)]
  show ?thesis
  proof (cases r1)
    case (Inl e)
    with assms(1) run have "r = Inl e" "data' = data1" "w' = w1" by (simp_all add: dispatch_with_def Let_def)
    with Inl first show ?thesis by (simp add: plain_dispatch_def Let_def)
  next
    case (Inr outcome)
    with assms(1) run first run_refines [of env origin effect verb args no_caller now stamp data1 w1 r data' w'] show ?thesis
      by (auto simp: dispatch_with_def plain_dispatch_def Let_def split: if_splits)
  qed
qed

lemma calls_refine_plain:
  "snapshot_current data \<Longrightarrow> host_calls env calls data w = (rs, data', w') \<Longrightarrow>
   plain_calls env calls (plain_of data) w = (rs, plain_of data', w') \<and> snapshot_current data'"
proof (induction calls arbitrary: data w rs)
  case (Cons k calls)
  obtain r data1 w1 where run: "dispatch_with (hc_mode k) env (hc_origin k) (hc_effect k) (hc_verb k) (hc_args k) (hc_caller k)
      (hc_now k) (hc_stamp k) data w = (r, data1, w1)"
    using prod_cases3 by blast
  obtain rs' where "host_calls env calls data1 w1 = (rs', data', w')" "rs = r # rs'"
    using Cons.prems(2) run by (auto split: prod.splits)
  with Cons.IH [of data1 w1 rs'] dispatch_refines_plain [OF run Cons.prems(1)] show ?case by simp
qed simp

text \<open>
  C21: the journal and its snapshot change no answer. Any sequence of dispatches from an empty store answers, call by
  call, and leaves the world outside as a host does that has no journal and runs each command on the instances
  of the last accepted one; and the store ends with the rest of that host's data, with those instances as what
  the next dispatch is seeded with and no journaled step left to replay on top.
\<close>

theorem journal_refines_plain_host:
  "(let (rs, data, w1) = host_calls env calls empty_store w; (rs', p, w2) = plain_calls env calls (SV_Object [], empty_store) w
    in rs = rs' \<and> w1 = w2 \<and> replay_seed (load_unit data) = fst p \<and> without_journal data = snd p \<and> rs_steps (load_unit data) = [])"
proof -
  have "snapshot_current empty_store" "plain_of empty_store = (SV_Object [], empty_store)"
    by (simp_all add: snapshot_current_def numbered_def empty_store_def plain_of_def without_journal_def load_unit_def replay_seed_def Let_def)
  moreover obtain rs data w1 where "host_calls env calls empty_store w = (rs, data, w1)" using prod_cases3 by blast
  ultimately show ?thesis
    using calls_refine_plain [of empty_store env calls w rs data w1] current_load(1) [of data] by (simp add: plain_of_def)
qed

section \<open>Facts the host answers\<close>

definition fact_of :: "svalue \<Rightarrow> string \<Rightarrow> svalue option" where
  "fact_of args need =
     (case sv_get args ''with'' of Some (SV_Object facts) \<Rightarrow> map_of facts need | _ \<Rightarrow> sv_get args need)"

lemma fill_untouched: "need \<notin> fst ` set needs \<Longrightarrow> map_of (fill_facts_with given now needs facts) need = map_of facts need"
  by (induction given now needs facts rule: fill_facts_with.induct) (auto split: option.splits)

lemma fill_only_clock: "need \<noteq> ''now'' \<Longrightarrow> need \<noteq> ''today'' \<Longrightarrow> map_of (fill_facts_with given now needs facts) need = map_of facts need"
  by (induction given now needs facts rule: fill_facts_with.induct) (auto simp: answer_fact_def Let_def split: option.splits if_splits)

lemma fill_replaces:
  "need \<in> fst ` set needs \<Longrightarrow> need = ''now'' \<or> need = ''today'' \<Longrightarrow>
     \<exists>ty. (need, ty) \<in> set needs \<and> map_of (fill_facts_with Replaced now needs facts) need = answer_fact need ty now"
proof (induction needs arbitrary: facts)
  case (Cons n needs)
  obtain m ty where n: "n = (m, ty)" by (cases n)
  show ?case
  proof (cases "need \<in> fst ` set needs")
    case True
    have "\<exists>facts'. fill_facts_with Replaced now (n # needs) facts = fill_facts_with Replaced now needs facts'" using n by auto
    then obtain facts' where "fill_facts_with Replaced now (n # needs) facts = fill_facts_with Replaced now needs facts'" by blast
    with Cons.IH [OF True Cons.prems(2), of facts'] show ?thesis by auto
  next
    case False
    with Cons.prems n have m: "m = need" by auto
    obtain v where "answer_fact need ty now = Some v" using Cons.prems(2) by (auto simp: answer_fact_def Let_def)
    with False n m show ?thesis by (intro exI [of _ ty]) (auto simp: fill_untouched)
  qed
qed simp

lemma fact_of_answered:
  assumes "is_sv_object args" "need \<in> fst ` set (declared_needs domain_ir verb)" "need = ''now'' \<or> need = ''today''"
  shows "\<exists>ty. (need, ty) \<in> set (declared_needs domain_ir verb) \<and> fact_of (answer_needs domain_ir verb args now) need = answer_fact need ty now"
proof -
  obtain ms where args: "args = SV_Object ms" using assms(1) by (cases args) (auto simp: is_sv_object_def)
  have "''with'' \<noteq> ''now''" "''with'' \<noteq> ''today''" by simp_all
  then have keep: "map_of (fill_facts_with Replaced now (declared_needs domain_ir verb) ms) ''with'' = map_of ms ''with''"
    by (rule fill_only_clock)
  show ?thesis
  proof (cases "\<exists>facts. map_of ms ''with'' = Some (SV_Object facts)")
    case True
    then obtain facts where "map_of ms ''with'' = Some (SV_Object facts)" by blast
    with fill_replaces [OF assms(2,3), of now facts] show ?thesis by (simp add: args answer_needs_def change_facts_def fact_of_def)
  next
    case False
    then have "answer_needs domain_ir verb args now = SV_Object (fill_facts_with Replaced now (declared_needs domain_ir verb) ms)"
      by (auto simp: args answer_needs_def change_facts_def split: option.splits svalue.splits)
    with False fill_replaces [OF assms(2,3), of now ms] keep show ?thesis
      by (auto simp: fact_of_def split: option.splits svalue.splits)
  qed
qed

lemma defaults_keep: "map_of facts need = Some v \<Longrightarrow> map_of (fill_missing ds facts) need = Some v"
proof (induction ds facts rule: fill_missing.induct)
  case (2 name d ds facts)
  then show ?case by (cases "name = need") auto
qed simp

lemma defaults_absent:
  "key \<notin> fst ` set ds \<Longrightarrow>
     map_of (fill_missing ds facts) key = map_of facts key"
  by (induction ds facts rule: fill_missing.induct) auto

lemma fact_of_defaults:
  assumes "fact_of args need = Some v" "''with'' \<notin> fst ` set (declared_defaults domain_ir verb)"
  shows "fact_of (fill_defaults domain_ir verb args) need = Some v"
proof (cases args)
  case (SV_Object ms)
  have with_kept: "map_of (fill_missing (declared_defaults domain_ir verb) ms) ''with'' = map_of ms ''with''"
    using assms(2) by (rule defaults_absent)
  show ?thesis
  proof (cases "\<exists>facts. map_of ms ''with'' = Some (SV_Object facts)")
    case True
    with assms(1) SV_Object show ?thesis by (auto simp: fact_of_def fill_defaults_def change_facts_def Let_def defaults_keep)
  next
    case False
    then have "fill_defaults domain_ir verb args =
        SV_Object (fill_missing (declared_defaults domain_ir verb) ms)"
      by (auto simp: SV_Object fill_defaults_def change_facts_def Let_def split: option.splits svalue.splits)
    moreover have "map_of ms need = Some v" using False assms(1) SV_Object by (auto simp: fact_of_def split: option.splits svalue.splits)
    ultimately show ?thesis
      using False with_kept defaults_keep [of ms need v "declared_defaults domain_ir verb"]
      by (auto simp: fact_of_def split: option.splits svalue.splits)
  qed
qed (use assms in \<open>auto simp: fact_of_def\<close>)

text \<open>
  C22: a request from outside the host does not set the clock of the command it sends: in the row that its command
  leaves in the journal, a fact the command needs of the clock is the host's own answer, whatever the request
  carried under that name.
\<close>

theorem request_cannot_set_clock:
  assumes "handle_request mode env verb args c now stamp data w = (r, data', w')" "sd_journal data' \<noteq> sd_journal data"
    and "hv_ir env = Some domain_ir" "need \<in> fst ` set (declared_needs domain_ir verb)" "need = ''now'' \<or> need = ''today''"
    and "is_sv_object args" "''with'' \<notin> fst ` set (declared_defaults domain_ir verb)"
  shows "\<exists>row args' ty. sd_journal data' = sd_journal data @ [row] \<and> jr_step row = journal_step verb args' \<and>
     (need, ty) \<in> set (declared_needs domain_ir verb) \<and> fact_of args' need = answer_fact need ty now"
proof -
  define args' where "args' = filled_arguments env Origin_Request verb args now"
  obtain ty where ty: "(need, ty) \<in> set (declared_needs domain_ir verb)" "fact_of (answer_needs domain_ir verb args now) need = answer_fact need ty now"
    using fact_of_answered [OF assms(6,4,5)] by blast
  obtain v where v: "answer_fact need ty now = Some v" using assms(5) by (auto simp: answer_fact_def Let_def)
  have "fact_of args' need = answer_fact need ty now"
    using fact_of_defaults [OF _ assms(7)] ty v assms(3) by (simp add: args'_def filled_arguments_def fill_arguments_def)
  moreover have "\<exists>answer. committed verb args' answer data data'"
    using dispatch_cases [OF assms(1) [unfolded handle_request_def]] assms(2) same_rows_fields(1) unfolding args'_def by blast
  then have "sd_journal data' = sd_journal data @ [\<lparr>jr_ordinal = next_ordinal data, jr_step = journal_step verb args'\<rparr>]"
    by (auto simp: committed_def)
  ultimately show ?thesis using ty(1) by fastforce
qed


section \<open>Shadow enforcement\<close>

text \<open>
  An actor that states no role and holds no assignment is refused with enforcement off, and let in under shadow
  enforcement, which runs the command again for nobody in particular: shadow enforcement accepts what the host
  without enforcement refuses.
\<close>

theorem shadow_admits_unassigned_actor:
  assumes "ca_role c = None" "ca_actor_id c = Some actor"
    and "run_command env origin Effect_Commit verb args c now stamp data w = (Inr refused, data1, w1)"
    and "\<not> oc_accepted refused" "refused_for_role (oc_result refused)"
    and "run_command env origin Effect_Commit verb args no_caller now stamp data1 w1 = (Inr admitted, data2, w2)" "oc_accepted admitted"
  shows "dispatch_with Enforcement_Off env origin Effect_Commit verb args c now stamp data w = (Inr refused, data1, w1) \<and>
         dispatch_with Enforcement_Shadow env origin Effect_Commit verb args c now stamp data w = (Inr admitted, data2, w2)"
  using assms by (cases "origin = Origin_HostInternal") (simp_all add: dispatch_with_def effective_def Let_def)

section \<open>A commit that fails\<close>

text \<open>
  The commit of the in-memory store is not all or nothing: when a lineage mutation is refused the commit reports
  the failure, but the journal row and the snapshot are already written.
\<close>

theorem failed_commit_is_journaled:
  assumes "sd_fault data = None" "ac_lineage ac = Some lineage" "list_ex (\<lambda>m. mu_operation m \<noteq> ''save'') (lw_mutations lineage)"
  shows "\<exists>e data'. commit_unit lower ac data = (Inl e, data') \<and> sd_journal data' = sd_journal (commit_rows ac data) \<and>
           length (sd_journal data') = Suc (length (sd_journal data)) \<and> sd_snapshot data' = sd_snapshot (commit_rows ac data)"
proof -
  obtain bad where "List.find (\<lambda>m. mu_operation m \<noteq> ''save'') (lw_mutations lineage) = Some bad"
    using assms(3) by (metis find_None_iff list_ex_iff not_None_eq)
  with assms show ?thesis
    by (auto simp: commit_unit_def fails_at_def apply_heads_def commit_rows_def Let_def)
qed

section \<open>Concrete runs\<close>

text \<open>A module whose instances are nested pairs of the seed and the verbs run, and that refuses an unassigned actor.\<close>

definition sample_step_on :: "svalue \<Rightarrow> svalue \<Rightarrow> svalue" where
  "sample_step_on seed step = SV_Array [seed, opt_string (sv_str step ''verb'')]"

definition sample_module :: "svalue \<Rightarrow> (string, svalue) result" where
  "sample_module input =
     (let steps = sv_list input ''steps'';
          stranger = (steps \<noteq> [] \<and> sv_str (last steps) ''actor_id'' = Some ''stranger'')
      in Inr (SV_Object
           [(''instances'', foldl sample_step_on (case sv_get input ''seed'' of Some v \<Rightarrow> v | None \<Rightarrow> SV_Object []) steps),
            (''refusals'', SV_Array (if stranger then [SV_Object [(''kind'', SV_String ''Unauthorized'')]] else []))]))"

definition sample_ir :: svalue where
  "sample_ir =
     SV_Object [(''name'', SV_String ''D''), (''aggregates'', SV_Array [SV_Object [(''name'', SV_String ''A''),
       (''commands'', SV_Array [SV_Object [(''name'', SV_String ''C''),
         (''attributes'', SV_Array [SV_Object [(''name'', SV_String ''now''), (''type'', SV_String ''Integer'')]]),
         (''needs'', SV_Array [SV_Object [(''fact'', SV_String ''now'')]])]])]])]"

definition sample_lineage :: lineage_config where
  "sample_lineage = \<lparr>lc_domain = ''D'', lc_era = None, lc_mirrored = None, lc_seal_every = None\<rparr>"

definition sample_host_env :: "svalue option \<Rightarrow> unit host_env" where
  "sample_host_env ir =
     \<lparr>hv_lower = (\<lambda>c. c), hv_print = (\<lambda>_. []), hv_kernel = sample_module,
      hv_invoke = (\<lambda>_ _ w. (Inl ''down'', w)), hv_ir = ir, hv_config = sample_lineage\<rparr>"

definition sample_args :: svalue where
  "sample_args = SV_Object [(''now'', SV_Number ''7'')]"

definition sample_caller :: caller where
  "sample_caller = \<lparr>ca_role = None, ca_actor_id = Some ''stranger''\<rparr>"

lemma live_step_verb: "sv_str (live_step Effect_Commit verb args c stamp) ''verb'' = Some verb"
  by (auto simp: live_step_def journal_step_def put_member_def sv_str_def Let_def split: option.splits)

lemma sample_input: "sv_list (kernel_input env seed steps sagas) ''steps'' = steps"
  by (auto simp: kernel_input_def sv_list_def put_member_def Let_def split: option.splits)

lemma live_step_actor: "sv_str (live_step Effect_Commit verb args c stamp) ''actor_id'' = ca_actor_id c"
  by (auto simp: live_step_def journal_step_def put_member_def sv_str_def Let_def split: option.splits)

lemma classify_sample:
  "classify_answer env (SV_Object [(''instances'', v), (''refusals'', SV_Array rs)]) = (if rs \<noteq> [] then Answer_Refused else Answer_Accepted)"
  by (simp add: classify_answer_def sv_list_def)

lemma sample_answer:
  assumes "hv_kernel env = sample_module"
  shows "\<exists>v. kernel_answer_to env Effect_Commit verb args c stamp st =
     Inr (SV_Object [(''instances'', v), (''refusals'', SV_Array (if ca_actor_id c = Some ''stranger'' then [SV_Object [(''kind'', SV_String ''Unauthorized'')]] else []))])"
  unfolding kernel_answer_to_def kernel_run_def assms
  by (simp add: sample_module_def sample_input live_step_actor classify_sample Let_def)

lemma sample_refused:
  assumes "hv_kernel env = sample_module" "ca_actor_id c = Some ''stranger''"
  shows "\<exists>oc. run_command env origin Effect_Commit verb args c now stamp data w = (Inr oc, data, w) \<and>
           \<not> oc_accepted oc \<and> refused_for_role (oc_result oc)"
proof -
  obtain v where "kernel_answer_to env Effect_Commit verb (filled_arguments env origin verb args now) c stamp (load_unit data) =
      Inr (SV_Object [(''instances'', v), (''refusals'', SV_Array [SV_Object [(''kind'', SV_String ''Unauthorized'')]])])"
    using sample_answer [OF assms(1), of verb _ c] assms(2) by fastforce
  then show ?thesis
    by (simp add: run_command_def Let_def classify_answer_def sv_list_def deliver_reactions_def last_step_list_def refused_for_role_def
        put_member_def sv_str_def)
qed

lemma sample_accepted_run:
  assumes "hv_kernel env = sample_module" "ca_actor_id c = None" "sd_fault data = None"
  shows "\<exists>oc data'. run_command env origin Effect_Commit verb args c now stamp data w = (Inr oc, data', w) \<and>
           oc_accepted oc \<and> sd_journal data' \<noteq> sd_journal data \<and> sd_heads data' = sd_heads data \<and> sd_fault data' = None"
proof -
  obtain v where "kernel_answer_to env Effect_Commit verb (filled_arguments env origin verb args now) c stamp (load_unit data) =
      Inr (SV_Object [(''instances'', v), (''refusals'', SV_Array [])])"
    using sample_answer [OF assms(1), of verb _ c] assms(2) by fastforce
  then show ?thesis
    using assms(3)
    by (simp add: run_command_def Let_def classify_answer_def sv_list_def deliver_reactions_def last_step_list_def apply_heads_def map_filter_simps
        accepted_step_of_def saga_upserts_def lineage_write_of_def commit_unit_def fails_at_def commit_rows_def put_member_def)
qed

lemma sample_kernel [simp]: "hv_kernel (sample_host_env ir) = sample_module"
  by (simp add: sample_host_env_def)

theorem shadow_admits_unassigned_actor_witness:
  "\<exists>refused admitted data. \<not> oc_accepted refused \<and> oc_accepted admitted \<and> sd_journal data \<noteq> [] \<and>
     dispatch_with Enforcement_Off (sample_host_env None) Origin_Request Effect_Commit ''D::A.C'' sample_args sample_caller 100 100 empty_store () =
       (Inr refused, empty_store, ()) \<and>
     dispatch_with Enforcement_Shadow (sample_host_env None) Origin_Request Effect_Commit ''D::A.C'' sample_args sample_caller 100 100 empty_store () =
       (Inr admitted, data, ())"
proof -
  obtain refused where r: "run_command (sample_host_env None) Origin_Request Effect_Commit ''D::A.C'' sample_args sample_caller 100 100 empty_store () =
      (Inr refused, empty_store, ())" "\<not> oc_accepted refused" "refused_for_role (oc_result refused)"
    using sample_refused [of "sample_host_env None" sample_caller Origin_Request "''D::A.C''" sample_args 100 100 empty_store "()"] by (auto simp: sample_caller_def)
  obtain admitted data where a: "run_command (sample_host_env None) Origin_Request Effect_Commit ''D::A.C'' sample_args no_caller 100 100 empty_store () =
      (Inr admitted, data, ())" "oc_accepted admitted" "sd_journal data \<noteq> []"
    using sample_accepted_run [of "sample_host_env None" no_caller empty_store Origin_Request "''D::A.C''" sample_args 100 100 "()"]
    by (auto simp: no_caller_def empty_store_def)
  have "ca_role sample_caller = None" "ca_actor_id sample_caller = Some ''stranger''" by (simp_all add: sample_caller_def)
  from shadow_admits_unassigned_actor [OF this r a(1,2)] r a show ?thesis by blast
qed

theorem dispatch_journals_accepted_commands_witness:
  "\<exists>r data answer checked. dispatch_with Enforcement_Off (sample_host_env None) Origin_External Effect_Commit ''D::A.C'' sample_args no_caller 100 100 empty_store () = (r, data, ()) \<and>
     accepted_answer (sample_host_env None) Origin_External ''D::A.C'' sample_args checked 100 100 empty_store answer \<and>
     committed ''D::A.C'' (filled_arguments (sample_host_env None) Origin_External ''D::A.C'' sample_args 100) answer empty_store data"
proof -
  obtain oc data where run: "run_command (sample_host_env None) Origin_External Effect_Commit ''D::A.C'' sample_args no_caller 100 100 empty_store () =
      (Inr oc, data, ())" "oc_accepted oc" "sd_journal data \<noteq> sd_journal empty_store"
    using sample_accepted_run [of "sample_host_env None" no_caller empty_store Origin_External "''D::A.C''" sample_args 100 100 "()"]
    by (auto simp: no_caller_def empty_store_def)
  then have d: "dispatch_with Enforcement_Off (sample_host_env None) Origin_External Effect_Commit ''D::A.C'' sample_args no_caller 100 100 empty_store () =
      (Inr oc, data, ())"
    by (simp add: dispatch_with_def effective_def Let_def)
  have "\<not> same_rows empty_store data" using run(3) same_rows_fields(1) by blast
  with dispatch_journals_accepted_commands [OF d] d show ?thesis by blast
qed

theorem request_cannot_set_clock_witness:
  "\<exists>data row args' ty. sd_journal data = [row] \<and> jr_step row = journal_step ''D::A.C'' args' \<and>
     snd (handle_request Enforcement_Off (sample_host_env (Some sample_ir)) ''D::A.C'' sample_args no_caller 100 100 empty_store ()) = (data, ()) \<and>
     fact_of args' ''now'' = answer_fact ''now'' ty 100"
proof -
  obtain oc data where run: "run_command (sample_host_env (Some sample_ir)) Origin_Request Effect_Commit ''D::A.C'' sample_args no_caller 100 100 empty_store () =
      (Inr oc, data, ())" "oc_accepted oc" "sd_journal data \<noteq> sd_journal empty_store"
    using sample_accepted_run [of "sample_host_env (Some sample_ir)" no_caller empty_store Origin_Request "''D::A.C''" sample_args 100 100 "()"]
    by (auto simp: no_caller_def empty_store_def)
  then have d: "handle_request Enforcement_Off (sample_host_env (Some sample_ir)) ''D::A.C'' sample_args no_caller 100 100 empty_store () = (Inr oc, data, ())"
    by (simp add: handle_request_def dispatch_with_def effective_def Let_def)
  have "hv_ir (sample_host_env (Some sample_ir)) = Some sample_ir" by (simp add: sample_host_env_def)
  moreover have "''now'' \<in> fst ` set (declared_needs sample_ir ''D::A.C'')" by code_simp
  moreover have "''with'' \<notin> fst ` set (declared_defaults sample_ir ''D::A.C'')" by code_simp
  moreover have "is_sv_object sample_args" by (simp add: is_sv_object_def sample_args_def)
  moreover have "sd_journal empty_store = []" by (simp add: empty_store_def)
  ultimately show ?thesis using request_cannot_set_clock [OF d run(3)] d by fastforce
qed

definition sample_step :: accepted_step where
  "sample_step =
     \<lparr>ac_verb = ''D::A.C'', ac_args = sample_args, ac_new_seed = SV_Object [], ac_saga_upserts = [], ac_saga_deletes = [],
      ac_lineage = Some \<lparr>lw_config = sample_lineage\<lparr>lc_era := Some 1\<rparr>,
        lw_mutations = [\<lparr>mu_aggregate = ''D::A'', mu_id = ''1'', mu_operation = ''delete'', mu_state = SV_Null\<rparr>]\<rparr>\<rparr>"

theorem failed_commit_is_journaled_witness:
  "\<exists>e data. commit_unit (\<lambda>c. c) sample_step empty_store = (Inl e, data) \<and> length (sd_journal data) = 1"
  using failed_commit_is_journaled [of empty_store sample_step
      "\<lparr>lw_config = sample_lineage\<lparr>lc_era := Some 1\<rparr>,
        lw_mutations = [\<lparr>mu_aggregate = ''D::A'', mu_id = ''1'', mu_operation = ''delete'', mu_state = SV_Null\<rparr>]\<rparr>" "\<lambda>c. c"]
  by (auto simp: sample_step_def empty_store_def)

end
