(* ===== verification/Member_Access_Laws.thy ===== *)
theory Member_Access_Laws
  imports Member_Access Host_Dispatch_Laws
begin

text \<open>
  What the membership operations keep: once a site has an administrator without an end date it always has one, and
  only an active administrator changes another member. The last section states what linking and deleting a
  member do to a row that changed meanwhile or was deleted.
\<close>

section \<open>Administrators without an end date\<close>

lemma open_admin_timeless:
  "is_open_admin st now \<longleftrightarrow> has_admin_role st \<and> \<not> is_disabled st \<and> window_of st = Window_Open"
  by (auto simp: is_open_admin_def is_active_admin_def is_lapsed_at_def is_expired_at_def)

definition rows_ok :: "head_rows \<Rightarrow> bool" where
  "rows_ok rows \<longleftrightarrow> mem_sorted rows \<and> list_all (\<lambda>(_, st). sv_wf st) rows"

definition open_admin_in :: "head_rows \<Rightarrow> bool" where
  "open_admin_in rows \<longleftrightarrow> list_ex (\<lambda>(_, st). is_open_admin st 0) rows"

lemma find_row_mem: "find_row lowercase rows target = Some (key, st) \<Longrightarrow> (key, st) \<in> set rows \<and> lowercase key = target"
  by (auto simp: find_row_def find_Some_iff in_set_conv_nth)

text \<open>A write is safe when the new state is well formed and does not strand the site.\<close>

definition safe_write :: "(string \<Rightarrow> string) \<Rightarrow> head_rows \<Rightarrow> (string \<times> svalue) option \<Rightarrow> bool" where
  "safe_write lowercase rows wr \<longleftrightarrow>
     (case wr of
        None \<Rightarrow> True
      | Some (key, st) \<Rightarrow> sv_wf st \<and> (open_admin_in rows \<longrightarrow>
          is_open_admin st 0 \<or> list_ex (\<lambda>(other, s). other \<noteq> key \<and> is_open_admin s 0) rows))"

lemma btree_insert_mem:
  "mem_sorted m \<Longrightarrow> x \<in> set (btree_insert k v m) \<longleftrightarrow> x = (k, v) \<or> x \<in> set m \<and> fst x \<noteq> k"
proof -
  assume m: "mem_sorted m"
  then have d: "distinct (map fst m)" "distinct (map fst (btree_insert k v m))"
    using btree_insert_sorted [OF m, of k v] by (auto simp: mem_sorted_def)
  obtain l w where x: "x = (l, w)" by (cases x)
  show ?thesis
    unfolding x map_of_eq_Some_iff [OF d(2), symmetric] map_of_btree_insert [OF m] using map_of_eq_Some_iff [OF d(1), of l w] by auto
qed

lemma safe_write_keeps:
  assumes "rows_ok rows" "safe_write lowercase rows (Some (key, st))"
  shows "rows_ok (btree_insert key st rows)" "open_admin_in rows \<Longrightarrow> open_admin_in (btree_insert key st rows)"
proof -
  have m: "mem_sorted rows" using assms(1) by (simp add: rows_ok_def)
  note mem = btree_insert_mem [OF m]
  show "rows_ok (btree_insert key st rows)"
    using assms m by (auto simp: rows_ok_def safe_write_def btree_insert_sorted list_all_iff mem)
  assume "open_admin_in rows"
  with assms(2) consider "is_open_admin st 0" | other s where "(other, s) \<in> set rows" "other \<noteq> key" "is_open_admin s 0"
    by (auto simp: safe_write_def list_ex_iff)
  then show "open_admin_in (btree_insert key st rows)"
  proof cases
    case 1
    with mem [of "(key, st)" key st] show ?thesis by (auto simp: open_admin_in_def list_ex_iff)
  next
    case 2
    with mem [of "(other, s)" key st] show ?thesis by (auto simp: open_admin_in_def list_ex_iff)
  qed
qed

lemma not_strands_safe: "\<not> strands_open_admin lowercase rows key st now \<Longrightarrow> sv_wf st \<Longrightarrow> safe_write lowercase rows (Some (key, st))"
  by (auto simp: strands_open_admin_def safe_write_def open_admin_in_def open_admin_timeless list_ex_iff Let_def)

lemma row_wf: "rows_ok rows \<Longrightarrow> (key, st) \<in> set rows \<Longrightarrow> sv_wf st"
  by (auto simp: rows_ok_def list_all_iff)

lemma valued_wf [simp]: "sv_wf (valued s)"
  by (simp add: valued_def)

lemma granted_wf: "granted_state member role expires_at = Some st \<Longrightarrow> sv_wf member \<Longrightarrow> sv_wf st"
proof -
  assume g: "granted_state member role expires_at = Some st" and m: "sv_wf member"
  then obtain st1 where st1: "sv_set member ''role'' (valued role) = Some st1"
    "(case expires_at of Some instant \<Rightarrow> sv_set st1 EXPIRY_FIELD (SV_String instant) | None \<Rightarrow> Some (sv_remove st1 EXPIRY_FIELD)) = Some st"
    by (auto simp: granted_state_def bind_eq_Some_conv)
  have "sv_wf st1" using sv_set_wf [OF st1(1) m] by simp
  with st1(2) show "sv_wf st" by (auto intro: sv_remove_wf dest: sv_set_wf split: option.splits)
qed

text \<open>What each decision that writes has found and checked.\<close>

lemma grant_writes:
  "decide_grant lowercase target role expires_at now rows = Some (answer, Some (key, st)) \<Longrightarrow>
     \<exists>old. (key, old) \<in> set rows \<and> granted_state old role expires_at = Some st \<and> \<not> strands_open_admin lowercase rows key st now"
  by (auto simp: decide_grant_def dest!: find_row_mem split: option.splits if_splits)

lemma disable_writes:
  "decide_disable lowercase caller target disable now rows = Some (answer, Some (key, st)) \<Longrightarrow>
     caller_active lowercase rows caller now \<and>
     (\<exists>old. (key, old) \<in> set rows \<and> lowercase key = target \<and> (if disable then sv_set old ''disabled'' (SV_Bool True) else Some (sv_remove old ''disabled'')) = Some st) \<and>
     \<not> strands_open_admin lowercase rows key st now \<and> (disable \<longrightarrow> caller \<noteq> target)"
  by (auto simp: decide_disable_def dest!: find_row_mem split: option.splits if_splits)

lemma role_writes:
  "decide_role lowercase caller target role now rows = Some (answer, Some (key, st)) \<Longrightarrow>
     caller_active lowercase rows caller now \<and>
     (\<exists>old. (key, old) \<in> set rows \<and> sv_set old ''role'' (valued role) = Some st) \<and> \<not> strands_open_admin lowercase rows key st now"
  by (auto simp: decide_role_def dest!: find_row_mem split: option.splits if_splits)

lemma delete_writes:
  "decide_delete lowercase caller target now rows = Some (answer, Some (key, st)) \<Longrightarrow>
     caller_active lowercase rows caller now \<and>
     (\<exists>old. (key, old) \<in> set rows \<and> is_disabled old \<and> sv_set old ''deleted'' (SV_Bool True) = Some st)"
  by (auto simp: decide_delete_def dest!: find_row_mem split: option.splits if_splits)

lemma no_write_safe [simp]: "safe_write lowercase rows None"
  by (simp add: safe_write_def)

lemma grant_safe: "rows_ok rows \<Longrightarrow> decide_grant lowercase target role expires_at now rows = Some (answer, wr) \<Longrightarrow> safe_write lowercase rows wr"
proof (cases wr)
  case (Some w)
  assume "rows_ok rows" "decide_grant lowercase target role expires_at now rows = Some (answer, wr)"
  with Some obtain key st old where "wr = Some (key, st)" "(key, old) \<in> set rows" "granted_state old role expires_at = Some st"
    "\<not> strands_open_admin lowercase rows key st now" by (cases w) (auto dest!: grant_writes)
  with \<open>rows_ok rows\<close> show ?thesis by (simp add: not_strands_safe granted_wf row_wf)
qed simp

lemma disable_safe: "rows_ok rows \<Longrightarrow> decide_disable lowercase caller target disable now rows = Some (answer, wr) \<Longrightarrow> safe_write lowercase rows wr"
proof (cases wr)
  case (Some w)
  assume ok: "rows_ok rows" and d: "decide_disable lowercase caller target disable now rows = Some (answer, wr)"
  obtain key st where w: "w = (key, st)" by (cases w)
  from disable_writes [OF d [unfolded Some w]] obtain old where old: "(key, old) \<in> set rows"
    "(if disable then sv_set old ''disabled'' (SV_Bool True) else Some (sv_remove old ''disabled'')) = Some st"
    "\<not> strands_open_admin lowercase rows key st now" by blast
  have "sv_wf st" using old(2) row_wf [OF ok old(1)] by (auto intro: sv_set_wf sv_remove_wf split: if_splits)
  with old(3) show ?thesis unfolding Some w by (intro not_strands_safe)
qed simp

lemma role_safe: "rows_ok rows \<Longrightarrow> decide_role lowercase caller target role now rows = Some (answer, wr) \<Longrightarrow> safe_write lowercase rows wr"
proof (cases wr)
  case (Some w)
  assume "rows_ok rows" "decide_role lowercase caller target role now rows = Some (answer, wr)"
  with Some obtain key st old where w: "wr = Some (key, st)" "(key, old) \<in> set rows" "sv_set old ''role'' (valued role) = Some st"
    "\<not> strands_open_admin lowercase rows key st now" by (cases w) (auto dest!: role_writes)
  have "sv_wf st" using sv_set_wf [OF w(3) row_wf [OF \<open>rows_ok rows\<close> w(2)]] by simp
  with w show ?thesis by (simp add: not_strands_safe)
qed simp

lemma delete_safe: "rows_ok rows \<Longrightarrow> decide_delete lowercase caller target now rows = Some (answer, wr) \<Longrightarrow> safe_write lowercase rows wr"
proof (cases wr)
  case (Some w)
  assume ok: "rows_ok rows" and d: "decide_delete lowercase caller target now rows = Some (answer, wr)"
  obtain key st where w: "w = (key, st)" by (cases w)
  from delete_writes [OF d [unfolded Some w]] obtain old where old: "(key, old) \<in> set rows" "is_disabled old"
    "sv_set old ''deleted'' (SV_Bool True) = Some st" by blast
  have "sv_wf st" using old(3) row_wf [OF ok old(1)] by (auto intro: sv_set_wf)
  moreover have "list_ex (\<lambda>(other, s). other \<noteq> key \<and> is_open_admin s 0) rows" if "open_admin_in rows"
  proof -
    obtain other s where o: "(other, s) \<in> set rows" "is_open_admin s 0" using \<open>open_admin_in rows\<close> by (auto simp: open_admin_in_def list_ex_iff)
    have "other \<noteq> key"
    proof
      assume "other = key"
      with o old(1) ok have "s = old" by (auto simp: rows_ok_def mem_sorted_def dest: eq_key_imp_eq_value)
      with o(2) old(2) show False by (simp add: open_admin_timeless)
    qed
    with o show ?thesis by (auto simp: list_ex_iff)
  qed
  ultimately show ?thesis unfolding Some w by (simp add: safe_write_def)
qed simp

section \<open>On the store\<close>

definition members_of :: "'w member_env \<Rightarrow> store_data \<Rightarrow> head_rows" where
  "members_of me data =
     (case membership_aggregate me of Inr (_, storage) \<Rightarrow> head_all data (lc_domain (hv_config (me_host me))) storage | Inl _ \<Rightarrow> [])"

text \<open>The store keeps its rows in key order, and a site has an administrator without an end date.\<close>

definition members_ok :: "'w member_env \<Rightarrow> store_data \<Rightarrow> bool" where
  "members_ok me data \<longleftrightarrow> mem_sorted (sd_heads data) \<and> rows_ok (members_of me data)"

lemma split_once_first: "split_once pat s = Some (a, r) \<Longrightarrow> pat \<noteq> [] \<Longrightarrow> split_once pat a = None"
proof (induction pat s arbitrary: a r rule: split_once.induct)
  case (2 pat c cs)
  show ?case
  proof (cases "strip_prefix pat (c # cs)")
    case None
    with 2 obtain a' where a: "a = c # a'" "split_once pat cs = Some (a', r)" by auto
    have "strip_prefix pat (c # a') = None"
    proof (rule ccontr)
      assume "strip_prefix pat (c # a') \<noteq> None"
      then obtain x where "c # a' = pat @ x" by (auto simp: strip_prefix_Some)
      then have "c # cs = pat @ x @ pat @ r" using split_once_Some [OF a(2)] by (metis append_Cons append_assoc)
      with None show False by simp
    qed
    with 2 None a show ?thesis by simp
  next
    case (Some rest)
    with 2 show ?thesis by simp
  qed
qed (simp split: if_splits)

lemma last_segment_whole: "rsplit_once ''::'' (last_segment s) = None"
proof (cases "rsplit_once ''::'' s")
  case None
  then show ?thesis by (simp add: last_segment_def)
next
  case (Some p)
  then obtain a b where "split_once (rev ''::'') (rev s) = Some (a, b)" "last_segment s = rev a"
    by (auto simp: last_segment_def rsplit_once_def)
  then show ?thesis by (auto simp: rsplit_once_def dest: split_once_first)
qed

lemma bare_segment: "membership_aggregate me = Inr (aggregate, storage) \<Longrightarrow> storage_name (hv_lower (me_host me)) aggregate = storage"
  by (auto simp: membership_aggregate_def membership_names_def storage_name_def last_segment_whole Let_def)

text \<open>One write of a member's row, and an amendment that makes it.\<close>

lemma put_member_row:
  assumes "membership_aggregate me = Inr (aggregate, storage)"
    and "put_head (hv_lower (me_host me)) (hv_config (me_host me)) \<lparr>mu_aggregate = aggregate, mu_id = key, mu_operation = ''save'', mu_state = st\<rparr> data = (r, data')"
    and "mem_sorted (sd_heads data)"
  shows "\<not> is_ok r \<and> data' = data \<or> is_ok r \<and> mem_sorted (sd_heads data') \<and> members_of me data' = btree_insert key st (members_of me data)"
  using assms bare_segment [OF assms(1)]
  by (auto simp: put_head_def apply_heads_def save_head_def members_of_def head_all_def Let_def btree_insert_sorted map_of_btree_insert
      split: if_splits option.splits)

lemma put_safe:
  assumes "membership_aggregate me = Inr (aggregate, storage)" "members_ok me data"
    and "put_head (hv_lower (me_host me)) (hv_config (me_host me)) \<lparr>mu_aggregate = aggregate, mu_id = key, mu_operation = ''save'', mu_state = st\<rparr> data = (r, data')"
    and "safe_write lowercase (members_of me data) (Some (key, st))"
  shows "members_ok me data' \<and> (open_admin_in (members_of me data) \<longrightarrow> open_admin_in (members_of me data'))"
  using put_member_row [OF assms(1,3)] assms(2) safe_write_keeps [OF _ assms(4)] by (auto simp: members_ok_def)

lemma amend_keeps:
  assumes "amend_members me decide data = Some (r, data')" "members_ok me data"
    and "\<And>answer wr. decide (members_of me data) = Some (answer, wr) \<Longrightarrow> safe_write lowercase (members_of me data) wr"
  shows "members_ok me data' \<and> (open_admin_in (members_of me data) \<longrightarrow> open_admin_in (members_of me data'))"
proof (cases "membership_aggregate me")
  case (Inr p)
  then obtain aggregate storage where m: "membership_aggregate me = Inr (aggregate, storage)" by (cases p) auto
  then have rows: "head_all data (lc_domain (hv_config (me_host me))) storage = members_of me data" by (simp add: members_of_def)
  obtain answer wr where d: "decide (members_of me data) = Some (answer, wr)" using assms(1) m rows
    by (auto simp: amend_members_def amend_head_def)
  show ?thesis
  proof (cases wr)
    case None
    with assms(1,2) m rows d show ?thesis by (simp add: amend_members_def amend_head_def)
  next
    case (Some q)
    obtain key st where q: "q = (key, st)" by (cases q)
    obtain u data1 where put: "put_head (hv_lower (me_host me)) (hv_config (me_host me))
        \<lparr>mu_aggregate = aggregate, mu_id = key, mu_operation = ''save'', mu_state = st\<rparr> data = (u, data1)" by fastforce
    have "data' = data1" using assms(1) m rows d Some q put by (auto simp: amend_members_def amend_head_def split: sum.splits)
    then show ?thesis using put_safe [OF m assms(2) put] assms(3) [OF d] Some q by simp
  qed
qed (use assms in \<open>simp add: amend_members_def\<close>)

section \<open>Any sequence of membership changes\<close>

datatype member_change =
    Grant string string "string option"
  | Admit string string
  | Disable string string bool
  | Delete string string
  | Assign string string string

text \<open>One change at a moment; a change that panics leaves the store as it was.\<close>

fun change_member :: "'w member_env \<Rightarrow> member_change \<times> int \<Rightarrow> store_data \<Rightarrow> store_data" where
  "change_member me (Grant email role expires_at, now) data =
     (case grant_access_until me email role expires_at now data of Some (_, data) \<Rightarrow> data | None \<Rightarrow> data)"
| "change_member me (Admit email name, now) data = snd (admit_person me email name data)"
| "change_member me (Disable caller target disable, now) data =
     (case set_person_disabled me caller target disable now data of Some (_, data) \<Rightarrow> data | None \<Rightarrow> data)"
| "change_member me (Delete caller target, now) data =
     (case set_person_deleted me caller target now data of Some (_, data) \<Rightarrow> data | None \<Rightarrow> data)"
| "change_member me (Assign caller target role, now) data =
     (case set_person_role me caller target role now data of Some (_, data) \<Rightarrow> data | None \<Rightarrow> data)"

lemma admit_keeps:
  assumes "members_ok me data" "member_domain me = lc_domain (hv_config (me_host me))" "\<And>s. me_lowercase me (me_lowercase me s) = me_lowercase me s"
  shows "members_ok me (snd (admit_person me email name data)) \<and>
     (open_admin_in (members_of me data) \<longrightarrow> open_admin_in (members_of me (snd (admit_person me email name data))))"
proof (cases "membership_aggregate me")
  case (Inr p)
  then obtain aggregate storage where m: "membership_aggregate me = Inr (aggregate, storage)" by (cases p) auto
  define mail where "mail = me_lowercase me email"
  define st where "st = SV_Object [(''name'', valued name), (''email'', valued mail)]"
  have rows: "member_rows me data = Inr (members_of me data)" using m assms(2) by (simp add: member_rows_def members_of_def)
  show ?thesis
  proof (cases "list_ex (\<lambda>(key, _). me_lowercase me key = mail) (members_of me data)")
    case True
    with assms(1) rows show ?thesis by (simp add: admit_person_def Let_def mail_def)
  next
    case False
    have other: "other \<noteq> mail" if "(other, s) \<in> set (members_of me data)" for other s
      using False that assms(3) [of email] unfolding mail_def by (auto simp: list_ex_iff)
    then have "safe_write (me_lowercase me) (members_of me data) (Some (mail, st))"
      by (auto simp: safe_write_def open_admin_in_def list_ex_iff st_def)
    moreover obtain u data1 where put: "put_head (hv_lower (me_host me)) (hv_config (me_host me))
        \<lparr>mu_aggregate = aggregate, mu_id = mail, mu_operation = ''save'', mu_state = st\<rparr> data = (u, data1)" by fastforce
    moreover have "snd (admit_person me email name data) = data1"
      using False rows put m by (auto simp: admit_person_def append_member_state_def Let_def mail_def [symmetric] st_def [symmetric] split: sum.splits)
    ultimately show ?thesis using put_safe [OF m assms(1) put] by simp
  qed
qed (use assms in \<open>simp add: admit_person_def member_rows_def Let_def\<close>)

lemma change_keeps:
  assumes "members_ok me data" "member_domain me = lc_domain (hv_config (me_host me))" "\<And>s. me_lowercase me (me_lowercase me s) = me_lowercase me s"
  shows "members_ok me (change_member me k data) \<and> (open_admin_in (members_of me data) \<longrightarrow> open_admin_in (members_of me (change_member me k data)))"
proof (cases "(me, k, data)" rule: change_member.cases)
  case (2 me' email name now data')
  with admit_keeps [OF assms] show ?thesis by simp
qed (use assms(1) grant_safe disable_safe delete_safe role_safe in
      \<open>auto simp: grant_access_until_def set_person_disabled_def set_person_deleted_def set_person_role_def members_ok_def [of me data]
         split: option.splits dest!: amend_keeps [where lowercase = "me_lowercase me"]\<close>)


text \<open>
  C23: once a site has an administrator without an end date, it has one after any sequence of grants, admissions,
  disablings, deletions and role changes, whoever asks for them, at whatever moments.
\<close>

theorem site_keeps_open_admin:
  assumes "members_ok me data" "member_domain me = lc_domain (hv_config (me_host me))" "\<And>s. me_lowercase me (me_lowercase me s) = me_lowercase me s"
    and "open_admin_in (members_of me data)"
  shows "open_admin_in (members_of me (fold (change_member me) changes data))"
proof -
  have "members_ok me (fold (change_member me) changes st) \<and> open_admin_in (members_of me (fold (change_member me) changes st))"
    if "members_ok me st" "open_admin_in (members_of me st)" for st
    using that by (induction changes arbitrary: st) (use change_keeps [OF _ assms(2,3)] in auto)
  with assms(1,4) show ?thesis by blast
qed

text \<open>The account a change is asked for by; a grant and an admission are guarded by the routes that call them.\<close>

fun asked_by :: "member_change \<Rightarrow> string option" where
  "asked_by (Disable caller target disable) = Some caller"
| "asked_by (Delete caller target) = Some caller"
| "asked_by (Assign caller target role) = Some caller"
| "asked_by _ = None"

lemma amend_changes:
  assumes "amend_members me decide data = Some (r, data')" "data' \<noteq> data"
  shows "\<exists>answer key st. decide (members_of me data) = Some (answer, Some (key, st))"
proof (cases "membership_aggregate me")
  case (Inr p)
  with assms show ?thesis
    by (cases p) (auto simp: amend_members_def amend_head_def members_of_def split: option.splits)
qed (use assms in \<open>simp add: amend_members_def\<close>)

text \<open>
  C25: disabling, enabling, deleting and changing the role of a member change the store only for a caller who is an
  active administrator at that moment, and nobody disables themselves.
\<close>

theorem changes_need_an_admin:
  assumes "asked_by k = Some caller" "change_member me (k, now) data \<noteq> data"
  shows "caller_active (me_lowercase me) (members_of me data) (me_lowercase me (trim caller)) now \<and>
     (\<forall>target. k = Disable caller target True \<longrightarrow> me_lowercase me (trim caller) \<noteq> me_lowercase me (trim target))"
proof (cases k)
  case (Disable c target disable)
  with assms obtain r data' where "set_person_disabled me caller target disable now data = Some (r, data')" "data' \<noteq> data"
    by (auto split: option.splits)
  from amend_changes [OF this [unfolded set_person_disabled_def]] Disable assms show ?thesis by (auto dest!: disable_writes)
next
  case (Delete c target)
  with assms obtain r data' where "set_person_deleted me caller target now data = Some (r, data')" "data' \<noteq> data"
    by (auto split: option.splits)
  from amend_changes [OF this [unfolded set_person_deleted_def]] Delete assms show ?thesis by (auto dest!: delete_writes)
next
  case (Assign c target role)
  with assms obtain r data' where "set_person_role me caller target role now data = Some (r, data')" "data' \<noteq> data"
    by (auto split: option.splits)
  from amend_changes [OF this [unfolded set_person_role_def]] Assign assms show ?thesis by (auto dest!: role_writes)
qed (use assms in auto)

section \<open>A deleted member\<close>

lemma flag_remove: "sv_wf st \<Longrightarrow> flag (sv_remove st key) k = (if k = key then False else flag st k)"
  by (simp add: flag_def sv_get_remove)

lemma remove_keeps:
  assumes "sv_wf st"
  shows "role_of (sv_remove st ''disabled'') = role_of st" "window_of (sv_remove st ''disabled'') = window_of st"
    "is_deleted (sv_remove st ''disabled'') = is_deleted st" "\<not> is_disabled (sv_remove st ''disabled'')"
  using assms by (simp_all add: role_of_def value_str_def value_member_def window_of_def expiry_raw_def EXPIRY_FIELD_def
      is_deleted_def is_disabled_def flag_remove sv_get_remove)

text \<open>
  C39: a deleted member is neither admitted afresh nor gone. Admitting the same email again is answered with
  \<open>already there\<close> and writes nothing, and an administrator who enables the deleted row gives it its access back
  while it stays marked as deleted, so that the list of people never shows it.
\<close>

theorem deleted_member_regains_access:
  assumes ok: "members_ok me data" and dom: "member_domain me = lc_domain (hv_config (me_host me))" and era: "lc_era (hv_config (me_host me)) \<noteq> None"
    and one: "distinct (map (\<lambda>(key, _). me_lowercase me key) (members_of me data))"
    and mem: "(key, st) \<in> set (members_of me data)" "me_lowercase me key = me_lowercase me email" "trim email = email"
    and was: "is_deleted st" "is_disabled st" "role_of st \<noteq> None" "window_of st = Window_Open"
    and caller: "caller_active (me_lowercase me) (members_of me data) (me_lowercase me (trim caller)) now"
  shows "admit_person me email name data = (Inr False, data) \<and>
     (\<exists>data' st'. set_person_disabled me caller email False now data = Some (Inr Disable_Done, data') \<and>
        has_access me email now data' = Inr True \<and> (key, st') \<in> set (members_of me data') \<and> is_deleted st' \<and>
        (\<forall>other s. (other, s) \<in> set (members_of me data') \<longrightarrow> me_lowercase me other = me_lowercase me email \<longrightarrow> is_deleted s))"
proof -
  obtain aggregate storage where m: "membership_aggregate me = Inr (aggregate, storage)"
    using mem by (cases "membership_aggregate me") (auto simp: members_of_def)
  have rows: "member_rows me d = Inr (members_of me d)" for d using m dom by (simp add: member_rows_def members_of_def)
  have only: "other = key \<and> s = st" if "(other, s) \<in> set (members_of me data)" "me_lowercase me other = me_lowercase me email" for other s
    using that mem(1,2) one by (force simp: distinct_map inj_on_def)
  have admit: "admit_person me email name data = (Inr False, data)"
    using rows mem(1,2) by (force simp: admit_person_def Let_def list_ex_iff)
  define st' where "st' = sv_remove st ''disabled''"
  have wf: "sv_wf st" using ok mem(1) by (auto simp: members_ok_def intro: row_wf)
  note kept = remove_keeps [OF wf, folded st'_def]
  have find: "find_row (me_lowercase me) (members_of me data) (me_lowercase me email) = Some (key, st)"
  proof (cases "find_row (me_lowercase me) (members_of me data) (me_lowercase me email)")
    case None
    with mem(1,2) show ?thesis by (auto simp: find_row_def find_None_iff)
  next
    case (Some r)
    then show ?thesis using only by (cases r) (auto dest!: find_row_mem)
  qed
  have "\<not> strands_open_admin (me_lowercase me) (members_of me data) key st' now"
  proof -
    have "list_ex (\<lambda>(other, s). me_lowercase me other \<noteq> me_lowercase me key \<and> is_open_admin s now) (members_of me data)"
      if "list_ex (\<lambda>(_, s). is_open_admin s now) (members_of me data)"
      using that only was(2) mem(2) by (fastforce simp: list_ex_iff open_admin_timeless)
    moreover have "list_ex (\<lambda>(_, s). has_admin_role s) (members_of me data)"
      using caller by (auto simp: caller_active_def is_active_admin_def list_ex_iff)
    ultimately show ?thesis by (auto simp: strands_open_admin_def Let_def)
  qed
  then have d: "decide_disable (me_lowercase me) (me_lowercase me (trim caller)) (me_lowercase me (trim email)) False now (members_of me data) =
      Some (Disable_Done, Some (key, st'))"
    using caller find was(2) mem(3) by (simp add: decide_disable_def st'_def)
  obtain u data' where put: "put_head (hv_lower (me_host me)) (hv_config (me_host me))
      \<lparr>mu_aggregate = aggregate, mu_id = key, mu_operation = ''save'', mu_state = st'\<rparr> data = (u, data')" by fastforce
  have u: "u = Inr ()" using put era by (auto simp: put_head_def apply_heads_def)
  have "head_all data (lc_domain (hv_config (me_host me))) storage = members_of me data" using m by (simp add: members_of_def)
  with d m put u have set: "set_person_disabled me caller email False now data = Some (Inr Disable_Done, data')"
    by (simp add: set_person_disabled_def amend_members_def amend_head_def)
  have sorted: "mem_sorted (sd_heads data)" "mem_sorted (members_of me data)" using ok by (simp_all add: members_ok_def rows_ok_def)
  have "members_of me data' = btree_insert key st' (members_of me data)"
    using put_member_row [OF m put sorted(1)] u by simp
  then have rows': "(other, s) \<in> set (members_of me data') \<longleftrightarrow> (other, s) = (key, st') \<or> (other, s) \<in> set (members_of me data) \<and> other \<noteq> key" for other s
    using btree_insert_mem [OF sorted(2), of "(other, s)" key st'] by simp
  have "has_access me email now data' = Inr True"
    using rows' [of key st'] kept was mem(2) by (auto simp: has_access_def rows list_ex_iff is_lapsed_at_def is_expired_at_def intro!: bexI [of _ "(key, st')"])
  moreover have "is_deleted s" if "(other, s) \<in> set (members_of me data')" "me_lowercase me other = me_lowercase me email" for other s
    using that rows' only kept was(1) by auto
  ultimately show ?thesis using admit set rows' kept was(1) by blast
qed

section \<open>Linking\<close>

lemma map_of_btree_insert_self: "map_of (btree_insert k v m) k = Some v"
  by (induction k v m rule: btree_insert.induct) auto

lemma put_then_head:
  assumes "membership_aggregate me = Inr (aggregate, storage)"
    and "append_member_state me key st data = (Inr (), data')"
  shows "head_by_id data' (lc_domain (hv_config (me_host me))) storage key = Some st"
  using assms bare_segment [OF assms(1)]
  by (auto simp: append_member_state_def put_head_def apply_heads_def save_head_def head_by_id_def head_all_def Let_def map_of_btree_insert_self
      split: if_splits option.splits)

lemma flag_set: "sv_set st key v = Some st' \<Longrightarrow> k \<noteq> key \<Longrightarrow> flag st' k = flag st k"
  by (simp add: flag_def sv_get_set)

text \<open>
  Linking a member writes back the row it read before its commands ran. Whatever happened to the row in between,
  the row afterwards is enabled and has the role and the window of the first reading: disabling the member while
  the link is under way is undone.
\<close>

theorem linking_restores_old_row:
  assumes "linkable_member me email first data0 = Inr (Some (member, role))"
    and "link_member mode me email issuer subject fresh member role now data w = Some (Inr (Some s), data', w')"
    and "membership_aggregate me = Inr (aggregate, storage)"
  shows "\<exists>st. head_by_id data' (lc_domain (hv_config (me_host me))) storage email = Some st \<and>
     \<not> is_disabled st \<and> role_of st = Some role \<and> window_of st = window_of member"
proof -
  have member: "\<not> is_disabled member" "role_of member = Some role"
    using assms(1) by (auto simp: linkable_member_def is_lapsed_at_def bind_eq_Some_conv split: if_splits option.splits)
  obtain st identity_id data1 where st: "sv_set member ''identity_id'' (valued identity_id) = Some st" "append_member_state me email st data1 = (Inr (), data')"
    using assms(2) by (auto simp: link_member_def split: option.splits prod.splits sum.splits)
  have "sv_get st k = sv_get member k" if "k \<noteq> ''identity_id''" for k using sv_get_set [OF st(1)] that by simp
  then have "is_disabled st = is_disabled member" "role_of st = role_of member" "window_of st = window_of member"
    by (simp_all add: is_disabled_def flag_def role_of_def value_str_def value_member_def window_of_def expiry_raw_def EXPIRY_FIELD_def)
  with member put_then_head [OF assms(3) st(2)] show ?thesis by simp
qed


section \<open>A concrete site\<close>

definition site_ir :: svalue where
  "site_ir =
     SV_Object [(''name'', SV_String ''D''),
       (''membership'', SV_Object [(''provider'', SV_String ''Membership''), (''aggregate'', SV_String ''Membership::Person'')]),
       (''identity'', SV_Object [(''provider'', SV_String ''Identity''), (''register'', SV_String ''Identity::Identity.Register''),
          (''link'', SV_String ''Identity::ExternalIdentifier.Link''), (''resolve'', SV_String ''Identity::ExternalIdentifier.ResolvedBy'')]),
       (''authorization'', SV_Object [(''grant'', SV_String ''Governance::RoleAssignment.Assign''),
          (''assignment_aggregate'', SV_String ''Governance::RoleAssignment'')])]"

definition site_env :: "unit member_env" where
  "site_env =
     \<lparr>me_lowercase = (\<lambda>s. s), me_host = (sample_host_env None)\<lparr>hv_config := sample_lineage\<lparr>lc_era := Some 1\<rparr>\<rparr>, me_domain_ir = site_ir\<rparr>"

definition alice :: svalue where
  "alice = SV_Object [(''role'', valued ''Owner'')]"

definition bob :: svalue where
  "bob = SV_Object [(''role'', valued ''Admin''), (''disabled'', SV_Bool True), (''deleted'', SV_Bool True)]"

definition carol :: svalue where
  "carol = SV_Object [(''role'', valued ''Member'')]"

definition site_of :: "head_rows \<Rightarrow> store_data" where
  "site_of rows = empty_store\<lparr>sd_heads := [((''D'', ''Person''), rows)]\<rparr>"

definition site_rows :: head_rows where
  "site_rows = [(''alice'', alice), (''bob'', bob), (''carol'', carol)]"

lemma site_members [simp]: "members_of site_env (site_of rows) = rows" "membership_aggregate site_env = Inr (''Person'', ''Person'')"
proof -
  show m: "membership_aggregate site_env = Inr (''Person'', ''Person'')" by code_simp
  show "members_of site_env (site_of rows) = rows"
    by (simp add: members_of_def m site_of_def head_all_def) (simp add: site_env_def sample_lineage_def)
qed

lemma site_env_simps [simp]:
  "me_lowercase site_env = (\<lambda>s. s)" "member_domain site_env = ''D''" "lc_domain (hv_config (me_host site_env)) = ''D''"
  "lc_era (hv_config (me_host site_env)) = Some 1"
  by (simp_all add: site_env_def site_ir_def member_domain_def sv_str_def str_or_empty_def sample_lineage_def)

lemma site_ok: "members_ok site_env (site_of site_rows)"
proof -
  have "rows_ok site_rows" by code_simp
  then show ?thesis by (simp add: members_ok_def mem_sorted_def) (simp add: site_of_def)
qed

theorem site_keeps_open_admin_witness:
  "open_admin_in (members_of site_env (fold (change_member site_env) [(Disable ''alice'' ''alice'' True, 5), (Assign ''alice'' ''alice'' ''Member'', 6)] (site_of site_rows)))"
proof (rule site_keeps_open_admin)
  show "open_admin_in (members_of site_env (site_of site_rows))" unfolding site_members by code_simp
qed (simp_all add: site_ok)

theorem changes_need_an_admin_witness:
  "caller_active (\<lambda>s. s) site_rows (trim ''alice'') 5 \<and> change_member site_env (Disable ''alice'' ''carol'' True, 5) (site_of site_rows) \<noteq> site_of site_rows"
proof -
  have "change_member site_env (Disable ''alice'' ''carol'' True, 5) (site_of site_rows) \<noteq> site_of site_rows" by code_simp
  with changes_need_an_admin [of "Disable ''alice'' ''carol'' True" "''alice''" site_env 5 "site_of site_rows"] show ?thesis
    by (simp del: change_member.simps)
qed

theorem deleted_member_regains_access_witness:
  "\<exists>data' st'. set_person_disabled site_env ''alice'' ''bob'' False 5 (site_of site_rows) = Some (Inr Disable_Done, data') \<and>
     has_access site_env ''bob'' 5 data' = Inr True \<and> (''bob'', st') \<in> set (members_of site_env data') \<and> is_deleted st'"
proof -
  have "is_deleted bob" "is_disabled bob" "role_of bob \<noteq> None" "window_of bob = Window_Open" by code_simp+
  moreover have "caller_active (\<lambda>s. s) site_rows (trim ''alice'') 5" by code_simp
  moreover have "trim ''bob'' = ''bob''" by code_simp
  ultimately show ?thesis
    using deleted_member_regains_access [OF site_ok, of "''bob''" bob "''bob''" "''alice''" 5]
    by (simp add: site_rows_def) blast
qed


lemma site_system_command:
  assumes "sd_fault data = None"
  shows "\<exists>data'. system_command Enforcement_Off site_env verb args now data w = (Inr (), data', w) \<and>
           sd_heads data' = sd_heads data \<and> sd_fault data' = None"
proof -
  have "hv_kernel (me_host site_env) = sample_module" by (simp add: site_env_def)
  from sample_accepted_run [OF this, of "\<lparr>ca_role = None, ca_actor_id = None\<rparr>" data Origin_HostInternal verb args now now w] assms
  show ?thesis by (auto simp: system_command_def handle_command_def dispatch_with_def)
qed

text \<open>The member \<open>carol\<close> is disabled after the linking has read her row.\<close>

definition carol_disabled :: svalue where
  "carol_disabled = SV_Object [(''role'', valued ''Member''), (''disabled'', SV_Bool True)]"

lemma site_disables: "change_member site_env (Disable ''alice'' ''carol'' True, 5) (site_of site_rows) =
    site_of [(''alice'', alice), (''bob'', bob), (''carol'', carol_disabled)]"
  by code_simp

lemma site_links:
  assumes "sd_fault data = None" "map_of (sd_heads data) (''D'', ''external_identifier'') = None"
    "map_of (sd_heads data) (''Identity'', ''external_identifier'') = None"
  shows "\<exists>s data'. link_member Enforcement_Off site_env email issuer subject fresh carol ''Member'' now data () = Some (Inr (Some s), data', ())"
proof -
  obtain provider grant where p: "identity_provider_of (me_domain_ir site_env) = Some provider" "authorization_grant (me_domain_ir site_env) = Some grant"
    by (simp add: site_env_def site_ir_def identity_provider_of_def authorization_grant_def sv_str_def)
  have none: "resolve_identity_from_head site_env issuer subject data = None"
    using assms p by (simp add: resolve_identity_from_head_def head_find_def first_heads_def map_filter_simps)
  obtain d1 where d1: "system_command Enforcement_Off site_env (ip_register provider) (SV_Object [(''identity_id'', valued fresh)]) now data () = (Inr (), d1, ())"
    "sd_fault d1 = None"
    using site_system_command [OF assms(1)] by blast
  obtain d2 where d2: "system_command Enforcement_Off site_env (ip_link provider)
      (SV_Object [(''identity'', SV_String fresh), (''key'', valued (issuer @ '':'' @ subject)), (''issuer'', valued issuer), (''subject'', valued subject)])
      now d1 () = (Inr (), d2, ())" "sd_fault d2 = None"
    using site_system_command [OF d1(2)] by blast
  obtain d3 where d3: "system_command Enforcement_Off site_env grant
      (SV_Object [(''actor_id'', valued fresh), (''role_name'', valued ''Member''), (''scope'', valued ''D''), (''starts_at'', valued (iso_utc (max now 0)))])
      now d2 () = (Inr (), d3, ())"
    using site_system_command [OF d2(2)] by blast
  have "register_identity Enforcement_Off site_env provider issuer subject fresh now data () = (Inr fresh, d2, ())"
    using none d1 d2 by (simp add: register_identity_def)
  then show ?thesis
    using p d3 by (simp add: link_member_def carol_def append_member_state_def put_head_def apply_heads_def)
qed

theorem linking_restores_old_row_witness:
  "\<exists>s data' st. link_member Enforcement_Off site_env ''carol'' ''i'' ''s'' ''f'' carol ''Member'' 9
       (change_member site_env (Disable ''alice'' ''carol'' True, 5) (site_of site_rows)) () = Some (Inr (Some s), data', ()) \<and>
     is_disabled carol_disabled \<and> head_by_id data' ''D'' ''Person'' ''carol'' = Some st \<and> \<not> is_disabled st"
proof -
  let ?data = "change_member site_env (Disable ''alice'' ''carol'' True, 5) (site_of site_rows)"
  have "sd_fault ?data = None" "map_of (sd_heads ?data) (''D'', ''external_identifier'') = None"
    "map_of (sd_heads ?data) (''Identity'', ''external_identifier'') = None"
    unfolding site_disables by (simp_all add: site_of_def empty_store_def)
  from site_links [OF this] obtain s data' where
    l: "link_member Enforcement_Off site_env ''carol'' ''i'' ''s'' ''f'' carol ''Member'' 9 ?data () = Some (Inr (Some s), data', ())"
    by blast
  have r: "linkable_member site_env ''carol'' 1 (site_of site_rows) = Inr (Some (carol, ''Member''))" by code_simp
  have "is_disabled carol_disabled" by code_simp
  with linking_restores_old_row [OF r l site_members(2)] l show ?thesis by auto
qed

end
