(* ===== verification/Session_Tokens.thy ===== *)
theory Session_Tokens
  imports Signin Member_Access
begin

text \<open>
  The signed tokens and cookies of \<open>rust/host/src/auth.rs\<close>: the account token, tokens minted for one purpose, the
  handoff token that is redeemed once, and the session cookie; with \<open>hex_encode\<close> of \<open>crypto.rs\<close>.

  HMAC-SHA256, unpadded base64url and the printing and parsing of JSON are parameters (record \<open>token_crypto\<close>). The
  clock is an argument in seconds.
\<close>

record token_crypto =
  tc_mac :: "string \<Rightarrow> string \<Rightarrow> string"
  tc_encode :: "string \<Rightarrow> string"
  tc_decode :: "string \<Rightarrow> string option"
  tc_print :: "svalue \<Rightarrow> string"
  tc_parse :: "string \<Rightarrow> svalue option"

definition hex_encode :: "string \<Rightarrow> string" where
  "hex_encode bytes = concat (map (\<lambda>b. [hex_digit (of_char b div 16), hex_digit (of_char b mod 16)]) bytes)"

definition sign_payload :: "token_crypto \<Rightarrow> string \<Rightarrow> string \<Rightarrow> string" where
  "sign_payload tc secret payload = hex_encode (tc_mac tc secret payload)"

definition verify_sig :: "token_crypto \<Rightarrow> string \<Rightarrow> string \<Rightarrow> string option" where
  "verify_sig tc secret token =
     Option.bind (rsplit_once ''.'' token) (\<lambda>(payload, sig).
       if constant_time_eq (sign_payload tc secret payload) sig then Some payload else None)"

definition signed :: "token_crypto \<Rightarrow> string \<Rightarrow> svalue \<Rightarrow> string" where
  "signed tc secret payload =
     (let encoded = tc_encode tc (tc_print tc payload) in encoded @ ''.'' @ sign_payload tc secret encoded)"

definition signed_value :: "token_crypto \<Rightarrow> string \<Rightarrow> string \<Rightarrow> svalue option" where
  "signed_value tc secret token =
     Option.bind (verify_sig tc secret token) (\<lambda>payload. Option.bind (tc_decode tc payload) (tc_parse tc))"

definition sv_u64 :: "svalue \<Rightarrow> string \<Rightarrow> int option" where
  "sv_u64 v key = Option.bind (sv_get v key) sv_as_u64"

definition SESSION_TTL_SECS :: int where "SESSION_TTL_SECS = 60 * 60 * 24 * 14"

definition account_claims :: "string \<Rightarrow> int \<Rightarrow> svalue" where
  "account_claims email exp = SV_Object [(''email'', SV_String email), (''exp'', SV_Number (show_int exp))]"

definition account_token :: "token_crypto \<Rightarrow> string \<Rightarrow> string \<Rightarrow> int \<Rightarrow> int \<Rightarrow> string" where
  "account_token tc secret email ttl_secs now =
     signed tc secret (account_claims email (now + ttl_secs))"

definition verify_account_token :: "token_crypto \<Rightarrow> string \<Rightarrow> string \<Rightarrow> int \<Rightarrow> string option" where
  "verify_account_token tc secret token now =
     Option.bind (signed_value tc secret token) (\<lambda>v.
     Option.bind (sv_u64 v ''exp'') (\<lambda>exp. if exp < now then None else sv_str v ''email''))"

definition purpose_key :: "string \<Rightarrow> string \<Rightarrow> string" where
  "purpose_key secret purpose = purpose @ '':'' @ secret"

text \<open>The claims must be an object: anything else but null panics (\<open>None\<close>).\<close>

definition purpose_token :: "token_crypto \<Rightarrow> string \<Rightarrow> string \<Rightarrow> svalue \<Rightarrow> int \<Rightarrow> int \<Rightarrow> string option" where
  "purpose_token tc secret purpose claims ttl_secs now =
     Option.bind (sv_set claims ''purpose'' (SV_String purpose)) (\<lambda>payload.
     map_option (signed tc (purpose_key secret purpose)) (sv_set payload ''exp'' (SV_Number (show_int (now + ttl_secs)))))"

definition verify_purpose_token :: "token_crypto \<Rightarrow> string \<Rightarrow> string \<Rightarrow> string \<Rightarrow> int \<Rightarrow> svalue option" where
  "verify_purpose_token tc secret purpose token now =
     Option.bind (signed_value tc (purpose_key secret purpose) token) (\<lambda>claims.
     Option.bind (sv_str claims ''purpose'') (\<lambda>named.
       if named \<noteq> purpose then None
       else Option.bind (sv_u64 claims ''exp'') (\<lambda>exp. if exp < now then None else Some claims)))"

definition HANDOFF_PURPOSE :: string where "HANDOFF_PURPOSE = ''google-handoff''"
definition HANDOFF_TTL_SECS :: int where "HANDOFF_TTL_SECS = 60"

definition handoff_token :: "token_crypto \<Rightarrow> string \<Rightarrow> string \<Rightarrow> string \<Rightarrow> int \<Rightarrow> string option" where
  "handoff_token tc secret email jti now =
     purpose_token tc secret HANDOFF_PURPOSE (SV_Object [(''email'', SV_String email), (''jti'', SV_String jti)]) HANDOFF_TTL_SECS now"

text \<open>\<open>expires_at + 1\<close> on 64-bit integers.\<close>

definition next_i64 :: "int \<Rightarrow> int" where
  "next_i64 n = (if n = I64_MAX then I64_MIN else n + 1)"

definition as_i64 :: "int \<Rightarrow> int option" where
  "as_i64 n = (if n \<le> I64_MAX then Some n else None)"

definition redeem_handoff_token :: "token_crypto \<Rightarrow> string \<Rightarrow> string \<Rightarrow> int \<Rightarrow> jti_store \<Rightarrow> string option \<times> jti_store" where
  "redeem_handoff_token tc secret token now store =
     (case Option.bind (verify_purpose_token tc secret HANDOFF_PURPOSE token now) (\<lambda>claims.
           Option.bind (sv_str claims ''email'') (\<lambda>email.
           Option.bind (sv_str claims ''jti'') (\<lambda>jti.
           Option.bind (Option.bind (sv_u64 claims ''exp'') as_i64) (\<lambda>expires_at.
           Option.bind (as_i64 now) (\<lambda>now. Some (email, jti, expires_at)))))) of
        None \<Rightarrow> (None, store)
      | Some (email, jti, expires_at) \<Rightarrow>
          (case claim_jti jti (next_i64 expires_at) now store of
             (True, store) \<Rightarrow> (Some (account_token tc secret email SESSION_TTL_SECS now), store)
           | (False, store) \<Rightarrow> (None, store)))"

definition session_claims :: "session \<Rightarrow> int \<Rightarrow> svalue" where
  "session_claims s exp =
     SV_Object [(''identity_id'', SV_String (se_identity_id s)), (''email'', SV_String (se_email s)), (''name'', SV_String (se_name s)),
       (''role'', opt_string (se_role s)), (''exp'', SV_Number (show_int exp))]"

definition session_cookie :: "token_crypto \<Rightarrow> string \<Rightarrow> session \<Rightarrow> int \<Rightarrow> string" where
  "session_cookie tc secret s now =
     signed tc secret (session_claims s (now + SESSION_TTL_SECS))"

definition parse_session_cookie :: "token_crypto \<Rightarrow> string \<Rightarrow> string \<Rightarrow> int \<Rightarrow> session option" where
  "parse_session_cookie tc secret cookie now =
     Option.bind (signed_value tc secret cookie) (\<lambda>v.
     Option.bind (sv_u64 v ''exp'') (\<lambda>exp.
       if exp < now then None
       else Option.bind (sv_str v ''identity_id'') (\<lambda>identity_id.
            Option.bind (sv_str v ''email'') (\<lambda>email.
            map_option (\<lambda>name. \<lparr>se_identity_id = identity_id, se_email = email, se_name = name, se_role = sv_str v ''role''\<rparr>)
              (sv_str v ''name'')))))"

section \<open>Signing and reading back\<close>

text \<open>What the tokens rely on, of a payload: base64 and JSON read back what they wrote.\<close>

definition reads_back :: "token_crypto \<Rightarrow> svalue \<Rightarrow> bool" where
  "reads_back tc v \<longleftrightarrow> Option.bind (tc_decode tc (tc_encode tc (tc_print tc v))) (tc_parse tc) = Some v"

lemma hex_digit_no_dot: "0 \<le> n \<Longrightarrow> n < 16 \<Longrightarrow> hex_digit n \<noteq> CHR ''.''"
proof
  assume "0 \<le> n" "n < 16" "hex_digit n = CHR ''.''"
  then have "(of_char (hex_digit n) :: int) = 46" by simp
  with \<open>0 \<le> n\<close> \<open>n < 16\<close> show False by (simp add: hex_digit_def split: if_splits)
qed

lemma byte_range: "0 \<le> (of_char b :: int)" "(of_char b :: int) < 256"
proof -
  have "(of_char b :: int) = of_char b mod 256" by (simp flip: of_char_of [of "of_char b :: int"])
  then show "0 \<le> (of_char b :: int)" "(of_char b :: int) < 256" by linarith+
qed

lemma hex_no_dot: "CHR ''.'' \<notin> set (hex_encode bytes)"
proof -
  have "hex_digit (of_char b div 16) \<noteq> CHR ''.''" "hex_digit (of_char b mod 16) \<noteq> CHR ''.''" for b
    using byte_range [of b] by (intro hex_digit_no_dot; linarith)+
  then show ?thesis unfolding hex_encode_def by auto metis+
qed

end
