(* ===== verification/Session_Tokens_Laws.thy ===== *)
theory Session_Tokens_Laws
  imports Session_Tokens Rate_Limit_Laws Single_Use
begin

text \<open>
  Signed tokens read back until they run out and only for the purpose they were minted for; a handoff token is
  redeemed at most once; and what the session cookie and the account token share.
\<close>

section \<open>Reading back\<close>

lemma rsplit_no_dot: "CHR ''.'' \<notin> set b \<Longrightarrow> rsplit_once ''.'' (a @ ''.'' @ b) = Some (a, b)"
  by (simp add: rsplit_once_def split_once_char)

lemma signed_reads_back: "reads_back tc v \<Longrightarrow> signed_value tc secret (signed tc secret v) = Some v"
  by (simp add: signed_value_def signed_def verify_sig_def rsplit_no_dot [simplified] hex_no_dot sign_payload_def
      constant_time_eq_iff reads_back_def Let_def)

lemma shown_u64: "0 \<le> n \<Longrightarrow> n < U64_LIMIT \<Longrightarrow> sv_as_u64 (SV_Number (show_int n)) = Some n"
  by (simp add: show_int_def)

text \<open>
  An account token names the account it was minted for until it runs out, and nothing afterwards.
\<close>

theorem account_token_names_its_account:
  assumes "reads_back tc (account_claims email (now + ttl))" "0 \<le> now + ttl" "now + ttl < U64_LIMIT"
  shows "verify_account_token tc secret (account_token tc secret email ttl now) later = (if now + ttl < later then None else Some email)"
  using assms by (simp add: verify_account_token_def account_token_def account_claims_def signed_reads_back sv_u64_def sv_str_def shown_u64 del: sv_as_u64.simps)

text \<open>
  C40: a session cookie, though it is meant to be no account token, is accepted as one: under the same secret it
  passes for an account token of its email, while an account token is no session.
\<close>

theorem session_cookie_is_account_token:
  assumes "reads_back tc (session_claims s (now + SESSION_TTL_SECS))" "reads_back tc (account_claims email (now + SESSION_TTL_SECS))"
    and "0 \<le> now" "now + SESSION_TTL_SECS < U64_LIMIT"
  shows "verify_account_token tc secret (session_cookie tc secret s now) later =
           (if now + SESSION_TTL_SECS < later then None else Some (se_email s)) \<and>
         parse_session_cookie tc secret (account_token tc secret email SESSION_TTL_SECS now) later = None"
proof -
  have "0 \<le> now + SESSION_TTL_SECS" using assms by (simp add: SESSION_TTL_SECS_def)
  with assms show ?thesis
    by (simp add: verify_account_token_def session_cookie_def parse_session_cookie_def account_token_def
        session_claims_def account_claims_def signed_reads_back sv_u64_def sv_str_def
        shown_u64 del: sv_as_u64.simps)
qed

text \<open>A token verifies for no purpose but its own, even where two purposes share a signing key.\<close>

lemma token_serves_its_purpose:
  assumes "\<And>v. reads_back tc v" "purpose_token tc secret purpose claims ttl now = Some token"
    and "purpose_key secret purpose = purpose_key secret other" "verify_purpose_token tc secret other token later = Some claims'"
  shows "other = purpose"
proof -
  from assms(2) obtain p q where p: "sv_set claims ''purpose'' (SV_String purpose) = Some p"
    "sv_set p ''exp'' (SV_Number (show_int (now + ttl))) = Some q" "token = signed tc (purpose_key secret purpose) q"
    by (auto simp: purpose_token_def bind_eq_Some_conv)
  then have "sv_str q ''purpose'' = Some purpose" by (simp add: sv_str_def sv_get_set)
  with assms p show ?thesis by (auto simp: verify_purpose_token_def signed_reads_back bind_eq_Some_conv split: if_splits)
qed

section \<open>A handoff is redeemed once\<close>

text \<open>The identifier and the end of a token, whenever it is presented.\<close>

definition handoff_claims :: "token_crypto \<Rightarrow> string \<Rightarrow> string \<Rightarrow> (string \<times> int) option" where
  "handoff_claims tc secret token =
     Option.bind (signed_value tc (purpose_key secret HANDOFF_PURPOSE) token) (\<lambda>claims.
     Option.bind (sv_str claims ''jti'') (\<lambda>jti. map_option (\<lambda>exp. (jti, exp)) (sv_u64 claims ''exp'')))"

lemma redeemed:
  assumes "redeem_handoff_token tc secret token now store = (Some t, store')"
  shows "\<exists>jti exp. handoff_claims tc secret token = Some (jti, exp) \<and> now \<le> exp \<and> jti \<notin> fst ` set (unforgotten now (js_seen store)) \<and>
           js_seen store' = unforgotten now (js_seen store) @ [(jti, next_i64 exp)]"
  using assms
  by (auto simp: redeem_handoff_token_def handoff_claims_def verify_purpose_token_def as_i64_def claim_jti_def Let_def bind_eq_Some_conv
      split: option.splits if_splits bool.splits prod.splits)

lemma redeem_keeps:
  "(j, r) \<in> set (js_seen store) \<Longrightarrow> now < r \<Longrightarrow> (j, r) \<in> set (js_seen (snd (redeem_handoff_token tc secret token now store)))"
  by (auto simp: redeem_handoff_token_def claim_jti_def unforgotten_def Let_def split: option.splits if_splits bool.splits prod.splits)

definition handoff_spent :: "token_crypto \<Rightarrow> string \<Rightarrow> jti_store \<Rightarrow> int \<Rightarrow> string \<Rightarrow> bool" where
  "handoff_spent tc secret store now token \<longleftrightarrow>
     (\<exists>jti exp. handoff_claims tc secret token = Some (jti, exp) \<and> (exp < now \<or> (jti, exp + 1) \<in> set (js_seen store)))"

definition redeem_step :: "token_crypto \<Rightarrow> string \<Rightarrow> string \<Rightarrow> int \<Rightarrow> jti_store \<Rightarrow> string option \<times> jti_store" where
  "redeem_step tc secret token now store =
     (case redeem_handoff_token tc secret token now store of (r, store) \<Rightarrow> (map_option (\<lambda>_. token) r, store))"

lemma redeem_spends:
  assumes "redeem_handoff_token tc secret token now store = (Some t, store')"
    and "\<And>jti exp. handoff_claims tc secret token = Some (jti, exp) \<Longrightarrow> exp < I64_MAX"
  shows "\<not> handoff_spent tc secret store now token" "handoff_spent tc secret store' now token"
proof -
  obtain jti exp where c: "handoff_claims tc secret token = Some (jti, exp)" "now \<le> exp" "jti \<notin> fst ` set (unforgotten now (js_seen store))"
    "js_seen store' = unforgotten now (js_seen store) @ [(jti, next_i64 exp)]"
    using redeemed [OF assms(1)] by blast
  then have "next_i64 exp = exp + 1" using assms(2) by (force simp: next_i64_def)
  with c show "\<not> handoff_spent tc secret store now token" "handoff_spent tc secret store' now token"
    by (force simp: handoff_spent_def unforgotten_def)+
qed

lemma handoff_spent_stays:
  "handoff_spent tc secret store now token \<Longrightarrow> now \<le> now' \<Longrightarrow> handoff_spent tc secret (snd (redeem_handoff_token tc secret other now' store)) now' token"
  unfolding handoff_spent_def using redeem_keeps [where now = now' and store = store]
  by (metis add1_zle_eq linorder_not_le order_less_le_trans)

definition ends_in_range :: "token_crypto \<Rightarrow> string \<Rightarrow> string \<Rightarrow> bool" where
  "ends_in_range tc secret token \<longleftrightarrow>
     (case handoff_claims tc secret token of None \<Rightarrow> True | Some (_, exp) \<Rightarrow> exp < I64_MAX)"

interpretation handoffs: single_use "redeem_step tc secret" "handoff_spent tc secret" "\<lambda>token _. ends_in_range tc secret token"
  for tc secret
proof unfold_locales
  fix token now store t store'
  assume "ends_in_range tc secret token" "redeem_step tc secret token now store = (Some t, store')"
  then show "\<not> handoff_spent tc secret store now t" "handoff_spent tc secret store' now t"
    using redeem_spends [of tc secret token now store]
    by (auto simp: redeem_step_def ends_in_range_def split: prod.splits option.splits)
next
  fix store now now' t other
  assume "handoff_spent tc secret store now t" "now \<le> now'"
  then show "handoff_spent tc secret (snd (redeem_step tc secret other now' store)) now' t" "handoff_spent tc secret store now' t"
    using handoff_spent_stays [of tc secret store now t now' other] by (auto simp: redeem_step_def handoff_spent_def split: prod.splits)
qed

text \<open>
  C26: however often and in whatever order handoff tokens are presented, to a clock that does not go back and
  whatever the store has seen before, no token is redeemed twice.
\<close>

theorem handoff_redeemed_once:
  assumes "sorted (map snd presented)" "list_all (\<lambda>(token, _). ends_in_range tc secret token) presented"
  shows "distinct (spend_all (redeem_step tc secret) presented store)"
  using assms by (intro handoffs.accepted_once)

section \<open>A concrete run\<close>

text \<open>A signature that repeats the payload, and a reader that knows three payloads by their first field.\<close>

definition sample_session :: session where
  "sample_session = \<lparr>se_identity_id = ''i1'', se_email = ''a@b'', se_name = ''A'', se_role = Some ''Admin''\<rparr>"

definition sample_handoff :: svalue where
  "sample_handoff = SV_Object [(''jti'', SV_String ''j''), (''email'', SV_String ''a@b''), (''purpose'', SV_String HANDOFF_PURPOSE),
     (''exp'', SV_Number ''160'')]"

definition sample_print :: "svalue \<Rightarrow> string" where
  "sample_print v = (case v of SV_Object ((key, _) # _) \<Rightarrow> key | _ \<Rightarrow> [])"

definition sample_token_parse :: "string \<Rightarrow> svalue option" where
  "sample_token_parse s =
     map_of [(''email'', account_claims ''a@b'' (100 + SESSION_TTL_SECS)), (''identity_id'', session_claims sample_session (100 + SESSION_TTL_SECS)),
       (''jti'', sample_handoff)] s"

definition sample_tokens :: token_crypto where
  "sample_tokens =
     \<lparr>tc_mac = (\<lambda>_ p. p), tc_encode = (\<lambda>b. b), tc_decode = Some, tc_print = sample_print, tc_parse = sample_token_parse\<rparr>"

lemma sample_reads_back:
  "reads_back sample_tokens (account_claims ''a@b'' (100 + SESSION_TTL_SECS))"
  "reads_back sample_tokens (session_claims sample_session (100 + SESSION_TTL_SECS))"
  "reads_back sample_tokens sample_handoff"
  by (simp_all add: reads_back_def sample_tokens_def sample_print_def sample_token_parse_def account_claims_def session_claims_def sample_handoff_def)

theorem account_token_names_its_account_witness:
  "verify_account_token sample_tokens ''k'' (account_token sample_tokens ''k'' ''a@b'' SESSION_TTL_SECS 100) 101 = Some ''a@b''"
  by (subst account_token_names_its_account [OF sample_reads_back(1)]) (simp_all add: SESSION_TTL_SECS_def U64_LIMIT_def)

theorem session_cookie_is_account_token_witness:
  "verify_account_token sample_tokens ''k'' (session_cookie sample_tokens ''k'' sample_session 100) 101 = Some ''a@b''"
  using session_cookie_is_account_token [OF sample_reads_back(2,1), of "''k''" 101]
  by (simp add: SESSION_TTL_SECS_def U64_LIMIT_def sample_session_def)

definition sample_handoff_token :: string where
  "sample_handoff_token = ''jti.'' @ hex_encode ''jti''"

theorem handoff_redeemed_once_witness:
  "distinct (spend_all (redeem_step sample_tokens ''k'') [(sample_handoff_token, 100), (sample_handoff_token, 101)] (new_jti_store 10))"
proof (rule handoff_redeemed_once)
  have "handoff_claims sample_tokens ''k'' sample_handoff_token = Some (''j'', 160)"
    by code_simp
  then show "list_all (\<lambda>(token, _). ends_in_range sample_tokens ''k'' token)
    [(sample_handoff_token, 100), (sample_handoff_token, 101)]"
    by (simp add: ends_in_range_def I64_MAX_def)
qed simp

lemma sample_handoff_redeemed:
  "spend_all (redeem_step sample_tokens ''k'') [(sample_handoff_token, 100), (sample_handoff_token, 101)] (new_jti_store 10)
     = [sample_handoff_token]"
  by code_simp

end
