(* ===== verification/Emitted_Ast.thy ===== *)
theory Emitted_Ast
  imports Expression_Text
begin

text \<open>
  \<open>rust/parser/src/expr/ast_json.rs\<close>: the JSON tree that is emitted for a parsed predicate, and the value type it is
  built of (\<open>emit.rs\<close>). \<open>None\<close> is the panic of \<open>find_operator\<close> on a symbol that is no operator.
\<close>

datatype json_value =
    JV_Null
  | JV_Bool bool
  | JV_Number string
  | JV_String string
  | JV_Array "json_value list"
  | JV_Object "(string \<times> json_value) list"

type_synonym emission = "json_value option"

fun all_emitted :: "emission list \<Rightarrow> json_value list option" where
  "all_emitted [] = Some []"
| "all_emitted (v # vs) = Option.bind v (\<lambda>v. map_option ((#) v) (all_emitted vs))"

text \<open>An object tagged with its operation.\<close>

definition op_node :: "string \<Rightarrow> (string \<times> emission) list \<Rightarrow> emission" where
  "op_node name pairs =
     map_option (\<lambda>vs. JV_Object ((''op'', JV_String name) # zip (map fst pairs) vs)) (all_emitted (map snd pairs))"

definition emit_comparison :: "operator_row \<Rightarrow> json_value" where
  "emit_comparison operator =
     JV_Object [(''less_than'', JV_Bool (or_less_than operator)), (''equal'', JV_Bool (or_equal operator)),
       (''negated'', JV_Bool (or_negated operator))]"

definition emitted_ruby_float :: "f64 \<Rightarrow> string" where
  "emitted_ruby_float n =
     (let rendered = f64_display n
      in if CHR ''.'' \<in> set rendered \<or> CHR ''e'' \<in> set rendered \<or> CHR ''E'' \<in> set rendered then rendered else rendered @ ''.0'')"

fun json_name :: "block_mode \<Rightarrow> string" where
  "json_name BM_All = ''all''"
| "json_name BM_Any = ''any''"
| "json_name BM_None = ''none''"

text \<open>\<open>Iterator::reduce\<close> of the alternatives from the left; no alternative at all is false.\<close>

definition or_node :: "json_value \<Rightarrow> json_value \<Rightarrow> json_value" where
  "or_node l r = JV_Object [(''op'', JV_String ''or''), (''left'', l), (''right'', r)]"

fun reduce_or :: "json_value list \<Rightarrow> json_value" where
  "reduce_or [] = JV_Object [(''op'', JV_String ''bool''), (''value'', JV_Bool False)]"
| "reduce_or (v # vs) = foldl or_node v vs"

fun emit_resolver :: "resolver \<Rightarrow> emission" and emit_bool :: "predicate_tree \<Rightarrow> emission" where
  "emit_resolver (R_Integer v) = op_node ''int'' [(''value'', Some (JV_Number (show_int (sint v))))]"
| "emit_resolver (R_Float v) = op_node ''float'' [(''value'', Some (JV_Number (emitted_ruby_float v)))]"
| "emit_resolver (R_String v) = op_node ''str'' [(''value'', Some (JV_String v))]"
| "emit_resolver (R_Bool v) = op_node ''bool'' [(''value'', Some (JV_Bool v))]"
| "emit_resolver R_Nil = op_node ''nil'' []"
| "emit_resolver (R_Lookup path) = op_node ''lookup'' [(''path'', Some (JV_Array (map JV_String (split_str ''.'' path))))]"
| "emit_resolver (R_Addition l r) = op_node ''add'' [(''left'', emit_resolver l), (''right'', emit_resolver r)]"
| "emit_resolver (R_Subtraction l r) = op_node ''sub'' [(''left'', emit_resolver l), (''right'', emit_resolver r)]"
| "emit_resolver (R_Multiplication l r) = op_node ''mul'' [(''left'', emit_resolver l), (''right'', emit_resolver r)]"
| "emit_resolver (R_Division l r) = op_node ''div'' [(''left'', emit_resolver l), (''right'', emit_resolver r)]"
| "emit_resolver (R_SignTest operator receiver) =
     op_node ''sign_test'' [(''cmp'', map_option emit_comparison operator), (''receiver'', emit_resolver receiver)]"
| "emit_resolver (R_Empty receiver) = op_node ''empty'' [(''receiver'', emit_resolver receiver)]"
| "emit_resolver (R_ToS receiver) = op_node ''to_s'' [(''receiver'', emit_resolver receiver)]"
| "emit_resolver (R_Modulo receiver divisor) =
     op_node ''modulo'' [(''receiver'', emit_resolver receiver), (''divisor'', emit_resolver divisor)]"
| "emit_resolver (R_Size receiver) = op_node ''size'' [(''receiver'', emit_resolver receiver)]"
| "emit_resolver (R_MatchesRegex receiver pattern flags) =
     op_node ''matches_regex'' [(''receiver'', emit_resolver receiver), (''pattern'', Some (JV_String pattern)), (''flags'', Some (JV_String flags))]"
| "emit_resolver (R_Presence receiver neg) =
     op_node ''presence'' [(''receiver'', emit_resolver receiver), (''negated'', Some (JV_Bool neg))]"
| "emit_resolver (R_Assignment receiver neg) =
     op_node ''assignment'' [(''receiver'', emit_resolver receiver), (''negated'', Some (JV_Bool neg))]"
| "emit_resolver (R_Split receiver separator) =
     op_node ''split'' [(''receiver'', emit_resolver receiver), (''separator'', Some (JV_String separator))]"
| "emit_resolver (R_Strip receiver side) =
     op_node ''strip'' [(''receiver'', emit_resolver receiver), (''side'', Some (JV_String side))]"
| "emit_resolver (R_StartsWith receiver substring) =
     op_node ''starts_with'' [(''receiver'', emit_resolver receiver), (''substring'', Some (JV_String substring))]"
| "emit_resolver (R_EndsWith receiver substring) =
     op_node ''ends_with'' [(''receiver'', emit_resolver receiver), (''substring'', Some (JV_String substring))]"
| "emit_resolver (R_First receiver) = op_node ''first'' [(''receiver'', emit_resolver receiver)]"
| "emit_resolver (R_Last receiver) = op_node ''last'' [(''receiver'', emit_resolver receiver)]"
| "emit_resolver (R_BlockPredicate mode receiver param predicate) =
     op_node ''block_predicate'' [(''mode'', Some (JV_String (json_name mode))), (''receiver'', emit_resolver receiver),
       (''param'', Some (JV_String param)), (''predicate'', emit_bool predicate)]"
| "emit_resolver (R_Find receiver param predicate path) =
     op_node ''find'' [(''receiver'', emit_resolver receiver), (''param'', Some (JV_String param)),
       (''predicate'', emit_bool predicate), (''path'', Some (JV_Array (map JV_String path)))]"
| "emit_resolver (R_Sum receiver param predicate) =
     op_node ''sum'' [(''receiver'', emit_resolver receiver), (''param'', Some (JV_String param)), (''predicate'', emit_bool predicate)]"
| "emit_resolver (R_Array elements) =
     op_node ''array'' [(''elements'', map_option JV_Array (all_emitted (map emit_resolver elements)))]"
| "emit_bool (B_Or l r) = op_node ''or'' [(''left'', emit_bool l), (''right'', emit_bool r)]"
| "emit_bool (B_And l r) = op_node ''and'' [(''left'', emit_bool l), (''right'', emit_bool r)]"
| "emit_bool (B_Not negand) = op_node ''not'' [(''expr'', emit_bool negand)]"
| "emit_bool (B_Compare operator l r) =
     op_node ''compare'' [(''cmp'', Some (emit_comparison operator)), (''left'', emit_resolver l), (''right'', emit_resolver r)]"
| "emit_bool (B_Include haystack needle) =
     (case haystack of
        R_Array elements \<Rightarrow>
          Option.bind (find_operator ''=='') (\<lambda>eq.
            map_option reduce_or (all_emitted
              (map (\<lambda>element. op_node ''compare'' [(''cmp'', Some (emit_comparison eq)), (''left'', emit_resolver needle), (''right'', emit_resolver element)])
                 elements)))
      | _ \<Rightarrow> op_node ''include'' [(''haystack'', emit_resolver haystack), (''needle'', emit_resolver needle)])"
| "emit_bool (B_Resolve e) = emit_resolver e"

definition emit_predicate :: "string \<Rightarrow> emission" where
  "emit_predicate canonical = Option.bind (parse_evaluator canonical) emit_bool"

end
