(* ===== verification/Expr_Json.thy ===== *)
theory Expr_Json
  imports Interpreter Serde_Value Store
begin

text \<open>
  \<open>rust/host/core/src/expr_json.rs\<close>: an expression read from its JSON tree, an instance read from JSON, and the
  evaluation of the one over the other by the interpreter the host shares with the kernel.

  A message quotes the JSON it refuses; the text of a JSON value is a parameter (\<open>show\<close>). The interning of
  names has no counterpart: names are values here.
\<close>

section \<open>Numbers\<close>

fun sv_as_i64 :: "svalue \<Rightarrow> i64 option" where
  "sv_as_i64 (SV_Number digits) = parse_i64 digits"
| "sv_as_i64 _ = None"

fun sv_as_f64 :: "svalue \<Rightarrow> f64 option" where
  "sv_as_f64 (SV_Number digits) = Option.bind (parse_f64 digits) (\<lambda>f. if is_finite f then Some f else None)"
| "sv_as_f64 _ = None"

section \<open>Reading a node\<close>

definition node_field :: "(svalue \<Rightarrow> string) \<Rightarrow> string \<Rightarrow> svalue \<Rightarrow> string \<Rightarrow> (string, svalue) result" where
  "node_field show op json name =
     ok_or (op @ '' node has no '' @ debug_str name @ '' field: '' @ show json) (sv_get json name)"

definition not_a :: "(svalue \<Rightarrow> string) \<Rightarrow> string \<Rightarrow> svalue \<Rightarrow> string \<Rightarrow> string \<Rightarrow> string" where
  "not_a show op json name what = op @ [CHR 0x27] @ ''s '' @ debug_str name @ '' isn'' @ [CHR 0x27] @ ''t '' @ what @ '': '' @ show json"

definition str_field :: "(svalue \<Rightarrow> string) \<Rightarrow> string \<Rightarrow> svalue \<Rightarrow> string \<Rightarrow> (string, string) result" where
  "str_field show op json name =
     rbind (node_field show op json name) (\<lambda>v. ok_or (not_a show op json name ''a string'') (sv_as_str v))"

definition bool_field :: "(svalue \<Rightarrow> string) \<Rightarrow> string \<Rightarrow> svalue \<Rightarrow> string \<Rightarrow> (string, bool) result" where
  "bool_field show op json name =
     rbind (node_field show op json name) (\<lambda>v. ok_or (not_a show op json name ''a boolean'') (sv_as_bool v))"

definition path_field :: "(svalue \<Rightarrow> string) \<Rightarrow> string \<Rightarrow> svalue \<Rightarrow> string \<Rightarrow> (string, string list) result" where
  "path_field show op json name =
     rbind (node_field show op json name) (\<lambda>v.
     rbind (ok_or (not_a show op json name ''an array'') (sv_as_array v))
       (traverse (\<lambda>v. ok_or (op @ [CHR 0x27] @ ''s '' @ debug_str name @ '' has a non-string element: '' @ show json) (sv_as_str v))))"

definition comparison_field :: "(svalue \<Rightarrow> string) \<Rightarrow> string \<Rightarrow> svalue \<Rightarrow> (string, comparison) result" where
  "comparison_field show op json =
     rbind (node_field show op json ''cmp'') (\<lambda>cmp.
       let flag = (\<lambda>name. ok_or (op @ [CHR 0x27] @ ''s cmp has no '' @ name @ '': '' @ show json) (Option.bind (sv_get cmp name) sv_as_bool))
       in rbind (flag ''less_than'') (\<lambda>lt. rbind (flag ''equal'') (\<lambda>eq. rbind (flag ''negated'') (\<lambda>neg.
            Inr \<lparr>less_than = lt, equal = eq, negated = neg\<rparr>))))"

type_synonym node_reader = "svalue \<Rightarrow> (string, expr) result"

definition expr_field :: "(svalue \<Rightarrow> string) \<Rightarrow> string \<Rightarrow> svalue \<Rightarrow> node_reader \<Rightarrow> string \<Rightarrow> (string, expr) result" where
  "expr_field show op json read name = rbind (node_field show op json name) read"

definition element_fields :: "(svalue \<Rightarrow> string) \<Rightarrow> string \<Rightarrow> svalue \<Rightarrow> node_reader \<Rightarrow> (string, expr list) result" where
  "element_fields show op json read =
     rbind (node_field show op json ''elements'') (\<lambda>v.
     rbind (ok_or (''array'' @ [CHR 0x27] @ ''s elements isn'' @ [CHR 0x27] @ ''t an array: '' @ show json) (sv_as_array v)) (traverse read))"

definition mode_field :: "(svalue \<Rightarrow> string) \<Rightarrow> string \<Rightarrow> svalue \<Rightarrow> (string, block_mode) result" where
  "mode_field show op json =
     rbind (str_field show op json ''mode'') (\<lambda>mode.
       if mode = ''all'' then Inr BM_All else if mode = ''any'' then Inr BM_Any else if mode = ''none'' then Inr BM_None
       else Inl (''block_predicate'' @ [CHR 0x27] @ ''s mode '' @ debug_str mode @ '' is none of all/any/none: '' @ show json))"

definition side_field :: "(svalue \<Rightarrow> string) \<Rightarrow> string \<Rightarrow> svalue \<Rightarrow> (string, strip_side) result" where
  "side_field show op json =
     rbind (str_field show op json ''side'') (\<lambda>side.
       if side = ''both'' then Inr SS_Both else if side = ''left'' then Inr SS_Left else if side = ''right'' then Inr SS_Right
       else Inl (''strip'' @ [CHR 0x27] @ ''s side '' @ debug_str side @ '' is none of both/left/right: '' @ show json))"

text \<open>One arm per operation, in the order of the source.\<close>

definition expr_node :: "(svalue \<Rightarrow> string) \<Rightarrow> string \<Rightarrow> svalue \<Rightarrow> node_reader \<Rightarrow> (string, expr) result" where
  "expr_node show op json read =
     (let sub = expr_field show op json read;
          one = (\<lambda>mk name. rbind (sub name) (\<lambda>a. Inr (mk a)));
          two = (\<lambda>mk n1 n2. rbind (sub n1) (\<lambda>a. rbind (sub n2) (\<lambda>b. Inr (mk a b))));
          block = (\<lambda>mk. rbind (sub ''receiver'') (\<lambda>r. rbind (str_field show op json ''param'') (\<lambda>p.
                     rbind (sub ''predicate'') (\<lambda>q. mk r p q))))
      in if op = ''or'' then two E_Or ''left'' ''right''
         else if op = ''and'' then two E_And ''left'' ''right''
         else if op = ''not'' then one E_Not ''expr''
         else if op = ''compare'' then
           rbind (comparison_field show op json) (\<lambda>c. two (E_Compare c) ''left'' ''right'')
         else if op = ''include'' then two E_Include ''haystack'' ''needle''
         else if op = ''int'' then
           rbind (node_field show op json ''value'') (\<lambda>v.
           rbind (ok_or (''int'' @ [CHR 0x27] @ ''s value isn'' @ [CHR 0x27] @ ''t an integer: '' @ show json) (sv_as_i64 v)) (\<lambda>n. Inr (E_Int n)))
         else if op = ''float'' then
           rbind (node_field show op json ''value'') (\<lambda>v.
           rbind (ok_or (''float'' @ [CHR 0x27] @ ''s value isn'' @ [CHR 0x27] @ ''t a number: '' @ show json) (sv_as_f64 v)) (\<lambda>f. Inr (E_Float f)))
         else if op = ''str'' then rbind (str_field show op json ''value'') (\<lambda>s. Inr (E_Str s))
         else if op = ''bool'' then rbind (bool_field show op json ''value'') (\<lambda>b. Inr (E_Bool b))
         else if op = ''nil'' then Inr E_Nil
         else if op = ''add'' then two E_Add ''left'' ''right''
         else if op = ''sub'' then two E_Sub ''left'' ''right''
         else if op = ''mul'' then two E_Mul ''left'' ''right''
         else if op = ''div'' then two E_Div ''left'' ''right''
         else if op = ''sign_test'' then
           rbind (comparison_field show op json) (\<lambda>c. one (E_SignTest c) ''receiver'')
         else if op = ''empty'' then one E_Empty ''receiver''
         else if op = ''to_s'' then one E_ToS ''receiver''
         else if op = ''modulo'' then two E_Modulo ''receiver'' ''divisor''
         else if op = ''size'' then one E_Size ''receiver''
         else if op = ''lookup'' then
           rbind (path_field show op json ''path'') (\<lambda>segments. Inr (E_Lookup (str_join ''.'' segments)))
         else if op = ''block_predicate'' then
           rbind (mode_field show op json) (\<lambda>mode. block (\<lambda>r p q. Inr (E_BlockPredicate mode r p q)))
         else if op = ''find'' then
           block (\<lambda>r p q. rbind (path_field show op json ''path'') (\<lambda>path. Inr (E_Find r p q path)))
         else if op = ''sum'' then block (\<lambda>r p q. Inr (E_Sum r p q))
         else if op = ''array'' then rbind (element_fields show op json read) (\<lambda>es. Inr (E_Array es))
         else if op = ''matches_regex'' then
           rbind (sub ''receiver'') (\<lambda>r. rbind (str_field show op json ''pattern'') (\<lambda>pattern.
           rbind (str_field show op json ''flags'') (\<lambda>flags. Inr (E_MatchesRegex r pattern flags))))
         else if op = ''presence'' then
           rbind (sub ''receiver'') (\<lambda>r. rbind (bool_field show op json ''negated'') (\<lambda>n. Inr (E_Presence r n)))
         else if op = ''assignment'' then
           rbind (sub ''receiver'') (\<lambda>r. rbind (bool_field show op json ''negated'') (\<lambda>n. Inr (E_Assignment r n)))
         else if op = ''split'' then
           rbind (sub ''receiver'') (\<lambda>r. rbind (str_field show op json ''separator'') (\<lambda>s. Inr (E_Split r s)))
         else if op = ''strip'' then
           rbind (sub ''receiver'') (\<lambda>r. rbind (side_field show op json) (\<lambda>s. Inr (E_Strip r s)))
         else if op = ''starts_with'' then
           rbind (sub ''receiver'') (\<lambda>r. rbind (str_field show op json ''substring'') (\<lambda>s. Inr (E_StartsWith r s)))
         else if op = ''ends_with'' then
           rbind (sub ''receiver'') (\<lambda>r. rbind (str_field show op json ''substring'') (\<lambda>s. Inr (E_EndsWith r s)))
         else if op = ''first'' then one E_First ''receiver''
         else if op = ''last'' then one E_Last ''receiver''
         else Inl (''unrecognized expression op '' @ debug_str op @ '': '' @ show json))"

lemma sv_get_size: "sv_get v key = Some w \<Longrightarrow> size w < size v"
proof (cases v)
  case (SV_Object flds)
  moreover assume "sv_get v key = Some w"
  ultimately have "(key, w) \<in> set flds" by (simp add: map_of_SomeD)
  then have "size w < size_list (size_prod (\<lambda>_. 0) size) flds"
    by (induction flds) auto
  with SV_Object show ?thesis by simp
qed simp_all

lemma expr_field_cong:
  assumes "\<And>v. size v < size json \<Longrightarrow> read v = read' v"
  shows "expr_field show op json read = expr_field show op json read'"
  using assms sv_get_size by (auto simp: expr_field_def node_field_def fun_eq_iff ok_or_def split: option.splits)

lemma element_fields_cong:
  assumes "\<And>v. size v < size json \<Longrightarrow> read v = read' v"
  shows "element_fields show op json read = element_fields show op json read'"
proof (cases "Option.bind (sv_get json ''elements'') sv_as_array")
  case None
  then show ?thesis by (auto simp: element_fields_def node_field_def ok_or_def split: option.splits)
next
  case (Some vs)
  then obtain v where v: "sv_get json ''elements'' = Some v" "v = SV_Array vs" by (auto simp: bind_eq_Some_conv)
  have "size x < size json" if "x \<in> set vs" for x
    using sv_get_size [OF v(1)] v(2) that size_list_estimation' [of x vs "size x" size] by simp
  then have "traverse read vs = traverse read' vs" using assms by (intro traverse_cong) simp_all
  with v show ?thesis by (simp add: element_fields_def node_field_def)
qed

lemma expr_node_cong [fundef_cong]:
  assumes "show = show'" "op = op'" "json = json'" "\<And>v. size v < size json' \<Longrightarrow> read v = read' v"
  shows "expr_node show op json read = expr_node show' op' json' read'"
proof -
  have sub: "expr_field show' op' json' read = expr_field show' op' json' read'" using assms(4) by (rule expr_field_cong)
  have elements: "element_fields show' op' json' read = element_fields show' op' json' read'" using assms(4) by (rule element_fields_cong)
  show ?thesis unfolding assms(1-3) expr_node_def sub elements by (rule refl)
qed

text \<open>The reader: \<open>parse\<close> of the source.\<close>

function (sequential) expr_of_json :: "(svalue \<Rightarrow> string) \<Rightarrow> svalue \<Rightarrow> (string, expr) result" where
  "expr_of_json show json =
     (case Option.bind (sv_get json ''op'') sv_as_str of
        None \<Rightarrow> Inl (show json @ '' has no string \"op\" field'')
      | Some op \<Rightarrow> expr_node show op json (expr_of_json show))"
  by pat_completeness auto

termination
  by (relation "measure (\<lambda>(_, json). size json)") auto

declare expr_of_json.simps [simp del]

section \<open>Reading an instance\<close>

definition btree_collect :: "('k :: linorder \<times> 'v) list \<Rightarrow> ('k \<times> 'v) list" where
  "btree_collect pairs = fold (\<lambda>(k, v). btree_insert k v) pairs []"

fun value_of_json :: "(svalue \<Rightarrow> string) \<Rightarrow> svalue \<Rightarrow> (string, value) result" where
  "value_of_json show SV_Null = Inr V_Nil"
| "value_of_json show (SV_Bool b) = Inr (V_Bool b)"
| "value_of_json show (SV_Number digits) =
     ok_or (show (SV_Number digits) @ '' is a number this interpreter cannot represent'')
       (case sv_as_i64 (SV_Number digits) of Some n \<Rightarrow> Some (V_Int n) | None \<Rightarrow> map_option V_Float (sv_as_f64 (SV_Number digits)))"
| "value_of_json show (SV_String s) = Inr (V_Str s)"
| "value_of_json show (SV_Array items) = rbind (traverse (value_of_json show) items) (\<lambda>vs. Inr (V_Array vs))"
| "value_of_json show (SV_Object flds) =
     rbind (traverse (\<lambda>(key, field). rbind (value_of_json show field) (\<lambda>v. Inr (key, v))) flds)
       (\<lambda>vs. Inr (V_Object (btree_collect vs)))"

datatype json_slot =
    Slot_Scalar "value"
  | Slot_Object json_node
  | Slot_List "json_slot list"
and json_node = Json_Node (node_fields: "(string \<times> json_slot) list") (node_root: bool)

fun slot_of_json :: "(svalue \<Rightarrow> string) \<Rightarrow> svalue \<Rightarrow> (string, json_slot) result" where
  "slot_of_json show (SV_Object flds) =
     rbind (traverse (\<lambda>(key, field). rbind (slot_of_json show field) (\<lambda>s. Inr (key, s))) flds)
       (\<lambda>slots. Inr (Slot_Object (Json_Node (btree_collect slots) False)))"
| "slot_of_json show (SV_Array items) = rbind (traverse (slot_of_json show) items) (\<lambda>slots. Inr (Slot_List slots))"
| "slot_of_json show scalar = rbind (value_of_json show scalar) (\<lambda>v. Inr (Slot_Scalar v))"

definition node_from_json :: "(svalue \<Rightarrow> string) \<Rightarrow> svalue \<Rightarrow> bool \<Rightarrow> (string, json_node) result" where
  "node_from_json show json root =
     rbind (case json of
              SV_Object flds \<Rightarrow>
                rbind (traverse (\<lambda>(key, field). rbind (slot_of_json show field) (\<lambda>s. Inr (key, s))) flds) (\<lambda>slots. Inr (btree_collect slots))
            | _ \<Rightarrow> Inr [])
       (\<lambda>flds. Inr (Json_Node flds root))"

fun slot_value :: "json_slot \<Rightarrow> value" and object_value :: "json_node \<Rightarrow> value" where
  "slot_value (Slot_Scalar v) = v"
| "slot_value (Slot_Object node) = object_value node"
| "slot_value (Slot_List items) = V_Array (map slot_value items)"
| "object_value (Json_Node flds root) = V_Object (map (\<lambda>(key, s). (key, slot_value s)) flds)"

lemma slot_in_fields: "map_of flds name = Some s \<Longrightarrow> size s < Suc (size_list (size_prod (\<lambda>_. 0) size) flds)"
  by (induction flds) (auto split: if_splits)

lemma list_slot_in_fields:
  assumes "map_of flds name = Some (Slot_List items)" "x \<in> set items"
  shows "size x < Suc (size_list (size_prod (\<lambda>_. 0) size) flds)"
  using slot_in_fields [OF assms(1)] size_list_estimation' [OF assms(2), of "size x" size] by simp

function (sequential) slot_field :: "json_slot \<Rightarrow> field" and json_node_fielded :: "json_node \<Rightarrow> fielded" where
  "slot_field (Slot_Object node) = FD_Nested (json_node_fielded node)"
| "slot_field other = FD_Value (slot_value other)"
| "json_node_fielded (Json_Node flds root) =
     Fielded
       (\<lambda>name. case map_of flds name of
                 Some s \<Rightarrow> Some (slot_field s)
               | None \<Rightarrow> if root then None else Some (FD_Value V_Nil))
       (if length flds = 1 then Some (slot_value (snd (hd flds))) else None)
       (Some (object_value (Json_Node flds root)))
       (\<lambda>name. case map_of flds name of Some (Slot_List items) \<Rightarrow> Some (map slot_field items) | _ \<Rightarrow> None)"
  by pat_completeness auto

termination
  by (relation "measure (case_sum size size)") (auto dest: slot_in_fields list_slot_in_fields)

definition interpret_json :: "(svalue \<Rightarrow> string) \<Rightarrow> regex_engine \<Rightarrow> expr \<Rightarrow> svalue \<Rightarrow> (string, value) result" where
  "interpret_json show engine e instance_json =
     rbind (node_from_json show instance_json True) (\<lambda>node.
       case interpret_expr engine e \<lparr>ctx_args = json_node_fielded node, ctx_instance = no_fields\<rparr> of
         Inl refusal \<Rightarrow> Inl (refusal_message refusal)
       | Inr v \<Rightarrow> Inr v)"

end
