(* ===== verification/Expr_Json_Laws.thy ===== *)
theory Expr_Json_Laws
  imports Emitted_Ast Expr_Json
begin

text \<open>
  The tree the front end emits for a predicate is read by the host as the expression the predicate stands for, and the
  alternatives it emits for inclusion in a literal list answer what inclusion answers.
\<close>

section \<open>The expression a parsed predicate stands for\<close>

text \<open>The value that JSON text of an emitted tree reads as.\<close>

fun read_back :: "json_value \<Rightarrow> svalue" where
  "read_back JV_Null = SV_Null"
| "read_back (JV_Bool b) = SV_Bool b"
| "read_back (JV_Number digits) = SV_Number digits"
| "read_back (JV_String s) = SV_String s"
| "read_back (JV_Array vs) = SV_Array (map read_back vs)"
| "read_back (JV_Object flds) = SV_Object (map (\<lambda>(k, v). (k, read_back v)) flds)"

definition row_comparison :: "operator_row \<Rightarrow> comparison" where
  "row_comparison row = \<lparr>less_than = or_less_than row, equal = or_equal row, negated = or_negated row\<rparr>"

definition equals :: comparison where
  "equals = \<lparr>less_than = False, equal = True, negated = False\<rparr>"

definition side_named :: "string \<Rightarrow> strip_side" where
  "side_named side = (if side = ''both'' then SS_Both else if side = ''left'' then SS_Left else SS_Right)"

fun or_chain :: "expr list \<Rightarrow> expr" where
  "or_chain [] = E_Bool False"
| "or_chain (e # es) = foldl E_Or e es"

fun meant_by :: "resolver \<Rightarrow> expr" and meant_by_predicate :: "predicate_tree \<Rightarrow> expr" where
  "meant_by (R_Integer v) = E_Int v"
| "meant_by (R_Float v) = E_Float v"
| "meant_by (R_String v) = E_Str v"
| "meant_by (R_Bool v) = E_Bool v"
| "meant_by R_Nil = E_Nil"
| "meant_by (R_Lookup path) = E_Lookup path"
| "meant_by (R_Addition l r) = E_Add (meant_by l) (meant_by r)"
| "meant_by (R_Subtraction l r) = E_Sub (meant_by l) (meant_by r)"
| "meant_by (R_Multiplication l r) = E_Mul (meant_by l) (meant_by r)"
| "meant_by (R_Division l r) = E_Div (meant_by l) (meant_by r)"
| "meant_by (R_SignTest row r) = E_SignTest (case row of Some row \<Rightarrow> row_comparison row | None \<Rightarrow> equals) (meant_by r)"
| "meant_by (R_Empty r) = E_Empty (meant_by r)"
| "meant_by (R_ToS r) = E_ToS (meant_by r)"
| "meant_by (R_Modulo r d) = E_Modulo (meant_by r) (meant_by d)"
| "meant_by (R_Size r) = E_Size (meant_by r)"
| "meant_by (R_MatchesRegex r pattern flags) = E_MatchesRegex (meant_by r) pattern flags"
| "meant_by (R_Presence r neg) = E_Presence (meant_by r) neg"
| "meant_by (R_Assignment r neg) = E_Assignment (meant_by r) neg"
| "meant_by (R_Split r separator) = E_Split (meant_by r) separator"
| "meant_by (R_Strip r side) = E_Strip (meant_by r) (side_named side)"
| "meant_by (R_StartsWith r substring) = E_StartsWith (meant_by r) substring"
| "meant_by (R_EndsWith r substring) = E_EndsWith (meant_by r) substring"
| "meant_by (R_First r) = E_First (meant_by r)"
| "meant_by (R_Last r) = E_Last (meant_by r)"
| "meant_by (R_BlockPredicate mode r param q) = E_BlockPredicate mode (meant_by r) param (meant_by_predicate q)"
| "meant_by (R_Find r param q path) = E_Find (meant_by r) param (meant_by_predicate q) path"
| "meant_by (R_Sum r param q) = E_Sum (meant_by r) param (meant_by_predicate q)"
| "meant_by (R_Array elements) = E_Array (map meant_by elements)"
| "meant_by_predicate (B_Or l r) = E_Or (meant_by_predicate l) (meant_by_predicate r)"
| "meant_by_predicate (B_And l r) = E_And (meant_by_predicate l) (meant_by_predicate r)"
| "meant_by_predicate (B_Not q) = E_Not (meant_by_predicate q)"
| "meant_by_predicate (B_Compare row l r) = E_Compare (row_comparison row) (meant_by l) (meant_by r)"
| "meant_by_predicate (B_Include haystack needle) =
     (case haystack of
        R_Array elements \<Rightarrow> or_chain (map (\<lambda>e. E_Compare equals (meant_by needle) (meant_by e)) elements)
      | _ \<Rightarrow> E_Include (meant_by haystack) (meant_by needle))"
| "meant_by_predicate (B_Resolve e) = meant_by e"

text \<open>
  What the tree must be for this: every float is finite and its text reads back as itself, a sign test has its
  operator, and a strip names a side.
\<close>

fun spoken :: "resolver \<Rightarrow> bool" and spoken_predicate :: "predicate_tree \<Rightarrow> bool" where
  "spoken (R_Float v) = (is_finite v \<and> parse_f64 (emitted_ruby_float v) = Some v)"
| "spoken (R_Addition l r) = (spoken l \<and> spoken r)"
| "spoken (R_Subtraction l r) = (spoken l \<and> spoken r)"
| "spoken (R_Multiplication l r) = (spoken l \<and> spoken r)"
| "spoken (R_Division l r) = (spoken l \<and> spoken r)"
| "spoken (R_SignTest row r) = (row \<noteq> None \<and> spoken r)"
| "spoken (R_Empty r) = spoken r"
| "spoken (R_ToS r) = spoken r"
| "spoken (R_Modulo r d) = (spoken r \<and> spoken d)"
| "spoken (R_Size r) = spoken r"
| "spoken (R_MatchesRegex r _ _) = spoken r"
| "spoken (R_Presence r _) = spoken r"
| "spoken (R_Assignment r _) = spoken r"
| "spoken (R_Split r _) = spoken r"
| "spoken (R_Strip r side) = (spoken r \<and> List.member [''both'', ''left'', ''right''] side)"
| "spoken (R_StartsWith r _) = spoken r"
| "spoken (R_EndsWith r _) = spoken r"
| "spoken (R_First r) = spoken r"
| "spoken (R_Last r) = spoken r"
| "spoken (R_BlockPredicate _ r _ q) = (spoken r \<and> spoken_predicate q)"
| "spoken (R_Find r _ q _) = (spoken r \<and> spoken_predicate q)"
| "spoken (R_Sum r _ q) = (spoken r \<and> spoken_predicate q)"
| "spoken (R_Array elements) = list_all spoken elements"
| "spoken _ = True"
| "spoken_predicate (B_Or l r) = (spoken_predicate l \<and> spoken_predicate r)"
| "spoken_predicate (B_And l r) = (spoken_predicate l \<and> spoken_predicate r)"
| "spoken_predicate (B_Not q) = spoken_predicate q"
| "spoken_predicate (B_Compare _ l r) = (spoken l \<and> spoken r)"
| "spoken_predicate (B_Include haystack needle) = (spoken haystack \<and> spoken needle)"
| "spoken_predicate (B_Resolve e) = spoken e"

section \<open>Reading an emitted node\<close>

abbreviation reads_as :: "(svalue \<Rightarrow> string) \<Rightarrow> json_value \<Rightarrow> expr \<Rightarrow> bool" where
  "reads_as show j e \<equiv> expr_of_json show (read_back j) = Inr e"

lemma expr_of_op: "expr_of_json show (SV_Object ((''op'', SV_String op) # flds)) =
    expr_node show op (SV_Object ((''op'', SV_String op) # flds)) (expr_of_json show)"
  by (subst expr_of_json.simps) simp

named_theorems node_arms \<open>the arm of the reader per operation\<close>

lemma binary_arms [node_arms]:
  "expr_node show ''or'' json read = rbind (expr_field show ''or'' json read ''left'') (\<lambda>a. rbind (expr_field show ''or'' json read ''right'') (\<lambda>b. Inr (E_Or a b)))"
  "expr_node show ''and'' json read = rbind (expr_field show ''and'' json read ''left'') (\<lambda>a. rbind (expr_field show ''and'' json read ''right'') (\<lambda>b. Inr (E_And a b)))"
  "expr_node show ''include'' json read =
     rbind (expr_field show ''include'' json read ''haystack'') (\<lambda>a. rbind (expr_field show ''include'' json read ''needle'') (\<lambda>b. Inr (E_Include a b)))"
  "expr_node show ''add'' json read = rbind (expr_field show ''add'' json read ''left'') (\<lambda>a. rbind (expr_field show ''add'' json read ''right'') (\<lambda>b. Inr (E_Add a b)))"
  "expr_node show ''sub'' json read = rbind (expr_field show ''sub'' json read ''left'') (\<lambda>a. rbind (expr_field show ''sub'' json read ''right'') (\<lambda>b. Inr (E_Sub a b)))"
  "expr_node show ''mul'' json read = rbind (expr_field show ''mul'' json read ''left'') (\<lambda>a. rbind (expr_field show ''mul'' json read ''right'') (\<lambda>b. Inr (E_Mul a b)))"
  "expr_node show ''div'' json read = rbind (expr_field show ''div'' json read ''left'') (\<lambda>a. rbind (expr_field show ''div'' json read ''right'') (\<lambda>b. Inr (E_Div a b)))"
  "expr_node show ''modulo'' json read =
     rbind (expr_field show ''modulo'' json read ''receiver'') (\<lambda>a. rbind (expr_field show ''modulo'' json read ''divisor'') (\<lambda>b. Inr (E_Modulo a b)))"
  "expr_node show ''compare'' json read = rbind (comparison_field show ''compare'' json) (\<lambda>c.
     rbind (expr_field show ''compare'' json read ''left'') (\<lambda>a. rbind (expr_field show ''compare'' json read ''right'') (\<lambda>b. Inr (E_Compare c a b))))"
  by (simp_all add: expr_node_def Let_def)

lemma unary_arms [node_arms]:
  "expr_node show ''not'' json read = rbind (expr_field show ''not'' json read ''expr'') (\<lambda>a. Inr (E_Not a))"
  "expr_node show ''empty'' json read = rbind (expr_field show ''empty'' json read ''receiver'') (\<lambda>a. Inr (E_Empty a))"
  "expr_node show ''to_s'' json read = rbind (expr_field show ''to_s'' json read ''receiver'') (\<lambda>a. Inr (E_ToS a))"
  "expr_node show ''size'' json read = rbind (expr_field show ''size'' json read ''receiver'') (\<lambda>a. Inr (E_Size a))"
  "expr_node show ''first'' json read = rbind (expr_field show ''first'' json read ''receiver'') (\<lambda>a. Inr (E_First a))"
  "expr_node show ''last'' json read = rbind (expr_field show ''last'' json read ''receiver'') (\<lambda>a. Inr (E_Last a))"
  "expr_node show ''sign_test'' json read =
     rbind (comparison_field show ''sign_test'' json) (\<lambda>c. rbind (expr_field show ''sign_test'' json read ''receiver'') (\<lambda>a. Inr (E_SignTest c a)))"
  by (simp_all add: expr_node_def Let_def)

lemma leaf_arms [node_arms]:
  "expr_node show ''int'' json read = rbind (node_field show ''int'' json ''value'') (\<lambda>v.
     rbind (ok_or (''int'' @ [CHR 0x27] @ ''s value isn'' @ [CHR 0x27] @ ''t an integer: '' @ show json) (sv_as_i64 v)) (\<lambda>n. Inr (E_Int n)))"
  "expr_node show ''float'' json read = rbind (node_field show ''float'' json ''value'') (\<lambda>v.
     rbind (ok_or (''float'' @ [CHR 0x27] @ ''s value isn'' @ [CHR 0x27] @ ''t a number: '' @ show json) (sv_as_f64 v)) (\<lambda>f. Inr (E_Float f)))"
  "expr_node show ''str'' json read = rbind (str_field show ''str'' json ''value'') (\<lambda>s. Inr (E_Str s))"
  "expr_node show ''bool'' json read = rbind (bool_field show ''bool'' json ''value'') (\<lambda>b. Inr (E_Bool b))"
  "expr_node show ''nil'' json read = Inr E_Nil"
  "expr_node show ''lookup'' json read = rbind (path_field show ''lookup'' json ''path'') (\<lambda>segments. Inr (E_Lookup (str_join ''.'' segments)))"
  "expr_node show ''array'' json read = rbind (element_fields show ''array'' json read) (\<lambda>es. Inr (E_Array es))"
  by (simp_all add: expr_node_def Let_def)

lemma text_arms [node_arms]:
  "expr_node show ''matches_regex'' json read = rbind (expr_field show ''matches_regex'' json read ''receiver'') (\<lambda>r.
     rbind (str_field show ''matches_regex'' json ''pattern'') (\<lambda>pattern. rbind (str_field show ''matches_regex'' json ''flags'') (\<lambda>flags.
       Inr (E_MatchesRegex r pattern flags))))"
  "expr_node show ''presence'' json read = rbind (expr_field show ''presence'' json read ''receiver'') (\<lambda>r.
     rbind (bool_field show ''presence'' json ''negated'') (\<lambda>n. Inr (E_Presence r n)))"
  "expr_node show ''assignment'' json read = rbind (expr_field show ''assignment'' json read ''receiver'') (\<lambda>r.
     rbind (bool_field show ''assignment'' json ''negated'') (\<lambda>n. Inr (E_Assignment r n)))"
  "expr_node show ''split'' json read = rbind (expr_field show ''split'' json read ''receiver'') (\<lambda>r.
     rbind (str_field show ''split'' json ''separator'') (\<lambda>s. Inr (E_Split r s)))"
  "expr_node show ''strip'' json read = rbind (expr_field show ''strip'' json read ''receiver'') (\<lambda>r.
     rbind (side_field show ''strip'' json) (\<lambda>s. Inr (E_Strip r s)))"
  "expr_node show ''starts_with'' json read = rbind (expr_field show ''starts_with'' json read ''receiver'') (\<lambda>r.
     rbind (str_field show ''starts_with'' json ''substring'') (\<lambda>s. Inr (E_StartsWith r s)))"
  "expr_node show ''ends_with'' json read = rbind (expr_field show ''ends_with'' json read ''receiver'') (\<lambda>r.
     rbind (str_field show ''ends_with'' json ''substring'') (\<lambda>s. Inr (E_EndsWith r s)))"
  by (simp_all add: expr_node_def Let_def)

lemma block_arms [node_arms]:
  "expr_node show ''block_predicate'' json read = rbind (mode_field show ''block_predicate'' json) (\<lambda>mode.
     rbind (expr_field show ''block_predicate'' json read ''receiver'') (\<lambda>r. rbind (str_field show ''block_predicate'' json ''param'') (\<lambda>p.
     rbind (expr_field show ''block_predicate'' json read ''predicate'') (\<lambda>q. Inr (E_BlockPredicate mode r p q)))))"
  "expr_node show ''find'' json read =
     rbind (expr_field show ''find'' json read ''receiver'') (\<lambda>r. rbind (str_field show ''find'' json ''param'') (\<lambda>p.
     rbind (expr_field show ''find'' json read ''predicate'') (\<lambda>q. rbind (path_field show ''find'' json ''path'') (\<lambda>path. Inr (E_Find r p q path)))))"
  "expr_node show ''sum'' json read =
     rbind (expr_field show ''sum'' json read ''receiver'') (\<lambda>r. rbind (str_field show ''sum'' json ''param'') (\<lambda>p.
     rbind (expr_field show ''sum'' json read ''predicate'') (\<lambda>q. Inr (E_Sum r p q))))"
  by (simp_all add: expr_node_def Let_def)

lemmas reading = op_node_def expr_of_op node_arms expr_field_def node_field_def str_field_def bool_field_def path_field_def
  mode_field_def side_field_def element_fields_def

lemma read_strings: "traverse (\<lambda>v. ok_or e (sv_as_str v)) (map SV_String ss) = Inr ss"
  by (induction ss) simp_all

lemma read_emitted_comparison:
  "sv_get json ''cmp'' = Some (read_back (emit_comparison row)) \<Longrightarrow> comparison_field show op json = Inr (row_comparison row)"
  by (simp add: comparison_field_def node_field_def emit_comparison_def row_comparison_def Let_def)

section \<open>Emitted trees are read as what they stand for\<close>

lemma reads_or_chain:
  "list_all2 (reads_as show) js es \<Longrightarrow> reads_as show (reduce_or js) (or_chain es)"
proof (cases js)
  case Nil
  moreover assume "list_all2 (reads_as show) js es"
  ultimately show ?thesis by (simp add: reading)
next
  case (Cons j js')
  moreover assume "list_all2 (reads_as show) js es"
  ultimately obtain e es' where es: "es = e # es'" "reads_as show j e" "list_all2 (reads_as show) js' es'"
    by (auto simp: list_all2_Cons1)
  have "reads_as show (foldl or_node j js') (foldl E_Or e es')" using es(3,2)
  proof (induction js' es' arbitrary: j e rule: list_all2_induct)
    case (Cons x xs y ys)
    from Cons(1,4) have "reads_as show (or_node j x) (E_Or e y)" by (simp add: or_node_def reading)
    then show ?case using Cons(3) by simp
  qed simp
  with Cons es(1) show ?thesis by simp
qed

lemma emitted_list:
  assumes "\<And>x. x \<in> set xs \<Longrightarrow> \<exists>j. f x = Some j \<and> reads_as show j (h x)"
  shows "\<exists>js. all_emitted (map f xs) = Some js \<and> list_all2 (reads_as show) js (map h xs)"
  using assms
proof (induction xs)
  case (Cons x xs)
  then obtain js where "all_emitted (map f xs) = Some js" "list_all2 (reads_as show) js (map h xs)" by auto
  moreover obtain j where "f x = Some j" "reads_as show j (h x)" using Cons.prems by auto
  ultimately show ?case by simp
qed simp

lemma traverse_read: "list_all2 (reads_as show) js es \<Longrightarrow> traverse (expr_of_json show) (map read_back js) = Inr es"
  by (simp add: traverse_Inr list_all2_map1)

lemma find_equals: "find_operator ''=='' = Some \<lparr>or_symbol = ''=='', or_less_than = False, or_equal = True, or_negated = False\<rparr>"
  by (simp add: find_operator_def OPERATORS_def)

lemma reads_compare:
  "reads_as show a e \<Longrightarrow> reads_as show b e' \<Longrightarrow>
   reads_as show (JV_Object [(''op'', JV_String ''compare''), (''cmp'', emit_comparison row), (''left'', a), (''right'', b)])
     (E_Compare (row_comparison row) e e')"
  by (simp add: reading read_emitted_comparison)

lemma shown_int: "sv_as_i64 (SV_Number (show_int (sint v))) = Some v"
  by simp

lemma emitted_reads:
  "spoken r \<Longrightarrow> \<exists>j. emit_resolver r = Some j \<and> reads_as show j (meant_by r)"
  "spoken_predicate q \<Longrightarrow> \<exists>j. emit_bool q = Some j \<and> reads_as show j (meant_by_predicate q)"
proof (induction r and q rule: emit_resolver_emit_bool.induct)
  case (6 path)
  then show ?case by (simp add: reading read_strings join_split comp_def)
next
  case (11 row r)
  then show ?case by (auto simp: reading read_emitted_comparison)
next
  case (25 mode r param q)
  then show ?case by (cases mode) (auto simp: reading)
next
  case (28 elements)
  then obtain js where js: "all_emitted (map emit_resolver elements) = Some js" "list_all2 (reads_as show) js (map meant_by elements)"
    using emitted_list [of elements emit_resolver "show" meant_by] by (auto simp: list_all_iff)
  then show ?case by (simp add: reading traverse_read)
next
  case (32 row l r)
  then show ?case by (auto simp: op_node_def intro!: reads_compare)
next
  case (33 haystack needle)
  show ?case
  proof (cases "\<exists>elements. haystack = R_Array elements")
    case True
    then obtain elements where h: "haystack = R_Array elements" by blast
    let ?row = "\<lparr>or_symbol = ''=='', or_less_than = False, or_equal = True, or_negated = False\<rparr>"
    have "\<exists>j. op_node ''compare'' [(''cmp'', Some (emit_comparison ?row)), (''left'', emit_resolver needle), (''right'', emit_resolver e)] = Some j \<and>
        reads_as show j (E_Compare equals (meant_by needle) (meant_by e))" if "e \<in> set elements" for e
    proof -
      note e = that
      have "spoken needle" "spoken e" using "33.prems" h that by (auto simp: list_all_iff)
      then obtain j n where "emit_resolver e = Some j" "reads_as show j (meant_by e)"
        and n: "emit_resolver needle = Some n" "reads_as show n (meant_by needle)"
        using "33.IH"(31,32) [OF h find_equals e] by blast
      then show ?thesis using n reads_compare [of "show" n "meant_by needle" j "meant_by e" ?row]
        by (simp add: op_node_def row_comparison_def equals_def)
    qed
    then obtain js where
      "all_emitted (map (\<lambda>e. op_node ''compare'' [(''cmp'', Some (emit_comparison ?row)), (''left'', emit_resolver needle), (''right'', emit_resolver e)]) elements) = Some js"
      "list_all2 (reads_as show) js (map (\<lambda>e. E_Compare equals (meant_by needle) (meant_by e)) elements)"
      using emitted_list [where xs = elements and h = "\<lambda>e. E_Compare equals (meant_by needle) (meant_by e)" and f = "\<lambda>e.
        op_node ''compare'' [(''cmp'', Some (emit_comparison ?row)), (''left'', emit_resolver needle), (''right'', emit_resolver e)]"] by blast
    with h show ?thesis by (simp add: find_equals reads_or_chain)
  next
    case False
    with 33 obtain h n where "emit_resolver haystack = Some h" "reads_as show h (meant_by haystack)"
      "emit_resolver needle = Some n" "reads_as show n (meant_by needle)" by (cases haystack) auto
    moreover have "emit_bool (B_Include haystack needle) = op_node ''include'' [(''haystack'', emit_resolver haystack), (''needle'', emit_resolver needle)]"
      "meant_by_predicate (B_Include haystack needle) = E_Include (meant_by haystack) (meant_by needle)"
      using False by (cases haystack; simp)+
    ultimately show ?thesis by (simp add: reading del: emit_bool.simps meant_by_predicate.simps)
  qed
qed (auto simp: reading read_strings comp_def side_named_def split: block_mode.splits)

text \<open>
  C12: the tree the front end emits for a predicate is one the host reads, as the expression the predicate stands for:
  no operation, field or literal of the one is unknown to the other.
\<close>

theorem emitted_predicate_read:
  assumes "spoken_predicate q"
  shows "\<exists>j. emit_bool q = Some j \<and> expr_of_json show (read_back j) = Inr (meant_by_predicate q)"
  using emitted_reads(2) [OF assms] .

section \<open>Inclusion in a literal list\<close>

text \<open>An object has no key twice.\<close>

fun keyed :: "value \<Rightarrow> bool" where
  "keyed (V_Array vs) = list_all keyed vs"
| "keyed (V_Object flds) = (distinct (map fst flds) \<and> list_all (\<lambda>(_, v). keyed v) flds)"
| "keyed _ = True"

lemma f64_eq_sym: "f64_eq a b = f64_eq b a"
  by (cases a; cases b) (auto simp: f64_eq_def Let_def min.commute split: if_splits)

lemma values_equal_sym: "keyed a \<Longrightarrow> keyed b \<Longrightarrow> values_equal a b \<Longrightarrow> values_equal b a"
proof (induction a b rule: values_equal.induct)
  case (4 a b)
  then show ?case by (simp add: f64_eq_sym)
next
  case (5 a b)
  have "values_equal (b ! n) (a ! n)" if "n < length a" for n
  proof -
    have "(a ! n, b ! n) \<in> set (zip a b)" using 5 that by (auto simp: set_zip)
    then show ?thesis using 5 that by (fastforce simp: list_all_iff)
  qed
  then show ?case using 5 by (auto simp: list_all_length)
next
  case (6 a b)
  have d: "distinct (map fst a)" "distinct (map fst b)" using 6 by auto
  have len: "length a = length b" using "6.prems"(3) by simp
  have "map_of b k \<noteq> None" if "k \<in> fst ` set a" for k
    using that "6.prems"(3) by (auto simp: list_all_iff simp del: map_of_eq_None_iff dest!: bspec split: option.splits)
  then have sub: "fst ` set a \<subseteq> fst ` set b" by (metis map_of_eq_None_iff subsetI)
  have "card (fst ` set a) = card (fst ` set b)"
    using d len by (metis distinct_card length_map set_map)
  then have keys: "fst ` set b = fst ` set a" using sub by (intro card_subset_eq [symmetric]) auto
  have "\<exists>y. map_of a k = Some y \<and> values_equal x y" if kx: "(k, x) \<in> set b" for k x
  proof -
    from kx keys obtain y where y: "(k, y) \<in> set a" by (metis fst_conv image_iff prod.collapse)
    have "map_of b k = Some x" "map_of a k = Some y" using kx y d by simp_all
    moreover have "values_equal y x" using "6.prems"(3) y \<open>map_of b k = Some x\<close> by (fastforce simp: list_all_iff)
    ultimately show ?thesis using "6.IH" [of "(k, y)" k y x] y kx "6.prems"(1,2) by (fastforce simp: list_all_iff)
  qed
  then show ?case using len by (fastforce simp: list_all_iff)
qed auto

lemma interpret_or:
  "interpret_expr engine (E_Or l r) ctx =
     rbind (interpret_expr engine l ctx) (\<lambda>lv.
       if truthy lv then Inr (V_Bool True) else rbind (interpret_expr engine r ctx) (\<lambda>rv. Inr (V_Bool (truthy rv))))"
  by (simp add: interpret_node interpret_operator_def dispatch_operator_def logical_interpret_def)

lemma interpret_equals:
  "interpret_expr engine (E_Compare equals l r) ctx =
     rbind (interpret_expr engine l ctx) (\<lambda>lv. rbind (interpret_expr engine r ctx) (\<lambda>rv. Inr (V_Bool (values_equal lv rv))))"
  by (simp add: interpret_node interpret_operator_def dispatch_operator_def comparison_interpret_def apply_comparison_def equals_def)

lemma interpret_inclusion:
  "interpret_expr engine (E_Include (E_Array es) n) ctx = Inr v \<longleftrightarrow>
     (\<exists>w vs. interpret_expr engine n ctx = Inr w \<and> list_all2 (\<lambda>e v. interpret_expr engine e ctx = Inr v) es vs \<and>
        v = V_Bool (list_ex (\<lambda>item. values_equal item w) vs))"
proof -
  have "interpret_expr engine (E_Include (E_Array es) n) ctx =
      rbind (interpret_expr engine n ctx) (\<lambda>w. rbind (traverse (\<lambda>e. interpret_expr engine e ctx) es) (\<lambda>vs.
        Inr (V_Bool (list_ex (\<lambda>item. values_equal item w) vs))))"
    by (cases "traverse (\<lambda>e. interpret_expr engine e ctx) es")
      (simp_all add: interpret_node interpret_operator_def dispatch_operator_def membership_interpret_def)
  then show ?thesis by (auto simp: traverse_Inr)
qed

lemma interpret_alternatives:
  "interpret_expr engine e ctx = Inr (V_Bool b) \<Longrightarrow> list_all2 (\<lambda>e c. interpret_expr engine e ctx = Inr (V_Bool c)) es cs \<Longrightarrow>
   interpret_expr engine (foldl E_Or e es) ctx = Inr (V_Bool (b \<or> list_ex id cs))"
proof (induction es arbitrary: e b cs)
  case (Cons x es)
  then obtain c cs' where cs: "cs = c # cs'" "interpret_expr engine x ctx = Inr (V_Bool c)"
    "list_all2 (\<lambda>e c. interpret_expr engine e ctx = Inr (V_Bool c)) es cs'"
    by (auto simp: list_all2_Cons1)
  have "interpret_expr engine (E_Or e x) ctx = Inr (V_Bool (b \<or> c))" using Cons.prems(1) cs(2) by (simp add: interpret_or)
  from Cons.IH [OF this cs(3)] show ?case by (simp add: cs(1))
qed simp

lemma alternatives_answer:
  assumes "interpret_expr engine (E_Include (E_Array es) n) ctx = Inr v"
    and "\<And>e x. e = n \<or> e \<in> set es \<Longrightarrow> interpret_expr engine e ctx = Inr x \<Longrightarrow> keyed x"
  shows "interpret_expr engine (or_chain (map (\<lambda>e. E_Compare equals n e) es)) ctx = Inr v"
proof -
  obtain w vs where w: "interpret_expr engine n ctx = Inr w" and vs: "list_all2 (\<lambda>e v. interpret_expr engine e ctx = Inr v) es vs"
    and v: "v = V_Bool (list_ex (\<lambda>item. values_equal item w) vs)"
    using assms(1) unfolding interpret_inclusion by blast
  have "keyed w" using assms(2) w by blast
  have "list_all keyed vs" using vs assms(2) by (induction rule: list_all2_induct) auto
  with \<open>keyed w\<close> have v: "v = V_Bool (list_ex id (map (values_equal w) vs))"
    unfolding v by (induction vs) (auto intro: values_equal_sym)
  have cs: "list_all2 (\<lambda>e c. interpret_expr engine e ctx = Inr (V_Bool c)) (map (\<lambda>e. E_Compare equals n e) es) (map (values_equal w) vs)"
    using vs w by (induction rule: list_all2_induct) (simp_all add: interpret_equals)
  show ?thesis
  proof (cases es)
    case Nil
    with vs v show ?thesis by simp
  next
    case (Cons x es')
    then obtain c cs' where "map (values_equal w) vs = c # cs'" "interpret_expr engine (E_Compare equals n x) ctx = Inr (V_Bool c)"
      "list_all2 (\<lambda>e c. interpret_expr engine e ctx = Inr (V_Bool c)) (map (\<lambda>e. E_Compare equals n e) es') cs'"
      using cs by (auto simp: list_all2_Cons1)
    then show ?thesis using Cons v interpret_alternatives by (simp del: list.map(2)) simp
  qed
qed

text \<open>
  C13: inclusion in a literal list is emitted as alternatives, and whenever the inclusion itself has an answer the
  expression the host reads from them has the same, for values whose objects have no key twice.
\<close>

theorem literal_inclusion_emitted:
  assumes "spoken_predicate (B_Include (R_Array es) needle)"
    and "interpret_expr engine (E_Include (E_Array (map meant_by es)) (meant_by needle)) ctx = Inr v"
    and "\<forall>e\<in>set (needle # es). \<forall>x. interpret_expr engine (meant_by e) ctx = Inr x \<longrightarrow> keyed x"
  shows "\<exists>j e. emit_bool (B_Include (R_Array es) needle) = Some j \<and> expr_of_json show (read_back j) = Inr e \<and>
     interpret_expr engine e ctx = Inr v"
proof -
  obtain j where "emit_bool (B_Include (R_Array es) needle) = Some j"
    "expr_of_json show (read_back j) = Inr (or_chain (map (\<lambda>e. E_Compare equals (meant_by needle) e) (map meant_by es)))"
    using emitted_reads(2) [OF assms(1), of "show"] by (auto simp: comp_def)
  moreover have "interpret_expr engine (or_chain (map (\<lambda>e. E_Compare equals (meant_by needle) e) (map meant_by es))) ctx = Inr v"
    by (rule alternatives_answer [OF assms(2)]) (use assms(3) in auto)
  ultimately show ?thesis by blast
qed

text \<open>The other way round it fails: an alternative that holds ends the search, where the list is evaluated whole.\<close>

lemma alternatives_stop_early:
  "interpret_expr engine (or_chain (map (\<lambda>e. E_Compare equals (E_Int 1) e) [E_Int 1, E_Lookup ''x''])) empty_ctx = Inr (V_Bool True)"
  "\<not> is_ok (interpret_expr engine (E_Include (E_Array [E_Int 1, E_Lookup ''x'']) (E_Int 1)) empty_ctx)"
proof -
  show "interpret_expr engine (or_chain (map (\<lambda>e. E_Compare equals (E_Int 1) e) [E_Int 1, E_Lookup ''x''])) empty_ctx = Inr (V_Bool True)"
    by (simp add: interpret_or interpret_equals)
  have "\<not> is_ok (lookup_value ''x'' empty_ctx)" by code_simp
  then show "\<not> is_ok (interpret_expr engine (E_Include (E_Array [E_Int 1, E_Lookup ''x'']) (E_Int 1)) empty_ctx)"
    using interpret_inclusion [of engine "[E_Int 1, E_Lookup ''x'']" "E_Int 1" empty_ctx]
    by (auto simp: is_ok_iff list_all2_Cons1)
qed

section \<open>Concrete predicates\<close>

definition sample_inclusion :: predicate_tree where
  "sample_inclusion = B_Include (R_Array [R_Integer 1, R_String ''a'']) (R_Lookup ''line.kind'')"

definition sample_predicate :: predicate_tree where
  "sample_predicate =
     B_And sample_inclusion
       (B_Not (B_Compare \<lparr>or_symbol = ''<'', or_less_than = True, or_equal = False, or_negated = False\<rparr>
          (R_Size (R_Strip (R_Lookup ''name'') ''both'')) (R_Modulo (R_Lookup ''count'') (R_Integer 3))))"

theorem emitted_predicate_read_witness:
  "\<exists>j. emit_bool sample_predicate = Some j \<and> expr_of_json (\<lambda>_. ''?'') (read_back j) = Inr (meant_by_predicate sample_predicate)"
  by (rule emitted_predicate_read) (simp add: sample_predicate_def sample_inclusion_def)

definition sample_ctx :: eval_ctx where
  "sample_ctx =
     \<lparr>ctx_args = json_node_fielded (Json_Node [(''line'', Slot_Object (Json_Node [(''kind'', Slot_Scalar (V_Str ''a''))] False))] True),
      ctx_instance = no_fields\<rparr>"

lemma sample_lookup_kind: "lookup_value ''line.kind'' sample_ctx = Inr (V_Str ''a'')"
  by code_simp

theorem literal_inclusion_emitted_witness:
  "\<exists>j e. emit_bool sample_inclusion = Some j \<and> expr_of_json (\<lambda>_. ''?'') (read_back j) = Inr e \<and>
     interpret_expr no_engine e sample_ctx = Inr (V_Bool True)"
  unfolding sample_inclusion_def
  by (rule literal_inclusion_emitted) (auto simp: interpret_inclusion sample_lookup_kind list_all2_Cons1)

end
