(* ===== verification/Dry_Run.thy ===== *)
theory Dry_Run
  imports Entity_Dispatch_Laws
begin

text \<open>
  A dry run of a command against a real one. \<open>preview\<close> of \<open>kernel/cli.rs\<close> runs a dispatch with a collector
  bound; what the collector holds and what that dispatch answers tell what the real dispatch does. The
  facts about single stages are those of \<open>Collecting\<close>; here they are carried through the stages of \<open>Rules\<close>
  and the whole loop.
\<close>

section \<open>The stages of a dispatch\<close>

lemma rule_faults: "rule_holds engine ctx e = Inl r \<Longrightarrow> \<exists>why. r = Fault why"
  unfolding rule_holds_def using interpret_faults only_faults_Inl by (cases "interpret_expr engine e ctx") fastforce+

lemma gathers_each: "(\<And>x. x \<in> set xs \<Longrightarrow> gathers (f x)) \<Longrightarrow> gathers (for_each f xs)"
proof (induction xs)
  case (Cons x xs)
  then show ?case unfolding for_each.simps by (intro dry_intros) simp_all
qed (simp add: gathers_def)

lemma gathers_entity_invariants: "gathers (enforce_entity_invariants engine owner entity)"
proof (induction engine owner entity rule: enforce_entity_invariants.induct)
  case (1 engine owner name list_field specs nested)
  show ?case
  proof (cases "fl_items owner list_field")
    case (Some elements)
    then show ?thesis unfolding enforce_entity_invariants.simps
      by (simp only: option.case, intro gathers_each gathers_rules dry_intros 1 rule_faults)
  qed (simp add: gathers_sret del: sret_lift_simps)
qed

lemma conclusive_invariants [dry_intros]: "conclusive (enforce_invariants engine record name invs)"
proof -
  have "enforce_invariants engine record name invs = (\<lambda>c. sbind (sbind (check_rules
      (\<lambda>rule. rule_holds engine \<lparr>ctx_args = no_fields, ctx_instance = record\<rparr> (is_expr rule))
      (invariant_refusal name) (iv_aggregate invs))
      (\<lambda>_. for_each (enforce_entity_invariants engine record) (iv_entities invs))) (\<lambda>_. settle (mark c)) c)"
    by (simp add: enforce_invariants_def [abs_def] sbind_assoc)
  moreover have "conclusive \<dots>"
    by (intro conclusive_stage gathers_bind gathers_rules gathers_each gathers_entity_invariants rule_faults)
  ultimately show ?thesis by simp
qed

lemma conclusive_givens [dry_intros]: "conclusive (enforce_givens engine record args givens command_name qualified key)"
  unfolding enforce_givens_def by (intro conclusive_rules rule_faults)

lemma conclusive_ensures [dry_intros]: "conclusive (enforce_ensures engine now old args rules command_name)"
  unfolding enforce_ensures_def by (intro conclusive_rules rule_faults)

lemma conclusive_decide:
  assumes "\<And>r. conclusive (apply_mutations r)"
  shows "conclusive (decide engine rops ops cmd repo h apply_mutations boundary seeds)"
  unfolding decide_def split_def by (intro dry_intros assms)

text \<open>A mutation handed to an element of an entity list is conclusive when the element's own mutation is.\<close>

lemma conclusive_entity_command:
  assumes "\<And>e. conclusive (apply_mutations e)"
  shows "conclusive (apply_entity_command engine tops eops spec get_list_mut apply_mutations parent)"
  unfolding apply_entity_command_eq element_decide_def Let_def split_def
  by (intro dry_intros conclusive_rules rule_faults assms)

section \<open>A dry run of a dispatch\<close>

definition dry_dispatch ::
  "regex_engine \<Rightarrow> 'r record_ops \<Rightarrow> ('s, 'r) repo_ops \<Rightarrow> command_spec \<Rightarrow> 's \<Rightarrow> 'r hydrate \<Rightarrow> 'r mutator \<Rightarrow> unit res \<Rightarrow>
   (string \<times> value option) list \<Rightarrow> ('r \<times> event list) res \<times> collected list" where
  "dry_dispatch engine rops ops cmd scratch h apply_mutations boundary seeds =
     collecting (\<lambda>c. let d = dispatch engine rops ops cmd scratch [] c h apply_mutations boundary seeds
       in (dd_result d, dd_collector d))"

text \<open>
  C36: a dry run tells the real run. Dispatching a command on a copy of the repository with a collector bound
  answers a result and the refusals collected, of every stage of rules up to the first that fails. The real dispatch
  raises the first refusal collected, whether or not a later rule of the stage faulted; when none was
  collected it answers exactly what the dry run answered, the record and the events or the refusal. So the dry
  run refuses exactly when the real run does, and its own answer is the real one but for a fault. The argument
  gates, which stand before the dispatch, are not part of it.
\<close>

theorem dry_run_agrees:
  assumes "\<forall>r. conclusive (apply_mutations r)"
    and "dry_dispatch engine rops ops cmd repo h apply_mutations boundary seeds = (answer, kept)"
  shows "dd_result (dispatch engine rops ops cmd repo muts None h apply_mutations boundary seeds) = raised kept answer \<and>
    isl answer = isl (raised kept answer) \<and> (answer = raised kept answer \<or> (\<exists>why. answer = Inl (Fault why)))"
proof -
  let ?decide = "decide engine rops ops cmd repo h apply_mutations boundary seeds"
  have s: "conclusive ?decide" using assms(1) by (intro conclusive_decide) simp
  from conclusiveD [OF s, of "[]"] obtain r more where
    r: "?decide (Some []) = (r, Some more)" "?decide None = (raised more r, None)"
      "more = [] \<or> isl r \<and> (faulted r \<or> r = raised more r)" by auto
  have "dry_dispatch engine rops ops cmd repo h apply_mutations boundary seeds =
      (dd_result (commit rops ops cmd repo [] (r, Some more)), more)"
    by (cases r) (simp_all add: dry_dispatch_def collecting_def dispatch_refines_spec r(1) commit_def split: prod.split)
  with assms(2) have k: "kept = more" "answer = dd_result (commit rops ops cmd repo [] (r, Some more))" by auto
  show ?thesis
    using r(3) by (cases r; cases more) (auto simp: k dispatch_refines_spec r(2) commit_def split: prod.split)
qed

text \<open>
  A withdrawal of nothing from an account whose rules ask for a positive amount and then for an
  attribute it has not: the real run refuses with the first given, the dry run keeps that refusal and answers the fault.
\<close>

definition faulty_withdraw_spec :: command_spec where
  "faulty_withdraw_spec = (withdraw_spec 0)\<lparr>cs_givens := cs_givens (withdraw_spec 0) @
     [\<lparr>gs_description = ''the owner is rich'', gs_expr = E_Compare at_least (E_Lookup ''wealth'') (E_Int 1), gs_corrects = None\<rparr>]\<rparr>"

theorem dry_run_agrees_witness:
  "dry_dispatch no_engine account_ops mem_ops faulty_withdraw_spec sample_store (Act ''A1'') (withdraw 0) (Inr ()) [] =
     (Inl (Fault (''cannot resolve '' @ debug_str ''wealth'' @ '' '' @ em_dash @ '' no such attribute or argument'')),
      [\<lparr>co_refusal = GivenNotMet (refused_text ''Withdraw'' ''the amount is positive''),
        co_detail = detail_rule ''the amount is positive''\<rparr>]) \<and>
   dd_result (dispatch no_engine account_ops mem_ops faulty_withdraw_spec sample_store [] None (Act ''A1'') (withdraw 0) (Inr ()) []) =
     Inl (GivenNotMet (refused_text ''Withdraw'' ''the amount is positive''))"
proof -
  have dry: "dry_dispatch no_engine account_ops mem_ops faulty_withdraw_spec sample_store (Act ''A1'') (withdraw 0) (Inr ()) [] =
      (Inl (Fault (''cannot resolve '' @ debug_str ''wealth'' @ '' '' @ em_dash @ '' no such attribute or argument'')),
       [\<lparr>co_refusal = GivenNotMet (refused_text ''Withdraw'' ''the amount is positive''),
         co_detail = detail_rule ''the amount is positive''\<rparr>])"
    by code_simp
  have "\<forall>r. conclusive (withdraw 0 r)"
    unfolding withdraw_def by (intro allI conclusive_sret)
  from dry_run_agrees [OF this dry, of "[]"] dry show ?thesis by simp
qed

end
