(* ===== verification/Spec2Isabelle.thy ===== *)
theory Spec2Isabelle
  imports Arithmetic_Laws Json_Roundtrip Argument_Gates Entity_Dispatch_Laws Cursor_Laws Order_Laws
    Named_Query_Laws Routing Needs_Laws Reference_Lookup Reaction_Routing Compensation_Loop Read_Model_Laws Whole_Value
    Expression_Roundtrip Rate_Limit_Laws Signin_Laws Member_Access_Laws Session_Tokens_Laws
    Expr_Json_Laws Dry_Run
begin

text \<open>
  A verification of Hecks: the kernel that dispatches commands to the aggregates of a generated domain
  (\<open>rust/src/kernel\<close>, \<open>rust/expr\<close>), the expression and pattern readers of its front end
  (\<open>rust/parser\<close>), and the host that journals commands around it and decides who may send them (\<open>rust/host\<close>).

  \<^bold>\<open>The program.\<close> A domain's generated code hands the kernel its records and closures; the kernel
  decodes a command's arguments, finds or builds the record, evaluates the command's rules with an
  expression interpreter, saves the record and emits events, to which policies and process managers react
  with further commands. Queries and reports read the records back. The host keeps the accepted commands in a
  journal with a snapshot, runs the kernel as a module on snapshot and later commands, delivers reactions to
  other domains, limits the rate of requests, checks sign-ins and keeps the members of a site.

  The generated closures and tables, the record types, the regex crate, cryptography, base64, JSON printing in
  the host, the network and the compiled kernel module are parameters of the model. Times are arguments.
  Locks are taken as held for a whole call, as the sources take them.

  \<^bold>\<open>Foundations.\<close>
  \<^item> \<open>Prelude\<close>, \<open>Text_Ops\<close>, \<open>Float64\<close>, \<open>Comparisons\<close>: results, machine integers, the parts of Rust's \<open>str\<close>, \<open>f64\<close>
    and \<open>Ord\<close> the sources call, the stable sort and the ordered maps.
  \<^item> \<open>Refusals\<close>, \<open>Refusal_Wording\<close> (\<open>expr/src/refusal.rs\<close>, \<open>kernel/vocab/refusal_*.rs\<close>): the closed
    sets of refusals, classes, sites and wordings.
  \<^item> \<open>Single_Use\<close>: the contract (locale \<open>single_use\<close>) of whoever accepts a token once, which the sign-in callbacks
    and the handoff tokens both meet.
  \<^item> \<open>Serde_Value\<close>: the JSON value of the host with its insertion-ordered objects.

  \<^bold>\<open>Expressions.\<close>
  \<^item> \<open>Values\<close>, \<open>Expressions\<close>, \<open>Operators\<close>, \<open>Interpreter\<close> (\<open>expr/src\<close>): the expression language and its
    evaluation, total by recursion on the size of an expression; \<open>Arithmetic_Laws\<close> says what the numeric
    operators compute, overflow and division included.
  \<^item> \<open>Expression_Text\<close>, \<open>Expression_Roundtrip\<close> (\<open>parser/src/expr\<close>): the readers of predicates and values, and that
    the canonical text of arithmetic reads back. A panic on an integer literal that is too large is \<open>None\<close>.
  \<^item> \<open>Emitted_Ast\<close>, \<open>Expr_Json\<close> (\<open>parser/src/expr/ast_json.rs\<close>, \<open>host/core/src/expr_json.rs\<close>): the JSON tree of a
    predicate and the host that reads and evaluates it; \<open>Expr_Json_Laws\<close> shows that every emitted tree is read as
    what it stands for.
  \<^item> \<open>Pattern\<close>, \<open>Pattern_Laws\<close>, \<open>Whole_Value\<close> (\<open>kernel/pattern.rs\<close>, \<open>parser/src/build/pattern_subset.rs\<close>): the
    patterns an attribute may declare. The parser runs on fuel of five times the length of the pattern and five,
    which every parse stays below; the backtracking matcher returns for some fuel on every text, and agrees with
    the relational meaning of a pattern.

  \<^bold>\<open>The kernel.\<close>
  \<^item> \<open>Json\<close>, \<open>Json_Parser\<close> (\<open>kernel/json.rs\<close>): the boundary value, its writer and parser;
    \<open>Json_Parser_Laws\<close> and \<open>Json_Roundtrip\<close> bound and invert them.
  \<^item> \<open>Collecting\<close> (\<open>kernel/collecting.rs\<close>): refusals raised at once or collected by a dry run; \<open>Dry_Run\<close>
    carries through the whole loop that what a dry run collects tells what the real run raises.
  \<^item> \<open>Dispatch_Order\<close> (\<open>kernel/vocab/*_dispatch_order.rs\<close>): the declared steps.
  \<^item> \<open>Store\<close> (\<open>kernel/repository.rs\<close>): the repository interface (locale \<open>repository\<close>) and the
    in-memory implementation that interprets it.
  \<^item> \<open>Rules\<close>, \<open>Dispatch\<close>, \<open>Argument_Gates\<close>, \<open>Entity_Dispatch\<close> (\<open>kernel/dispatch.rs\<close>): the two step loops;
    \<open>Dispatch_Laws\<close> and \<open>Entity_Dispatch_Laws\<close> refine them to a decision followed by a commit.
  \<^item> \<open>Needs\<close>, \<open>Routing\<close>, \<open>Reference_Lookup\<close> (\<open>kernel/needs.rs\<close>, \<open>routing.rs\<close>, \<open>reference_lookup.rs\<close>): the facts the
    kernel answers, the envelope of a routed command, and the records a rule reads through references, at most
    four deep.
  \<^item> \<open>Queries\<close>, \<open>Cursor\<close>, \<open>Named_Query\<close>, \<open>Read_Model\<close> (\<open>kernel/query_*.rs\<close>, \<open>named_query.rs\<close>, \<open>read_model.rs\<close>):
    filters, declared orders, cursors, pages, role checks and reports; \<open>Order_Laws\<close>, \<open>Cursor_Laws\<close>,
    \<open>Named_Query_Laws\<close> and \<open>Read_Model_Laws\<close> show that answers are sorted, that pages partition them, and that a
    report holds only linked records.
  \<^item> \<open>Reactions\<close>, \<open>Cascade\<close>, \<open>Reaction_Routing\<close> (\<open>kernel/orchestrate.rs\<close>): policies, fan-outs, process managers and
    compensations as one fuelled recursion over a threaded state. \<open>Cascade_Termination\<close> shows that without root
    policies and compensations fuel of the reaction bound and six is enough; \<open>Cascade_Laws\<close> and \<open>Cascade_Behaviour\<close>
    hold the invariants, and \<open>Compensation_Loop\<close> a domain in which draining never ends.

  \<^bold>\<open>The host.\<close>
  \<^item> \<open>Rate_Limit\<close> (\<open>host/src/rate_limit.rs\<close>): sliding windows, trusted proxies and settings; \<open>Rate_Limit_Laws\<close>
    refines a window to a specification of whom a newcomer displaces, and that one to a history that forgets
    nothing as long as no window sees more clients than the cap.
  \<^item> \<open>Strict_Json\<close>, \<open>Signin\<close>, \<open>Signin_Laws\<close> (\<open>host/src/platform_signin\<close>): the strict reader, compact tokens, the key
    set cache (locale \<open>key_source\<close>) and the ordered checks of a sign-in.
  \<^item> \<open>Host_Clock\<close>, \<open>Host_Needs\<close>, \<open>Host_Store\<close>, \<open>Host_Dispatch\<close> (\<open>host/core/src\<close>): civil dates, the facts a host
    answers, journal and heads in memory, and a dispatch from request to outcome. \<open>Host_Dispatch_Laws\<close> shows what
    a dispatch leaves behind, that journal and snapshot refine a host that keeps the last accepted instances alone,
    and that no reaction for another domain is lost.
  \<^item> \<open>Member_Access\<close>, \<open>Session_Tokens\<close> (\<open>host/src/auth.rs\<close>): the members of a site and the signed tokens;
    \<open>Member_Access_Laws\<close> and \<open>Session_Tokens_Laws\<close> hold the invariants of a site and of its tokens.

  \<^bold>\<open>Not modelled.\<close> The lexer, sentence grammar and emitters of the front end, the code generator and the generated
  domains (their output is the parameter of the kernel); the web server, its pages, payments, the Postgres backend
  and ledger, boot and configuration of the host, the handlers and settings around the sign-in checks (input and
  output around the modelled decisions); log lines; the poisoning of locks and the interleaving of calls inside one
  lock.
\<close>

end
